(* ===== verification/Prelude.thy ===== *)
theory Prelude
  imports Main "HOL-Library.AList"
begin

text \<open>
  Shared ground of the development: the exception type of the package, programs that
  thread a state and may raise, Python values and their truth value, the string methods the
  sources call, and dictionaries as association lists in insertion order.

  Time is an \<^typ>\<open>int\<close> number of microseconds (the resolution of Python's
  \<open>datetime\<close>); durations of the configuration are whole seconds.
\<close>

section \<open>Values, programs with state and exceptions\<close>

text \<open>The Python values user rows and claims hold; a time is its microseconds.\<close>

datatype pyval =
    VNone
  | VBool bool
  | VInt int
  | VStr string
  | VTime int
  | VList "pyval list"
  | VDict "(string \<times> pyval) list"


text \<open>
  The HTTP exceptions of \<open>crudauth/exceptions.py\<close>, one constructor per class, and the
  exceptions of the language the sources raise or catch. \<open>BackendError\<close> is whatever a
  networked backend's client library raises, \<open>HTTPError\<close> what the HTTP client raises.
\<close>

datatype exc =
    CustomException int string
  | BadRequestException string
  | OAuthAccountException string string
  | NotFoundException string
  | ForbiddenException string
  | UnauthorizedException string
  | UnprocessableEntityException string
  | DuplicateValueException string
  | ValueTooLongException "(string \<times> int) list"
  | PasswordPolicyException string "(string \<times> string \<times> (string \<times> pyval) list) list"
  | RateLimitException string "int option" "(string \<times> string) list"
  | SudoLockoutError string "int option"
  | CSRFException string
  | ValueError string
  | NotImplementedError
  | KeyError string
  | RuntimeError string
  | AttributeError string
  | BackendError string
  | TypeError string
  | HTTPError string
  | AssertionError string

text \<open>A database driver's error over a duplicate key.\<close>

definition integrity_error :: exc where
  "integrity_error = BackendError ''IntegrityError''"

text \<open>The status code each class passes to \<open>HTTPException\<close>; \<open>None\<close> for an exception that is not one.\<close>

fun status_code :: "exc \<Rightarrow> int option" where
  "status_code (CustomException c _) = Some c"
| "status_code (BadRequestException _) = Some 400"
| "status_code (OAuthAccountException _ _) = Some 400"
| "status_code (NotFoundException _) = Some 404"
| "status_code (ForbiddenException _) = Some 403"
| "status_code (UnauthorizedException _) = Some 401"
| "status_code (UnprocessableEntityException _) = Some 422"
| "status_code (DuplicateValueException _) = Some 422"
| "status_code (ValueTooLongException _) = Some 422"
| "status_code (PasswordPolicyException _ _) = Some 422"
| "status_code (RateLimitException _ _ _) = Some 429"
| "status_code (SudoLockoutError _ _) = Some 429"
| "status_code (CSRFException _) = Some 403"
| "status_code _ = None"

text \<open>
  A program takes the state and gives a result or an exception together with the state it
  leaves: what was written before a raise stays written.
\<close>

type_synonym ('s, 'a) prog = "'s \<Rightarrow> (exc + 'a) \<times> 's"

definition ret :: "'a \<Rightarrow> ('s, 'a) prog" where
  "ret x = (\<lambda>s. (Inr x, s))"

definition raise :: "exc \<Rightarrow> ('s, 'a) prog" where
  "raise e = (\<lambda>s. (Inl e, s))"

definition bind :: "('s, 'a) prog \<Rightarrow> ('a \<Rightarrow> ('s, 'b) prog) \<Rightarrow> ('s, 'b) prog" where
  "bind m f = (\<lambda>s. case fst (m s) of Inl e \<Rightarrow> (Inl e, snd (m s)) | Inr x \<Rightarrow> f x (snd (m s)))"

definition catch :: "('s, 'a) prog \<Rightarrow> (exc \<Rightarrow> ('s, 'a) prog) \<Rightarrow> ('s, 'a) prog" where
  "catch m h = (\<lambda>s. case fst (m s) of Inl e \<Rightarrow> h e (snd (m s)) | Inr x \<Rightarrow> (Inr x, snd (m s)))"

definition zoom :: "('s \<Rightarrow> 'c) \<Rightarrow> ('c \<Rightarrow> 's \<Rightarrow> 's) \<Rightarrow> ('c, 'a) prog \<Rightarrow> ('s, 'a) prog" where
  "zoom get put m = (\<lambda>s. (fst (m (get s)), put (snd (m (get s))) s))"

definition gets :: "('s \<Rightarrow> 'a) \<Rightarrow> ('s, 'a) prog" where
  "gets f = (\<lambda>s. (Inr (f s), s))"

definition modifies :: "('s \<Rightarrow> 's) \<Rightarrow> ('s, unit) prog" where
  "modifies f = (\<lambda>s. (Inr (), f s))"

fun for_each :: "'x list \<Rightarrow> ('x \<Rightarrow> ('s, unit) prog) \<Rightarrow> ('s, unit) prog" where
  "for_each [] f = ret ()"
| "for_each (x # xs) f = bind (f x) (\<lambda>_. for_each xs f)"

fun map_prog :: "('x \<Rightarrow> ('s, 'a) prog) \<Rightarrow> 'x list \<Rightarrow> ('s, 'a list) prog" where
  "map_prog f [] = ret []"
| "map_prog f (x # xs) = bind (f x) (\<lambda>y. bind (map_prog f xs) (\<lambda>ys. ret (y # ys)))"

text \<open>
  \<open>run_simps\<close> collects the equations that evaluate a program on a state.
\<close>

named_theorems run_simps

lemma ret_run [run_simps]: "ret x s = (Inr x, s)"
  by (simp add: ret_def)

lemma raise_run [run_simps]: "raise e s = (Inl e, s)"
  by (simp add: raise_def)

lemma bind_run [run_simps]:
  "bind m f s = (case fst (m s) of Inl e \<Rightarrow> (Inl e, snd (m s)) | Inr x \<Rightarrow> f x (snd (m s)))"
  by (simp add: bind_def)

lemma catch_run [run_simps]:
  "catch m h s = (case fst (m s) of Inl e \<Rightarrow> h e (snd (m s)) | Inr x \<Rightarrow> (Inr x, snd (m s)))"
  by (simp add: catch_def)

lemma zoom_run [run_simps]: "zoom get put m s = (fst (m (get s)), put (snd (m (get s))) s)"
  by (simp add: zoom_def)

lemma gets_run [run_simps]: "gets f s = (Inr (f s), s)"
  by (simp add: gets_def)

lemma modifies_run [run_simps]: "modifies f s = (Inr (), f s)"
  by (simp add: modifies_def)

lemma bind_Inr: "m s = (Inr x, s') \<Longrightarrow> bind m f s = f x s'"
  by (simp add: run_simps)

lemma bind_Inl: "m s = (Inl e, s') \<Longrightarrow> bind m f s = (Inl e, s')"
  by (simp add: run_simps)

lemma bind_eq_InrE:
  assumes "bind m f s = (Inr y, t)"
  obtains x u where "m s = (Inr x, u)" "f x u = (Inr y, t)"
  using assms by (cases "m s") (auto simp: run_simps split: sum.splits)

section \<open>Python values\<close>

fun truthy :: "pyval \<Rightarrow> bool" where
  "truthy VNone = False"
| "truthy (VBool b) = b"
| "truthy (VInt n) = (n \<noteq> 0)"
| "truthy (VStr s) = (s \<noteq> [])"
| "truthy (VTime t) = True"
| "truthy (VList xs) = (xs \<noteq> [])"
| "truthy (VDict xs) = (xs \<noteq> [])"

fun is_str :: "pyval \<Rightarrow> bool" where
  "is_str (VStr s) = True"
| "is_str _ = False"

text \<open>Decimal printing, Python's \<open>str(int)\<close>, and reading, \<open>int(s)\<close>.\<close>

fun str_of_nat :: "nat \<Rightarrow> string" where
  "str_of_nat n =
     (if n < 10 then [char_of (48 + n)] else str_of_nat (n div 10) @ [char_of (48 + n mod 10)])"

declare str_of_nat.simps [simp del]

definition str_of_int :: "int \<Rightarrow> string" where
  "str_of_int i = (if i < 0 then ''-'' @ str_of_nat (nat (- i)) else str_of_nat (nat i))"

definition digit_value :: "char \<Rightarrow> nat option" where
  "digit_value c = (let n = (of_char c :: nat) in if 48 \<le> n \<and> n \<le> 57 then Some (n - 48) else None)"

fun nat_of_digits :: "nat \<Rightarrow> string \<Rightarrow> nat option" where
  "nat_of_digits acc [] = Some acc"
| "nat_of_digits acc (c # s) =
     (case digit_value c of None \<Rightarrow> None | Some d \<Rightarrow> nat_of_digits (10 * acc + d) s)"

definition int_of_str :: "string \<Rightarrow> int option" where
  "int_of_str s =
     (case s of [] \<Rightarrow> None
      | c # t \<Rightarrow> if c = CHR ''-'' then (if t = [] then None else map_option (\<lambda>n. - int n) (nat_of_digits 0 t))
                 else map_option int (nat_of_digits 0 s))"

lemma digit_value_char_of [simp]: "d < 10 \<Longrightarrow> digit_value (char_of (48 + d)) = Some d"
  by (simp add: digit_value_def of_char_of)

lemma nat_of_digits_append:
  "nat_of_digits acc (s @ t) = (case nat_of_digits acc s of None \<Rightarrow> None | Some n \<Rightarrow> nat_of_digits n t)"
  by (induction s arbitrary: acc) (auto split: option.splits)

lemma nat_of_digits_str: "nat_of_digits 0 (str_of_nat n) = Some n"
proof (induction n rule: str_of_nat.induct)
  case (1 n)
  then show ?case by (subst str_of_nat.simps) (auto simp: nat_of_digits_append)
qed

lemma str_of_nat_hd: "\<exists>d s. d < 10 \<and> str_of_nat n = char_of (48 + d :: nat) # s"
proof (induction n rule: str_of_nat.induct)
  case (1 n)
  then show ?case
    by (subst str_of_nat.simps) (cases "n < 10"; auto)
qed

lemma digit_not_minus: "d < 10 \<Longrightarrow> char_of (48 + d :: nat) \<noteq> CHR ''-''"
  using of_char_of [of "48 + d :: nat"] by (auto dest: arg_cong [of _ _ "of_char :: char \<Rightarrow> nat"])

lemma int_of_str_of_int [simp]: "int_of_str (str_of_int i) = Some i"
proof -
  obtain d s where d: "d < 10" "str_of_nat (nat i) = char_of (48 + d :: nat) # s"
    using str_of_nat_hd by blast
  then show ?thesis using nat_of_digits_str [of "nat i"] nat_of_digits_str [of "nat (- i)"]
      str_of_nat_hd [of "nat (- i)"] digit_not_minus [of d]
    by (auto simp: int_of_str_def str_of_int_def)
qed

text \<open>The response headers each exception carries.\<close>

fun exc_headers :: "exc \<Rightarrow> (string \<times> string) list" where
  "exc_headers (RateLimitException _ retry_after headers) =
     (case retry_after of None \<Rightarrow> headers
      | Some r \<Rightarrow> AList.update ''Retry-After'' (str_of_int r) headers)"
| "exc_headers (SudoLockoutError _ retry_after) =
     (case retry_after of None \<Rightarrow> [] | Some r \<Rightarrow> [(''Retry-After'', str_of_int r)])"
| "exc_headers (CSRFException _) = [(''X-CSRF-Error'', ''true'')]"
| "exc_headers _ = []"

text \<open>\<open>str(x)\<close> on the values user ids take.\<close>

fun py_str :: "pyval \<Rightarrow> string" where
  "py_str VNone = ''None''"
| "py_str (VBool b) = (if b then ''True'' else ''False'')"
| "py_str (VInt n) = str_of_int n"
| "py_str (VStr s) = s"
| "py_str (VTime t) = str_of_int t"
| "py_str (VList xs) = ''[...]''"
| "py_str (VDict xs) = ''{...}''"

section \<open>Strings\<close>

text \<open>
  Strings hold ASCII text. \<open>strip\<close>, \<open>lower\<close> and \<open>casefold\<close> of Python agree with
  the definitions below on it.
\<close>

definition is_space :: "char \<Rightarrow> bool" where
  "is_space c \<longleftrightarrow> (let n = (of_char c :: nat) in n = 32 \<or> 9 \<le> n \<and> n \<le> 13 \<or> 28 \<le> n \<and> n \<le> 31)"

definition strip :: "string \<Rightarrow> string" where
  "strip s = rev (dropWhile is_space (rev (dropWhile is_space s)))"

definition lower_char :: "char \<Rightarrow> char" where
  "lower_char c = (let n = (of_char c :: nat) in if 65 \<le> n \<and> n \<le> 90 then char_of (n + 32) else c)"

definition lower :: "string \<Rightarrow> string" where
  "lower s = map lower_char s"

fun starts_with :: "string \<Rightarrow> string \<Rightarrow> bool" where
  "starts_with s [] = True"
| "starts_with [] (p # ps) = False"
| "starts_with (c # s) (p # ps) = (c = p \<and> starts_with s ps)"

text \<open>\<open>s.partition(sep)\<close> for a one-character separator, and \<open>s.split(sep)\<close>.\<close>

fun partition_at :: "char \<Rightarrow> string \<Rightarrow> string \<times> string" where
  "partition_at c [] = ([], [])"
| "partition_at c (x # s) = (if x = c then ([], s) else (let (a, b) = partition_at c s in (x # a, b)))"

fun split_on :: "char \<Rightarrow> string \<Rightarrow> string list" where
  "split_on c [] = [[]]"
| "split_on c (x # s) =
     (if x = c then [] # split_on c s
      else (case split_on c s of [] \<Rightarrow> [[x]] | w # ws \<Rightarrow> (x # w) # ws))"

fun join_with :: "string \<Rightarrow> string list \<Rightarrow> string" where
  "join_with sep [] = []"
| "join_with sep [w] = w"
| "join_with sep (w # ws) = w @ sep @ join_with sep ws"

end
