(* ===== verification/Limiter.thy ===== *)
theory Limiter
  imports Prelude
begin

text \<open>
  The rate limiter port (\<open>crudauth/ratelimit/base.py\<close>), its in-process backend
  (\<open>ratelimit/backends/memory.py\<close>), and the allowance values of
  \<open>ratelimit/config.py\<close>. A backend is a record of its operations over its own state,
  as the abstract base class has them; the operations take the current time, and a
  networked backend may raise from any of them.
\<close>

section \<open>The backend port\<close>

record 'b rate_limiter_backend =
  increment :: "int \<Rightarrow> string \<Rightarrow> int \<Rightarrow> int option \<Rightarrow> ('b, int) prog"
  increment_and_refresh_ttl :: "int \<Rightarrow> string \<Rightarrow> int \<Rightarrow> int option \<Rightarrow> ('b, int) prog"
  get_count :: "int \<Rightarrow> string \<Rightarrow> ('b, int option) prog"
  delete_key :: "int \<Rightarrow> string \<Rightarrow> ('b, bool) prog"
  get_ttl :: "int \<Rightarrow> string \<Rightarrow> ('b, int) prog"

definition usec :: int where
  "usec = 1000000"

text \<open>
  \<open>RateLimiterBackend.increment_and_check\<close>: the fixed-window check over the counter.
  \<open>now\<close> is the wall clock, read in whole seconds.
\<close>

definition increment_and_check ::
  "'b rate_limiter_backend \<Rightarrow> int \<Rightarrow> string \<Rightarrow> int \<Rightarrow> int \<Rightarrow> bool \<Rightarrow> ('b, int \<times> bool \<times> int) prog" where
  "increment_and_check b clock key limit period fail_open =
     (let now = clock div usec;
          window_start = now - now mod period;
          wkey = key @ '':'' @ str_of_int window_start
      in catch
           (bind (increment b clock wkey 1 (Some period)) (\<lambda>count.
              if count \<le> limit then ret (count, False, 0)
              else ret (count, True, period - (now - window_start))))
           (\<lambda>_. ret (if fail_open then (0, False, 0) else (limit + 1, True, period))))"

section \<open>The in-memory backend\<close>

record mem_limiter =
  counts :: "string \<rightharpoonup> int"
  deadline :: "string \<rightharpoonup> int"
  increments_since_sweep :: nat

definition MEMORY_SWEEP_EVERY_INCREMENTS :: nat where
  "MEMORY_SWEEP_EVERY_INCREMENTS = 256"

definition mem_limiter_init :: mem_limiter where
  "mem_limiter_init = \<lparr>counts = Map.empty, deadline = Map.empty, increments_since_sweep = 0\<rparr>"

definition expired_at :: "int \<Rightarrow> int option \<Rightarrow> bool" where
  "expired_at now d \<longleftrightarrow> (case d of None \<Rightarrow> False | Some t \<Rightarrow> t < now)"

definition gc :: "int \<Rightarrow> string \<Rightarrow> mem_limiter \<Rightarrow> mem_limiter" where
  "gc now key s =
     (if expired_at now (deadline s key)
      then s\<lparr>counts := (counts s)(key := None), deadline := (deadline s)(key := None)\<rparr> else s)"

definition maybe_sweep :: "int \<Rightarrow> mem_limiter \<Rightarrow> mem_limiter" where
  "maybe_sweep now s =
     (let n = Suc (increments_since_sweep s)
      in if n < MEMORY_SWEEP_EVERY_INCREMENTS then s\<lparr>increments_since_sweep := n\<rparr>
         else \<lparr>counts = (\<lambda>k. if expired_at now (deadline s k) then None else counts s k),
               deadline = (\<lambda>k. if expired_at now (deadline s k) then None else deadline s k),
               increments_since_sweep = 0\<rparr>)"

definition count_of :: "mem_limiter \<Rightarrow> string \<Rightarrow> int" where
  "count_of s key = (case counts s key of None \<Rightarrow> 0 | Some n \<Rightarrow> n)"

definition mem_increment :: "int \<Rightarrow> string \<Rightarrow> int \<Rightarrow> int option \<Rightarrow> (mem_limiter, int) prog" where
  "mem_increment now key amount expiry s0 =
     (let s1 = gc now key s0;
          n = count_of s1 key + amount;
          s2 = s1\<lparr>counts := (counts s1)(key \<mapsto> n)\<rparr>;
          s3 = (case expiry of
                  None \<Rightarrow> s2
                | Some e \<Rightarrow> if deadline s2 key = None
                            then s2\<lparr>deadline := (deadline s2)(key \<mapsto> now + e * usec)\<rparr> else s2);
          s4 = maybe_sweep now s3
      in (case counts s4 key of None \<Rightarrow> Inl (KeyError key) | Some m \<Rightarrow> Inr m, s4))"

definition mem_increment_and_refresh_ttl ::
  "int \<Rightarrow> string \<Rightarrow> int \<Rightarrow> int option \<Rightarrow> (mem_limiter, int) prog" where
  "mem_increment_and_refresh_ttl now key amount expiry s0 =
     (let s1 = gc now key s0;
          n = count_of s1 key + amount;
          s2 = s1\<lparr>counts := (counts s1)(key \<mapsto> n)\<rparr>;
          s3 = (case expiry of
                  None \<Rightarrow> s2
                | Some e \<Rightarrow> s2\<lparr>deadline := (deadline s2)(key \<mapsto> now + e * usec)\<rparr>);
          s4 = maybe_sweep now s3
      in (case counts s4 key of None \<Rightarrow> Inl (KeyError key) | Some m \<Rightarrow> Inr m, s4))"

definition mem_get_count :: "int \<Rightarrow> string \<Rightarrow> (mem_limiter, int option) prog" where
  "mem_get_count now key s = (let s1 = gc now key s in (Inr (counts s1 key), s1))"

definition mem_get_ttl :: "int \<Rightarrow> string \<Rightarrow> (mem_limiter, int) prog" where
  "mem_get_ttl now key s =
     (let s1 = gc now key s
      in (Inr (case deadline s1 key of None \<Rightarrow> 0 | Some d \<Rightarrow> max 0 ((d - now) div usec)), s1))"

definition mem_delete :: "int \<Rightarrow> string \<Rightarrow> (mem_limiter, bool) prog" where
  "mem_delete now key s =
     (Inr (counts s key \<noteq> None),
      s\<lparr>counts := (counts s)(key := None), deadline := (deadline s)(key := None)\<rparr>)"

definition mem_backend :: "mem_limiter rate_limiter_backend" where
  "mem_backend = \<lparr>increment = mem_increment, increment_and_refresh_ttl = mem_increment_and_refresh_ttl,
     get_count = mem_get_count, delete_key = mem_delete, get_ttl = mem_get_ttl\<rparr>"

section \<open>Timed counters: what a backend promises\<close>

text \<open>
  The contract of the port's docstrings, over the counters that are live at an instant:
  a key maps to its count and, when armed, its deadline.
\<close>

type_synonym counters = "string \<rightharpoonup> int \<times> int option"

definition cnt :: "counters \<Rightarrow> string \<Rightarrow> int" where
  "cnt c k = (case c k of None \<Rightarrow> 0 | Some (n, _) \<Rightarrow> n)"

definition armed :: "counters \<Rightarrow> string \<Rightarrow> int option" where
  "armed c k = (case c k of None \<Rightarrow> None | Some (_, d) \<Rightarrow> d)"

definition expire :: "int \<Rightarrow> counters \<Rightarrow> counters" where
  "expire t c = (\<lambda>k. if expired_at t (armed c k) then None else c k)"

definition inc :: "int \<Rightarrow> string \<Rightarrow> int \<Rightarrow> int \<Rightarrow> counters \<Rightarrow> counters" where
  "inc now k a e c =
     c(k \<mapsto> (cnt c k + a, Some (case armed c k of None \<Rightarrow> now + e * usec | Some d \<Rightarrow> d)))"

definition inc_refresh :: "int \<Rightarrow> string \<Rightarrow> int \<Rightarrow> int \<Rightarrow> counters \<Rightarrow> counters" where
  "inc_refresh now k a e c = c(k \<mapsto> (cnt c k + a, Some (now + e * usec)))"

definition ttl_at :: "(int \<Rightarrow> int) \<Rightarrow> int \<Rightarrow> counters \<Rightarrow> string \<Rightarrow> int" where
  "ttl_at rnd now c k = (case armed c k of None \<Rightarrow> 0 | Some d \<Rightarrow> max 0 (rnd (d - now)))"

lemma cnt_upd [simp]: "cnt (c(k \<mapsto> (n, d))) j = (if j = k then n else cnt c j)"
  by (simp add: cnt_def)

lemma cnt_del [simp]: "cnt (c(k := None)) j = (if j = k then 0 else cnt c j)"
  by (simp add: cnt_def)

lemma armed_upd [simp]: "armed (c(k \<mapsto> (n, d))) j = (if j = k then d else armed c j)"
  by (simp add: armed_def)

lemma armed_del [simp]: "armed (c(k := None)) j = (if j = k then None else armed c j)"
  by (simp add: armed_def)

lemma cnt_None [simp]: "c k = None \<Longrightarrow> cnt c k = 0"
  by (simp add: cnt_def)

lemma cnt_nonzero: "cnt c k \<noteq> 0 \<Longrightarrow> \<exists>n d. c k = Some (n, d)"
  by (auto simp: cnt_def split: option.splits)

lemma armed_None [simp]: "c k = None \<Longrightarrow> armed c k = None"
  by (simp add: armed_def)

lemma cnt_Some [simp]: "c k = Some (n, d) \<Longrightarrow> cnt c k = n"
  by (simp add: cnt_def)

lemma armed_Some [simp]: "c k = Some (n, d) \<Longrightarrow> armed c k = d"
  by (simp add: armed_def)

lemma inc_apply: "inc now k a e c j =
   (if j = k then Some (cnt c k + a, Some (case armed c k of None \<Rightarrow> now + e * usec | Some d \<Rightarrow> d))
    else c j)"
  by (simp add: inc_def)

lemma cnt_inc [simp]: "cnt (inc now k a e c) j = (if j = k then cnt c k + a else cnt c j)"
  by (simp add: inc_def)

lemma armed_inc [simp]: "armed (inc now k a e c) j =
    (if j = k then Some (case armed c k of None \<Rightarrow> now + e * usec | Some d \<Rightarrow> d) else armed c j)"
  by (simp add: inc_def)

lemma cnt_inc_refresh [simp]:
  "cnt (inc_refresh now k a e c) j = (if j = k then cnt c k + a else cnt c j)"
  by (simp add: inc_refresh_def)

lemma armed_inc_refresh [simp]:
  "armed (inc_refresh now k a e c) j = (if j = k then Some (now + e * usec) else armed c j)"
  by (simp add: inc_refresh_def)

text \<open>
  \<open>rnd\<close> is how a backend rounds the time left to whole seconds: the in-memory backend
  truncates, the database backend rounds up. \<open>hit\<close> is what \<open>delete\<close> answers; the
  in-memory backend may also report a counter that has expired but was not collected yet.
\<close>

locale rate_limiter =
  fixes b :: "'b rate_limiter_backend"
    and view :: "int \<Rightarrow> 'b \<Rightarrow> counters"
    and ok :: "'b \<Rightarrow> bool"
    and rnd :: "int \<Rightarrow> int"
    and hit :: "int \<Rightarrow> 'b \<Rightarrow> string \<Rightarrow> bool"
  assumes view_later: "ok s \<Longrightarrow> now \<le> t \<Longrightarrow> view t s = expire t (view now s)"
    and view_live: "ok s \<Longrightarrow> \<not> expired_at now (armed (view now s) k)"
    and increment_result:
      "ok s \<Longrightarrow> 0 \<le> e \<Longrightarrow> fst (increment b now k a (Some e) s) = Inr (cnt (view now s) k + a)"
    and increment_view:
      "ok s \<Longrightarrow> 0 \<le> e \<Longrightarrow> view now (snd (increment b now k a (Some e) s)) = inc now k a e (view now s)"
    and increment_ok: "ok s \<Longrightarrow> 0 \<le> e \<Longrightarrow> ok (snd (increment b now k a (Some e) s))"
    and refresh_result:
      "ok s \<Longrightarrow> 0 \<le> e \<Longrightarrow>
        fst (increment_and_refresh_ttl b now k a (Some e) s) = Inr (cnt (view now s) k + a)"
    and refresh_view:
      "ok s \<Longrightarrow> 0 \<le> e \<Longrightarrow>
        view now (snd (increment_and_refresh_ttl b now k a (Some e) s)) = inc_refresh now k a e (view now s)"
    and refresh_ok: "ok s \<Longrightarrow> 0 \<le> e \<Longrightarrow> ok (snd (increment_and_refresh_ttl b now k a (Some e) s))"
    and get_count_result: "ok s \<Longrightarrow> fst (get_count b now k s) = Inr (map_option fst (view now s k))"
    and get_count_view: "ok s \<Longrightarrow> view now (snd (get_count b now k s)) = view now s"
    and get_count_ok: "ok s \<Longrightarrow> ok (snd (get_count b now k s))"
    and get_ttl_result: "ok s \<Longrightarrow> fst (get_ttl b now k s) = Inr (ttl_at rnd now (view now s) k)"
    and get_ttl_view: "ok s \<Longrightarrow> view now (snd (get_ttl b now k s)) = view now s"
    and get_ttl_ok: "ok s \<Longrightarrow> ok (snd (get_ttl b now k s))"
    and delete_result: "ok s \<Longrightarrow> fst (delete_key b now k s) = Inr (hit now s k)"
    and hit_live: "ok s \<Longrightarrow> view now s k \<noteq> None \<Longrightarrow> hit now s k"
    and delete_view: "ok s \<Longrightarrow> view now (snd (delete_key b now k s)) = (view now s)(k := None)"
    and delete_ok: "ok s \<Longrightarrow> ok (snd (delete_key b now k s))"
    and rnd_bounds: "0 \<le> r \<Longrightarrow> r div usec \<le> rnd r \<and> rnd r \<le> (r + usec - 1) div usec"
begin

lemmas backend_laws =
  increment_result increment_view increment_ok refresh_result refresh_view refresh_ok
  get_count_result get_count_view get_count_ok get_ttl_result get_ttl_view get_ttl_ok
  delete_result delete_view delete_ok

end

section \<open>The in-memory backend keeps the contract\<close>

definition mem_ok :: "mem_limiter \<Rightarrow> bool" where
  "mem_ok s \<longleftrightarrow> (\<forall>k. deadline s k \<noteq> None \<longrightarrow> counts s k \<noteq> None)"

definition mem_view :: "int \<Rightarrow> mem_limiter \<Rightarrow> counters" where
  "mem_view now s =
     (\<lambda>k. if expired_at now (deadline s k) then None else map_option (\<lambda>n. (n, deadline s k)) (counts s k))"

lemma mem_ok_init [simp]: "mem_ok mem_limiter_init"
  by (simp add: mem_ok_def mem_limiter_init_def)

lemma mem_view_init [simp]: "mem_view now mem_limiter_init = Map.empty"
  by (simp add: mem_view_def mem_limiter_init_def fun_eq_iff)

lemma gc_view [simp]: "mem_view now (gc now k s) = mem_view now s"
  by (auto simp: gc_def mem_view_def fun_eq_iff expired_at_def)

lemma gc_ok: "mem_ok s \<Longrightarrow> mem_ok (gc now k s)"
  by (auto simp: gc_def mem_ok_def)

lemma sweep_view [simp]: "mem_view now (maybe_sweep now s) = mem_view now s"
  by (auto simp: maybe_sweep_def mem_view_def fun_eq_iff expired_at_def Let_def)

lemma sweep_ok: "mem_ok s \<Longrightarrow> mem_ok (maybe_sweep now s)"
  by (auto simp: maybe_sweep_def mem_ok_def Let_def)

lemma gc_counts: "mem_ok s \<Longrightarrow> counts (gc now k s) k = map_option fst (mem_view now s k)"
  by (cases "counts s k") (auto simp: gc_def mem_view_def mem_ok_def)

lemma gc_count_of: "mem_ok s \<Longrightarrow> count_of (gc now k s) k = cnt (mem_view now s) k"
  by (cases "mem_view now s k") (auto simp: count_of_def gc_counts cnt_def)

lemma gc_deadline: "mem_ok s \<Longrightarrow> deadline (gc now k s) k = armed (mem_view now s) k"
  by (cases "counts s k") (auto simp: gc_def mem_view_def mem_ok_def armed_def)

lemma gc_not_expired: "\<not> expired_at now (deadline (gc now k s) k)"
  by (auto simp: gc_def expired_at_def)

lemma sweep_counts:
  "\<not> expired_at now (deadline s k) \<Longrightarrow> counts (maybe_sweep now s) k = counts s k"
  by (simp add: maybe_sweep_def Let_def)

lemma usec_pos [simp]: "0 < usec" "0 \<le> usec" "usec \<noteq> 0"
  by (simp_all add: usec_def)

lemma not_past: "0 \<le> e \<Longrightarrow> \<not> now + e * usec < now"
  by (simp add: usec_def)

definition mem_bump :: "int \<Rightarrow> string \<Rightarrow> int \<Rightarrow> int \<Rightarrow> mem_limiter \<Rightarrow> mem_limiter" where
  "mem_bump now k n d s =
     (gc now k s)\<lparr>counts := (counts (gc now k s))(k \<mapsto> n), deadline := (deadline (gc now k s))(k \<mapsto> d)\<rparr>"

lemma mem_bump_view:
  "now \<le> d \<Longrightarrow> mem_view now (mem_bump now k n d s) = (mem_view now s)(k \<mapsto> (n, Some d))"
  by (auto simp: mem_bump_def gc_def mem_view_def fun_eq_iff expired_at_def)

lemma mem_bump_ok: "mem_ok s \<Longrightarrow> mem_ok (mem_bump now k n d s)"
  by (auto simp: mem_bump_def mem_ok_def gc_def)

lemma mem_increment_run:
  assumes "mem_ok s" and "0 \<le> e"
  shows "mem_increment now k a (Some e) s =
    (Inr (cnt (mem_view now s) k + a),
     maybe_sweep now (mem_bump now k (cnt (mem_view now s) k + a)
       (case armed (mem_view now s) k of None \<Rightarrow> now + e * usec | Some d \<Rightarrow> d) s))"
proof (cases "deadline (gc now k s) k")
  case None
  moreover from None assms have "armed (mem_view now s) k = None" by (simp add: gc_deadline)
  moreover note not_past [OF assms(2), of now]
  ultimately show ?thesis using assms
    by (simp add: mem_increment_def Let_def gc_count_of mem_bump_def sweep_counts expired_at_def)
next
  case (Some d)
  moreover from Some assms have "armed (mem_view now s) k = Some d" by (simp add: gc_deadline)
  moreover have "\<not> d < now" using gc_not_expired [of now k s] Some by (simp add: expired_at_def)
  ultimately show ?thesis using assms
    by (simp add: mem_increment_def Let_def gc_count_of mem_bump_def sweep_counts expired_at_def
        fun_upd_idem)
qed

lemma mem_refresh_run:
  assumes "mem_ok s" and "0 \<le> e"
  shows "mem_increment_and_refresh_ttl now k a (Some e) s =
    (Inr (cnt (mem_view now s) k + a),
     maybe_sweep now (mem_bump now k (cnt (mem_view now s) k + a) (now + e * usec) s))"
proof -
  from not_past [OF assms(2), of now] show ?thesis using assms
    by (simp add: mem_increment_and_refresh_ttl_def Let_def gc_count_of mem_bump_def sweep_counts
        expired_at_def)
qed

lemma mem_armed_live: "armed (mem_view now s) k = Some d \<Longrightarrow> now \<le> d"
  by (auto simp: armed_def mem_view_def expired_at_def split: option.splits if_splits)

lemma mem_deadline_ge:
  "0 \<le> e \<Longrightarrow> now \<le> (case armed (mem_view now s) k of None \<Rightarrow> now + e * usec | Some d \<Rightarrow> d)"
  by (auto simp: usec_def split: option.splits dest: mem_armed_live)

interpretation mem: rate_limiter mem_backend mem_view mem_ok "\<lambda>r. r div usec" "\<lambda>_ s k. counts s k \<noteq> None"
proof (unfold_locales, goal_cases)
  case (1 s now t)
  then show ?case
    by (auto simp: mem_view_def expire_def fun_eq_iff expired_at_def armed_def
        split: option.splits)
next
  case (2 s now k)
  then show ?case by (auto simp: mem_view_def armed_def expired_at_def split: option.splits)
next
  case (4 s e now k a)
  then show ?case
    by (simp add: mem_backend_def mem_increment_run mem_bump_view mem_deadline_ge inc_def)
next
  case (7 s e now k a)
  then show ?case
    by (simp add: mem_backend_def mem_refresh_run mem_bump_view inc_refresh_def)
next
  case (12 s now k)
  then show ?case
    by (auto simp: mem_backend_def mem_get_ttl_def Let_def ttl_at_def gc_deadline split: option.splits)
next
  case (16 s now k)
  then show ?case by (auto simp: mem_view_def split: if_splits)
next
  case (18 s now k)
  then show ?case by (auto simp: mem_backend_def mem_delete_def mem_ok_def)
next
  case (17 s now k)
  then show ?case
    by (auto simp: mem_backend_def mem_delete_def mem_view_def fun_eq_iff expired_at_def)
next
  case (19 r)
  then show ?case by (simp add: zdiv_mono1)
qed (auto simp: mem_backend_def mem_increment_run mem_refresh_run sweep_ok mem_bump_ok gc_ok
      mem_get_count_def mem_get_ttl_def mem_delete_def Let_def gc_counts)

end
