(* ===== verification/Storage.thy ===== *)
theory Storage
  imports Limiter
begin

text \<open>
  The session store port (\<open>crudauth/storage/base.py\<close>) and its in-process backend
  (\<open>storage/backends/memory.py\<close>). A store is a record of its operations over its own
  state; the operations that the base class implements by other operations are defined from
  them, and the in-memory backend inherits them. Values go through the store unchanged (the
  serialisation to JSON and back is pydantic's); a store sees of a value only the
  \<open>user_id\<close> field of its payload, which is a parameter. The locale \<open>timed_store\<close> states what a store promises whatever its
  clock, \<open>session_store\<close> what one promises whose clock counts microseconds.
\<close>

section \<open>The store port\<close>

text \<open>
  \<open>st_modify\<close> takes the change as a function of the value; its second result is what the
  change assigned to a captured variable on its last run.
\<close>

record ('s, 'a) session_storage =
  st_prefix :: string
  st_expiration :: int
  st_create :: "int \<Rightarrow> 'a \<Rightarrow> string \<Rightarrow> int option \<Rightarrow> ('s, string) prog"
  st_get :: "int \<Rightarrow> string \<Rightarrow> ('s, 'a option) prog"
  st_update :: "int \<Rightarrow> string \<Rightarrow> 'a \<Rightarrow> bool \<Rightarrow> int option \<Rightarrow> ('s, bool) prog"
  st_delete :: "int \<Rightarrow> string \<Rightarrow> pyval \<Rightarrow> ('s, bool) prog"
  st_extend :: "int \<Rightarrow> string \<Rightarrow> int option \<Rightarrow> ('s, bool) prog"
  st_exists :: "int \<Rightarrow> string \<Rightarrow> ('s, bool) prog"
  st_modify :: "int \<Rightarrow> string \<Rightarrow> ('a \<Rightarrow> 'a \<times> string) \<Rightarrow> bool \<Rightarrow> int option \<Rightarrow> ('s, ('a \<times> string) option) prog"
  st_set_if_absent :: "int \<Rightarrow> string \<Rightarrow> 'a \<Rightarrow> int option \<Rightarrow> ('s, bool) prog"
  st_get_and_delete :: "int \<Rightarrow> string \<Rightarrow> ('s, 'a option) prog"
  st_get_user_sessions :: "int \<Rightarrow> pyval \<Rightarrow> ('s, string list) prog"
  st_remove_from_user_index :: "int \<Rightarrow> pyval \<Rightarrow> string \<Rightarrow> ('s, unit) prog"
  st_scan_keys :: "int \<Rightarrow> string option \<Rightarrow> ('s, string list) prog"
  st_delete_pattern :: "int \<Rightarrow> string \<Rightarrow> ('s, int) prog"

definition ttl_or :: "int \<Rightarrow> int option \<Rightarrow> int" where
  "ttl_or d e = (case e of None \<Rightarrow> d | Some n \<Rightarrow> n)"

definition get_key :: "string \<Rightarrow> string \<Rightarrow> string" where
  "get_key prefix session_id = prefix @ session_id"

text \<open>The implementations of the base class, over the primitives of a backend.\<close>

definition base_modify ::
  "(int \<Rightarrow> string \<Rightarrow> ('s, 'a option) prog) \<Rightarrow>
   (int \<Rightarrow> string \<Rightarrow> 'a \<Rightarrow> bool \<Rightarrow> int option \<Rightarrow> ('s, bool) prog) \<Rightarrow>
   int \<Rightarrow> string \<Rightarrow> ('a \<Rightarrow> 'a \<times> string) \<Rightarrow> bool \<Rightarrow> int option \<Rightarrow> ('s, ('a \<times> string) option) prog" where
  "base_modify get update now sid change reset exp =
     bind (get now sid) (\<lambda>data.
     case data of
       None \<Rightarrow> ret None
     | Some v \<Rightarrow>
         bind (update now sid (fst (change v)) reset exp) (\<lambda>updated.
         ret (if updated then Some (change v) else None)))"

definition base_set_if_absent ::
  "(int \<Rightarrow> string \<Rightarrow> ('s, bool) prog) \<Rightarrow> (int \<Rightarrow> 'a \<Rightarrow> string \<Rightarrow> int option \<Rightarrow> ('s, string) prog) \<Rightarrow>
   int \<Rightarrow> string \<Rightarrow> 'a \<Rightarrow> int option \<Rightarrow> ('s, bool) prog" where
  "base_set_if_absent exists create now sid data exp =
     bind (exists now sid) (\<lambda>there.
     if there then ret False else bind (create now data sid exp) (\<lambda>_. ret True))"

definition base_get_and_delete ::
  "(int \<Rightarrow> string \<Rightarrow> ('s, 'a option) prog) \<Rightarrow> (int \<Rightarrow> string \<Rightarrow> pyval \<Rightarrow> ('s, bool) prog) \<Rightarrow>
   int \<Rightarrow> string \<Rightarrow> ('s, 'a option) prog" where
  "base_get_and_delete get del now sid =
     bind (get now sid) (\<lambda>data.
     if data \<noteq> None then bind (del now sid VNone) (\<lambda>_. ret data) else ret data)"

section \<open>Glob matching (the standard library's fnmatch)\<close>

text \<open>The members of a bracket expression: single characters and ranges.\<close>

fun in_class :: "char \<Rightarrow> string \<Rightarrow> bool" where
  "in_class c [] = False"
| "in_class c (a # s) =
     (case s of
        d # b # t \<Rightarrow>
          if d = CHR ''-'' then (of_char a :: nat) \<le> of_char c \<and> (of_char c :: nat) \<le> of_char b \<or> in_class c t
          else c = a \<or> in_class c s
      | _ \<Rightarrow> c = a \<or> in_class c s)"

text \<open>The text of a bracket expression up to its closing bracket, and the rest.\<close>

definition bracket :: "string \<Rightarrow> (bool \<times> string \<times> string) option" where
  "bracket s =
     (let (neg, body) = (case s of a # t \<Rightarrow> if a = CHR ''!'' then (True, t) else (False, s) | [] \<Rightarrow> (False, s));
          (hd1, tl1) = (case body of a # t \<Rightarrow> if a = CHR '']'' then ([a], t) else ([], body) | [] \<Rightarrow> ([], body))
      in if CHR '']'' \<in> set tl1
         then (let (inside, rest) = partition_at (CHR '']'') tl1 in Some (neg, hd1 @ inside, rest))
         else None)"

lemma partition_at_length: "length (snd (partition_at c s)) \<le> length s"
  by (induction s) (auto simp: Let_def split: prod.splits)

lemma bracket_length:
  assumes "bracket s = Some (neg, inside, rest)"
  shows "length rest \<le> length s"
  using assms partition_at_length [of "CHR '']''" s] partition_at_length [of "CHR '']''" "tl s"]
    partition_at_length [of "CHR '']''" "tl (tl s)"]
  by (auto simp: bracket_def Let_def split: list.splits if_splits prod.splits)

function fnmatchcase :: "string \<Rightarrow> string \<Rightarrow> bool" where
  "fnmatchcase [] name = (name = [])"
| "fnmatchcase (p # ps) [] = (p = CHR ''*'' \<and> fnmatchcase ps [])"
| "fnmatchcase (p # ps) (c # cs) =
     (if p = CHR ''*'' then fnmatchcase ps (c # cs) \<or> fnmatchcase (p # ps) cs
      else if p = CHR ''?'' then fnmatchcase ps cs
      else (case (if p = CHR ''['' then bracket ps else None) of
              Some (neg, inside, rest) \<Rightarrow> in_class c inside \<noteq> neg \<and> fnmatchcase rest cs
            | None \<Rightarrow> c = p \<and> fnmatchcase ps cs))"
  by pat_completeness auto
termination
  by (relation "measure (\<lambda>(p, n). length p + length n)")
     (auto dest!: bracket_length split: if_splits)

declare fnmatchcase.simps [simp del]

section \<open>The in-memory backend\<close>

record 'a mem_store =
  data :: "(string \<times> 'a) list"
  expiry :: "string \<rightharpoonup> int"
  writes_since_sweep :: nat

text \<open>
  The constructor's arguments, and the two values a store takes from outside: the UUID it
  would draw for a missing id, and how a payload names its user.
\<close>

record 'a mem_store_config =
  prefix :: string
  expiration :: int
  generate_session_id :: string
  payload_user_id :: "'a \<Rightarrow> pyval option"

definition MEMORY_SWEEP_EVERY_WRITES :: nat where
  "MEMORY_SWEEP_EVERY_WRITES = 256"

definition mem_store_init :: "'a mem_store" where
  "mem_store_init = \<lparr>data = [], expiry = Map.empty, writes_since_sweep = 0\<rparr>"

definition drop_entry :: "string \<Rightarrow> 'a mem_store \<Rightarrow> 'a mem_store" where
  "drop_entry key s = s\<lparr>data := AList.delete key (data s), expiry := (expiry s)(key := None)\<rparr>"

definition check_expiry :: "int \<Rightarrow> string \<Rightarrow> ('a mem_store, bool) prog" where
  "check_expiry now key s =
     (if expired_at now (expiry s key) then (Inr True, drop_entry key s) else (Inr False, s))"

definition mem_store_sweep :: "int \<Rightarrow> 'a mem_store \<Rightarrow> 'a mem_store" where
  "mem_store_sweep now s =
     (let n = Suc (writes_since_sweep s)
      in if n < MEMORY_SWEEP_EVERY_WRITES then s\<lparr>writes_since_sweep := n\<rparr>
         else \<lparr>data = filter (\<lambda>(k, v). \<not> expired_at now (expiry s k)) (data s),
               expiry = (\<lambda>k. if expired_at now (expiry s k) then None else expiry s k),
               writes_since_sweep = 0\<rparr>)"

definition mem_create ::
  "'a mem_store_config \<Rightarrow> int \<Rightarrow> 'a \<Rightarrow> string \<Rightarrow> int option \<Rightarrow> ('a mem_store, string) prog" where
  "mem_create cfg now v session_id exp s =
     (let sid = (if session_id = [] then generate_session_id cfg else session_id);
          key = get_key (prefix cfg) sid;
          ttl = ttl_or (expiration cfg) exp
      in (Inr sid,
          mem_store_sweep now
            (s\<lparr>data := AList.update key v (data s), expiry := (expiry s)(key \<mapsto> now + ttl * usec)\<rparr>)))"

definition mem_get :: "'a mem_store_config \<Rightarrow> int \<Rightarrow> string \<Rightarrow> ('a mem_store, 'a option) prog" where
  "mem_get cfg now session_id =
     (let key = get_key (prefix cfg) session_id
      in bind (check_expiry now key) (\<lambda>gone. if gone then ret None else gets (\<lambda>s. map_of (data s) key)))"

definition mem_update ::
  "'a mem_store_config \<Rightarrow> int \<Rightarrow> string \<Rightarrow> 'a \<Rightarrow> bool \<Rightarrow> int option \<Rightarrow> ('a mem_store, bool) prog" where
  "mem_update cfg now session_id v reset exp =
     (let key = get_key (prefix cfg) session_id
      in bind (check_expiry now key) (\<lambda>gone.
         bind (gets (\<lambda>s. map_of (data s) key = None)) (\<lambda>absent.
         if gone \<or> absent then ret False
         else bind (modifies (\<lambda>s. s\<lparr>data := AList.update key v (data s)\<rparr>)) (\<lambda>_.
              bind (if reset
                    then modifies (\<lambda>s. s\<lparr>expiry := (expiry s)(key \<mapsto> now + ttl_or (expiration cfg) exp * usec)\<rparr>)
                    else ret ()) (\<lambda>_.
              ret True)))))"

definition mem_remove :: "'a mem_store_config \<Rightarrow> int \<Rightarrow> string \<Rightarrow> pyval \<Rightarrow> ('a mem_store, bool) prog" where
  "mem_remove cfg now session_id user_id s =
     (let key = get_key (prefix cfg) session_id
      in (Inr (map_of (data s) key \<noteq> None), drop_entry key s))"

definition mem_extend :: "'a mem_store_config \<Rightarrow> int \<Rightarrow> string \<Rightarrow> int option \<Rightarrow> ('a mem_store, bool) prog" where
  "mem_extend cfg now session_id exp =
     (let key = get_key (prefix cfg) session_id
      in bind (check_expiry now key) (\<lambda>gone.
         bind (gets (\<lambda>s. map_of (data s) key = None)) (\<lambda>absent.
         if gone \<or> absent then ret False
         else bind (modifies (\<lambda>s. s\<lparr>expiry := (expiry s)(key \<mapsto> now + ttl_or (expiration cfg) exp * usec)\<rparr>))
                (\<lambda>_. ret True))))"

definition mem_exists :: "'a mem_store_config \<Rightarrow> int \<Rightarrow> string \<Rightarrow> ('a mem_store, bool) prog" where
  "mem_exists cfg now session_id =
     (let key = get_key (prefix cfg) session_id
      in bind (check_expiry now key) (\<lambda>gone.
         if gone then ret False else gets (\<lambda>s. map_of (data s) key \<noteq> None)))"

definition mem_scan_keys :: "int \<Rightarrow> string option \<Rightarrow> ('a mem_store, string list) prog" where
  "mem_scan_keys now match =
     gets (\<lambda>s. case match of None \<Rightarrow> map fst (data s)
                | Some p \<Rightarrow> filter (fnmatchcase p) (map fst (data s)))"

text \<open>The keys are listed before the loop; an expired entry is dropped when it is met.\<close>

fun collect_user_sessions ::
  "'a mem_store_config \<Rightarrow> int \<Rightarrow> string \<Rightarrow> string list \<Rightarrow> ('a mem_store, string list) prog" where
  "collect_user_sessions cfg now target [] = ret []"
| "collect_user_sessions cfg now target (key # keys) =
     bind (check_expiry now key) (\<lambda>gone.
     if gone then collect_user_sessions cfg now target keys
     else bind (gets (\<lambda>s. map_of (data s) key)) (\<lambda>v.
          bind (collect_user_sessions cfg now target keys) (\<lambda>rest.
          ret (case v of
                 None \<Rightarrow> rest
               | Some d \<Rightarrow>
                   (case payload_user_id cfg d of
                      Some u \<Rightarrow> if py_str u = target then drop (length (prefix cfg)) key # rest else rest
                    | None \<Rightarrow> rest)))))"

definition mem_get_user_sessions ::
  "'a mem_store_config \<Rightarrow> int \<Rightarrow> pyval \<Rightarrow> ('a mem_store, string list) prog" where
  "mem_get_user_sessions cfg now user_id =
     bind (gets (\<lambda>s. map fst (data s))) (collect_user_sessions cfg now (py_str user_id))"

fun delete_keys :: "'a mem_store_config \<Rightarrow> int \<Rightarrow> string list \<Rightarrow> ('a mem_store, int) prog" where
  "delete_keys cfg now [] = ret 0"
| "delete_keys cfg now (key # keys) =
     (let sid = (if starts_with key (prefix cfg) then drop (length (prefix cfg)) key else key)
      in bind (mem_remove cfg now sid VNone) (\<lambda>deleted.
         bind (delete_keys cfg now keys) (\<lambda>n. ret (if deleted then n + 1 else n))))"

definition mem_delete_pattern :: "'a mem_store_config \<Rightarrow> int \<Rightarrow> string \<Rightarrow> ('a mem_store, int) prog" where
  "mem_delete_pattern cfg now pattern =
     bind (mem_scan_keys now (Some (pattern @ ''*''))) (delete_keys cfg now)"

definition mem_storage :: "'a mem_store_config \<Rightarrow> ('a mem_store, 'a) session_storage" where
  "mem_storage cfg =
     \<lparr>st_prefix = prefix cfg, st_expiration = expiration cfg,
      st_create = mem_create cfg, st_get = mem_get cfg, st_update = mem_update cfg,
      st_delete = mem_remove cfg, st_extend = mem_extend cfg, st_exists = mem_exists cfg,
      st_modify = base_modify (mem_get cfg) (mem_update cfg),
      st_set_if_absent = base_set_if_absent (mem_exists cfg) (mem_create cfg),
      st_get_and_delete = base_get_and_delete (mem_get cfg) (mem_remove cfg),
      st_get_user_sessions = mem_get_user_sessions cfg,
      st_remove_from_user_index = (\<lambda>_ _ _. ret ()),
      st_scan_keys = mem_scan_keys, st_delete_pattern = mem_delete_pattern cfg\<rparr>"

section \<open>Timed entries: what a store promises\<close>

text \<open>
  The live entries of a store at an instant, under their ids, each with the instant it
  expires.
\<close>

type_synonym 'a entries = "string \<rightharpoonup> 'a \<times> int"

definition live_at :: "int \<Rightarrow> 'a entries \<Rightarrow> 'a entries" where
  "live_at t e = (\<lambda>k. case e k of None \<Rightarrow> None | Some (v, d) \<Rightarrow> if d < t then None else Some (v, d))"

definition val_of :: "'a entries \<Rightarrow> string \<Rightarrow> 'a option" where
  "val_of e k = map_option fst (e k)"

definition owned :: "('a \<Rightarrow> pyval option) \<Rightarrow> pyval \<Rightarrow> 'a entries \<Rightarrow> string set" where
  "owned who u e = {k. \<exists>v d. e k = Some (v, d) \<and> map_option py_str (who v) = Some (py_str u)}"

definition rewrite_entry :: "string \<Rightarrow> 'a \<Rightarrow> int option \<Rightarrow> 'a entries \<Rightarrow> 'a entries" where
  "rewrite_entry k v d e =
     (case e k of None \<Rightarrow> e | Some (_, d0) \<Rightarrow> e(k \<mapsto> (v, case d of None \<Rightarrow> d0 | Some d1 \<Rightarrow> d1)))"

locale timed_store =
  fixes st :: "('s, 'a) session_storage"
    and view :: "int \<Rightarrow> 's \<Rightarrow> 'a entries"
    and ok :: "'s \<Rightarrow> bool"
    and who :: "'a \<Rightarrow> pyval option"
    and hit :: "int \<Rightarrow> 's \<Rightarrow> string \<Rightarrow> bool"
    and due :: "int \<Rightarrow> int \<Rightarrow> int"
    and valid :: "string \<Rightarrow> bool"
    and good :: "int \<Rightarrow> bool"
  assumes view_later: "ok s \<Longrightarrow> now \<le> t \<Longrightarrow> view t s = live_at t (view now s)"
    and view_live: "ok s \<Longrightarrow> view now s k = Some (v, d) \<Longrightarrow> now \<le> d"
    and create_result: "ok s \<Longrightarrow> valid sid \<Longrightarrow> fst (st_create st now v sid e s) = Inr sid"
    and create_view: "ok s \<Longrightarrow> valid sid \<Longrightarrow> good (ttl_or (st_expiration st) e) \<Longrightarrow>
      view now (snd (st_create st now v sid e s))
        = (view now s)(sid \<mapsto> (v, due now (ttl_or (st_expiration st) e)))"
    and create_ok: "ok s \<Longrightarrow> valid sid \<Longrightarrow> ok (snd (st_create st now v sid e s))"
    and get_result: "ok s \<Longrightarrow> fst (st_get st now sid s) = Inr (val_of (view now s) sid)"
    and get_view: "ok s \<Longrightarrow> view now (snd (st_get st now sid s)) = view now s"
    and get_ok: "ok s \<Longrightarrow> ok (snd (st_get st now sid s))"
    and delete_result: "ok s \<Longrightarrow> fst (st_delete st now sid u s) = Inr (hit now s sid)"
    and hit_live: "ok s \<Longrightarrow> view now s sid \<noteq> None \<Longrightarrow> hit now s sid"
    and delete_view: "ok s \<Longrightarrow> view now (snd (st_delete st now sid u s)) = (view now s)(sid := None)"
    and delete_ok: "ok s \<Longrightarrow> ok (snd (st_delete st now sid u s))"
    and update_result: "ok s \<Longrightarrow> fst (st_update st now sid v r e s) = Inr (view now s sid \<noteq> None)"
    and update_view: "ok s \<Longrightarrow> good (ttl_or (st_expiration st) e) \<Longrightarrow>
      view now (snd (st_update st now sid v r e s))
        = rewrite_entry sid v (if r then Some (due now (ttl_or (st_expiration st) e)) else None) (view now s)"
    and update_ok: "ok s \<Longrightarrow> ok (snd (st_update st now sid v r e s))"
    and extend_result: "ok s \<Longrightarrow> fst (st_extend st now sid e s) = Inr (view now s sid \<noteq> None)"
    and extend_view: "ok s \<Longrightarrow> good (ttl_or (st_expiration st) e) \<Longrightarrow>
      view now (snd (st_extend st now sid e s))
        = (case view now s sid of None \<Rightarrow> view now s
           | Some (v, _) \<Rightarrow> (view now s)(sid \<mapsto> (v, due now (ttl_or (st_expiration st) e))))"
    and extend_ok: "ok s \<Longrightarrow> ok (snd (st_extend st now sid e s))"
    and exists_result: "ok s \<Longrightarrow> fst (st_exists st now sid s) = Inr (view now s sid \<noteq> None)"
    and exists_view: "ok s \<Longrightarrow> view now (snd (st_exists st now sid s)) = view now s"
    and exists_ok: "ok s \<Longrightarrow> ok (snd (st_exists st now sid s))"
    and modify_result: "ok s \<Longrightarrow>
      fst (st_modify st now sid ch r e s) = Inr (map_option ch (val_of (view now s) sid))"
    and modify_view: "ok s \<Longrightarrow> good (ttl_or (st_expiration st) e) \<Longrightarrow>
      view now (snd (st_modify st now sid ch r e s))
        = (case val_of (view now s) sid of None \<Rightarrow> view now s
           | Some v \<Rightarrow> rewrite_entry sid (fst (ch v))
               (if r then Some (due now (ttl_or (st_expiration st) e)) else None) (view now s))"
    and modify_ok: "ok s \<Longrightarrow> ok (snd (st_modify st now sid ch r e s))"
    and set_result: "ok s \<Longrightarrow> fst (st_set_if_absent st now sid v e s) = Inr (view now s sid = None)"
    and set_view: "ok s \<Longrightarrow> valid sid \<Longrightarrow> good (ttl_or (st_expiration st) e) \<Longrightarrow>
      view now (snd (st_set_if_absent st now sid v e s))
        = (if view now s sid = None then (view now s)(sid \<mapsto> (v, due now (ttl_or (st_expiration st) e)))
           else view now s)"
    and set_ok: "ok s \<Longrightarrow> valid sid \<Longrightarrow> ok (snd (st_set_if_absent st now sid v e s))"
    and take_result: "ok s \<Longrightarrow> fst (st_get_and_delete st now sid s) = Inr (val_of (view now s) sid)"
    and take_view: "ok s \<Longrightarrow> view now (snd (st_get_and_delete st now sid s)) = (view now s)(sid := None)"
    and take_ok: "ok s \<Longrightarrow> ok (snd (st_get_and_delete st now sid s))"
    and user_sessions_result: "ok s \<Longrightarrow>
      \<exists>ids. fst (st_get_user_sessions st now u s) = Inr ids \<and> distinct ids \<and> set ids = owned who u (view now s)"
    and user_sessions_view: "ok s \<Longrightarrow> view now (snd (st_get_user_sessions st now u s)) = view now s"
    and user_sessions_ok: "ok s \<Longrightarrow> ok (snd (st_get_user_sessions st now u s))"
    and unindex_result: "ok s \<Longrightarrow> fst (st_remove_from_user_index st now u sid s) = Inr ()"
    and unindex_view: "ok s \<Longrightarrow> view now (snd (st_remove_from_user_index st now u sid s)) = view now s"
    and unindex_ok: "ok s \<Longrightarrow> ok (snd (st_remove_from_user_index st now u sid s))"
    and scan_result: "ok s \<Longrightarrow>
      \<exists>ks. fst (st_scan_keys st now None s) = Inr ks \<and> (\<lambda>k. st_prefix st @ k) ` dom (view now s) \<subseteq> set ks"
    and scan_view: "ok s \<Longrightarrow> view now (snd (st_scan_keys st now m s)) = view now s"
    and scan_ok: "ok s \<Longrightarrow> ok (snd (st_scan_keys st now m s))"
begin

lemmas store_laws =
  create_result create_view create_ok get_result get_view get_ok delete_result delete_view delete_ok
  update_result update_view update_ok extend_result extend_view extend_ok
  exists_result exists_view exists_ok modify_result modify_view modify_ok
  set_result set_view set_ok take_result take_view take_ok user_sessions_view user_sessions_ok
  unindex_result unindex_view unindex_ok scan_view scan_ok

end

text \<open>With a clock of microseconds, any id but the empty one, and any lifetime that is not negative.\<close>

locale session_store = timed_store st view ok who hit "\<lambda>t n. t + n * usec" "\<lambda>sid. sid \<noteq> []" "\<lambda>n. 0 \<le> n"
  for st :: "('s, 'a) session_storage" and view ok who hit

section \<open>The in-memory store keeps the contract\<close>

definition store_ok :: "'a mem_store_config \<Rightarrow> 'a mem_store \<Rightarrow> bool" where
  "store_ok cfg s \<longleftrightarrow> distinct (map fst (data s))
     \<and> (\<forall>k. map_of (data s) k = None \<longleftrightarrow> expiry s k = None)
     \<and> (\<forall>k. map_of (data s) k \<noteq> None \<longrightarrow> (\<exists>sid. k = get_key (prefix cfg) sid))"

definition store_view :: "'a mem_store_config \<Rightarrow> int \<Rightarrow> 'a mem_store \<Rightarrow> 'a entries" where
  "store_view cfg now s =
     (\<lambda>sid. let key = get_key (prefix cfg) sid
            in case (map_of (data s) key, expiry s key) of
                 (Some v, Some d) \<Rightarrow> if d < now then None else Some (v, d)
               | _ \<Rightarrow> None)"

lemma get_key_inj [simp]: "get_key p a = get_key p b \<longleftrightarrow> a = b"
  by (simp add: get_key_def)

lemma store_ok_dom: "store_ok cfg s \<Longrightarrow> map_of (data s) k = None \<longleftrightarrow> expiry s k = None"
  by (simp add: store_ok_def)

lemma delete_map_of: "map_of (AList.delete k al) j = (if j = k then None else map_of al j)"
  by (simp add: AList.delete_conv')

lemma drop_view [simp]:
  "store_view cfg now (drop_entry (get_key (prefix cfg) sid) s) = (store_view cfg now s)(sid := None)"
  by (auto simp: store_view_def drop_entry_def delete_map_of fun_eq_iff Let_def)

lemma drop_ok: "store_ok cfg s \<Longrightarrow> store_ok cfg (drop_entry k s)"
  by (simp add: store_ok_def drop_entry_def AList.distinct_delete delete_map_of)

lemma expiry_check_run:
  assumes "store_ok cfg s"
  shows "fst (check_expiry now (get_key (prefix cfg) sid) s) = Inr (expired_at now (expiry s (get_key (prefix cfg) sid)))"
    and "store_view cfg now (snd (check_expiry now (get_key (prefix cfg) sid) s)) = store_view cfg now s"
    and "store_ok cfg (snd (check_expiry now (get_key (prefix cfg) sid) s))"
    and "map_of (data (snd (check_expiry now (get_key (prefix cfg) sid) s))) (get_key (prefix cfg) sid)
      = val_of (store_view cfg now s) sid"
  using assms drop_ok [OF assms] store_ok_dom [OF assms, of "get_key (prefix cfg) sid"]
  by (auto simp: check_expiry_def fun_eq_iff store_view_def Let_def expired_at_def val_of_def
      drop_entry_def delete_map_of split: option.splits)

lemma expired_val_of: "expired_at now (expiry s (get_key (prefix cfg) sid)) \<Longrightarrow> store_view cfg now s sid = None"
  by (auto simp: store_view_def expired_at_def Let_def split: option.splits)

lemma map_of_filter_key: "distinct (map fst al) \<Longrightarrow>
    map_of (filter (\<lambda>(k, v). P k) al) j = (if P j then map_of al j else None)"
  by (induction al) (auto simp: map_of_eq_None_iff image_iff)

lemma store_sweep_ok: "store_ok cfg s \<Longrightarrow> store_ok cfg (mem_store_sweep now s)"
  by (auto simp: store_ok_def mem_store_sweep_def Let_def distinct_map_filter map_of_filter_key split: if_splits)

lemma store_sweep_view: "store_ok cfg s \<Longrightarrow> store_view cfg now (mem_store_sweep now s) = store_view cfg now s"
  by (auto simp: mem_store_sweep_def Let_def store_view_def fun_eq_iff map_of_filter_key store_ok_def expired_at_def
      split: option.splits)

lemma put_ok: "store_ok cfg s \<Longrightarrow> store_ok cfg (s\<lparr>data := AList.update (get_key (prefix cfg) sid) v (data s),
    expiry := (expiry s)(get_key (prefix cfg) sid \<mapsto> d)\<rparr>)"
  by (auto simp: store_ok_def AList.distinct_update AList.update_conv')

lemma put_view: "now \<le> d \<Longrightarrow> store_view cfg now (s\<lparr>data := AList.update (get_key (prefix cfg) sid) v (data s),
    expiry := (expiry s)(get_key (prefix cfg) sid \<mapsto> d)\<rparr>) = (store_view cfg now s)(sid \<mapsto> (v, d))"
  by (auto simp: store_view_def fun_eq_iff Let_def AList.update_conv')

lemma rewrite_put:
  assumes "store_ok cfg s" and "map_of (data s) (get_key (prefix cfg) sid) = Some w"
    and "\<not> expired_at now (expiry s (get_key (prefix cfg) sid))"
  shows "store_view cfg now (s\<lparr>data := AList.update (get_key (prefix cfg) sid) v (data s)\<rparr>)
      = rewrite_entry sid v None (store_view cfg now s)"
    and "store_ok cfg (s\<lparr>data := AList.update (get_key (prefix cfg) sid) v (data s)\<rparr>)"
  using assms store_ok_dom [OF assms(1), of "get_key (prefix cfg) sid"]
  by (auto simp: store_view_def fun_eq_iff Let_def AList.update_conv' rewrite_entry_def expired_at_def
      store_ok_def AList.distinct_update)

lemma present_iff:
  assumes "store_ok cfg s"
  shows "store_view cfg now s sid \<noteq> None \<longleftrightarrow> \<not> expired_at now (expiry s (get_key (prefix cfg) sid))
    \<and> map_of (data s) (get_key (prefix cfg) sid) \<noteq> None"
  using store_ok_dom [OF assms, of "get_key (prefix cfg) sid"]
  by (auto simp: store_view_def Let_def expired_at_def split: option.splits)

lemma mem_get_run:
  assumes "store_ok cfg s"
  shows "fst (mem_get cfg now sid s) = Inr (val_of (store_view cfg now s) sid)"
    and "store_view cfg now (snd (mem_get cfg now sid s)) = store_view cfg now s"
    and "store_ok cfg (snd (mem_get cfg now sid s))"
  using expiry_check_run [OF assms, of now sid] expired_val_of [of now s cfg sid]
  by (auto simp: mem_get_def Let_def run_simps val_of_def)

lemma mem_exists_run:
  assumes "store_ok cfg s"
  shows "fst (mem_exists cfg now sid s) = Inr (store_view cfg now s sid \<noteq> None)"
    and "store_view cfg now (snd (mem_exists cfg now sid s)) = store_view cfg now s"
    and "store_ok cfg (snd (mem_exists cfg now sid s))"
  using expiry_check_run [OF assms, of now sid] expired_val_of [of now s cfg sid]
  by (auto simp: mem_exists_def Let_def run_simps val_of_def)

lemma mem_remove_run:
  assumes "store_ok cfg s"
  shows "fst (mem_remove cfg now sid u s) = Inr (map_of (data s) (get_key (prefix cfg) sid) \<noteq> None)"
    and "store_view cfg now (snd (mem_remove cfg now sid u s)) = (store_view cfg now s)(sid := None)"
    and "store_ok cfg (snd (mem_remove cfg now sid u s))"
  using drop_ok [OF assms] by (simp_all add: mem_remove_def Let_def)

lemma mem_create_run:
  shows "fst (mem_create cfg now v sid e s) = Inr (if sid = [] then generate_session_id cfg else sid)"
    and "store_ok cfg s \<Longrightarrow> sid \<noteq> [] \<Longrightarrow> 0 \<le> ttl_or (expiration cfg) e \<Longrightarrow>
      store_view cfg now (snd (mem_create cfg now v sid e s))
        = (store_view cfg now s)(sid \<mapsto> (v, now + ttl_or (expiration cfg) e * usec))"
    and "store_ok cfg s \<Longrightarrow> sid \<noteq> [] \<Longrightarrow> store_ok cfg (snd (mem_create cfg now v sid e s))"
  by (simp_all add: mem_create_def Let_def store_sweep_view store_sweep_ok put_ok put_view)

lemma mem_update_run:
  assumes "store_ok cfg s"
  shows "fst (mem_update cfg now sid v r e s) = Inr (store_view cfg now s sid \<noteq> None)"
    and "0 \<le> ttl_or (expiration cfg) e \<Longrightarrow> store_view cfg now (snd (mem_update cfg now sid v r e s))
        = rewrite_entry sid v (if r then Some (now + ttl_or (expiration cfg) e * usec) else None)
            (store_view cfg now s)"
    and "store_ok cfg (snd (mem_update cfg now sid v r e s))"
proof -
  let ?k = "get_key (prefix cfg) sid"
  show "fst (mem_update cfg now sid v r e s) = Inr (store_view cfg now s sid \<noteq> None)"
    using assms expiry_check_run [OF assms, of now sid] present_iff [OF assms, of now sid]
    by (auto simp: mem_update_def Let_def run_simps check_expiry_def)
  show "0 \<le> ttl_or (expiration cfg) e \<Longrightarrow> store_view cfg now (snd (mem_update cfg now sid v r e s))
      = rewrite_entry sid v (if r then Some (now + ttl_or (expiration cfg) e * usec) else None)
          (store_view cfg now s)"
    using expiry_check_run(2) [OF assms, of now sid] present_iff [OF assms, of now sid] rewrite_put(1) [OF assms, of sid _ now v]
      put_view [of now "now + ttl_or (expiration cfg) e * usec" cfg s sid v]
    by (auto simp: mem_update_def Let_def run_simps check_expiry_def rewrite_entry_def split: option.splits)
  show "store_ok cfg (snd (mem_update cfg now sid v r e s))"
    using assms expiry_check_run(3) [OF assms, of now sid] rewrite_put(2) [OF assms, of sid _ now v]
      put_ok [OF assms]
    by (auto simp: mem_update_def Let_def run_simps check_expiry_def)
qed

lemma mem_extend_run:
  assumes "store_ok cfg s"
  shows "fst (mem_extend cfg now sid e s) = Inr (store_view cfg now s sid \<noteq> None)"
    and "0 \<le> ttl_or (expiration cfg) e \<Longrightarrow> store_view cfg now (snd (mem_extend cfg now sid e s))
        = (case store_view cfg now s sid of None \<Rightarrow> store_view cfg now s
           | Some (v, _) \<Rightarrow> (store_view cfg now s)(sid \<mapsto> (v, now + ttl_or (expiration cfg) e * usec)))"
    and "store_ok cfg (snd (mem_extend cfg now sid e s))"
proof -
  let ?k = "get_key (prefix cfg) sid"
  have ex: "store_view cfg now (s\<lparr>expiry := (expiry s)(?k \<mapsto> d)\<rparr>) = (store_view cfg now s)(sid \<mapsto> (v, d))"
    if "map_of (data s) ?k = Some v" "now \<le> d" for v d
    using that by (auto simp: store_view_def fun_eq_iff Let_def)
  have val: "store_view cfg now s sid = Some (v, d) \<Longrightarrow> map_of (data s) ?k = Some v" for v d
    by (auto simp: store_view_def Let_def split: option.splits if_splits)
  show "fst (mem_extend cfg now sid e s) = Inr (store_view cfg now s sid \<noteq> None)"
    using assms expiry_check_run [OF assms, of now sid] present_iff [OF assms, of now sid]
    by (auto simp: mem_extend_def Let_def run_simps check_expiry_def)
  show "0 \<le> ttl_or (expiration cfg) e \<Longrightarrow> store_view cfg now (snd (mem_extend cfg now sid e s))
        = (case store_view cfg now s sid of None \<Rightarrow> store_view cfg now s
           | Some (v, _) \<Rightarrow> (store_view cfg now s)(sid \<mapsto> (v, now + ttl_or (expiration cfg) e * usec)))"
    using expiry_check_run(2) [OF assms, of now sid] present_iff [OF assms, of now sid] ex val
    by (auto simp: mem_extend_def Let_def run_simps check_expiry_def split: option.splits)
  show "store_ok cfg (snd (mem_extend cfg now sid e s))"
    using assms expiry_check_run(3) [OF assms, of now sid]
    by (auto simp: mem_extend_def Let_def run_simps check_expiry_def store_ok_def)
qed

lemma collect_run:
  assumes "store_ok cfg s" and "\<forall>k \<in> set keys. \<exists>sid. k = get_key (prefix cfg) sid"
  shows "fst (collect_user_sessions cfg now (py_str u) keys s)
      = Inr (filter (\<lambda>sid. sid \<in> owned (payload_user_id cfg) u (store_view cfg now s))
               (map (drop (length (prefix cfg))) keys))
    \<and> store_view cfg now (snd (collect_user_sessions cfg now (py_str u) keys s)) = store_view cfg now s
    \<and> store_ok cfg (snd (collect_user_sessions cfg now (py_str u) keys s))"
  using assms
proof (induction keys arbitrary: s)
  case Nil
  then show ?case by (simp add: run_simps)
next
  case (Cons key keys)
  then obtain sid where key: "key = get_key (prefix cfg) sid" by auto
  let ?s = "snd (check_expiry now key s)"
  note check = expiry_check_run [OF Cons.prems(1), of now sid, folded key]
  from Cons.IH [of ?s] Cons.prems(2) check
  have IH: "fst (collect_user_sessions cfg now (py_str u) keys ?s)
      = Inr (filter (\<lambda>sid. sid \<in> owned (payload_user_id cfg) u (store_view cfg now s))
               (map (drop (length (prefix cfg))) keys))"
    "store_view cfg now (snd (collect_user_sessions cfg now (py_str u) keys ?s)) = store_view cfg now s"
    "store_ok cfg (snd (collect_user_sessions cfg now (py_str u) keys ?s))"
    by simp_all
  have sid: "drop (length (prefix cfg)) key = sid" by (simp add: key get_key_def)
  have "expired_at now (expiry s key) \<Longrightarrow> sid \<notin> owned (payload_user_id cfg) u (store_view cfg now s)"
    using expired_val_of [of now s cfg sid] by (simp add: key owned_def)
  then show ?case using check IH sid
    by (auto simp: run_simps owned_def val_of_def split: option.splits)
qed

lemma stored_keys:
  assumes "store_ok cfg s"
  shows "\<forall>k \<in> set (map fst (data s)). \<exists>sid. k = get_key (prefix cfg) sid"
proof
  fix k assume "k \<in> set (map fst (data s))"
  then have "map_of (data s) k \<noteq> None" by (simp add: map_of_eq_None_iff)
  then show "\<exists>sid. k = get_key (prefix cfg) sid" using assms by (simp add: store_ok_def)
qed

lemma view_in_keys: "store_view cfg now s sid = Some (v, d) \<Longrightarrow> get_key (prefix cfg) sid \<in> fst ` set (data s)"
  by (auto simp: store_view_def Let_def split: option.splits if_splits dest!: map_of_SomeD) force

lemma mem_get_user_sessions_run:
  assumes "store_ok cfg s"
  shows "\<exists>ids. fst (mem_get_user_sessions cfg now u s) = Inr ids \<and> distinct ids
      \<and> set ids = owned (payload_user_id cfg) u (store_view cfg now s)"
    and "store_view cfg now (snd (mem_get_user_sessions cfg now u s)) = store_view cfg now s"
    and "store_ok cfg (snd (mem_get_user_sessions cfg now u s))"
proof -
  note run = collect_run [OF assms stored_keys [OF assms], of now u]
  have "inj_on (drop (length (prefix cfg))) (fst ` set (data s))"
  proof (rule inj_onI)
    fix a c assume a: "a \<in> fst ` set (data s)" and c: "c \<in> fst ` set (data s)"
      and eq: "drop (length (prefix cfg)) a = drop (length (prefix cfg)) c"
    obtain i j where "a = get_key (prefix cfg) i" "c = get_key (prefix cfg) j"
      using a c stored_keys [OF assms] by (metis set_map)
    with eq show "a = c" by (simp add: get_key_def)
  qed
  with assms have dist: "distinct (map (drop (length (prefix cfg))) (map fst (data s)))"
    by (simp add: distinct_map [of _ "map fst (data s)"] store_ok_def del: map_map)
  have "owned (payload_user_id cfg) u (store_view cfg now s) \<subseteq> drop (length (prefix cfg)) ` fst ` set (data s)"
    by (force simp: owned_def get_key_def image_iff dest!: view_in_keys)
  with run dist show "\<exists>ids. fst (mem_get_user_sessions cfg now u s) = Inr ids \<and> distinct ids
      \<and> set ids = owned (payload_user_id cfg) u (store_view cfg now s)"
    by (auto simp: mem_get_user_sessions_def run_simps)
  from run show "store_view cfg now (snd (mem_get_user_sessions cfg now u s)) = store_view cfg now s"
    "store_ok cfg (snd (mem_get_user_sessions cfg now u s))"
    by (auto simp: mem_get_user_sessions_def run_simps)
qed

interpretation mem_store: session_store "mem_storage cfg" "store_view cfg" "store_ok cfg" "payload_user_id cfg"
  "\<lambda>_ s sid. map_of (data s) (get_key (prefix cfg) sid) \<noteq> None" for cfg
proof (unfold_locales, goal_cases)
  case (1 s now t)
  then show ?case
    by (auto simp: store_view_def live_at_def fun_eq_iff Let_def split: option.splits)
next
  case (2 s now k v d)
  then show ?case by (auto simp: store_view_def Let_def split: option.splits if_splits)
next
  case (10 s now sid)
  then show ?case using present_iff [OF 10(1), of now sid] by simp
next
  case (22 s now sid ch r e)
  then show ?case using mem_get_run [OF 22, of now sid]
    by (auto simp: mem_storage_def base_modify_def run_simps mem_update_run val_of_def split: option.splits)
next
  case (23 s e now sid ch r)
  then show ?case using mem_get_run [OF 23(1), of now sid]
    by (auto simp: mem_storage_def base_modify_def run_simps mem_update_run split: option.splits)
next
  case (24 s now sid ch r e)
  then show ?case using mem_get_run [OF 24, of now sid]
    by (auto simp: mem_storage_def base_modify_def run_simps mem_update_run split: option.splits)
next
  case (31 s now u)
  then show ?case using mem_get_user_sessions_run [OF 31, of now u] by (simp add: mem_storage_def)
next
  case (29 s now sid)
  then show ?case using mem_get_run [OF 29, of now sid]
    by (cases "store_view cfg now s sid")
       (auto simp: mem_storage_def base_get_and_delete_def run_simps mem_remove_run val_of_def fun_upd_idem)
next
  case (37 s now)
  have "map fst (data s) = map fst (data s)
      \<and> (\<lambda>k. st_prefix (mem_storage cfg) @ k) ` dom (store_view cfg now s) \<subseteq> set (map fst (data s))"
    by (auto simp: mem_storage_def get_key_def [symmetric] dest!: view_in_keys)
  then show ?case by (auto simp: mem_storage_def mem_scan_keys_def run_simps)
next
  case (28 s now sid)
  then show ?case using mem_get_run [OF 28, of now sid]
    by (auto simp: mem_storage_def base_get_and_delete_def run_simps mem_remove_run split: option.splits)
next
  case (25 s now sid v e)
  then show ?case using mem_exists_run [OF 25, of now sid]
    by (cases "store_view cfg now s sid") (auto simp: mem_storage_def base_set_if_absent_def run_simps mem_create_run)
qed (auto simp: mem_storage_def mem_create_run mem_get_run mem_remove_run mem_update_run mem_extend_run
      mem_exists_run base_set_if_absent_def base_get_and_delete_def mem_get_user_sessions_run run_simps
      mem_scan_keys_def val_of_def fun_upd_idem split: option.splits)

section \<open>Properties\<close>

context timed_store
begin

lemma claim_later:
  assumes "ok s" and "valid sid" and "good (ttl_or (st_expiration st) e)" and "sorted (t0 # ts)"
    and "view t0 s sid = Some (v, d)" and "\<forall>t \<in> set ts. t \<le> d"
  shows "fst (map_prog (\<lambda>(t, w). st_set_if_absent st t sid w e) (zip ts ws) s)
    = Inr (map (\<lambda>_. False) (zip ts ws))"
  using assms
proof (induction ts arbitrary: s t0 ws)
  case (Cons t ts)
  show ?case
  proof (cases ws)
    case ws: (Cons w ws')
    let ?s = "snd (st_set_if_absent st t sid w e s)"
    have "view t s sid = Some (v, d)"
      using Cons.prems view_later [OF Cons.prems(1), of t0 t] by (simp add: live_at_def)
    with Cons.prems ws Cons.IH [of ?s t ws'] show ?thesis by (simp add: run_simps store_laws)
  qed (simp add: run_simps)
qed (simp add: run_simps)

lemma consume_later:
  assumes "ok s" and "sorted (t0 # ts)" and "view t0 s sid = None"
  shows "fst (map_prog (\<lambda>t. st_get_and_delete st t sid) ts s) = Inr (map (\<lambda>_. None) ts)"
  using assms
proof (induction ts arbitrary: s t0)
  case (Cons t ts)
  let ?s = "snd (st_get_and_delete st t sid s)"
  have "view t s sid = None"
    using Cons.prems view_later [OF Cons.prems(1), of t0 t] by (simp add: live_at_def)
  with Cons.prems Cons.IH [of ?s t] show ?case by (simp add: run_simps store_laws val_of_def)
qed (simp add: run_simps)

end

text \<open>
  One-time claims have one winner: of any number of \<open>set_if_absent\<close> calls on one id,
  whatever they store and whenever they run before the first one's entry expires, the first
  alone succeeds, and it is its value that stays readable.
\<close>

theorem set_if_absent_one_winner:
  assumes "store_ok cfg s" and "sid \<noteq> []" and "0 \<le> ttl" and "store_view cfg t s sid = None"
    and "sorted (t # ts)" and "\<forall>t' \<in> set ts. t' \<le> t + ttl * usec" and "length ws = length ts"
  shows "fst (map_prog (\<lambda>(t, w). st_set_if_absent (mem_storage cfg) t sid w (Some ttl)) (zip (t # ts) (w # ws)) s)
      = Inr (True # replicate (length ts) False)
    \<and> (\<forall>t' \<in> set ts. fst (st_get (mem_storage cfg) t' sid
          (snd (st_set_if_absent (mem_storage cfg) t sid w (Some ttl) s))) = Inr (Some w))"
proof -
  let ?s = "snd (st_set_if_absent (mem_storage cfg) t sid w (Some ttl) s)"
  have ok: "store_ok cfg ?s" using assms by (simp add: mem_store.store_laws)
  have v: "store_view cfg t ?s sid = Some (w, t + ttl * usec)"
    using assms by (simp add: mem_store.store_laws ttl_or_def)
  have later: "store_view cfg t' ?s sid = Some (w, t + ttl * usec)" if "t' \<in> set ts" for t'
  proof -
    from that assms(5,6) have "t \<le> t'" "t' \<le> t + ttl * usec" by auto
    with mem_store.view_later [OF ok this(1)] v show ?thesis by (simp add: live_at_def)
  qed
  have "fst (map_prog (\<lambda>(t, w). st_set_if_absent (mem_storage cfg) t sid w (Some ttl)) (zip ts ws) ?s)
      = Inr (replicate (length ts) False)"
    using mem_store.claim_later [OF ok assms(2) _ assms(5) v assms(6), of "Some ttl" ws] assms(3,7)
    by (simp add: ttl_or_def map_replicate_const)
  with assms(1-4) ok later show ?thesis
    by (simp add: run_simps mem_store.store_laws val_of_def)
qed

text \<open>
  A single-use value is handed out once: of any number of \<open>get_and_delete\<close> calls on
  one id, at whatever times, only the first can return it.
\<close>

theorem get_and_delete_hands_out_once:
  assumes "store_ok cfg s" and "sorted (t # ts)"
  shows "fst (map_prog (\<lambda>t. st_get_and_delete (mem_storage cfg) t sid) (t # ts) s)
    = Inr (val_of (store_view cfg t s) sid # replicate (length ts) None)"
proof -
  let ?s = "snd (st_get_and_delete (mem_storage cfg) t sid s)"
  have "store_ok cfg ?s" "store_view cfg t ?s sid = None"
    using assms(1) by (simp_all add: mem_store.store_laws)
  from mem_store.consume_later [OF this(1) assms(2) this(2)] assms(1)
  show ?thesis by (simp add: run_simps mem_store.store_laws map_replicate_const)
qed

definition demo_config :: "string mem_store_config" where
  "demo_config = \<lparr>prefix = ''p:'', expiration = 60, generate_session_id = ''u'', payload_user_id = (\<lambda>_. None)\<rparr>"

lemma store_init [simp]: "store_ok cfg mem_store_init" "store_view cfg now mem_store_init = Map.empty"
  by (simp_all add: store_ok_def mem_store_init_def store_view_def fun_eq_iff)

theorem set_if_absent_one_winner_witness:
  "fst (map_prog (\<lambda>(t, w). st_set_if_absent (mem_storage demo_config) t ''k'' w (Some 60))
     [(0, ''a''), (3, ''b'')] mem_store_init) = Inr [True, False]"
  using set_if_absent_one_winner [of demo_config mem_store_init "''k''" 60 0 "[3]" "[''b'']" "''a''"]
  by (simp add: usec_def del: map_prog.simps)

theorem get_and_delete_hands_out_once_witness:
  "fst (map_prog (\<lambda>t. st_get_and_delete (mem_storage demo_config) t ''k'') [1, 2]
     (snd (st_create (mem_storage demo_config) 0 ''a'' ''k'' None mem_store_init))) = Inr [Some ''a'', None]"
proof -
  let ?s = "snd (st_create (mem_storage demo_config) 0 ''a'' ''k'' None mem_store_init)"
  have "st_expiration (mem_storage demo_config) = 60" by (simp add: mem_storage_def demo_config_def)
  then have "store_ok demo_config ?s" "store_view demo_config 1 ?s ''k'' = Some (''a'', 60 * usec)"
    using mem_store.view_later [of demo_config ?s 0 1]
    by (simp_all add: mem_store.store_laws ttl_or_def live_at_def usec_def)
  with get_and_delete_hands_out_once [of demo_config ?s 1 "[2]" "''k''"]
  show ?thesis by (simp add: val_of_def del: map_prog.simps)
qed

end
