(* ===== verification/Utils.thy ===== *)
theory Utils
  imports Prelude
begin

text \<open>
  The helpers of \<open>crudauth/utils\<close>: canonical identifiers (\<open>identifiers.py\<close>), the
  client address and its rate-limit key, the site boundary and redirect targets
  (\<open>http.py\<close>). The parts of the standard library they call, \<open>ipaddress\<close> and
  \<open>urllib.parse.urlsplit\<close>, are modelled here as far as they are used.
\<close>

section \<open>Identifiers\<close>

definition canonical_email :: "string option \<Rightarrow> string option" where
  "canonical_email email = map_option (\<lambda>e. lower (strip e)) email"

abbreviation canon :: "string \<Rightarrow> string" where
  "canon e \<equiv> lower (strip e)"

definition mask_email :: "string \<Rightarrow> string" where
  "mask_email email =
     (if email = [] \<or> CHR ''@'' \<notin> set email then ''***''
      else (let (local, domain) = partition_at (CHR ''@'') email
            in if length local \<le> 1 then local @ ''***@'' @ domain
               else [local ! 0] @ ''***@'' @ domain))"

definition canonical_identifier :: "string \<Rightarrow> string" where
  "canonical_identifier identifier = lower (strip identifier)"

section \<open>Requests\<close>

record request =
  req_method :: string
  req_headers :: "(string \<times> string) list"
  req_cookies :: "(string \<times> string) list"
  req_client :: "string option"

text \<open>Starlette's case-insensitive header lookup: the first value, or every value.\<close>

definition header_list :: "request \<Rightarrow> string \<Rightarrow> string list" where
  "header_list r name = map snd (filter (\<lambda>(n, v). lower n = lower name) (req_headers r))"

definition header :: "request \<Rightarrow> string \<Rightarrow> string option" where
  "header r name = (case header_list r name of [] \<Rightarrow> None | v # _ \<Rightarrow> Some v)"

definition cookie :: "request \<Rightarrow> string \<Rightarrow> string option" where
  "cookie r name = map_of (req_cookies r) name"

definition is_cross_site :: "request \<Rightarrow> bool" where
  "is_cross_site r \<longleftrightarrow> header r ''sec-fetch-site'' = Some ''cross-site''"

text \<open>
  \<open>parts[-min(trusted_hops, len(parts))]\<close>: the index is between 1 and the length, so it
  counts from the right end.
\<close>

definition get_client_ip :: "request \<Rightarrow> nat \<Rightarrow> string" where
  "get_client_ip r trusted_hops =
     (let forwarded = join_with '','' (header_list r ''x-forwarded-for'');
          parts = filter (\<lambda>p. p \<noteq> []) (map strip (split_on (CHR '','') forwarded));
          peer = (case req_client r of Some h \<Rightarrow> h | None \<Rightarrow> ''unknown'')
      in if trusted_hops > 0 \<and> parts \<noteq> [] then parts ! (length parts - min trusted_hops (length parts))
         else peer)"

section \<open>Addresses (the standard library's ipaddress)\<close>

datatype ip_address = IPv4 "nat list" | IPv6 "nat list"

definition is_digit :: "char \<Rightarrow> bool" where
  "is_digit c \<longleftrightarrow> 48 \<le> (of_char c :: nat) \<and> (of_char c :: nat) \<le> 57"

definition hex_value :: "char \<Rightarrow> nat option" where
  "hex_value c = (let n = (of_char c :: nat)
     in if 48 \<le> n \<and> n \<le> 57 then Some (n - 48)
        else if 97 \<le> n \<and> n \<le> 102 then Some (n - 87)
        else if 65 \<le> n \<and> n \<le> 70 then Some (n - 55) else None)"

definition parse_digits :: "nat \<Rightarrow> string \<Rightarrow> nat option" where
  "parse_digits base s = map_option (foldl (\<lambda>acc d. acc * base + d) 0) (those (map hex_value s))"

definition parse_octet :: "string \<Rightarrow> nat option" where
  "parse_octet s =
     (if s = [] \<or> \<not> list_all is_digit s \<or> length s > 3 \<or> s \<noteq> ''0'' \<and> hd s = CHR ''0'' then None
      else case parse_digits 10 s of None \<Rightarrow> None | Some n \<Rightarrow> if n > 255 then None else Some n)"

definition parse_ipv4 :: "string \<Rightarrow> nat list option" where
  "parse_ipv4 s = (let octets = split_on (CHR ''.'') s
     in if length octets \<noteq> 4 then None else those (map parse_octet octets))"

definition parse_hextet :: "string \<Rightarrow> nat option" where
  "parse_hextet s = (if s = [] \<or> length s > 4 then None else parse_digits 16 s)"

text \<open>
  An IPv6 address as its eight 16-bit groups. \<open>groups\<close> are the colon-separated parts,
  with a dotted tail already replaced by two groups; one empty inner part stands for a run
  of zero groups.
\<close>

definition expand_groups :: "(string + nat) list \<Rightarrow> nat list option" where
  "expand_groups parts =
     (let val = (\<lambda>p. case p of Inl s \<Rightarrow> parse_hextet s | Inr n \<Rightarrow> Some n);
          n = length parts;
          empties = filter (\<lambda>i. parts ! i = Inl []) [1..<n - 1]
      in if n > 9 then None
         else case empties of
           [] \<Rightarrow> if n \<noteq> 8 then None else those (map val parts)
         | [k] \<Rightarrow>
             (let hi = (if parts ! 0 = Inl [] then k - 1 else k);
                  lo = (if parts ! (n - 1) = Inl [] then n - k - 2 else n - k - 1)
              in if parts ! 0 = Inl [] \<and> hi \<noteq> 0 \<or> parts ! (n - 1) = Inl [] \<and> lo \<noteq> 0 \<or> 8 < hi + lo + 1
                 then None
                 else case (those (map val (take hi parts)), those (map val (drop (n - lo) parts))) of
                        (Some h, Some l) \<Rightarrow> Some (h @ replicate (8 - (hi + lo)) 0 @ l)
                      | _ \<Rightarrow> None)
         | _ \<Rightarrow> None)"

definition parse_ipv6 :: "string \<Rightarrow> nat list option" where
  "parse_ipv6 s =
     (let (addr, scope) = partition_at (CHR ''%'') s;
          parts = split_on (CHR '':'') addr
      in if CHR ''%'' \<in> set s \<and> (scope = [] \<or> CHR ''%'' \<in> set scope) \<or> CHR ''/'' \<in> set addr
            \<or> addr = [] \<or> length parts < 3 then None
         else if CHR ''.'' \<in> set (last parts)
         then (case parse_ipv4 (last parts) of
                 Some [a, b, c, d] \<Rightarrow>
                   expand_groups (map Inl (butlast parts) @ [Inr (a * 256 + b), Inr (c * 256 + d)])
               | _ \<Rightarrow> None)
         else expand_groups (map Inl parts))"

definition parse_ip :: "string \<Rightarrow> ip_address option" where
  "parse_ip s = (case parse_ipv4 s of Some os \<Rightarrow> Some (IPv4 os) | None \<Rightarrow> map_option IPv6 (parse_ipv6 s))"

definition ipv4_str :: "nat list \<Rightarrow> string" where
  "ipv4_str os = join_with ''.'' (map str_of_nat os)"

definition hex_digit :: "nat \<Rightarrow> char" where
  "hex_digit d = char_of (if d < 10 then 48 + d else 87 + d)"

fun hex_of_nat :: "nat \<Rightarrow> string" where
  "hex_of_nat n = (if n < 16 then [hex_digit n] else hex_of_nat (n div 16) @ [hex_digit (n mod 16)])"

declare hex_of_nat.simps [simp del]

text \<open>\<open>_compress_hextets\<close>: the first longest run of zero groups, as (start, length).\<close>

fun zero_run :: "nat \<Rightarrow> nat list \<Rightarrow> nat \<Rightarrow> nat \<Rightarrow> nat \<Rightarrow> nat \<times> nat" where
  "zero_run i [] len best_start best_len = (best_start, best_len)"
| "zero_run i (g # gs) len best_start best_len =
     (if g = 0 then
        (let len' = Suc len
         in if best_len < len' then zero_run (Suc i) gs len' (Suc i - len') len'
            else zero_run (Suc i) gs len' best_start best_len)
      else zero_run (Suc i) gs 0 best_start best_len)"

definition ipv6_str :: "nat list \<Rightarrow> string" where
  "ipv6_str gs =
     (let (start, len) = zero_run 0 gs 0 0 0;
          hextets = map hex_of_nat gs;
          stop = start + len
      in if len \<le> 1 then join_with '':'' hextets
         else join_with '':'' ((if start = 0 then [[]] else []) @ take start hextets @ [[]]
                @ drop stop hextets @ (if stop = length gs then [[]] else [])))"

definition IPV6_CLIENT_PREFIX_LENGTH :: nat where
  "IPV6_CLIENT_PREFIX_LENGTH = 64"

definition ipv4_mapped :: "nat list \<Rightarrow> nat list option" where
  "ipv4_mapped gs =
     (if take 6 gs = [0, 0, 0, 0, 0, 65535]
      then Some [gs ! 6 div 256, gs ! 6 mod 256, gs ! 7 div 256, gs ! 7 mod 256] else None)"

text \<open>The network of an address: the groups under the prefix (a multiple of 16) are kept.\<close>

definition ipv6_network_str :: "nat list \<Rightarrow> nat \<Rightarrow> string" where
  "ipv6_network_str gs prefix =
     ipv6_str (take (prefix div 16) gs @ replicate (8 - prefix div 16) 0) @ ''/'' @ str_of_nat prefix"

definition client_ip_key :: "string \<Rightarrow> string" where
  "client_ip_key ip =
     (case parse_ip ip of
        None \<Rightarrow> ip
      | Some (IPv4 os) \<Rightarrow> ipv4_str os
      | Some (IPv6 gs) \<Rightarrow>
          (case ipv4_mapped gs of Some os \<Rightarrow> ipv4_str os
           | None \<Rightarrow> ipv6_network_str gs IPV6_CLIENT_PREFIX_LENGTH))"

section \<open>Redirect targets\<close>

text \<open>
  \<open>urlsplit\<close> after its removal of leading blanks: a scheme needs a leading letter and a
  colon before any character outside the scheme alphabet; a network location needs a
  leading double slash.
\<close>

definition is_alpha :: "char \<Rightarrow> bool" where
  "is_alpha c \<longleftrightarrow> (let n = (of_char c :: nat) in 65 \<le> n \<and> n \<le> 90 \<or> 97 \<le> n \<and> n \<le> 122)"

definition scheme_char :: "char \<Rightarrow> bool" where
  "scheme_char c \<longleftrightarrow> is_alpha c \<or> is_digit c \<or> c \<in> set ''+-.''"

definition url_scheme :: "string \<Rightarrow> string" where
  "url_scheme u =
     (let url = dropWhile (\<lambda>c. (of_char c :: nat) \<le> 32) u; pre = takeWhile (\<lambda>c. c \<noteq> CHR '':'') url
      in if CHR '':'' \<in> set url \<and> pre \<noteq> [] \<and> is_alpha (hd pre) \<and> list_all scheme_char pre
         then lower pre else [])"

definition url_netloc :: "string \<Rightarrow> string" where
  "url_netloc u =
     (let url = dropWhile (\<lambda>c. (of_char c :: nat) \<le> 32) u;
          rest = (if url_scheme u = [] then url else drop (length (url_scheme u) + 1) url)
      in if starts_with rest ''//'' then takeWhile (\<lambda>c. c \<notin> set ''/?#'') (drop 2 rest) else [])"

definition backslash :: char where
  "backslash = char_of (92 :: nat)"

definition safe_redirect_path :: "string option \<Rightarrow> string \<Rightarrow> string" where
  "safe_redirect_path target dflt =
     (case target of
        None \<Rightarrow> dflt
      | Some t \<Rightarrow>
          if t = [] \<or> \<not> starts_with t ''/'' \<or> starts_with t ''//'' then dflt
          else if backslash \<in> set t \<or> (\<exists>c \<in> set t. (of_char c :: nat) < 32) then dflt
          else if url_scheme t \<noteq> [] \<or> url_netloc t \<noteq> [] then dflt
          else t)"

section \<open>Properties\<close>

text \<open>Lower-casing and trimming are idempotent, and commute.\<close>

lemma lower_char_idem [simp]: "lower_char (lower_char c) = lower_char c"
  by (simp add: lower_char_def Let_def of_char_of)

lemma lower_idem [simp]: "lower (lower s) = lower s"
  by (simp add: lower_def)

lemma is_space_lower [simp]: "is_space (lower_char c) = is_space c"
  by (auto simp: is_space_def lower_char_def Let_def of_char_of)

lemma dropWhile_lower: "dropWhile is_space (lower s) = lower (dropWhile is_space s)"
  by (simp add: lower_def dropWhile_map comp_def)

lemma lower_rev: "rev (lower s) = lower (rev s)"
  by (simp add: lower_def rev_map)

lemma strip_lower: "strip (lower s) = lower (strip s)"
  by (simp add: strip_def dropWhile_lower lower_rev)

lemma dropWhile_rev_id:
  assumes "xs \<noteq> []" and "\<not> P (hd xs)"
  shows "dropWhile P (rev (dropWhile P (rev xs))) = rev (dropWhile P (rev xs))"
proof -
  from assms obtain y ys where xs: "xs = y # ys" "\<not> P y" by (cases xs) auto
  have "dropWhile P (rev xs) = dropWhile P (rev ys) @ [y]"
    using xs by (simp add: dropWhile_append)
  then show ?thesis using xs by simp
qed

lemma dropWhile_rev_dropWhile:
  "dropWhile P (rev (dropWhile P (rev (dropWhile P xs)))) = rev (dropWhile P (rev (dropWhile P xs)))"
proof (cases "dropWhile P xs")
  case Nil
  show ?thesis unfolding Nil by simp
next
  case (Cons y ys)
  then have "dropWhile P xs \<noteq> []" by simp
  then show ?thesis using dropWhile_rev_id [of "dropWhile P xs" P] hd_dropWhile [of P xs] by blast
qed

lemma strip_idem [simp]: "strip (strip s) = strip s"
  unfolding strip_def by (simp add: dropWhile_rev_dropWhile)

lemma canonical_identifier_idem [simp]: "canonical_identifier (canonical_identifier u) = canonical_identifier u"
  by (simp add: canonical_identifier_def strip_lower)

text \<open>
  Every address of an IPv6 /64 shares one rate-limit key, as does an IPv4 address with
  its IPv4-mapped IPv6 form, so rotating through the addresses a client owns does not give it
  a fresh budget; a text that is no address is its own key.
\<close>

theorem client_ip_key_per_client:
  "(parse_ip a = Some (IPv6 g) \<longrightarrow> parse_ip b = Some (IPv6 h) \<longrightarrow> take 4 g = take 4 h \<longrightarrow>
      ipv4_mapped g = None \<longrightarrow> ipv4_mapped h = None \<longrightarrow> client_ip_key a = client_ip_key b)
   \<and> (parse_ip a = Some (IPv6 g) \<longrightarrow> parse_ip b = Some (IPv4 os) \<longrightarrow> ipv4_mapped g = Some os \<longrightarrow>
      client_ip_key a = client_ip_key b)
   \<and> (parse_ip a = None \<longrightarrow> client_ip_key a = a)"
  by (simp add: client_ip_key_def ipv6_network_str_def IPV6_CLIENT_PREFIX_LENGTH_def)

theorem client_ip_key_per_client_witness:
  "client_ip_key ''::1'' = client_ip_key ''::2''"
proof -
  have "parse_ip ''::1'' = Some (IPv6 [0, 0, 0, 0, 0, 0, 0, 1])" by code_simp
  moreover have "parse_ip ''::2'' = Some (IPv6 [0, 0, 0, 0, 0, 0, 0, 2])" by code_simp
  ultimately show ?thesis
    using client_ip_key_per_client [of "''::1''" "[0, 0, 0, 0, 0, 0, 0, 1]" "''::2''" "[0, 0, 0, 0, 0, 0, 0, 2]" "[]"]
    by (simp add: ipv4_mapped_def)
qed

lemma split_on_nonempty [simp]: "split_on c s \<noteq> []"
  by (induction s) (auto split: list.splits)

lemma split_on_append: "split_on c (a @ c # b) = split_on c a @ split_on c b"
  by (induction a) (auto split: list.splits)

definition forwarded_parts :: "string \<Rightarrow> string list" where
  "forwarded_parts s = filter (\<lambda>p. p \<noteq> []) (map strip (split_on (CHR '','') s))"

lemma forwarded_parts_append: "forwarded_parts (a @ '','' @ b) = forwarded_parts a @ forwarded_parts b"
  by (simp add: forwarded_parts_def split_on_append)

lemma get_client_ip_parts:
  "header_list r ''x-forwarded-for'' = [v] \<Longrightarrow> 0 < hops \<Longrightarrow> forwarded_parts v \<noteq> [] \<Longrightarrow>
    get_client_ip r hops = forwarded_parts v ! (length (forwarded_parts v) - min hops (length (forwarded_parts v)))"
  by (simp add: get_client_ip_def Let_def forwarded_parts_def)

text \<open>
  With trusted proxies in front, what a client puts in front of the forwarding chain does
  not change the address it is counted under, as long as the proxies add at least as many
  entries as they are.
\<close>

theorem get_client_ip_ignores_prefix:
  assumes "header_list r ''x-forwarded-for'' = [forged @ '','' @ chain]"
    and "header_list r' ''x-forwarded-for'' = [chain]"
    and "0 < hops" and "hops \<le> length (forwarded_parts chain)"
  shows "get_client_ip r hops = get_client_ip r' hops"
proof -
  have ne: "forwarded_parts chain \<noteq> []" using assms(3,4) by auto
  have "get_client_ip r hops = (forwarded_parts forged @ forwarded_parts chain)
      ! (length (forwarded_parts forged) + length (forwarded_parts chain) - hops)"
    using assms ne get_client_ip_parts [of r "forged @ '','' @ chain" hops]
    unfolding forwarded_parts_append by simp
  also have "\<dots> = forwarded_parts chain ! (length (forwarded_parts chain) - hops)"
    by (simp only: Nat.add_diff_assoc [OF assms(4), symmetric] nth_append_length_plus)
  also have "\<dots> = get_client_ip r' hops"
    using get_client_ip_parts [OF assms(2,3) ne] assms(4) by simp
  finally show ?thesis .
qed

definition forwarded_request :: "string \<Rightarrow> request" where
  "forwarded_request v =
     \<lparr>req_method = ''GET'', req_headers = [(''x-forwarded-for'', v)], req_cookies = [], req_client = Some ''p''\<rparr>"

theorem get_client_ip_ignores_prefix_witness:
  "get_client_ip (forwarded_request ''x,c'') 1 = get_client_ip (forwarded_request ''c'') 1"
proof -
  have h: "header_list (forwarded_request ''x,c'') ''x-forwarded-for'' = [''x'' @ '','' @ ''c'']"
    "header_list (forwarded_request ''c'') ''x-forwarded-for'' = [''c'']"
    by code_simp+
  have "1 \<le> length (forwarded_parts ''c'')"
    by code_simp
  from get_client_ip_ignores_prefix [OF h zero_less_one this] show ?thesis .
qed

lemma starts_with_Cons: "starts_with s (p # ps) \<longleftrightarrow> (\<exists>t. s = p # t \<and> starts_with t ps)"
  by (cases s) auto

lemma no_control_dropWhile:
  "s \<noteq> [] \<Longrightarrow> \<not> (of_char (hd s) :: nat) \<le> 32 \<Longrightarrow> dropWhile (\<lambda>c. (of_char c :: nat) \<le> 32) s = s"
  by (cases s) auto

text \<open>
  The post-login redirect target stays on this host: it is the given default or a path
  that starts with exactly one slash and holds no backslash and no control character, and a
  target of that form is taken as it is.
\<close>

theorem safe_redirect_path_on_host:
  "safe_redirect_path target dflt =
     (case target of
        Some t \<Rightarrow> if starts_with t ''/'' \<and> \<not> starts_with t ''//'' \<and> backslash \<notin> set t
                     \<and> list_all (\<lambda>c. 32 \<le> (of_char c :: nat)) t then t else dflt
      | None \<Rightarrow> dflt)"
proof (cases target)
  case (Some t)
  have "url_scheme t = []" "url_netloc t = []"
    if t: "starts_with t ''/''" "\<not> starts_with t ''//''"
  proof -
    from t(1) obtain u where u: "t = CHR ''/'' # u" by (auto simp: starts_with_Cons)
    then have d: "dropWhile (\<lambda>c. (of_char c :: nat) \<le> 32) t = t" by simp
    show s: "url_scheme t = []"
      unfolding url_scheme_def d Let_def by (simp add: u is_alpha_def)
    show "url_netloc t = []" unfolding url_netloc_def d Let_def s using t(2) by simp
  qed
  then show ?thesis using Some
    by (auto simp: safe_redirect_path_def list_all_iff not_less)
qed (simp add: safe_redirect_path_def)

end
