(* ===== verification/Hashlib.thy ===== *)
theory Hashlib
  imports Prelude "HOL-Library.Word"
begin

text \<open>
  The parts of Python's \<open>hashlib\<close>, \<open>hmac\<close> and \<open>base64\<close> the sources call:
  SHA-256 and SHA-1 (FIPS 180-4), HMAC (RFC 2104), hexadecimal digests and base 32. Bytes are
  \<^typ>\<open>char\<close>s, so a byte string is a \<^typ>\<open>string\<close>; the words of the
  compression functions are 32 bits wide and wrap.
\<close>

unbundle bit_operations_syntax

section \<open>Blocks and words\<close>

definition be_bytes :: "nat \<Rightarrow> nat \<Rightarrow> string" where
  "be_bytes n x = map (\<lambda>i. char_of (x div 256 ^ (n - 1 - i) mod 256)) [0..<n]"

definition be_nat :: "string \<Rightarrow> nat" where
  "be_nat s = foldl (\<lambda>acc c. acc * 256 + of_char c) 0 s"

text \<open>A one bit, zeros up to 56 modulo 64, and the length in bits as eight bytes.\<close>

definition md_pad :: "string \<Rightarrow> string" where
  "md_pad m =
     m @ [char_of (128 :: nat)] @ replicate ((119 - length m mod 64) mod 64) (char_of (0 :: nat))
       @ be_bytes 8 (8 * length m)"

definition blocks :: "string \<Rightarrow> string list" where
  "blocks m = map (\<lambda>i. take 64 (drop (64 * i) m)) [0..<length m div 64]"

definition words_of :: "string \<Rightarrow> 32 word list" where
  "words_of b = map (\<lambda>i. of_nat (be_nat (take 4 (drop (4 * i) b)))) [0..<16]"

definition digest_of :: "32 word list \<Rightarrow> string" where
  "digest_of ws = concat (map (\<lambda>w. be_bytes 4 (unat w)) ws)"

section \<open>SHA-256\<close>

text \<open>
  The constants are the first 32 bits of the fractional parts of the cube roots (round
  constants) and square roots (initial state) of the first primes, computed by integer roots:
  \<open>root k n\<close> is the largest number whose \<open>k\<close>-th power is at most \<open>n\<close>, found bit
  by bit.
\<close>

fun root_bits :: "nat \<Rightarrow> nat \<Rightarrow> nat \<Rightarrow> nat \<Rightarrow> nat" where
  "root_bits k n r 0 = r"
| "root_bits k n r (Suc b) = root_bits k n (if (r + 2 ^ b) ^ k \<le> n then r + 2 ^ b else r) b"

definition primes_below :: "nat \<Rightarrow> nat list" where
  "primes_below n = filter (\<lambda>p. list_all (\<lambda>d. p mod d \<noteq> 0) [2..<p]) [2..<n]"

definition sha256_k :: "32 word list" where
  "sha256_k = map (\<lambda>p. of_nat (root_bits 3 (p * 2 ^ 96) 0 36)) (primes_below 312)"

definition sha256_init :: "32 word list" where
  "sha256_init = map (\<lambda>p. of_nat (root_bits 2 (p * 2 ^ 64) 0 36)) (primes_below 20)"

definition sha256_schedule :: "32 word list \<Rightarrow> 32 word list" where
  "sha256_schedule ws =
     foldl (\<lambda>w i.
       let x = w ! (i - 15); y = w ! (i - 2);
           s0 = xor (xor (word_rotr 7 x) (word_rotr 18 x)) (drop_bit 3 x);
           s1 = xor (xor (word_rotr 17 y) (word_rotr 19 y)) (drop_bit 10 y)
       in w @ [w ! (i - 16) + s0 + w ! (i - 7) + s1]) ws [16..<64]"

definition sha256_round :: "32 word list \<Rightarrow> 32 word \<times> 32 word \<Rightarrow> 32 word list" where
  "sha256_round st kw =
     (case st of
        [a, b, c, d, e, f, g, h] \<Rightarrow>
          (let S1 = xor (xor (word_rotr 6 e) (word_rotr 11 e)) (word_rotr 25 e);
               ch = xor (e AND f) (NOT e AND g);
               t1 = h + S1 + ch + fst kw + snd kw;
               S0 = xor (xor (word_rotr 2 a) (word_rotr 13 a)) (word_rotr 22 a);
               maj = xor (xor (a AND b) (a AND c)) (b AND c)
           in [t1 + (S0 + maj), a, b, c, d + t1, e, f, g])
      | _ \<Rightarrow> st)"

definition sha256_block :: "32 word list \<Rightarrow> string \<Rightarrow> 32 word list" where
  "sha256_block h b =
     map2 (+) h (foldl sha256_round h (zip sha256_k (sha256_schedule (words_of b))))"

definition sha256 :: "string \<Rightarrow> string" where
  "sha256 m = digest_of (foldl sha256_block sha256_init (blocks (md_pad m)))"

section \<open>SHA-1\<close>

definition sha1_init :: "32 word list" where
  "sha1_init = map of_nat [1732584193, 4023233417, 2562383102, 271733878, 3285377520]"

definition sha1_schedule :: "32 word list \<Rightarrow> 32 word list" where
  "sha1_schedule ws =
     foldl (\<lambda>w i. w @ [word_rotl 1 (xor (xor (w ! (i - 3)) (w ! (i - 8))) (xor (w ! (i - 14)) (w ! (i - 16))))])
       ws [16..<80]"

definition sha1_round :: "32 word list \<Rightarrow> nat \<times> 32 word \<Rightarrow> 32 word list" where
  "sha1_round st iw =
     (case st of
        [a, b, c, d, e] \<Rightarrow>
          (let i = fst iw;
               f = (if i < 20 then (b AND c) OR (NOT b AND d)
                    else if i < 40 then xor (xor b c) d
                    else if i < 60 then (b AND c) OR (b AND d) OR (c AND d)
                    else xor (xor b c) d);
               k = (if i < 20 then 0x5a827999 else if i < 40 then 0x6ed9eba1
                    else if i < 60 then 0x8f1bbcdc else 0xca62c1d6)
           in [word_rotl 5 a + f + e + k + snd iw, a, word_rotl 30 b, c, d])
      | _ \<Rightarrow> st)"

definition sha1_block :: "32 word list \<Rightarrow> string \<Rightarrow> 32 word list" where
  "sha1_block h b = map2 (+) h (foldl sha1_round h (zip [0..<80] (sha1_schedule (words_of b))))"

definition sha1 :: "string \<Rightarrow> string" where
  "sha1 m = digest_of (foldl sha1_block sha1_init (blocks (md_pad m)))"

section \<open>HMAC and hexadecimal digests\<close>

definition xor_bytes :: "nat \<Rightarrow> string \<Rightarrow> string" where
  "xor_bytes p s = map (\<lambda>c. char_of (xor (of_char c :: nat) p)) s"

definition hmac :: "(string \<Rightarrow> string) \<Rightarrow> string \<Rightarrow> string \<Rightarrow> string" where
  "hmac H key msg =
     (let k0 = (if length key > 64 then H key else key);
          k = k0 @ replicate (64 - length k0) (char_of (0 :: nat))
      in H (xor_bytes 92 k @ H (xor_bytes 54 k @ msg)))"

definition hex_nibble :: "nat \<Rightarrow> char" where
  "hex_nibble d = char_of (if d < 10 then 48 + d else 87 + d)"

definition hexdigest :: "string \<Rightarrow> string" where
  "hexdigest s = concat (map (\<lambda>c. [hex_nibble (of_char c div 16), hex_nibble (of_char c mod 16)]) s)"

definition hmac_sha256_hex :: "string \<Rightarrow> string \<Rightarrow> string" where
  "hmac_sha256_hex key msg = hexdigest (hmac sha256 key msg)"

definition sha256_hex :: "string \<Rightarrow> string" where
  "sha256_hex m = hexdigest (sha256 m)"

section \<open>Base 32\<close>

definition b32_char :: "nat \<Rightarrow> char" where
  "b32_char d = char_of (if d < 26 then 65 + d else 24 + d)"

definition b32_value :: "char \<Rightarrow> nat option" where
  "b32_value c = (let n = (of_char c :: nat)
     in if 65 \<le> n \<and> n \<le> 90 then Some (n - 65)
        else if 50 \<le> n \<and> n \<le> 55 then Some (n - 24) else None)"

section \<open>Lengths\<close>

lemma be_bytes_length [simp]: "length (be_bytes n x) = n"
  by (simp add: be_bytes_def)

lemma digest_length: "length (digest_of ws) = 4 * length ws"
  by (simp add: digest_of_def length_concat comp_def sum_list_triv)

lemma sha256_round_length [simp]: "length (sha256_round st kw) = length st"
  by (auto simp: sha256_round_def Let_def split: list.splits)

lemma sha256_rounds_length [simp]: "length (foldl sha256_round h kws) = length h"
  by (induction kws arbitrary: h) simp_all

lemma sha256_blocks_length: "length (foldl sha256_block h bs) = length h"
  by (induction bs arbitrary: h) (simp_all add: sha256_block_def)

lemma eight_primes: "length (primes_below 20) = 8"
  by code_simp

lemma sha256_length [simp]: "length (sha256 m) = 32"
  by (simp add: sha256_def digest_length sha256_blocks_length sha256_init_def eight_primes)

lemma sha1_round_length [simp]: "length (sha1_round st iw) = length st"
  by (auto simp: sha1_round_def Let_def split: list.splits)

lemma sha1_rounds_length [simp]: "length (foldl sha1_round h iws) = length h"
  by (induction iws arbitrary: h) simp_all

lemma sha1_blocks_length: "length (foldl sha1_block h bs) = length h"
  by (induction bs arbitrary: h) (simp_all add: sha1_block_def)

lemma sha1_length [simp]: "length (sha1 m) = 20"
  by (simp add: sha1_def digest_length sha1_blocks_length sha1_init_def)

lemma hexdigest_length [simp]: "length (hexdigest s) = 2 * length s"
  by (induction s) (simp_all add: hexdigest_def)

lemma hmac_sha256_hex_length [simp]: "length (hmac_sha256_hex k m) = 64"
  by (simp add: hmac_sha256_hex_def hmac_def Let_def)

lemma sha256_hex_length [simp]: "length (sha256_hex m) = 64"
  by (simp add: sha256_hex_def)

lemma hmac_sha256_hex_nonempty [simp]: "hmac_sha256_hex k m \<noteq> []"
  using hmac_sha256_hex_length [of k m] by force

end
