(* ===== verification/Lockout.thy ===== *)
theory Lockout
  imports Limiter Utils
begin

text \<open>
  The escalating login lockout, \<open>crudauth/ratelimit/policy.py\<close>, over any rate-limiter
  backend, with the configuration of \<open>ratelimit/config.py\<close>. The policy is related to a
  specification over timed counters, from which the lockout's properties follow for every
  backend that keeps the port's contract.
\<close>

section \<open>Configuration\<close>

datatype login_success_clears = Clear_all | Clear_user_only

record lockout_policy =
  max_attempts :: int
  attempt_window :: int
  lockout_base :: int
  lockout_max :: int
  round_retention :: int
  on_login_success :: login_success_clears
  fail_open :: bool

text \<open>\<open>LockoutConfig.__post_init__\<close>: the first value that is not positive is reported.\<close>

definition lockout_config :: "int \<Rightarrow> int \<Rightarrow> int \<Rightarrow> int \<Rightarrow> int \<Rightarrow> login_success_clears \<Rightarrow> exc + lockout_policy" where
  "lockout_config ma aw lb lm rr mode =
     (case filter (\<lambda>(n, v). v \<le> 0)
        [(''max_attempts'', ma), (''attempt_window_seconds'', aw), (''lockout_base_seconds'', lb),
         (''lockout_max_seconds'', lm), (''round_retention_seconds'', rr)] of
        (n, v) # _ \<Rightarrow> Inl (ValueError (''LockoutConfig '' @ n @ '' must be > 0, got '' @ str_of_int v))
      | [] \<Rightarrow> Inr \<lparr>max_attempts = ma, attempt_window = aw, lockout_base = lb, lockout_max = lm,
                  round_retention = rr, on_login_success = mode, fail_open = False\<rparr>)"

section \<open>Keys\<close>

definition LOCKOUT_NAMESPACE :: string where
  "LOCKOUT_NAMESPACE = ''login''"

definition ip_attempts :: "string \<Rightarrow> string" where
  "ip_attempts ip = LOCKOUT_NAMESPACE @ '':ip:'' @ ip"

definition user_attempts :: "string \<Rightarrow> string" where
  "user_attempts user = LOCKOUT_NAMESPACE @ '':user:'' @ user"

definition pair_attempts :: "string \<Rightarrow> string \<Rightarrow> string" where
  "pair_attempts ip user = LOCKOUT_NAMESPACE @ '':pair:'' @ ip @ '':'' @ user"

definition ip_lock :: "string \<Rightarrow> string" where
  "ip_lock ip = LOCKOUT_NAMESPACE @ '':lock:ip:'' @ ip"

definition user_lock :: "string \<Rightarrow> string" where
  "user_lock user = LOCKOUT_NAMESPACE @ '':lock:user:'' @ user"

definition ip_rounds :: "string \<Rightarrow> string" where
  "ip_rounds ip = LOCKOUT_NAMESPACE @ '':rounds:ip:'' @ ip"

definition user_rounds :: "string \<Rightarrow> string" where
  "user_rounds user = LOCKOUT_NAMESPACE @ '':rounds:user:'' @ user"

section \<open>The policy\<close>

type_synonym attempt_result = "bool \<times> int option \<times> int"

text \<open>\<open>x or 0\<close> on an optional count.\<close>

definition or_zero :: "int option \<Rightarrow> int" where
  "or_zero n = (case n of None \<Rightarrow> 0 | Some i \<Rightarrow> i)"

definition record_success :: "lockout_policy \<Rightarrow> 'b rate_limiter_backend \<Rightarrow> int \<Rightarrow> string \<Rightarrow> string \<Rightarrow>
    ('b, attempt_result) prog" where
  "record_success P b now ip user =
     bind (for_each [user_attempts user, user_lock user, user_rounds user]
             (\<lambda>key. bind (delete_key b now key) (\<lambda>_. ret ()))) (\<lambda>_.
     bind (if on_login_success P = Clear_all then
             bind (get_count b now (pair_attempts ip user)) (\<lambda>own_failures.
             if or_zero own_failures \<noteq> 0 then
               bind (delete_key b now (pair_attempts ip user)) (\<lambda>deleted.
               if deleted then
                 bind (increment b now (ip_attempts ip) (- or_zero own_failures) (Some (attempt_window P)))
                   (\<lambda>_. ret ())
               else ret ())
             else ret ())
           else ret ()) (\<lambda>_.
     ret (True, None, 0)))"

definition engage_lockout :: "lockout_policy \<Rightarrow> 'b rate_limiter_backend \<Rightarrow> int \<Rightarrow> string \<Rightarrow> string \<Rightarrow>
    ('b, attempt_result) prog" where
  "engage_lockout P b now ip user =
     bind (get_count b now (ip_rounds ip)) (\<lambda>ip_r.
     bind (get_count b now (user_rounds user)) (\<lambda>user_r.
     let rounds = max (or_zero ip_r) (or_zero user_r);
         retry_after = min (lockout_base P * 2 ^ nat rounds) (lockout_max P);
         round_ttl = max retry_after (round_retention P)
     in bind (increment b now (ip_lock ip) 1 (Some retry_after)) (\<lambda>_.
        bind (increment b now (user_lock user) 1 (Some retry_after)) (\<lambda>_.
        bind (increment_and_refresh_ttl b now (ip_rounds ip) 1 (Some round_ttl)) (\<lambda>_.
        bind (increment_and_refresh_ttl b now (user_rounds user) 1 (Some round_ttl)) (\<lambda>_.
        ret (False, Some 0, retry_after)))))))"

definition record_failure :: "lockout_policy \<Rightarrow> 'b rate_limiter_backend \<Rightarrow> int \<Rightarrow> string \<Rightarrow> string \<Rightarrow>
    ('b, attempt_result) prog" where
  "record_failure P b now ip user =
     bind (get_ttl b now (ip_lock ip)) (\<lambda>ip_ttl.
     bind (get_ttl b now (user_lock user)) (\<lambda>user_ttl.
     let active_lockout = max ip_ttl user_ttl in
     if active_lockout > 0 then ret (False, Some 0, active_lockout)
     else
       bind (increment b now (ip_attempts ip) 1 (Some (attempt_window P))) (\<lambda>ip_count.
       bind (increment b now (user_attempts user) 1 (Some (attempt_window P))) (\<lambda>user_count.
       bind (if on_login_success P = Clear_all then
               bind (get_ttl b now (ip_attempts ip)) (\<lambda>ip_window.
               if ip_window > 0 then
                 bind (increment b now (pair_attempts ip user) 1 (Some ip_window)) (\<lambda>_. ret ())
               else ret ())
             else ret ()) (\<lambda>_.
       let attempt_count = max ip_count user_count;
           remaining = max 0 (max_attempts P - attempt_count)
       in if attempt_count \<le> max_attempts P then ret (True, Some remaining, 0)
          else engage_lockout P b now ip user)))))"

definition check_and_record :: "lockout_policy \<Rightarrow> 'b rate_limiter_backend \<Rightarrow> int \<Rightarrow> string \<Rightarrow> string \<Rightarrow>
    bool \<Rightarrow> ('b, attempt_result) prog" where
  "check_and_record P b now ip_address username success =
     (let ip = client_ip_key ip_address; user = canonical_identifier username
      in catch (if success then record_success P b now ip user else record_failure P b now ip user)
           (\<lambda>_. if fail_open P then ret (True, None, 0) else ret (False, Some 0, lockout_base P)))"

definition forget_attempt :: "lockout_policy \<Rightarrow> 'b rate_limiter_backend \<Rightarrow> int \<Rightarrow> string \<Rightarrow> string \<Rightarrow>
    ('b, unit) prog" where
  "forget_attempt P b now ip_address username =
     (let ip = client_ip_key ip_address; user = canonical_identifier username;
          keys = [ip_attempts ip, user_attempts user]
            @ (if on_login_success P = Clear_all then [pair_attempts ip user] else [])
      in catch
           (for_each keys (\<lambda>key.
              bind (get_count b now key) (\<lambda>n.
              if or_zero n > 0
              then bind (increment b now key (- 1) (Some (attempt_window P))) (\<lambda>_. ret ())
              else ret ())))
           (\<lambda>_. ret ()))"

section \<open>The policy over timed counters\<close>

text \<open>
  The same decisions as pure functions of the live counters, without a backend: what the
  lockout means. \<open>rnd\<close> is the backend's rounding of the time left.
\<close>

definition spec_success :: "lockout_policy \<Rightarrow> int \<Rightarrow> string \<Rightarrow> string \<Rightarrow> counters \<Rightarrow> counters" where
  "spec_success P now ip user c =
     (let c1 = c(user_attempts user := None, user_lock user := None, user_rounds user := None);
          own = cnt c1 (pair_attempts ip user)
      in if on_login_success P = Clear_all \<and> own \<noteq> 0
         then inc now (ip_attempts ip) (- own) (attempt_window P) (c1(pair_attempts ip user := None))
         else c1)"

definition spec_count :: "lockout_policy \<Rightarrow> (int \<Rightarrow> int) \<Rightarrow> int \<Rightarrow> string \<Rightarrow> string \<Rightarrow> counters \<Rightarrow> counters" where
  "spec_count P rnd now ip user c =
     (let c1 = inc now (user_attempts user) 1 (attempt_window P)
                 (inc now (ip_attempts ip) 1 (attempt_window P) c);
          w = ttl_at rnd now c1 (ip_attempts ip)
      in if on_login_success P = Clear_all \<and> w > 0 then inc now (pair_attempts ip user) 1 w c1 else c1)"

definition spec_rounds :: "string \<Rightarrow> string \<Rightarrow> counters \<Rightarrow> int" where
  "spec_rounds ip user c = max (cnt c (ip_rounds ip)) (cnt c (user_rounds user))"

definition spec_retry :: "lockout_policy \<Rightarrow> int \<Rightarrow> int" where
  "spec_retry P rounds = min (lockout_base P * 2 ^ nat rounds) (lockout_max P)"

definition spec_engage :: "lockout_policy \<Rightarrow> int \<Rightarrow> string \<Rightarrow> string \<Rightarrow> counters \<Rightarrow> counters" where
  "spec_engage P now ip user c =
     (let r = spec_retry P (spec_rounds ip user c); rt = max r (round_retention P)
      in inc_refresh now (user_rounds user) 1 rt (inc_refresh now (ip_rounds ip) 1 rt
           (inc now (user_lock user) 1 r (inc now (ip_lock ip) 1 r c))))"

definition spec_locked :: "(int \<Rightarrow> int) \<Rightarrow> int \<Rightarrow> string \<Rightarrow> string \<Rightarrow> counters \<Rightarrow> int" where
  "spec_locked rnd now ip user c =
     max (ttl_at rnd now c (ip_lock ip)) (ttl_at rnd now c (user_lock user))"

definition spec_attempts :: "string \<Rightarrow> string \<Rightarrow> counters \<Rightarrow> int" where
  "spec_attempts ip user c = max (cnt c (ip_attempts ip)) (cnt c (user_attempts user))"

definition spec_failure ::
  "lockout_policy \<Rightarrow> (int \<Rightarrow> int) \<Rightarrow> int \<Rightarrow> string \<Rightarrow> string \<Rightarrow> counters \<Rightarrow> attempt_result \<times> counters" where
  "spec_failure P rnd now ip user c =
     (if spec_locked rnd now ip user c > 0 then ((False, Some 0, spec_locked rnd now ip user c), c)
      else (let c1 = spec_count P rnd now ip user c; n = spec_attempts ip user c1
            in if n \<le> max_attempts P then ((True, Some (max 0 (max_attempts P - n)), 0), c1)
               else ((False, Some 0, spec_retry P (spec_rounds ip user c1)), spec_engage P now ip user c1)))"

definition spec_check ::
  "lockout_policy \<Rightarrow> (int \<Rightarrow> int) \<Rightarrow> int \<Rightarrow> string \<Rightarrow> string \<Rightarrow> bool \<Rightarrow> counters \<Rightarrow> attempt_result \<times> counters" where
  "spec_check P rnd now ip_addr username success c =
     (let ip = client_ip_key ip_addr; user = canonical_identifier username
      in if success then ((True, None, 0), spec_success P now ip user c)
         else spec_failure P rnd now ip user c)"

text \<open>The seven keys of one caller are pairwise distinct.\<close>

lemmas key_defs = ip_attempts_def user_attempts_def pair_attempts_def ip_lock_def user_lock_def
  ip_rounds_def user_rounds_def LOCKOUT_NAMESPACE_def

lemma key_distinct [simp]:
  "ip_attempts a \<noteq> user_attempts u" "ip_attempts a \<noteq> pair_attempts a' u"
  "ip_attempts a \<noteq> ip_lock a'" "ip_attempts a \<noteq> user_lock u" "ip_attempts a \<noteq> ip_rounds a'"
  "ip_attempts a \<noteq> user_rounds u" "user_attempts u \<noteq> pair_attempts a u'" "user_attempts u \<noteq> ip_lock a"
  "user_attempts u \<noteq> user_lock u'" "user_attempts u \<noteq> ip_rounds a" "user_attempts u \<noteq> user_rounds u'"
  "pair_attempts a u \<noteq> ip_lock a'" "pair_attempts a u \<noteq> user_lock u'" "pair_attempts a u \<noteq> ip_rounds a'"
  "pair_attempts a u \<noteq> user_rounds u'" "ip_lock a \<noteq> user_lock u" "ip_lock a \<noteq> ip_rounds a'"
  "ip_lock a \<noteq> user_rounds u" "user_lock u \<noteq> ip_rounds a" "user_lock u \<noteq> user_rounds u'"
  "ip_rounds a \<noteq> user_rounds u"
  by (simp_all add: key_defs)

lemmas key_distinct_sym [simp] = key_distinct [symmetric]

lemma key_inject [simp]:
  "ip_attempts a = ip_attempts a' \<longleftrightarrow> a = a'" "user_attempts u = user_attempts u' \<longleftrightarrow> u = u'"
  "ip_lock a = ip_lock a' \<longleftrightarrow> a = a'" "user_lock u = user_lock u' \<longleftrightarrow> u = u'"
  "ip_rounds a = ip_rounds a' \<longleftrightarrow> a = a'" "user_rounds u = user_rounds u' \<longleftrightarrow> u = u'"
  "pair_attempts a u = pair_attempts a u' \<longleftrightarrow> u = u'"
  by (simp_all add: key_defs)

definition policy_ok :: "lockout_policy \<Rightarrow> bool" where
  "policy_ok P \<longleftrightarrow> 0 < max_attempts P \<and> 0 < attempt_window P \<and> 0 < lockout_base P \<and> 0 < lockout_max P
     \<and> 0 < round_retention P"

lemma lockout_config_ok: "lockout_config ma aw lb lm rr mode = Inr P \<Longrightarrow> policy_ok P"
  by (auto simp: lockout_config_def policy_ok_def split: if_splits)

lemma spec_retry_pos: "policy_ok P \<Longrightarrow> 0 < spec_retry P r"
  by (simp add: spec_retry_def policy_ok_def)

lemma spec_retry_nonneg: "policy_ok P \<Longrightarrow> 0 \<le> min (lockout_base P * 2 ^ n) (lockout_max P)"
  by (simp add: policy_ok_def)

lemma ttl_at_nonneg [simp]: "0 \<le> ttl_at rnd now c k"
  by (simp add: ttl_at_def split: option.splits)

lemma or_zero_cnt [simp]: "or_zero (map_option fst (c k)) = cnt c k"
  by (cases "c k") (auto simp: or_zero_def cnt_def)

text \<open>Every backend that keeps the contract makes the policy behave as specified.\<close>

context rate_limiter
begin

lemma window_nonneg [simp]: "policy_ok P \<Longrightarrow> 0 \<le> attempt_window P"
  by (simp add: policy_ok_def)

lemma record_success_run:
  assumes "ok s" and "policy_ok P"
  shows "fst (record_success P b now ip user s) = Inr (True, None, 0)
    \<and> view now (snd (record_success P b now ip user s)) = spec_success P now ip user (view now s)
    \<and> ok (snd (record_success P b now ip user s))"
  using assms
  by (auto simp: record_success_def run_simps backend_laws spec_success_def Let_def intro!: hit_live
      dest!: cnt_nonzero)

lemma retry_nonneg [simp]: "policy_ok P \<Longrightarrow> 0 \<le> spec_retry P r"
  using spec_retry_pos [of P r] by simp

lemma retry_max_nonneg [simp]: "policy_ok P \<Longrightarrow> 0 \<le> max (spec_retry P r) m"
  using retry_nonneg [of P r] by linarith

lemma engage_run:
  assumes "ok s" and "policy_ok P"
  shows "fst (engage_lockout P b now ip user s)
      = Inr (False, Some 0, spec_retry P (spec_rounds ip user (view now s)))
    \<and> view now (snd (engage_lockout P b now ip user s)) = spec_engage P now ip user (view now s)
    \<and> ok (snd (engage_lockout P b now ip user s))"
  using assms
  by (simp add: engage_lockout_def run_simps backend_laws spec_engage_def Let_def spec_rounds_def
      flip: spec_retry_def)

lemma record_failure_run:
  assumes "ok s" and "policy_ok P"
  shows "fst (record_failure P b now ip user s) = Inr (fst (spec_failure P rnd now ip user (view now s)))
    \<and> view now (snd (record_failure P b now ip user s)) = snd (spec_failure P rnd now ip user (view now s))
    \<and> ok (snd (record_failure P b now ip user s))"
  using assms
  by (simp add: record_failure_def run_simps backend_laws engage_run spec_failure_def Let_def
      spec_locked_def spec_count_def spec_attempts_def) blast

lemma check_and_record_run:
  assumes "ok s" and "policy_ok P"
  shows "fst (check_and_record P b now ip username success s)
      = Inr (fst (spec_check P rnd now ip username success (view now s)))
    \<and> view now (snd (check_and_record P b now ip username success s))
      = snd (spec_check P rnd now ip username success (view now s))
    \<and> ok (snd (check_and_record P b now ip username success s))"
  using assms record_success_run [OF assms] record_failure_run [OF assms]
  by (simp add: check_and_record_def run_simps spec_check_def Let_def)

text \<open>What holds of the specification carries over to every state of a correct backend.\<close>

lemma locked_rejects:
  assumes "ok s" and "policy_ok P" and "0 < spec_locked rnd now (client_ip_key ip) (canonical_identifier u) (view now s)"
  shows "fst (check_and_record P b now ip u False s)
      = Inr (False, Some 0, spec_locked rnd now (client_ip_key ip) (canonical_identifier u) (view now s))"
    and "view now (snd (check_and_record P b now ip u False s)) = view now s"
  using assms check_and_record_run [OF assms(1,2), of now ip u False]
  by (simp_all add: spec_check_def spec_failure_def Let_def)

end

section \<open>Runs of failed attempts\<close>

text \<open>Failed attempts of one caller, one after the other, each at its own instant.\<close>

fun failed_attempts :: "lockout_policy \<Rightarrow> 'b rate_limiter_backend \<Rightarrow> string \<Rightarrow> string \<Rightarrow> int list \<Rightarrow>
    ('b, attempt_result list) prog" where
  "failed_attempts P b ip u [] = ret []"
| "failed_attempts P b ip u (t # ts) =
     bind (check_and_record P b t ip u False) (\<lambda>r.
     bind (failed_attempts P b ip u ts) (\<lambda>rs. ret (r # rs)))"

text \<open>The counters of one caller after \<open>n\<close> failures since \<open>t0\<close>, none of them refused.\<close>

definition after_failures :: "lockout_policy \<Rightarrow> int \<Rightarrow> string \<Rightarrow> string \<Rightarrow> nat \<Rightarrow> counters \<Rightarrow> bool" where
  "after_failures P t0 ip user n c \<longleftrightarrow>
     c (ip_lock ip) = None \<and> c (user_lock user) = None \<and>
     c (ip_rounds ip) = None \<and> c (user_rounds user) = None \<and>
     cnt c (ip_attempts ip) = int n \<and> cnt c (user_attempts user) = int n \<and>
     (n = 0 \<longrightarrow> c (ip_attempts ip) = None \<and> c (user_attempts user) = None) \<and>
     (n > 0 \<longrightarrow> armed c (ip_attempts ip) = Some (t0 + attempt_window P * usec) \<and>
                armed c (user_attempts user) = Some (t0 + attempt_window P * usec))"

lemma after_failures_expire:
  assumes "after_failures P t0 ip user n c" and "t \<le> t0 + attempt_window P * usec"
  shows "after_failures P t0 ip user n (expire t c)"
  using assms by (cases "n = 0") (auto simp: after_failures_def expire_def expired_at_def cnt_def armed_def)

lemma after_failures_locked: "after_failures P t0 ip user n c \<Longrightarrow> spec_locked rnd now ip user c = 0"
  by (simp add: after_failures_def spec_locked_def ttl_at_def)

lemma after_failures_step:
  assumes "after_failures P t0 ip user n c" and "n = 0 \<Longrightarrow> now = t0"
  shows "after_failures P t0 ip user (Suc n) (spec_count P rnd now ip user c)"
    and "spec_attempts ip user (spec_count P rnd now ip user c) = int (Suc n)"
  using assms
  by (cases "n = 0"; auto simp: after_failures_def spec_count_def spec_attempts_def Let_def inc_def)+

lemma spec_failure_allowed:
  assumes "after_failures P t0 ip user n c" and "n = 0 \<Longrightarrow> now = t0" and "int n < max_attempts P"
  shows "fst (spec_failure P rnd now ip user c) = (True, Some (max_attempts P - int (Suc n)), 0)"
    and "after_failures P t0 ip user (Suc n) (snd (spec_failure P rnd now ip user c))"
  using after_failures_step [OF assms(1), of now rnd] after_failures_locked [OF assms(1), of rnd now] assms(2,3)
  by (auto simp: spec_failure_def Let_def)

lemma spec_failure_trips:
  assumes "after_failures P t0 ip user n c" and "n = 0 \<Longrightarrow> now = t0" and "int n = max_attempts P"
  shows "spec_failure P rnd now ip user c =
    ((False, Some 0, spec_retry P 0), spec_engage P now ip user (spec_count P rnd now ip user c))"
proof -
  let ?c = "spec_count P rnd now ip user c"
  from after_failures_step [OF assms(1,2), of rnd] have "spec_rounds ip user ?c = 0"
    by (simp add: after_failures_def spec_rounds_def)
  then show ?thesis
    using after_failures_step [OF assms(1,2), of rnd] after_failures_locked [OF assms(1), of rnd now] assms(3)
    by (simp add: spec_failure_def Let_def)
qed

section \<open>Forgetting an attempt\<close>

definition spec_take_back :: "lockout_policy \<Rightarrow> int \<Rightarrow> string \<Rightarrow> counters \<Rightarrow> counters" where
  "spec_take_back P now k c = (if cnt c k > 0 then inc now k (- 1) (attempt_window P) c else c)"

definition spec_forget :: "lockout_policy \<Rightarrow> int \<Rightarrow> string \<Rightarrow> string \<Rightarrow> counters \<Rightarrow> counters" where
  "spec_forget P now ip_addr username c =
     (let ip = client_ip_key ip_addr; user = canonical_identifier username;
          c1 = spec_take_back P now (user_attempts user) (spec_take_back P now (ip_attempts ip) c)
      in if on_login_success P = Clear_all then spec_take_back P now (pair_attempts ip user) c1 else c1)"

context rate_limiter
begin

lemma forget_attempt_run:
  assumes "ok s" and "policy_ok P"
  shows "fst (forget_attempt P b now ip u s) = Inr ()
    \<and> view now (snd (forget_attempt P b now ip u s)) = spec_forget P now ip u (view now s)
    \<and> ok (snd (forget_attempt P b now ip u s))"
  using assms
  by (simp add: forget_attempt_def run_simps backend_laws spec_forget_def spec_take_back_def Let_def)

lemma failures_allowed_then_refused:
  assumes "policy_ok P" and "ok s"
    and "after_failures P t0 (client_ip_key ip) (canonical_identifier u) n (view t s)"
    and "sorted (t # ts)" and "\<forall>x \<in> set (t # ts). t0 \<le> x \<and> x \<le> t0 + attempt_window P * usec"
    and "n = 0 \<Longrightarrow> t = t0" and "int n + int (length ts) = max_attempts P"
  shows "fst (failed_attempts P b ip u (t # ts) s) =
    Inr (map (\<lambda>i. (True, Some (max_attempts P - int i), 0)) [Suc n ..< Suc n + length ts]
         @ [(False, Some 0, spec_retry P 0)])"
  using assms
proof (induction ts arbitrary: t n s)
  case Nil
  note run = check_and_record_run [OF Nil.prems(2,1), of t ip u False]
  from spec_failure_trips [OF Nil.prems(3,6), where rnd = rnd] Nil.prems(7) run
  show ?case by (simp add: run_simps spec_check_def Let_def)
next
  case (Cons t' ts)
  let ?ip = "client_ip_key ip" and ?u = "canonical_identifier u"
  let ?s = "snd (check_and_record P b t ip u False s)"
  note run = check_and_record_run [OF Cons.prems(2,1), of t ip u False]
  from Cons.prems(7) have lt: "int n < max_attempts P" by simp
  note allowed = spec_failure_allowed [OF Cons.prems(3,6) lt, where rnd = rnd]
  from run have ok: "ok ?s" by simp
  from run allowed have af: "after_failures P t0 ?ip ?u (Suc n) (view t ?s)"
    by (simp add: spec_check_def Let_def)
  from Cons.prems(4) view_later [OF ok, of t t'] have "view t' ?s = expire t' (view t ?s)" by simp
  with after_failures_expire [OF af, of t'] Cons.prems(5)
  have af': "after_failures P t0 ?ip ?u (Suc n) (view t' ?s)" by simp
  have "fst (failed_attempts P b ip u (t' # ts) ?s) =
    Inr (map (\<lambda>i. (True, Some (max_attempts P - int i), 0)) [Suc (Suc n) ..< Suc (Suc n) + length ts]
         @ [(False, Some 0, spec_retry P 0)])"
    by (rule Cons.IH [OF Cons.prems(1) ok af']) (use Cons.prems in auto)
  with run allowed show ?case
    by (simp add: bind_run ret_run spec_check_def Let_def upt_conv_Cons failed_attempts.simps(2) [of P b ip u t]
        del: failed_attempts.simps(2) upt_Suc)
qed

end

section \<open>Pressure from one address\<close>

text \<open>
  With \<open>Clear_all\<close> a completed login takes back the pressure its own failures put on the
  address. \<open>pressure_inv\<close>: the failures attributed to the accounts never exceed the
  address's own count, and an account's counter never outlives the address's window.
\<close>

definition pressure_inv :: "string set \<Rightarrow> counters \<Rightarrow> bool" where
  "pressure_inv A c \<longleftrightarrow>
     (\<forall>ip \<in> A.
        (\<forall>U. finite U \<longrightarrow> (\<Sum>u\<in>U. cnt c (pair_attempts ip u)) \<le> cnt c (ip_attempts ip)) \<and>
        (\<forall>u n d. c (pair_attempts ip u) = Some (n, d) \<longrightarrow>
           0 \<le> n \<and> (\<exists>m e f. c (ip_attempts ip) = Some (m, Some f) \<and> d = Some e \<and> e \<le> f)))"

text \<open>Addresses whose pair keys can't be confused.\<close>

definition pair_separated :: "string set \<Rightarrow> bool" where
  "pair_separated A \<longleftrightarrow>
     (\<forall>a \<in> A. \<forall>b \<in> A. \<forall>u v. pair_attempts a u = pair_attempts b v \<longrightarrow> a = b \<and> u = v)"

lemma pair_separatedD:
  "pair_separated A \<Longrightarrow> a \<in> A \<Longrightarrow> b \<in> A \<Longrightarrow> pair_attempts a u = pair_attempts b v \<Longrightarrow> a = b \<and> u = v"
  unfolding pair_separated_def by blast

lemma append_sep_eq:
  "a @ x # u = b @ x # v \<Longrightarrow> x \<notin> set a \<Longrightarrow> x \<notin> set b \<Longrightarrow> a = b \<and> u = v"
proof (induction a arbitrary: b)
  case Nil
  then show ?case by (cases b) auto
next
  case (Cons y a)
  then show ?case by (cases b) auto
qed

lemma pair_separatedI: "\<forall>a \<in> A. CHR '':'' \<notin> set a \<Longrightarrow> pair_separated A"
  unfolding pair_separated_def
  by (auto simp: key_defs dest: append_sep_eq)

lemma pressure_sum:
  "pressure_inv A c \<Longrightarrow> ip \<in> A \<Longrightarrow> finite U \<Longrightarrow>
    (\<Sum>u\<in>U. cnt c (pair_attempts ip u)) \<le> cnt c (ip_attempts ip)"
  by (simp add: pressure_inv_def)

lemma pressure_pair:
  "pressure_inv A c \<Longrightarrow> ip \<in> A \<Longrightarrow> c (pair_attempts ip u) = Some (n, d) \<Longrightarrow>
    0 \<le> n \<and> (\<exists>m e f. c (ip_attempts ip) = Some (m, Some f) \<and> d = Some e \<and> e \<le> f)"
  by (simp add: pressure_inv_def)

lemma pressure_cnt_nonneg:
  assumes "pressure_inv A c" and "ip \<in> A"
  shows "0 \<le> cnt c (pair_attempts ip u)" and "0 \<le> cnt c (ip_attempts ip)"
  using pressure_pair [OF assms, of u] pressure_sum [OF assms, of "{}"]
  by (auto simp: cnt_def split: option.splits)

lemma pressure_frame:
  assumes "pressure_inv A c"
    and "\<And>ip. ip \<in> A \<Longrightarrow> c' (ip_attempts ip) = c (ip_attempts ip)"
    and "\<And>ip u. ip \<in> A \<Longrightarrow> c' (pair_attempts ip u) = c (pair_attempts ip u)"
  shows "pressure_inv A c'"
  using assms by (simp add: pressure_inv_def cnt_def)

lemma pressure_expire:
  assumes "pressure_inv A c"
  shows "pressure_inv A (expire t c)"
  unfolding pressure_inv_def
proof (intro ballI conjI allI impI)
  fix ip and U :: "string set"
  assume A: "ip \<in> A" and "finite U"
  note inv = assms [unfolded pressure_inv_def, THEN bspec, OF A]
  show "(\<Sum>u\<in>U. cnt (expire t c) (pair_attempts ip u)) \<le> cnt (expire t c) (ip_attempts ip)"
  proof (cases "expired_at t (armed c (ip_attempts ip))")
    case True
    have "expire t c (pair_attempts ip u) = None" for u
      using inv True by (cases "c (pair_attempts ip u)")
        (fastforce simp: expire_def expired_at_def armed_def)+
    then show ?thesis using True by (simp add: cnt_def expire_def)
  next
    case False
    have "cnt (expire t c) (pair_attempts ip u) \<le> cnt c (pair_attempts ip u)" for u
      using pressure_cnt_nonneg(1) [OF assms A, of u] by (simp add: expire_def cnt_def)
    then have "(\<Sum>u\<in>U. cnt (expire t c) (pair_attempts ip u)) \<le> (\<Sum>u\<in>U. cnt c (pair_attempts ip u))"
      by (rule sum_mono)
    also have "\<dots> \<le> cnt c (ip_attempts ip)" using inv \<open>finite U\<close> by blast
    finally show ?thesis using False by (simp add: cnt_def expire_def)
  qed
next
  fix ip u n d
  assume A: "ip \<in> A" and e: "expire t c (pair_attempts ip u) = Some (n, d)"
  note inv = assms [unfolded pressure_inv_def, THEN bspec, OF A]
  from e have "c (pair_attempts ip u) = Some (n, d)" "\<not> expired_at t d"
    by (auto simp: expire_def armed_def split: if_splits)
  with inv obtain m x f where "0 \<le> n" "c (ip_attempts ip) = Some (m, Some f)" "d = Some x" "x \<le> f"
    by blast
  moreover from this \<open>\<not> expired_at t d\<close> have "\<not> expired_at t (armed c (ip_attempts ip))"
    by (simp add: expired_at_def)
  ultimately show "0 \<le> n" "\<exists>m e f. expire t c (ip_attempts ip) = Some (m, Some f) \<and> d = Some e \<and> e \<le> f"
    by (simp_all add: expire_def)
qed

text \<open>One account's counter and its address's counter change together.\<close>

lemma pressure_update:
  assumes inv: "pressure_inv A c" and A: "ip \<in> A" and sep: "pair_separated A"
    and frame: "\<And>k. k \<noteq> ip_attempts ip \<Longrightarrow> k \<noteq> pair_attempts ip user \<Longrightarrow>
        (\<exists>a \<in> A. k = ip_attempts a \<or> (\<exists>u. k = pair_attempts a u)) \<Longrightarrow> c' k = c k"
    and ip: "cnt c' (ip_attempts ip) = cnt c (ip_attempts ip) + x"
    and pair: "cnt c' (pair_attempts ip user) = cnt c (pair_attempts ip user) + y"
    and xy: "y \<le> x" "0 \<le> cnt c (pair_attempts ip user) + y"
    and keep: "\<And>m f. c (ip_attempts ip) = Some (m, Some f) \<Longrightarrow> \<exists>m'. c' (ip_attempts ip) = Some (m', Some f)"
    and new: "\<And>n d. c' (pair_attempts ip user) = Some (n, d) \<Longrightarrow>
        \<exists>m e f. c' (ip_attempts ip) = Some (m, Some f) \<and> d = Some e \<and> e \<le> f"
  shows "pressure_inv A c'"
  unfolding pressure_inv_def
proof (intro ballI conjI allI impI)
  fix a and U :: "string set"
  assume a: "a \<in> A" and U: "finite U"
  have other: "c' (pair_attempts a u) = c (pair_attempts a u)" if "a \<noteq> ip \<or> u \<noteq> user" for u
    using that a pair_separatedD [OF sep a A, of u user]
    by (intro frame) (simp, blast, blast)
  show "(\<Sum>u\<in>U. cnt c' (pair_attempts a u)) \<le> cnt c' (ip_attempts a)"
  proof (cases "a = ip")
    case False
    then have "c' (ip_attempts a) = c (ip_attempts a)"
      using a by (intro frame) (simp, simp, blast)
    then have "cnt c' (ip_attempts a) = cnt c (ip_attempts a)" by (simp add: cnt_def)
    moreover from False other have "cnt c' (pair_attempts a u) = cnt c (pair_attempts a u)" for u
      by (simp add: cnt_def)
    ultimately show ?thesis using pressure_sum [OF inv a U] by simp
  next
    case True
    have eq: "cnt c' (pair_attempts ip u) = cnt c (pair_attempts ip u)" if "u \<noteq> user" for u
      using other that True by (simp add: cnt_def)
    have "(\<Sum>u\<in>insert user U. cnt c (pair_attempts ip u)) \<le> cnt c (ip_attempts ip)"
      using pressure_sum [OF inv A] U by simp
    then have le: "(\<Sum>u\<in>U - {user}. cnt c (pair_attempts ip u)) + cnt c (pair_attempts ip user)
        \<le> cnt c (ip_attempts ip)"
      using U by (simp add: sum.insert_remove)
    have "(\<Sum>u\<in>U. cnt c' (pair_attempts ip u))
        \<le> (\<Sum>u\<in>U - {user}. cnt c' (pair_attempts ip u)) + cnt c' (pair_attempts ip user)"
      using U pair xy(2) by (cases "user \<in> U") (simp_all add: sum.remove [of U user])
    also have "(\<Sum>u\<in>U - {user}. cnt c' (pair_attempts ip u)) = (\<Sum>u\<in>U - {user}. cnt c (pair_attempts ip u))"
      by (rule sum.cong) (auto simp: eq)
    finally show ?thesis using le ip pair xy True by simp
  qed
next
  fix a u n d
  assume a: "a \<in> A" and e: "c' (pair_attempts a u) = Some (n, d)"
  show "0 \<le> n"
  proof (cases "pair_attempts a u = pair_attempts ip user")
    case True
    then show ?thesis using e pair xy(2) by (metis cnt_Some)
  next
    case False
    have "c' (pair_attempts a u) = c (pair_attempts a u)"
      by (rule frame) (use False a in \<open>simp, simp, blast\<close>)
    then show ?thesis using e pressure_pair [OF inv a, of u n d] by simp
  qed
  show "\<exists>m e f. c' (ip_attempts a) = Some (m, Some f) \<and> d = Some e \<and> e \<le> f"
  proof (cases "pair_attempts a u = pair_attempts ip user")
    case True
    from pair_separatedD [OF sep a A True] have "a = ip" "u = user" by simp_all
    with new e show ?thesis by blast
  next
    case False
    have "c' (pair_attempts a u) = c (pair_attempts a u)"
      by (rule frame) (use False a in \<open>simp, simp, blast\<close>)
    with e have "c (pair_attempts a u) = Some (n, d)" by simp
    from pressure_pair [OF inv a this] obtain m x f
      where "c (ip_attempts a) = Some (m, Some f)" "d = Some x" "x \<le> f" by blast
    moreover have "\<exists>m'. c' (ip_attempts a) = Some (m', Some f)"
    proof (cases "a = ip")
      case True
      with keep calculation(1) show ?thesis by simp
    next
      case False
      then have "c' (ip_attempts a) = c (ip_attempts a)"
        using a by (intro frame) (simp, simp, blast)
      with calculation(1) show ?thesis by simp
    qed
    ultimately show ?thesis by blast
  qed
qed

definition rounds_down :: "(int \<Rightarrow> int) \<Rightarrow> bool" where
  "rounds_down rnd \<longleftrightarrow> (\<forall>r. 0 \<le> r \<longrightarrow> rnd r * usec \<le> r)"

lemma floor_rounds_down [simp]: "rounds_down (\<lambda>r. r div usec)"
  by (simp add: rounds_down_def minus_mod_eq_div_mult [symmetric])

lemma ttl_at_inc_other [simp]: "j \<noteq> k \<Longrightarrow> ttl_at rnd now (inc now k a e c) j = ttl_at rnd now c j"
  by (simp add: ttl_at_def)

lemma ttl_at_deadline:
  assumes "rounds_down rnd" and "armed c k = Some f" and "0 < ttl_at rnd now c k" and "now \<le> f"
  shows "now + ttl_at rnd now c k * usec \<le> f"
proof -
  from assms have "ttl_at rnd now c k = rnd (f - now)" by (simp add: ttl_at_def max_def split: if_splits)
  moreover from assms have "rnd (f - now) * usec \<le> f - now" by (simp add: rounds_down_def)
  ultimately show ?thesis by simp
qed

lemma spec_count_other:
  "k \<noteq> ip_attempts ip \<Longrightarrow> k \<noteq> pair_attempts ip user \<Longrightarrow> k \<noteq> user_attempts user \<Longrightarrow>
    spec_count P rnd now ip user c k = c k"
  by (simp add: spec_count_def Let_def inc_def)

lemma spec_count_ip:
  "cnt (spec_count P rnd now ip user c) (ip_attempts ip) = cnt c (ip_attempts ip) + 1"
  "spec_count P rnd now ip user c (ip_attempts ip) =
     Some (cnt c (ip_attempts ip) + 1,
           Some (case armed c (ip_attempts ip) of None \<Rightarrow> now + attempt_window P * usec | Some d \<Rightarrow> d))"
  by (simp_all add: spec_count_def Let_def inc_def)

definition counts_pair :: "lockout_policy \<Rightarrow> (int \<Rightarrow> int) \<Rightarrow> int \<Rightarrow> string \<Rightarrow> counters \<Rightarrow> bool" where
  "counts_pair P rnd now ip c \<longleftrightarrow> on_login_success P = Clear_all \<and>
     0 < ttl_at rnd now (inc now (ip_attempts ip) 1 (attempt_window P) c) (ip_attempts ip)"

lemma spec_count_pair:
  "spec_count P rnd now ip user c (pair_attempts ip user) =
     (if counts_pair P rnd now ip c
      then Some (cnt c (pair_attempts ip user) + 1,
             Some (case armed c (pair_attempts ip user) of
                     None \<Rightarrow> now + ttl_at rnd now (inc now (ip_attempts ip) 1 (attempt_window P) c)
                                  (ip_attempts ip) * usec
                   | Some d \<Rightarrow> d))
      else c (pair_attempts ip user))"
  by (simp add: spec_count_def counts_pair_def Let_def inc_apply)

lemma spec_count_new_pair:
  assumes inv: "pressure_inv A c" and A: "ip \<in> A" and live: "\<not> expired_at now (armed c (ip_attempts ip))"
    and "policy_ok P" and "rounds_down rnd"
    and e: "spec_count P rnd now ip user c (pair_attempts ip user) = Some (n, d)"
  shows "\<exists>m e f. spec_count P rnd now ip user c (ip_attempts ip) = Some (m, Some f) \<and> d = Some e \<and> e \<le> f"
proof (cases "c (pair_attempts ip user)")
  case (Some nd)
  then obtain n' d' where c: "c (pair_attempts ip user) = Some (n', d')" by (cases nd) auto
  from pressure_pair [OF inv A c] obtain m x f
    where "c (ip_attempts ip) = Some (m, Some f)" "d' = Some x" "x \<le> f" by blast
  with e c show ?thesis by (auto simp: spec_count_pair spec_count_ip split: if_splits)
next
  case None
  let ?f = "case armed c (ip_attempts ip) of None \<Rightarrow> now + attempt_window P * usec | Some d \<Rightarrow> d"
  let ?w = "ttl_at rnd now (inc now (ip_attempts ip) 1 (attempt_window P) c) (ip_attempts ip)"
  from e None have d: "d = Some (now + ?w * usec)" and w: "0 < ?w"
    by (auto simp: spec_count_pair counts_pair_def split: if_splits)
  have "now \<le> ?f"
    using live \<open>policy_ok P\<close> by (auto simp: expired_at_def policy_ok_def usec_def split: option.splits)
  then have "now + ?w * usec \<le> ?f"
    using w \<open>rounds_down rnd\<close> by (intro ttl_at_deadline) simp_all
  with d show ?thesis by (simp add: spec_count_ip)
qed

lemma pressure_count:
  assumes "pressure_inv A c" and "ip \<in> A" and "pair_separated A"
    and "\<not> expired_at now (armed c (ip_attempts ip))" and "policy_ok P" and "rounds_down rnd"
  shows "pressure_inv A (spec_count P rnd now ip user c)"
proof (rule pressure_update [OF assms(1-3), where user = user and x = 1
        and y = "if counts_pair P rnd now ip c then 1 else 0"])
  show "cnt (spec_count P rnd now ip user c) (pair_attempts ip user)
      = cnt c (pair_attempts ip user) + (if counts_pair P rnd now ip c then 1 else 0)"
    by (simp add: cnt_def spec_count_pair)
  show "0 \<le> cnt c (pair_attempts ip user) + (if counts_pair P rnd now ip c then 1 else 0)"
    using pressure_cnt_nonneg(1) [OF assms(1,2), of user] by simp
qed (use spec_count_new_pair [OF assms(1,2,4-6)] in \<open>auto simp: spec_count_other spec_count_ip\<close>)

lemma pressure_engage: "pressure_inv A c \<Longrightarrow> pressure_inv A (spec_engage P now ip user c)"
  by (rule pressure_frame) (simp_all add: spec_engage_def Let_def inc_def inc_refresh_def)

lemma pressure_success:
  assumes "pressure_inv A c" and "ip \<in> A" and "pair_separated A"
  shows "pressure_inv A (spec_success P now ip user c)"
proof -
  let ?c1 = "c(user_attempts user := None, user_lock user := None, user_rounds user := None)"
  let ?own = "cnt ?c1 (pair_attempts ip user)"
  have inv: "pressure_inv A ?c1" by (rule pressure_frame [OF assms(1)]) simp_all
  show ?thesis
  proof (cases "on_login_success P = Clear_all \<and> ?own \<noteq> 0")
    case False
    with inv show ?thesis by (auto simp: spec_success_def Let_def)
  next
    case True
    have "pressure_inv A (inc now (ip_attempts ip) (- ?own) (attempt_window P) (?c1(pair_attempts ip user := None)))"
      by (rule pressure_update [OF inv assms(2,3), where user = user and x = "- ?own" and y = "- ?own"])
        (auto simp: inc_def)
    with True show ?thesis by (simp add: spec_success_def Let_def)
  qed
qed

lemma take_back_other [simp]: "j \<noteq> k \<Longrightarrow> spec_take_back P now k c j = c j"
  by (simp add: spec_take_back_def inc_def)

lemma take_back_cnt:
  "cnt (spec_take_back P now k c) j = (if j = k \<and> 0 < cnt c k then cnt c k - 1 else cnt c j)"
  by (simp add: spec_take_back_def)

lemma take_back_armed: "armed c k \<noteq> None \<Longrightarrow> armed (spec_take_back P now k c) k = armed c k"
  by (auto simp: spec_take_back_def)

lemma take_back_Some:
  "c k = Some (m, Some f) \<Longrightarrow> \<exists>m'. spec_take_back P now k c k = Some (m', Some f)"
  by (simp add: spec_take_back_def inc_def)

text \<open>An attempt that is recorded and then taken back, as a login that still needs its code does.\<close>

lemma pressure_forget:
  assumes inv: "pressure_inv A c" and ip: "client_ip_key ipa \<in> A" and sep: "pair_separated A"
    and live: "\<not> expired_at now (armed c (ip_attempts (client_ip_key ipa)))"
    and P: "policy_ok P" "rounds_down rnd"
  shows "pressure_inv A (spec_forget P now ipa name
           (spec_count P rnd now (client_ip_key ipa) (canonical_identifier name) c))"
proof -
  let ?ip = "client_ip_key ipa" and ?u = "canonical_identifier name"
  let ?c = "spec_count P rnd now ?ip ?u c"
  let ?c' = "spec_forget P now ipa name ?c"
  let ?k = "ip_attempts ?ip" and ?p = "pair_attempts ?ip ?u"
  note nonneg = pressure_cnt_nonneg [OF inv ip]
  let ?y = "cnt ?c' ?p - cnt c ?p"
  have ip': "?c' ?k = spec_take_back P now ?k ?c ?k"
    by (simp add: spec_forget_def Let_def spec_take_back_def [of _ _ "user_attempts ?u"] inc_def
        spec_take_back_def [of _ _ ?p])
  have p': "?c' ?p = (if on_login_success P = Clear_all then spec_take_back P now ?p ?c ?p else ?c ?p)"
    by (simp add: spec_forget_def Let_def spec_take_back_def cnt_def armed_def inc_apply)
  have cp: "cnt ?c ?p = cnt c ?p + (if counts_pair P rnd now ?ip c then 1 else 0)"
    by (simp add: cnt_def spec_count_pair)
  have y: "cnt ?c' ?p = cnt c ?p + ?y" "?y \<le> 0" "0 \<le> cnt c ?p + ?y"
    using nonneg(1) [of ?u] cp
    by (auto simp: cnt_def [of ?c'] p' counts_pair_def simp flip: cnt_def) (auto simp: take_back_cnt)
  show ?thesis
  proof (rule pressure_update [OF inv ip sep, where user = ?u and x = 0 and y = ?y])
    show "cnt ?c' ?k = cnt c ?k + 0"
      using nonneg(2) by (simp add: cnt_def [of ?c'] ip') (simp add: take_back_cnt spec_count_ip flip: cnt_def)
    show "\<exists>m'. ?c' ?k = Some (m', Some f)" if "c ?k = Some (m, Some f)" for m f
      using that take_back_Some [of ?c ?k] by (simp add: ip' spec_count_ip)
    fix n d assume e: "?c' ?p = Some (n, d)"
    then obtain n' d' where c: "?c ?p = Some (n', d')"
      using p' by (cases "?c ?p") (auto simp: spec_take_back_def cnt_def split: if_splits)
    from spec_count_new_pair [OF inv ip live P c] obtain m x f
      where "?c ?k = Some (m, Some f)" "d' = Some x" "x \<le> f" by blast
    moreover from this c e p' have "d = d'"
      by (auto simp: spec_take_back_def inc_def split: if_splits)
    ultimately show "\<exists>m e f. ?c' ?k = Some (m, Some f) \<and> d = Some e \<and> e \<le> f"
      using take_back_Some [of ?c ?k] ip' by fastforce
  qed (use y in \<open>auto simp: spec_forget_def Let_def spec_count_other\<close>)
qed

section \<open>Histories of attempts\<close>

text \<open>
  What the login routes do to the in-memory counters over time: a failed attempt, a
  completed login, and a correct password that still waits for its second factor (recorded,
  then taken back when it was allowed). Addresses are those whose keys lie in \<open>A\<close>.
\<close>

definition pending_attempt :: "lockout_policy \<Rightarrow> 'b rate_limiter_backend \<Rightarrow> int \<Rightarrow> string \<Rightarrow> string \<Rightarrow>
    ('b, attempt_result) prog" where
  "pending_attempt P b now ip u =
     bind (check_and_record P b now ip u False) (\<lambda>r.
     if fst r then bind (forget_attempt P b now ip u) (\<lambda>_. ret r) else ret r)"

inductive attempt_step :: "lockout_policy \<Rightarrow> string set \<Rightarrow> int \<times> mem_limiter \<Rightarrow> int \<times> mem_limiter \<Rightarrow> bool"
  for P :: lockout_policy and A :: "string set" where
  failed: "now \<le> t \<Longrightarrow> client_ip_key ip \<in> A \<Longrightarrow>
     attempt_step P A (now, s) (t, snd (check_and_record P mem_backend t ip u False s))"
| completed: "now \<le> t \<Longrightarrow> client_ip_key ip \<in> A \<Longrightarrow>
     attempt_step P A (now, s) (t, snd (check_and_record P mem_backend t ip u True s))"
| pending: "now \<le> t \<Longrightarrow> client_ip_key ip \<in> A \<Longrightarrow>
     attempt_step P A (now, s) (t, snd (pending_attempt P mem_backend t ip u s))"

inductive attempt_reach :: "lockout_policy \<Rightarrow> string set \<Rightarrow> int \<times> mem_limiter \<Rightarrow> bool"
  for P :: lockout_policy and A :: "string set" where
  start: "attempt_reach P A (now, mem_limiter_init)"
| step: "attempt_reach P A x \<Longrightarrow> attempt_step P A x y \<Longrightarrow> attempt_reach P A y"

lemma pressure_failure:
  assumes "pressure_inv A c" and "ip \<in> A" and "pair_separated A"
    and "\<not> expired_at now (armed c (ip_attempts ip))" and "policy_ok P" and "rounds_down rnd"
  shows "pressure_inv A (snd (spec_failure P rnd now ip user c))"
  using pressure_count [OF assms, of user] assms(1) pressure_engage
  by (simp add: spec_failure_def Let_def)

lemma pending_run:
  assumes "mem_ok s" and "policy_ok P"
  shows "mem_ok (snd (pending_attempt P mem_backend t ip u s))"
    and "mem_view t (snd (pending_attempt P mem_backend t ip u s)) =
      (let rc = spec_check P (\<lambda>r. r div usec) t ip u False (mem_view t s)
       in if fst (fst rc) then spec_forget P t ip u (snd rc) else snd rc)"
  using mem.check_and_record_run [OF assms, of t ip u False] mem.forget_attempt_run [OF _ assms(2)]
  by (simp_all add: pending_attempt_def run_simps Let_def)

lemma allowed_failure:
  "fst (fst (spec_failure P rnd now ip user c)) \<Longrightarrow>
    snd (spec_failure P rnd now ip user c) = spec_count P rnd now ip user c"
  by (auto simp: spec_failure_def Let_def split: if_splits)

lemma attempt_step_inv:
  assumes "attempt_step P A x y" and "pair_separated A" and "policy_ok P"
    and "mem_ok (snd x)" and "pressure_inv A (mem_view (fst x) (snd x))"
  shows "mem_ok (snd y) \<and> pressure_inv A (mem_view (fst y) (snd y))"
  using assms(1)
proof (cases rule: attempt_step.cases)
  case (failed now t ip s u)
  with assms have inv: "pressure_inv A (mem_view t s)" and ok: "mem_ok s"
    by (simp_all add: mem.view_later [of s now t] pressure_expire)
  note run = mem.check_and_record_run [OF ok assms(3), of t ip u False]
  from failed run pressure_failure [OF inv _ assms(2) mem.view_live [OF ok] assms(3) floor_rounds_down]
  show ?thesis by (simp add: spec_check_def Let_def)
next
  case (completed now t ip s u)
  with assms have inv: "pressure_inv A (mem_view t s)" and ok: "mem_ok s"
    by (simp_all add: mem.view_later [of s now t] pressure_expire)
  note run = mem.check_and_record_run [OF ok assms(3), of t ip u True]
  from completed run pressure_success [OF inv _ assms(2)]
  show ?thesis by (simp add: spec_check_def Let_def)
next
  case (pending now t ip s u)
  with assms have inv: "pressure_inv A (mem_view t s)" and ok: "mem_ok s"
    by (simp_all add: mem.view_later [of s now t] pressure_expire)
  note live = mem.view_live [OF ok] and down = floor_rounds_down
  from pending pending_run [OF ok assms(3), of t ip u]
    pressure_failure [OF inv _ assms(2) live assms(3) down]
    pressure_forget [OF inv _ assms(2) live assms(3) down]
  show ?thesis by (auto simp: spec_check_def Let_def dest: allowed_failure)
qed

lemma attempt_reach_inv:
  assumes "attempt_reach P A x" and "pair_separated A" and "policy_ok P"
  shows "mem_ok (snd x) \<and> pressure_inv A (mem_view (fst x) (snd x))"
  using assms(1)
proof (induction rule: attempt_reach.induct)
  case (start now)
  show ?case by (simp add: pressure_inv_def cnt_def)
next
  case (step x y)
  then show ?case using attempt_step_inv [OF _ assms(2,3)] by blast
qed

section \<open>Properties of the lockout\<close>

lemmas spec_defs = spec_check_def spec_failure_def spec_success_def spec_count_def spec_locked_def
  spec_attempts_def spec_engage_def spec_rounds_def spec_retry_def ttl_at_def

text \<open>An address that has used up its attempts, for the witnesses.\<close>

definition busy_limiter :: mem_limiter where
  "busy_limiter = \<lparr>counts = [ip_attempts (client_ip_key ''a'') \<mapsto> 5],
     deadline = [ip_attempts (client_ip_key ''a'') \<mapsto> 60 * usec], increments_since_sweep = 0\<rparr>"

lemma busy_ok: "mem_ok busy_limiter"
  by (simp add: mem_ok_def busy_limiter_def)

lemma busy_view:
  "mem_view 0 busy_limiter = [ip_attempts (client_ip_key ''a'') \<mapsto> (5, Some (60 * usec))]"
  by (auto simp: mem_view_def busy_limiter_def expired_at_def usec_def fun_eq_iff)

text \<open>
  C7. The policy, run on the in-memory backend, decides as the specification over live
  counters does and leaves the counters the specification prescribes, for a failed attempt
  and for a completed login alike.
\<close>

theorem lockout_refines_spec:
  assumes "mem_ok s" and "policy_ok P"
  shows "fst (check_and_record P mem_backend now ip u success s)
      = Inr (fst (spec_check P (\<lambda>r. r div usec) now ip u success (mem_view now s)))
    \<and> mem_view now (snd (check_and_record P mem_backend now ip u success s))
      = snd (spec_check P (\<lambda>r. r div usec) now ip u success (mem_view now s))
    \<and> mem_ok (snd (check_and_record P mem_backend now ip u success s))"
  using assms by (rule mem.check_and_record_run)

definition default_policy :: lockout_policy where
  "default_policy = \<lparr>max_attempts = 5, attempt_window = 60, lockout_base = 60, lockout_max = 3600,
     round_retention = 3600, on_login_success = Clear_all, fail_open = False\<rparr>"

lemma default_policy_ok [simp]: "policy_ok default_policy"
  by (simp add: policy_ok_def default_policy_def)

theorem lockout_refines_spec_witness:
  "fst (check_and_record default_policy mem_backend 0 ''a'' ''b'' True mem_limiter_init) = Inr (True, None, 0)"
  using lockout_refines_spec [OF mem_ok_init default_policy_ok, of 0 "''a''" "''b''" True]
  by (simp add: spec_check_def Let_def)

definition no_counters :: "string \<Rightarrow> string \<Rightarrow> counters \<Rightarrow> bool" where
  "no_counters ip user c \<longleftrightarrow>
     (\<forall>k \<in> {ip_attempts ip, user_attempts user, ip_lock ip, user_lock user, ip_rounds ip, user_rounds user}.
        c k = None)"

text \<open>
  From a state with no live counters for the caller, failed attempts inside one attempt
  window are allowed exactly \<open>max_attempts\<close> times, each telling how many remain, and the
  next one is refused for the first lockout duration.
\<close>

theorem lockout_trips_after_max_attempts:
  assumes "policy_ok P" and "mem_ok s"
    and "no_counters (client_ip_key ip) (canonical_identifier u) (mem_view t s)"
    and "sorted (t # ts)" and "\<forall>x \<in> set ts. x \<le> t + attempt_window P * usec"
    and "int (length ts) = max_attempts P"
  shows "fst (failed_attempts P mem_backend ip u (t # ts) s) =
    Inr (map (\<lambda>i. (True, Some (max_attempts P - int i), 0)) [1 ..< Suc (length ts)]
         @ [(False, Some 0, min (lockout_base P) (lockout_max P))])"
proof -
  have "after_failures P t (client_ip_key ip) (canonical_identifier u) 0 (mem_view t s)"
    using assms(3) by (simp add: after_failures_def no_counters_def)
  moreover have "\<forall>x \<in> set (t # ts). t \<le> x \<and> x \<le> t + attempt_window P * usec"
    using assms(1,4,5) by (simp add: policy_ok_def)
  ultimately show ?thesis
    using mem.failures_allowed_then_refused [OF assms(1,2), of t ip u 0 t ts] assms(4,6)
    by (simp add: spec_retry_def del: failed_attempts.simps)
qed

theorem lockout_trips_after_max_attempts_witness:
  "fst (failed_attempts default_policy mem_backend ''a'' ''b'' [0, 1, 2, 3, 4, 5] mem_limiter_init) =
    Inr [(True, Some 4, 0), (True, Some 3, 0), (True, Some 2, 0), (True, Some 1, 0), (True, Some 0, 0),
         (False, Some 0, 60)]"
  using lockout_trips_after_max_attempts [OF default_policy_ok mem_ok_init, of "''a''" "''b''" 0 "[1, 2, 3, 4, 5]"]
  by (simp add: no_counters_def default_policy_def usec_def upt_rec del: failed_attempts.simps)

lemma engaged_locks:
  assumes "c (ip_lock ip) = None" and "c (user_lock user) = None"
    and "fst (spec_failure P rnd t0 ip user c) = (False, Some 0, r)"
    and "spec_locked rnd t0 ip user c = 0"
  shows "armed (snd (spec_failure P rnd t0 ip user c)) (ip_lock ip) = Some (t0 + r * usec)"
    and "armed (snd (spec_failure P rnd t0 ip user c)) (user_lock user) = Some (t0 + r * usec)"
  using assms
  by (auto simp: spec_failure_def Let_def spec_engage_def spec_count_other split: if_splits)

lemma armed_locked:
  assumes "armed c k = Some d" and "k = ip_lock ip \<or> k = user_lock user" and "t + usec \<le> d"
  shows "0 < spec_locked (\<lambda>r. r div usec) t ip user (expire t c)"
proof -
  from assms(3) have "1 \<le> (d - t) div usec" by (simp add: usec_def)
  moreover from assms(1,3) have "armed (expire t c) k = Some d"
    by (auto simp: expire_def expired_at_def armed_def usec_def)
  ultimately show ?thesis using assms(2) by (auto simp: spec_locked_def ttl_at_def)
qed

text \<open>
  A fresh lockout holds on both dimensions: until its last second, every attempt from
  that address (whatever the identifier) and every attempt for that identifier (from
  whatever address) is refused, and refusing leaves every counter as it is.
\<close>

theorem lockout_holds_on_both_dimensions:
  assumes "policy_ok P" and "mem_ok s"
    and "mem_view t0 s (ip_lock (client_ip_key ip)) = None"
    and "mem_view t0 s (user_lock (canonical_identifier u)) = None"
    and "fst (check_and_record P mem_backend t0 ip u False s) = Inr (False, Some 0, r)"
    and "t0 \<le> t" and "t + usec \<le> t0 + r * usec"
    and "client_ip_key ip' = client_ip_key ip \<or> canonical_identifier u' = canonical_identifier u"
    and "s' = snd (check_and_record P mem_backend t0 ip u False s)"
  shows "(\<exists>w > 0. fst (check_and_record P mem_backend t ip' u' False s') = Inr (False, Some 0, w))
    \<and> mem_view t (snd (check_and_record P mem_backend t ip' u' False s')) = mem_view t s'"
proof -
  let ?ip = "client_ip_key ip" and ?u = "canonical_identifier u"
  let ?c = "snd (spec_failure P (\<lambda>r. r div usec) t0 ?ip ?u (mem_view t0 s))"
  note run = mem.check_and_record_run [OF assms(2,1), of t0 ip u False]
  note locks = assms(3,4)
  then have "spec_locked (\<lambda>r. r div usec) t0 ?ip ?u (mem_view t0 s) = 0"
    by (simp add: spec_locked_def ttl_at_def)
  with run locks assms(5) have a: "armed ?c (ip_lock ?ip) = Some (t0 + r * usec)"
      "armed ?c (user_lock ?u) = Some (t0 + r * usec)"
    using engaged_locks [OF locks, of P "\<lambda>r. r div usec" t0 r] by (simp_all add: spec_check_def Let_def)
  from run assms(9) have ok: "mem_ok s'" and v: "mem_view t0 s' = ?c"
    by (simp_all add: spec_check_def Let_def)
  from mem.view_later [OF ok assms(6)] v have "mem_view t s' = expire t ?c" by simp
  with a assms(7,8) have "0 < spec_locked (\<lambda>r. r div usec) t (client_ip_key ip') (canonical_identifier u') (mem_view t s')"
    by (auto intro: armed_locked)
  with mem.locked_rejects [OF ok assms(1) this]
  show ?thesis by auto
qed

theorem lockout_holds_on_both_dimensions_witness:
  "\<exists>w > 0. fst (check_and_record default_policy mem_backend (30 * usec) ''a'' ''x'' False
     (snd (check_and_record default_policy mem_backend 0 ''a'' ''b'' False busy_limiter)))
     = Inr (False, Some 0, w)"
proof (rule conjunct1, rule lockout_holds_on_both_dimensions
    [OF default_policy_ok busy_ok, where ip = "''a''" and u = "''b''" and r = 60 and ?t0.0 = 0])
  show "fst (check_and_record default_policy mem_backend 0 ''a'' ''b'' False busy_limiter)
      = Inr (False, Some 0, 60)"
    using mem.check_and_record_run [OF busy_ok default_policy_ok, of 0 "''a''" "''b''" False]
    by (simp add: busy_view spec_defs Let_def default_policy_def)
qed (simp_all add: busy_view usec_def)

text \<open>
  A completed login takes back from the address exactly the failures of its own account:
  what other accounts failed from that address stays counted, and neither the address's lock
  nor its escalation rounds nor any other account's counters change.
\<close>

theorem success_keeps_other_pressure:
  assumes "policy_ok P" and "mem_ok s" and "ipk = client_ip_key ip" and "user = canonical_identifier u"
    and "c = mem_view now s" and "c' = mem_view now (snd (check_and_record P mem_backend now ip u True s))"
    and "v \<noteq> user"
  shows "cnt c' (ip_attempts ipk) = cnt c (ip_attempts ipk)
      - (if on_login_success P = Clear_all then cnt c (pair_attempts ipk user) else 0)
    \<and> c' (ip_lock ipk) = c (ip_lock ipk) \<and> c' (ip_rounds ipk) = c (ip_rounds ipk)
    \<and> c' (user_attempts v) = c (user_attempts v) \<and> c' (user_lock v) = c (user_lock v)
    \<and> c' (user_rounds v) = c (user_rounds v) \<and> c' (pair_attempts ipk v) = c (pair_attempts ipk v)
    \<and> c' (user_attempts user) = None \<and> c' (user_lock user) = None \<and> c' (user_rounds user) = None"
  using mem.check_and_record_run [OF assms(2,1), of now ip u True] assms(3-)
  by (auto simp: spec_check_def spec_success_def Let_def inc_def)

theorem success_keeps_other_pressure_witness:
  "cnt (mem_view 0 (snd (check_and_record default_policy mem_backend 0 ''a'' ''b'' True busy_limiter)))
     (ip_attempts (client_ip_key ''a'')) = 5"
proof -
  have "''b'' @ canonical_identifier ''b'' \<noteq> canonical_identifier ''b''" by simp
  from success_keeps_other_pressure [OF default_policy_ok busy_ok refl refl refl refl this, of 0 "''a''"]
  show ?thesis by (simp add: busy_view)
qed

text \<open>
  Over every history of failed, completed and pending logins from addresses with
  unambiguous keys, the failures attributed to any set of accounts never exceed what the
  address itself has been counted for, so no sequence of logins makes an address's count
  negative or hides the failures of other accounts.
\<close>

theorem pressure_never_laundered:
  assumes "attempt_reach P A (now, s)" and "pair_separated A" and "policy_ok P" and "ip \<in> A" and "finite U"
  shows "0 \<le> (\<Sum>u\<in>U. cnt (mem_view now s) (pair_attempts ip u))
    \<and> (\<Sum>u\<in>U. cnt (mem_view now s) (pair_attempts ip u)) \<le> cnt (mem_view now s) (ip_attempts ip)"
  using attempt_reach_inv [OF assms(1-3)] pressure_sum [OF _ assms(4,5)] pressure_cnt_nonneg(1) [OF _ assms(4)]
  by (auto intro: sum_nonneg)

theorem pressure_never_laundered_witness:
  "let s = snd (check_and_record default_policy mem_backend 0 ''a'' ''b'' False mem_limiter_init) in
   (\<Sum>u\<in>{''b'', ''c''}. cnt (mem_view 0 s) (pair_attempts (client_ip_key ''a'') u))
     \<le> cnt (mem_view 0 s) (ip_attempts (client_ip_key ''a''))"
proof -
  let ?A = "{client_ip_key ''a''}"
  have "attempt_reach default_policy ?A
      (0, snd (check_and_record default_policy mem_backend 0 ''a'' ''b'' False mem_limiter_init))"
    by (rule attempt_reach.step [OF attempt_reach.start [where now = 0]], rule attempt_step.failed) simp_all
  moreover have "pair_separated ?A" by (simp add: pair_separated_def)
  ultimately show ?thesis
    using pressure_never_laundered [of default_policy ?A 0 _ "client_ip_key ''a''" "{''b'', ''c''}"]
    by (simp add: Let_def)
qed

text \<open>
  A correct password that still waits for its second factor costs nothing: recording it
  and taking it back leaves the address's, the account's and every other counter as they
  were (the pair counter alone may lose a count that is about to expire).
\<close>

theorem forget_undoes_allowed_attempt:
  assumes "policy_ok P" and "mem_ok s" and "c = mem_view now s"
    and "fst (pending_attempt P mem_backend now ip u s) = Inr (True, rem, w)"
    and "\<forall>k. 0 \<le> cnt c k"
    and "c' = mem_view now (snd (pending_attempt P mem_backend now ip u s))"
    and "k \<noteq> pair_attempts (client_ip_key ip) (canonical_identifier u)"
  shows "cnt c' k = cnt c k"
proof -
  let ?ip = "client_ip_key ip" and ?u = "canonical_identifier u"
  have "fst (fst (spec_check P (\<lambda>r. r div usec) now ip u False c))"
    using assms(3,4) mem.check_and_record_run [OF assms(2,1), of now ip u False]
      mem.forget_attempt_run [OF _ assms(1)]
    by (auto simp: pending_attempt_def run_simps split: if_splits)
  then have "c' = spec_forget P now ip u (spec_count P (\<lambda>r. r div usec) now ?ip ?u c)"
    using pending_run [OF assms(2,1), of now ip u] assms(3,6)
    by (simp add: spec_check_def Let_def allowed_failure)
  moreover have "0 \<le> cnt c (ip_attempts ?ip)" "0 \<le> cnt c (user_attempts ?u)" using assms(5) by auto
  ultimately show ?thesis using assms(7)
    by (auto simp: spec_forget_def Let_def take_back_cnt spec_count_def)
qed

theorem forget_undoes_allowed_attempt_witness:
  "cnt (mem_view 0 (snd (pending_attempt default_policy mem_backend 0 ''a'' ''b'' mem_limiter_init)))
     (ip_attempts (client_ip_key ''a'')) = 0"
proof -
  have "fst (pending_attempt default_policy mem_backend 0 ''a'' ''b'' mem_limiter_init) = Inr (True, Some 4, 0)"
    using mem.check_and_record_run [OF mem_ok_init default_policy_ok, of 0 "''a''" "''b''" False]
      mem.forget_attempt_run [OF _ default_policy_ok]
    by (simp add: pending_attempt_def run_simps spec_defs Let_def default_policy_def)
  from forget_undoes_allowed_attempt [OF default_policy_ok mem_ok_init refl this _ refl,
      of "ip_attempts (client_ip_key ''a'')"]
  show ?thesis by (simp add: cnt_def)
qed

text \<open>
  Whatever the backend does, the policy always answers; and with \<open>fail_open\<close> off, a
  backend that raises at any point of a failed attempt has it refused for the base lockout.
\<close>

theorem lockout_fails_closed:
  "(\<exists>r. fst (check_and_record P b now ip u success s) = Inr r)
   \<and> (\<not> fail_open P \<longrightarrow>
      (\<exists>e. fst (record_failure P b now (client_ip_key ip) (canonical_identifier u) s) = Inl e) \<longrightarrow>
      fst (check_and_record P b now ip u False s) = Inr (False, Some 0, lockout_base P))"
  by (auto simp: check_and_record_def run_simps Let_def split: sum.splits)

definition broken_backend :: "unit rate_limiter_backend" where
  "broken_backend = \<lparr>increment = (\<lambda>_ _ _ _. raise (BackendError ''down'')),
     increment_and_refresh_ttl = (\<lambda>_ _ _ _. raise (BackendError ''down'')),
     get_count = (\<lambda>_ _. raise (BackendError ''down'')), delete_key = (\<lambda>_ _. raise (BackendError ''down'')),
     get_ttl = (\<lambda>_ _. raise (BackendError ''down''))\<rparr>"

theorem lockout_fails_closed_witness:
  "fst (check_and_record default_policy broken_backend 0 ''a'' ''b'' False ()) = Inr (False, Some 0, 60)"
  using lockout_fails_closed [of default_policy broken_backend 0 "''a''" "''b''" False "()"]
  by (simp add: record_failure_def broken_backend_def run_simps default_policy_def)

lemma spec_count_armed_other:
  assumes "k \<noteq> ip_attempts ip" and "k \<noteq> pair_attempts ip user" and "k \<noteq> user_attempts user"
  shows "armed (spec_count P rnd now ip user c) k = armed c k"
  using assms by (simp add: armed_def spec_count_other)

lemma spec_count_user:
  "cnt (spec_count P rnd now ip user c) (user_attempts user) = cnt c (user_attempts user) + 1"
  by (simp add: spec_count_def Let_def)

text \<open>
  C39. In the last second of a lockout, with both its lock counters still armed (deadlines less
  than a second away, so that the in-memory backend truncates the time left to none) and the
  address's live attempt counter at its limit or over, a failed attempt is counted against the
  address and the account and answered with the next lockout. The announced one ends after both
  old deadlines, but the two locks keep those deadlines: what was announced lapses with the
  previous lockout.
\<close>

theorem last_second_lockout_not_armed:
  assumes "policy_ok P" and "mem_ok s" and "c = mem_view now s"
    and "armed c (ip_lock (client_ip_key ip)) = Some d" and "armed c (user_lock (canonical_identifier u)) = Some d'"
    and "d < now + usec" and "d' < now + usec"
    and "max_attempts P \<le> cnt c (ip_attempts (client_ip_key ip))"
    and "c' = mem_view now (snd (check_and_record P mem_backend now ip u False s))"
    and "announced = spec_retry P (spec_rounds (client_ip_key ip) (canonical_identifier u) c)"
  shows "fst (check_and_record P mem_backend now ip u False s) = Inr (False, Some 0, announced)
    \<and> d < now + announced * usec \<and> d' < now + announced * usec
    \<and> cnt c' (ip_attempts (client_ip_key ip)) = cnt c (ip_attempts (client_ip_key ip)) + 1
    \<and> cnt c' (user_attempts (canonical_identifier u)) = cnt c (user_attempts (canonical_identifier u)) + 1
    \<and> armed c' (ip_lock (client_ip_key ip)) = Some d
    \<and> armed c' (user_lock (canonical_identifier u)) = Some d'"
proof -
  let ?ip = "client_ip_key ip" and ?u = "canonical_identifier u"
  have "(x - now) div usec \<le> 0" if "x < now + usec" for x
    using zdiv_mono1 [of "x - now" "usec - 1" usec] that by (simp add: usec_def)
  with assms(6,7) have "(d - now) div usec \<le> 0" "(d' - now) div usec \<le> 0" by blast+
  then have unlocked: "spec_locked (\<lambda>r. r div usec) now ?ip ?u c = 0"
    using assms(4,5) by (simp add: spec_locked_def ttl_at_def)
  have "spec_rounds ?ip ?u (spec_count P (\<lambda>r. r div usec) now ?ip ?u c) = spec_rounds ?ip ?u c"
    by (simp add: spec_rounds_def cnt_def spec_count_other)
  moreover have "max_attempts P < spec_attempts ?ip ?u (spec_count P (\<lambda>r. r div usec) now ?ip ?u c)"
    using assms(8) by (simp add: spec_attempts_def spec_count_ip)
  moreover have "usec \<le> announced * usec"
    using spec_retry_pos [OF assms(1), of "spec_rounds ?ip ?u c"] by (simp add: assms(10) usec_def)
  then have "d < now + announced * usec" "d' < now + announced * usec" using assms(6,7) by linarith+
  ultimately show ?thesis
    using unlocked assms(3-5,9,10) mem.check_and_record_run [OF assms(2,1), of now ip u False]
    by (simp add: spec_check_def spec_failure_def Let_def spec_engage_def spec_count_armed_other
        spec_count_ip spec_count_user)
qed

definition locked_limiter :: mem_limiter where
  "locked_limiter =
     (let ip = client_ip_key ''a''; user = canonical_identifier ''b''
      in \<lparr>counts = [ip_attempts ip \<mapsto> 6, ip_lock ip \<mapsto> 1, user_lock user \<mapsto> 1, ip_rounds ip \<mapsto> 1],
          deadline = [ip_attempts ip \<mapsto> 60 * usec, ip_lock ip \<mapsto> 60 * usec, user_lock user \<mapsto> 60 * usec,
                      ip_rounds ip \<mapsto> 3600 * usec],
          increments_since_sweep = 6\<rparr>)"

lemma locked_limiter_view:
  "mem_view 59500000 locked_limiter =
     (let ip = client_ip_key ''a''; user = canonical_identifier ''b''
      in [ip_attempts ip \<mapsto> (6, Some (60 * usec)), ip_lock ip \<mapsto> (1, Some (60 * usec)),
          user_lock user \<mapsto> (1, Some (60 * usec)), ip_rounds ip \<mapsto> (1, Some (3600 * usec))])"
  by (auto simp: mem_view_def locked_limiter_def Let_def expired_at_def usec_def fun_eq_iff)

theorem last_second_lockout_not_armed_witness:
  "let s = snd (check_and_record default_policy mem_backend 59500000 ''a'' ''b'' False locked_limiter)
   in fst (check_and_record default_policy mem_backend 59500000 ''a'' ''b'' False locked_limiter)
        = Inr (False, Some 0, 120)
      \<and> armed (mem_view 59500000 s) (ip_lock (client_ip_key ''a'')) = Some 60000000"
proof -
  have "mem_ok locked_limiter" by (auto simp: mem_ok_def locked_limiter_def Let_def)
  from last_second_lockout_not_armed [OF default_policy_ok this refl _ _ _ _ _ refl refl,
      of 59500000 "''a''" "60 * usec" "''b''" "60 * usec"]
  show ?thesis
    by (simp add: locked_limiter_view Let_def usec_def default_policy_def spec_retry_def spec_rounds_def)
qed

end
