(* ===== verification/Sessions.thy ===== *)
theory Sessions
  imports Storage Utils Hashlib Lockout
begin

text \<open>
  Server-side sessions, \<open>crudauth/transports/session/manager.py\<close>, with the shapes of
  \<open>schemas.py\<close> and the parser of \<open>useragent.py\<close>. The manager runs over any
  session store and any CSRF-token store; a session id and a CSRF token drawn at random are
  arguments of the operation that draws them.
\<close>

section \<open>Shapes\<close>

type_synonym metadata = "(string \<times> pyval) list"

record user_agent_info =
  browser :: string
  browser_version :: string
  os :: string
  device :: string
  is_mobile :: bool
  is_tablet :: bool
  is_pc :: bool

record session_data =
  user_id :: pyval
  session_id :: string
  ip_address :: string
  user_agent :: string
  device_info :: user_agent_info
  created_at :: int
  last_activity :: int
  metadata :: metadata
  token_version :: "int option"

record csrf_token =
  csrf_token_key :: string
  csrf_session_id :: string
  csrf_expiry :: int

definition unknown_agent :: user_agent_info where
  "unknown_agent = \<lparr>browser = ''Unknown'', browser_version = [], os = ''Unknown'', device = ''Unknown'',
     is_mobile = False, is_tablet = False, is_pc = False\<rparr>"

text \<open>\<open>ua_parse\<close> is the optional \<open>user_agents\<close> package.\<close>

definition parse_user_agent :: "(string \<Rightarrow> user_agent_info) option \<Rightarrow> string \<Rightarrow> user_agent_info" where
  "parse_user_agent ua_parse s =
     (case ua_parse of None \<Rightarrow> unknown_agent | Some p \<Rightarrow> if s = [] then unknown_agent else p s)"

section \<open>The manager\<close>

definition SESSION_COOKIE_NAME :: string where
  "SESSION_COOKIE_NAME = ''session_id''"

definition CSRF_COOKIE_NAME :: string where
  "CSRF_COOKIE_NAME = ''csrf_token''"

definition REMEMBER_ME_META_KEY :: string where
  "REMEMBER_ME_META_KEY = ''remember_me''"

definition CSRF_TOKEN_ID_META_KEY :: string where
  "CSRF_TOKEN_ID_META_KEY = ''csrf_token_id''"

text \<open>The constructor's arguments; the timeouts in seconds.\<close>

record session_options =
  max_sessions :: int
  session_timeout :: int
  remember_me_timeout :: int
  cleanup_interval :: int
  cookie_secure :: bool
  cookie_samesite :: string
  cookie_path :: string
  session_cookie_name :: string
  csrf_cookie_name :: string
  trusted_proxy_hops :: nat
  key_secret :: "string option"
  absolute_timeout :: "int option"
  user_agents_parse :: "(string \<Rightarrow> user_agent_info) option"

record ('s, 'c) session_manager =
  opts :: session_options
  storage :: "('s, session_data) session_storage"
  csrf_storage :: "('c, csrf_token) session_storage option"

record ('s, 'c) session_world =
  sess_store :: 's
  csrf_store :: 'c
  last_cleanup :: int

definition in_sess :: "('s, 'a) prog \<Rightarrow> (('s, 'c) session_world, 'a) prog" where
  "in_sess m = zoom sess_store (\<lambda>x w. w\<lparr>sess_store := x\<rparr>) m"

definition in_csrf :: "('c, 'a) prog \<Rightarrow> (('s, 'c) session_world, 'a) prog" where
  "in_csrf m = zoom csrf_store (\<lambda>x w. w\<lparr>csrf_store := x\<rparr>) m"

subsection \<open>Storage keys\<close>

definition keyed :: "session_options \<Rightarrow> string \<Rightarrow> string \<Rightarrow> string" where
  "keyed cfg purpose value =
     (case key_secret cfg of None \<Rightarrow> value | Some k \<Rightarrow> hmac_sha256_hex k (purpose @ value))"

definition session_key :: "session_options \<Rightarrow> string \<Rightarrow> string" where
  "session_key cfg sid = keyed cfg ''session:'' sid"

definition csrf_key :: "session_options \<Rightarrow> string \<Rightarrow> string" where
  "csrf_key cfg tok = keyed cfg ''csrf:'' tok"

definition handle_of :: "session_options \<Rightarrow> string \<Rightarrow> string" where
  "handle_of cfg key = (case key_secret cfg of None \<Rightarrow> sha256_hex key | Some _ \<Rightarrow> key)"

definition session_handle :: "session_options \<Rightarrow> string \<Rightarrow> string" where
  "session_handle cfg sid = handle_of cfg (session_key cfg sid)"

subsection \<open>Timeouts\<close>

definition meta_true :: "metadata \<Rightarrow> string \<Rightarrow> bool" where
  "meta_true md k = (case map_of md k of None \<Rightarrow> False | Some v \<Rightarrow> truthy v)"

definition timeout_seconds_for :: "session_options \<Rightarrow> metadata \<Rightarrow> int" where
  "timeout_seconds_for cfg md =
     (if meta_true md REMEMBER_ME_META_KEY then remember_me_timeout cfg else session_timeout cfg)"

definition is_idle_expired :: "session_options \<Rightarrow> session_data \<Rightarrow> int \<Rightarrow> bool" where
  "is_idle_expired cfg d now \<longleftrightarrow> last_activity d < now - timeout_seconds_for cfg (metadata d) * usec"

definition is_over_age :: "session_options \<Rightarrow> session_data \<Rightarrow> int \<Rightarrow> bool" where
  "is_over_age cfg d now \<longleftrightarrow>
     (case absolute_timeout cfg of None \<Rightarrow> False | Some a \<Rightarrow> created_at d < now - a * usec)"

text \<open>\<open>metadata.get(CSRF_TOKEN_ID_META_KEY) or ""\<close>\<close>

definition csrf_id_of :: "session_data \<Rightarrow> string" where
  "csrf_id_of d = (case map_of (metadata d) CSRF_TOKEN_ID_META_KEY of
     None \<Rightarrow> [] | Some v \<Rightarrow> if truthy v then py_str v else [])"

subsection \<open>Ending sessions\<close>

definition terminate :: "('s, 'c) session_manager \<Rightarrow> int \<Rightarrow> string \<Rightarrow> session_data \<Rightarrow>
    (('s, 'c) session_world, bool) prog" where
  "terminate M now key d =
     bind (in_sess (st_delete (storage M) now key (user_id d))) (\<lambda>deleted.
     bind (case csrf_storage M of
             None \<Rightarrow> ret ()
           | Some cs \<Rightarrow> if csrf_id_of d \<noteq> []
                        then bind (in_csrf (st_delete cs now (csrf_id_of d) VNone)) (\<lambda>_. ret ()) else ret ())
       (\<lambda>_. ret deleted))"

definition terminate_session :: "('s, 'c) session_manager \<Rightarrow> int \<Rightarrow> string \<Rightarrow> (('s, 'c) session_world, bool) prog" where
  "terminate_session M now sid =
     bind (in_sess (st_get (storage M) now (session_key (opts M) sid))) (\<lambda>found.
     case found of None \<Rightarrow> ret False | Some d \<Rightarrow> terminate M now (session_key (opts M) sid) d)"

definition user_session_ids :: "('s, 'c) session_manager \<Rightarrow> int \<Rightarrow> pyval \<Rightarrow>
    (('s, 'c) session_world, string list) prog" where
  "user_session_ids M now u = catch (in_sess (st_get_user_sessions (storage M) now u)) (\<lambda>_. ret [])"

fun load_sessions :: "('s, 'c) session_manager \<Rightarrow> int \<Rightarrow> pyval \<Rightarrow> string list \<Rightarrow>
    (('s, 'c) session_world, (string \<times> session_data) list) prog" where
  "load_sessions M now u [] = ret []"
| "load_sessions M now u (sid # sids) =
     bind (in_sess (st_get (storage M) now sid)) (\<lambda>found.
     case found of
       None \<Rightarrow> bind (in_sess (st_remove_from_user_index (storage M) now u sid)) (\<lambda>_. load_sessions M now u sids)
     | Some d \<Rightarrow> bind (load_sessions M now u sids) (\<lambda>rest. ret ((sid, d) # rest)))"

definition user_sessions :: "('s, 'c) session_manager \<Rightarrow> int \<Rightarrow> pyval \<Rightarrow>
    (('s, 'c) session_world, (string \<times> session_data) list) prog" where
  "user_sessions M now u = bind (user_session_ids M now u) (load_sessions M now u)"

definition enforce_session_limit :: "('s, 'c) session_manager \<Rightarrow> int \<Rightarrow> pyval \<Rightarrow>
    (('s, 'c) session_world, unit) prog" where
  "enforce_session_limit M now u =
     bind (user_sessions M now u) (\<lambda>active.
     if int (length active) \<ge> max_sessions (opts M)
     then for_each (take (nat (int (length active) - max_sessions (opts M) + 1))
                      (sort_key (\<lambda>p. last_activity (snd p)) active))
            (\<lambda>(sid, d). bind (terminate M now sid d) (\<lambda>_. ret ()))
     else ret ())"

fun terminate_each :: "('s, 'c) session_manager \<Rightarrow> int \<Rightarrow> string option \<Rightarrow> (string \<times> session_data) list \<Rightarrow>
    (('s, 'c) session_world, int) prog" where
  "terminate_each M now excluded [] = ret 0"
| "terminate_each M now excluded ((sid, d) # rest) =
     bind (if Some sid \<noteq> excluded then terminate M now sid d else ret False) (\<lambda>ended.
     bind (terminate_each M now excluded rest) (\<lambda>n. ret (if ended then n + 1 else n)))"

definition terminate_all_user_sessions :: "('s, 'c) session_manager \<Rightarrow> int \<Rightarrow> pyval \<Rightarrow> string option \<Rightarrow>
    (('s, 'c) session_world, int) prog" where
  "terminate_all_user_sessions M now u exclude =
     (let excluded = (case exclude of None \<Rightarrow> None
                      | Some e \<Rightarrow> if e = [] then None else Some (session_key (opts M) e))
      in bind (user_sessions M now u) (terminate_each M now excluded))"

subsection \<open>CSRF tokens\<close>

definition generate_csrf_token :: "('s, 'c) session_manager \<Rightarrow> int \<Rightarrow> string \<Rightarrow> string \<Rightarrow> int option \<Rightarrow>
    (('s, 'c) session_world, string) prog" where
  "generate_csrf_token M now tok key exp =
     (case csrf_storage M of
        None \<Rightarrow> ret []
      | Some cs \<Rightarrow>
          (let ttl = ttl_or (session_timeout (opts M)) exp; token_key = csrf_key (opts M) tok
           in bind (in_csrf (st_create cs now
                     \<lparr>csrf_token_key = token_key, csrf_session_id = key, csrf_expiry = now + ttl * usec\<rparr>
                     token_key (Some ttl))) (\<lambda>_. ret tok)))"

definition regenerate_csrf_token :: "('s, 'c) session_manager \<Rightarrow> int \<Rightarrow> string \<Rightarrow> string \<Rightarrow> int option \<Rightarrow>
    (('s, 'c) session_world, string) prog" where
  "regenerate_csrf_token M now tok sid exp =
     (case csrf_storage M of
        None \<Rightarrow> ret []
      | Some cs \<Rightarrow>
          (let key = session_key (opts M) sid
           in bind (in_sess (st_get (storage M) now key)) (\<lambda>found.
              case found of
                None \<Rightarrow> ret []
              | Some d \<Rightarrow>
                  (let ttl = ttl_or (timeout_seconds_for (opts M) (metadata d)) exp
                   in bind (generate_csrf_token M now tok key (Some ttl)) (\<lambda>new_token.
                      let new_key = csrf_key (opts M) new_token
                      in bind (in_sess (st_modify (storage M) now key
                           (\<lambda>c. (c\<lparr>metadata := AList.update CSRF_TOKEN_ID_META_KEY (VStr new_key) (metadata c)\<rparr>,
                                 csrf_id_of c)) True (Some ttl))) (\<lambda>modified.
                         case modified of
                           None \<Rightarrow> bind (in_csrf (st_delete cs now new_key VNone)) (\<lambda>_. ret [])
                         | Some (_, replaced) \<Rightarrow>
                             if replaced \<noteq> []
                             then bind (in_csrf (st_delete cs now replaced VNone)) (\<lambda>_. ret new_token)
                             else ret new_token))))))"

definition validate_csrf_token :: "('s, 'c) session_manager \<Rightarrow> int \<Rightarrow> string \<Rightarrow> string \<Rightarrow>
    (('s, 'c) session_world, bool) prog" where
  "validate_csrf_token M now sid tok =
     (case csrf_storage M of
        None \<Rightarrow> ret True
      | Some cs \<Rightarrow>
          if sid = [] \<or> tok = [] then ret False
          else bind (in_csrf (st_get cs now (csrf_key (opts M) tok))) (\<lambda>found.
               ret (case found of None \<Rightarrow> False | Some t \<Rightarrow> csrf_session_id t = session_key (opts M) sid)))"

subsection \<open>The life of a session\<close>

definition create_session :: "('s, 'c) session_manager \<Rightarrow> int \<Rightarrow> string \<Rightarrow> string \<Rightarrow> request \<Rightarrow> pyval \<Rightarrow>
    metadata \<Rightarrow> int option \<Rightarrow> int option \<Rightarrow> (('s, 'c) session_world, string \<times> string) prog" where
  "create_session M now uuid tok r u md exp ver =
     (let agent = (case header r ''user-agent'' of None \<Rightarrow> [] | Some a \<Rightarrow> a);
          presented = (case cookie r (session_cookie_name (opts M)) of None \<Rightarrow> [] | Some c \<Rightarrow> c);
          ttl = ttl_or (timeout_seconds_for (opts M) md) exp;
          key = session_key (opts M) uuid
      in bind (if presented \<noteq> [] then bind (terminate_session M now presented) (\<lambda>_. ret ()) else ret ()) (\<lambda>_.
         bind (enforce_session_limit M now u) (\<lambda>_.
         bind (generate_csrf_token M now tok key (Some ttl)) (\<lambda>csrf.
         let md' = (if csrf \<noteq> [] then AList.update CSRF_TOKEN_ID_META_KEY (VStr (csrf_key (opts M) csrf)) md
                    else md);
             d = \<lparr>user_id = u, session_id = key, ip_address = get_client_ip r (trusted_proxy_hops (opts M)),
                  user_agent = agent, device_info = parse_user_agent (user_agents_parse (opts M)) agent,
                  created_at = now, last_activity = now, metadata = md', token_version = ver\<rparr>
         in bind (in_sess (st_create (storage M) now d key (Some ttl))) (\<lambda>_. ret (uuid, csrf))))))"

definition validate_session :: "('s, 'c) session_manager \<Rightarrow> int \<Rightarrow> string \<Rightarrow> bool \<Rightarrow>
    (('s, 'c) session_world, session_data option) prog" where
  "validate_session M now sid update_activity =
     (if sid = [] then ret None
      else
        (let key = session_key (opts M) sid
         in bind (in_sess (st_get (storage M) now key)) (\<lambda>found.
            case found of
              None \<Rightarrow> ret None
            | Some d \<Rightarrow>
                if is_idle_expired (opts M) d now then bind (terminate M now key d) (\<lambda>_. ret None)
                else if is_over_age (opts M) d now then bind (terminate M now key d) (\<lambda>_. ret None)
                else if \<not> update_activity then ret (Some d)
                else
                  (let ttl = timeout_seconds_for (opts M) (metadata d)
                   in bind (in_sess (st_modify (storage M) now key
                              (\<lambda>c. (c\<lparr>last_activity := now\<rparr>, [])) True (Some ttl))) (\<lambda>touched.
                      case touched of
                        None \<Rightarrow> ret None
                      | Some (t, _) \<Rightarrow>
                          bind (case csrf_storage M of
                                  None \<Rightarrow> ret ()
                                | Some cs \<Rightarrow> if csrf_id_of t \<noteq> []
                                             then bind (in_csrf (st_extend cs now (csrf_id_of t) (Some ttl))) (\<lambda>_. ret ())
                                             else ret ()) (\<lambda>_.
                          ret (Some t)))))))"

definition get_session :: "('s, 'c) session_manager \<Rightarrow> int \<Rightarrow> string \<Rightarrow>
    (('s, 'c) session_world, session_data option) prog" where
  "get_session M now sid = in_sess (st_get (storage M) now (session_key (opts M) sid))"

definition modify_session :: "('s, 'c) session_manager \<Rightarrow> int \<Rightarrow> string \<Rightarrow> (session_data \<Rightarrow> session_data) \<Rightarrow>
    (('s, 'c) session_world, session_data option) prog" where
  "modify_session M now sid change =
     bind (in_sess (st_modify (storage M) now (session_key (opts M) sid) (\<lambda>c. (change c, [])) False None))
       (\<lambda>r. ret (map_option fst r))"

definition set_token_version :: "('s, 'c) session_manager \<Rightarrow> int \<Rightarrow> string \<Rightarrow> int \<Rightarrow>
    (('s, 'c) session_world, bool) prog" where
  "set_token_version M now sid ver =
     bind (modify_session M now sid (\<lambda>c. c\<lparr>token_version := Some ver\<rparr>)) (\<lambda>r. ret (r \<noteq> None))"

subsection \<open>Device management\<close>

record session_info =
  info_id :: string
  info_device :: user_agent_info
  info_ip :: string
  info_created_at :: int
  info_last_activity :: int
  info_current :: bool

definition list_for_user :: "('s, 'c) session_manager \<Rightarrow> int \<Rightarrow> pyval \<Rightarrow> string option \<Rightarrow>
    (('s, 'c) session_world, session_info list) prog" where
  "list_for_user M now u current_session_id =
     (let current = (case current_session_id of None \<Rightarrow> None
                     | Some c \<Rightarrow> if c = [] then None else Some (session_key (opts M) c))
      in bind (user_sessions M now u) (\<lambda>active.
         ret (map (\<lambda>(sid, d). \<lparr>info_id = handle_of (opts M) sid, info_device = device_info d,
                info_ip = ip_address d, info_created_at = created_at d, info_last_activity = last_activity d,
                info_current = (Some sid = current)\<rparr>) active)))"

definition revoke :: "('s, 'c) session_manager \<Rightarrow> int \<Rightarrow> string \<Rightarrow> pyval \<Rightarrow>
    (('s, 'c) session_world, bool) prog" where
  "revoke M now sid owner_id =
     (let key = session_key (opts M) sid
      in bind (in_sess (st_get (storage M) now key)) (\<lambda>found.
         case found of
           None \<Rightarrow> ret False
         | Some d \<Rightarrow>
             if owner_id \<noteq> VNone \<and> py_str (user_id d) \<noteq> py_str owner_id then ret False
             else terminate M now key d))"

fun revoke_handle_in :: "('s, 'c) session_manager \<Rightarrow> int \<Rightarrow> string \<Rightarrow> (string \<times> session_data) list \<Rightarrow>
    (('s, 'c) session_world, bool) prog" where
  "revoke_handle_in M now handle [] = ret False"
| "revoke_handle_in M now handle ((sid, d) # rest) =
     (if handle_of (opts M) sid = handle then terminate M now sid d else revoke_handle_in M now handle rest)"

definition revoke_by_handle :: "('s, 'c) session_manager \<Rightarrow> int \<Rightarrow> string \<Rightarrow> pyval \<Rightarrow>
    (('s, 'c) session_world, bool) prog" where
  "revoke_by_handle M now handle owner_id = bind (user_sessions M now owner_id) (revoke_handle_in M now handle)"

definition revoke_all :: "('s, 'c) session_manager \<Rightarrow> int \<Rightarrow> pyval \<Rightarrow> string option \<Rightarrow>
    (('s, 'c) session_world, int) prog" where
  "revoke_all M now u exclude = terminate_all_user_sessions M now u exclude"

subsection \<open>Cleanup and login attempts\<close>

definition cleanup_key :: "('s, 'c) session_manager \<Rightarrow> int \<Rightarrow> string \<Rightarrow> (('s, 'c) session_world, unit) prog" where
  "cleanup_key M now key =
     (let sid = (if starts_with key (st_prefix (storage M)) then drop (length (st_prefix (storage M))) key else key)
      in bind (in_sess (st_get (storage M) now sid)) (\<lambda>found.
         case found of
           None \<Rightarrow> ret ()
         | Some d \<Rightarrow> if is_idle_expired (opts M) d now
                     then bind (terminate M now sid d) (\<lambda>_. ret ()) else ret ()))"

definition cleanup_expired_sessions :: "('s, 'c) session_manager \<Rightarrow> int \<Rightarrow> bool \<Rightarrow>
    (('s, 'c) session_world, unit) prog" where
  "cleanup_expired_sessions M now force =
     bind (gets last_cleanup) (\<lambda>last.
     if \<not> force \<and> now - last < cleanup_interval (opts M) * usec then ret ()
     else
       bind (modifies (\<lambda>w. w\<lparr>last_cleanup := now\<rparr>)) (\<lambda>_.
       bind (catch (bind (in_sess (st_scan_keys (storage M) now (Some (st_prefix (storage M) @ ''*''))))
                      (\<lambda>ks. ret (Some ks))) (\<lambda>_. ret None)) (\<lambda>keys.
       case keys of
         None \<Rightarrow> ret ()
       | Some ks \<Rightarrow>
           for_each ks (cleanup_key M now))))"

definition track_login_attempt :: "lockout_policy option \<Rightarrow> 'b rate_limiter_backend \<Rightarrow> int \<Rightarrow> string \<Rightarrow>
    string \<Rightarrow> bool \<Rightarrow> ('b, attempt_result) prog" where
  "track_login_attempt lockout b now ip username success =
     (case lockout of None \<Rightarrow> ret (True, None, 0) | Some P \<Rightarrow> check_and_record P b now ip username success)"

subsection \<open>Cookies\<close>

datatype cookie_op =
    SetCookie (ck_name: string) (ck_value: string) (ck_httponly: bool) (ck_secure: bool)
      (ck_samesite: string) (ck_path: string) (ck_max_age: "int option")
  | DeleteCookie string string bool string

definition set_csrf_cookie :: "session_options \<Rightarrow> string \<Rightarrow> int option \<Rightarrow> cookie_op list \<Rightarrow> cookie_op list" where
  "set_csrf_cookie cfg tok max_age cs =
     (if tok = [] then cs
      else cs @ [SetCookie (csrf_cookie_name cfg) tok False (cookie_secure cfg) (cookie_samesite cfg) (cookie_path cfg) max_age])"

definition set_session_cookies :: "session_options \<Rightarrow> string \<Rightarrow> string \<Rightarrow> int option \<Rightarrow> cookie_op list \<Rightarrow> cookie_op list" where
  "set_session_cookies cfg sid tok max_age cs =
     set_csrf_cookie cfg tok max_age
       (cs @ [SetCookie (session_cookie_name cfg) sid True (cookie_secure cfg) (cookie_samesite cfg) (cookie_path cfg) max_age])"

definition clear_session_cookies :: "session_options \<Rightarrow> cookie_op list \<Rightarrow> cookie_op list" where
  "clear_session_cookies cfg cs =
     cs @ [DeleteCookie (session_cookie_name cfg) (cookie_path cfg) (cookie_secure cfg) (cookie_samesite cfg),
           DeleteCookie (csrf_cookie_name cfg) (cookie_path cfg) (cookie_secure cfg) (cookie_samesite cfg)]"

end
