(* ===== verification/Repository.thy ===== *)
theory Repository
  imports Utils
begin

text \<open>
  User persistence, \<open>crudauth/repository.py\<close>: the logical field contract over the
  application's user table, lookups, the gates on what a signup may set, and the conditional
  updates. A row maps column names to values; the table is the list of its rows. What the
  application's model and its database decide (declared columns, lengths and uniqueness, the
  primary key's Python type, defaults and constraints on insertion) are fields of the
  repository record.
\<close>

section \<open>The logical contract\<close>

definition LOGICAL_FIELDS :: "string list" where
  "LOGICAL_FIELDS =
     [''id'', ''email'', ''username'', ''hashed_password'', ''is_active'', ''is_superuser'', ''email_verified'',
      ''token_version'', ''oauth_provider'', ''google_id'', ''github_id'', ''oauth_created_at'',
      ''oauth_updated_at'', ''totp_secret_encrypted'', ''totp_confirmed_at'', ''totp_last_step'',
      ''mfa_recovery_codes'']"

definition HOOK_HIDDEN_FIELDS :: "string list" where
  "HOOK_HIDDEN_FIELDS = [''totp_secret_encrypted'', ''mfa_recovery_codes'']"

definition REGISTRATION_ALLOWED_FIELDS :: "string list" where
  "REGISTRATION_ALLOWED_FIELDS = [''email'', ''username'']"

definition REGISTRATION_GATED_FIELDS :: "string list" where
  "REGISTRATION_GATED_FIELDS = filter (\<lambda>f. f \<notin> set REGISTRATION_ALLOWED_FIELDS) LOGICAL_FIELDS"

type_synonym row = "string \<rightharpoonup> pyval"

record database =
  rows :: "row list"

record user_repo =
  columns :: "string list"
  column_map :: "(string \<times> string) list"
  register_extra_fields :: "string list"
  login_fields :: "string list"
  recovery :: "string option"
  column_unique :: "string \<Rightarrow> bool"
  unique_constraints :: "string list list"
  table_indexes :: "(bool \<times> string list) list"
  string_lengths :: "string \<Rightarrow> int list"
  id_python_type :: "((pyval \<Rightarrow> bool) \<times> (pyval \<Rightarrow> pyval option)) option"
  insert_row :: "row list \<Rightarrow> row \<Rightarrow> exc + row"

definition recovery_verified_col :: "user_repo \<Rightarrow> string option" where
  "recovery_verified_col R =
     map_option (\<lambda>f. if f = ''email'' then ''email_verified'' else f @ ''_verified'') (recovery R)"

definition col :: "user_repo \<Rightarrow> string \<Rightarrow> string" where
  "col R logical = (case map_of (column_map R) logical of None \<Rightarrow> logical | Some c \<Rightarrow> c)"

definition has_col :: "user_repo \<Rightarrow> string \<Rightarrow> bool" where
  "has_col R logical \<longleftrightarrow> col R logical \<in> set (columns R)"

definition is_unique_column :: "user_repo \<Rightarrow> string \<Rightarrow> bool" where
  "is_unique_column R logical =
     (let actual = col R logical
      in if actual \<notin> set (columns R) then False
         else column_unique R actual
           \<or> list_ex (\<lambda>c. length c = 1 \<and> actual \<in> set c) (unique_constraints R)
           \<or> list_ex (\<lambda>(u, c). u \<and> length c = 1 \<and> actual \<in> set c) (table_indexes R))"

definition get_field :: "user_repo \<Rightarrow> row \<Rightarrow> string \<Rightarrow> pyval \<Rightarrow> pyval" where
  "get_field R user logical dflt = (case user (col R logical) of None \<Rightarrow> dflt | Some v \<Rightarrow> v)"

definition set_field :: "user_repo \<Rightarrow> row \<Rightarrow> string \<Rightarrow> pyval \<Rightarrow> row" where
  "set_field R user logical v = user(col R logical \<mapsto> v)"

definition string_length :: "user_repo \<Rightarrow> string \<Rightarrow> int option" where
  "string_length R logical =
     (case string_lengths R (col R logical) of [] \<Rightarrow> None | n # ns \<Rightarrow> Some (foldl min n ns))"

definition exceeds_length :: "user_repo \<Rightarrow> string \<Rightarrow> pyval \<Rightarrow> int option" where
  "exceeds_length R logical v =
     (case v of
        VStr s \<Rightarrow>
          (let t = (if col R logical = col R ''email'' then canon s else s)
           in case string_length R logical of
                None \<Rightarrow> None | Some limit \<Rightarrow> if int (length t) > limit then Some limit else None)
      | _ \<Rightarrow> None)"

section \<open>Reads\<close>

definition coerce_id :: "user_repo \<Rightarrow> pyval \<Rightarrow> pyval option" where
  "coerce_id R uid =
     (case id_python_type R of
        None \<Rightarrow> Some uid
      | Some (is_type, convert) \<Rightarrow> if is_type uid then Some uid else convert uid)"

text \<open>\<open>scalar_one_or_none\<close>: the single matching row, none, or an error when there are several.\<close>

definition scalar_one_or_none :: "row list \<Rightarrow> (database, row option) prog" where
  "scalar_one_or_none rs =
     (case rs of [] \<Rightarrow> ret None | [r] \<Rightarrow> ret (Some r) | _ \<Rightarrow> raise (BackendError ''MultipleResultsFound''))"

definition select_where :: "(row \<Rightarrow> bool) \<Rightarrow> (database, row option) prog" where
  "select_where P = bind (gets (\<lambda>d. filter P (rows d))) scalar_one_or_none"

text \<open>\<open>_attr\<close> on a name the model does not have raises.\<close>

definition with_attr :: "user_repo \<Rightarrow> string \<Rightarrow> ('s, 'a) prog \<Rightarrow> ('s, 'a) prog" where
  "with_attr R logical m = (if has_col R logical then m else raise (AttributeError (col R logical)))"

definition get_by_id :: "user_repo \<Rightarrow> pyval \<Rightarrow> (database, row option) prog" where
  "get_by_id R uid =
     (case coerce_id R uid of
        None \<Rightarrow> ret None
      | Some c \<Rightarrow> with_attr R ''id'' (select_where (\<lambda>r. r (col R ''id'') = Some c)))"

definition get_by_field :: "user_repo \<Rightarrow> string \<Rightarrow> pyval \<Rightarrow> (database, row option) prog" where
  "get_by_field R logical v =
     (let w = (case v of VStr s \<Rightarrow> if logical = ''email'' then VStr (canon s) else v | _ \<Rightarrow> v)
      in with_attr R logical (select_where (\<lambda>r. r (col R logical) = Some w)))"

definition get_by_email :: "user_repo \<Rightarrow> string \<Rightarrow> (database, row option) prog" where
  "get_by_email R email = get_by_field R ''email'' (VStr email)"

definition get_by_username :: "user_repo \<Rightarrow> string \<Rightarrow> (database, row option) prog" where
  "get_by_username R username = get_by_field R ''username'' (VStr username)"

fun resolve_login_in :: "user_repo \<Rightarrow> string \<Rightarrow> string list \<Rightarrow> (database, row option) prog" where
  "resolve_login_in R identifier [] = ret None"
| "resolve_login_in R identifier (f # fs) =
     bind (get_by_field R f (VStr identifier)) (\<lambda>user.
     if user \<noteq> None then ret user else resolve_login_in R identifier fs)"

definition resolve_login :: "user_repo \<Rightarrow> string \<Rightarrow> (database, row option) prog" where
  "resolve_login R identifier = resolve_login_in R identifier (login_fields R)"

definition get_by_oauth :: "user_repo \<Rightarrow> string \<Rightarrow> string \<Rightarrow> (database, row option) prog" where
  "get_by_oauth R provider uid =
     (let field = provider @ ''_id''
      in if \<not> has_col R field then ret None
         else select_where (\<lambda>r. r (col R field) = Some (VStr uid)))"

definition username_exists :: "user_repo \<Rightarrow> string \<Rightarrow> (database, bool) prog" where
  "username_exists R username = bind (get_by_username R username) (\<lambda>u. ret (u \<noteq> None))"

section \<open>What a signup may set\<close>

definition with_columns :: "user_repo \<Rightarrow> string list \<Rightarrow> string list" where
  "with_columns R fs = fs @ map (col R) fs"

definition rv_names :: "user_repo \<Rightarrow> string list" where
  "rv_names R = (case recovery_verified_col R of None \<Rightarrow> [] | Some rv \<Rightarrow> [rv, col R rv])"

definition gated_names :: "user_repo \<Rightarrow> string list" where
  "gated_names R = with_columns R REGISTRATION_GATED_FIELDS @ rv_names R"

definition allowed_register_names :: "user_repo \<Rightarrow> string list" where
  "allowed_register_names R = with_columns R (REGISTRATION_ALLOWED_FIELDS @ register_extra_fields R)"

definition gated_register_fields :: "user_repo \<Rightarrow> string list \<Rightarrow> string list" where
  "gated_register_fields R fs = filter (\<lambda>f. f \<in> set (gated_names R)) fs"

definition droppable_register_fields :: "user_repo \<Rightarrow> string list \<Rightarrow> string list" where
  "droppable_register_fields R fs =
     filter (\<lambda>f. f \<notin> set (allowed_register_names R) \<and> f \<notin> set (gated_names R) \<and> has_col R f) fs"

definition filter_registration_data :: "user_repo \<Rightarrow> (string \<times> pyval) list \<Rightarrow> (string \<times> pyval) list" where
  "filter_registration_data R data =
     filter (\<lambda>(k, v). k \<in> set (allowed_register_names R) \<and> k \<notin> set (gated_names R)) data"

definition contract_names :: "user_repo \<Rightarrow> string list" where
  "contract_names R = with_columns R LOGICAL_FIELDS @ rv_names R"

text \<open>The second component is the set of keys already warned about.\<close>

definition filter_provisioning_data ::
  "user_repo \<Rightarrow> string list \<Rightarrow> (string \<times> pyval) list \<Rightarrow> (string \<times> pyval) list \<times> string list" where
  "filter_provisioning_data R warned data =
     (filter (\<lambda>(k, v). k \<notin> set (contract_names R)) data,
      warned @ filter (\<lambda>k. k \<in> set (contract_names R) \<and> k \<notin> set warned) (map fst data))"

section \<open>Writes\<close>

definition create_kwargs :: "user_repo \<Rightarrow> (string \<times> pyval) list \<Rightarrow> row" where
  "create_kwargs R data =
     (let kw = foldl (\<lambda>m (k, v). if col R k \<in> set (columns R) then m(col R k \<mapsto> v) else m) Map.empty data;
          ec = col R ''email''
      in case kw ec of Some (VStr s) \<Rightarrow> kw(ec \<mapsto> VStr (canon s)) | _ \<Rightarrow> kw)"

definition create_user :: "user_repo \<Rightarrow> (string \<times> pyval) list \<Rightarrow> (database, row) prog" where
  "create_user R data =
     bind (gets rows) (\<lambda>rs.
     case insert_row R rs (create_kwargs R data) of
       Inl e \<Rightarrow> raise e
     | Inr r \<Rightarrow> bind (modifies (\<lambda>d. d\<lparr>rows := rs @ [r]\<rparr>)) (\<lambda>_. ret r))"

definition pk :: "user_repo \<Rightarrow> row \<Rightarrow> pyval" where
  "pk R user = get_field R user ''id'' VNone"

definition same_id :: "user_repo \<Rightarrow> row \<Rightarrow> row \<Rightarrow> bool" where
  "same_id R user r \<longleftrightarrow> r (col R ''id'') = Some (pk R user)"

text \<open>One \<open>UPDATE\<close>: the rows that match are rewritten; the result is the row count.\<close>

definition update_where :: "(row \<Rightarrow> bool) \<Rightarrow> (row \<Rightarrow> row) \<Rightarrow> (database, int) prog" where
  "update_where P f =
     bind (gets (\<lambda>d. int (length (filter P (rows d))))) (\<lambda>n.
     bind (modifies (\<lambda>d. d\<lparr>rows := map (\<lambda>r. if P r then f r else r) (rows d)\<rparr>)) (\<lambda>_. ret n))"

definition refresh :: "user_repo \<Rightarrow> row \<Rightarrow> (database, row) prog" where
  "refresh R user =
     bind (gets (\<lambda>d. filter (same_id R user) (rows d))) (\<lambda>rs.
     case rs of [] \<Rightarrow> raise (BackendError ''InvalidRequestError'') | r # _ \<Rightarrow> ret r)"

definition apply_fields :: "user_repo \<Rightarrow> (string \<times> pyval) list \<Rightarrow> row \<Rightarrow> row" where
  "apply_fields R data user =
     foldl (\<lambda>u (k, v).
       let w = (case v of VStr s \<Rightarrow> if k = ''email'' then VStr (canon s) else v | _ \<Rightarrow> v)
       in if has_col R k then set_field R u k w else u) user data"

definition update_user :: "user_repo \<Rightarrow> row \<Rightarrow> (string \<times> pyval) list \<Rightarrow> (database, row) prog" where
  "update_user R user data =
     bind (update_where (same_id R user) (apply_fields R data)) (\<lambda>_. refresh R user)"

definition is_superuser :: "user_repo \<Rightarrow> row \<Rightarrow> bool" where
  "is_superuser R user = truthy (get_field R user ''is_superuser'' (VBool False))"

definition email_verified :: "user_repo \<Rightarrow> row \<Rightarrow> bool" where
  "email_verified R user = truthy (get_field R user ''email_verified'' (VBool False))"

definition recovery_verified :: "user_repo \<Rightarrow> row \<Rightarrow> bool" where
  "recovery_verified R user =
     (case recovery_verified_col R of
        None \<Rightarrow> False
      | Some c \<Rightarrow> has_col R c \<and> truthy (get_field R user c (VBool False)))"

definition mark_recovery_verified :: "user_repo \<Rightarrow> row \<Rightarrow> (database, row) prog" where
  "mark_recovery_verified R user =
     (case recovery_verified_col R of None \<Rightarrow> ret user | Some c \<Rightarrow> update_user R user [(c, VBool True)])"

definition is_active :: "user_repo \<Rightarrow> row \<Rightarrow> bool" where
  "is_active R user = (if \<not> has_col R ''is_active'' then True else truthy (get_field R user ''is_active'' (VBool True)))"

definition int_value :: "pyval \<Rightarrow> int" where
  "int_value v = (case v of VInt n \<Rightarrow> n | VBool b \<Rightarrow> if b then 1 else 0 | _ \<Rightarrow> 0)"

definition row_token_version :: "user_repo \<Rightarrow> row \<Rightarrow> int" where
  "row_token_version R user = int_value (get_field R user ''token_version'' (VInt 0))"

text \<open>
  \<open>SET token_version = token_version + 1\<close>: on a null the database keeps the null.
\<close>

definition increment_token_version :: "user_repo \<Rightarrow> row \<Rightarrow> (database, row) prog" where
  "increment_token_version R user =
     (if \<not> has_col R ''token_version'' then ret user
      else bind (update_where (same_id R user) (\<lambda>r.
             case r (col R ''token_version'') of
               Some (VInt n) \<Rightarrow> r(col R ''token_version'' \<mapsto> VInt (n + 1)) | _ \<Rightarrow> r)) (\<lambda>_.
           refresh R user))"

definition older_step :: "user_repo \<Rightarrow> int \<Rightarrow> row \<Rightarrow> bool" where
  "older_step R step r \<longleftrightarrow>
     (case r (col R ''totp_last_step'') of Some (VInt n) \<Rightarrow> n < step | Some VNone \<Rightarrow> True | None \<Rightarrow> True | _ \<Rightarrow> False)"

definition claim_totp_step :: "user_repo \<Rightarrow> row \<Rightarrow> int \<Rightarrow> (database, row \<times> bool) prog" where
  "claim_totp_step R user step =
     with_attr R ''totp_last_step'' (
     bind (update_where (\<lambda>r. same_id R user r \<and> older_step R step r)
             (\<lambda>r. r(col R ''totp_last_step'' \<mapsto> VInt step))) (\<lambda>n.
     bind (refresh R user) (\<lambda>u. ret (u, n \<noteq> 0))))"

definition update_if_unchanged :: "user_repo \<Rightarrow> row \<Rightarrow> (string \<times> pyval) list \<Rightarrow> string \<Rightarrow> pyval \<Rightarrow>
    (database, row \<times> bool) prog" where
  "update_if_unchanged R user values field expected =
     with_attr R field (
     case filter (\<lambda>(k, v). \<not> has_col R k) values of
       (k, v) # _ \<Rightarrow> raise (AttributeError (col R k))
     | [] \<Rightarrow>
         bind (update_where (\<lambda>r. same_id R user r \<and> get_field R r field VNone = expected)
                 (\<lambda>r. foldl (\<lambda>u (k, v). set_field R u k v) r values)) (\<lambda>n.
         bind (refresh R user) (\<lambda>u. ret (u, n \<noteq> 0))))"

definition to_dict :: "user_repo \<Rightarrow> row \<Rightarrow> (string \<times> pyval) list" where
  "to_dict R user =
     map (\<lambda>f. (f, get_field R user f VNone))
       (filter (\<lambda>f. has_col R f \<and> f \<notin> set HOOK_HIDDEN_FIELDS) LOGICAL_FIELDS)"

section \<open>One row per user\<close>

definition user_row :: "user_repo \<Rightarrow> pyval \<Rightarrow> database \<Rightarrow> row option" where
  "user_row R uid d = (case filter (\<lambda>r. r (col R ''id'') = Some uid) (rows d) of [r] \<Rightarrow> Some r | _ \<Rightarrow> None)"

lemma user_row_Some: "user_row R uid d = Some r \<longleftrightarrow> filter (\<lambda>r. r (col R ''id'') = Some uid) (rows d) = [r]"
  by (auto simp: user_row_def split: list.splits)

lemma user_row_id: "user_row R uid d = Some r \<Longrightarrow> r (col R ''id'') = Some uid"
proof -
  assume "user_row R uid d = Some r"
  then have "r \<in> set (filter (\<lambda>r. r (col R ''id'') = Some uid) (rows d))" by (simp add: user_row_Some del: set_filter)
  then show ?thesis by simp
qed

lemma pk_user_row: "user_row R uid d = Some r \<Longrightarrow> pk R r = uid"
  by (simp add: pk_def get_field_def user_row_id)

lemma filter_map_if:
  assumes "\<And>r. P r \<Longrightarrow> K (f r) = K r"
  shows "filter K (map (\<lambda>r. if P r then f r else r) rs) = map (\<lambda>r. if P r then f r else r) (filter K rs)"
  using assms by (induction rs) auto

lemma update_run:
  assumes "user_row R uid d = Some r" and "pk R user = uid"
    and "\<And>r. P r \<longleftrightarrow> same_id R user r \<and> Q r" and "\<And>r. f r (col R ''id'') = r (col R ''id'')"
  shows "fst (update_where P f d) = Inr (if Q r then 1 else 0)"
    and "user_row R uid (snd (update_where P f d)) = Some (if Q r then f r else r)"
    and "v \<noteq> uid \<Longrightarrow> user_row R v (snd (update_where P f d)) = user_row R v d"
proof -
  let ?I = "\<lambda>r. r (col R ''id'') = Some uid"
  have P: "P = (\<lambda>r. ?I r \<and> Q r)" using assms(2,3) by (auto simp: same_id_def)
  have "filter P (rows d) = filter Q [r]"
    unfolding assms(1) [unfolded user_row_Some, symmetric] by (simp add: P)
  then show "fst (update_where P f d) = Inr (if Q r then 1 else 0)"
    using assms(1) by (simp add: update_where_def run_simps user_row_Some)
  have "filter ?I (rows (snd (update_where P f d))) = map (\<lambda>r. if P r then f r else r) (filter ?I (rows d))"
    by (simp add: update_where_def run_simps) (subst filter_map_if, simp_all add: assms(4))
  moreover have "P r = Q r" using user_row_id [OF assms(1)] by (simp add: P)
  ultimately show "user_row R uid (snd (update_where P f d)) = Some (if Q r then f r else r)"
    using assms(1) by (auto simp: user_row_Some)
  assume v: "v \<noteq> uid"
  have "filter (\<lambda>r. r (col R ''id'') = Some v) (rows (snd (update_where P f d)))
      = map (\<lambda>r. if P r then f r else r) (filter (\<lambda>r. r (col R ''id'') = Some v) (rows d))"
    by (simp add: update_where_def run_simps) (subst filter_map_if, simp_all add: assms(4))
  also have "\<dots> = map (\<lambda>r. r) (filter (\<lambda>r. r (col R ''id'') = Some v) (rows d))"
    by (rule map_cong) (auto simp: P v)
  finally show "user_row R v (snd (update_where P f d)) = user_row R v d" by (simp add: user_row_def)
qed

lemma refresh_run: "user_row R uid d = Some r \<Longrightarrow> pk R user = uid \<Longrightarrow> refresh R user d = (Inr r, d)"
  by (simp add: refresh_def run_simps same_id_def [abs_def] user_row_Some)

lemma get_by_id_run:
  "has_col R ''id'' \<Longrightarrow> coerce_id R uid = Some c \<Longrightarrow> user_row R c d = Some r \<Longrightarrow> get_by_id R uid d = (Inr (Some r), d)"
  by (simp add: get_by_id_def with_attr_def select_where_def scalar_one_or_none_def run_simps user_row_Some)

lemma claim_run:
  assumes "user_row R uid d = Some r" and "pk R user = uid" and "col R ''totp_last_step'' \<noteq> col R ''id''" and "has_col R ''totp_last_step''"
    and "r' = (if older_step R step r then r(col R ''totp_last_step'' \<mapsto> VInt step) else r)"
  shows "fst (claim_totp_step R user step d) = Inr (r', older_step R step r)"
    and "user_row R uid (snd (claim_totp_step R user step d)) = Some r'"
    and "v \<noteq> uid \<Longrightarrow> user_row R v (snd (claim_totp_step R user step d)) = user_row R v d"
proof -
  let ?P = "\<lambda>r. same_id R user r \<and> older_step R step r" and ?f = "\<lambda>r :: row. r(col R ''totp_last_step'' \<mapsto> VInt step)"
  note up = update_run [OF assms(1,2), of ?P "older_step R step" ?f]
  have row: "user_row R uid (snd (update_where ?P ?f d)) = Some r'"
    using up(2) assms(3,5) by simp
  note rf = refresh_run [OF row assms(2)]
  show "fst (claim_totp_step R user step d) = Inr (r', older_step R step r)"
    "user_row R uid (snd (claim_totp_step R user step d)) = Some r'"
    "v \<noteq> uid \<Longrightarrow> user_row R v (snd (claim_totp_step R user step d)) = user_row R v d"
    using up assms(3,4) rf row by (auto simp: claim_totp_step_def with_attr_def run_simps)
qed

lemma cas_run:
  assumes "user_row R uid d = Some r" and "pk R user = uid" and "\<forall>(k, v) \<in> set vs. has_col R k \<and> col R k \<noteq> col R ''id''"
    and "has_col R field"
    and "hit \<longleftrightarrow> get_field R r field VNone = expected"
    and "r' = (if hit then foldl (\<lambda>u (k, v). set_field R u k v) r vs else r)"
  shows "fst (update_if_unchanged R user vs field expected d) = Inr (r', hit)"
    and "user_row R uid (snd (update_if_unchanged R user vs field expected d)) = Some r'"
    and "v \<noteq> uid \<Longrightarrow> user_row R v (snd (update_if_unchanged R user vs field expected d)) = user_row R v d"
proof -
  let ?P = "\<lambda>r. same_id R user r \<and> get_field R r field VNone = expected"
  let ?f = "\<lambda>r. foldl (\<lambda>u (k, v). set_field R u k v) r vs"
  have some: "filter (\<lambda>(k, v). \<not> has_col R k) vs = []"
    using assms(3) by (auto simp: filter_empty_conv)
  have keep: "?f r (col R ''id'') = r (col R ''id'')" for r
    using assms(3) by (induction vs arbitrary: r) (auto simp: set_field_def)
  note up = update_run [OF assms(1,2), of ?P "\<lambda>r. get_field R r field VNone = expected" ?f, OF _ keep]
  have row: "user_row R uid (snd (update_where ?P ?f d)) = Some r'"
    using up(2) assms(5,6) by simp
  note rf = refresh_run [OF row assms(2)]
  show "fst (update_if_unchanged R user vs field expected d) = Inr (r', hit)"
    "user_row R uid (snd (update_if_unchanged R user vs field expected d)) = Some r'"
    "v \<noteq> uid \<Longrightarrow> user_row R v (snd (update_if_unchanged R user vs field expected d)) = user_row R v d"
    using up rf row assms(4,5) some by (auto simp: update_if_unchanged_def with_attr_def run_simps)
qed

lemma update_user_run:
  assumes "user_row R uid d = Some r" and "pk R user = uid" and "\<forall>(k, v) \<in> set data. col R k \<noteq> col R ''id''"
  shows "update_user R user data d
      = (Inr (apply_fields R data r), snd (update_where (same_id R user) (apply_fields R data) d))"
    and "user_row R uid (snd (update_user R user data d)) = Some (apply_fields R data r)"
    and "v \<noteq> uid \<Longrightarrow> user_row R v (snd (update_user R user data d)) = user_row R v d"
proof -
  have keep: "apply_fields R data r (col R ''id'') = r (col R ''id'')" for r
    unfolding apply_fields_def using assms(3)
    by (induction data arbitrary: r) (auto simp: set_field_def Let_def)
  note up = update_run [OF assms(1,2), of "same_id R user" "\<lambda>_. True" "apply_fields R data", OF _ keep]
  note row = up(2) [simplified]
  note rf = refresh_run [OF row assms(2)]
  show "update_user R user data d
      = (Inr (apply_fields R data r), snd (update_where (same_id R user) (apply_fields R data) d))"
    using up(1) rf by (simp add: update_user_def run_simps)
  then show "user_row R uid (snd (update_user R user data d)) = Some (apply_fields R data r)"
    "v \<noteq> uid \<Longrightarrow> user_row R v (snd (update_user R user data d)) = user_row R v d"
    using row up(3) by simp_all
qed

lemma increment_run:
  assumes "user_row R uid d = Some r" and "pk R user = uid" and "has_col R ''token_version''"
    and "col R ''token_version'' \<noteq> col R ''id''" and "r (col R ''token_version'') = Some (VInt n)"
  shows "fst (increment_token_version R user d) = Inr (r(col R ''token_version'' \<mapsto> VInt (n + 1)))"
    and "user_row R uid (snd (increment_token_version R user d)) = Some (r(col R ''token_version'' \<mapsto> VInt (n + 1)))"
    and "v \<noteq> uid \<Longrightarrow> user_row R v (snd (increment_token_version R user d)) = user_row R v d"
proof -
  let ?f = "\<lambda>r :: row. case r (col R ''token_version'') of
      Some (VInt n) \<Rightarrow> r(col R ''token_version'' \<mapsto> VInt (n + 1)) | _ \<Rightarrow> r"
  have keep: "?f r (col R ''id'') = r (col R ''id'')" for r
    using assms(4) by (auto split: option.splits pyval.splits)
  note up = update_run [OF assms(1,2), of "same_id R user" "\<lambda>_. True" ?f, OF _ keep]
  have row: "user_row R uid (snd (update_where (same_id R user) ?f d)) = Some (r(col R ''token_version'' \<mapsto> VInt (n + 1)))"
    using up(2) assms(5) by simp
  note rf = refresh_run [OF row assms(2)]
  show "fst (increment_token_version R user d) = Inr (r(col R ''token_version'' \<mapsto> VInt (n + 1)))"
    "user_row R uid (snd (increment_token_version R user d)) = Some (r(col R ''token_version'' \<mapsto> VInt (n + 1)))"
    "v \<noteq> uid \<Longrightarrow> user_row R v (snd (increment_token_version R user d)) = user_row R v d"
    using up(1,3) rf row assms(3) by (simp_all add: increment_token_version_def run_simps)
qed

section \<open>What a new row holds\<close>

definition canonical_value :: "user_repo \<Rightarrow> string \<Rightarrow> pyval \<Rightarrow> pyval" where
  "canonical_value R c v = (case v of VStr s \<Rightarrow> if c = col R ''email'' then VStr (canon s) else v | _ \<Rightarrow> v)"

abbreviation put_kw :: "user_repo \<Rightarrow> row \<Rightarrow> string \<times> pyval \<Rightarrow> row" where
  "put_kw R m e \<equiv> (case e of (k, v) \<Rightarrow> if col R k \<in> set (columns R) then m(col R k \<mapsto> v) else m)"

lemma create_kwargs_fold:
  "create_kwargs R data c = map_option (canonical_value R c) (foldl (put_kw R) Map.empty data c)"
proof (cases "c = col R ''email''")
  case False
  then have "canonical_value R c = (\<lambda>v. v)" by (auto simp: canonical_value_def fun_eq_iff split: pyval.splits)
  with False show ?thesis by (auto simp: create_kwargs_def Let_def option.map_ident split: option.splits pyval.splits)
qed (auto simp: create_kwargs_def Let_def canonical_value_def split: option.splits pyval.splits)

lemma put_kw_fold_other: "\<forall>(k, v) \<in> set data. col R k \<noteq> c \<Longrightarrow> foldl (put_kw R) m data c = m c"
  by (induction data arbitrary: m) auto

lemma put_kw_fold_one:
  "distinct (map (col R) (map fst data)) \<Longrightarrow> (k, v) \<in> set data \<Longrightarrow> has_col R k \<Longrightarrow>
   foldl (put_kw R) m data (col R k) = Some v"
proof (induction data arbitrary: m)
  case (Cons e data)
  show ?case
  proof (cases "e = (k, v)")
    case True
    then have "\<forall>(k', v') \<in> set data. col R k' \<noteq> col R k" using Cons.prems(1) by force
    then show ?thesis using True Cons.prems(3) by (auto simp: put_kw_fold_other has_col_def)
  next
    case False
    then show ?thesis using Cons by auto
  qed
qed simp

lemma create_kwargs_none:
  "\<forall>(k, v) \<in> set data. col R k \<noteq> c \<Longrightarrow> create_kwargs R data c = None"
  by (simp add: create_kwargs_fold put_kw_fold_other)

lemma col_mapped: "col R k = k \<or> (k, col R k) \<in> set (column_map R)"
  by (auto simp: col_def split: option.splits dest: map_of_SomeD)

text \<open>
  What a signup must never set, written out apart from the code's own tables: the privileged
  logical fields, the flag that records a verified recovery address, and the columns the
  deployment's map sends them to. The contract is these and the two fields a signup may set.
\<close>

definition under_a_name_of :: "user_repo \<Rightarrow> string list \<Rightarrow> string \<Rightarrow> bool" where
  "under_a_name_of R fs c \<longleftrightarrow> (\<exists>f \<in> set fs. c = f \<or> c = col R f)"

definition recovery_flag :: "user_repo \<Rightarrow> string list" where
  "recovery_flag R = (case recovery R of None \<Rightarrow> []
     | Some f \<Rightarrow> [if f = ''email'' then ''email_verified'' else f @ ''_verified''])"

definition privileged :: "user_repo \<Rightarrow> string \<Rightarrow> bool" where
  "privileged R c \<longleftrightarrow> under_a_name_of R
     ([''id'', ''hashed_password'', ''is_active'', ''is_superuser'', ''email_verified'', ''token_version'',
       ''oauth_provider'', ''google_id'', ''github_id'', ''oauth_created_at'', ''oauth_updated_at'',
       ''totp_secret_encrypted'', ''totp_confirmed_at'', ''totp_last_step'', ''mfa_recovery_codes'']
      @ recovery_flag R) c"

definition in_contract :: "user_repo \<Rightarrow> string \<Rightarrow> bool" where
  "in_contract R c \<longleftrightarrow> privileged R c \<or> under_a_name_of R [''email'', ''username''] c"

lemma gated_names_privileged: "c \<in> set (gated_names R) \<longleftrightarrow> privileged R c"
  by (cases "recovery R") (auto simp: gated_names_def with_columns_def rv_names_def recovery_verified_col_def
      REGISTRATION_GATED_FIELDS_def REGISTRATION_ALLOWED_FIELDS_def LOGICAL_FIELDS_def privileged_def
      under_a_name_of_def recovery_flag_def)

lemma contract_names_in_contract: "c \<in> set (contract_names R) \<longleftrightarrow> in_contract R c"
  by (cases "recovery R") (auto simp: contract_names_def with_columns_def rv_names_def recovery_verified_col_def
      LOGICAL_FIELDS_def in_contract_def privileged_def under_a_name_of_def recovery_flag_def)

lemma col_stays_outside:
  "\<forall>(k, c) \<in> set (column_map R). \<not> P k \<longrightarrow> \<not> P c \<Longrightarrow> \<not> P k \<Longrightarrow> \<not> P (col R k)"
  using col_mapped [of R k] by auto

text \<open>
  C36. Mass assignment. A column is privileged when it is, under its logical or its mapped name,
  one of the fifteen contract fields other than \<open>email\<close> and \<open>username\<close>, or the
  verified flag of the recovery field. In a deployment whose column map sends no unprivileged
  name to a privileged column (and no name outside the contract to a column of the contract),
  whatever a client submits at signup, and whatever names \<open>register_extra_fields\<close> opts
  in, no privileged name passes the filter and the row inserted from the filtered data sets no
  privileged column; neither can the application's provisioning data set any column of the
  contract, \<open>email\<close> and \<open>username\<close> included. What is allowed does arrive:
  when the submitted names denote distinct columns, each allowed, unprivileged name that has a
  column sets it to the submitted value, an email in canonical form.
\<close>

theorem signup_never_sets_privileged:
  assumes "\<forall>(k, c) \<in> set (column_map R). \<not> privileged R k \<longrightarrow> \<not> privileged R c"
    and "\<forall>(k, c) \<in> set (column_map R). \<not> in_contract R k \<longrightarrow> \<not> in_contract R c"
  shows "(\<forall>(k, v) \<in> set (filter_registration_data R data). \<not> privileged R k)
    \<and> (\<forall>c. privileged R c \<longrightarrow> create_kwargs R (filter_registration_data R data) c = None)
    \<and> (\<forall>c. in_contract R c \<longrightarrow> create_kwargs R (fst (filter_provisioning_data R warned extra)) c = None)
    \<and> (\<forall>(k, v) \<in> set data. distinct (map (col R) (map fst data)) \<longrightarrow> has_col R k \<longrightarrow>
        under_a_name_of R ([''email'', ''username''] @ register_extra_fields R) k \<longrightarrow> \<not> privileged R k \<longrightarrow>
        create_kwargs R (filter_registration_data R data) (col R k) = Some (canonical_value R (col R k) v))"
proof (intro conjI)
  show "\<forall>(k, v) \<in> set (filter_registration_data R data). \<not> privileged R k"
    by (auto simp: filter_registration_data_def gated_names_privileged)
  show "\<forall>c. privileged R c \<longrightarrow> create_kwargs R (filter_registration_data R data) c = None"
    using col_stays_outside [OF assms(1)]
    by (intro allI impI create_kwargs_none) (auto simp: filter_registration_data_def gated_names_privileged)
  show "\<forall>c. in_contract R c \<longrightarrow> create_kwargs R (fst (filter_provisioning_data R warned extra)) c = None"
    using col_stays_outside [OF assms(2)]
    by (intro allI impI create_kwargs_none) (auto simp: filter_provisioning_data_def contract_names_in_contract)
  have "distinct (map (col R) (map fst (filter_registration_data R data)))" if "distinct (map (col R) (map fst data))"
    using that unfolding filter_registration_data_def by (induction data) auto
  moreover have "k \<in> set (allowed_register_names R) \<longleftrightarrow>
      under_a_name_of R ([''email'', ''username''] @ register_extra_fields R) k" for k
    by (auto simp: allowed_register_names_def with_columns_def under_a_name_of_def REGISTRATION_ALLOWED_FIELDS_def)
  ultimately show "\<forall>(k, v) \<in> set data. distinct (map (col R) (map fst data)) \<longrightarrow> has_col R k \<longrightarrow>
        under_a_name_of R ([''email'', ''username''] @ register_extra_fields R) k \<longrightarrow> \<not> privileged R k \<longrightarrow>
        create_kwargs R (filter_registration_data R data) (col R k) = Some (canonical_value R (col R k) v)"
    by (auto simp: create_kwargs_fold put_kw_fold_one filter_registration_data_def gated_names_privileged)
qed

definition demo_repo :: user_repo where
  "demo_repo = \<lparr>columns = [''id'', ''email'', ''is_admin'', ''token_version'', ''totp_last_step''],
     column_map = [(''is_superuser'', ''is_admin'')], register_extra_fields = [''is_admin''],
     login_fields = [''email''], recovery = Some ''email'', column_unique = (\<lambda>c. c = ''email''),
     unique_constraints = [], table_indexes = [], string_lengths = (\<lambda>_. []), id_python_type = None,
     insert_row = (\<lambda>rs kw. if (\<exists>r \<in> set rs. r ''email'' = kw ''email'') then Inl (BackendError ''IntegrityError'') else Inr kw)\<rparr>"

definition demo_row :: "int \<Rightarrow> string \<Rightarrow> int \<Rightarrow> row" where
  "demo_row uid email ver = [''id'' \<mapsto> VInt uid, ''email'' \<mapsto> VStr email, ''is_admin'' \<mapsto> VBool False,
     ''token_version'' \<mapsto> VInt ver, ''totp_last_step'' \<mapsto> VNone]"

theorem signup_never_sets_privileged_witness:
  "create_kwargs demo_repo (filter_registration_data demo_repo [(''email'', VStr ''a''), (''is_admin'', VBool True)])
     ''is_admin'' = None
   \<and> create_kwargs demo_repo (filter_registration_data demo_repo [(''email'', VStr ''a''), (''is_admin'', VBool True)])
     ''email'' = Some (VStr (canon ''a''))"
  using signup_never_sets_privileged [of demo_repo "[(''email'', VStr ''a''), (''is_admin'', VBool True)]" "[]" "[]"]
  by (auto simp: demo_repo_def privileged_def in_contract_def under_a_name_of_def recovery_flag_def col_def
      has_col_def canonical_value_def)

section \<open>Finding a user by its identifier\<close>

definition unique_in :: "string \<Rightarrow> row list \<Rightarrow> bool" where
  "unique_in c rs \<longleftrightarrow> (\<forall>v. v \<noteq> VNone \<longrightarrow> length (filter (\<lambda>r. r c = Some v) rs) \<le> 1)"

definition login_value :: "string \<Rightarrow> string \<Rightarrow> pyval" where
  "login_value f s = VStr (if f = ''email'' then canon s else s)"

text \<open>The row a login identifier denotes: that of the first login field some row matches.\<close>

definition login_row :: "user_repo \<Rightarrow> string \<Rightarrow> row list \<Rightarrow> row option" where
  "login_row R s rs =
     find (\<lambda>_. True) (concat (map (\<lambda>f. filter (\<lambda>r. r (col R f) = Some (login_value f s)) rs) (login_fields R)))"

lemma unique_filter:
  "unique_in c rs \<Longrightarrow> v \<noteq> VNone \<Longrightarrow>
   filter (\<lambda>r. r c = Some v) rs = [] \<or> (\<exists>r. filter (\<lambda>r. r c = Some v) rs = [r])"
  by (cases "filter (\<lambda>r. r c = Some v) rs" rule: remdups_adj.cases) (auto simp: unique_in_def)

lemma get_by_field_run:
  assumes "has_col R f" and "unique_in (col R f) (rows d)"
  shows "get_by_field R f (VStr s) d
      = (Inr (case filter (\<lambda>r. r (col R f) = Some (login_value f s)) (rows d) of [] \<Rightarrow> None | r # _ \<Rightarrow> Some r), d)"
  using unique_filter [OF assms(2), of "login_value f s"] assms(1)
  by (auto simp: get_by_field_def with_attr_def select_where_def scalar_one_or_none_def run_simps login_value_def)

lemma resolve_login_in_run:
  "\<forall>f \<in> set fs. has_col R f \<and> unique_in (col R f) (rows d) \<Longrightarrow>
   resolve_login_in R s fs d
     = (Inr (find (\<lambda>_. True) (concat (map (\<lambda>f. filter (\<lambda>r. r (col R f) = Some (login_value f s)) (rows d)) fs))), d)"
  by (induction fs) (auto simp: get_by_field_run run_simps split: list.splits)

text \<open>
  The login identifier. Where every login field is a unique column of the model,
  resolving an identifier always answers, leaves the table alone, and denotes the row of the
  first login field that matches. A user who has just been created is found under every
  spelling of the email that has the same canonical form, as the database accepts the row with
  the submitted columns and keeps emails unique.
\<close>

theorem login_resolution:
  assumes "\<forall>f \<in> set (login_fields R). has_col R f \<and> unique_in (col R f) (rows d)"
  shows "resolve_login R s d = (Inr (login_row R s (rows d)), d)
    \<and> (\<forall>data r d' e e'. create_user R data d = (Inr r, d') \<longrightarrow> has_col R ''email'' \<longrightarrow>
         create_kwargs R data \<subseteq>\<^sub>m r \<longrightarrow> unique_in (col R ''email'') (rows d') \<longrightarrow>
         create_kwargs R data (col R ''email'') = Some (VStr (canon e)) \<longrightarrow> canon e' = canon e \<longrightarrow>
         get_by_email R e' d' = (Inr (Some r), d'))"
proof (intro conjI allI impI)
  show "resolve_login R s d = (Inr (login_row R s (rows d)), d)"
    using assms by (simp add: resolve_login_def resolve_login_in_run login_row_def)
  fix data r d' e e'
  let ?v = "VStr (canon e')"
  assume new: "create_user R data d = (Inr r, d')"
    and has: "has_col R ''email''" and kw: "create_kwargs R data \<subseteq>\<^sub>m r"
    and un: "unique_in (col R ''email'') (rows d')"
    and e: "create_kwargs R data (col R ''email'') = Some (VStr (canon e))" "canon e' = canon e"
  have rows: "rows d' = rows d @ [r]"
    using new by (auto simp: create_user_def run_simps split: sum.splits)
  have r: "r (col R ''email'') = Some ?v" using kw e unfolding map_le_def by (metis domI)
  then have "filter (\<lambda>r. r (col R ''email'') = Some ?v) (rows d') = [r]"
    using unique_filter [OF un, of ?v] by (simp add: rows)
  then show "get_by_email R e' d' = (Inr (Some r), d')"
    using get_by_field_run [OF has un, of e'] by (simp add: get_by_email_def login_value_def)
qed

theorem login_resolution_witness:
  "resolve_login demo_repo ''a'' \<lparr>rows = [demo_row 1 ''a'' 0]\<rparr>
     = (Inr (Some (demo_row 1 ''a'' 0)), \<lparr>rows = [demo_row 1 ''a'' 0]\<rparr>)"
proof -
  have "\<forall>f \<in> set (login_fields demo_repo). has_col demo_repo f \<and> unique_in (col demo_repo f) (rows \<lparr>rows = [demo_row 1 ''a'' 0]\<rparr>)"
    by (simp add: demo_repo_def has_col_def col_def unique_in_def)
  moreover have "login_row demo_repo ''a'' [demo_row 1 ''a'' 0] = Some (demo_row 1 ''a'' 0)"
    by (simp add: login_row_def demo_repo_def col_def login_value_def demo_row_def
        strip_def lower_def lower_char_def is_space_def)
  ultimately show ?thesis
    using login_resolution [of demo_repo "\<lparr>rows = [demo_row 1 ''a'' 0]\<rparr>" "''a''"] by simp
qed

section \<open>Conditional updates\<close>

definition last_step :: "user_repo \<Rightarrow> database \<Rightarrow> pyval \<Rightarrow> int option" where
  "last_step R d uid =
     (case user_row R uid d of None \<Rightarrow> None
      | Some r \<Rightarrow> (case r (col R ''totp_last_step'') of Some (VInt n) \<Rightarrow> Some n | _ \<Rightarrow> None))"

text \<open>The specification: a step is accepted when it is beyond the last accepted one of its user.\<close>

fun accepts :: "(pyval \<Rightarrow> int option) \<Rightarrow> (pyval \<times> int) list \<Rightarrow> bool list" where
  "accepts la [] = []"
| "accepts la ((uid, step) # as) =
     (let ok = (case la uid of None \<Rightarrow> True | Some n \<Rightarrow> n < step)
      in ok # accepts (if ok then la(uid \<mapsto> step) else la) as)"

definition accepted_steps :: "pyval \<Rightarrow> (pyval \<times> int) list \<Rightarrow> bool list \<Rightarrow> int list" where
  "accepted_steps uid as bs = map (snd \<circ> fst) (filter (\<lambda>((u, s), b). b \<and> u = uid) (zip as bs))"

lemma accepted_steps_increase:
  "sorted_wrt (<) (accepted_steps uid as (accepts la as))
   \<and> (\<forall>s \<in> set (accepted_steps uid as (accepts la as)). case la uid of None \<Rightarrow> True | Some n \<Rightarrow> n < s)"
proof (induction as arbitrary: la)
  case (Cons a as)
  obtain u step where a: "a = (u, step)" by (cases a)
  let ?ok = "case la u of None \<Rightarrow> True | Some n \<Rightarrow> n < step"
  show ?case
    using Cons.IH [of "if ?ok then la(u \<mapsto> step) else la"]
    by (auto simp: a accepted_steps_def Let_def split: option.splits if_splits)
qed (simp add: accepted_steps_def)

definition step_column_typed :: "user_repo \<Rightarrow> row \<Rightarrow> bool" where
  "step_column_typed R r \<longleftrightarrow>
     (case r (col R ''totp_last_step'') of None \<Rightarrow> True | Some VNone \<Rightarrow> True | Some (VInt n) \<Rightarrow> True | _ \<Rightarrow> False)"

definition claim_attempt :: "user_repo \<Rightarrow> row \<times> int \<Rightarrow> (database, bool) prog" where
  "claim_attempt R a = bind (claim_totp_step R (fst a) (snd a)) (\<lambda>(u, b). ret b)"

definition typed_row :: "user_repo \<Rightarrow> database \<Rightarrow> pyval \<Rightarrow> bool" where
  "typed_row R d uid \<longleftrightarrow> (case user_row R uid d of None \<Rightarrow> False | Some r \<Rightarrow> step_column_typed R r)"

lemma claim_attempt_run:
  assumes "typed_row R d (pk R u)"
    and "col R ''totp_last_step'' \<noteq> col R ''id''" and "has_col R ''totp_last_step''"
    and ok: "ok \<longleftrightarrow> (case last_step R d (pk R u) of None \<Rightarrow> True | Some n \<Rightarrow> n < step)"
  shows "fst (claim_attempt R (u, step) d) = Inr ok"
    and "typed_row R (snd (claim_attempt R (u, step) d)) v = typed_row R d v"
    and "last_step R (snd (claim_attempt R (u, step) d)) = (if ok then (last_step R d)(pk R u \<mapsto> step) else last_step R d)"
proof -
  obtain r where r: "user_row R (pk R u) d = Some r" "step_column_typed R r"
    using assms(1) by (auto simp: typed_row_def split: option.splits)
  let ?c = "col R ''totp_last_step''"
  have ok': "older_step R step r = ok"
    using r by (auto simp: older_step_def step_column_typed_def last_step_def ok split: option.splits pyval.splits)
  note cr = claim_run [OF r(1) refl assms(2,3), of "if ok then r(?c \<mapsto> VInt step) else r" step, unfolded ok', OF refl]
  have snd: "snd (claim_attempt R (u, step) d) = snd (claim_totp_step R u step d)"
    using cr(1) by (auto simp: claim_attempt_def run_simps)
  show "fst (claim_attempt R (u, step) d) = Inr ok"
    using cr(1) by (auto simp: claim_attempt_def run_simps)
  show "typed_row R (snd (claim_attempt R (u, step) d)) v = typed_row R d v"
    unfolding snd using cr(2,3) r by (cases "v = pk R u") (auto simp: typed_row_def step_column_typed_def)
  show "last_step R (snd (claim_attempt R (u, step) d)) = (if ok then (last_step R d)(pk R u \<mapsto> step) else last_step R d)"
  proof
    fix v show "last_step R (snd (claim_attempt R (u, step) d)) v
        = (if ok then (last_step R d)(pk R u \<mapsto> step) else last_step R d) v"
      unfolding snd using cr(2,3) r by (cases "v = pk R u") (auto simp: last_step_def)
  qed
qed

text \<open>
  C18. One-time codes. Whatever sequence of time steps is claimed, for any users of the table
  and in any order, every claim answers, and it answers yes exactly when the step lies beyond
  the last accepted step of that user. So the accepted steps of one user strictly increase: no
  code is accepted twice, and none that is older than an accepted one.
\<close>

theorem totp_steps_accepted_once:
  assumes "col R ''totp_last_step'' \<noteq> col R ''id''" and "has_col R ''totp_last_step''"
    and "\<forall>(u, step) \<in> set attempts. typed_row R d (pk R u)"
  shows "fst (map_prog (claim_attempt R) attempts d)
      = Inr (accepts (last_step R d) (map (\<lambda>(u, s). (pk R u, s)) attempts))
    \<and> (\<forall>bs uid. fst (map_prog (claim_attempt R) attempts d) = Inr bs \<longrightarrow>
         sorted_wrt (<) (accepted_steps uid (map (\<lambda>(u, s). (pk R u, s)) attempts) bs))"
proof -
  have "fst (map_prog (claim_attempt R) attempts d)
      = Inr (accepts (last_step R d) (map (\<lambda>(u, s). (pk R u, s)) attempts))"
    using assms(3)
  proof (induction attempts arbitrary: d)
    case (Cons a as)
    obtain u step where a: "a = (u, step)" by (cases a)
    have "typed_row R d (pk R u)" using Cons.prems by (auto simp: a)
    note run = claim_attempt_run [OF this assms(1,2) refl, of step]
    have "\<forall>(u, step) \<in> set as. typed_row R (snd (claim_attempt R (u', s) d)) (pk R u)"
      if "(u', s) = (u, step)" for u' s
      using Cons.prems that run(2) by auto
    then show ?case using Cons.IH [of "snd (claim_attempt R (u, step) d)"] run(1,3)
      by (simp add: a run_simps Let_def)
  qed (simp add: run_simps)
  then show ?thesis using accepted_steps_increase by (simp split: option.splits)
qed

lemma demo_repo_simps:
  "col demo_repo ''totp_last_step'' = ''totp_last_step''" "col demo_repo ''id'' = ''id''"
  "has_col demo_repo ''totp_last_step''" "has_col demo_repo ''email''" "col demo_repo ''email'' = ''email''"
  by (simp_all add: demo_repo_def col_def has_col_def)

lemma demo_row_simps:
  "demo_row uid email ver ''id'' = Some (VInt uid)" "demo_row uid email ver ''totp_last_step'' = Some VNone"
  "demo_row uid email ver ''email'' = Some (VStr email)"
  by (simp_all add: demo_row_def)

theorem totp_steps_accepted_once_witness:
  "fst (map_prog (claim_attempt demo_repo) [(demo_row 1 ''a'' 0, 7), (demo_row 1 ''a'' 0, 7)] \<lparr>rows = [demo_row 1 ''a'' 0]\<rparr>)
     = Inr [True, False]"
  using totp_steps_accepted_once [of demo_repo "[(demo_row 1 ''a'' 0, 7), (demo_row 1 ''a'' 0, 7)]" "\<lparr>rows = [demo_row 1 ''a'' 0]\<rparr>"]
  by (simp add: demo_repo_simps demo_row_simps typed_row_def user_row_def step_column_typed_def last_step_def pk_def get_field_def)

definition cas_attempt :: "user_repo \<Rightarrow> row \<Rightarrow> string \<Rightarrow> pyval \<Rightarrow> pyval \<Rightarrow> (database, bool) prog" where
  "cas_attempt R user field expected new =
     bind (update_if_unchanged R user [(field, new)] field expected) (\<lambda>(u, b). ret b)"

text \<open>
  Compare and set. Of any number of conditional updates of one user that all expect the
  same value of a field and would each change it, at most one is applied: the first one if the
  field held the expected value, and then it is its new values that stay; otherwise none.
\<close>

theorem compare_and_set_one_winner:
  assumes "has_col R field" and "col R field \<noteq> col R ''id''" and "user_row R (pk R user) d = Some r"
    and "expected \<notin> set news"
  shows "fst (map_prog (cas_attempt R user field expected) news d)
      = Inr (case news of [] \<Rightarrow> []
             | new # rest \<Rightarrow> (get_field R r field VNone = expected) # replicate (length rest) False)
    \<and> user_row R (pk R user) (snd (map_prog (cas_attempt R user field expected) news d))
      = Some (if get_field R r field VNone = expected \<and> news \<noteq> [] then set_field R r field (hd news) else r)"
proof -
  have one: "fst (cas_attempt R user field expected new d) = Inr (get_field R r field VNone = expected)
      \<and> user_row R (pk R user) (snd (cas_attempt R user field expected new d))
        = Some (if get_field R r field VNone = expected then set_field R r field new else r)"
    if "user_row R (pk R user) d = Some r" for r d new
    using cas_run(1,2) [OF that refl _ assms(1) refl refl, of "[(field, new)]" expected] assms(1,2)
    by (auto simp: cas_attempt_def run_simps)
  have rest: "fst (map_prog (cas_attempt R user field expected) ns d) = Inr (replicate (length ns) False)
      \<and> user_row R (pk R user) (snd (map_prog (cas_attempt R user field expected) ns d)) = Some r"
    if "user_row R (pk R user) d = Some r" "get_field R r field VNone \<noteq> expected" for r d ns
    using that
  proof (induction ns arbitrary: d)
    case (Cons n ns)
    then show ?case using one [OF Cons.prems(1), of n] Cons.IH [of "snd (cas_attempt R user field expected n d)"]
      by (simp add: run_simps)
  qed (simp add: run_simps)
  show ?thesis
  proof (cases news)
    case (Cons n ns)
    then have "get_field R (set_field R r field n) field VNone \<noteq> expected"
      using assms(4) by (auto simp: get_field_def set_field_def)
    then show ?thesis using one [OF assms(3), of n] rest [of "snd (cas_attempt R user field expected n d)"] Cons
      by (cases "get_field R r field VNone = expected") (simp_all add: run_simps)
  qed (simp add: run_simps assms(3))
qed

theorem compare_and_set_one_winner_witness:
  "fst (map_prog (cas_attempt demo_repo (demo_row 1 ''a'' 0) ''email'' (VStr ''a'')) [VStr ''b'', VStr ''c'']
     \<lparr>rows = [demo_row 1 ''a'' 0]\<rparr>) = Inr [True, False]"
  using compare_and_set_one_winner [of demo_repo "''email''" "demo_row 1 ''a'' 0" "\<lparr>rows = [demo_row 1 ''a'' 0]\<rparr>"
      "demo_row 1 ''a'' 0" "VStr ''a''" "[VStr ''b'', VStr ''c'']"]
  by (simp add: demo_repo_simps demo_row_simps user_row_def pk_def get_field_def)

end
