(* ===== verification/Passwords.thy ===== *)
theory Passwords
  imports Repository Hashlib
begin

text \<open>
  Passwords: \<open>crudauth/utils/hashing.py\<close> (hashing, verification, legacy hashes, the
  unusable sentinel) and \<open>crudauth/password.py\<close> (the policy a new password must meet).

  A password is text of code points below 256. bcrypt and Unicode normalization are not part
  of the package: \<^typ>\<open>string\<close> functions of the record \<open>crypto\<close>. bcrypt's salt is
  an argument of the functions that draw one. \<open>checkpw\<close> gives \<open>None\<close> where bcrypt
  raises \<open>ValueError\<close> for a value that is not one of its hashes.
\<close>

section \<open>Base 64 and UTF-8\<close>

definition utf8_char :: "char \<Rightarrow> string" where
  "utf8_char c = (let n = (of_char c :: nat)
     in if n < 128 then [c] else [char_of (192 + n div 64), char_of (128 + n mod 64)])"

definition utf8 :: "string \<Rightarrow> string" where
  "utf8 s = concat (map utf8_char s)"

definition b64_char :: "nat \<Rightarrow> char" where
  "b64_char d = char_of (if d < 26 then 65 + d else if d < 52 then 71 + d else if d < 62 then d - 4
     else if d = 62 then 43 else 47)"

definition b64_value :: "char \<Rightarrow> nat option" where
  "b64_value c = (let n = (of_char c :: nat)
     in if 65 \<le> n \<and> n \<le> 90 then Some (n - 65)
        else if 97 \<le> n \<and> n \<le> 122 then Some (n - 71)
        else if 48 \<le> n \<and> n \<le> 57 then Some (n + 4)
        else if n = 43 then Some 62 else if n = 47 then Some 63 else None)"

fun b64encode :: "string \<Rightarrow> string" where
  "b64encode [] = []"
| "b64encode [x] = (let a = of_char x in [b64_char (a div 4), b64_char (16 * (a mod 4)), CHR ''='', CHR ''=''])"
| "b64encode [x, y] = (let a = of_char x; b = of_char y
     in [b64_char (a div 4), b64_char (16 * (a mod 4) + b div 16), b64_char (4 * (b mod 16)), CHR ''=''])"
| "b64encode (x # y # z # s) = (let a = of_char x; b = of_char y; c = of_char z
     in b64_char (a div 4) # b64_char (16 * (a mod 4) + b div 16) # b64_char (4 * (b mod 16) + c div 64)
        # b64_char (c mod 64) # b64encode s)"

text \<open>\<open>base64.b64decode(s, validate=True)\<close>; \<open>None\<close> where it raises.\<close>

fun b64decode :: "string \<Rightarrow> string option" where
  "b64decode [] = Some []"
| "b64decode (p # q # r # t # s) =
     (if t = CHR ''='' then
        (if s \<noteq> [] then None
         else if r = CHR ''='' then
           (case (b64_value p, b64_value q) of
              (Some a, Some b) \<Rightarrow> Some [char_of (4 * a + b div 16)] | _ \<Rightarrow> None)
         else
           (case (b64_value p, b64_value q, b64_value r) of
              (Some a, Some b, Some c) \<Rightarrow> Some [char_of (4 * a + b div 16), char_of (16 * (b mod 16) + c div 4)]
            | _ \<Rightarrow> None))
      else
        (case (b64_value p, b64_value q, b64_value r, b64_value t) of
           (Some a, Some b, Some c, Some d) \<Rightarrow>
             map_option (\<lambda>bs. char_of (4 * a + b div 16) # char_of (16 * (b mod 16) + c div 4)
                              # char_of (64 * (c mod 4) + d) # bs) (b64decode s)
         | _ \<Rightarrow> None))"
| "b64decode [p] = None"
| "b64decode [p, q] = None"
| "b64decode [p, q, r] = None"

section \<open>Hashing and verification\<close>

record crypto =
  nfkc :: "string \<Rightarrow> string"
  hashpw :: "string \<Rightarrow> string \<Rightarrow> string"
  checkpw :: "string \<Rightarrow> string \<Rightarrow> bool option"
  dummy_token :: string
  dummy_salt :: string

definition PRE_HASH_LENGTH :: nat where
  "PRE_HASH_LENGTH = 44"

definition BCRYPT_INPUT_BYTES :: nat where
  "BCRYPT_INPUT_BYTES = 72"

definition bcrypt_input :: "string \<Rightarrow> string" where
  "bcrypt_input password = b64encode (sha256 (utf8 password))"

definition normalize_password :: "crypto \<Rightarrow> string \<Rightarrow> string" where
  "normalize_password L password = nfkc L password"

definition get_password_hash :: "crypto \<Rightarrow> string \<Rightarrow> string \<Rightarrow> string" where
  "get_password_hash L salt password = hashpw L (bcrypt_input (normalize_password L password)) salt"

definition dummy_hash :: "crypto \<Rightarrow> string" where
  "dummy_hash L = get_password_hash L (dummy_salt L) (dummy_token L)"

definition or_empty :: "string option \<Rightarrow> string" where
  "or_empty h = (case h of None \<Rightarrow> [] | Some s \<Rightarrow> s)"

definition check_pw :: "crypto \<Rightarrow> string \<Rightarrow> string option \<Rightarrow> bool" where
  "check_pw L password hashed =
     (case checkpw L (bcrypt_input password) (utf8 (or_empty hashed)) of
        Some b \<Rightarrow> b
      | None \<Rightarrow> (let _ = checkpw L (bcrypt_input []) (utf8 (dummy_hash L)) in False))"

definition matching_form :: "crypto \<Rightarrow> string \<Rightarrow> string option \<Rightarrow> string option" where
  "matching_form L plain hashed =
     (let normalized = normalize_password L plain
      in if check_pw L normalized hashed then Some normalized
         else if plain \<noteq> normalized \<and> check_pw L plain hashed then Some plain
         else None)"

definition verify_password :: "crypto \<Rightarrow> string \<Rightarrow> string option \<Rightarrow> bool" where
  "verify_password L plain hashed \<longleftrightarrow> matching_form L plain hashed \<noteq> None"

definition verify_and_update_password ::
  "crypto \<Rightarrow> string \<Rightarrow> string \<Rightarrow> string option \<Rightarrow> bool \<times> string option" where
  "verify_and_update_password L salt plain hashed =
     (case matching_form L plain hashed of
        None \<Rightarrow> (False, None)
      | Some matched \<Rightarrow>
          if matched = normalize_password L plain then (True, None)
          else (True, Some (get_password_hash L salt plain)))"

definition make_unusable_password :: "string \<Rightarrow> string" where
  "make_unusable_password token = CHR ''!'' # token"

definition is_unusable_password :: "string option \<Rightarrow> bool" where
  "is_unusable_password hashed \<longleftrightarrow> (case hashed of None \<Rightarrow> True | Some h \<Rightarrow> h = [] \<or> starts_with h ''!'')"

definition looks_like_pre_hash :: "string \<Rightarrow> bool" where
  "looks_like_pre_hash v =
     (if length v \<noteq> PRE_HASH_LENGTH then False
      else case b64decode v of None \<Rightarrow> False | Some bs \<Rightarrow> length bs = 32)"

definition verify_plain_bcrypt :: "crypto \<Rightarrow> string \<Rightarrow> string \<Rightarrow> bool" where
  "verify_plain_bcrypt L plain hashed =
     (if looks_like_pre_hash plain then False
      else case checkpw L (take BCRYPT_INPUT_BYTES (utf8 plain)) (utf8 hashed) of
             Some b \<Rightarrow> b | None \<Rightarrow> False)"

text \<open>A legacy verifier answers or raises.\<close>

type_synonym legacy_verifier = "string \<Rightarrow> string \<Rightarrow> exc + bool"

fun any_verifier :: "legacy_verifier list \<Rightarrow> string \<Rightarrow> string \<Rightarrow> bool \<Rightarrow> bool" where
  "any_verifier [] plain target matched = matched"
| "any_verifier (verify # vs) plain target matched =
     any_verifier vs plain target
       (case verify plain target of Inr b \<Rightarrow> b \<or> matched | Inl e \<Rightarrow> matched)"

definition verify_legacy_password :: "crypto \<Rightarrow> legacy_verifier list \<Rightarrow> string \<Rightarrow> string option \<Rightarrow> bool" where
  "verify_legacy_password L verifiers plain hashed =
     (let target = (case hashed of None \<Rightarrow> dummy_hash L | Some h \<Rightarrow> if h = [] then dummy_hash L else h)
      in any_verifier verifiers plain target False \<and> hashed \<noteq> None)"

section \<open>The policy\<close>

definition in_ranges :: "(nat \<times> nat) list \<Rightarrow> char \<Rightarrow> bool" where
  "in_ranges rs c = (let n = of_char c in list_ex (\<lambda>(a, b). a \<le> n \<and> n \<le> b) rs)"

text \<open>\<open>str.isupper\<close>, \<open>islower\<close>, \<open>isdecimal\<close> and \<open>isalnum\<close> on one code point below 256.\<close>

definition is_upper :: "char \<Rightarrow> bool" where
  "is_upper = in_ranges [(65, 90), (192, 214), (216, 222)]"

definition is_lower :: "char \<Rightarrow> bool" where
  "is_lower = in_ranges [(97, 122), (170, 170), (181, 181), (186, 186), (223, 246), (248, 255)]"

definition is_decimal :: "char \<Rightarrow> bool" where
  "is_decimal = in_ranges [(48, 57)]"

definition is_alnum :: "char \<Rightarrow> bool" where
  "is_alnum = in_ranges [(48, 57), (65, 90), (97, 122), (170, 170), (178, 179), (181, 181), (185, 186),
     (188, 190), (192, 214), (216, 246), (248, 255)]"

type_synonym policy_error = "string \<times> string \<times> (string \<times> pyval) list"

record password_context =
  source :: string
  ctx_username :: pyval
  ctx_email :: pyval
  ctx_user :: "row option"

definition for_user :: "user_repo \<Rightarrow> string \<Rightarrow> row \<Rightarrow> password_context" where
  "for_user R src user = \<lparr>source = src, ctx_username = get_field R user ''username'' VNone,
     ctx_email = get_field R user ''email'' VNone, ctx_user = Some user\<rparr>"

text \<open>
  What running a validator comes to. pydantic's \<open>ValidationError\<close> carries one message per
  failed check.
\<close>

datatype verdict = Accepted | FailsValidation "string list" | FailsValue string | Breaks exc

datatype validator =
    OneArg "string \<Rightarrow> verdict"
  | TwoArgs "string \<Rightarrow> password_context \<Rightarrow> verdict"

record password_policy =
  min_length :: int
  require_uppercase :: bool
  require_lowercase :: bool
  require_digit :: bool
  require_special :: bool
  validators :: "validator list"

definition mk_password_policy :: "password_policy \<Rightarrow> exc + password_policy" where
  "mk_password_policy p =
     (if min_length p < 1 then Inl (ValueError ''PasswordPolicy.min_length must be at least 1'') else Inr p)"

definition requirements :: "password_policy \<Rightarrow> (bool \<times> string \<times> string \<times> (char \<Rightarrow> bool)) list" where
  "requirements p =
     [(require_uppercase p, ''uppercase'', ''an uppercase letter'', is_upper),
      (require_lowercase p, ''lowercase'', ''a lowercase letter'', is_lower),
      (require_digit p, ''digit'', ''a digit'', is_decimal),
      (require_special p, ''special'', ''a special character'', \<lambda>c. \<not> is_alnum c)]"

definition characters :: "int \<Rightarrow> string" where
  "characters count = (if count = 1 then ''character'' else ''characters'')"

definition description :: "password_policy \<Rightarrow> string" where
  "description p =
     (let required = map (\<lambda>(_, _, label, _). label) (filter fst (requirements p));
          grouped = (if length required > 1 then [join_with '', '' (butlast required), last required] else required);
          txt = ''At least '' @ str_of_int (min_length p) @ '' '' @ characters (min_length p)
      in txt @ (if grouped \<noteq> [] then '', including '' @ join_with '' and '' grouped else []) @ ''.'')"

definition rule_errors :: "password_policy \<Rightarrow> string \<Rightarrow> policy_error list" where
  "rule_errors p password =
     (if int (length password) < min_length p
      then [(''string_too_short'',
             ''String should have at least '' @ str_of_int (min_length p) @ '' '' @ characters (min_length p),
             [(''min_length'', VInt (min_length p))])]
      else [])
     @ map (\<lambda>(_, name, label, _). (''password_policy'', ''Password should contain '' @ label, [(''requirement'', VStr name)]))
         (filter (\<lambda>(req, _, _, matches). req \<and> \<not> list_ex matches password) (requirements p))"

fun run_validator :: "validator \<Rightarrow> string \<Rightarrow> password_context \<Rightarrow> verdict" where
  "run_validator (OneArg f) password context = f password"
| "run_validator (TwoArgs f) password context = f password context"

fun run_validators :: "validator list \<Rightarrow> string \<Rightarrow> password_context \<Rightarrow> exc + policy_error list" where
  "run_validators [] password context = Inr []"
| "run_validators (v # vs) password context =
     (case run_validator v password context of
        Accepted \<Rightarrow> run_validators vs password context
      | FailsValidation msgs \<Rightarrow> Inr (map (\<lambda>m. (''password_policy'', m, [])) msgs)
      | FailsValue m \<Rightarrow> Inr [(''password_policy'', if m = [] then ''Password doesn't meet the policy'' else m, [])]
      | Breaks e \<Rightarrow> Inl e)"

definition check_policy :: "crypto \<Rightarrow> password_policy \<Rightarrow> string \<Rightarrow> password_context \<Rightarrow> exc + policy_error list" where
  "check_policy L p password context =
     (let normalized = normalize_password L password;
          errors = rule_errors p normalized
      in if errors \<noteq> [] then Inr errors else run_validators (validators p) normalized context)"

definition enforce_policy :: "crypto \<Rightarrow> password_policy \<Rightarrow> string \<Rightarrow> password_context \<Rightarrow> string \<Rightarrow> ('s, unit) prog" where
  "enforce_policy L p password context field =
     (case check_policy L p password context of
        Inl e \<Rightarrow> raise e
      | Inr errors \<Rightarrow> if errors \<noteq> [] then raise (PasswordPolicyException field errors) else ret ())"

section \<open>Base 64 round trip\<close>

lemma b64_value_char [simp]: "d < 64 \<Longrightarrow> b64_value (b64_char d) = Some d"
  by (auto simp: b64_value_def b64_char_def Let_def)

lemma b64_char_not_pad [simp]: "d < 64 \<Longrightarrow> b64_char d \<noteq> CHR ''=''"
  using b64_value_char [of d] by (auto simp: b64_value_def)

lemma b64_length: "length (b64encode s) = 4 * ((length s + 2) div 3)"
proof (induction s rule: b64encode.induct)
  case (4 x y z s)
  have "(5 + length s) div 3 = Suc ((length s + 2) div 3)" by presburger
  then show ?case using 4 by (simp add: Let_def)
qed (simp_all add: Let_def)

lemma of_char_bound: "(of_char c :: nat) < 256"
  by simp

lemma b64_bytes:
  assumes "a < 256" and "b < 256" and "c < (256 :: nat)"
  shows "4 * (a div 4) + (16 * (a mod 4) + b div 16) div 16 = a"
    and "16 * ((16 * (a mod 4) + b div 16) mod 16) + (4 * (b mod 16) + c div 64) div 4 = b"
    and "64 * ((4 * (b mod 16) + c div 64) mod 4) + c mod 64 = c"
    and "16 * (a mod 4) + b div 16 < 64" and "4 * (b mod 16) + c div 64 < 64" and "a div 4 < 64"
proof -
  have d: "b div 16 < 16" "c div 64 < 4" "a div 4 < 64" using assms by (simp_all add: less_mult_imp_div_less)
  then show "4 * (a div 4) + (16 * (a mod 4) + b div 16) div 16 = a" by simp
  have "(16 * (a mod 4) + b div 16) mod 16 = b div 16" using d by simp
  moreover have "(4 * (b mod 16) + c div 64) div 4 = b mod 16" using d by simp
  ultimately show "16 * ((16 * (a mod 4) + b div 16) mod 16) + (4 * (b mod 16) + c div 64) div 4 = b" by simp
  have "(4 * (b mod 16) + c div 64) mod 4 = c div 64" using d by simp
  then show "64 * ((4 * (b mod 16) + c div 64) mod 4) + c mod 64 = c" by simp
  have "a mod 4 < 4" "b mod 16 < 16" by simp_all
  then show "16 * (a mod 4) + b div 16 < 64" "4 * (b mod 16) + c div 64 < 64" "a div 4 < 64"
    using d by linarith+
qed

lemma b64decode_encode [simp]: "b64decode (b64encode s) = Some s"
proof (induction s rule: b64encode.induct)
  case (2 x)
  show ?case using b64_bytes [OF of_char_bound [of x], of 0 0] by (simp add: Let_def)
next
  case (3 x y)
  show ?case using b64_bytes [OF of_char_bound [of x] of_char_bound [of y], of 0] by (simp add: Let_def)
next
  case (4 x y z s)
  then show ?case using b64_bytes [OF of_char_bound [of x] of_char_bound [of y] of_char_bound [of z]]
    by (simp add: Let_def)
qed simp

lemma bcrypt_input_length: "length (bcrypt_input p) = PRE_HASH_LENGTH"
  by (simp add: bcrypt_input_def b64_length PRE_HASH_LENGTH_def)

lemma bcrypt_input_pre_hash: "looks_like_pre_hash (bcrypt_input p)"
  by (simp add: looks_like_pre_hash_def bcrypt_input_length) (simp add: bcrypt_input_def)

section \<open>Verification\<close>

text \<open>
  What the code relies on of bcrypt: a hash verifies the input it was made from, hashes are
  ASCII text that starts with a dollar sign, and a value that does not is refused as no hash.
\<close>

definition bcrypt_verifies :: "crypto \<Rightarrow> bool" where
  "bcrypt_verifies L \<longleftrightarrow> (\<forall>x salt. checkpw L x (utf8 (hashpw L x salt)) = Some True)"

definition bcrypt_shape :: "crypto \<Rightarrow> bool" where
  "bcrypt_shape L \<longleftrightarrow> (\<forall>x salt. starts_with (hashpw L x salt) ''$'')
     \<and> (\<forall>x h. \<not> starts_with h ''$'' \<longrightarrow> checkpw L x h = None)"

lemma check_pw_hash: "bcrypt_verifies L \<Longrightarrow> check_pw L p (Some (hashpw L (bcrypt_input p) salt))"
  by (simp add: bcrypt_verifies_def check_pw_def or_empty_def)

lemma verify_and_update_hash:
  "bcrypt_verifies L \<Longrightarrow> nfkc L p' = nfkc L p \<Longrightarrow>
   verify_and_update_password L salt' p' (Some (get_password_hash L salt p)) = (True, None)"
  by (simp add: verify_and_update_password_def matching_form_def get_password_hash_def normalize_password_def
      check_pw_hash Let_def)

definition demo_crypto :: crypto where
  "demo_crypto = \<lparr>nfkc = (\<lambda>s. s), hashpw = (\<lambda>x salt. CHR ''$'' # x),
     checkpw = (\<lambda>x h. if starts_with h ''$'' then Some (h = utf8 (CHR ''$'' # x)) else None),
     dummy_token = ''t'', dummy_salt = ''s''\<rparr>"

lemma starts_with_1 [simp]: "starts_with s [c] = (\<exists>t. s = c # t)"
  by (cases s) auto

lemma utf8_dollar: "starts_with (utf8 (CHR ''$'' # x)) ''$''"
  by (simp add: utf8_def utf8_char_def)

lemma demo_bcrypt: "bcrypt_verifies demo_crypto" "bcrypt_shape demo_crypto"
  using utf8_dollar by (auto simp: demo_crypto_def bcrypt_verifies_def bcrypt_shape_def)

text \<open>
  Password round trip. A password verifies against the hash that was made of it, in every
  spelling with the same normal form, and needs no new hash. A hash made of the password as typed,
  before passwords were normalized, still verifies it, and when it is replaced the replacement
  verifies every spelling without a further replacement.
\<close>

theorem password_round_trip:
  assumes "bcrypt_verifies L"
  shows "(nfkc L p' = nfkc L p \<longrightarrow>
       verify_password L p' (Some (get_password_hash L salt p))
     \<and> verify_and_update_password L salt' p' (Some (get_password_hash L salt p)) = (True, None))
    \<and> verify_password L p (Some (hashpw L (bcrypt_input p) salt))
    \<and> (\<forall>new. snd (verify_and_update_password L salt' p (Some (hashpw L (bcrypt_input p) salt))) = Some new \<longrightarrow>
         nfkc L p' = nfkc L p \<longrightarrow> verify_and_update_password L salt'' p' (Some new) = (True, None))"
proof -
  have "verify_password L p' (Some (get_password_hash L salt p))" if "nfkc L p' = nfkc L p"
    using that assms
    by (simp add: verify_password_def matching_form_def get_password_hash_def normalize_password_def check_pw_hash Let_def)
  moreover have "verify_password L p (Some (hashpw L (bcrypt_input p) salt))"
    using check_pw_hash [OF assms, of p salt] by (auto simp: verify_password_def matching_form_def Let_def)
  moreover have "new = get_password_hash L salt' p"
    if "snd (verify_and_update_password L salt' p (Some (hashpw L (bcrypt_input p) salt))) = Some new" for new
    using that by (auto simp: verify_and_update_password_def split: option.splits if_splits)
  ultimately show ?thesis using verify_and_update_hash [OF assms] by blast
qed

theorem password_round_trip_witness:
  "verify_password demo_crypto ''pw'' (Some (get_password_hash demo_crypto ''s'' ''pw''))"
  using password_round_trip [OF demo_bcrypt(1), of "''pw''" "''pw''" "''s''" "''s''" "''s''"] by simp

text \<open>
  No password, no entry. Against a missing or empty hash, the sentinel of an account
  without a password, or any other value that is not a bcrypt hash, no password verifies; and a
  hash this package makes is never taken for the sentinel.
\<close>

theorem unusable_password_never_verifies:
  assumes "bcrypt_shape L"
  shows "\<not> verify_password L p None \<and> \<not> verify_password L p (Some [])
    \<and> \<not> verify_password L p (Some (make_unusable_password token))
    \<and> is_unusable_password (Some (make_unusable_password token))
    \<and> \<not> is_unusable_password (Some (get_password_hash L salt p))
    \<and> (\<forall>h. \<not> starts_with (utf8 h) ''$'' \<longrightarrow> verify_and_update_password L salt p (Some h) = (False, None))"
proof -
  have no: "check_pw L q h = False" if "\<not> starts_with (utf8 (or_empty h)) ''$''" for q h
    using assms that by (auto simp: bcrypt_shape_def check_pw_def)
  have "\<not> starts_with (utf8 (or_empty h)) ''$''" if "h \<in> {None, Some [], Some (make_unusable_password token)}" for h
    using that by (auto simp: or_empty_def utf8_def utf8_char_def make_unusable_password_def)
  moreover have "starts_with (get_password_hash L salt p) ''$''"
    using assms unfolding bcrypt_shape_def get_password_hash_def by blast
  moreover have "\<not> starts_with (utf8 (or_empty (Some h))) ''$''" if "\<not> starts_with (utf8 h) ''$''" for h
    using that by (simp add: or_empty_def)
  ultimately show ?thesis using no
    by (auto simp: verify_password_def matching_form_def verify_and_update_password_def Let_def
        is_unusable_password_def make_unusable_password_def)
qed

theorem unusable_password_never_verifies_witness:
  "\<not> verify_password demo_crypto ''pw'' None"
  using unusable_password_never_verifies [OF demo_bcrypt(2), of "''pw''" "[]" "[]"] by blast

lemma any_verifier_iff:
  "any_verifier vs p h m \<longleftrightarrow> m \<or> (\<exists>v \<in> set vs. v p h = Inr True)"
  by (induction vs arbitrary: m) (auto split: sum.splits)

text \<open>
  Legacy hashes. The digest this package feeds to bcrypt is never accepted as a password by
  the plain bcrypt verifier, whatever hash is stored: a leaked unsalted SHA-256 does not sign in.
  Legacy verification accepts exactly when the account has a hash and some verifier answers yes;
  a verifier that raises counts as a no.
\<close>

theorem legacy_verification:
  "\<not> verify_plain_bcrypt L (bcrypt_input q) h
   \<and> (verify_legacy_password L vs p hashed \<longleftrightarrow>
       (\<exists>h. hashed = Some h \<and> (\<exists>v \<in> set vs. v p (if h = [] then dummy_hash L else h) = Inr True)))"
  by (auto simp: verify_plain_bcrypt_def bcrypt_input_pre_hash verify_legacy_password_def any_verifier_iff Let_def
      split: option.splits)

section \<open>The policy decides\<close>

definition meets_rules :: "password_policy \<Rightarrow> string \<Rightarrow> bool" where
  "meets_rules p pw \<longleftrightarrow> min_length p \<le> int (length pw)
     \<and> (require_uppercase p \<longrightarrow> (\<exists>c \<in> set pw. is_upper c))
     \<and> (require_lowercase p \<longrightarrow> (\<exists>c \<in> set pw. is_lower c))
     \<and> (require_digit p \<longrightarrow> (\<exists>c \<in> set pw. is_decimal c))
     \<and> (require_special p \<longrightarrow> (\<exists>c \<in> set pw. \<not> is_alnum c))"

lemma rule_errors_empty: "rule_errors p pw = [] \<longleftrightarrow> meets_rules p pw"
  by (auto simp: rule_errors_def meets_rules_def requirements_def list_ex_iff filter_empty_conv)

lemma run_validators_ok:
  "\<forall>v \<in> set vs. run_validator v pw c \<noteq> FailsValidation [] \<Longrightarrow>
   run_validators vs pw c = Inr [] \<longleftrightarrow> (\<forall>v \<in> set vs. run_validator v pw c = Accepted)"
  by (induction vs) (auto split: verdict.splits)

definition unmet_rules :: "password_policy \<Rightarrow> string \<Rightarrow> nat" where
  "unmet_rules p pw = length (filter Not
     [min_length p \<le> int (length pw),
      require_uppercase p \<longrightarrow> (\<exists>c \<in> set pw. is_upper c), require_lowercase p \<longrightarrow> (\<exists>c \<in> set pw. is_lower c),
      require_digit p \<longrightarrow> (\<exists>c \<in> set pw. is_decimal c), require_special p \<longrightarrow> (\<exists>c \<in> set pw. \<not> is_alnum c)])"

lemma rule_errors_count: "length (rule_errors p pw) = unmet_rules p pw"
  by (simp add: rule_errors_def unmet_rules_def requirements_def list_ex_iff)

text \<open>
  The password policy. A new password passes exactly when its normal form meets every
  built-in rule and every validator accepts it. When built-in rules are unmet the answer is a
  422 with one entry for each of them, whatever the validators would say. Nothing is changed
  either way. (A pydantic error carries at least one message.)
\<close>

theorem password_policy_decides:
  assumes "\<forall>v \<in> set (validators p). run_validator v (nfkc L pw) c \<noteq> FailsValidation []"
  shows "(enforce_policy L p pw c f s = (Inr (), s) \<longleftrightarrow>
       meets_rules p (nfkc L pw) \<and> (\<forall>v \<in> set (validators p). run_validator v (nfkc L pw) c = Accepted))
    \<and> (\<not> meets_rules p (nfkc L pw) \<longrightarrow> (\<exists>errors. length errors = unmet_rules p (nfkc L pw) \<and> errors \<noteq> []
         \<and> (\<forall>vs. enforce_policy L (p\<lparr>validators := vs\<rparr>) pw c f s = (Inl (PasswordPolicyException f errors), s))))
    \<and> snd (enforce_policy L p pw c f s) = s"
proof (intro conjI impI)
  note run = enforce_policy_def check_policy_def normalize_password_def Let_def run_simps
  show "enforce_policy L p pw c f s = (Inr (), s) \<longleftrightarrow>
       meets_rules p (nfkc L pw) \<and> (\<forall>v \<in> set (validators p). run_validator v (nfkc L pw) c = Accepted)"
    using run_validators_ok [OF assms] by (auto simp: run rule_errors_empty split: sum.splits)
  have vs: "rule_errors (p\<lparr>validators := vs\<rparr>) q = rule_errors p q" for vs q
    by (simp add: rule_errors_def requirements_def)
  assume "\<not> meets_rules p (nfkc L pw)"
  then have "rule_errors p (nfkc L pw) \<noteq> []" by (simp add: rule_errors_empty)
  then show "\<exists>errors. length errors = unmet_rules p (nfkc L pw) \<and> errors \<noteq> []
         \<and> (\<forall>vs. enforce_policy L (p\<lparr>validators := vs\<rparr>) pw c f s = (Inl (PasswordPolicyException f errors), s))"
    using rule_errors_count [of p "nfkc L pw"] by (intro exI [of _ "rule_errors p (nfkc L pw)"]) (simp add: run vs)
qed (auto simp: enforce_policy_def run_simps split: sum.splits)

definition demo_policy :: password_policy where
  "demo_policy = \<lparr>min_length = 3, require_uppercase = False, require_lowercase = False, require_digit = False,
     require_special = False, validators = [OneArg (\<lambda>pw. if pw = ''secret'' then FailsValue ''breached'' else Accepted)]\<rparr>"

definition demo_context :: password_context where
  "demo_context = \<lparr>source = ''set'', ctx_username = VNone, ctx_email = VNone, ctx_user = None\<rparr>"

theorem password_policy_decides_witness:
  "enforce_policy demo_crypto demo_policy ''long'' demo_context ''password'' () = (Inr (), ())"
  using password_policy_decides [of demo_policy demo_crypto "''long''" demo_context "''password''" "()"]
  by (simp add: demo_policy_def demo_crypto_def meets_rules_def)

end
