(* ===== verification/Tokens.thy ===== *)
theory Tokens
  imports Utils Limiter "HOL-Library.Countable"
begin

text \<open>
  Signed tokens, \<open>crudauth/transports/bearer/tokens.py\<close>. PyJWT is not part of the package:
  the record \<open>jwt\<close> holds its \<open>encode\<close> and \<open>decode\<close>, the clock reading an argument
  of the latter. A claim set is a dictionary; an expiry goes in as a time and comes out as whole
  seconds.
\<close>

type_synonym claims = "(string \<times> pyval) list"

datatype jwt_outcome = Decoded claims | ExpiredSignature | OtherJwtError

record jwt =
  jwt_encode :: "claims \<Rightarrow> string \<Rightarrow> string \<Rightarrow> string"
  jwt_decode :: "int \<Rightarrow> string \<Rightarrow> string \<Rightarrow> string \<Rightarrow> jwt_outcome"

datatype token_type = ACCESS | REFRESH

fun token_type_value :: "token_type \<Rightarrow> string" where
  "token_type_value ACCESS = ''access''"
| "token_type_value REFRESH = ''refresh''"

definition DEFAULT_ACCESS_TTL_SECONDS :: int where
  "DEFAULT_ACCESS_TTL_SECONDS = 15 * 60"

definition DEFAULT_REFRESH_TTL_DAYS :: int where
  "DEFAULT_REFRESH_TTL_DAYS = 30"

definition SECONDS_PER_DAY :: int where
  "SECONDS_PER_DAY = 86400"

text \<open>Durations in seconds; a delta of zero is falsy and gives the default.\<close>

definition expiry_claim :: "int \<Rightarrow> int \<Rightarrow> pyval" where
  "expiry_claim now seconds = VTime (now + seconds * usec)"

definition delta_or :: "int \<Rightarrow> int option \<Rightarrow> int" where
  "delta_or dflt d = (case d of None \<Rightarrow> dflt | Some s \<Rightarrow> if s = 0 then dflt else s)"

definition claim_get :: "claims \<Rightarrow> string \<Rightarrow> pyval" where
  "claim_get c k = (case map_of c k of None \<Rightarrow> VNone | Some v \<Rightarrow> v)"

definition create_access_token ::
  "jwt \<Rightarrow> int \<Rightarrow> claims \<Rightarrow> string \<Rightarrow> int option \<Rightarrow> string \<Rightarrow> string list option \<Rightarrow> string" where
  "create_access_token J now data key delta alg scopes =
     (let e1 = AList.update ''exp'' (expiry_claim now (delta_or DEFAULT_ACCESS_TTL_SECONDS delta)) data;
          e2 = AList.update ''token_type'' (VStr (token_type_value ACCESS)) e1;
          e3 = (case scopes of None \<Rightarrow> e2 | Some ss \<Rightarrow> AList.update ''scopes'' (VList (map VStr ss)) e2)
      in jwt_encode J e3 key alg)"

definition create_refresh_token :: "jwt \<Rightarrow> int \<Rightarrow> claims \<Rightarrow> string \<Rightarrow> int option \<Rightarrow> string \<Rightarrow> string" where
  "create_refresh_token J now data key delta alg =
     (let e1 = AList.update ''exp'' (expiry_claim now (delta_or (DEFAULT_REFRESH_TTL_DAYS * SECONDS_PER_DAY) delta)) data;
          e2 = AList.update ''token_type'' (VStr (token_type_value REFRESH)) e1
      in jwt_encode J e2 key alg)"

definition verify_token :: "jwt \<Rightarrow> int \<Rightarrow> string \<Rightarrow> string \<Rightarrow> token_type \<Rightarrow> string \<Rightarrow> claims option" where
  "verify_token J now token key expected alg =
     (case jwt_decode J now token key alg of
        Decoded payload \<Rightarrow>
          if claim_get payload ''token_type'' \<noteq> VStr (token_type_value expected) then None
          else if claim_get payload ''sub'' = VNone then None
          else Some payload
      | _ \<Rightarrow> None)"

definition is_expired_token :: "jwt \<Rightarrow> int \<Rightarrow> string \<Rightarrow> string \<Rightarrow> string \<Rightarrow> bool" where
  "is_expired_token J now token key alg \<longleftrightarrow> jwt_decode J now token key alg = ExpiredSignature"

definition create_signed_token ::
  "jwt \<Rightarrow> int \<Rightarrow> string \<Rightarrow> pyval \<Rightarrow> string \<Rightarrow> int \<Rightarrow> string \<Rightarrow> claims \<Rightarrow> string" where
  "create_signed_token J now key uid purpose expires_hours alg extra =
     (let payload = [(''sub'', VStr (py_str uid)), (''purpose'', VStr purpose),
                     (''exp'', expiry_claim now (expires_hours * 3600))]
      in jwt_encode J (AList.updates (map fst extra) (map snd extra) payload) key alg)"

definition verify_signed_token_full :: "jwt \<Rightarrow> int \<Rightarrow> string \<Rightarrow> string \<Rightarrow> string \<Rightarrow> string \<Rightarrow> claims option" where
  "verify_signed_token_full J now token key purpose alg =
     (case jwt_decode J now token key alg of
        Decoded payload \<Rightarrow>
          if claim_get payload ''purpose'' \<noteq> VStr purpose \<or> claim_get payload ''sub'' = VNone then None
          else Some payload
      | _ \<Rightarrow> None)"

definition verify_signed_token :: "jwt \<Rightarrow> int \<Rightarrow> string \<Rightarrow> string \<Rightarrow> string \<Rightarrow> string \<Rightarrow> string option" where
  "verify_signed_token J now token key purpose alg =
     map_option (\<lambda>payload. py_str (claim_get payload ''sub'')) (verify_signed_token_full J now token key purpose alg)"

section \<open>What is relied on\<close>

text \<open>
  PyJWT decodes what it encoded under the same key: the same claims with the expiry in whole
  seconds, until that second has come; from then on it reports the expiry.
\<close>

definition jwt_decodes :: "jwt \<Rightarrow> bool" where
  "jwt_decodes J \<longleftrightarrow>
     (\<forall>now c key alg t. map_of c ''exp'' = Some (VTime t) \<longrightarrow>
        (if t div usec * usec \<le> now then jwt_decode J now (jwt_encode J c key alg) key alg = ExpiredSignature
         else \<exists>c'. jwt_decode J now (jwt_encode J c key alg) key alg = Decoded c'
               \<and> map_of c' = (map_of c)(''exp'' \<mapsto> VInt (t div usec))))"

lemma claim_get_map: "claim_get c k = (case map_of c k of None \<Rightarrow> VNone | Some v \<Rightarrow> v)"
  by (simp add: claim_get_def)

lemma jwt_live:
  assumes "jwt_decodes J" and "map_of c ''exp'' = Some (VTime t)" and "now < t div usec * usec"
  obtains c' where "jwt_decode J now (jwt_encode J c key alg) key alg = Decoded c'"
    and "map_of c' = (map_of c)(''exp'' \<mapsto> VInt (t div usec))"
  using assms unfolding jwt_decodes_def by (metis linorder_not_le)

lemma jwt_expired:
  assumes "jwt_decodes J" and "map_of c ''exp'' = Some (VTime t)" and "t div usec * usec \<le> now"
  shows "jwt_decode J now (jwt_encode J c key alg) key alg = ExpiredSignature"
  using assms unfolding jwt_decodes_def by metis

definition end_of :: "int \<Rightarrow> int \<Rightarrow> int" where
  "end_of now seconds = (now + seconds * usec) div usec * usec"

lemma verify_token_run:
  assumes "jwt_decodes J" and "map_of c ''exp'' = Some (VTime t)" and "now < t div usec * usec"
  shows "\<exists>c'. verify_token J now (jwt_encode J c key alg) key ty alg
      = (if claim_get c ''token_type'' = VStr (token_type_value ty) \<and> claim_get c ''sub'' \<noteq> VNone then Some c' else None)
    \<and> (\<forall>k. k \<noteq> ''exp'' \<longrightarrow> claim_get c' k = claim_get c k)"
    and "\<exists>c'. verify_signed_token_full J now (jwt_encode J c key alg) key purpose alg
      = (if claim_get c ''purpose'' = VStr purpose \<and> claim_get c ''sub'' \<noteq> VNone then Some c' else None)
    \<and> (\<forall>k. k \<noteq> ''exp'' \<longrightarrow> claim_get c' k = claim_get c k)"
    and "\<not> is_expired_token J now (jwt_encode J c key alg) key alg"
proof -
  obtain c' where c': "jwt_decode J now (jwt_encode J c key alg) key alg = Decoded c'"
    "map_of c' = (map_of c)(''exp'' \<mapsto> VInt (t div usec))"
    using jwt_live [OF assms] by blast
  have eq: "\<forall>k. k \<noteq> ''exp'' \<longrightarrow> claim_get c' k = claim_get c k" by (simp add: claim_get_def c'(2))
  show "\<exists>c'. verify_token J now (jwt_encode J c key alg) key ty alg
      = (if claim_get c ''token_type'' = VStr (token_type_value ty) \<and> claim_get c ''sub'' \<noteq> VNone then Some c' else None)
    \<and> (\<forall>k. k \<noteq> ''exp'' \<longrightarrow> claim_get c' k = claim_get c k)"
    using eq by (intro exI [of _ c']) (simp add: verify_token_def c'(1))
  show "\<exists>c'. verify_signed_token_full J now (jwt_encode J c key alg) key purpose alg
      = (if claim_get c ''purpose'' = VStr purpose \<and> claim_get c ''sub'' \<noteq> VNone then Some c' else None)
    \<and> (\<forall>k. k \<noteq> ''exp'' \<longrightarrow> claim_get c' k = claim_get c k)"
    using eq by (intro exI [of _ c']) (simp add: verify_signed_token_full_def c'(1))
  show "\<not> is_expired_token J now (jwt_encode J c key alg) key alg" by (simp add: is_expired_token_def c'(1))
qed

lemma verify_token_late:
  assumes "jwt_decodes J" and "map_of c ''exp'' = Some (VTime t)" and "t div usec * usec \<le> now"
  shows "verify_token J now (jwt_encode J c key alg) key ty alg = None"
    and "verify_signed_token_full J now (jwt_encode J c key alg) key purpose alg = None"
    and "is_expired_token J now (jwt_encode J c key alg) key alg"
  by (simp_all add: verify_token_def verify_signed_token_full_def is_expired_token_def jwt_expired [OF assms])

text \<open>The claims each kind of token carries.\<close>

definition access_claims :: "int \<Rightarrow> claims \<Rightarrow> int option \<Rightarrow> string list option \<Rightarrow> claims" where
  "access_claims now data delta scopes =
     (let e2 = AList.update ''token_type'' (VStr ''access'')
                 (AList.update ''exp'' (expiry_claim now (delta_or DEFAULT_ACCESS_TTL_SECONDS delta)) data)
      in case scopes of None \<Rightarrow> e2 | Some ss \<Rightarrow> AList.update ''scopes'' (VList (map VStr ss)) e2)"

definition refresh_claims :: "int \<Rightarrow> claims \<Rightarrow> int option \<Rightarrow> claims" where
  "refresh_claims now data delta =
     AList.update ''token_type'' (VStr ''refresh'')
       (AList.update ''exp'' (expiry_claim now (delta_or (DEFAULT_REFRESH_TTL_DAYS * SECONDS_PER_DAY) delta)) data)"

definition signed_claims :: "int \<Rightarrow> pyval \<Rightarrow> string \<Rightarrow> int \<Rightarrow> claims \<Rightarrow> claims" where
  "signed_claims now uid purpose expires_hours extra =
     AList.updates (map fst extra) (map snd extra)
       [(''sub'', VStr (py_str uid)), (''purpose'', VStr purpose), (''exp'', expiry_claim now (expires_hours * 3600))]"

lemma tokens_encode:
  "create_access_token J now data key delta alg scopes = jwt_encode J (access_claims now data delta scopes) key alg"
  "create_refresh_token J now data key delta alg = jwt_encode J (refresh_claims now data delta) key alg"
  "create_signed_token J now key uid purpose hours alg extra = jwt_encode J (signed_claims now uid purpose hours extra) key alg"
  by (simp_all add: create_access_token_def create_refresh_token_def create_signed_token_def access_claims_def
      refresh_claims_def signed_claims_def Let_def)

lemma access_claims_get:
  "map_of (access_claims now data delta scopes) ''exp'' = Some (expiry_claim now (delta_or DEFAULT_ACCESS_TTL_SECONDS delta))"
  "claim_get (access_claims now data delta scopes) ''token_type'' = VStr ''access''"
  "claim_get (access_claims now data delta (Some ss)) ''scopes'' = VList (map VStr ss)"
  "k \<notin> {''exp'', ''token_type'', ''scopes''} \<Longrightarrow> claim_get (access_claims now data delta scopes) k = claim_get data k"
  by (auto simp: access_claims_def claim_get_def update_conv' Let_def split: option.splits)

lemma refresh_claims_get:
  "map_of (refresh_claims now data delta) ''exp''
     = Some (expiry_claim now (delta_or (DEFAULT_REFRESH_TTL_DAYS * SECONDS_PER_DAY) delta))"
  "claim_get (refresh_claims now data delta) ''token_type'' = VStr ''refresh''"
  "k \<notin> {''exp'', ''token_type''} \<Longrightarrow> claim_get (refresh_claims now data delta) k = claim_get data k"
  by (auto simp: refresh_claims_def claim_get_def update_conv')

lemma updates_keep: "k \<notin> set ks \<Longrightarrow> map_of (AList.updates ks vs al) k = map_of al k"
  by (simp add: updates_conv' map_upds_apply_nontin)

lemma signed_claims_get:
  assumes "set (map fst extra) \<inter> {''sub'', ''purpose'', ''exp'', ''token_type''} = {}"
  shows "map_of (signed_claims now uid purpose hours extra) ''exp'' = Some (expiry_claim now (hours * 3600))"
    and "claim_get (signed_claims now uid purpose hours extra) ''sub'' = VStr (py_str uid)"
    and "claim_get (signed_claims now uid purpose hours extra) ''purpose'' = VStr purpose"
    and "claim_get (signed_claims now uid purpose hours extra) ''token_type'' = VNone"
  using assms by (auto simp: signed_claims_def claim_get_def updates_keep)

lemma end_of_expiry: "expiry_claim now s = VTime t \<Longrightarrow> t div usec * usec = end_of now s"
  by (simp add: expiry_claim_def end_of_def)

lemma access_token_run:
  assumes "jwt_decodes J" and "claim_get data ''sub'' \<noteq> VNone"
    and "A = create_access_token J t0 data key delta alg (Some ss)"
    and "end = end_of t0 (delta_or DEFAULT_ACCESS_TTL_SECONDS delta)"
  shows "now < end \<Longrightarrow> \<exists>p. verify_token J now A key ACCESS alg = Some p \<and> claim_get p ''scopes'' = VList (map VStr ss)
      \<and> (\<forall>k. k \<notin> {''exp'', ''token_type'', ''scopes''} \<longrightarrow> claim_get p k = claim_get data k)"
    and "end \<le> now \<Longrightarrow> verify_token J now A key ACCESS alg = None"
    and "is_expired_token J now A key alg \<longleftrightarrow> end \<le> now"
    and "verify_token J now A key REFRESH alg = None"
    and "claim_get data ''purpose'' = VNone \<Longrightarrow> verify_signed_token_full J now A key q alg = None"
proof -
  let ?c = "access_claims t0 data delta (Some ss)"
  obtain t where t: "expiry_claim t0 (delta_or DEFAULT_ACCESS_TTL_SECONDS delta) = VTime t"
    by (simp add: expiry_claim_def)
  have e: "map_of ?c ''exp'' = Some (VTime t)" and end': "t div usec * usec = end"
    by (simp_all add: access_claims_get(1) t end_of_expiry [OF t] assms(4))
  note live = verify_token_run [OF assms(1) e, unfolded end']
  note late = verify_token_late [OF assms(1) e, unfolded end']
  have sub: "claim_get ?c ''sub'' \<noteq> VNone" using assms(2) by (simp add: access_claims_get(4))
  have pur: "claim_get ?c ''purpose'' = claim_get data ''purpose''" by (simp add: access_claims_get(4))
  show "now < end \<Longrightarrow> \<exists>p. verify_token J now A key ACCESS alg = Some p \<and> claim_get p ''scopes'' = VList (map VStr ss)
      \<and> (\<forall>k. k \<notin> {''exp'', ''token_type'', ''scopes''} \<longrightarrow> claim_get p k = claim_get data k)"
    using live(1) [of now key alg ACCESS] sub
    by (auto simp: assms(3) tokens_encode access_claims_get)
  show "end \<le> now \<Longrightarrow> verify_token J now A key ACCESS alg = None"
    by (simp add: assms(3) tokens_encode late(1))
  show "is_expired_token J now A key alg \<longleftrightarrow> end \<le> now"
    using live(3) [of now key alg] late(3) [of now key alg]
    by (cases "now < end") (auto simp: assms(3) tokens_encode)
  show "verify_token J now A key REFRESH alg = None"
    using live(1) [of now key alg REFRESH] late(1) [of now key alg REFRESH]
    by (cases "now < end") (auto simp: assms(3) tokens_encode access_claims_get)
  show "claim_get data ''purpose'' = VNone \<Longrightarrow> verify_signed_token_full J now A key q alg = None"
    using live(2) [of now key alg q] late(2) [of now key alg q] pur
    by (cases "now < end") (auto simp: assms(3) tokens_encode)
qed

lemma refresh_token_run:
  assumes "jwt_decodes J" and "claim_get data ''sub'' \<noteq> VNone"
    and "B = create_refresh_token J t0 data key delta alg"
    and "end = end_of t0 (delta_or (DEFAULT_REFRESH_TTL_DAYS * SECONDS_PER_DAY) delta)"
  shows "now < end \<Longrightarrow> \<exists>p. verify_token J now B key REFRESH alg = Some p
      \<and> (\<forall>k. k \<notin> {''exp'', ''token_type''} \<longrightarrow> claim_get p k = claim_get data k)"
    and "end \<le> now \<Longrightarrow> verify_token J now B key REFRESH alg = None"
    and "is_expired_token J now B key alg \<longleftrightarrow> end \<le> now"
    and "verify_token J now B key ACCESS alg = None"
    and "claim_get data ''purpose'' = VNone \<Longrightarrow> verify_signed_token_full J now B key q alg = None"
proof -
  let ?c = "refresh_claims t0 data delta"
  obtain t where t: "expiry_claim t0 (delta_or (DEFAULT_REFRESH_TTL_DAYS * SECONDS_PER_DAY) delta) = VTime t"
    by (simp add: expiry_claim_def)
  have e: "map_of ?c ''exp'' = Some (VTime t)" and end': "t div usec * usec = end"
    by (simp_all add: refresh_claims_get(1) t end_of_expiry [OF t] assms(4))
  note live = verify_token_run [OF assms(1) e, unfolded end']
  note late = verify_token_late [OF assms(1) e, unfolded end']
  have sub: "claim_get ?c ''sub'' \<noteq> VNone" using assms(2) by (simp add: refresh_claims_get(3))
  have pur: "claim_get ?c ''purpose'' = claim_get data ''purpose''" by (simp add: refresh_claims_get(3))
  show "now < end \<Longrightarrow> \<exists>p. verify_token J now B key REFRESH alg = Some p
      \<and> (\<forall>k. k \<notin> {''exp'', ''token_type''} \<longrightarrow> claim_get p k = claim_get data k)"
    using live(1) [of now key alg REFRESH] sub
    by (auto simp: assms(3) tokens_encode refresh_claims_get)
  show "end \<le> now \<Longrightarrow> verify_token J now B key REFRESH alg = None"
    by (simp add: assms(3) tokens_encode late(1))
  show "is_expired_token J now B key alg \<longleftrightarrow> end \<le> now"
    using live(3) [of now key alg] late(3) [of now key alg]
    by (cases "now < end") (auto simp: assms(3) tokens_encode)
  show "verify_token J now B key ACCESS alg = None"
    using live(1) [of now key alg ACCESS] late(1) [of now key alg ACCESS]
    by (cases "now < end") (auto simp: assms(3) tokens_encode refresh_claims_get)
  show "claim_get data ''purpose'' = VNone \<Longrightarrow> verify_signed_token_full J now B key q alg = None"
    using live(2) [of now key alg q] late(2) [of now key alg q] pur
    by (cases "now < end") (auto simp: assms(3) tokens_encode)
qed

lemma signed_token_run:
  assumes "jwt_decodes J" and "set (map fst extra) \<inter> {''sub'', ''purpose'', ''exp'', ''token_type''} = {}"
    and "S = create_signed_token J t0 key uid purpose hours alg extra"
  shows "verify_signed_token J now S key q alg
      = (if now < end_of t0 (hours * 3600) \<and> q = purpose then Some (py_str uid) else None)"
    and "verify_token J now S key ty alg = None"
proof -
  let ?c = "signed_claims t0 uid purpose hours extra"
  obtain t where t: "expiry_claim t0 (hours * 3600) = VTime t" by (simp add: expiry_claim_def)
  note get = signed_claims_get [OF assms(2), of t0 uid purpose hours]
  have e: "map_of ?c ''exp'' = Some (VTime t)" and end': "t div usec * usec = end_of t0 (hours * 3600)"
    by (simp_all add: get t end_of_expiry [OF t])
  note live = verify_token_run [OF assms(1) e, unfolded end']
  note late = verify_token_late [OF assms(1) e, unfolded end']
  show "verify_signed_token J now S key q alg
      = (if now < end_of t0 (hours * 3600) \<and> q = purpose then Some (py_str uid) else None)"
    using live(2) [of now key alg q] late(2) [of now key alg q]
    by (cases "now < end_of t0 (hours * 3600)"; cases "q = purpose")
      (auto simp: assms(3) tokens_encode get verify_signed_token_def)
  show "verify_token J now S key ty alg = None"
    using live(1) [of now key alg ty] late(1) [of now key alg ty]
    by (cases "now < end_of t0 (hours * 3600)") (auto simp: assms(3) tokens_encode get)
qed

section \<open>Kinds and lifetimes\<close>

instance pyval :: countable
  by countable_datatype

text \<open>A token library that satisfies what is relied on: it numbers the signed contents.\<close>

definition demo_jwt :: jwt where
  "demo_jwt = \<lparr>jwt_encode = (\<lambda>c key alg. replicate (Suc (to_nat (c, key, alg))) CHR ''x''),
     jwt_decode = (\<lambda>now token key alg.
       let (c, key', alg') = (from_nat (length token - 1) :: claims \<times> string \<times> string)
       in if (key', alg') \<noteq> (key, alg) then OtherJwtError
          else case map_of c ''exp'' of
                 Some (VTime t) \<Rightarrow> if t div usec * usec \<le> now then ExpiredSignature
                                   else Decoded (AList.update ''exp'' (VInt (t div usec)) c)
               | _ \<Rightarrow> Decoded c)\<rparr>"

lemma demo_jwt_decodes: "jwt_decodes demo_jwt"
  by (auto simp: jwt_decodes_def demo_jwt_def Let_def update_conv')

text \<open>
  Tokens. An access or refresh token is accepted as what it is until its lifetime, counted
  in whole seconds, has passed, and its subject, epoch and scopes come back as they went in; a
  purpose token is accepted for its purpose only. At no time is a token of one kind accepted as
  one of another kind: an access token does not refresh, a refresh token does not authenticate,
  neither answers an email flow, and an email token does neither. Past its lifetime a token is
  reported as expired, never as forged.
\<close>

theorem token_kinds_and_lifetimes:
  assumes "jwt_decodes J" and "claim_get data ''sub'' \<noteq> VNone" and "claim_get data ''purpose'' = VNone"
    and "set (map fst extra) \<inter> {''sub'', ''purpose'', ''exp'', ''token_type''} = {}"
    and "A = create_access_token J t0 data key (Some ttl) alg (Some ss)"
    and "B = create_refresh_token J t0 data key (Some ttl) alg"
    and "S = create_signed_token J t0 key uid purpose hours alg extra" and "ttl \<noteq> 0"
  shows "(now < end_of t0 ttl \<longrightarrow> (\<exists>p q. verify_token J now A key ACCESS alg = Some p \<and> verify_token J now B key REFRESH alg = Some q
         \<and> claim_get p ''scopes'' = VList (map VStr ss)
         \<and> (\<forall>k. k \<notin> {''exp'', ''token_type''} \<longrightarrow> claim_get q k = claim_get data k \<and> (k \<noteq> ''scopes'' \<longrightarrow> claim_get p k = claim_get data k))))
    \<and> (end_of t0 ttl \<le> now \<longrightarrow> verify_token J now A key ACCESS alg = None \<and> verify_token J now B key REFRESH alg = None)
    \<and> (is_expired_token J now A key alg \<longleftrightarrow> end_of t0 ttl \<le> now) \<and> (is_expired_token J now B key alg \<longleftrightarrow> end_of t0 ttl \<le> now)
    \<and> verify_signed_token J now S key q alg = (if now < end_of t0 (hours * 3600) \<and> q = purpose then Some (py_str uid) else None)
    \<and> verify_token J now A key REFRESH alg = None \<and> verify_token J now B key ACCESS alg = None
    \<and> verify_signed_token_full J now A key q alg = None \<and> verify_signed_token_full J now B key q alg = None
    \<and> verify_token J now S key ty alg = None"
proof -
  have d: "delta_or x (Some ttl) = ttl" for x using assms(8) by (simp add: delta_or_def)
  note A = access_token_run [OF assms(1,2,5) refl, of now, unfolded d]
  note B = refresh_token_run [OF assms(1,2,6) refl, of now, unfolded d]
  note S = signed_token_run [OF assms(1,4,7), of now]
  have live: "\<exists>p q. verify_token J now A key ACCESS alg = Some p \<and> verify_token J now B key REFRESH alg = Some q
         \<and> claim_get p ''scopes'' = VList (map VStr ss)
         \<and> (\<forall>k. k \<notin> {''exp'', ''token_type''} \<longrightarrow> claim_get q k = claim_get data k \<and> (k \<noteq> ''scopes'' \<longrightarrow> claim_get p k = claim_get data k))"
    if lt: "now < end_of t0 ttl"
  proof -
    obtain p where p: "verify_token J now A key ACCESS alg = Some p" "claim_get p ''scopes'' = VList (map VStr ss)"
      "\<And>k. k \<notin> {''exp'', ''token_type'', ''scopes''} \<Longrightarrow> claim_get p k = claim_get data k"
      using A(1) [OF lt] by blast
    obtain q where q: "verify_token J now B key REFRESH alg = Some q"
      "\<And>k. k \<notin> {''exp'', ''token_type''} \<Longrightarrow> claim_get q k = claim_get data k"
      using B(1) [OF lt] by blast
    show ?thesis using p q by (intro exI [of _ p] exI [of _ q]) simp
  qed
  show ?thesis
    using A(2,3,4) A(5) [OF assms(3), of q] B(2,3,4) B(5) [OF assms(3), of q] S(1) [of q] S(2) [of ty]
    by (intro conjI impI live) simp_all
qed

theorem token_kinds_and_lifetimes_witness:
  "verify_token demo_jwt 0 (create_access_token demo_jwt 0 [(''sub'', VStr ''7'')] ''k'' (Some 60) ''HS256'' (Some [])) ''k'' REFRESH ''HS256'' = None"
  using token_kinds_and_lifetimes [OF demo_jwt_decodes, of "[(''sub'', VStr ''7'')]" "[]" _ 0 "''k''" 60 "''HS256''" "[]"]
  by (simp add: claim_get_def)

end
