(* ===== verification/Runtime.thy ===== *)
theory Runtime
  imports Sessions Passwords Tokens
begin

text \<open>
  The state and configuration that the transports and services share, \<open>crudauth/core.py\<close>,
  the lifecycle hooks (\<open>hooks.py\<close>), the \<open>Principal\<close> (\<open>principal.py\<close>), and the
  hardened password check behind every login route.

  A world holds the user table, the limiter's counters, the session and CSRF stores, the store
  of MFA challenges, the events the configured hooks were given, the cookies written to the
  response, the rate-limit headers recorded for it and set on it, the per-request cache of loaded users and the principals the request has
  resolved. The application's hooks are observers:
  each is a function from its event to a result or an exception.
\<close>

section \<open>Shapes\<close>

record cookie_config =
  secure :: bool
  samesite :: string
  path :: string

record hook_context =
  hc_ip :: "string option"
  hc_agent :: "string option"
  hc_transport :: "string option"
  hc_request :: "request option"
  hc_session_handle :: "string option"

definition no_context :: hook_context where
  "no_context = \<lparr>hc_ip = None, hc_agent = None, hc_transport = None, hc_request = None, hc_session_handle = None\<rparr>"

record hook_event =
  ev_name :: string
  ev_user :: "(string \<times> pyval) list option"
  ev_args :: "(string \<times> pyval) list"
  ev_context :: hook_context

type_synonym auth_hooks = "string \<Rightarrow> (hook_event \<Rightarrow> exc + unit) option"

text \<open>What the options of a login carry to \<open>complete_login\<close>.\<close>

record login_options =
  opt_remember_me :: bool
  opt_scopes :: "string list option"
  opt_metadata :: metadata
  opt_redirect_to :: "string option"

record mfa_challenge =
  account_id :: pyval
  ch_version :: int
  ch_transport :: string
  ch_setup :: bool
  ch_identifier :: string
  ch_ip :: string
  ch_options :: login_options
  ch_attempts :: int

record bearer_transport =
  access_ttl :: int
  refresh_ttl_days :: int
  refresh_location :: string
  default_scopes :: "string list"
  grantable_scopes :: "string list"
  refresh_cookie_name :: string
  refresh_cookie_path :: "string option"
  bearer_cookies :: "cookie_config option"

record ('s, 'c) session_transport =
  manager :: "('s, 'c) session_manager"
  csrf_enabled :: bool

datatype ('s, 'c) transport = SessionTransport "('s, 'c) session_transport" | BearerTransport bearer_transport

fun transport_name :: "('s, 'c) transport \<Rightarrow> string" where
  "transport_name (SessionTransport _) = ''session''"
| "transport_name (BearerTransport _) = ''bearer''"

record auth_principal =
  p_user_id :: pyval
  p_scopes :: "string list"
  p_transport :: string
  p_user :: "row option"
  p_is_superuser :: bool
  p_email_verified :: bool
  p_recovery_verified :: bool
  p_session_id :: "string option"

text \<open>
  A principal resolved earlier in the same request, with the database session it was loaded
  through and the checks that were made.
\<close>

record ('s, 'c) cached_principal =
  cp_principal :: auth_principal
  cp_transport :: "('s, 'c) transport"
  cp_db :: nat
  cp_csrf_enforced :: bool
  cp_activity_updated :: bool

record ('b, 's, 'c, 'm) world =
  db :: database
  limiter :: 'b
  sess :: "('s, 'c) session_world"
  challenges :: 'm
  hook_log :: "hook_event list"
  response_cookies :: "cookie_op list"
  rate_headers :: "(string \<times> string) list option"
  out_headers :: "(string \<times> string) list"
  user_cache :: "(pyval \<times> row option) list"
  resolved :: "(string list \<times> ('s, 'c) cached_principal) list"

text \<open>
  The settings of the second factor. Fernet is not part of the package: encryption under the
  first of the keys with a nonce, and decryption under any of them.
\<close>

record mfa_config =
  issuer :: string
  encryption_keys :: "string list"
  required_for :: "row \<Rightarrow> bool"
  mfa_oauth :: bool
  challenge_ttl_seconds :: int
  max_code_attempts :: int
  recovery_code_count :: int

record fernet =
  fernet_encrypt :: "string list \<Rightarrow> string \<Rightarrow> string \<Rightarrow> string"
  fernet_decrypt :: "string list \<Rightarrow> string \<Rightarrow> string option"

record 'm mfa_service =
  mfa_conf :: mfa_config
  challenge_store :: "('m, mfa_challenge) session_storage"
  cipher :: fernet

record ('b, 's, 'c, 'm) auth_runtime =
  secret_key :: string
  repo :: user_repo
  hooks :: auth_hooks
  algorithm :: string
  app_cookies :: cookie_config
  rate_limiter :: "'b rate_limiter_backend"
  lockout :: "lockout_policy option"
  proxy_hops :: nat
  transports :: "('s, 'c) transport list"
  mfa :: "'m mfa_service option"
  legacy_verifiers :: "legacy_verifier list"
  crypto_lib :: crypto
  jwt_lib :: jwt

text \<open>The clock, the database session a request is given, and what it draws at random.\<close>

record fresh =
  now :: int
  request_db :: nat
  fresh_session :: string
  fresh_csrf :: string
  fresh_salt :: string
  fresh_challenge :: string
  fresh_secret :: string
  fresh_nonce :: string
  fresh_choices :: "nat \<Rightarrow> nat"

definition has_scopes :: "auth_principal \<Rightarrow> string list \<Rightarrow> bool" where
  "has_scopes p required \<longleftrightarrow> set required \<subseteq> set (p_scopes p)"

section \<open>Parts of the world\<close>

definition in_db :: "(database, 'a) prog \<Rightarrow> (('b, 's, 'c, 'm) world, 'a) prog" where
  "in_db m = zoom db (\<lambda>x w. w\<lparr>db := x\<rparr>) m"

definition in_lim :: "('b, 'a) prog \<Rightarrow> (('b, 's, 'c, 'm) world, 'a) prog" where
  "in_lim m = zoom limiter (\<lambda>x w. w\<lparr>limiter := x\<rparr>) m"

definition in_sessions :: "(('s, 'c) session_world, 'a) prog \<Rightarrow> (('b, 's, 'c, 'm) world, 'a) prog" where
  "in_sessions m = zoom sess (\<lambda>x w. w\<lparr>sess := x\<rparr>) m"

definition in_challenges :: "('m, 'a) prog \<Rightarrow> (('b, 's, 'c, 'm) world, 'a) prog" where
  "in_challenges m = zoom challenges (\<lambda>x w. w\<lparr>challenges := x\<rparr>) m"

lemma in_db_run [run_simps]: "in_db m w = (fst (m (db w)), w\<lparr>db := snd (m (db w))\<rparr>)"
  by (simp add: in_db_def run_simps)

lemma in_lim_run [run_simps]: "in_lim m w = (fst (m (limiter w)), w\<lparr>limiter := snd (m (limiter w))\<rparr>)"
  by (simp add: in_lim_def run_simps)

lemma in_sessions_run [run_simps]: "in_sessions m w = (fst (m (sess w)), w\<lparr>sess := snd (m (sess w))\<rparr>)"
  by (simp add: in_sessions_def run_simps)

lemma in_challenges_run [run_simps]:
  "in_challenges m w = (fst (m (challenges w)), w\<lparr>challenges := snd (m (challenges w))\<rparr>)"
  by (simp add: in_challenges_def run_simps)

section \<open>Hooks\<close>

definition run_best_effort :: "auth_hooks \<Rightarrow> hook_event \<Rightarrow> (('b, 's, 'c, 'm) world, bool) prog" where
  "run_best_effort H ev =
     (case H (ev_name ev) of
        None \<Rightarrow> ret True
      | Some hook \<Rightarrow>
          bind (modifies (\<lambda>w. w\<lparr>hook_log := hook_log w @ [ev]\<rparr>)) (\<lambda>_.
          ret (case hook ev of Inl e \<Rightarrow> False | Inr _ \<Rightarrow> True)))"

text \<open>A rollback after a failing hook undoes the hook's own uncommitted work only.\<close>

definition run_with_db :: "auth_hooks \<Rightarrow> hook_event \<Rightarrow> (('b, 's, 'c, 'm) world, unit) prog" where
  "run_with_db H ev = bind (run_best_effort H ev) (\<lambda>ok. if ok then ret () else ret ())"

definition hook_event_of :: "string \<Rightarrow> (string \<times> pyval) list option \<Rightarrow> (string \<times> pyval) list \<Rightarrow> hook_context \<Rightarrow> hook_event" where
  "hook_event_of name user args ctx = \<lparr>ev_name = name, ev_user = user, ev_args = args, ev_context = ctx\<rparr>"

definition run_login_failed :: "auth_hooks \<Rightarrow> string \<Rightarrow> (string \<times> pyval) list option \<Rightarrow> string \<Rightarrow> hook_context \<Rightarrow>
    (('b, 's, 'c, 'm) world, unit) prog" where
  "run_login_failed H identifier user reason ctx =
     bind (run_best_effort H (hook_event_of ''on_login_failed'' user
             [(''identifier'', VStr identifier), (''reason'', VStr reason)] ctx)) (\<lambda>_. ret ())"

definition run_lockout :: "auth_hooks \<Rightarrow> string \<Rightarrow> int \<Rightarrow> hook_context \<Rightarrow> (('b, 's, 'c, 'm) world, unit) prog" where
  "run_lockout H identifier retry_after ctx =
     bind (run_best_effort H (hook_event_of ''on_lockout'' None
             [(''identifier'', VStr identifier), (''retry_after'', VInt retry_after)] ctx)) (\<lambda>_. ret ())"

definition run_after_login :: "auth_hooks \<Rightarrow> (string \<times> pyval) list \<Rightarrow> hook_context \<Rightarrow> (('b, 's, 'c, 'm) world, unit) prog" where
  "run_after_login H user ctx = bind (run_best_effort H (hook_event_of ''on_after_login'' (Some user) [] ctx)) (\<lambda>_. ret ())"

definition run_after_logout :: "auth_hooks \<Rightarrow> (string \<times> pyval) list \<Rightarrow> hook_context \<Rightarrow> (('b, 's, 'c, 'm) world, unit) prog" where
  "run_after_logout H user ctx = bind (run_best_effort H (hook_event_of ''on_after_logout'' (Some user) [] ctx)) (\<lambda>_. ret ())"

definition run_after_sudo :: "auth_hooks \<Rightarrow> (string \<times> pyval) list \<Rightarrow> hook_context \<Rightarrow> (('b, 's, 'c, 'm) world, unit) prog" where
  "run_after_sudo H user ctx = bind (run_best_effort H (hook_event_of ''on_after_sudo'' (Some user) [] ctx)) (\<lambda>_. ret ())"

definition run_after_mfa_enabled :: "auth_hooks \<Rightarrow> (string \<times> pyval) list \<Rightarrow> hook_context \<Rightarrow> (('b, 's, 'c, 'm) world, unit) prog" where
  "run_after_mfa_enabled H user ctx = run_with_db H (hook_event_of ''on_after_mfa_enabled'' (Some user) [] ctx)"

definition run_after_mfa_disabled :: "auth_hooks \<Rightarrow> (string \<times> pyval) list \<Rightarrow> hook_context \<Rightarrow> (('b, 's, 'c, 'm) world, unit) prog" where
  "run_after_mfa_disabled H user ctx = run_with_db H (hook_event_of ''on_after_mfa_disabled'' (Some user) [] ctx)"

definition run_after_recovery_code_used :: "auth_hooks \<Rightarrow> (string \<times> pyval) list \<Rightarrow> hook_context \<Rightarrow> (('b, 's, 'c, 'm) world, unit) prog" where
  "run_after_recovery_code_used H user ctx = run_with_db H (hook_event_of ''on_after_recovery_code_used'' (Some user) [] ctx)"

section \<open>The password check\<close>

definition opt_str :: "pyval \<Rightarrow> string option" where
  "opt_str v = (case v of VStr s \<Rightarrow> Some s | _ \<Rightarrow> None)"

definition request_context :: "('b, 's, 'c, 'm) auth_runtime \<Rightarrow> request \<Rightarrow> hook_context" where
  "request_context T r = \<lparr>hc_ip = Some (get_client_ip r (proxy_hops T)), hc_agent = header r ''user-agent'',
     hc_transport = None, hc_request = Some r, hc_session_handle = None\<rparr>"

definition record_login_success :: "('b, 's, 'c, 'm) auth_runtime \<Rightarrow> fresh \<Rightarrow> string \<Rightarrow> string \<Rightarrow>
    (('b, 's, 'c, 'm) world, unit) prog" where
  "record_login_success T f ip identifier =
     (case lockout T of
        None \<Rightarrow> ret ()
      | Some P \<Rightarrow> bind (in_lim (check_and_record P (rate_limiter T) (now f) ip identifier True)) (\<lambda>_. ret ()))"

definition BAD_CREDENTIALS :: exc where
  "BAD_CREDENTIALS = UnauthorizedException ''Incorrect username or password''"

definition TOO_MANY :: "int \<Rightarrow> exc" where
  "TOO_MANY retry_after = RateLimitException ''Too many login attempts. Try again later.'' (Some retry_after) []"

definition guard_lockout :: "('b, 's, 'c, 'm) auth_runtime \<Rightarrow> fresh \<Rightarrow> string \<Rightarrow> string \<Rightarrow> hook_context \<Rightarrow>
    (('b, 's, 'c, 'm) world, unit) prog" where
  "guard_lockout T f ip identifier ctx =
     (case lockout T of
        None \<Rightarrow> ret ()
      | Some P \<Rightarrow>
          bind (in_lim (check_and_record P (rate_limiter T) (now f) ip identifier False)) (\<lambda>(allowed, _, retry_after).
          if allowed then ret ()
          else bind (run_lockout (hooks T) identifier retry_after ctx) (\<lambda>_. raise (TOO_MANY retry_after))))"

text \<open>The stored hash against the password: whether it verifies, and a replacement hash.\<close>

definition check_hash :: "('b, 's, 'c, 'm) auth_runtime \<Rightarrow> fresh \<Rightarrow> string \<Rightarrow> string option \<Rightarrow> bool \<times> string option" where
  "check_hash T f password hashed =
     (let (verified, new_hash) = verify_and_update_password (crypto_lib T) (fresh_salt f) password hashed
      in if \<not> verified \<and> legacy_verifiers T \<noteq> []
         then (if verify_legacy_password (crypto_lib T) (legacy_verifiers T) password hashed
               then (True, Some (get_password_hash (crypto_lib T) (fresh_salt f) password))
               else (False, new_hash))
         else (verified, new_hash))"

definition authenticate_password :: "('b, 's, 'c, 'm) auth_runtime \<Rightarrow> fresh \<Rightarrow> request \<Rightarrow> string \<Rightarrow> string \<Rightarrow> bool \<Rightarrow>
    (('b, 's, 'c, 'm) world, row) prog" where
  "authenticate_password T f r identifier password clears =
     (let ip = get_client_ip r (proxy_hops T); ctx = request_context T r; R = repo T
      in bind (guard_lockout T f ip identifier ctx) (\<lambda>_.
         bind (in_db (resolve_login R identifier)) (\<lambda>user.
         let hashed = (case user of None \<Rightarrow> None | Some u \<Rightarrow> opt_str (get_field R u ''hashed_password'' VNone));
             (verified, new_hash) = check_hash T f password hashed
         in case user of
              None \<Rightarrow> bind (run_login_failed (hooks T) identifier None ''invalid_credentials'' ctx) (\<lambda>_. raise BAD_CREDENTIALS)
            | Some u \<Rightarrow>
                if \<not> verified
                then bind (run_login_failed (hooks T) identifier (Some (to_dict R u)) ''invalid_credentials'' ctx)
                       (\<lambda>_. raise BAD_CREDENTIALS)
                else if \<not> is_active R u
                then bind (run_login_failed (hooks T) identifier (Some (to_dict R u)) ''inactive'' ctx)
                       (\<lambda>_. raise BAD_CREDENTIALS)
                else
                  bind (case new_hash of
                          None \<Rightarrow> ret u
                        | Some h \<Rightarrow> in_db (update_user R u [(''hashed_password'', VStr h)])) (\<lambda>u'.
                  bind (if clears then record_login_success T f ip identifier
                        else case lockout T of
                               None \<Rightarrow> ret ()
                             | Some P \<Rightarrow> in_lim (forget_attempt P (rate_limiter T) (now f) ip identifier)) (\<lambda>_.
                  ret u')))))"

section \<open>Loading the user of a request\<close>

definition resolve_user :: "user_repo \<Rightarrow> pyval \<Rightarrow> (('b, 's, 'c, 'm) world, row option) prog" where
  "resolve_user R uid =
     bind (gets (\<lambda>w. map_of (user_cache w) uid)) (\<lambda>cached.
     case cached of
       Some u \<Rightarrow> ret u
     | None \<Rightarrow>
         bind (in_db (get_by_id R uid)) (\<lambda>u.
         bind (modifies (\<lambda>w. w\<lparr>user_cache := (uid, u) # user_cache w\<rparr>)) (\<lambda>_. ret u)))"

definition build_principal :: "user_repo \<Rightarrow> pyval \<Rightarrow> row option \<Rightarrow> string \<Rightarrow> string list \<Rightarrow> string option \<Rightarrow> auth_principal" where
  "build_principal R uid user transport scopes sid =
     \<lparr>p_user_id = uid, p_scopes = scopes, p_transport = transport, p_user = user,
      p_is_superuser = (case user of None \<Rightarrow> False | Some u \<Rightarrow> is_superuser R u),
      p_email_verified = (case user of None \<Rightarrow> False | Some u \<Rightarrow> email_verified R u),
      p_recovery_verified = (case user of None \<Rightarrow> False | Some u \<Rightarrow> recovery_verified R u),
      p_session_id = sid\<rparr>"

end
