(* ===== verification/SessionLaws.thy ===== *)
theory SessionLaws
  imports Sessions
begin

text \<open>
  What the session manager promises over any stores that keep the store contract, and the
  properties of sessions on the in-memory stores.
\<close>

lemma in_sess_run [run_simps]:
  "in_sess m w = (fst (m (sess_store w)), w\<lparr>sess_store := snd (m (sess_store w))\<rparr>)"
  by (simp add: in_sess_def run_simps)

lemma in_csrf_run [run_simps]:
  "in_csrf m w = (fst (m (csrf_store w)), w\<lparr>csrf_store := snd (m (csrf_store w))\<rparr>)"
  by (simp add: in_csrf_def run_simps)

definition drop_keys :: "'k set \<Rightarrow> ('k \<rightharpoonup> 'v) \<Rightarrow> 'k \<rightharpoonup> 'v" where
  "drop_keys A m = (\<lambda>k. if k \<in> A then None else m k)"

lemma drop_keys_empty [simp]: "drop_keys {} m = m"
  by (simp add: drop_keys_def)

lemma drop_keys_upd [simp]: "drop_keys A (m(k := None)) = drop_keys (insert k A) m"
  by (auto simp: drop_keys_def)

lemma drop_keys_if [simp]: "drop_keys A (\<lambda>a. if a = k then None else m a) = drop_keys (insert k A) m"
  by (auto simp: drop_keys_def)

lemma drop_keys_apply: "drop_keys A m k = (if k \<in> A then None else m k)"
  by (simp add: drop_keys_def)

definition csrf_ids :: "(string \<times> session_data) list \<Rightarrow> string set" where
  "csrf_ids ps = {csrf_id_of d | k d. (k, d) \<in> set ps \<and> csrf_id_of d \<noteq> []}"

lemma csrf_ids_Nil [simp]: "csrf_ids [] = {}"
  by (simp add: csrf_ids_def)

lemma csrf_ids_Cons:
  "csrf_ids ((k, d) # ps) = (if csrf_id_of d = [] then csrf_ids ps else insert (csrf_id_of d) (csrf_ids ps))"
  by (auto simp: csrf_ids_def)

text \<open>The session a login writes.\<close>

definition new_session :: "session_options \<Rightarrow> int \<Rightarrow> string \<Rightarrow> string \<Rightarrow> request \<Rightarrow> pyval \<Rightarrow> metadata \<Rightarrow> int option \<Rightarrow> session_data" where
  "new_session cfg now uuid tok r u md ver =
     \<lparr>user_id = u, session_id = session_key cfg uuid,
      ip_address = get_client_ip r (trusted_proxy_hops cfg),
      user_agent = (case header r ''user-agent'' of None \<Rightarrow> [] | Some a \<Rightarrow> a),
      device_info = parse_user_agent (user_agents_parse cfg)
        (case header r ''user-agent'' of None \<Rightarrow> [] | Some a \<Rightarrow> a),
      created_at = now, last_activity = now,
      metadata = AList.update CSRF_TOKEN_ID_META_KEY (VStr (csrf_key cfg tok)) md, token_version = ver\<rparr>"

definition presented_of :: "session_options \<Rightarrow> request \<Rightarrow> string" where
  "presented_of cfg r = (case cookie r (session_cookie_name cfg) of None \<Rightarrow> [] | Some c \<Rightarrow> c)"

abbreviation sess_user :: "session_data \<Rightarrow> pyval option" where
  "sess_user \<equiv> \<lambda>d. Some (user_id d)"

text \<open>One entry map has nothing the other has not, under the same owners.\<close>

definition shrinks :: "session_data entries \<Rightarrow> session_data entries \<Rightarrow> bool" where
  "shrinks e e' \<longleftrightarrow> (\<forall>k d x. e' k = Some (d, x) \<longrightarrow> (\<exists>d0 x0. e k = Some (d0, x0) \<and> user_id d0 = user_id d))"

lemma shrinks_refl [simp]: "shrinks e e"
  by (auto simp: shrinks_def)

lemma shrinks_trans: "shrinks e e' \<Longrightarrow> shrinks e' e'' \<Longrightarrow> shrinks e e''"
  by (fastforce simp: shrinks_def)

lemma shrinks_del [simp]: "shrinks e (e(k := None))"
  by (auto simp: shrinks_def)

lemma shrinks_drop [simp]: "shrinks e (drop_keys A e)"
  by (auto simp: shrinks_def drop_keys_def)

lemma shrinks_live [simp]: "shrinks e (live_at t e)"
  by (auto simp: shrinks_def live_at_def split: option.splits if_splits)

lemma shrinks_upd: "e k = Some (d0, x0) \<Longrightarrow> user_id d0 = user_id d \<Longrightarrow> shrinks e (e(k \<mapsto> (d, x)))"
  by (auto simp: shrinks_def)

lemma shrinks_owned: "shrinks e e' \<Longrightarrow> owned sess_user u e' \<subseteq> owned sess_user u e"
  by (fastforce simp: shrinks_def owned_def)

text \<open>No user has more live sessions than the configured maximum.\<close>

definition within_cap :: "int \<Rightarrow> session_data entries \<Rightarrow> bool" where
  "within_cap m e \<longleftrightarrow> (\<forall>u. finite (owned sess_user u e) \<and> int (card (owned sess_user u e)) \<le> m)"

lemma within_cap_shrinks:
  assumes "within_cap m e" and "shrinks e e'"
  shows "within_cap m e'"
  unfolding within_cap_def
proof (intro allI conjI)
  fix u
  from assms(1) have f: "finite (owned sess_user u e)" and c: "int (card (owned sess_user u e)) \<le> m"
    by (auto simp: within_cap_def)
  note sub = shrinks_owned [OF assms(2), of u]
  from finite_subset [OF sub f] show "finite (owned sess_user u e')" .
  from card_mono [OF f sub] c show "int (card (owned sess_user u e')) \<le> m" by simp
qed

text \<open>
  Every operation of the manager, at the current instant; \<open>waits\<close> lets time pass.
\<close>

inductive session_step :: "('s, 'c) session_manager \<Rightarrow> int \<times> ('s, 'c) session_world \<Rightarrow>
    int \<times> ('s, 'c) session_world \<Rightarrow> bool" for M where
  waits: "now \<le> t \<Longrightarrow> session_step M (now, w) (t, w)"
| logs_in: "uuid \<noteq> [] \<Longrightarrow> tok \<noteq> [] \<Longrightarrow> 0 \<le> ttl_or (timeout_seconds_for (opts M) md) e \<Longrightarrow>
    session_step M (now, w) (now, snd (create_session M now uuid tok r u md e ver w))"
| validates: "session_step M (now, w) (now, snd (validate_session M now sid act w))"
| rotates: "tok \<noteq> [] \<Longrightarrow> (\<And>md. 0 \<le> ttl_or (timeout_seconds_for (opts M) md) e) \<Longrightarrow>
    session_step M (now, w) (now, snd (regenerate_csrf_token M now tok sid e w))"
| changes: "(\<And>d. user_id (change d) = user_id d) \<Longrightarrow>
    session_step M (now, w) (now, snd (modify_session M now sid change w))"
| logs_out: "session_step M (now, w) (now, snd (terminate_session M now sid w))"
| revokes: "session_step M (now, w) (now, snd (revoke M now sid owner w))"
| revokes_handle: "session_step M (now, w) (now, snd (revoke_by_handle M now h owner w))"
| revokes_all: "session_step M (now, w) (now, snd (revoke_all M now u exclude w))"
| cleans: "session_step M (now, w) (now, snd (cleanup_expired_sessions M now force w))"

inductive_cases session_stepE: "session_step M (now, w) s'"

inductive session_reach :: "('s, 'c) session_manager \<Rightarrow> int \<times> ('s, 'c) session_world \<Rightarrow>
    int \<times> ('s, 'c) session_world \<Rightarrow> bool" for M where
  here: "session_reach M s s"
| more: "session_reach M s s' \<Longrightarrow> session_step M s' s'' \<Longrightarrow> session_reach M s s''"

definition loaded_from :: "(string \<times> session_data) list \<Rightarrow> session_data entries \<Rightarrow> bool" where
  "loaded_from ps e \<longleftrightarrow> distinct (map fst ps) \<and> (\<forall>(k, d) \<in> set ps. val_of e k = Some d)"

lemma key_nonempty: "sid \<noteq> [] \<Longrightarrow> session_key (cfg) sid \<noteq> []" "tok \<noteq> [] \<Longrightarrow> csrf_key (cfg) tok \<noteq> []"
  by (auto simp: session_key_def csrf_key_def keyed_def split: option.splits)

locale session_managing =
  S: timed_store "storage M" sview sok sess_user shit due svalid good +
  C: timed_store cst cview cok cwho chit due cvalid good
  for M :: "('s, 'c) session_manager" and sview sok shit cst cview cok cwho chit due svalid cvalid good +
  fixes fresh_id :: "string \<Rightarrow> bool" and fresh_token :: "string \<Rightarrow> bool"
  assumes csrf_on: "csrf_storage M = Some cst"
    and fresh: "fresh_id uuid \<Longrightarrow> uuid \<noteq> [] \<and> svalid (session_key (opts M) uuid)"
      "fresh_token tok \<Longrightarrow> tok \<noteq> [] \<and> cvalid (csrf_key (opts M) tok)"
begin

abbreviation wok :: "('s, 'c) session_world \<Rightarrow> bool" where
  "wok w \<equiv> sok (sess_store w) \<and> cok (csrf_store w)"

abbreviation live :: "int \<Rightarrow> ('s, 'c) session_world \<Rightarrow> session_data entries" where
  "live now w \<equiv> sview now (sess_store w)"

abbreviation tokens :: "int \<Rightarrow> ('s, 'c) session_world \<Rightarrow> csrf_token entries" where
  "tokens now w \<equiv> cview now (csrf_store w)"

lemma terminate_run:
  assumes "wok w"
  shows "fst (terminate M now key d w) = Inr (shit now (sess_store w) key)"
    and "live now (snd (terminate M now key d w)) = (live now w)(key := None)"
    and "tokens now (snd (terminate M now key d w)) =
      (if csrf_id_of d = [] then tokens now w else (tokens now w)(csrf_id_of d := None))"
    and "wok (snd (terminate M now key d w))"
  using assms by (simp_all add: terminate_def csrf_on run_simps S.store_laws C.store_laws)

lemma terminate_list_run:
  assumes "wok w"
  shows "fst (for_each ps (\<lambda>(sid, d). bind (terminate M now sid d) (\<lambda>_. ret ())) w) = Inr ()
    \<and> live now (snd (for_each ps (\<lambda>(sid, d). bind (terminate M now sid d) (\<lambda>_. ret ())) w))
        = drop_keys (fst ` set ps) (live now w)
    \<and> tokens now (snd (for_each ps (\<lambda>(sid, d). bind (terminate M now sid d) (\<lambda>_. ret ())) w))
        = drop_keys (csrf_ids ps) (tokens now w)
    \<and> wok (snd (for_each ps (\<lambda>(sid, d). bind (terminate M now sid d) (\<lambda>_. ret ())) w))"
  using assms
proof (induction ps arbitrary: w)
  case (Cons p ps)
  obtain k d where p: "p = (k, d)" by (cases p)
  from Cons.IH [of "snd (terminate M now k d w)"] Cons.prems
  show ?case by (simp add: p run_simps terminate_run csrf_ids_Cons)
qed (simp add: run_simps)

lemma load_run:
  assumes "wok w" and "\<forall>k \<in> set ids. live now w k \<noteq> None"
  shows "fst (load_sessions M now u ids w) = Inr (map (\<lambda>k. (k, the (val_of (live now w) k))) ids)
    \<and> live now (snd (load_sessions M now u ids w)) = live now w
    \<and> tokens now (snd (load_sessions M now u ids w)) = tokens now w
    \<and> wok (snd (load_sessions M now u ids w))"
  using assms
proof (induction ids arbitrary: w)
  case (Cons k ids)
  then obtain v d where k: "live now w k = Some (v, d)" by auto
  let ?w = "snd (in_sess (st_get (storage M) now k) w)"
  from Cons.IH [of ?w] Cons.prems k
  show ?case by (simp add: run_simps S.store_laws val_of_def)
qed (simp add: run_simps)

lemma user_sessions_run:
  assumes "wok w"
  obtains ps where "fst (user_sessions M now u w) = Inr ps"
    and "loaded_from ps (live now w)" and "fst ` set ps = owned sess_user u (live now w)"
    and "live now (snd (user_sessions M now u w)) = live now w"
    and "tokens now (snd (user_sessions M now u w)) = tokens now w"
    and "wok (snd (user_sessions M now u w))"
proof -
  obtain ids where ids: "fst (st_get_user_sessions (storage M) now u (sess_store w)) = Inr ids"
    "distinct ids" "set ids = owned sess_user u (live now w)"
    using S.user_sessions_result [of "sess_store w" now u] assms by blast
  let ?w = "w\<lparr>sess_store := snd (st_get_user_sessions (storage M) now u (sess_store w))\<rparr>"
  have ok: "wok ?w" and v: "live now ?w = live now w" using assms by (simp_all add: S.store_laws)
  have l: "\<forall>k \<in> set ids. live now ?w k \<noteq> None" using ids(3) v by (auto simp: owned_def)
  let ?ps = "map (\<lambda>k. (k, the (val_of (live now w) k))) ids"
  have "loaded_from ?ps (live now w)"
    using ids(2) l v by (auto simp: loaded_from_def comp_def val_of_def)
  moreover have "fst ` set ?ps = owned sess_user u (live now w)" using ids(3) by (simp add: image_image)
  ultimately show ?thesis
    using that [of ?ps] load_run [OF ok l, of u] ids(1) v
    by (simp add: user_sessions_def user_session_ids_def run_simps)
qed

lemma sorted_split:
  assumes "loaded_from ps e" and "qs = take n (sort_key f ps)"
  shows "fst ` set qs \<subseteq> fst ` set ps" and "card (fst ` set qs) = min n (length ps)"
    and "p \<in> set ps \<Longrightarrow> fst p \<notin> fst ` set qs \<Longrightarrow> q \<in> set qs \<Longrightarrow> f q \<le> f p"
proof -
  show "fst ` set qs \<subseteq> fst ` set ps"
    using set_take_subset [of n "sort_key f ps"] assms(2) by auto
  have d: "distinct (map fst (sort_key f ps))"
    using assms(1) by (simp add: loaded_from_def distinct_map)
  then have "distinct (map fst qs)" using assms(2) by (simp add: take_map [symmetric] distinct_take)
  then have "card (fst ` set qs) = length qs" using distinct_card [of "map fst qs"] by simp
  then show "card (fst ` set qs) = min n (length ps)" using assms(2) by (simp add: min.commute)
  show "f q \<le> f p" if "p \<in> set ps" "fst p \<notin> fst ` set qs" "q \<in> set qs"
  proof -
    have "sorted (map f (take n (sort_key f ps)) @ map f (drop n (sort_key f ps)))"
      by (metis append_take_drop_id map_append sorted_sort_key)
    moreover have "p \<in> set (drop n (sort_key f ps))"
    proof -
      have "p \<in> set (take n (sort_key f ps)) \<union> set (drop n (sort_key f ps))"
        using that(1) by (metis append_take_drop_id set_append set_sort)
      then show ?thesis using that(2) assms(2) by (auto simp: image_iff)
    qed
    ultimately show ?thesis using that(3) assms(2) by (auto simp: sorted_append)
  qed
qed

lemma limit_run:
  assumes "wok w"
  obtains A B where "fst (enforce_session_limit M now u w) = Inr ()"
    and "live now (snd (enforce_session_limit M now u w)) = drop_keys A (live now w)"
    and "tokens now (snd (enforce_session_limit M now u w)) = drop_keys B (tokens now w)"
    and "wok (snd (enforce_session_limit M now u w))"
    and "A \<subseteq> owned sess_user u (live now w)"
    and "B \<subseteq> {csrf_id_of d | k d x. k \<in> A \<and> live now w k = Some (d, x)}"
    and "finite (owned sess_user u (live now w))"
    and "0 < max_sessions (opts M) \<Longrightarrow>
      int (card (owned sess_user u (live now w) - A)) \<le> max_sessions (opts M) - 1"
    and "int (card (owned sess_user u (live now w))) < max_sessions (opts M) \<Longrightarrow> A = {}"
    and "\<And>k k' d d'. k \<in> A \<Longrightarrow> k' \<in> owned sess_user u (live now w) - A \<Longrightarrow>
      val_of (live now w) k = Some d \<Longrightarrow> val_of (live now w) k' = Some d' \<Longrightarrow>
      last_activity d \<le> last_activity d'"
proof -
  obtain ps where ps: "fst (user_sessions M now u w) = Inr ps" "loaded_from ps (live now w)"
    "fst ` set ps = owned sess_user u (live now w)"
    "live now (snd (user_sessions M now u w)) = live now w"
    "tokens now (snd (user_sessions M now u w)) = tokens now w" "wok (snd (user_sessions M now u w))"
    using user_sessions_run [OF assms] by metis
  have card: "card (owned sess_user u (live now w)) = length ps"
    using distinct_card [of "map fst ps"] ps(2,3) by (simp add: loaded_from_def)
  let ?n = "if int (length ps) \<ge> max_sessions (opts M) then nat (int (length ps) - max_sessions (opts M) + 1) else 0"
  define qs where qs: "qs = take ?n (sort_key (\<lambda>p. last_activity (snd p)) ps)"
  note sp = sorted_split [OF ps(2) qs]
  note run = terminate_list_run [OF ps(6), of qs now]
  have eq: "enforce_session_limit M now u w
      = for_each qs (\<lambda>(sid, d). bind (terminate M now sid d) (\<lambda>_. ret ())) (snd (user_sessions M now u w))"
    using ps(1) by (simp add: enforce_session_limit_def run_simps qs)
  have vals: "(k, d) \<in> set ps \<Longrightarrow> val_of (live now w) k = Some d" for k d
    using ps(2) by (auto simp: loaded_from_def)
  have qsub: "set qs \<subseteq> set ps" using set_take_subset [of ?n "sort_key (\<lambda>p. last_activity (snd p)) ps"] qs by auto
  show ?thesis
  proof (rule that [of "fst ` set qs" "csrf_ids qs"])
    show "csrf_ids qs \<subseteq> {csrf_id_of d | k d x. k \<in> fst ` set qs \<and> live now w k = Some (d, x)}"
      using vals qsub by (fastforce simp: csrf_ids_def val_of_def image_iff)
    show "finite (owned sess_user u (live now w))" using ps(3) by (metis List.finite_set finite_imageI)
    show "int (card (owned sess_user u (live now w) - fst ` set qs)) \<le> max_sessions (opts M) - 1"
      if "0 < max_sessions (opts M)"
      using that sp(1,2) card ps(3) by (auto simp: card_Diff_subset)
    show "fst ` set qs = {}" if "int (card (owned sess_user u (live now w))) < max_sessions (opts M)"
      using that card qs by simp
    show "last_activity d \<le> last_activity d'"
      if "k \<in> fst ` set qs" "k' \<in> owned sess_user u (live now w) - fst ` set qs"
        "val_of (live now w) k = Some d" "val_of (live now w) k' = Some d'" for k k' d d'
    proof -
      from that(1) obtain d0 where d0: "(k, d0) \<in> set qs" by auto
      from that(2) ps(3) obtain d1 where d1: "(k', d1) \<in> set ps" by force
      have "d0 = d" "d1 = d'" using vals [of k d0] vals [OF d1] d0 qsub that(3,4) by auto
      then show ?thesis using sp(3) [of "(k', d1)" "(k, d0)"] d0 d1 that(2) by auto
    qed
  qed (use run eq ps sp(1) in simp_all)
qed

lemma terminate_session_run:
  assumes "wok w"
  shows "\<exists>b. fst (terminate_session M now sid w) = Inr b"
    and "live now (snd (terminate_session M now sid w)) = (live now w)(session_key (opts M) sid := None)"
    and "tokens now (snd (terminate_session M now sid w)) =
      (case val_of (live now w) (session_key (opts M) sid) of
         None \<Rightarrow> tokens now w
       | Some d \<Rightarrow> if csrf_id_of d = [] then tokens now w else (tokens now w)(csrf_id_of d := None))"
    and "wok (snd (terminate_session M now sid w))"
  using assms
  by (auto simp: terminate_session_def run_simps S.store_laws terminate_run val_of_def fun_upd_idem
      split: option.splits)

lemma generate_run:
  assumes "wok w" and "fresh_token tok" and "good ttl"
  shows "fst (generate_csrf_token M now tok key (Some ttl) w) = Inr tok"
    and "live now (snd (generate_csrf_token M now tok key (Some ttl) w)) = live now w"
    and "tokens now (snd (generate_csrf_token M now tok key (Some ttl) w)) =
      (tokens now w)(csrf_key (opts M) tok \<mapsto>
        (\<lparr>csrf_token_key = csrf_key (opts M) tok, csrf_session_id = key, csrf_expiry = now + ttl * usec\<rparr>,
         due now ttl))"
    and "wok (snd (generate_csrf_token M now tok key (Some ttl) w))"
  using assms fresh(2) [OF assms(2)]
  by (simp_all add: generate_csrf_token_def csrf_on Let_def run_simps C.store_laws ttl_or_def)

lemma create_run:
  assumes "wok w" and "fresh_id uuid" and "fresh_token tok" and "good (ttl_or (timeout_seconds_for (opts M) md) e)"
    and "ttl = ttl_or (timeout_seconds_for (opts M) md) e" and "key = session_key (opts M) uuid"
    and "w0 = (if presented_of (opts M) r = [] then w else snd (terminate_session M now (presented_of (opts M) r) w))"
    and "w1 = snd (enforce_session_limit M now u w0)"
  shows "fst (create_session M now uuid tok r u md e ver w) = Inr (uuid, tok)"
    and "live now (snd (create_session M now uuid tok r u md e ver w)) =
      (live now w1)(key \<mapsto> (new_session (opts M) now uuid tok r u md ver, due now ttl))"
    and "tokens now (snd (create_session M now uuid tok r u md e ver w)) =
      (tokens now w1)(csrf_key (opts M) tok \<mapsto>
        (\<lparr>csrf_token_key = csrf_key (opts M) tok, csrf_session_id = key, csrf_expiry = now + ttl * usec\<rparr>,
         due now ttl))"
    and "wok (snd (create_session M now uuid tok r u md e ver w))"
    and "wok w0" and "wok w1"
proof -
  show ok0: "wok w0" using assms(1,7) terminate_session_run(4) by simp
  obtain A B where lim: "fst (enforce_session_limit M now u w0) = Inr ()" and ok1: "wok w1"
    using limit_run [OF ok0, of now u] assms(8) by metis
  show "wok w1" by (rule ok1)
  obtain b where b: "fst (terminate_session M now (presented_of (opts M) r) w) = Inr b"
    using terminate_session_run(1) [OF assms(1)] by blast
  have pre: "bind (if presented_of (opts M) r \<noteq> [] then bind (terminate_session M now (presented_of (opts M) r)) (\<lambda>_. ret ())
        else ret ()) f w = f () w0" for f :: "unit \<Rightarrow> (('s, 'c) session_world, string \<times> string) prog"
    using b assms(7) by (simp add: run_simps)
  have lim': "bind (enforce_session_limit M now u) f w0 = f () w1"
    for f :: "unit \<Rightarrow> (('s, 'c) session_world, string \<times> string) prog"
    using lim assms(8) by (simp add: run_simps)
  have eq: "create_session M now uuid tok r u md e ver w =
      bind (generate_csrf_token M now tok key (Some ttl)) (\<lambda>csrf.
         let md' = (if csrf \<noteq> [] then AList.update CSRF_TOKEN_ID_META_KEY (VStr (csrf_key (opts M) csrf)) md
                    else md);
             d = (new_session (opts M) now uuid tok r u md ver)\<lparr>metadata := md'\<rparr>
         in bind (in_sess (st_create (storage M) now d key (Some ttl))) (\<lambda>_. ret (uuid, csrf))) w1"
    unfolding create_session_def Let_def presented_of_def [symmetric] pre lim'
    by (simp add: assms(5,6) new_session_def)
  note gen = generate_run [OF ok1 assms(3), of ttl now key]
  show "fst (create_session M now uuid tok r u md e ver w) = Inr (uuid, tok)"
    "live now (snd (create_session M now uuid tok r u md e ver w)) =
      (live now w1)(key \<mapsto> (new_session (opts M) now uuid tok r u md ver, due now ttl))"
    "tokens now (snd (create_session M now uuid tok r u md e ver w)) =
      (tokens now w1)(csrf_key (opts M) tok \<mapsto>
        (\<lparr>csrf_token_key = csrf_key (opts M) tok, csrf_session_id = key, csrf_expiry = now + ttl * usec\<rparr>,
         due now ttl))"
    "wok (snd (create_session M now uuid tok r u md e ver w))"
    unfolding eq using gen fresh(1) [OF assms(2)] fresh(2) [OF assms(3)] assms(3-6)
    by (simp_all add: run_simps Let_def S.store_laws ttl_or_def new_session_def)
qed

text \<open>A session answers when it is stored, not idle for too long and not over its age.\<close>

definition valid_at :: "int \<Rightarrow> string \<Rightarrow> ('s, 'c) session_world \<Rightarrow> session_data option" where
  "valid_at now sid w =
     (case val_of (live now w) (session_key (opts M) sid) of
        None \<Rightarrow> None
      | Some d \<Rightarrow> if sid = [] \<or> is_idle_expired (opts M) d now \<or> is_over_age (opts M) d now then None else Some d)"

lemma validate_result:
  assumes "wok w"
  shows "fst (validate_session M now sid act w)
    = Inr (map_option (\<lambda>d. if act then d\<lparr>last_activity := now\<rparr> else d) (valid_at now sid w))"
  using assms
  by (auto simp: validate_session_def valid_at_def Let_def run_simps S.store_laws C.store_laws csrf_on
      terminate_run val_of_def split: option.splits)

lemma validate_ok: "wok w \<Longrightarrow> wok (snd (validate_session M now sid act w))"
  by (auto simp: validate_session_def Let_def run_simps S.store_laws C.store_laws csrf_on
      terminate_run val_of_def split: option.splits)

lemma validate_live:
  assumes "wok w" and "good (session_timeout (opts M))" and "good (remember_me_timeout (opts M))"
    and "key = session_key (opts M) sid"
  shows "live now (snd (validate_session M now sid act w)) =
    (case valid_at now sid w of
       None \<Rightarrow> if sid = [] then live now w else (live now w)(key := None)
     | Some d \<Rightarrow> if act then (live now w)(key \<mapsto> (d\<lparr>last_activity := now\<rparr>,
                    due now (timeout_seconds_for (opts M) (metadata d)))) else live now w)"
proof -
  have ttl: "good (timeout_seconds_for (opts M) md)" for md
    using assms(2,3) by (simp add: timeout_seconds_for_def)
  show ?thesis using assms ttl
    by (auto simp: validate_session_def valid_at_def Let_def run_simps S.store_laws C.store_laws csrf_on
        terminate_run val_of_def rewrite_entry_def ttl_or_def fun_upd_idem split: option.splits)
qed

lemma terminate_each_run:
  assumes "wok w" and "qs = filter (\<lambda>p. Some (fst p) \<noteq> excluded) ps" and "\<forall>k \<in> fst ` set ps. live now w k \<noteq> None"
    and "distinct (map fst ps)"
  shows "fst (terminate_each M now excluded ps w) = Inr (int (length qs))
    \<and> live now (snd (terminate_each M now excluded ps w)) = drop_keys (fst ` set qs) (live now w)
    \<and> tokens now (snd (terminate_each M now excluded ps w)) = drop_keys (csrf_ids qs) (tokens now w)
    \<and> wok (snd (terminate_each M now excluded ps w))"
  using assms
proof (induction ps arbitrary: w qs)
  case (Cons p ps)
  obtain k d where p: "p = (k, d)" by (cases p)
  let ?w = "if Some k \<noteq> excluded then snd (terminate M now k d w) else w"
  let ?qs = "filter (\<lambda>p. Some (fst p) \<noteq> excluded) ps"
  have "k \<notin> fst ` set ps" using Cons.prems(4) by (simp add: p)
  then have "\<forall>k' \<in> fst ` set ps. live now ?w k' \<noteq> None" and "wok ?w"
    using Cons.prems(1,3) by (auto simp: terminate_run p)
  from Cons.IH [OF this(2) refl this(1)] Cons.prems
  show ?case by (auto simp: p run_simps terminate_run csrf_ids_Cons S.hit_live)
qed (simp add: run_simps)

lemma revoke_all_run:
  assumes "wok w"
    and "A = {k \<in> owned sess_user u (live now w). \<forall>x. exclude = Some x \<longrightarrow> x \<noteq> [] \<longrightarrow> k \<noteq> session_key (opts M) x}"
  shows "fst (revoke_all M now u exclude w) = Inr (int (card A))"
    and "live now (snd (revoke_all M now u exclude w)) = drop_keys A (live now w)"
    and "tokens now (snd (revoke_all M now u exclude w))
      = drop_keys {csrf_id_of d | k d. k \<in> A \<and> val_of (live now w) k = Some d \<and> csrf_id_of d \<noteq> []} (tokens now w)"
    and "wok (snd (revoke_all M now u exclude w))"
proof -
  obtain ps where ps: "fst (user_sessions M now u w) = Inr ps" "loaded_from ps (live now w)"
    "fst ` set ps = owned sess_user u (live now w)"
    "live now (snd (user_sessions M now u w)) = live now w"
    "tokens now (snd (user_sessions M now u w)) = tokens now w" "wok (snd (user_sessions M now u w))"
    using user_sessions_run [OF assms(1)] by metis
  let ?ex = "case exclude of None \<Rightarrow> None | Some e \<Rightarrow> if e = [] then None else Some (session_key (opts M) e)"
  define qs where qs: "qs = filter (\<lambda>p. Some (fst p) \<noteq> ?ex) ps"
  have l: "\<forall>k \<in> fst ` set ps. live now (snd (user_sessions M now u w)) k \<noteq> None"
    unfolding ps(3,4) by (auto simp: owned_def)
  have d: "distinct (map fst ps)" using ps(2) by (simp add: loaded_from_def)
  note run = terminate_each_run [OF ps(6) qs l d]
  have A: "fst ` set qs = A"
    using ps(3) assms(2) by (auto simp: qs image_iff split: option.splits)
  have "distinct (map fst qs)" using d by (simp add: qs distinct_map_filter)
  then have card: "length qs = card A" using A distinct_card [of "map fst qs"] by simp
  have vals: "(k, d) \<in> set ps \<longleftrightarrow> k \<in> fst ` set ps \<and> val_of (live now w) k = Some d" for k d
    using ps(2) by (force simp: loaded_from_def)
  have ids: "csrf_ids qs = {csrf_id_of d | k d. k \<in> A \<and> val_of (live now w) k = Some d \<and> csrf_id_of d \<noteq> []}"
  proof -
    have "(k, d) \<in> set qs \<longleftrightarrow> k \<in> A \<and> val_of (live now w) k = Some d" for k d
      using A vals [of k d] by (auto simp: qs image_iff)
    then show ?thesis by (auto simp: csrf_ids_def)
  qed
  have eq: "revoke_all M now u exclude w = terminate_each M now ?ex ps (snd (user_sessions M now u w))"
    using ps(1) by (simp add: revoke_all_def terminate_all_user_sessions_def run_simps)
  show "fst (revoke_all M now u exclude w) = Inr (int (card A))"
    "live now (snd (revoke_all M now u exclude w)) = drop_keys A (live now w)"
    "tokens now (snd (revoke_all M now u exclude w))
      = drop_keys {csrf_id_of d | k d. k \<in> A \<and> val_of (live now w) k = Some d \<and> csrf_id_of d \<noteq> []} (tokens now w)"
    "wok (snd (revoke_all M now u exclude w))"
    using run A card ps(4,5) ids eq by simp_all
qed

lemma revoke_handle_in_run:
  assumes "wok w"
  shows "\<exists>b. fst (revoke_handle_in M now h ps w) = Inr b" and "wok (snd (revoke_handle_in M now h ps w))"
    and "live now (snd (revoke_handle_in M now h ps w)) =
      (case find (\<lambda>p. handle_of (opts M) (fst p) = h) ps of None \<Rightarrow> live now w
       | Some p \<Rightarrow> (live now w)(fst p := None))"
    and "fst (revoke_handle_in M now h ps w) =
      Inr (case find (\<lambda>p. handle_of (opts M) (fst p) = h) ps of None \<Rightarrow> False
           | Some p \<Rightarrow> shit now (sess_store w) (fst p))"
  using assms by (induction ps) (auto simp: run_simps terminate_run)

lemma revoke_by_handle_run:
  assumes "wok w"
  shows "\<exists>k. (if \<exists>j \<in> owned sess_user u (live now w). handle_of (opts M) j = h
            then k \<in> owned sess_user u (live now w) \<and> handle_of (opts M) k = h
              \<and> fst (revoke_by_handle M now h u w) = Inr True
              \<and> live now (snd (revoke_by_handle M now h u w)) = (live now w)(k := None)
            else fst (revoke_by_handle M now h u w) = Inr False
              \<and> live now (snd (revoke_by_handle M now h u w)) = live now w)"
    and "wok (snd (revoke_by_handle M now h u w))"
proof -
  obtain ps where ps: "fst (user_sessions M now u w) = Inr ps" "loaded_from ps (live now w)"
    "fst ` set ps = owned sess_user u (live now w)"
    "live now (snd (user_sessions M now u w)) = live now w"
    "tokens now (snd (user_sessions M now u w)) = tokens now w" "wok (snd (user_sessions M now u w))"
    using user_sessions_run [OF assms(1)] by metis
  have eq: "revoke_by_handle M now h u w = revoke_handle_in M now h ps (snd (user_sessions M now u w))"
    using ps(1) by (simp add: revoke_by_handle_def run_simps)
  note run = revoke_handle_in_run [OF ps(6), of now h ps]
  show "wok (snd (revoke_by_handle M now h u w))" using run(2) eq by simp
  show "\<exists>k. (if \<exists>j \<in> owned sess_user u (live now w). handle_of (opts M) j = h
            then k \<in> owned sess_user u (live now w) \<and> handle_of (opts M) k = h
              \<and> fst (revoke_by_handle M now h u w) = Inr True
              \<and> live now (snd (revoke_by_handle M now h u w)) = (live now w)(k := None)
            else fst (revoke_by_handle M now h u w) = Inr False
              \<and> live now (snd (revoke_by_handle M now h u w)) = live now w)"
  proof (cases "find (\<lambda>p. handle_of (opts M) (fst p) = h) ps")
    case None
    then have "\<forall>p \<in> set ps. handle_of (opts M) (fst p) \<noteq> h" by (auto simp: find_None_iff)
    then have "\<forall>j \<in> owned sess_user u (live now w). handle_of (opts M) j \<noteq> h"
      unfolding ps(3) [symmetric] by auto
    then show ?thesis using run(3,4) eq ps(4) None by auto
  next
    case (Some p)
    then have "p \<in> set ps" "handle_of (opts M) (fst p) = h" by (auto simp: find_Some_iff)
    moreover from this ps(3,4) have "fst p \<in> owned sess_user u (live now (snd (user_sessions M now u w)))" by auto
    then have "shit now (sess_store (snd (user_sessions M now u w))) (fst p)"
      using S.hit_live ps(6) by (auto simp: owned_def)
    ultimately show ?thesis using run(3,4) eq ps(3,4) Some by (auto intro!: exI [of _ "fst p"])
  qed
qed

lemma regenerate_run:
  assumes "wok w" and "val_of (live now w) (session_key (opts M) sid) = Some d"
    and "fresh_token tok" and "good ttl" and "ttl = ttl_or (timeout_seconds_for (opts M) (metadata d)) e"
    and "d' = d\<lparr>metadata := AList.update CSRF_TOKEN_ID_META_KEY (VStr (csrf_key (opts M) tok)) (metadata d)\<rparr>"
  shows "fst (regenerate_csrf_token M now tok sid e w) = Inr tok"
    and "live now (snd (regenerate_csrf_token M now tok sid e w)) =
      (live now w)(session_key (opts M) sid \<mapsto> (d', due now ttl))"
    and "tokens now (snd (regenerate_csrf_token M now tok sid e w)) =
      (let k = (tokens now w)(csrf_key (opts M) tok \<mapsto>
             (\<lparr>csrf_token_key = csrf_key (opts M) tok, csrf_session_id = session_key (opts M) sid,
               csrf_expiry = now + ttl * usec\<rparr>, due now ttl))
       in if csrf_id_of d = [] then k else k(csrf_id_of d := None))"
    and "wok (snd (regenerate_csrf_token M now tok sid e w))"
proof -
  let ?key = "session_key (opts M) sid"
  let ?w = "snd (in_sess (st_get (storage M) now ?key) w)"
  have w: "wok ?w" "live now ?w = live now w" "tokens now ?w = tokens now w"
    using assms(1) by (simp_all add: run_simps S.store_laws)
  note gen = generate_run [OF w(1) assms(3,4), of now ?key]
  obtain x where x: "live now w ?key = Some (d, x)" using assms(2) by (auto simp: val_of_def)
  show "fst (regenerate_csrf_token M now tok sid e w) = Inr tok"
    "live now (snd (regenerate_csrf_token M now tok sid e w)) = (live now w)(?key \<mapsto> (d', due now ttl))"
    "tokens now (snd (regenerate_csrf_token M now tok sid e w)) =
      (let k = (tokens now w)(csrf_key (opts M) tok \<mapsto>
             (\<lparr>csrf_token_key = csrf_key (opts M) tok, csrf_session_id = ?key,
               csrf_expiry = now + ttl * usec\<rparr>, due now ttl))
       in if csrf_id_of d = [] then k else k(csrf_id_of d := None))"
    "wok (snd (regenerate_csrf_token M now tok sid e w))"
    using assms(1-4) gen w x
    by (simp_all add: regenerate_csrf_token_def csrf_on run_simps S.store_laws C.store_laws Let_def val_of_def
        rewrite_entry_def ttl_or_def [of _ "Some _"] assms(5) [symmetric] assms(6))
qed

lemma regenerate_missing:
  assumes "wok w" and "val_of (live now w) (session_key (opts M) sid) = None"
  shows "fst (regenerate_csrf_token M now tok sid e w) = Inr []"
    and "live now (snd (regenerate_csrf_token M now tok sid e w)) = live now w"
    and "wok (snd (regenerate_csrf_token M now tok sid e w))"
  using assms by (simp_all add: regenerate_csrf_token_def csrf_on run_simps S.store_laws Let_def)

lemma validate_csrf_run:
  assumes "wok w"
  shows "fst (validate_csrf_token M now sid tok w) =
    Inr (sid \<noteq> [] \<and> tok \<noteq> [] \<and> (case val_of (tokens now w) (csrf_key (opts M) tok) of
           None \<Rightarrow> False | Some t \<Rightarrow> csrf_session_id t = session_key (opts M) sid))"
  using assms by (simp add: validate_csrf_token_def csrf_on run_simps C.store_laws)

lemma create_shape:
  assumes "wok w" and "fresh_id uuid" and "fresh_token tok" and "good (ttl_or (timeout_seconds_for (opts M) md) e)"
  obtains w1 where "wok w1" and "shrinks (live now w) (live now w1)"
    and "presented_of (opts M) r \<noteq> [] \<Longrightarrow> live now w1 (session_key (opts M) (presented_of (opts M) r)) = None"
    and "finite (owned sess_user u (live now w1))"
    and "0 < max_sessions (opts M) \<Longrightarrow>
      int (card (owned sess_user u (live now w1))) \<le> max_sessions (opts M) - 1"
    and "live now (snd (create_session M now uuid tok r u md e ver w)) =
      (live now w1)(session_key (opts M) uuid \<mapsto> (new_session (opts M) now uuid tok r u md ver,
        due now (ttl_or (timeout_seconds_for (opts M) md) e)))"
proof -
  define w0 where w0: "w0 = (if presented_of (opts M) r = [] then w
    else snd (terminate_session M now (presented_of (opts M) r) w))"
  define w1 where w1: "w1 = snd (enforce_session_limit M now u w0)"
  note cr = create_run [OF assms refl refl w0 w1]
  have v0: "live now w0 = (if presented_of (opts M) r = [] then live now w
      else (live now w)(session_key (opts M) (presented_of (opts M) r) := None))"
    using terminate_session_run(2) [OF assms(1)] w0 by simp
  obtain A where A: "live now w1 = drop_keys A (live now w0)"
    "finite (owned sess_user u (live now w0))" "A \<subseteq> owned sess_user u (live now w0)"
    "0 < max_sessions (opts M) \<Longrightarrow>
      int (card (owned sess_user u (live now w0) - A)) \<le> max_sessions (opts M) - 1"
    by (rule limit_run [OF cr(5), of now u]) (auto simp: w1)
  have own: "owned sess_user u (live now w1) = owned sess_user u (live now w0) - A"
    using A(1) by (auto simp: owned_def drop_keys_def)
  show ?thesis
  proof (rule that [OF cr(6)])
    have "shrinks (live now w) (live now w0)" using v0 by simp
    then show "shrinks (live now w) (live now w1)" using A(1) shrinks_trans by (metis shrinks_drop)
    show "finite (owned sess_user u (live now w1))" using own A(2) by simp
  qed (use A own cr(2) v0 in \<open>auto simp: drop_keys_def\<close>)
qed

lemma cleanup_key_run:
  assumes "wok w"
  shows "fst (cleanup_key M now k w) = Inr ()" and "shrinks (live now w) (live now (snd (cleanup_key M now k w)))"
    and "wok (snd (cleanup_key M now k w))"
  using assms by (auto simp: cleanup_key_def Let_def run_simps S.store_laws terminate_run split: option.splits)

lemma cleanup_loop:
  "wok w \<Longrightarrow> shrinks (live now w) (live now (snd (for_each ks (cleanup_key M now) w)))
    \<and> wok (snd (for_each ks (cleanup_key M now) w))"
proof (induction ks arbitrary: w)
  case (Cons k ks)
  note one = cleanup_key_run [OF Cons.prems, of now k]
  with Cons.IH [OF one(3)] show ?case by (auto simp: bind_run intro: shrinks_trans)
qed (simp add: run_simps)

lemma cleanup_run:
  assumes "wok w"
  shows "shrinks (live now w) (live now (snd (cleanup_expired_sessions M now force w)))
    \<and> wok (snd (cleanup_expired_sessions M now force w))"
proof -
  let ?w = "w\<lparr>last_cleanup := now, sess_store := snd (st_scan_keys (storage M) now (Some (st_prefix (storage M) @ ''*'')) (sess_store w))\<rparr>"
  have "wok ?w" "live now ?w = live now w" using assms by (simp_all add: S.store_laws)
  with cleanup_loop [OF this(1), of now] assms show ?thesis
    by (simp add: cleanup_expired_sessions_def run_simps split: sum.splits)
qed

lemma revoke_run:
  assumes "wok w" and "key = session_key (opts M) sid"
  shows "live now (snd (revoke M now sid owner w)) =
      (case val_of (live now w) key of None \<Rightarrow> live now w
       | Some d \<Rightarrow> if owner \<noteq> VNone \<and> py_str (user_id d) \<noteq> py_str owner then live now w
                   else (live now w)(key := None))"
    and "fst (revoke M now sid owner w) =
      Inr (case val_of (live now w) key of None \<Rightarrow> False
           | Some d \<Rightarrow> \<not> (owner \<noteq> VNone \<and> py_str (user_id d) \<noteq> py_str owner))"
    and "wok (snd (revoke M now sid owner w))"
  using assms S.hit_live [of "snd (st_get (storage M) now key (sess_store w))" now key]
  by (auto simp: revoke_def Let_def run_simps S.store_laws terminate_run val_of_def split: option.splits)

lemma modify_run:
  assumes "wok w" and "good (st_expiration (storage M))" and "key = session_key (opts M) sid"
  shows "live now (snd (modify_session M now sid ch w)) =
      (case live now w key of None \<Rightarrow> live now w | Some (d, x) \<Rightarrow> (live now w)(key \<mapsto> (ch d, x)))"
    and "tokens now (snd (modify_session M now sid ch w)) = tokens now w"
    and "fst (modify_session M now sid ch w) = Inr (map_option ch (val_of (live now w) key))"
    and "wok (snd (modify_session M now sid ch w))"
  using assms
  by (auto simp: modify_session_def run_simps S.store_laws ttl_or_def val_of_def rewrite_entry_def
      option.map_comp comp_def split: option.splits)

lemma create_cap:
  assumes "wok w" and "fresh_id uuid" and "fresh_token tok" and "good (ttl_or (timeout_seconds_for (opts M) md) e)"
    and "within_cap (max_sessions (opts M)) (live now w)" and "0 < max_sessions (opts M)"
  shows "within_cap (max_sessions (opts M)) (live now (snd (create_session M now uuid tok r u md e ver w)))"
    (is "within_cap ?m (live now ?w')")
  unfolding within_cap_def
proof (intro allI)
  fix v
  obtain w1 where w1: "shrinks (live now w) (live now w1)" "finite (owned sess_user u (live now w1))"
    "int (card (owned sess_user u (live now w1))) \<le> ?m - 1"
    "live now ?w' = (live now w1)(session_key (opts M) uuid \<mapsto> (new_session (opts M) now uuid tok r u md ver,
        due now (ttl_or (timeout_seconds_for (opts M) md) e)))"
    using create_shape [OF assms(1-4), of now r u ver] assms(6) by metis
  have cap1: "within_cap ?m (live now w1)" using within_cap_shrinks [OF assms(5) w1(1)] .
  show "finite (owned sess_user v (live now ?w')) \<and> int (card (owned sess_user v (live now ?w'))) \<le> ?m"
  proof (cases "py_str v = py_str u")
    case True
    then have "owned sess_user v (live now ?w') \<subseteq> insert (session_key (opts M) uuid) (owned sess_user u (live now w1))"
      using w1(4) by (auto simp: owned_def split: if_splits)
    moreover have "card (insert (session_key (opts M) uuid) (owned sess_user u (live now w1)))
        \<le> Suc (card (owned sess_user u (live now w1)))" by (rule card_insert_le_m1) simp_all
    ultimately show ?thesis using w1(2,3) card_mono finite_subset
      by (smt (verit) finite.insertI of_nat_Suc of_nat_mono)
  next
    case False
    then have "owned sess_user v (live now ?w') \<subseteq> owned sess_user v (live now w1)"
      using w1(4) by (auto simp: owned_def new_session_def split: if_splits)
    then show ?thesis using cap1 card_mono finite_subset by (smt (verit) of_nat_mono within_cap_def)
  qed
qed

lemma create_drops:
  assumes "wok w" and "fresh_id uuid" and "fresh_token tok" and "good (ttl_or (timeout_seconds_for (opts M) md) e)"
  shows "\<exists>A. (presented_of (opts M) r \<noteq> [] \<longrightarrow> session_key (opts M) (presented_of (opts M) r) \<in> A)
    \<and> live now (snd (create_session M now uuid tok r u md e ver w)) =
      (drop_keys A (live now w))(session_key (opts M) uuid \<mapsto> (new_session (opts M) now uuid tok r u md ver,
        due now (ttl_or (timeout_seconds_for (opts M) md) e)))"
proof -
  define w0 where w0: "w0 = (if presented_of (opts M) r = [] then w
    else snd (terminate_session M now (presented_of (opts M) r) w))"
  define w1 where w1: "w1 = snd (enforce_session_limit M now u w0)"
  note cr = create_run [OF assms refl refl w0 w1]
  have v0: "live now w0 = drop_keys (if presented_of (opts M) r = [] then {}
      else {session_key (opts M) (presented_of (opts M) r)}) (live now w)"
    using terminate_session_run(2) [OF assms(1)] w0 by (simp add: drop_keys_def fun_eq_iff)
  obtain A where "live now w1 = drop_keys A (live now w0)"
    by (rule limit_run [OF cr(5), of now u]) (auto simp: w1)
  then have v1: "live now w1 = drop_keys (A \<union> (if presented_of (opts M) r = [] then {}
      else {session_key (opts M) (presented_of (opts M) r)})) (live now w)"
    unfolding v0 by (auto simp: drop_keys_def fun_eq_iff)
  show ?thesis using cr(2) unfolding v1 by (intro exI conjI, rule_tac [2] sym [OF sym]) auto
qed

lemma create_evicts:
  assumes "wok w" and "fresh_id uuid" and "fresh_token tok" and "good (ttl_or (timeout_seconds_for (opts M) md) e)"
    and "L = live now w" and "L' = live now (snd (create_session M now uuid tok r u md e ver w))"
    and "L k = Some (d, x)" and "L' k = None"
    and "k \<noteq> session_key (opts M) (presented_of (opts M) r) \<or> presented_of (opts M) r = []"
  shows "py_str (user_id d) = py_str u" and "max_sessions (opts M) \<le> int (card (owned sess_user u L))"
    and "L' k' = Some (d', x') \<Longrightarrow> k' \<noteq> session_key (opts M) uuid \<Longrightarrow> py_str (user_id d') = py_str u \<Longrightarrow>
      last_activity d \<le> last_activity d'"
proof -
  define w0 where w0: "w0 = (if presented_of (opts M) r = [] then w
    else snd (terminate_session M now (presented_of (opts M) r) w))"
  define w1 where w1: "w1 = snd (enforce_session_limit M now u w0)"
  note cr = create_run [OF assms(1-4) refl refl w0 w1]
  have v0: "live now w0 = (if presented_of (opts M) r = [] then live now w
      else (live now w)(session_key (opts M) (presented_of (opts M) r) := None))"
    using terminate_session_run(2) [OF assms(1)] w0 by simp
  obtain A where A: "live now w1 = drop_keys A (live now w0)" "A \<subseteq> owned sess_user u (live now w0)"
    "finite (owned sess_user u (live now w0))"
    "int (card (owned sess_user u (live now w0))) < max_sessions (opts M) \<Longrightarrow> A = {}"
    "\<And>k k' d d'. k \<in> A \<Longrightarrow> k' \<in> owned sess_user u (live now w0) - A \<Longrightarrow>
      val_of (live now w0) k = Some d \<Longrightarrow> val_of (live now w0) k' = Some d' \<Longrightarrow>
      last_activity d \<le> last_activity d'"
    by (rule limit_run [OF cr(5), of now u]) (auto simp: w1)
  have k0: "live now w0 k = Some (d, x)" using assms(5,7,9) v0 by auto
  then have kA: "k \<in> A" using assms(6,8) cr(2) A(1) by (auto simp: drop_keys_def split: if_splits)
  then have own: "k \<in> owned sess_user u (live now w0)" using A(2) by blast
  then show "py_str (user_id d) = py_str u" using k0 by (auto simp: owned_def)
  have "owned sess_user u (live now w0) \<subseteq> owned sess_user u L"
    using v0 assms(5) by (auto simp: owned_def split: if_splits)
  moreover have "finite (owned sess_user u L)"
  proof -
    have "owned sess_user u L \<subseteq> insert (session_key (opts M) (presented_of (opts M) r)) (owned sess_user u (live now w0))"
      using v0 assms(5) by (auto simp: owned_def)
    then show ?thesis using A(3) finite_subset by blast
  qed
  ultimately have "card (owned sess_user u (live now w0)) \<le> card (owned sess_user u L)" by (rule card_mono [rotated])
  then show "max_sessions (opts M) \<le> int (card (owned sess_user u L))" using A(4) kA by (metis empty_iff linorder_not_le of_nat_mono order_less_le_trans)
  show "last_activity d \<le> last_activity d'"
    if "L' k' = Some (d', x')" "k' \<noteq> session_key (opts M) uuid" "py_str (user_id d') = py_str u"
  proof -
    from that(1,2) have l: "live now w0 k' = Some (d', x')" "k' \<notin> A"
      using assms(6) cr(2) A(1) by (auto simp: drop_keys_def split: if_splits)
    with that(3) have "k' \<in> owned sess_user u (live now w0) - A" by (auto simp: owned_def)
    then show ?thesis using A(5) [OF kA] k0 l(1) by (simp add: val_of_def)
  qed
qed

end

text \<open>Over stores that count microseconds and take any id, the cap is an invariant.\<close>

locale usec_sessions = session_managing M sview sok shit cst cview cok cwho chit "\<lambda>t n. t + n * usec"
    "\<lambda>k. k \<noteq> []" "\<lambda>k. k \<noteq> []" "\<lambda>n. 0 \<le> n" "\<lambda>u. u \<noteq> []" "\<lambda>u. u \<noteq> []"
  for M :: "('s, 'c) session_manager" and sview sok shit cst cview cok cwho chit
begin

lemma step_cap:
  assumes "session_step M (now, w) (t, w')" and "wok w" and "within_cap (max_sessions (opts M)) (live now w)"
    and "0 < max_sessions (opts M)" and "0 \<le> st_expiration (storage M)"
    and "0 \<le> session_timeout (opts M)" and "0 \<le> remember_me_timeout (opts M)"
  shows "wok w' \<and> within_cap (max_sessions (opts M)) (live t w')"
  using assms(1)
proof cases
  case waits
  then show ?thesis using assms(2,3) S.view_later [of "sess_store w" now t] by (auto intro: within_cap_shrinks)
next
  case (logs_in uuid tok md e r u ver)
  then show ?thesis using create_cap [OF assms(2) logs_in(3-5) assms(3,4)]
      create_run(4) [OF assms(2) logs_in(3-5) refl refl refl refl] by simp
next
  case (validates sid act)
  have "shrinks (live now w) (live now w')"
    using validates(2) assms(2,6,7)
    by (auto simp: validate_live valid_at_def val_of_def intro: shrinks_upd split: option.splits)
  then show ?thesis using validates assms(2,3) validate_ok within_cap_shrinks by blast
next
  case (rotates tok e sid)
  show ?thesis
  proof (cases "val_of (live now w) (session_key (opts M) sid)")
    case None
    then show ?thesis using regenerate_missing [OF assms(2) None] rotates(1,2) assms(3) by simp
  next
    case (Some d)
    note run = regenerate_run [OF assms(2) Some rotates(3) rotates(4) refl refl]
    from Some have "shrinks (live now w) (live now w')"
      unfolding rotates(2) run(2) by (auto simp: val_of_def intro: shrinks_upd)
    then show ?thesis using run(4) rotates(1,2) assms(3) within_cap_shrinks by blast
  qed
next
  case (changes change sid)
  have "shrinks (live now w) (live now w')"
    unfolding changes(2) using changes(3) modify_run(1) [OF assms(2,5) refl]
    by (auto intro: shrinks_upd split: option.splits)
  then show ?thesis using modify_run(4) [OF assms(2,5)] changes(1,2) assms(3) within_cap_shrinks by blast
next
  case (logs_out sid)
  have "shrinks (live now w) (live now w')"
    unfolding logs_out(2) terminate_session_run(2) [OF assms(2)] by simp
  then show ?thesis using terminate_session_run(4) [OF assms(2)] logs_out assms(3) within_cap_shrinks by blast
next
  case (revokes sid owner)
  have "shrinks (live now w) (live now w')"
    unfolding revokes(2) revoke_run(1) [OF assms(2) refl] by (auto split: option.splits)
  then show ?thesis using revoke_run(3) [OF assms(2)] revokes assms(3) within_cap_shrinks by blast
next
  case (revokes_handle h owner)
  have "shrinks (live now w) (live now w')"
    using revoke_by_handle_run(1) [OF assms(2), of owner now h] revokes_handle(2) by (auto split: if_splits)
  then show ?thesis using revoke_by_handle_run(2) [OF assms(2)] revokes_handle assms(3) within_cap_shrinks by blast
next
  case (revokes_all u exclude)
  have "shrinks (live now w) (live now w')"
    unfolding revokes_all(2) revoke_all_run(2) [OF assms(2) refl] by simp
  then show ?thesis using revoke_all_run(4) [OF assms(2) refl] revokes_all assms(3) within_cap_shrinks by blast
next
  case (cleans force)
  then show ?thesis using cleanup_run [OF assms(2), of now force] assms(3) within_cap_shrinks by blast
qed

lemma reach_cap:
  assumes "session_reach M s s'" and "wok (snd s)" and "within_cap (max_sessions (opts M)) (live (fst s) (snd s))"
    and "0 < max_sessions (opts M)" and "0 \<le> st_expiration (storage M)"
    and "0 \<le> session_timeout (opts M)" and "0 \<le> remember_me_timeout (opts M)"
  shows "wok (snd s') \<and> within_cap (max_sessions (opts M)) (live (fst s') (snd s'))"
  using assms(1-3)
proof (induction rule: session_reach.induct)
  case (more s s' s'')
  then show ?case using step_cap [of "fst s'" "snd s'" "fst s''" "snd s''"] assms(4-7) by simp
qed simp

end

section \<open>Sessions on the in-memory stores\<close>

text \<open>The stores as the session transport builds them for the in-memory backend.\<close>

definition sess_config :: "string \<Rightarrow> session_options \<Rightarrow> session_data mem_store_config" where
  "sess_config uuid4 cfg = \<lparr>prefix = ''session:'', expiration = session_timeout cfg, generate_session_id = uuid4,
     payload_user_id = sess_user\<rparr>"

definition csrf_config :: "string \<Rightarrow> session_options \<Rightarrow> csrf_token mem_store_config" where
  "csrf_config uuid4 cfg = \<lparr>prefix = ''csrf:'', expiration = session_timeout cfg, generate_session_id = uuid4,
     payload_user_id = (\<lambda>_. None)\<rparr>"

type_synonym mem_world = "(session_data mem_store, csrf_token mem_store) session_world"

definition mem_manager :: "string \<Rightarrow> session_options \<Rightarrow>
    (session_data mem_store, csrf_token mem_store) session_manager" where
  "mem_manager g cfg = \<lparr>opts = cfg, storage = mem_storage (sess_config g cfg),
     csrf_storage = Some (mem_storage (csrf_config g cfg))\<rparr>"

lemma mem_manager_sel [simp]:
  "opts (mem_manager g cfg) = cfg" "storage (mem_manager g cfg) = mem_storage (sess_config g cfg)"
  "csrf_storage (mem_manager g cfg) = Some (mem_storage (csrf_config g cfg))"
  "st_expiration (mem_storage (sess_config g cfg)) = session_timeout cfg"
  by (simp_all add: mem_manager_def mem_storage_def sess_config_def)

lemma sess_config_user [simp]: "payload_user_id (sess_config g cfg) = sess_user"
  by (simp add: sess_config_def)

interpretation sm: usec_sessions "mem_manager g cfg" "store_view (sess_config g cfg)" "store_ok (sess_config g cfg)"
  "\<lambda>_ s sid. map_of (data s) (get_key (prefix (sess_config g cfg)) sid) \<noteq> None"
  "mem_storage (csrf_config g cfg)" "store_view (csrf_config g cfg)" "store_ok (csrf_config g cfg)"
  "payload_user_id (csrf_config g cfg)"
  "\<lambda>_ s sid. map_of (data s) (get_key (prefix (csrf_config g cfg)) sid) \<noteq> None" for g cfg
proof (intro usec_sessions.intro session_managing.intro session_managing_axioms.intro)
  show "timed_store (storage (mem_manager g cfg)) (store_view (sess_config g cfg)) (store_ok (sess_config g cfg))
     sess_user (\<lambda>_ s sid. map_of (data s) (get_key (prefix (sess_config g cfg)) sid) \<noteq> None)
     (\<lambda>t n. t + n * usec) (\<lambda>k. k \<noteq> []) (\<lambda>n. 0 \<le> n)"
    using mem_store.timed_store_axioms [of "sess_config g cfg"] by (simp only: mem_manager_sel sess_config_user)
  show "timed_store (mem_storage (csrf_config g cfg)) (store_view (csrf_config g cfg)) (store_ok (csrf_config g cfg))
     (payload_user_id (csrf_config g cfg)) (\<lambda>_ s sid. map_of (data s) (get_key (prefix (csrf_config g cfg)) sid) \<noteq> None)
     (\<lambda>t n. t + n * usec) (\<lambda>k. k \<noteq> []) (\<lambda>n. 0 \<le> n)"
    by (rule mem_store.timed_store_axioms)
qed (simp_all add: key_nonempty)

definition world_ok :: "string \<Rightarrow> session_options \<Rightarrow> mem_world \<Rightarrow> bool" where
  "world_ok g cfg w \<longleftrightarrow> store_ok (sess_config g cfg) (sess_store w) \<and> store_ok (csrf_config g cfg) (csrf_store w)"

definition live_sessions :: "string \<Rightarrow> session_options \<Rightarrow> int \<Rightarrow> mem_world \<Rightarrow> session_data entries" where
  "live_sessions g cfg now w = store_view (sess_config g cfg) now (sess_store w)"

definition live_tokens :: "string \<Rightarrow> session_options \<Rightarrow> int \<Rightarrow> mem_world \<Rightarrow> csrf_token entries" where
  "live_tokens g cfg now w = store_view (csrf_config g cfg) now (csrf_store w)"

lemmas world_defs = world_ok_def live_sessions_def live_tokens_def

definition empty_world :: mem_world where
  "empty_world = \<lparr>sess_store = mem_store_init, csrf_store = mem_store_init, last_cleanup = 0\<rparr>"

lemma empty_world_ok [simp]: "world_ok g cfg empty_world" "live_sessions g cfg now empty_world = Map.empty"
  "live_tokens g cfg now empty_world = Map.empty"
  by (simp_all add: empty_world_def world_defs)

definition default_options :: session_options where
  "default_options = \<lparr>max_sessions = 5, session_timeout = 1800, remember_me_timeout = 2592000, cleanup_interval = 900,
     cookie_secure = True, cookie_samesite = ''lax'', cookie_path = ''/'', session_cookie_name = SESSION_COOKIE_NAME,
     csrf_cookie_name = CSRF_COOKIE_NAME, trusted_proxy_hops = 0, key_secret = None, absolute_timeout = None,
     user_agents_parse = None\<rparr>"

definition plain_request :: request where
  "plain_request = \<lparr>req_method = ''POST'', req_headers = [], req_cookies = [], req_client = None\<rparr>"

lemma presented_plain [simp]: "presented_of cfg plain_request = []"
  by (simp add: presented_of_def plain_request_def cookie_def)

lemma timeout_csrf_meta [simp]:
  "timeout_seconds_for cfg (AList.update CSRF_TOKEN_ID_META_KEY v md) = timeout_seconds_for cfg md"
  by (simp add: timeout_seconds_for_def meta_true_def update_conv' REMEMBER_ME_META_KEY_def CSRF_TOKEN_ID_META_KEY_def)

text \<open>
  C33. A login's session works until its idle window ends: the id it returns validates to a
  session of that user, bound to the given token version, and its CSRF token passes for that
  session and for no session stored under another key.
\<close>

theorem login_session_works:
  assumes "world_ok g cfg w" and "uuid \<noteq> []" and "tok \<noteq> []"
    and "0 \<le> timeout_seconds_for cfg md"
    and "out = create_session (mem_manager g cfg) now uuid tok r u md None ver w"
    and "now \<le> t" and "t \<le> now + timeout_seconds_for cfg md * usec"
    and "\<forall>a. absolute_timeout cfg = Some a \<longrightarrow> t \<le> now + a * usec"
  shows "fst out = Inr (uuid, tok)
    \<and> (\<exists>d. fst (validate_session (mem_manager g cfg) t uuid act (snd out)) = Inr (Some d)
          \<and> user_id d = u \<and> token_version d = ver)
    \<and> (\<forall>sid. fst (validate_csrf_token (mem_manager g cfg) t sid tok (snd out))
          = Inr (sid \<noteq> [] \<and> session_key cfg sid = session_key cfg uuid))"
proof -
  let ?M = "mem_manager g cfg" and ?e = "None :: int option"
  have ok: "store_ok (sess_config g cfg) (sess_store w) \<and> store_ok (csrf_config g cfg) (csrf_store w)"
    using assms(1) by (simp add: world_ok_def)
  have ttl: "0 \<le> ttl_or (timeout_seconds_for cfg md) ?e" using assms(4) by (simp add: ttl_or_def)
  note run = sm.create_run(1-4) [where g = g and cfg = cfg and md = md and e = ?e and now = now and r = r and u = u
      and ver = ver, unfolded mem_manager_sel, OF ok assms(2,3) ttl refl refl refl refl, folded assms(5)]
  have s: "store_view (sess_config g cfg) t (sess_store (snd out)) (session_key cfg uuid)
      = Some (new_session cfg now uuid tok r u md ver, now + timeout_seconds_for cfg md * usec)"
    using run(2,4) assms(7) mem_store.view_later [OF _ assms(6), of "sess_config g cfg" "sess_store (snd out)"]
    by (simp add: live_at_def ttl_or_def)
  have c: "store_view (csrf_config g cfg) t (csrf_store (snd out)) (csrf_key cfg tok)
      = Some (\<lparr>csrf_token_key = csrf_key cfg tok, csrf_session_id = session_key cfg uuid,
               csrf_expiry = now + timeout_seconds_for cfg md * usec\<rparr>, now + timeout_seconds_for cfg md * usec)"
    using run(3,4) assms(7) mem_store.view_later [OF _ assms(6), of "csrf_config g cfg" "csrf_store (snd out)"]
    by (simp add: live_at_def ttl_or_def)
  have "sm.valid_at g cfg t uuid (snd out) = Some (new_session cfg now uuid tok r u md ver)"
    using s assms(2,7,8)
    by (auto simp: sm.valid_at_def val_of_def is_idle_expired_def is_over_age_def new_session_def split: option.splits)
  then have "fst (validate_session ?M t uuid act (snd out))
      = Inr (Some (if act then (new_session cfg now uuid tok r u md ver)\<lparr>last_activity := t\<rparr>
                   else new_session cfg now uuid tok r u md ver))"
    using sm.validate_result [OF run(4)] by simp
  moreover have "fst (validate_csrf_token ?M t sid tok (snd out))
      = Inr (sid \<noteq> [] \<and> session_key cfg sid = session_key cfg uuid)" for sid
    using sm.validate_csrf_run [OF run(4), of t sid tok] c assms(3) by (auto simp: val_of_def)
  ultimately show ?thesis using run(1) by (auto simp: new_session_def)
qed

theorem login_session_works_witness:
  "fst (create_session (mem_manager ''g'' default_options) 0 ''s'' ''t'' plain_request (VInt 7) [] None None empty_world)
     = Inr (''s'', ''t'')"
  using login_session_works [of "''g''" default_options empty_world "''s''" "''t''" "[]" _ 0 plain_request "VInt 7"
      None 5, OF _ _ _ _ refl]
  by (simp add: default_options_def timeout_seconds_for_def meta_true_def usec_def)

text \<open>
  C13. The per-user session cap is an invariant: starting within it, no sequence of logins,
  validations, rotations, changes, logouts, revocations, sweeps and waits ever leaves a user
  with more live sessions than the maximum.
\<close>

theorem session_cap_invariant:
  assumes "session_reach (mem_manager g cfg) (t0, w0) (t, w)" and "world_ok g cfg w0"
    and "within_cap (max_sessions cfg) (live_sessions g cfg t0 w0)"
    and "0 < max_sessions cfg" and "0 \<le> session_timeout cfg" and "0 \<le> remember_me_timeout cfg"
  shows "finite (owned sess_user u (live_sessions g cfg t w))
    \<and> int (card (owned sess_user u (live_sessions g cfg t w))) \<le> max_sessions cfg"
  using sm.reach_cap [OF assms(1)] assms(2-) by (simp add: world_defs within_cap_def)

theorem session_cap_invariant_witness:
  "int (card (owned sess_user (VInt 7) (live_sessions ''g'' default_options 0
     (snd (create_session (mem_manager ''g'' default_options) 0 ''s'' ''t'' plain_request (VInt 7) [] None None empty_world)))))
   \<le> 5"
proof -
  let ?M = "mem_manager ''g'' default_options"
  have "session_reach ?M (0, empty_world)
      (0, snd (create_session ?M 0 ''s'' ''t'' plain_request (VInt 7) [] None None empty_world))"
    by (rule session_reach.more [OF session_reach.here], rule session_step.logs_in)
       (simp_all add: default_options_def timeout_seconds_for_def meta_true_def ttl_or_def)
  from session_cap_invariant [OF this, of "VInt 7"] show ?thesis
    by (simp add: within_cap_def owned_def default_options_def)
qed

text \<open>
  A login ends the session whose cookie it was presented with, and beyond that ends
  sessions only of its own user, only when that user is at the cap, and then the ones longest
  inactive; every other session is untouched.
\<close>

theorem login_ends_only_what_it_must:
  assumes "world_ok g cfg w" and "uuid \<noteq> []" and "tok \<noteq> []" and "0 \<le> timeout_seconds_for cfg md"
    and "L = live_sessions g cfg now w"
    and "L' = live_sessions g cfg now (snd (create_session (mem_manager g cfg) now uuid tok r u md None ver w))"
    and "old = presented_of cfg r"
  shows "(old \<noteq> [] \<longrightarrow> session_key cfg old \<noteq> session_key cfg uuid \<longrightarrow> L' (session_key cfg old) = None)
    \<and> (\<forall>k d x. L k = Some (d, x) \<longrightarrow> k \<noteq> session_key cfg uuid \<longrightarrow> L' k = None \<or> L' k = Some (d, x))
    \<and> (\<forall>k d x. L k = Some (d, x) \<longrightarrow> L' k = None \<longrightarrow> old = [] \<or> k \<noteq> session_key cfg old \<longrightarrow>
          py_str (user_id d) = py_str u \<and> max_sessions cfg \<le> int (card (owned sess_user u L))
          \<and> (\<forall>k' d' x'. L' k' = Some (d', x') \<longrightarrow> k' \<noteq> session_key cfg uuid \<longrightarrow> py_str (user_id d') = py_str u
                \<longrightarrow> last_activity d \<le> last_activity d'))"
proof -
  let ?M = "mem_manager g cfg" and ?e = "None :: int option"
  have ok: "store_ok (sess_config g cfg) (sess_store w) \<and> store_ok (csrf_config g cfg) (csrf_store w)"
    using assms(1) by (simp add: world_ok_def)
  have ttl: "0 \<le> ttl_or (timeout_seconds_for (opts ?M) md) ?e" using assms(4) by (simp add: ttl_or_def)
  obtain A where w1: "old \<noteq> [] \<longrightarrow> session_key cfg old \<in> A"
    "L' = (drop_keys A L)(session_key cfg uuid \<mapsto> (new_session cfg now uuid tok r u md ver,
        now + ttl_or (timeout_seconds_for cfg md) ?e * usec))"
    using sm.create_drops [where g = g and cfg = cfg, OF ok assms(2,3) ttl, of r now u ver]
    unfolding assms(5-7) live_sessions_def mem_manager_sel by blast
  have evicted: "py_str (user_id d) = py_str u \<and> max_sessions cfg \<le> int (card (owned sess_user u L))
      \<and> (\<forall>k' d' x'. L' k' = Some (d', x') \<longrightarrow> k' \<noteq> session_key cfg uuid \<longrightarrow> py_str (user_id d') = py_str u
            \<longrightarrow> last_activity d \<le> last_activity d')"
    if "L k = Some (d, x)" "L' k = None" "old = [] \<or> k \<noteq> session_key cfg old" for k d x
    using sm.create_evicts [where g = g and cfg = cfg, OF ok assms(2,3) ttl
        assms(5) [unfolded live_sessions_def] assms(6) [unfolded live_sessions_def] that(1,2)] that(3) assms(7)
    by auto
  have "L' k = None \<or> L' k = Some (d, x)" if "L k = Some (d, x)" "k \<noteq> session_key cfg uuid" for k d x
    using that w1 by (simp add: drop_keys_def)
  moreover have "L' (session_key cfg old) = None" if "old \<noteq> []" "session_key cfg old \<noteq> session_key cfg uuid"
    using that w1 by (simp add: drop_keys_def)
  ultimately show ?thesis using evicted by blast
qed

text \<open>
  Signing out everywhere ends exactly the user's live sessions (but the one kept), reports
  their number, takes their CSRF tokens with them, and touches no other user's session; an
  ended session never validates again until an id is issued anew.
\<close>

theorem revoke_all_ends_every_session:
  assumes "world_ok g cfg w" and "out = revoke_all (mem_manager g cfg) now u keep w"
    and "L = live_sessions g cfg now w"
    and "A = {k \<in> owned sess_user u L. \<forall>x. keep = Some x \<longrightarrow> x \<noteq> [] \<longrightarrow> k \<noteq> session_key cfg x}"
  shows "fst out = Inr (int (card A))
    \<and> (\<forall>k. live_sessions g cfg now (snd out) k = (if k \<in> A then None else L k))
    \<and> (\<forall>k d. k \<in> A \<longrightarrow> val_of L k = Some d \<longrightarrow> csrf_id_of d \<noteq> [] \<longrightarrow>
          live_tokens g cfg now (snd out) (csrf_id_of d) = None)
    \<and> (\<forall>sid t act. session_key cfg sid \<in> A \<longrightarrow> now \<le> t \<longrightarrow>
          fst (validate_session (mem_manager g cfg) t sid act (snd out)) = Inr None)"
proof -
  have ok: "store_ok (sess_config g cfg) (sess_store w) \<and> store_ok (csrf_config g cfg) (csrf_store w)"
    using assms(1) by (simp add: world_ok_def)
  have A: "A = {k \<in> owned sess_user u (store_view (sess_config g cfg) now (sess_store w)).
      \<forall>x. keep = Some x \<longrightarrow> x \<noteq> [] \<longrightarrow> k \<noteq> session_key (opts (mem_manager g cfg)) x}"
    using assms(3,4) by (simp add: live_sessions_def)
  note run = sm.revoke_all_run [OF ok A, folded assms(2)]
  have dead: "store_view (sess_config g cfg) t (sess_store (snd out)) (session_key cfg sid) = None"
    if "session_key cfg sid \<in> A" "now \<le> t" for sid t
    using mem_store.view_later [OF conjunct1 [OF run(4)] that(2)] run(2) that(1)
    by (simp add: live_at_def drop_keys_def)
  have "fst (validate_session (mem_manager g cfg) t sid act (snd out)) = Inr None"
    if "session_key cfg sid \<in> A" "now \<le> t" for sid t act
    using sm.validate_result [OF run(4), of t sid act] dead [OF that] by (simp add: sm.valid_at_def val_of_def)
  then show ?thesis using run(1-3) assms(3) by (auto simp: world_defs drop_keys_def)
qed

text \<open>
  A user can end only their own sessions: revoking by handle or by id on behalf of an
  owner changes no session of anyone else, and succeeds exactly when one of the owner's live
  sessions has that handle, respectively when the id names one of the owner's live sessions.
\<close>

theorem revoke_respects_owner:
  assumes "world_ok g cfg w" and "L = live_sessions g cfg now w" and "owner \<noteq> VNone"
    and "out = revoke_by_handle (mem_manager g cfg) now h owner w"
    and "out' = revoke (mem_manager g cfg) now sid owner w"
  shows "(\<forall>k. k \<notin> owned sess_user owner L \<longrightarrow>
            live_sessions g cfg now (snd out) k = L k \<and> live_sessions g cfg now (snd out') k = L k)
    \<and> fst out = Inr (\<exists>k \<in> owned sess_user owner L. handle_of cfg k = h)
    \<and> fst out' = Inr (session_key cfg sid \<in> owned sess_user owner L)
    \<and> (session_key cfg sid \<in> owned sess_user owner L \<longrightarrow>
          live_sessions g cfg now (snd out') (session_key cfg sid) = None)"
proof -
  have ok: "store_ok (sess_config g cfg) (sess_store w) \<and> store_ok (csrf_config g cfg) (csrf_store w)"
    using assms(1) by (simp add: world_ok_def)
  have h: "(\<forall>k. k \<notin> owned sess_user owner L \<longrightarrow> live_sessions g cfg now (snd out) k = L k)
      \<and> fst out = Inr (\<exists>k \<in> owned sess_user owner L. handle_of cfg k = h)"
    using sm.revoke_by_handle_run(1) [OF ok, of owner now h, folded assms(4)] assms(2)
    by (auto simp: live_sessions_def split: if_splits)
  note run = sm.revoke_run [OF ok, of "session_key cfg sid" sid now owner, folded assms(5)]
  have "(\<forall>k. k \<notin> owned sess_user owner L \<longrightarrow> live_sessions g cfg now (snd out') k = L k)
    \<and> fst out' = Inr (session_key cfg sid \<in> owned sess_user owner L)
    \<and> (session_key cfg sid \<in> owned sess_user owner L \<longrightarrow>
          live_sessions g cfg now (snd out') (session_key cfg sid) = None)"
    using run(1,2) assms(2,3)
    by (auto simp: live_sessions_def owned_def val_of_def split: option.splits if_splits)
  with h show ?thesis by blast
qed

text \<open>
  Rotating a session's CSRF token puts the new token in force for that session and retires
  the one it replaces, without ending the session.
\<close>

theorem csrf_rotation:
  assumes "world_ok g cfg w" and "sid \<noteq> []" and "tok \<noteq> []"
    and "val_of (live_sessions g cfg now w) (session_key cfg sid) = Some d"
    and "csrf_id_of d = csrf_key cfg old" and "csrf_key cfg tok \<noteq> csrf_key cfg old" and "old \<noteq> []"
    and "0 \<le> timeout_seconds_for cfg (metadata d)"
    and "out = regenerate_csrf_token (mem_manager g cfg) now tok sid None w"
  shows "fst out = Inr tok
    \<and> fst (validate_csrf_token (mem_manager g cfg) now sid tok (snd out)) = Inr True
    \<and> (\<forall>sid'. fst (validate_csrf_token (mem_manager g cfg) now sid' old (snd out)) = Inr False)
    \<and> (\<exists>d'. val_of (live_sessions g cfg now (snd out)) (session_key cfg sid) = Some d'
          \<and> user_id d' = user_id d \<and> csrf_id_of d' = csrf_key cfg tok)"
proof -
  have ok: "store_ok (sess_config g cfg) (sess_store w) \<and> store_ok (csrf_config g cfg) (csrf_store w)"
    using assms(1) by (simp add: world_ok_def)
  have v: "val_of (store_view (sess_config g cfg) now (sess_store w)) (session_key (opts (mem_manager g cfg)) sid) = Some d"
    using assms(4) by (simp add: live_sessions_def)
  have ne: "csrf_key cfg tok \<noteq> []" "csrf_key cfg old \<noteq> []"
    using key_nonempty(2) [of tok cfg] key_nonempty(2) [of old cfg] assms(3,7) by simp_all
  have ttl: "0 \<le> ttl_or (timeout_seconds_for (opts (mem_manager g cfg)) (metadata d)) None"
    using assms(8) by (simp add: ttl_or_def)
  note run = sm.regenerate_run [OF ok v assms(3) ttl refl refl, folded assms(9), unfolded mem_manager_sel]
  have "val_of (store_view (csrf_config g cfg) now (csrf_store (snd out))) (csrf_key cfg tok) \<noteq> None
    \<and> csrf_session_id (the (val_of (store_view (csrf_config g cfg) now (csrf_store (snd out))) (csrf_key cfg tok)))
        = session_key cfg sid
    \<and> store_view (csrf_config g cfg) now (csrf_store (snd out)) (csrf_key cfg old) = None"
    using run(3) assms(5,6) ne by (simp add: Let_def val_of_def)
  then have "fst (validate_csrf_token (mem_manager g cfg) now sid tok (snd out)) = Inr True"
    "fst (validate_csrf_token (mem_manager g cfg) now sid' old (snd out)) = Inr False" for sid'
    using sm.validate_csrf_run [OF run(4)] assms(2,3,7)
    by (auto simp: val_of_def split: option.splits)
  moreover have "csrf_id_of (d\<lparr>metadata := AList.update CSRF_TOKEN_ID_META_KEY (VStr (csrf_key cfg tok)) (metadata d)\<rparr>)
      = csrf_key cfg tok"
    using ne(1) by (simp add: csrf_id_of_def update_conv')
  ultimately show ?thesis using run(1,2) by (simp add: live_sessions_def val_of_def)
qed

text \<open>
  The timeouts hold and slide: a session that validates was used within its idle window
  and is younger than the absolute limit, using it opens a full idle window from that instant,
  and a session that fails to validate is gone for good.
\<close>

theorem session_timeouts:
  assumes "world_ok g cfg w" and "0 \<le> session_timeout cfg" and "0 \<le> remember_me_timeout cfg"
    and "out = validate_session (mem_manager g cfg) now sid True w" and "sid \<noteq> []" and "now \<le> t"
  shows "(\<forall>d. fst out = Inr (Some d) \<longrightarrow>
      (\<exists>d0. val_of (live_sessions g cfg now w) (session_key cfg sid) = Some d0 \<and> d = d0\<lparr>last_activity := now\<rparr>
        \<and> now \<le> last_activity d0 + timeout_seconds_for cfg (metadata d0) * usec
        \<and> (\<forall>a. absolute_timeout cfg = Some a \<longrightarrow> now \<le> created_at d0 + a * usec))
      \<and> (t \<le> now + timeout_seconds_for cfg (metadata d) * usec \<longrightarrow>
         (\<forall>a. absolute_timeout cfg = Some a \<longrightarrow> t \<le> created_at d + a * usec) \<longrightarrow>
         fst (validate_session (mem_manager g cfg) t sid False (snd out)) = Inr (Some d)))
    \<and> (fst out = Inr None \<longrightarrow> fst (validate_session (mem_manager g cfg) t sid act (snd out)) = Inr None)"
proof -
  have ok: "store_ok (sess_config g cfg) (sess_store w) \<and> store_ok (csrf_config g cfg) (csrf_store w)"
    using assms(1) by (simp add: world_ok_def)
  let ?key = "session_key cfg sid"
  let ?v = "sm.valid_at g cfg now sid w"
  have ok': "store_ok (sess_config g cfg) (sess_store (snd out)) \<and> store_ok (csrf_config g cfg) (csrf_store (snd out))"
    unfolding assms(4) by (rule sm.validate_ok [OF ok])
  have res: "fst out = Inr (map_option (\<lambda>d. d\<lparr>last_activity := now\<rparr>) ?v)"
    unfolding assms(4) using sm.validate_result [OF ok, of now sid True] by simp
  have live: "store_view (sess_config g cfg) now (sess_store (snd out)) =
    (case ?v of None \<Rightarrow> (store_view (sess_config g cfg) now (sess_store w))(?key := None)
     | Some d \<Rightarrow> (store_view (sess_config g cfg) now (sess_store w))(?key \<mapsto> (d\<lparr>last_activity := now\<rparr>,
                    now + timeout_seconds_for cfg (metadata d) * usec)))"
    unfolding assms(4) using sm.validate_live [OF ok, of "session_key cfg sid" sid now True] assms(2,3,5)
    by (simp split: option.splits)
  have later: "store_view (sess_config g cfg) t (sess_store (snd out))
      = live_at t (store_view (sess_config g cfg) now (sess_store (snd out)))"
    using mem_store.view_later [OF conjunct1 [OF ok'] assms(6)] .
  show ?thesis
  proof (cases ?v)
    case None
    then show ?thesis using res live later sm.validate_result [OF ok', of t sid act]
      by (simp add: sm.valid_at_def live_at_def val_of_def)
  next
    case (Some d0)
    then have d0: "val_of (live_sessions g cfg now w) ?key = Some d0"
      "now \<le> last_activity d0 + timeout_seconds_for cfg (metadata d0) * usec"
      "\<forall>a. absolute_timeout cfg = Some a \<longrightarrow> now \<le> created_at d0 + a * usec"
      by (auto simp: sm.valid_at_def live_sessions_def is_idle_expired_def is_over_age_def split: option.splits if_splits)
    have "sm.valid_at g cfg t sid (snd out) = Some (d0\<lparr>last_activity := now\<rparr>)"
      if "t \<le> now + timeout_seconds_for cfg (metadata d0) * usec"
        "\<forall>a. absolute_timeout cfg = Some a \<longrightarrow> t \<le> created_at d0 + a * usec"
      using that Some live later assms(5)
      by (auto simp: sm.valid_at_def live_at_def val_of_def is_idle_expired_def is_over_age_def split: option.splits)
    then show ?thesis using res Some d0 sm.validate_result [OF ok', of t sid False] by auto
  qed
qed

section \<open>Witnesses\<close>

definition demo_world :: mem_world where
  "demo_world = snd (create_session (mem_manager ''g'' default_options) 0 ''a'' ''t'' plain_request (VStr ''u'') []
     None None empty_world)"

definition demo_session :: session_data where
  "demo_session = new_session default_options 0 ''a'' ''t'' plain_request (VStr ''u'') [] None"

lemma default_keys [simp]:
  "session_key default_options s = s" "csrf_key default_options s = s" "max_sessions default_options = 5"
  "session_timeout default_options = 1800" "remember_me_timeout default_options = 2592000"
  "absolute_timeout default_options = None" "timeout_seconds_for default_options [] = 1800"
  by (simp_all add: session_key_def csrf_key_def keyed_def default_options_def timeout_seconds_for_def meta_true_def)

lemma demo_session_sel [simp]:
  "user_id demo_session = VStr ''u''" "csrf_id_of demo_session = ''t''"
  "timeout_seconds_for default_options (metadata demo_session) = 1800" "last_activity demo_session = 0"
  by (simp_all add: demo_session_def new_session_def csrf_id_of_def timeout_seconds_for_def meta_true_def
      CSRF_TOKEN_ID_META_KEY_def REMEMBER_ME_META_KEY_def)

lemma demo_world:
  "world_ok ''g'' default_options demo_world"
  "live_sessions ''g'' default_options 0 demo_world = [''a'' \<mapsto> (demo_session, 1800 * usec)]"
proof -
  let ?M = "mem_manager ''g'' default_options"
  have ok: "store_ok (sess_config ''g'' default_options) (sess_store empty_world)
      \<and> store_ok (csrf_config ''g'' default_options) (csrf_store empty_world)"
    using empty_world_ok(1) [of "''g''" default_options] by (simp add: world_ok_def)
  have ttl: "0 \<le> ttl_or (timeout_seconds_for (opts ?M) []) None" by (simp add: ttl_or_def)
  have e: "store_view (sess_config ''g'' default_options) 0 (sess_store empty_world) = Map.empty"
    by (simp add: empty_world_def)
  show "world_ok ''g'' default_options demo_world"
    unfolding world_ok_def demo_world_def
    by (rule sm.create_run(4) [OF ok _ _ ttl refl refl refl refl]) simp_all
  show "live_sessions ''g'' default_options 0 demo_world = [''a'' \<mapsto> (demo_session, 1800 * usec)]"
    using sm.create_drops [OF ok _ _ ttl, of "''a''" "''t''" plain_request 0 "VStr ''u''" None] e
    by (auto simp: live_sessions_def demo_world_def demo_session_def ttl_or_def drop_keys_def fun_eq_iff)
qed

lemma demo_owned: "owned sess_user u (live_sessions ''g'' default_options 0 demo_world)
    = (if py_str u = ''u'' then {''a''} else {})"
  by (auto simp: demo_world(2) owned_def)

theorem login_ends_only_what_it_must_witness:
  "live_sessions ''g'' default_options 0 (snd (create_session (mem_manager ''g'' default_options) 0 ''b'' ''t2''
     plain_request (VStr ''v'') [] None None demo_world)) ''a'' = Some (demo_session, 1800 * usec)"
proof -
  note w = login_ends_only_what_it_must [of "''g''" default_options demo_world "''b''" "''t2''" "[]" _ 0 _ plain_request
      "VStr ''v''" None, OF demo_world(1) _ _ _ refl refl refl, unfolded demo_world(2), simplified]
  from w [THEN conjunct1, rule_format, of "''a''"] w [THEN conjunct2, rule_format, of "''a''"]
  show ?thesis by (auto split: if_splits)
qed

theorem revoke_all_ends_every_session_witness:
  "fst (revoke_all (mem_manager ''g'' default_options) 0 (VStr ''u'') None demo_world) = Inr 1"
  using revoke_all_ends_every_session [OF demo_world(1) refl refl refl, of 0 "VStr ''u''" None]
  by (simp add: demo_owned)

theorem revoke_respects_owner_witness:
  "fst (revoke (mem_manager ''g'' default_options) 0 ''a'' (VStr ''v'') demo_world) = Inr False"
  using revoke_respects_owner [OF demo_world(1) refl _ refl refl, of "VStr ''v''" 0 "''h''" "''a''"]
  by (simp add: demo_owned)

theorem csrf_rotation_witness:
  "fst (regenerate_csrf_token (mem_manager ''g'' default_options) 0 ''n'' ''a'' None demo_world) = Inr ''n''"
  using csrf_rotation [where sid = "''a''" and tok = "''n''" and now = 0 and d = demo_session and old = "''t''",
      OF demo_world(1) _ _ _ _ _ _ _ refl]
  by (simp add: demo_world(2) val_of_def)

lemma demo_valid:
  "fst (validate_session (mem_manager ''g'' default_options) 0 ''a'' True demo_world)
     = Inr (Some (demo_session\<lparr>last_activity := 0\<rparr>))"
proof -
  have "val_of (store_view (sess_config ''g'' default_options) 0 (sess_store demo_world)) ''a'' = Some demo_session"
    using demo_world(2) by (simp add: live_sessions_def val_of_def)
  then show ?thesis
    using sm.validate_result [OF demo_world(1) [unfolded world_ok_def], of 0 "''a''" True]
    by (simp add: sm.valid_at_def is_idle_expired_def is_over_age_def usec_def)
qed

theorem session_timeouts_witness:
  "fst (validate_session (mem_manager ''g'' default_options) 5 ''a'' False
     (snd (validate_session (mem_manager ''g'' default_options) 0 ''a'' True demo_world)))
   = Inr (Some (demo_session\<lparr>last_activity := 0\<rparr>))"
  using session_timeouts [where now = 0 and sid = "''a''" and t = 5 and act = False, OF demo_world(1) _ _ refl]
    demo_valid by (simp add: usec_def)

end
