(* ===== verification/LoginLaws.thy ===== *)
theory LoginLaws
  imports Runtime SessionLaws
begin

text \<open>
  The password check of \<open>core.py\<close>: every refusal gives the same answer and costs the same
  counters, hooks never change an outcome, and a correct password of an active account gets
  through.
\<close>

section \<open>Hooks only observe\<close>

definition logged :: "auth_hooks \<Rightarrow> hook_event \<Rightarrow> ('b, 's, 'c, 'm) world \<Rightarrow> ('b, 's, 'c, 'm) world" where
  "logged H ev w = w\<lparr>hook_log := hook_log w @ (if H (ev_name ev) = None then [] else [ev])\<rparr>"

lemma logged_sel [simp]:
  "db (logged H ev w) = db w" "limiter (logged H ev w) = limiter w" "sess (logged H ev w) = sess w"
  "challenges (logged H ev w) = challenges w" "response_cookies (logged H ev w) = response_cookies w"
  "user_cache (logged H ev w) = user_cache w"
  by (simp_all add: logged_def)

lemma best_effort_run [run_simps]:
  "run_best_effort H ev w = (Inr (case H (ev_name ev) of None \<Rightarrow> True | Some h \<Rightarrow> (case h ev of Inl e \<Rightarrow> False | Inr _ \<Rightarrow> True)),
     logged H ev w)"
  by (simp add: run_best_effort_def run_simps logged_def split: option.splits)

lemma hook_runs [run_simps]:
  "run_with_db H ev w = (Inr (), logged H ev w)"
  "run_login_failed H i u rs c w = (Inr (), logged H (hook_event_of ''on_login_failed'' u [(''identifier'', VStr i), (''reason'', VStr rs)] c) w)"
  "run_lockout H i t c w = (Inr (), logged H (hook_event_of ''on_lockout'' None [(''identifier'', VStr i), (''retry_after'', VInt t)] c) w)"
  "run_after_login H d c w = (Inr (), logged H (hook_event_of ''on_after_login'' (Some d) [] c) w)"
  "run_after_logout H d c w = (Inr (), logged H (hook_event_of ''on_after_logout'' (Some d) [] c) w)"
  "run_after_sudo H d c w = (Inr (), logged H (hook_event_of ''on_after_sudo'' (Some d) [] c) w)"
  "run_after_mfa_enabled H d c w = (Inr (), logged H (hook_event_of ''on_after_mfa_enabled'' (Some d) [] c) w)"
  "run_after_mfa_disabled H d c w = (Inr (), logged H (hook_event_of ''on_after_mfa_disabled'' (Some d) [] c) w)"
  "run_after_recovery_code_used H d c w = (Inr (), logged H (hook_event_of ''on_after_recovery_code_used'' (Some d) [] c) w)"
  by (simp_all add: run_with_db_def run_login_failed_def run_lockout_def run_after_login_def run_after_logout_def
      run_after_sudo_def run_after_mfa_enabled_def run_after_mfa_disabled_def run_after_recovery_code_used_def
      run_simps split: option.splits sum.splits)

section \<open>The lockout in front\<close>

lemma check_and_record_answers: "\<exists>a. fst (check_and_record P b t ip u s l) = Inr a"
  by (auto simp: check_and_record_def run_simps Let_def split: sum.splits)

definition lockout_answer :: "('b, 's, 'c, 'm) auth_runtime \<Rightarrow> int \<Rightarrow> string \<Rightarrow> string \<Rightarrow> 'b \<Rightarrow> attempt_result \<times> 'b" where
  "lockout_answer T t ip identifier l =
     (case lockout T of
        None \<Rightarrow> ((True, None, 0), l)
      | Some P \<Rightarrow> ((case fst (check_and_record P (rate_limiter T) t ip identifier False l) of
                      Inl e \<Rightarrow> (False, None, 0) | Inr a \<Rightarrow> a),
                   snd (check_and_record P (rate_limiter T) t ip identifier False l)))"

lemma guard_lockout_run:
  assumes "lockout_answer T (now f) ip identifier (limiter w) = ((allowed, remaining, retry), l)"
  shows "guard_lockout T f ip identifier ctx w =
    (if allowed then (Inr (), w\<lparr>limiter := l\<rparr>)
     else (Inl (TOO_MANY retry),
           logged (hooks T) (hook_event_of ''on_lockout'' None [(''identifier'', VStr identifier), (''retry_after'', VInt retry)] ctx)
             (w\<lparr>limiter := l\<rparr>)))"
proof (cases "lockout T")
  case None
  then show ?thesis using assms by (auto simp: guard_lockout_def lockout_answer_def run_simps)
next
  case (Some P)
  obtain a where "fst (check_and_record P (rate_limiter T) (now f) ip identifier False (limiter w)) = Inr a"
    by (metis check_and_record_answers)
  then show ?thesis using assms Some by (auto simp: guard_lockout_def lockout_answer_def run_simps split: prod.splits)
qed

lemma record_login_success_run:
  "record_login_success T f ip identifier w =
     (Inr (), w\<lparr>limiter := (case lockout T of None \<Rightarrow> limiter w
        | Some P \<Rightarrow> snd (check_and_record P (rate_limiter T) (now f) ip identifier True (limiter w)))\<rparr>)"
proof (cases "lockout T")
  case (Some P)
  obtain a where "fst (check_and_record P (rate_limiter T) (now f) ip identifier True (limiter w)) = Inr a"
    by (metis check_and_record_answers)
  then show ?thesis using Some by (simp add: record_login_success_def run_simps)
next
  case None
  then show ?thesis by (cases w) (simp add: record_login_success_def run_simps)
qed

lemma catch_unit: "fst (catch m (\<lambda>_. ret ()) s) = Inr ()"
  by (auto simp: run_simps split: sum.splits)

lemma forget_attempt_answers: "fst (forget_attempt P b t ip u l) = Inr ()"
  unfolding forget_attempt_def Let_def by (rule catch_unit)

text \<open>The counters after a correct password: cleared by a completed login, or as before a pending one.\<close>

definition settle :: "('b, 's, 'c, 'm) auth_runtime \<Rightarrow> int \<Rightarrow> string \<Rightarrow> string \<Rightarrow> bool \<Rightarrow> 'b \<Rightarrow> 'b" where
  "settle T t ip identifier clears l =
     (case lockout T of
        None \<Rightarrow> l
      | Some P \<Rightarrow> if clears then snd (check_and_record P (rate_limiter T) t ip identifier True l)
                  else snd (forget_attempt P (rate_limiter T) t ip identifier l))"

definition settled_world :: "('b, 's, 'c, 'm) world \<Rightarrow> 'b \<Rightarrow> ('b, 's, 'c, 'm) world \<Rightarrow> bool" where
  "settled_world w l w' \<longleftrightarrow> db w' = db w \<and> limiter w' = l \<and> sess w' = sess w \<and> challenges w' = challenges w
     \<and> response_cookies w' = response_cookies w \<and> user_cache w' = user_cache w"

definition rehashed :: "user_repo \<Rightarrow> string option \<Rightarrow> row \<Rightarrow> row" where
  "rehashed R new_hash u = (case new_hash of None \<Rightarrow> u | Some h \<Rightarrow> apply_fields R [(''hashed_password'', VStr h)] u)"

definition stored_hash :: "user_repo \<Rightarrow> row \<Rightarrow> string option" where
  "stored_hash R u = opt_str (get_field R u ''hashed_password'' VNone)"

lemma check_hash_none: "fst (check_hash T f pw None) \<Longrightarrow> verify_password (crypto_lib T) pw None"
  by (auto simp: check_hash_def verify_legacy_password_def verify_and_update_password_def verify_password_def
      Let_def split: option.splits if_splits)

lemma refused_run:
  assumes "\<forall>f \<in> set (login_fields (repo T)). has_col (repo T) f \<and> unique_in (col (repo T) f) (rows (db w))"
    and "lockout_answer T (now f) (get_client_ip r (proxy_hops T)) identifier (limiter w) = ((allowed, remaining, retry), l)"
    and "\<not> allowed \<or> (case login_row (repo T) identifier (rows (db w)) of None \<Rightarrow> True
           | Some u \<Rightarrow> \<not> fst (check_hash T f password (stored_hash (repo T) u)) \<or> \<not> is_active (repo T) u)"
  shows "\<exists>w'. authenticate_password T f r identifier password clears w
      = (Inl (if allowed then BAD_CREDENTIALS else TOO_MANY retry), w') \<and> settled_world w l w'"
proof -
  have res: "resolve_login (repo T) identifier (db w) = (Inr (login_row (repo T) identifier (rows (db w))), db w)"
    using assms(1) by (simp add: resolve_login_def resolve_login_in_run login_row_def)
  show ?thesis using assms(3)
    by (auto simp: authenticate_password_def Let_def run_simps guard_lockout_run [OF assms(2)] res settled_world_def
        stored_hash_def split: option.splits prod.splits)
qed

lemma accepted_run:
  assumes "\<forall>f \<in> set (login_fields (repo T)). has_col (repo T) f \<and> unique_in (col (repo T) f) (rows (db w))"
    and "lockout_answer T (now f) ip identifier (limiter w) = ((True, remaining, retry), l)"
    and "ip = get_client_ip r (proxy_hops T)"
    and u: "login_row (repo T) identifier (rows (db w)) = Some u"
    and ok: "check_hash T f password (stored_hash (repo T) u) = (True, new_hash)" "is_active (repo T) u"
    and id: "user_row (repo T) (pk (repo T) u) (db w) = Some u" "col (repo T) ''hashed_password'' \<noteq> col (repo T) ''id''"
    and w1: "w1 = snd (authenticate_password T f r identifier password clears w)"
  shows "fst (authenticate_password T f r identifier password clears w) = Inr (rehashed (repo T) new_hash u)"
    and "limiter w1 = settle T (now f) ip identifier clears l"
    and "user_row (repo T) (pk (repo T) u) (db w1) = Some (rehashed (repo T) new_hash u)"
    and "v \<noteq> pk (repo T) u \<Longrightarrow> user_row (repo T) v (db w1) = user_row (repo T) v (db w)"
    and "sess w1 = sess w" and "challenges w1 = challenges w" and "response_cookies w1 = response_cookies w"
proof -
  have res: "resolve_login (repo T) identifier (db w) = (Inr (Some u), db w)"
    using assms(1) u by (simp add: resolve_login_def resolve_login_in_run login_row_def)
  define m where "m = (case new_hash of None \<Rightarrow> ret u | Some h \<Rightarrow> update_user (repo T) u [(''hashed_password'', VStr h)])"
  have m: "fst (m (db w)) = Inr (rehashed (repo T) new_hash u)"
    "user_row (repo T) (pk (repo T) u) (snd (m (db w))) = Some (rehashed (repo T) new_hash u)"
    "v \<noteq> pk (repo T) u \<Longrightarrow> user_row (repo T) v (snd (m (db w))) = user_row (repo T) v (db w)"
    using update_user_run [OF id(1) refl] id
    by (auto simp: m_def rehashed_def run_simps split: option.splits)
  note guard = guard_lockout_run [OF assms(2) [unfolded assms(3)]]
  have run: "authenticate_password T f r identifier password clears w
      = (Inr (rehashed (repo T) new_hash u), w\<lparr>db := snd (m (db w)), limiter := settle T (now f) ip identifier clears l\<rparr>)"
    using m(1) ok assms(3)
    by (auto simp: authenticate_password_def Let_def run_simps guard res settle_def
        stored_hash_def record_login_success_run forget_attempt_answers m_def split: option.splits)
  show "fst (authenticate_password T f r identifier password clears w) = Inr (rehashed (repo T) new_hash u)"
    "limiter w1 = settle T (now f) ip identifier clears l"
    "user_row (repo T) (pk (repo T) u) (db w1) = Some (rehashed (repo T) new_hash u)"
    "v \<noteq> pk (repo T) u \<Longrightarrow> user_row (repo T) v (db w1) = user_row (repo T) v (db w)"
    "sess w1 = sess w" "challenges w1 = challenges w" "response_cookies w1 = response_cookies w"
    using m by (simp_all add: w1 run)
qed

section \<open>A deployment for the witnesses\<close>

type_synonym mem_runtime = "(mem_limiter, session_data mem_store, csrf_token mem_store, mfa_challenge mem_store) auth_runtime"
type_synonym mem_app = "(mem_limiter, session_data mem_store, csrf_token mem_store, mfa_challenge mem_store) world"

definition demo_bearer :: bearer_transport where
  "demo_bearer = \<lparr>access_ttl = 900, refresh_ttl_days = 30, refresh_location = ''body'', default_scopes = [''read''],
     grantable_scopes = [''read'', ''write''], refresh_cookie_name = ''refresh_token'', refresh_cookie_path = None,
     bearer_cookies = None\<rparr>"

definition demo_runtime :: mem_runtime where
  "demo_runtime = \<lparr>secret_key = ''k'', repo = demo_repo, hooks = (\<lambda>_. None), algorithm = ''HS256'',
     app_cookies = \<lparr>secure = True, samesite = ''lax'', path = ''/''\<rparr>, rate_limiter = mem_backend, lockout = None,
     proxy_hops = 0,
     transports = [SessionTransport \<lparr>manager = mem_manager ''g'' default_options, csrf_enabled = True\<rparr>,
                   BearerTransport demo_bearer],
     mfa = None, legacy_verifiers = [], crypto_lib = demo_crypto, jwt_lib = demo_jwt\<rparr>"

definition demo_fresh :: fresh where
  "demo_fresh = \<lparr>now = 0, request_db = 0, fresh_session = ''s'', fresh_csrf = ''c'', fresh_salt = ''x'', fresh_challenge = ''ch'',
     fresh_secret = replicate 20 CHR ''x'', fresh_nonce = ''n'', fresh_choices = (\<lambda>i. i)\<rparr>"

definition demo_app :: "row list \<Rightarrow> mem_app" where
  "demo_app rs = \<lparr>db = \<lparr>rows = rs\<rparr>, limiter = mem_limiter_init, sess = empty_world, challenges = mem_store_init,
     hook_log = [], response_cookies = [], rate_headers = None, out_headers = [], user_cache = [], resolved = []\<rparr>"

lemma demo_app_sel [simp]:
  "db (demo_app rs) = \<lparr>rows = rs\<rparr>" "sess (demo_app rs) = empty_world" "challenges (demo_app rs) = mem_store_init"
  "limiter (demo_app rs) = mem_limiter_init" "user_cache (demo_app rs) = []"
  by (simp_all add: demo_app_def)

lemma demo_runtime_sel [simp]:
  "repo demo_runtime = demo_repo" "lockout demo_runtime = None" "mfa demo_runtime = None"
  "jwt_lib demo_runtime = demo_jwt" "crypto_lib demo_runtime = demo_crypto" "hooks demo_runtime = (\<lambda>_. None)"
  by (simp_all add: demo_runtime_def)

section \<open>Every refusal looks the same\<close>

text \<open>
  C35. The password check. When the lockout is engaged the answer is a 429 whatever the password
  is. Otherwise an unknown identifier, a wrong password and a disabled account get the same 401,
  and each leaves the same world: the counters of one failed attempt and nothing else. A correct
  password of an active account is accepted, replacing an outdated hash of that user only and
  settling the counters as a completed or a pending login.
\<close>

theorem password_check_outcomes:
  assumes "\<forall>f \<in> set (login_fields (repo T)). has_col (repo T) f \<and> unique_in (col (repo T) f) (rows (db w))"
    and "ip = get_client_ip r (proxy_hops T)"
    and "lockout_answer T (now f) ip identifier (limiter w) = ((allowed, remaining, retry), l)"
    and "out = authenticate_password T f r identifier password clears w"
  shows "(\<not> allowed \<longrightarrow> fst out = Inl (TOO_MANY retry) \<and> settled_world w l (snd out))
    \<and> (allowed \<longrightarrow> (case login_row (repo T) identifier (rows (db w)) of
         None \<Rightarrow> fst out = Inl BAD_CREDENTIALS \<and> settled_world w l (snd out)
       | Some u \<Rightarrow>
           if \<not> fst (check_hash T f password (stored_hash (repo T) u)) \<or> \<not> is_active (repo T) u
           then fst out = Inl BAD_CREDENTIALS \<and> settled_world w l (snd out)
           else user_row (repo T) (pk (repo T) u) (db w) = Some u \<longrightarrow> col (repo T) ''hashed_password'' \<noteq> col (repo T) ''id'' \<longrightarrow>
             (\<exists>u'. fst out = Inr u' \<and> u' = rehashed (repo T) (snd (check_hash T f password (stored_hash (repo T) u))) u
               \<and> user_row (repo T) (pk (repo T) u) (db (snd out)) = Some u'
               \<and> (\<forall>v. v \<noteq> pk (repo T) u \<longrightarrow> user_row (repo T) v (db (snd out)) = user_row (repo T) v (db w))
               \<and> limiter (snd out) = settle T (now f) ip identifier clears l \<and> sess (snd out) = sess w)))"
proof -
  note refused = refused_run [OF assms(1) assms(3) [unfolded assms(2)], of password clears, folded assms(4)]
  show ?thesis
  proof (cases "login_row (repo T) identifier (rows (db w))")
    case None
    then show ?thesis using refused by auto
  next
    case (Some u)
    show ?thesis
    proof (cases "allowed \<and> fst (check_hash T f password (stored_hash (repo T) u)) \<and> is_active (repo T) u")
      case False
      then show ?thesis using refused Some by (cases allowed) auto
    next
      case True
      then obtain h where h: "check_hash T f password (stored_hash (repo T) u) = (True, h)" by (metis prod.collapse)
      have l: "lockout_answer T (now f) ip identifier (limiter w) = ((True, remaining, retry), l)"
        using assms(3) True by simp
      show ?thesis
        using accepted_run [OF assms(1) l assms(2) Some h conjunct2 [OF conjunct2 [OF True]] _ _ refl, where clears = clears] True Some h
        by (simp add: assms(4))
    qed
  qed
qed

theorem password_check_outcomes_witness:
  "fst (authenticate_password demo_runtime demo_fresh plain_request ''nobody'' ''pw'' True (demo_app []))
     = Inl BAD_CREDENTIALS"
  using password_check_outcomes [of demo_runtime "demo_app []" "get_client_ip plain_request (proxy_hops demo_runtime)"
      plain_request demo_fresh "''nobody''" True None 0 mem_limiter_init
      "authenticate_password demo_runtime demo_fresh plain_request ''nobody'' ''pw'' True (demo_app [])" "''pw''" True]
  by (auto simp: demo_repo_def has_col_def col_def unique_in_def lockout_answer_def login_row_def)

end
