(* ===== verification/Transports.thy ===== *)
theory Transports
  imports LoginLaws
begin

text \<open>
  The two built-in transports: bearer tokens (\<open>transports/bearer/transport.py\<close>,
  \<open>routes.py\<close>, \<open>constants.py\<close>) and cookie sessions
  (\<open>transports/session/transport.py\<close>), with the dispatch over them that \<open>core.py\<close>'s
  \<open>Transport\<close> base class stands for.
\<close>

section \<open>Bearer tokens\<close>

definition TOKEN_TYPE_BEARER :: string where
  "TOKEN_TYPE_BEARER = ''bearer''"

definition REFRESH_LOCATION_COOKIE :: string where
  "REFRESH_LOCATION_COOKIE = ''cookie''"

definition REFRESH_LOCATION_BODY :: string where
  "REFRESH_LOCATION_BODY = ''body''"

definition REFRESH_TOKEN_NAME :: string where
  "REFRESH_TOKEN_NAME = ''refresh_token''"

definition TOKEN_VERSION_CLAIM :: string where
  "TOKEN_VERSION_CLAIM = ''ver''"

definition mk_bearer_transport ::
  "int \<Rightarrow> int \<Rightarrow> string \<Rightarrow> string list \<Rightarrow> string list option \<Rightarrow> string \<Rightarrow> string option \<Rightarrow> cookie_config option \<Rightarrow>
   exc + bearer_transport" where
  "mk_bearer_transport ttl refresh_days loc defaults grantable cname cpath cookies =
     (if loc \<notin> {REFRESH_LOCATION_COOKIE, REFRESH_LOCATION_BODY}
      then Inl (ValueError (''refresh must be 'cookie' or 'body'' @ [CHR 0x27]))
      else
        (let grant = (case grantable of None \<Rightarrow> defaults | Some g \<Rightarrow> g)
         in if \<not> set defaults \<subseteq> set grant
            then Inl (ValueError ''default_scopes must be a subset of grantable_scopes'')
            else Inr \<lparr>access_ttl = ttl, refresh_ttl_days = refresh_days, refresh_location = loc,
                   default_scopes = defaults, grantable_scopes = grant, refresh_cookie_name = cname,
                   refresh_cookie_path = cpath, bearer_cookies = cookies\<rparr>))"

definition strs_of :: "pyval \<Rightarrow> string list" where
  "strs_of v = (case v of VList vs \<Rightarrow> map py_str vs | _ \<Rightarrow> [])"

definition version_claim :: "claims \<Rightarrow> pyval" where
  "version_claim payload = (case map_of payload TOKEN_VERSION_CLAIM of None \<Rightarrow> VInt 0 | Some v \<Rightarrow> v)"

definition authenticate_bearer :: "('b, 's, 'c, 'm) auth_runtime \<Rightarrow> fresh \<Rightarrow> request \<Rightarrow>
    (('b, 's, 'c, 'm) world, auth_principal option) prog" where
  "authenticate_bearer T f r =
     (case header r ''authorization'' of
        None \<Rightarrow> ret None
      | Some h \<Rightarrow>
          (let (scheme, token) = partition_at (CHR '' '') h
           in if lower scheme \<noteq> TOKEN_TYPE_BEARER \<or> token = [] then ret None
              else
                (case verify_token (jwt_lib T) (now f) token (secret_key T) ACCESS (algorithm T) of
                   None \<Rightarrow>
                     if is_expired_token (jwt_lib T) (now f) token (secret_key T) (algorithm T) then ret None
                     else raise (UnauthorizedException ''Invalid token'')
                 | Some payload \<Rightarrow>
                     bind (resolve_user (repo T) (claim_get payload ''sub'')) (\<lambda>user.
                     case user of
                       None \<Rightarrow> ret None
                     | Some u \<Rightarrow>
                         if \<not> is_active (repo T) u then ret None
                         else if version_claim payload \<noteq> VInt (row_token_version (repo T) u) then ret None
                         else ret (Some (build_principal (repo T) (pk (repo T) u) (Some u) ''bearer''
                                (strs_of (claim_get payload ''scopes'')) None))))))"

definition clamp_scopes :: "bearer_transport \<Rightarrow> string list \<Rightarrow> string list" where
  "clamp_scopes B scopes = filter (\<lambda>s. s \<in> set (grantable_scopes B)) scopes"

definition grant_scopes :: "bearer_transport \<Rightarrow> string list option \<Rightarrow> string list" where
  "grant_scopes B requested =
     (let asked = (case requested of None \<Rightarrow> default_scopes B | Some ss \<Rightarrow> if ss = [] then default_scopes B else ss)
      in clamp_scopes B asked)"

definition access_token :: "('b, 's, 'c, 'm) auth_runtime \<Rightarrow> bearer_transport \<Rightarrow> int \<Rightarrow> row \<Rightarrow> string list \<Rightarrow> string" where
  "access_token T B t user scopes =
     create_access_token (jwt_lib T) t
       [(''sub'', VStr (py_str (pk (repo T) user))), (TOKEN_VERSION_CLAIM, VInt (row_token_version (repo T) user))]
       (secret_key T) (Some (access_ttl B)) (algorithm T) (Some scopes)"

definition bearer_cookie_config :: "('b, 's, 'c, 'm) auth_runtime \<Rightarrow> bearer_transport \<Rightarrow> cookie_config" where
  "bearer_cookie_config T B = (case bearer_cookies B of None \<Rightarrow> app_cookies T | Some c \<Rightarrow> c)"

definition bearer_cookie_path :: "('b, 's, 'c, 'm) auth_runtime \<Rightarrow> bearer_transport \<Rightarrow> string" where
  "bearer_cookie_path T B =
     (case refresh_cookie_path B of None \<Rightarrow> path (bearer_cookie_config T B)
      | Some p \<Rightarrow> if p = [] then path (bearer_cookie_config T B) else p)"

definition refresh_token_of :: "('b, 's, 'c, 'm) auth_runtime \<Rightarrow> bearer_transport \<Rightarrow> int \<Rightarrow> row \<Rightarrow> string list \<Rightarrow> string" where
  "refresh_token_of T B t user scopes =
     create_refresh_token (jwt_lib T) t
       [(''sub'', VStr (py_str (pk (repo T) user))), (TOKEN_VERSION_CLAIM, VInt (row_token_version (repo T) user)),
        (''scopes'', VList (map VStr scopes))]
       (secret_key T) (Some (refresh_ttl_days B * SECONDS_PER_DAY)) (algorithm T)"

text \<open>\<open>with_response\<close>: whether there is a response to set a cookie on.\<close>

definition mint :: "('b, 's, 'c, 'm) auth_runtime \<Rightarrow> bearer_transport \<Rightarrow> int \<Rightarrow> row \<Rightarrow> string list \<Rightarrow> bool \<Rightarrow>
    (('b, 's, 'c, 'm) world, (string \<times> pyval) list) prog" where
  "mint T B t user scopes with_response =
     (let access = access_token T B t user scopes;
          refresh = refresh_token_of T B t user scopes;
          body = [(''access_token'', VStr access), (''token_type'', VStr TOKEN_TYPE_BEARER)];
          cookies = bearer_cookie_config T B
      in if refresh_location B = REFRESH_LOCATION_COOKIE \<and> with_response
         then bind (modifies (\<lambda>w. w\<lparr>response_cookies := response_cookies w @
                [SetCookie (refresh_cookie_name B) refresh True (secure cookies) (samesite cookies)
                   (bearer_cookie_path T B) (Some (refresh_ttl_days B * SECONDS_PER_DAY))]\<rparr>)) (\<lambda>_. ret body)
         else ret (body @ [(REFRESH_TOKEN_NAME, VStr refresh)]))"

definition issue_tokens :: "('b, 's, 'c, 'm) auth_runtime \<Rightarrow> bearer_transport \<Rightarrow> int \<Rightarrow> row \<Rightarrow> string list option \<Rightarrow> bool \<Rightarrow>
    (('b, 's, 'c, 'm) world, (string \<times> pyval) list) prog" where
  "issue_tokens T B t user scopes with_response = mint T B t user (grant_scopes B scopes) with_response"

definition complete_login_bearer :: "('b, 's, 'c, 'm) auth_runtime \<Rightarrow> bearer_transport \<Rightarrow> fresh \<Rightarrow> request \<Rightarrow> row \<Rightarrow>
    login_options \<Rightarrow> (('b, 's, 'c, 'm) world, (string \<times> pyval) list) prog" where
  "complete_login_bearer T B f r user options =
     bind (issue_tokens T B (now f) user (opt_scopes options) True) (\<lambda>body.
     bind (run_after_login (hooks T) (to_dict (repo T) user)
             ((request_context T r)\<lparr>hc_transport := Some ''bearer''\<rparr>)) (\<lambda>_. ret body))"

definition clear_cookies_bearer :: "('b, 's, 'c, 'm) auth_runtime \<Rightarrow> bearer_transport \<Rightarrow> (('b, 's, 'c, 'm) world, unit) prog" where
  "clear_cookies_bearer T B =
     (if refresh_location B \<noteq> REFRESH_LOCATION_COOKIE then ret ()
      else modifies (\<lambda>w. w\<lparr>response_cookies := response_cookies w @
             [DeleteCookie (refresh_cookie_name B) (bearer_cookie_path T B) (secure (bearer_cookie_config T B))
                (samesite (bearer_cookie_config T B))]\<rparr>))"

text \<open>\<open>body\<close> is the request's JSON, \<open>None\<close> when it does not parse.\<close>

definition read_refresh :: "bearer_transport \<Rightarrow> request \<Rightarrow> pyval option \<Rightarrow> pyval" where
  "read_refresh B r body =
     (case cookie r (refresh_cookie_name B) of
        Some c \<Rightarrow> if c \<noteq> [] then VStr c
                  else if refresh_location B = REFRESH_LOCATION_BODY
                  then (case body of Some (VDict d) \<Rightarrow> claim_get d REFRESH_TOKEN_NAME | _ \<Rightarrow> VNone) else VNone
      | None \<Rightarrow> if refresh_location B = REFRESH_LOCATION_BODY
                then (case body of Some (VDict d) \<Rightarrow> claim_get d REFRESH_TOKEN_NAME | _ \<Rightarrow> VNone) else VNone)"

definition BAD_REFRESH :: exc where
  "BAD_REFRESH = UnauthorizedException ''Invalid or expired refresh token''"

definition refresh_route :: "('b, 's, 'c, 'm) auth_runtime \<Rightarrow> bearer_transport \<Rightarrow> fresh \<Rightarrow> request \<Rightarrow> pyval option \<Rightarrow>
    (('b, 's, 'c, 'm) world, (string \<times> pyval) list) prog" where
  "refresh_route T B f r body =
     (let token = read_refresh B r body
      in if \<not> truthy token then raise (UnauthorizedException ''Refresh token missing'')
         else
           (case (case token of VStr s \<Rightarrow> verify_token (jwt_lib T) (now f) s (secret_key T) REFRESH (algorithm T) | _ \<Rightarrow> None) of
              None \<Rightarrow> raise BAD_REFRESH
            | Some payload \<Rightarrow>
                bind (in_db (get_by_id (repo T) (claim_get payload ''sub''))) (\<lambda>user.
                case user of
                  None \<Rightarrow> raise BAD_REFRESH
                | Some u \<Rightarrow>
                    if \<not> is_active (repo T) u then raise BAD_REFRESH
                    else if version_claim payload \<noteq> VInt (row_token_version (repo T) u) then raise BAD_REFRESH
                    else ret [(''access_token'', VStr (access_token T B (now f) u
                                 (clamp_scopes B (strs_of (claim_get payload ''scopes''))))),
                              (''token_type'', VStr TOKEN_TYPE_BEARER)])))"

definition bearer_logout :: "('b, 's, 'c, 'm) auth_runtime \<Rightarrow> bearer_transport \<Rightarrow> (('b, 's, 'c, 'm) world, string) prog" where
  "bearer_logout T B = bind (clear_cookies_bearer T B) (\<lambda>_. ret ''Logged out'')"

section \<open>Cookie sessions\<close>

definition CSRF_HEADER_NAME :: string where
  "CSRF_HEADER_NAME = ''X-CSRF-Token''"

definition SAFE_METHODS :: "string list" where
  "SAFE_METHODS = [''GET'', ''HEAD'', ''OPTIONS'']"

definition enforce_csrf :: "('s, 'c) session_transport \<Rightarrow> fresh \<Rightarrow> request \<Rightarrow> string \<Rightarrow>
    (('b, 's, 'c, 'm) world, unit) prog" where
  "enforce_csrf S f r sid =
     (if \<not> csrf_enabled S \<or> req_method r \<in> set SAFE_METHODS then ret ()
      else
        (case header r CSRF_HEADER_NAME of
           None \<Rightarrow> raise (CSRFException ''Missing CSRF token'')
         | Some h \<Rightarrow>
             if h = [] then raise (CSRFException ''Missing CSRF token'')
             else bind (in_sessions (validate_csrf_token (manager S) (now f) sid h)) (\<lambda>ok.
                  if ok then ret () else raise (CSRFException ''Invalid CSRF token''))))"

definition presented_session :: "('s, 'c) session_transport \<Rightarrow> request \<Rightarrow> string" where
  "presented_session S r =
     (case cookie r (session_cookie_name (opts (manager S))) of None \<Rightarrow> [] | Some c \<Rightarrow> c)"

definition authenticate_session :: "('b, 's, 'c, 'm) auth_runtime \<Rightarrow> ('s, 'c) session_transport \<Rightarrow> fresh \<Rightarrow> request \<Rightarrow>
    bool \<Rightarrow> bool \<Rightarrow> (('b, 's, 'c, 'm) world, auth_principal option) prog" where
  "authenticate_session T S f r check_csrf update_activity =
     (let sid = presented_session S r
      in if sid = [] then ret None
         else
           bind (in_sessions (validate_session (manager S) (now f) sid update_activity)) (\<lambda>found.
           case found of
             None \<Rightarrow> ret None
           | Some d \<Rightarrow>
               bind (if check_csrf then enforce_csrf S f r sid else ret ()) (\<lambda>_.
               bind (resolve_user (repo T) (user_id d)) (\<lambda>user.
               case user of
                 None \<Rightarrow> ret None
               | Some u \<Rightarrow>
                   if \<not> is_active (repo T) u then ret None
                   else if token_version d \<notin> {None, Some (row_token_version (repo T) u)} then ret None
                   else ret (Some (build_principal (repo T) (pk (repo T) u) (Some u) ''session'' [] (Some sid)))))))"

definition revalidate_session :: "('s, 'c) session_transport \<Rightarrow> fresh \<Rightarrow> request \<Rightarrow> auth_principal \<Rightarrow> bool \<Rightarrow> bool \<Rightarrow>
    (('b, 's, 'c, 'm) world, bool) prog" where
  "revalidate_session S f r p check_csrf update_activity =
     (case p_session_id p of
        None \<Rightarrow> ret True
      | Some sid \<Rightarrow>
          if sid = [] then ret True
          else
            bind (if update_activity
                  then bind (in_sessions (validate_session (manager S) (now f) sid True)) (\<lambda>d. ret (d \<noteq> None))
                  else ret True) (\<lambda>valid.
            if \<not> valid then ret False
            else bind (if check_csrf then enforce_csrf S f r sid else ret ()) (\<lambda>_. ret True)))"

definition complete_login_session :: "('b, 's, 'c, 'm) auth_runtime \<Rightarrow> ('s, 'c) session_transport \<Rightarrow> fresh \<Rightarrow> request \<Rightarrow>
    row \<Rightarrow> login_options \<Rightarrow> (('b, 's, 'c, 'm) world, (string \<times> pyval) list) prog" where
  "complete_login_session T S f r user options =
     (let md = (if opt_remember_me options
                then AList.update REMEMBER_ME_META_KEY (VBool True) (opt_metadata options) else opt_metadata options);
          M = manager S
      in bind (in_sessions (create_session M (now f) (fresh_session f) (fresh_csrf f) r (pk (repo T) user) md None
                 (Some (row_token_version (repo T) user)))) (\<lambda>(sid, csrf).
         let max_age = (if opt_remember_me options then Some (timeout_seconds_for (opts M) md) else None);
             kind = (case map_of md ''login_type'' of None \<Rightarrow> ''session'' | Some v \<Rightarrow> py_str v)
         in bind (modifies (\<lambda>w. w\<lparr>response_cookies := set_session_cookies (opts M) sid csrf max_age (response_cookies w)\<rparr>)) (\<lambda>_.
            bind (run_after_login (hooks T) (to_dict (repo T) user)
                    ((request_context T r)\<lparr>hc_transport := Some kind, hc_session_handle := Some (session_handle (opts M) sid)\<rparr>)) (\<lambda>_.
            ret [(''id'', pk (repo T) user), (''username'', get_field (repo T) user ''username'' VNone),
                 (''csrf_token'', VStr csrf)]))))"

definition clear_cookies_session :: "('s, 'c) session_transport \<Rightarrow> (('b, 's, 'c, 'm) world, unit) prog" where
  "clear_cookies_session S = modifies (\<lambda>w. w\<lparr>response_cookies := clear_session_cookies (opts (manager S)) (response_cookies w)\<rparr>)"

section \<open>Any transport\<close>

fun sets_cookies :: "('s, 'c) transport \<Rightarrow> bool" where
  "sets_cookies (SessionTransport S) = True"
| "sets_cookies (BearerTransport B) = (refresh_location B = REFRESH_LOCATION_COOKIE)"

fun authenticate :: "('b, 's, 'c, 'm) auth_runtime \<Rightarrow> ('s, 'c) transport \<Rightarrow> fresh \<Rightarrow> request \<Rightarrow> bool \<Rightarrow> bool \<Rightarrow>
    (('b, 's, 'c, 'm) world, auth_principal option) prog" where
  "authenticate T (SessionTransport S) f r check_csrf act = authenticate_session T S f r check_csrf act"
| "authenticate T (BearerTransport B) f r check_csrf act = authenticate_bearer T f r"

fun revalidate :: "('s, 'c) transport \<Rightarrow> fresh \<Rightarrow> request \<Rightarrow> auth_principal \<Rightarrow> bool \<Rightarrow> bool \<Rightarrow>
    (('b, 's, 'c, 'm) world, bool) prog" where
  "revalidate (SessionTransport S) f r p check_csrf act = revalidate_session S f r p check_csrf act"
| "revalidate (BearerTransport B) f r p check_csrf act = ret True"

fun complete_login :: "('b, 's, 'c, 'm) auth_runtime \<Rightarrow> ('s, 'c) transport \<Rightarrow> fresh \<Rightarrow> request \<Rightarrow> row \<Rightarrow> login_options \<Rightarrow>
    (('b, 's, 'c, 'm) world, (string \<times> pyval) list) prog" where
  "complete_login T (SessionTransport S) f r user options = complete_login_session T S f r user options"
| "complete_login T (BearerTransport B) f r user options = complete_login_bearer T B f r user options"

fun clear_cookies_of :: "('b, 's, 'c, 'm) auth_runtime \<Rightarrow> ('s, 'c) transport \<Rightarrow> (('b, 's, 'c, 'm) world, unit) prog" where
  "clear_cookies_of T (SessionTransport S) = clear_cookies_session S"
| "clear_cookies_of T (BearerTransport B) = clear_cookies_bearer T B"

definition clear_cookies :: "('b, 's, 'c, 'm) auth_runtime \<Rightarrow> (('b, 's, 'c, 'm) world, unit) prog" where
  "clear_cookies T = for_each (transports T) (clear_cookies_of T)"

definition complete_logout :: "('b, 's, 'c, 'm) auth_runtime \<Rightarrow> ('s, 'c) session_transport \<Rightarrow> fresh \<Rightarrow> request \<Rightarrow>
    (('b, 's, 'c, 'm) world, bool) prog" where
  "complete_logout T S f r =
     (let sid = presented_session S r; M = manager S
      in bind (if sid = [] then ret None else in_sessions (validate_session M (now f) sid False)) (\<lambda>found.
         bind (case found of
                 None \<Rightarrow> ret (None, False)
               | Some d \<Rightarrow>
                   bind (enforce_csrf S f r sid) (\<lambda>_.
                   bind (in_db (get_by_id (repo T) (user_id d))) (\<lambda>user.
                   bind (in_sessions (terminate_session M (now f) sid)) (\<lambda>ended.
                   ret (map_option (to_dict (repo T)) user, ended))))) (\<lambda>(user_dict, ended).
         bind (clear_cookies T) (\<lambda>_.
         bind (case user_dict of
                 None \<Rightarrow> ret ()
               | Some d \<Rightarrow> run_after_logout (hooks T) d
                   ((request_context T r)\<lparr>hc_transport := Some ''session'', hc_session_handle := Some (session_handle (opts M) sid)\<rparr>)) (\<lambda>_.
         ret ended)))))"

end
