(* ===== verification/Json.thy ===== *)
theory Json
  imports Prelude
begin

text \<open>
  The parts of Python's \<open>json\<close> that the sources call: \<open>dumps\<close> of a list of strings
  and \<open>loads\<close>. Text is code points below 256; an escape for a code point beyond makes the
  text unreadable here. Numbers are kept as their text. The reader runs on fuel, twice the length
  of the text, since every two calls consume a character.
\<close>

datatype json = JNull | JBool bool | JNumber string | JString string | JArray "json list" | JObject "(string \<times> json) list"

definition hex_digit_value :: "char \<Rightarrow> nat option" where
  "hex_digit_value c = (let n = (of_char c :: nat)
     in if 48 \<le> n \<and> n \<le> 57 then Some (n - 48)
        else if 97 \<le> n \<and> n \<le> 102 then Some (n - 87)
        else if 65 \<le> n \<and> n \<le> 70 then Some (n - 55) else None)"

definition hex4 :: "char \<Rightarrow> char \<Rightarrow> char \<Rightarrow> char \<Rightarrow> nat option" where
  "hex4 a b c d =
     (case (hex_digit_value a, hex_digit_value b, hex_digit_value c, hex_digit_value d) of
        (Some w, Some x, Some y, Some z) \<Rightarrow> Some (4096 * w + 256 * x + 16 * y + z) | _ \<Rightarrow> None)"

definition QUOTE :: char where
  "QUOTE = CHR 0x22"

definition BACKSLASH :: char where
  "BACKSLASH = CHR 0x5C"

definition simple_escape :: "char \<Rightarrow> char option" where
  "simple_escape e = (let n = (of_char e :: nat)
     in if n = 34 \<or> n = 92 \<or> n = 47 then Some e
        else if n = 98 then Some (char_of (8 :: nat)) else if n = 102 then Some (char_of (12 :: nat))
        else if n = 110 then Some (char_of (10 :: nat)) else if n = 114 then Some (char_of (13 :: nat))
        else if n = 116 then Some (char_of (9 :: nat)) else None)"

fun cons_fst :: "char \<Rightarrow> (string \<times> string) option \<Rightarrow> (string \<times> string) option" where
  "cons_fst c None = None"
| "cons_fst c (Some (s, r)) = Some (c # s, r)"

function parse_string :: "string \<Rightarrow> (string \<times> string) option" where
  "parse_string s =
     (case s of
        [] \<Rightarrow> None
      | c # t \<Rightarrow>
          if c = QUOTE then Some ([], t)
          else if c = BACKSLASH then
            (case t of
               [] \<Rightarrow> None
             | e # u \<Rightarrow>
                 if e = CHR ''u'' then
                   (case u of
                      h1 # h2 # h3 # h4 # v \<Rightarrow>
                        (case hex4 h1 h2 h3 h4 of
                           Some n \<Rightarrow> if n < 256 then cons_fst (char_of n) (parse_string v) else None
                         | None \<Rightarrow> None)
                    | _ \<Rightarrow> None)
                 else
                   (case simple_escape e of Some ch \<Rightarrow> cons_fst ch (parse_string u) | None \<Rightarrow> None))
          else if (of_char c :: nat) < 32 then None
          else cons_fst c (parse_string t))"
  by pat_completeness auto
termination by (relation "measure length") auto

declare parse_string.simps [simp del]

definition is_ws :: "char \<Rightarrow> bool" where
  "is_ws c \<longleftrightarrow> (of_char c :: nat) \<in> {32, 9, 10, 13}"

definition skip_ws :: "string \<Rightarrow> string" where
  "skip_ws s = dropWhile is_ws s"

definition digits_at :: "string \<Rightarrow> string \<times> string" where
  "digits_at s = (takeWhile (\<lambda>c. digit_value c \<noteq> None) s, dropWhile (\<lambda>c. digit_value c \<noteq> None) s)"

text \<open>\<open>-?(0|[1-9][0-9]*)(\.[0-9]+)?([eE][-+]?[0-9]+)?\<close>\<close>

definition parse_number :: "string \<Rightarrow> (json \<times> string) option" where
  "parse_number s =
     (let (sign, t) = (case s of c # u \<Rightarrow> if c = CHR ''-'' then ([c], u) else ([], s) | [] \<Rightarrow> ([], s));
          (ds, t1) = digits_at t;
          (whole, t2) = (case ds of c # u \<Rightarrow> if c = CHR ''0'' then ([c], drop 1 t) else (ds, t1) | [] \<Rightarrow> ([], t))
      in if whole = [] then None
         else
           (let (frac, t3) = (case t2 of c # u \<Rightarrow> if c = CHR ''.'' \<and> fst (digits_at u) \<noteq> []
                                then (c # fst (digits_at u), snd (digits_at u)) else ([], t2) | [] \<Rightarrow> ([], t2));
                (ex, t4) = (case t3 of
                    c # u \<Rightarrow>
                      if c = CHR ''e'' \<or> c = CHR ''E''
                      then (let (sg, v) = (case u of d # x \<Rightarrow> if d = CHR ''-'' \<or> d = CHR ''+'' then ([d], x) else ([], u)
                                           | [] \<Rightarrow> ([], u))
                            in if fst (digits_at v) \<noteq> [] then (c # sg @ fst (digits_at v), snd (digits_at v)) else ([], t3))
                      else ([], t3)
                  | [] \<Rightarrow> ([], t3))
            in Some (JNumber (sign @ whole @ frac @ ex), t4)))"

definition parse_literal :: "string \<Rightarrow> (json \<times> string) option" where
  "parse_literal s =
     (if starts_with s ''null'' then Some (JNull, drop 4 s)
      else if starts_with s ''true'' then Some (JBool True, drop 4 s)
      else if starts_with s ''false'' then Some (JBool False, drop 5 s)
      else if starts_with s ''NaN'' then Some (JNumber ''NaN'', drop 3 s)
      else if starts_with s ''Infinity'' then Some (JNumber ''Infinity'', drop 8 s)
      else if starts_with s ''-Infinity'' then Some (JNumber ''-Infinity'', drop 9 s)
      else parse_number s)"

fun parse_value :: "nat \<Rightarrow> string \<Rightarrow> (json \<times> string) option"
  and parse_items :: "nat \<Rightarrow> string \<Rightarrow> (json list \<times> string) option"
  and parse_members :: "nat \<Rightarrow> string \<Rightarrow> ((string \<times> json) list \<times> string) option" where
  "parse_value 0 s = None"
| "parse_value (Suc n) s =
     (case s of
        [] \<Rightarrow> None
      | c # t \<Rightarrow>
          if c = QUOTE then map_option (\<lambda>(x, r). (JString x, r)) (parse_string t)
          else if c = CHR ''['' then
            (case skip_ws t of
               [] \<Rightarrow> None
             | d # u \<Rightarrow> if d = CHR '']'' then Some (JArray [], u)
                         else map_option (\<lambda>(xs, r). (JArray xs, r)) (parse_items n (d # u)))
          else if c = CHR ''{'' then
            (case skip_ws t of
               [] \<Rightarrow> None
             | d # u \<Rightarrow> if d = CHR ''}'' then Some (JObject [], u)
                         else map_option (\<lambda>(xs, r). (JObject xs, r)) (parse_members n (d # u)))
          else parse_literal s)"
| "parse_items 0 s = None"
| "parse_items (Suc n) s =
     (case parse_value n s of
        None \<Rightarrow> None
      | Some (v, r) \<Rightarrow>
          (case skip_ws r of
             [] \<Rightarrow> None
           | d # u \<Rightarrow> if d = CHR '']'' then Some ([v], u)
                       else if d = CHR '','' then map_option (\<lambda>(xs, r'). (v # xs, r')) (parse_items n (skip_ws u))
                       else None))"
| "parse_members 0 s = None"
| "parse_members (Suc n) s =
     (case s of
        [] \<Rightarrow> None
      | q # t \<Rightarrow>
          if q \<noteq> QUOTE then None
          else
            (case parse_string t of
               None \<Rightarrow> None
             | Some (k, r) \<Rightarrow>
                 (case skip_ws r of
                    [] \<Rightarrow> None
                  | d # u \<Rightarrow>
                      if d \<noteq> CHR '':'' then None
                      else
                        (case parse_value n (skip_ws u) of
                           None \<Rightarrow> None
                         | Some (v, r2) \<Rightarrow>
                             (case skip_ws r2 of
                                [] \<Rightarrow> None
                              | e # x \<Rightarrow> if e = CHR ''}'' then Some ([(k, v)], x)
                                          else if e = CHR '','' then map_option (\<lambda>(xs, r'). ((k, v) # xs, r')) (parse_members n (skip_ws x))
                                          else None)))))"

definition json_loads :: "string \<Rightarrow> json option" where
  "json_loads s =
     (case parse_value (2 * length s + 2) (skip_ws s) of
        None \<Rightarrow> None
      | Some (v, r) \<Rightarrow> if skip_ws r = [] then Some v else None)"

section \<open>Writing a list of strings\<close>

definition hex_char :: "nat \<Rightarrow> char" where
  "hex_char d = char_of (if d < 10 then 48 + d else 87 + d)"

definition escape_char :: "char \<Rightarrow> string" where
  "escape_char c = (let n = (of_char c :: nat)
     in if n = 34 \<or> n = 92 then [BACKSLASH, c]
        else if n = 8 then [BACKSLASH, CHR ''b''] else if n = 12 then [BACKSLASH, CHR ''f'']
        else if n = 10 then [BACKSLASH, CHR ''n''] else if n = 13 then [BACKSLASH, CHR ''r'']
        else if n = 9 then [BACKSLASH, CHR ''t'']
        else if n < 32 \<or> n > 126 then [BACKSLASH, CHR ''u'', CHR ''0'', CHR ''0'', hex_char (n div 16), hex_char (n mod 16)]
        else [c])"

definition dumps_string :: "string \<Rightarrow> string" where
  "dumps_string s = [QUOTE] @ concat (map escape_char s) @ [QUOTE]"

definition json_dumps :: "string list \<Rightarrow> string" where
  "json_dumps xs = ''['' @ join_with '', '' (map dumps_string xs) @ '']''"

section \<open>Reading back what was written\<close>

lemma hex_char_value [simp]: "d < 16 \<Longrightarrow> hex_digit_value (hex_char d) = Some d"
  by (auto simp: hex_digit_value_def hex_char_def Let_def of_char_of)

lemmas special_chars = QUOTE_def BACKSLASH_def

lemma parse_string_rules:
  "parse_string (QUOTE # t) = Some ([], t)"
  "e \<noteq> CHR ''u'' \<Longrightarrow> simple_escape e = Some ch \<Longrightarrow> parse_string (BACKSLASH # e # u) = cons_fst ch (parse_string u)"
  "hex4 h1 h2 h3 h4 = Some n \<Longrightarrow> n < 256 \<Longrightarrow>
     parse_string (BACKSLASH # CHR ''u'' # h1 # h2 # h3 # h4 # v) = cons_fst (char_of n) (parse_string v)"
  "c \<noteq> QUOTE \<Longrightarrow> c \<noteq> BACKSLASH \<Longrightarrow> 32 \<le> (of_char c :: nat) \<Longrightarrow> parse_string (c # t) = cons_fst c (parse_string t)"
  by (subst parse_string.simps, simp add: special_chars)+

lemma parse_escape:
  "parse_string (escape_char c @ t) = cons_fst c (parse_string t)"
proof -
  let ?n = "of_char c :: nat"
  have n: "?n < 256" by simp
  have c: "char_of ?n = c" by simp
  have h: "hex4 (CHR ''0'') (CHR ''0'') (hex_char (?n div 16)) (hex_char (?n mod 16)) = Some ?n"
    using n by (simp add: hex4_def hex_digit_value_def [of "CHR ''0''"] less_mult_imp_div_less)
  consider "?n \<in> {34, 92, 8, 12, 10, 13, 9}" | "?n \<notin> {34, 92, 8, 12, 10, 13, 9}" "?n < 32 \<or> ?n > 126"
    | "32 \<le> ?n" "?n \<le> 126" "?n \<notin> {34, 92}" by fastforce
  then show ?thesis
  proof cases
    case 1
    then obtain e where e: "e \<noteq> CHR ''u''" "simple_escape e = Some c" "escape_char c = [BACKSLASH, e]"
    proof -
      let ?e = "if ?n \<in> {34, 92} then c else if ?n = 8 then CHR ''b'' else if ?n = 12 then CHR ''f''
        else if ?n = 10 then CHR ''n'' else if ?n = 13 then CHR ''r'' else CHR ''t''"
      have eq: "char_of k = c" if "?n = k" for k using c that by simp
      have "?e \<noteq> CHR ''u''" using 1 by auto
      moreover have "simple_escape ?e = Some c" using 1 by (auto simp: simple_escape_def Let_def eq)
      moreover have "escape_char c = [BACKSLASH, ?e]" using 1 by (auto simp: escape_char_def Let_def)
      ultimately show ?thesis using that by blast
    qed
    then show ?thesis by (simp add: parse_string_rules)
  next
    case 2
    then have "escape_char c = [BACKSLASH, CHR ''u'', CHR ''0'', CHR ''0'', hex_char (?n div 16), hex_char (?n mod 16)]"
      by (auto simp: escape_char_def Let_def)
    then show ?thesis using parse_string_rules(3) [OF h n] by simp
  next
    case 3
    then have "c \<noteq> QUOTE" "c \<noteq> BACKSLASH" by (auto simp: special_chars)
    moreover have "escape_char c = [c]" using 3 by (auto simp: escape_char_def Let_def)
    ultimately show ?thesis using 3 by (simp add: parse_string_rules)
  qed
qed

lemma parse_dumped: "parse_string (concat (map escape_char s) @ QUOTE # r) = Some (s, r)"
proof (induction s)
  case Nil
  show ?case by (simp add: parse_string_rules)
next
  case (Cons c s)
  then show ?case by (simp add: parse_escape)
qed

lemma parse_value_string: "parse_value (Suc n) (dumps_string s @ r) = Some (JString s, r)"
  using parse_dumped [of s r] by (simp add: dumps_string_def)

lemma quote_not_ws [simp]: "\<not> is_ws QUOTE" "QUOTE \<noteq> CHR '']''" "QUOTE \<noteq> CHR ''[''" "CHR ''['' \<noteq> QUOTE"
  by (simp_all add: is_ws_def special_chars)

lemma ws_space [simp]: "is_ws (CHR '' '')" "\<not> is_ws (CHR '','')" "\<not> is_ws (CHR '']'')" "\<not> is_ws (CHR ''['')"
  by (simp_all add: is_ws_def)

lemma dumps_string_Cons: "dumps_string s = QUOTE # concat (map escape_char s) @ [QUOTE]"
  by (simp add: dumps_string_def)

lemma skip_dumped: "skip_ws (dumps_string s @ r) = dumps_string s @ r"
  by (simp add: skip_ws_def dumps_string_Cons)

lemma join_Cons: "xs \<noteq> [] \<Longrightarrow> join_with sep (x # xs) = x @ sep @ join_with sep xs"
  by (cases xs) simp_all

lemma parse_items_dumped:
  "Suc (length xs) < n \<Longrightarrow>
   parse_items n (join_with '', '' (map dumps_string (x # xs)) @ '']'' @ r) = Some (map JString (x # xs), r)"
proof (induction xs arbitrary: n x)
  case Nil
  then obtain m where "n = Suc (Suc m)" by (cases n; cases "n - 1") auto
  then show ?case using parse_value_string [of m x "'']'' @ r"] by (simp add: skip_ws_def)
next
  case (Cons y ys)
  then obtain m where m: "n = Suc (Suc m)" "Suc (length ys) < Suc m" by (cases n; cases "n - 1") auto
  let ?rest = "join_with '', '' (map dumps_string (y # ys)) @ '']'' @ r"
  have "skip_ws (CHR '' '' # ?rest) = ?rest"
    by (cases ys) (simp_all add: skip_ws_def dumps_string_Cons)
  moreover have "parse_items (Suc m) ?rest = Some (map JString (y # ys), r)" by (rule Cons.IH [OF m(2)])
  moreover have "parse_value (Suc m) (join_with '', '' (map dumps_string (x # y # ys)) @ '']'' @ r)
      = Some (JString x, '', '' @ ?rest)"
    using parse_value_string [of m x "'', '' @ ?rest"] by simp
  ultimately show ?case
    unfolding m(1) by (subst parse_items.simps(2)) (simp add: skip_ws_def)
qed

lemma joined_length: "2 * length xs \<le> length (join_with '', '' (map dumps_string xs))"
proof (induction xs)
  case (Cons x xs)
  then show ?case by (cases xs) (simp_all add: dumps_string_Cons)
qed simp

lemma json_loads_dumps [simp]: "json_loads (json_dumps xs) = Some (JArray (map JString xs))"
proof (cases xs)
  case Nil
  show ?thesis unfolding Nil
    by (simp add: json_loads_def json_dumps_def skip_ws_def special_chars eval_nat_numeral)
next
  case (Cons x ys)
  let ?t = "join_with '', '' (map dumps_string xs)"
  have len: "length (json_dumps xs) = length ?t + 2" by (simp add: json_dumps_def)
  have fuel: "Suc (length ys) < 2 * length (json_dumps xs) + 1"
    using joined_length [of xs] Cons len by auto
  obtain t where t: "?t @ '']'' = QUOTE # t"
    unfolding Cons by (cases ys) (simp_all add: dumps_string_Cons)
  have "parse_items (2 * length (json_dumps xs) + 1) (QUOTE # t) = Some (map JString xs, [])"
    using parse_items_dumped [OF fuel, of x "[]"] t Cons by simp
  moreover have "json_dumps xs = CHR ''['' # QUOTE # t" using t by (simp add: json_dumps_def)
  ultimately show ?thesis by (simp add: json_loads_def skip_ws_def)
qed

end
