(* ===== verification/Totp.thy ===== *)
theory Totp
  imports Hashlib Json Limiter
begin

text \<open>
  One-time passwords and recovery codes: \<open>crudauth/mfa/totp.py\<close>, \<open>recovery.py\<close> and
  \<open>constants.py\<close>, with the base 32 of the standard library. Random bytes and choices are
  arguments; a function that raises on an undecodable secret gives \<open>None\<close>.
\<close>

section \<open>Constants\<close>

definition TOTP_DIGITS :: nat where
  "TOTP_DIGITS = 6"

definition TOTP_PERIOD_SECONDS :: int where
  "TOTP_PERIOD_SECONDS = 30"

definition TOTP_DRIFT_STEPS :: int where
  "TOTP_DRIFT_STEPS = 1"

definition TOTP_SECRET_BYTES :: nat where
  "TOTP_SECRET_BYTES = 20"

definition RECOVERY_CODE_GROUPS :: nat where
  "RECOVERY_CODE_GROUPS = 4"

definition RECOVERY_CODE_GROUP_LENGTH :: nat where
  "RECOVERY_CODE_GROUP_LENGTH = 4"

definition RECOVERY_CODE_ALPHABET :: string where
  "RECOVERY_CODE_ALPHABET = ''abcdefghjkmnpqrstuvwxyz23456789''"

section \<open>Base 32\<close>

definition b32_quantum :: "nat \<Rightarrow> string" where
  "b32_quantum n = map (\<lambda>i. b32_char (n div 32 ^ (7 - i) mod 32)) [0..<8]"

definition chunks :: "nat \<Rightarrow> 'a list \<Rightarrow> 'a list list" where
  "chunks k xs = map (\<lambda>i. take k (drop (k * i) xs)) [0..<length xs div k]"

definition b32encode :: "string \<Rightarrow> string" where
  "b32encode s =
     (let leftover = length s mod 5;
          padded = (if leftover = 0 then s else s @ replicate (5 - leftover) (char_of (0 :: nat)));
          encoded = concat (map (\<lambda>c. b32_quantum (be_nat c)) (chunks 5 padded));
          pads = (if leftover = 1 then 6 else if leftover = 2 then 4 else if leftover = 3 then 3
                  else if leftover = 4 then 1 else 0)
      in take (length encoded - pads) encoded @ replicate pads (CHR ''=''))"

definition rstrip_pad :: "string \<Rightarrow> string" where
  "rstrip_pad s = rev (dropWhile (\<lambda>c. c = CHR ''='') (rev s))"

definition b32_acc :: "string \<Rightarrow> nat option" where
  "b32_acc q = foldl (\<lambda>acc c. case (acc, b32_value c) of (Some a, Some v) \<Rightarrow> Some (a * 32 + v) | _ \<Rightarrow> None) (Some 0) q"

definition quanta :: "string \<Rightarrow> string list" where
  "quanta s = map (\<lambda>i. take 8 (drop (8 * i) s)) [0..<(length s + 7) div 8]"

definition b32decode :: "string \<Rightarrow> string option" where
  "b32decode s =
     (let stripped = rstrip_pad s;
          padchars = length s - length stripped;
          accs = map b32_acc (quanta stripped)
      in if length s mod 8 \<noteq> 0 \<or> None \<in> set accs \<or> padchars \<notin> {0, 1, 3, 4, 6} then None
         else
           (let vals = map the accs
            in if padchars = 0 \<or> vals = [] then Some (concat (map (be_bytes 5) vals))
               else Some (concat (map (be_bytes 5) (butlast vals))
                      @ take ((43 - 5 * padchars) div 8) (be_bytes 5 (last vals * 32 ^ padchars)))))"

section \<open>Time-based codes\<close>

definition generate_secret :: "string \<Rightarrow> string" where
  "generate_secret bytes = rstrip_pad (b32encode bytes)"

definition upper_char :: "char \<Rightarrow> char" where
  "upper_char c = (let n = (of_char c :: nat) in if 97 \<le> n \<and> n \<le> 122 then char_of (n - 32) else c)"

definition totp_key :: "string \<Rightarrow> string option" where
  "totp_key secret = b32decode (map upper_char secret @ replicate ((8 - length secret mod 8) mod 8) (CHR ''=''))"

definition zfill :: "nat \<Rightarrow> string \<Rightarrow> string" where
  "zfill n s = replicate (n - length s) (CHR ''0'') @ s"

definition totp_code :: "string \<Rightarrow> int \<Rightarrow> string option" where
  "totp_code secret step =
     (case totp_key secret of
        None \<Rightarrow> None
      | Some key \<Rightarrow>
          (let digest = hmac sha1 key (be_bytes 8 (nat step));
               offset = of_char (last digest) mod 16;
               v = be_nat (take 4 (drop offset digest)) mod 2 ^ 31
           in Some (zfill TOTP_DIGITS (str_of_nat (v mod 10 ^ TOTP_DIGITS)))))"

definition normalize_code :: "string \<Rightarrow> string option" where
  "normalize_code code =
     (let compact = filter (\<lambda>c. c \<noteq> CHR '' '') code
      in if length compact = TOTP_DIGITS \<and> list_all (\<lambda>c. digit_value c \<noteq> None) compact then Some compact else None)"

definition current_step :: "int \<Rightarrow> int" where
  "current_step now = now div (TOTP_PERIOD_SECONDS * usec)"

text \<open>The steps tried, in order; the last one that matches is kept. \<open>None\<close> where the secret does not decode.\<close>

definition matching_step :: "string \<Rightarrow> string \<Rightarrow> int \<Rightarrow> int option option" where
  "matching_step secret code now =
     (case normalize_code code of
        None \<Rightarrow> Some None
      | Some normalized \<Rightarrow>
          (let current = current_step now
           in foldl (\<lambda>acc step. case (acc, totp_code secret step) of
                       (Some matched, Some c) \<Rightarrow> Some (if c = normalized then Some step else matched)
                     | _ \<Rightarrow> None)
                (Some None) [current - TOTP_DRIFT_STEPS .. current + TOTP_DRIFT_STEPS]))"

definition unreserved :: "char \<Rightarrow> bool" where
  "unreserved c \<longleftrightarrow> (let n = (of_char c :: nat)
     in 65 \<le> n \<and> n \<le> 90 \<or> 97 \<le> n \<and> n \<le> 122 \<or> 48 \<le> n \<and> n \<le> 57 \<or> n = 95 \<or> n = 46 \<or> n = 45 \<or> n = 126)"

definition upper_hex :: "nat \<Rightarrow> char" where
  "upper_hex d = char_of (if d < 10 then 48 + d else 55 + d)"

text \<open>\<open>urllib.parse.quote(s, safe="")\<close> on ASCII text.\<close>

definition quote_all :: "string \<Rightarrow> string" where
  "quote_all s = concat (map (\<lambda>c. if unreserved c then [c]
     else [CHR ''%'', upper_hex (of_char c div 16), upper_hex (of_char c mod 16)]) s)"

definition provisioning_uri :: "string \<Rightarrow> string \<Rightarrow> string \<Rightarrow> string" where
  "provisioning_uri secret issuer account =
     ''otpauth://totp/'' @ quote_all (issuer @ '':'' @ account) @ ''?secret='' @ quote_all secret
       @ ''&issuer='' @ quote_all issuer @ ''&algorithm=SHA1&digits='' @ str_of_nat TOTP_DIGITS
       @ ''&period='' @ str_of_int TOTP_PERIOD_SECONDS"

section \<open>Recovery codes\<close>

definition normalize_recovery :: "string \<Rightarrow> string" where
  "normalize_recovery code = filter (\<lambda>c. c \<noteq> CHR '' '' \<and> c \<noteq> CHR ''-'') (lower code)"

definition hash_recovery_code :: "string \<Rightarrow> string" where
  "hash_recovery_code code = sha256_hex (normalize_recovery code)"

definition recovery_code :: "(nat \<Rightarrow> nat) \<Rightarrow> nat \<Rightarrow> string" where
  "recovery_code choices k =
     join_with ''-'' (map (\<lambda>g. map (\<lambda>p. RECOVERY_CODE_ALPHABET !
         (choices ((k * RECOVERY_CODE_GROUPS + g) * RECOVERY_CODE_GROUP_LENGTH + p) mod length RECOVERY_CODE_ALPHABET))
       [0..<RECOVERY_CODE_GROUP_LENGTH]) [0..<RECOVERY_CODE_GROUPS])"

definition generate_recovery_codes :: "(nat \<Rightarrow> nat) \<Rightarrow> int \<Rightarrow> string list" where
  "generate_recovery_codes choices count = map (recovery_code choices) [0..<nat count]"

definition hash_recovery_codes :: "string list \<Rightarrow> string" where
  "hash_recovery_codes codes = json_dumps (map hash_recovery_code codes)"

definition load_hashes :: "string option \<Rightarrow> string list" where
  "load_hashes stored =
     (case stored of
        None \<Rightarrow> []
      | Some s \<Rightarrow>
          if s = [] then []
          else (case json_loads s of
                  Some (JArray vs) \<Rightarrow> concat (map (\<lambda>v. case v of JString x \<Rightarrow> [x] | _ \<Rightarrow> []) vs)
                | _ \<Rightarrow> []))"

end
