(* ===== verification/Mfa.thy ===== *)
theory Mfa
  imports Transports Totp
begin

text \<open>
  The second factor, \<open>crudauth/mfa\<close>: \<open>config.py\<close>, \<open>cipher.py\<close> and the
  \<open>MfaService\<close> of \<open>service.py\<close>: enrollment, one-time and recovery codes, login
  challenges. A user row travels through the operations the way the refreshed ORM object does:
  an operation that writes gives back the row it leaves.
\<close>

section \<open>Configuration and cipher\<close>

definition mk_mfa_config :: "mfa_config \<Rightarrow> exc + mfa_config" where
  "mk_mfa_config c =
     (if issuer c = [] then Inl (ValueError ''MfaConfig issuer is required'')
      else if filter (\<lambda>k. k \<noteq> []) (encryption_keys c) = [] then Inl (ValueError ''MfaConfig encryption_key is required'')
      else if challenge_ttl_seconds c \<le> 0
      then Inl (ValueError (''MfaConfig challenge_ttl_seconds must be > 0, got '' @ str_of_int (challenge_ttl_seconds c)))
      else if max_code_attempts c \<le> 0
      then Inl (ValueError (''MfaConfig max_code_attempts must be > 0, got '' @ str_of_int (max_code_attempts c)))
      else if recovery_code_count c \<le> 0
      then Inl (ValueError (''MfaConfig recovery_code_count must be > 0, got '' @ str_of_int (recovery_code_count c)))
      else Inr (c\<lparr>encryption_keys := filter (\<lambda>k. k \<noteq> []) (encryption_keys c)\<rparr>))"

definition encrypt_secret :: "'m mfa_service \<Rightarrow> string \<Rightarrow> string \<Rightarrow> string" where
  "encrypt_secret V nonce plaintext = fernet_encrypt (cipher V) (encryption_keys (mfa_conf V)) nonce plaintext"

definition decrypt_secret :: "'m mfa_service \<Rightarrow> string \<Rightarrow> string option" where
  "decrypt_secret V token = fernet_decrypt (cipher V) (encryption_keys (mfa_conf V)) token"

section \<open>State of an account\<close>

definition is_enrolled :: "user_repo \<Rightarrow> row \<Rightarrow> bool" where
  "is_enrolled R user \<longleftrightarrow> get_field R user ''totp_confirmed_at'' VNone \<noteq> VNone
     \<and> truthy (get_field R user ''totp_secret_encrypted'' VNone)"

definition is_required :: "'m mfa_service \<Rightarrow> row \<Rightarrow> bool" where
  "is_required V user = required_for (mfa_conf V) user"

definition recovery_codes_remaining :: "user_repo \<Rightarrow> row \<Rightarrow> nat" where
  "recovery_codes_remaining R user = length (load_hashes (opt_str (get_field R user ''mfa_recovery_codes'' VNone)))"

definition mfa_status :: "user_repo \<Rightarrow> 'm mfa_service \<Rightarrow> row \<Rightarrow> (string \<times> pyval) list" where
  "mfa_status R V user =
     [(''enabled'', VBool (is_enrolled R user)), (''required'', VBool (is_required V user)),
      (''recovery_codes_remaining'', VInt (int (recovery_codes_remaining R user)))]"

definition confirmed_secret :: "user_repo \<Rightarrow> 'm mfa_service \<Rightarrow> row \<Rightarrow> string option" where
  "confirmed_secret R V user =
     (case opt_str (get_field R user ''totp_secret_encrypted'' VNone) of
        None \<Rightarrow> None | Some token \<Rightarrow> if token = [] then None else decrypt_secret V token)"

definition account_label :: "user_repo \<Rightarrow> row \<Rightarrow> string" where
  "account_label R user =
     (let e = get_field R user ''email'' VNone; n = get_field R user ''username'' VNone
      in if truthy e then py_str e else if truthy n then py_str n else py_str (pk R user))"

definition setup_payload :: "user_repo \<Rightarrow> 'm mfa_service \<Rightarrow> row \<Rightarrow> string \<Rightarrow> (string \<times> pyval) list" where
  "setup_payload R V user secret =
     [(''secret'', VStr secret),
      (''otpauth_uri'', VStr (provisioning_uri secret (issuer (mfa_conf V)) (account_label R user)))]"

section \<open>Codes\<close>

definition accept_totp :: "user_repo \<Rightarrow> int \<Rightarrow> row \<Rightarrow> string \<Rightarrow> string \<Rightarrow> (database, row \<times> bool) prog" where
  "accept_totp R t user secret code =
     (case matching_step secret code t of
        None \<Rightarrow> raise (ValueError ''Non-base32 digit found'')
      | Some None \<Rightarrow> ret (user, False)
      | Some (Some step) \<Rightarrow> claim_totp_step R user step)"

definition verify_totp :: "user_repo \<Rightarrow> 'm mfa_service \<Rightarrow> int \<Rightarrow> row \<Rightarrow> string \<Rightarrow> (database, row \<times> bool) prog" where
  "verify_totp R V t user code =
     (if \<not> is_enrolled R user then ret (user, False)
      else case confirmed_secret R V user of None \<Rightarrow> ret (user, False) | Some secret \<Rightarrow> accept_totp R t user secret code)"

definition RECOVERY_CODE_CLAIM_ATTEMPTS :: nat where
  "RECOVERY_CODE_CLAIM_ATTEMPTS = 3"

fun claim_recovery_code :: "user_repo \<Rightarrow> nat \<Rightarrow> row \<Rightarrow> string \<Rightarrow> (database, row \<times> bool) prog" where
  "claim_recovery_code R 0 user target = ret (user, False)"
| "claim_recovery_code R (Suc n) user target =
     (let stored = get_field R user ''mfa_recovery_codes'' VNone;
          hashes = load_hashes (opt_str stored)
      in if target \<notin> set hashes then ret (user, False)
         else
           bind (update_if_unchanged R user
                   [(''mfa_recovery_codes'', VStr (json_dumps (filter (\<lambda>v. v \<noteq> target) hashes)))]
                   ''mfa_recovery_codes'' stored) (\<lambda>(user', claimed).
           if claimed then ret (user', True) else claim_recovery_code R n user' target))"

definition consume_recovery_code :: "('b, 's, 'c, 'm) auth_runtime \<Rightarrow> row \<Rightarrow> string \<Rightarrow> hook_context \<Rightarrow>
    (('b, 's, 'c, 'm) world, row \<times> bool) prog" where
  "consume_recovery_code T user code ctx =
     (if \<not> is_enrolled (repo T) user then ret (user, False)
      else
        bind (in_db (claim_recovery_code (repo T) RECOVERY_CODE_CLAIM_ATTEMPTS user (hash_recovery_code code))) (\<lambda>(user', claimed).
        if claimed
        then bind (run_after_recovery_code_used (hooks T) (to_dict (repo T) user') ctx) (\<lambda>_. ret (user', True))
        else ret (user', False)))"

definition verify_code :: "('b, 's, 'c, 'm) auth_runtime \<Rightarrow> 'm mfa_service \<Rightarrow> int \<Rightarrow> row \<Rightarrow> string \<Rightarrow> hook_context \<Rightarrow>
    (('b, 's, 'c, 'm) world, row \<times> bool) prog" where
  "verify_code T V t user code ctx =
     (if normalize_code code \<noteq> None then in_db (verify_totp (repo T) V t user code)
      else consume_recovery_code T user code ctx)"

section \<open>Enrollment\<close>

definition store_pending :: "user_repo \<Rightarrow> 'm mfa_service \<Rightarrow> fresh \<Rightarrow> row \<Rightarrow> string \<Rightarrow> (database, row) prog" where
  "store_pending R V f user secret =
     (let bound = str_of_int (row_token_version R user) @ '':'' @ secret
      in update_user R user
           [(''totp_secret_encrypted'', VStr (encrypt_secret V (fresh_nonce f) bound)), (''totp_confirmed_at'', VNone),
            (''totp_last_step'', VNone), (''mfa_recovery_codes'', VNone)])"

definition begin_setup :: "user_repo \<Rightarrow> 'm mfa_service \<Rightarrow> fresh \<Rightarrow> row \<Rightarrow> (database, (string \<times> pyval) list) prog" where
  "begin_setup R V f user =
     (if is_enrolled R user then raise (BadRequestException ''Two-factor authentication is already enabled.'')
      else
        (let secret = generate_secret (fresh_secret f)
         in bind (store_pending R V f user secret) (\<lambda>user'. ret (setup_payload R V user' secret))))"

definition pending_secret :: "user_repo \<Rightarrow> 'm mfa_service \<Rightarrow> row \<Rightarrow> string option" where
  "pending_secret R V user =
     (let token = get_field R user ''totp_secret_encrypted'' VNone
      in if get_field R user ''totp_confirmed_at'' VNone \<noteq> VNone \<or> \<not> truthy token then None
         else
           (let plain = (case opt_str token of None \<Rightarrow> [] | Some s \<Rightarrow> or_empty (decrypt_secret V s));
                (version, secret) = partition_at (CHR '':'') plain
            in if secret = [] \<or> version \<noteq> str_of_int (row_token_version R user) then None else Some secret))"

definition pending_or_new_secret :: "user_repo \<Rightarrow> 'm mfa_service \<Rightarrow> fresh \<Rightarrow> row \<Rightarrow> (database, row \<times> string) prog" where
  "pending_or_new_secret R V f user =
     (case pending_secret R V user of
        Some secret \<Rightarrow> ret (user, secret)
      | None \<Rightarrow>
          (let secret = generate_secret (fresh_secret f)
           in bind (store_pending R V f user secret) (\<lambda>user'. ret (user', secret))))"

definition enable_mfa :: "('b, 's, 'c, 'm) auth_runtime \<Rightarrow> 'm mfa_service \<Rightarrow> fresh \<Rightarrow> row \<Rightarrow> string \<Rightarrow> hook_context \<Rightarrow>
    (('b, 's, 'c, 'm) world, row \<times> string list option) prog" where
  "enable_mfa T V f user secret ctx =
     (let codes = generate_recovery_codes (fresh_choices f) (recovery_code_count (mfa_conf V))
      in bind (in_db (update_if_unchanged (repo T) user
                 [(''totp_secret_encrypted'', VStr (encrypt_secret V (fresh_nonce f) secret)),
                  (''totp_confirmed_at'', VTime (now f)), (''mfa_recovery_codes'', VStr (hash_recovery_codes codes))]
                 ''totp_confirmed_at'' VNone)) (\<lambda>(user', enabled).
         if \<not> enabled then ret (user', None)
         else bind (run_after_mfa_enabled (hooks T) (to_dict (repo T) user') ctx) (\<lambda>_. ret (user', Some codes))))"

definition confirm_setup :: "('b, 's, 'c, 'm) auth_runtime \<Rightarrow> 'm mfa_service \<Rightarrow> fresh \<Rightarrow> row \<Rightarrow> string \<Rightarrow> hook_context \<Rightarrow>
    (('b, 's, 'c, 'm) world, string list) prog" where
  "confirm_setup T V f user code ctx =
     (if is_enrolled (repo T) user then raise (BadRequestException ''Two-factor authentication is already enabled.'')
      else
        (case pending_secret (repo T) V user of
           None \<Rightarrow> raise (BadRequestException ''No authenticator setup is pending.'')
         | Some secret \<Rightarrow>
             bind (in_db (accept_totp (repo T) (now f) user secret code)) (\<lambda>(user', accepted).
             if \<not> accepted then raise (UnauthorizedException ''Invalid code'')
             else
               bind (enable_mfa T V f user' secret ctx) (\<lambda>(_, codes).
               case codes of
                 None \<Rightarrow> raise (BadRequestException ''Two-factor authentication is already enabled.'')
               | Some cs \<Rightarrow> ret cs))))"

definition disable_mfa :: "('b, 's, 'c, 'm) auth_runtime \<Rightarrow> row \<Rightarrow> hook_context \<Rightarrow> (('b, 's, 'c, 'm) world, row) prog" where
  "disable_mfa T user ctx =
     bind (in_db (update_user (repo T) user
             [(''totp_secret_encrypted'', VNone), (''totp_confirmed_at'', VNone), (''totp_last_step'', VNone),
              (''mfa_recovery_codes'', VNone)])) (\<lambda>user'.
     bind (run_after_mfa_disabled (hooks T) (to_dict (repo T) user') ctx) (\<lambda>_. ret user'))"

definition regenerate_recovery_codes :: "user_repo \<Rightarrow> 'm mfa_service \<Rightarrow> fresh \<Rightarrow> row \<Rightarrow> (database, string list) prog" where
  "regenerate_recovery_codes R V f user =
     (if \<not> is_enrolled R user then raise (BadRequestException ''Two-factor authentication isn't enabled.'')
      else
        (let codes = generate_recovery_codes (fresh_choices f) (recovery_code_count (mfa_conf V))
         in bind (update_user R user [(''mfa_recovery_codes'', VStr (hash_recovery_codes codes))]) (\<lambda>_. ret codes)))"

section \<open>Login challenges\<close>

definition challenge_key :: "string \<Rightarrow> string" where
  "challenge_key token = sha256_hex token"

definition INVALID_CHALLENGE :: exc where
  "INVALID_CHALLENGE = BadRequestException ''Invalid or expired MFA challenge''"

definition challenge_login :: "('b, 's, 'c, 'm) auth_runtime \<Rightarrow> 'm mfa_service \<Rightarrow> fresh \<Rightarrow> request \<Rightarrow> row \<Rightarrow> string \<Rightarrow> string \<Rightarrow>
    login_options \<Rightarrow> (('b, 's, 'c, 'm) world, (string \<times> pyval) list option) prog" where
  "challenge_login T V f r user transport identifier options =
     (let ip = get_client_ip r (proxy_hops T); enrolled = is_enrolled (repo T) user; R = repo T
      in if \<not> enrolled \<and> \<not> is_required V user
         then bind (record_login_success T f ip identifier) (\<lambda>_. ret None)
         else
           bind (if enrolled then ret (user, None)
                 else bind (in_db (pending_or_new_secret R V f user)) (\<lambda>(u, s). ret (u, Some s))) (\<lambda>(user', setup_secret).
           let ttl = challenge_ttl_seconds (mfa_conf V);
               token = fresh_challenge f;
               challenge = \<lparr>account_id = pk R user', ch_version = row_token_version R user', ch_transport = transport,
                 ch_setup = (setup_secret \<noteq> None), ch_identifier = identifier, ch_ip = ip, ch_options = options, ch_attempts = 0\<rparr>
           in bind (in_challenges (st_create (challenge_store V) (now f) challenge (challenge_key token) (Some ttl))) (\<lambda>_.
              ret (Some ([(''mfa_required'', VBool True), (''challenge'', VStr token), (''expires_in'', VInt ttl)]
                @ (case setup_secret of None \<Rightarrow> [] | Some s \<Rightarrow> [(''setup'', VDict (setup_payload R V user' s))]))))))"

definition describe_challenge :: "('b, 's, 'c, 'm) auth_runtime \<Rightarrow> 'm mfa_service \<Rightarrow> fresh \<Rightarrow> string \<Rightarrow>
    (('b, 's, 'c, 'm) world, (string \<times> pyval) list) prog" where
  "describe_challenge T V f token =
     bind (in_challenges (st_get (challenge_store V) (now f) (challenge_key token))) (\<lambda>found.
     case found of
       None \<Rightarrow> raise INVALID_CHALLENGE
     | Some ch \<Rightarrow>
         bind (in_db (get_by_id (repo T) (account_id ch))) (\<lambda>user.
         case user of
           None \<Rightarrow> raise INVALID_CHALLENGE
         | Some u \<Rightarrow>
             if \<not> is_active (repo T) u then raise INVALID_CHALLENGE
             else
               (let secret = (if ch_setup ch then pending_secret (repo T) V u else None)
                in ret [(''setup'', case secret of None \<Rightarrow> VNone | Some s \<Rightarrow> VDict (setup_payload (repo T) V u s))])))"

definition transport_named :: "('b, 's, 'c, 'm) auth_runtime \<Rightarrow> string \<Rightarrow> ('x, ('s, 'c) transport) prog" where
  "transport_named T name =
     (case find (\<lambda>t. transport_name t = name) (transports T) of None \<Rightarrow> raise INVALID_CHALLENGE | Some t \<Rightarrow> ret t)"

definition delete_challenge :: "'m mfa_service \<Rightarrow> fresh \<Rightarrow> string \<Rightarrow> (('b, 's, 'c, 'm) world, unit) prog" where
  "delete_challenge V f key = bind (in_challenges (st_delete (challenge_store V) (now f) key VNone)) (\<lambda>_. ret ())"

text \<open>The attempt is counted before anything else is looked at; past the limit the challenge is gone.\<close>

definition count_code_attempt :: "'m mfa_service \<Rightarrow> fresh \<Rightarrow> string \<Rightarrow> (('b, 's, 'c, 'm) world, mfa_challenge) prog" where
  "count_code_attempt V f key =
     bind (in_challenges (st_modify (challenge_store V) (now f) key
             (\<lambda>c. (c\<lparr>ch_attempts := ch_attempts c + 1\<rparr>, [])) False None)) (\<lambda>modified.
     case modified of
       None \<Rightarrow> raise INVALID_CHALLENGE
     | Some (ch, _) \<Rightarrow>
         if ch_attempts ch > max_code_attempts (mfa_conf V)
         then bind (delete_challenge V f key) (\<lambda>_. raise INVALID_CHALLENGE)
         else ret ch)"

definition guard_challenge :: "('b, 's, 'c, 'm) auth_runtime \<Rightarrow> 'm mfa_service \<Rightarrow> fresh \<Rightarrow> string \<Rightarrow> mfa_challenge \<Rightarrow>
    (('b, 's, 'c, 'm) world, unit) prog" where
  "guard_challenge T V f key ch =
     (case lockout T of
        None \<Rightarrow> ret ()
      | Some P \<Rightarrow>
          bind (in_lim (check_and_record P (rate_limiter T) (now f) (ch_ip ch) (ch_identifier ch) False)) (\<lambda>(allowed, _, retry_after).
          if allowed then ret ()
          else bind (delete_challenge V f key) (\<lambda>_. raise (TOO_MANY retry_after))))"

definition challenged_user :: "('b, 's, 'c, 'm) auth_runtime \<Rightarrow> 'm mfa_service \<Rightarrow> fresh \<Rightarrow> string \<Rightarrow> mfa_challenge \<Rightarrow>
    (('b, 's, 'c, 'm) world, row) prog" where
  "challenged_user T V f key ch =
     bind (in_db (get_by_id (repo T) (account_id ch))) (\<lambda>user.
     case user of
       Some u \<Rightarrow>
         if is_active (repo T) u \<and> row_token_version (repo T) u = ch_version ch then ret u
         else bind (delete_challenge V f key) (\<lambda>_. raise INVALID_CHALLENGE)
     | None \<Rightarrow> bind (delete_challenge V f key) (\<lambda>_. raise INVALID_CHALLENGE))"

text \<open>Whether the code answers the challenge, the row it leaves, and the secret being enrolled.\<close>

definition check_answer :: "('b, 's, 'c, 'm) auth_runtime \<Rightarrow> 'm mfa_service \<Rightarrow> fresh \<Rightarrow> mfa_challenge \<Rightarrow> row \<Rightarrow> string \<Rightarrow> hook_context \<Rightarrow>
    (('b, 's, 'c, 'm) world, row \<times> bool \<times> string option) prog" where
  "check_answer T V f ch user code ctx =
     (if ch_setup ch
      then
        (case (if is_enrolled (repo T) user then None else pending_secret (repo T) V user) of
           None \<Rightarrow> ret (user, False, None)
         | Some secret \<Rightarrow>
             bind (in_db (accept_totp (repo T) (now f) user secret code)) (\<lambda>(u, ok). ret (u, ok, Some secret)))
      else bind (verify_code T V (now f) user code ctx) (\<lambda>(u, ok). ret (u, ok, None)))"

definition complete_challenge :: "('b, 's, 'c, 'm) auth_runtime \<Rightarrow> 'm mfa_service \<Rightarrow> fresh \<Rightarrow> request \<Rightarrow> string \<Rightarrow> string \<Rightarrow>
    (('b, 's, 'c, 'm) world, (string \<times> pyval) list) prog" where
  "complete_challenge T V f r token code =
     (let key = challenge_key token
      in bind (in_challenges (st_get (challenge_store V) (now f) key)) (\<lambda>pending.
         case pending of
           None \<Rightarrow> raise INVALID_CHALLENGE
         | Some p \<Rightarrow>
             bind (transport_named T (ch_transport p)) (\<lambda>transport.
             if sets_cookies transport \<and> is_cross_site r
             then raise (ForbiddenException ''Cross-site login requests are not allowed.'')
             else
               bind (count_code_attempt V f key) (\<lambda>ch.
               bind (guard_challenge T V f key ch) (\<lambda>_.
               bind (challenged_user T V f key ch) (\<lambda>user.
               let ctx = (request_context T r)\<lparr>hc_transport := Some (ch_transport ch)\<rparr>
               in bind (check_answer T V f ch user code ctx) (\<lambda>(user', accepted, secret).
                  if \<not> accepted
                  then bind (if ch_attempts ch \<ge> max_code_attempts (mfa_conf V) then delete_challenge V f key else ret ())
                         (\<lambda>_. raise (UnauthorizedException ''Invalid code''))
                  else
                    bind (in_challenges (st_get_and_delete (challenge_store V) (now f) key)) (\<lambda>taken.
                    if taken = None then raise INVALID_CHALLENGE
                    else
                      bind (case secret of None \<Rightarrow> ret (user', None) | Some s \<Rightarrow> enable_mfa T V f user' s ctx) (\<lambda>(user'', codes).
                      bind (record_login_success T f (ch_ip ch) (ch_identifier ch)) (\<lambda>_.
                      bind (complete_login T transport f r user'' (ch_options ch)) (\<lambda>body.
                      ret (body
                        @ (case codes of None \<Rightarrow> [] | Some cs \<Rightarrow> [(''recovery_codes'', VList (map VStr cs))])
                        @ (case opt_redirect_to (ch_options ch) of None \<Rightarrow> [] | Some d \<Rightarrow> [(''redirect_to'', VStr d)])))))))))))))"

end
