(* ===== verification/MfaLaws.thy ===== *)
theory MfaLaws
  imports Mfa
begin

text \<open>
  Laws of the second factor: recovery codes as a set from which each code is taken once,
  enrollment from the pending secret to the confirmed one, and login challenges.
\<close>

section \<open>Recovery codes\<close>

definition codes_of :: "user_repo \<Rightarrow> row \<Rightarrow> string list" where
  "codes_of R r = load_hashes (opt_str (get_field R r ''mfa_recovery_codes'' VNone))"

lemma load_hashes_dumps [simp]: "load_hashes (Some (json_dumps xs)) = xs"
proof -
  have "json_dumps xs \<noteq> []" by (simp add: json_dumps_def)
  moreover have "concat (map (\<lambda>v. case v of JString x \<Rightarrow> [x] | _ \<Rightarrow> []) (map JString xs)) = xs"
    by (induction xs) simp_all
  ultimately show ?thesis by (simp add: load_hashes_def)
qed

lemma get_set_field [simp]: "get_field R (set_field R r f v) f dflt = v"
  by (simp add: get_field_def set_field_def)

definition mfa_col :: "user_repo \<Rightarrow> string \<Rightarrow> bool" where
  "mfa_col R f \<longleftrightarrow> has_col R f \<and> col R f \<noteq> col R ''id''"

definition without_code :: "user_repo \<Rightarrow> string \<Rightarrow> row \<Rightarrow> row" where
  "without_code R target r =
     set_field R r ''mfa_recovery_codes'' (VStr (json_dumps (filter (\<lambda>v. v \<noteq> target) (codes_of R r))))"

lemma codes_without [simp]: "codes_of R (without_code R target r) = filter (\<lambda>v. v \<noteq> target) (codes_of R r)"
  by (simp add: codes_of_def without_code_def opt_str_def)

lemma claim_unfold:
  "claim_recovery_code R (Suc n) user target d =
     (if target \<notin> set (codes_of R user) then (Inr (user, False), d)
      else bind (update_if_unchanged R user
             [(''mfa_recovery_codes'', VStr (json_dumps (filter (\<lambda>v. v \<noteq> target) (codes_of R user))))]
             ''mfa_recovery_codes'' (get_field R user ''mfa_recovery_codes'' VNone)) (\<lambda>(user', claimed).
           if claimed then ret (user', True) else claim_recovery_code R n user' target) d)"
  by (simp add: codes_of_def Let_def run_simps)

declare claim_recovery_code.simps(2) [simp del]

lemma claim_current:
  assumes "user_row R uid d = Some r" and "mfa_col R ''mfa_recovery_codes''" and "get_field R user ''mfa_recovery_codes'' VNone
      = get_field R r ''mfa_recovery_codes'' VNone" and "pk R user = uid" and "target \<in> set (codes_of R user)"
  shows "fst (claim_recovery_code R (Suc n) user target d) = Inr (without_code R target r, True)"
    and "user_row R uid (snd (claim_recovery_code R (Suc n) user target d)) = Some (without_code R target r)"
    and "v \<noteq> uid \<Longrightarrow> user_row R v (snd (claim_recovery_code R (Suc n) user target d)) = user_row R v d"
proof -
  have c: "codes_of R user = codes_of R r" by (simp add: codes_of_def assms(3))
  let ?vs = "[(''mfa_recovery_codes'', VStr (json_dumps (filter (\<lambda>v. v \<noteq> target) (codes_of R user))))]"
  note cas = cas_run [OF assms(1,4), of ?vs "''mfa_recovery_codes''" True "get_field R user ''mfa_recovery_codes'' VNone"
      "without_code R target r"]
  have pre: "\<forall>(k, v) \<in> set ?vs. has_col R k \<and> col R k \<noteq> col R ''id''" "has_col R ''mfa_recovery_codes''"
    using assms(2) by (auto simp: mfa_col_def)
  note cas = cas [OF pre, unfolded assms(3), simplified, unfolded without_code_def, simplified]
  show "fst (claim_recovery_code R (Suc n) user target d) = Inr (without_code R target r, True)"
    "user_row R uid (snd (claim_recovery_code R (Suc n) user target d)) = Some (without_code R target r)"
    "v \<noteq> uid \<Longrightarrow> user_row R v (snd (claim_recovery_code R (Suc n) user target d)) = user_row R v d"
    using cas assms(3,5) by (auto simp: claim_unfold run_simps c without_code_def)
qed

text \<open>
  A claim through a row object that may be stale: it succeeds exactly when the object lists the
  code and the table still does.
\<close>

lemma claim_recovery_run:
  assumes "user_row R uid d = Some r" and "mfa_col R ''mfa_recovery_codes''" and "pk R user = uid"
    and "ok \<longleftrightarrow> target \<in> set (codes_of R user) \<and> target \<in> set (codes_of R r)"
  shows "\<exists>u'. fst (claim_recovery_code R (Suc (Suc n)) user target d) = Inr (u', ok)"
    and "user_row R uid (snd (claim_recovery_code R (Suc (Suc n)) user target d))
      = Some (if ok then without_code R target r else r)"
proof -
  let ?f = "''mfa_recovery_codes''"
  have id: "pk R r = uid" by (rule pk_user_row [OF assms(1)])
  have both: "(\<exists>u'. fst (claim_recovery_code R (Suc (Suc n)) user target d) = Inr (u', ok))
      \<and> user_row R uid (snd (claim_recovery_code R (Suc (Suc n)) user target d)) = Some (if ok then without_code R target r else r)"
  proof (cases "target \<in> set (codes_of R user)")
    case False
    then show ?thesis using assms(1,4) by (simp add: claim_unfold)
  next
    case True
    show ?thesis
    proof (cases "get_field R user ?f VNone = get_field R r ?f VNone")
      case same: True
      then have ok using True assms(4) by (simp add: codes_of_def)
      then show ?thesis using claim_current [OF assms(1,2) same assms(3) True, where n = "Suc n"] by simp
    next
      case differ: False
      let ?vs = "[(?f, VStr (json_dumps (filter (\<lambda>v. v \<noteq> target) (codes_of R user))))]"
      let ?d' = "snd (update_if_unchanged R user ?vs ?f (get_field R user ?f VNone) d)"
      have pre: "\<forall>(k, v) \<in> set ?vs. has_col R k \<and> col R k \<noteq> col R ''id''" "has_col R ?f"
        using assms(2) by (auto simp: mfa_col_def)
      note cas = cas_run [OF assms(1,3) pre, of False "get_field R user ?f VNone" r]
      have miss: "fst (update_if_unchanged R user ?vs ?f (get_field R user ?f VNone) d) = Inr (r, False)"
        and row: "user_row R uid ?d' = Some r" using cas differ by auto
      have step: "claim_recovery_code R (Suc (Suc n)) user target d = claim_recovery_code R (Suc n) r target ?d'"
        using True miss by (simp add: claim_unfold [of R "Suc n"] run_simps)
      show ?thesis
      proof (cases "target \<in> set (codes_of R r)")
        case True
        with \<open>target \<in> set (codes_of R user)\<close> have ok using assms(4) by simp
        then show ?thesis using claim_current [OF row assms(2) refl id True, where n = n] step by simp
      next
        case False
        then show ?thesis using step row assms(4) by (simp add: claim_unfold)
      qed
    qed
  qed
  show "\<exists>u'. fst (claim_recovery_code R (Suc (Suc n)) user target d) = Inr (u', ok)"
    "user_row R uid (snd (claim_recovery_code R (Suc (Suc n)) user target d)) = Some (if ok then without_code R target r else r)"
    using both by simp_all
qed

text \<open>
  The specification: a set of hashes. An attempt presents the hashes its row object lists and
  the hash of its code; an accepted code leaves the set.
\<close>

fun take_codes :: "string set \<Rightarrow> (string set \<times> string) list \<Rightarrow> bool list" where
  "take_codes S [] = []"
| "take_codes S ((K, h) # rest) = (h \<in> K \<and> h \<in> S) # take_codes (if h \<in> K then S - {h} else S) rest"

lemma take_codes_gone: "h \<notin> S \<Longrightarrow> filter (\<lambda>(a, ok). ok \<and> snd a = h) (zip as (take_codes S as)) = []"
proof (induction S as rule: take_codes.induct)
  case (2 S K h' rest)
  then show ?case by (auto split: if_splits)
qed simp

lemma take_codes_once: "length (filter (\<lambda>(a, ok). ok \<and> snd a = h) (zip as (take_codes S as))) \<le> 1"
proof (induction S as rule: take_codes.induct)
  case (2 S K h' rest)
  then show ?case using take_codes_gone [of h "S - {h}" rest] by (auto split: if_splits)
qed simp

definition attempt_code :: "('b, 's, 'c, 'm) auth_runtime \<Rightarrow> hook_context \<Rightarrow> row \<times> string \<Rightarrow> (('b, 's, 'c, 'm) world, bool) prog" where
  "attempt_code T ctx a = bind (consume_recovery_code T (fst a) (snd a) ctx) (\<lambda>(_, ok). ret ok)"

definition presented :: "user_repo \<Rightarrow> row \<times> string \<Rightarrow> string set \<times> string" where
  "presented R a = (if is_enrolled R (fst a) then set (codes_of R (fst a)) else {}, hash_recovery_code (snd a))"

lemma attempt_code_run:
  assumes "user_row (repo T) uid (db w) = Some r" and "mfa_col (repo T) ''mfa_recovery_codes''" and "pk (repo T) (fst a) = uid"
    and "presented (repo T) a = (K, h)" and "ok \<longleftrightarrow> h \<in> K \<and> h \<in> set (codes_of (repo T) r)"
  shows "fst (attempt_code T ctx a w) = Inr ok"
    and "user_row (repo T) uid (db (snd (attempt_code T ctx a w))) = Some (if ok then without_code (repo T) h r else r)"
proof -
  obtain u c where a: "a = (u, c)" by force
  have n: "RECOVERY_CODE_CLAIM_ATTEMPTS = Suc (Suc 1)" by (simp add: RECOVERY_CODE_CLAIM_ATTEMPTS_def)
  have h: "h = hash_recovery_code c" using assms(4) by (simp add: presented_def a)
  have "fst (attempt_code T ctx a w) = Inr ok \<and>
      user_row (repo T) uid (db (snd (attempt_code T ctx a w))) = Some (if ok then without_code (repo T) h r else r)"
  proof (cases "is_enrolled (repo T) u")
    case False
    then show ?thesis using assms(1,4,5)
      by (auto simp: attempt_code_def consume_recovery_code_def a presented_def run_simps)
  next
    case True
    then have K: "K = set (codes_of (repo T) u)" using assms(4) by (simp add: presented_def a)
    have u: "pk (repo T) u = uid" using assms(3) by (simp add: a)
    note run = claim_recovery_run [OF assms(1,2) u, of ok h 1, folded n]
    obtain u' where "fst (claim_recovery_code (repo T) RECOVERY_CODE_CLAIM_ATTEMPTS u h (db w)) = Inr (u', ok)"
      using run(1) assms(5) K by blast
    then show ?thesis using run(2) assms(5) K True
      by (auto simp: attempt_code_def consume_recovery_code_def a h [symmetric] run_simps)
  qed
  then show "fst (attempt_code T ctx a w) = Inr ok"
    "user_row (repo T) uid (db (snd (attempt_code T ctx a w))) = Some (if ok then without_code (repo T) h r else r)"
    by simp_all
qed

lemma attempts_refine:
  assumes "user_row (repo T) uid (db w) = Some r" and "mfa_col (repo T) ''mfa_recovery_codes''"
    and "\<forall>a \<in> set as. pk (repo T) (fst a) = uid"
  shows "fst (map_prog (attempt_code T ctx) as w) = Inr (take_codes (set (codes_of (repo T) r)) (map (presented (repo T)) as))"
  using assms(1,3)
proof (induction as arbitrary: w r)
  case Nil
  then show ?case by (simp add: run_simps)
next
  case (Cons a as)
  obtain K h where p: "presented (repo T) a = (K, h)" by force
  let ?ok = "h \<in> K \<and> h \<in> set (codes_of (repo T) r)" and ?w = "snd (attempt_code T ctx a w)"
  have pk: "pk (repo T) (fst a) = uid" using Cons.prems(2) by simp
  note run = attempt_code_run [OF Cons.prems(1) assms(2) pk p, of ?ok ctx, simplified]
  have "set (codes_of (repo T) (if ?ok then without_code (repo T) h r else r))
      = (if h \<in> K then set (codes_of (repo T) r) - {h} else set (codes_of (repo T) r))" by auto
  then show ?case using Cons.IH [OF run(2)] Cons.prems(2) run(1) p by (simp add: run_simps)
qed

section \<open>A deployment for the witnesses\<close>

definition mfa_repo :: user_repo where
  "mfa_repo = demo_repo\<lparr>columns := [''id'', ''email'', ''is_admin'', ''token_version'', ''totp_last_step'',
     ''totp_secret_encrypted'', ''totp_confirmed_at'', ''mfa_recovery_codes'']\<rparr>"

definition enrolled_row :: "string list \<Rightarrow> row" where
  "enrolled_row codes = (demo_row 7 ''a@b.c'' 0)(''totp_secret_encrypted'' \<mapsto> VStr ''e'', ''totp_confirmed_at'' \<mapsto> VTime 0,
     ''mfa_recovery_codes'' \<mapsto> VStr (hash_recovery_codes codes))"

definition mfa_runtime :: mem_runtime where
  "mfa_runtime = demo_runtime\<lparr>repo := mfa_repo\<rparr>"

lemma mfa_runtime_sel [simp]: "repo mfa_runtime = mfa_repo" "hooks mfa_runtime = (\<lambda>_. None)" "lockout mfa_runtime = None"
  by (simp_all add: mfa_runtime_def demo_runtime_def)

lemma mfa_repo_cols [simp]:
  "col mfa_repo f = col demo_repo f"
  "has_col mfa_repo f \<longleftrightarrow> col demo_repo f \<in> {''id'', ''email'', ''is_admin'', ''token_version'', ''totp_last_step'',
     ''totp_secret_encrypted'', ''totp_confirmed_at'', ''mfa_recovery_codes''}"
  by (simp_all add: mfa_repo_def has_col_def col_def)

lemma demo_col: "col demo_repo f = (if f = ''is_superuser'' then ''is_admin'' else f)"
  by (simp add: col_def demo_repo_def)

lemma enrolled_row_facts:
  "pk mfa_repo (enrolled_row cs) = VInt 7" "is_enrolled mfa_repo (enrolled_row cs)"
  "codes_of mfa_repo (enrolled_row cs) = map hash_recovery_code cs"
  "user_row mfa_repo (VInt 7) \<lparr>rows = [enrolled_row cs]\<rparr> = Some (enrolled_row cs)"
  by (simp_all add: pk_def get_field_def demo_col enrolled_row_def demo_row_def is_enrolled_def codes_of_def opt_str_def
      hash_recovery_codes_def user_row_def)

section \<open>Each code once\<close>

text \<open>
  C19. Recovery codes. Over any sequence of attempts for an account, made through row objects of
  any age, a code is accepted exactly when the object the attempt was made with lists it and it
  has not been accepted before; so no code is ever accepted twice. Spaces, dashes and case of the
  typed code do not matter.
\<close>

theorem recovery_codes_accepted_once:
  assumes "user_row (repo T) uid (db w) = Some r" and "mfa_col (repo T) ''mfa_recovery_codes''"
    and "\<forall>a \<in> set as. pk (repo T) (fst a) = uid"
    and "oks = take_codes (set (codes_of (repo T) r)) (map (presented (repo T)) as)"
  shows "fst (map_prog (attempt_code T ctx) as w) = Inr oks
    \<and> (\<forall>h. length (filter (\<lambda>(a, ok). ok \<and> snd a = h) (zip (map (presented (repo T)) as) oks)) \<le> 1)
    \<and> hash_recovery_code code = hash_recovery_code (lower (filter (\<lambda>c. c \<notin> {CHR '' '', CHR ''-''}) code))"
proof -
  have "normalize_recovery s = normalize_recovery (lower (filter (\<lambda>c. c \<notin> {CHR '' '', CHR ''-''}) s))" for s
    unfolding normalize_recovery_def lower_idem by (induction s) (auto simp: lower_def lower_char_def Let_def)
  then have "hash_recovery_code code = hash_recovery_code (lower (filter (\<lambda>c. c \<notin> {CHR '' '', CHR ''-''}) code))"
    unfolding hash_recovery_code_def by metis
  then show ?thesis using attempts_refine [OF assms(1-3), of ctx] take_codes_once unfolding assms(4) by simp
qed

theorem recovery_codes_accepted_once_witness:
  "fst (map_prog (attempt_code mfa_runtime no_context)
     [(enrolled_row [''abcd''], ''abcd''), (enrolled_row [''abcd''], ''abcd'')] (demo_app [enrolled_row [''abcd'']]))
   = Inr [True, False]"
  using recovery_codes_accepted_once [of mfa_runtime "VInt 7" "demo_app [enrolled_row [''abcd'']]" "enrolled_row [''abcd'']"
      "[(enrolled_row [''abcd''], ''abcd''), (enrolled_row [''abcd''], ''abcd'')]" _ no_context]
  by (simp add: enrolled_row_facts mfa_col_def demo_col presented_def)

end
