(* ===== verification/Enrollment.thy ===== *)
theory Enrollment
  imports MfaLaws
begin

text \<open>
  Enrolling an authenticator: the pending secret, its confirmation with a code, and what ends a
  pending enrollment.
\<close>

section \<open>Columns and cipher\<close>

definition MFA_FIELDS :: "string list" where
  "MFA_FIELDS = [''totp_secret_encrypted'', ''totp_confirmed_at'', ''totp_last_step'', ''mfa_recovery_codes'']"

definition mfa_columns :: "user_repo \<Rightarrow> bool" where
  "mfa_columns R \<longleftrightarrow> (\<forall>f \<in> set MFA_FIELDS. mfa_col R f \<and> col R f \<noteq> col R ''token_version'') \<and> distinct (map (col R) MFA_FIELDS)"

text \<open>What is relied on of Fernet: a token decrypts to what was encrypted, and is not empty.\<close>

definition fernet_decrypts :: "fernet \<Rightarrow> string list \<Rightarrow> bool" where
  "fernet_decrypts F keys \<longleftrightarrow>
     (\<forall>nonce p. fernet_decrypt F keys (fernet_encrypt F keys nonce p) = Some p \<and> fernet_encrypt F keys nonce p \<noteq> [])"

definition service_decrypts :: "'m mfa_service \<Rightarrow> bool" where
  "service_decrypts V \<longleftrightarrow> fernet_decrypts (cipher V) (encryption_keys (mfa_conf V))"

lemma decrypt_encrypt [simp]:
  "service_decrypts V \<Longrightarrow> decrypt_secret V (encrypt_secret V nonce p) = Some p"
  "service_decrypts V \<Longrightarrow> encrypt_secret V nonce p \<noteq> []"
  by (simp_all add: service_decrypts_def fernet_decrypts_def decrypt_secret_def encrypt_secret_def)

lemma get_set_other: "col R f \<noteq> col R g \<Longrightarrow> get_field R (set_field R r f v) g dflt = get_field R r g dflt"
  by (simp add: get_field_def set_field_def)

lemma get_updated: "get_field R (r(c \<mapsto> v)) g dflt = (if col R g = c then v else get_field R r g dflt)"
  by (simp add: get_field_def)

lemma mfa_cols:
  assumes "mfa_columns R"
  shows "f \<in> set MFA_FIELDS \<Longrightarrow> has_col R f" "f \<in> set MFA_FIELDS \<Longrightarrow> col R f \<noteq> col R ''id''"
    "f \<in> set MFA_FIELDS \<Longrightarrow> col R f \<noteq> col R ''token_version''" "f \<in> set MFA_FIELDS \<Longrightarrow> mfa_col R f"
    "f \<in> set MFA_FIELDS \<Longrightarrow> g \<in> set MFA_FIELDS \<Longrightarrow> f \<noteq> g \<Longrightarrow> col R f \<noteq> col R g"
  using assms by (auto simp: mfa_columns_def mfa_col_def distinct_map dest: inj_onD)

section \<open>The version in front of the secret\<close>

lemma partition_at_append: "c \<notin> set a \<Longrightarrow> partition_at c (a @ c # b) = (a, b)"
  by (induction a) auto

lemma digit_not_colon: "d < 10 \<Longrightarrow> char_of (48 + d :: nat) \<noteq> CHR '':''"
  using of_char_of [of "48 + d :: nat"] by (auto dest: arg_cong [of _ _ "of_char :: char \<Rightarrow> nat"])

lemma no_colon_nat: "CHR '':'' \<notin> set (str_of_nat n)"
proof (induction n rule: str_of_nat.induct)
  case (1 n)
  then show ?case using digit_not_colon [of n] digit_not_colon [of "n mod 10"]
    by (subst str_of_nat.simps) (auto dest: sym)
qed

lemma no_colon_int: "CHR '':'' \<notin> set (str_of_int i)"
  by (simp add: str_of_int_def no_colon_nat)

lemma str_of_int_inj: "str_of_int i = str_of_int j \<longleftrightarrow> i = j"
  by (metis int_of_str_of_int option.inject)

section \<open>Pending and confirmed\<close>

definition pending_row :: "user_repo \<Rightarrow> 'm mfa_service \<Rightarrow> string \<Rightarrow> row \<Rightarrow> string \<Rightarrow> row" where
  "pending_row R V nonce r secret =
     set_field R (set_field R (set_field R (set_field R r
       ''totp_secret_encrypted'' (VStr (encrypt_secret V nonce (str_of_int (row_token_version R r) @ '':'' @ secret))))
       ''totp_confirmed_at'' VNone) ''totp_last_step'' VNone) ''mfa_recovery_codes'' VNone"

lemma store_pending_run:
  assumes "mfa_columns R" and "user_row R uid d = Some r"
  shows "fst (store_pending R V f r secret d) = Inr (pending_row R V (fresh_nonce f) r secret)"
    and "user_row R uid (snd (store_pending R V f r secret d)) = Some (pending_row R V (fresh_nonce f) r secret)"
    and "v \<noteq> uid \<Longrightarrow> user_row R v (snd (store_pending R V f r secret d)) = user_row R v d"
proof -
  note c = mfa_cols [OF assms(1)]
  let ?data = "[(''totp_secret_encrypted'',
      VStr (encrypt_secret V (fresh_nonce f) (str_of_int (row_token_version R r) @ '':'' @ secret))), (''totp_confirmed_at'', VNone),
      (''totp_last_step'', VNone), (''mfa_recovery_codes'', VNone)]"
  have ap: "apply_fields R ?data r = pending_row R V (fresh_nonce f) r secret"
    using c(1) by (simp add: apply_fields_def pending_row_def MFA_FIELDS_def)
  have no_id: "\<forall>(k, v) \<in> set ?data. col R k \<noteq> col R ''id''" using c(2) by (simp add: MFA_FIELDS_def)
  note up = update_user_run [OF assms(2) pk_user_row [OF assms(2)] no_id, unfolded ap]
  show "fst (store_pending R V f r secret d) = Inr (pending_row R V (fresh_nonce f) r secret)"
    "user_row R uid (snd (store_pending R V f r secret d)) = Some (pending_row R V (fresh_nonce f) r secret)"
    "v \<noteq> uid \<Longrightarrow> user_row R v (snd (store_pending R V f r secret d)) = user_row R v d"
    using up by (simp_all add: store_pending_def)
qed

lemma pending_row_facts:
  assumes "mfa_columns R" and "service_decrypts V" and "secret \<noteq> []" and "p = pending_row R V nonce r secret"
  shows "\<not> is_enrolled R p" and "row_token_version R p = row_token_version R r"
    and "pending_secret R V p = Some secret" and "older_step R step p"
    and "get_field R p ''totp_confirmed_at'' VNone = VNone"
    and "n \<noteq> row_token_version R r \<Longrightarrow> pending_secret R V (p(col R ''token_version'' \<mapsto> VInt n)) = None"
proof -
  note c = mfa_cols [OF assms(1)]
  let ?token = "VStr (encrypt_secret V nonce (str_of_int (row_token_version R r) @ '':'' @ secret))"
  have g: "get_field R p ''totp_confirmed_at'' VNone = VNone" "get_field R p ''totp_secret_encrypted'' VNone = ?token"
    "get_field R p ''token_version'' (VInt 0) = get_field R r ''token_version'' (VInt 0)"
    using c(3,5) by (simp_all add: assms(4) pending_row_def get_set_other MFA_FIELDS_def)
  have gv: "get_field R (p(col R ''token_version'' \<mapsto> VInt n)) ''totp_confirmed_at'' VNone = VNone"
    "get_field R (p(col R ''token_version'' \<mapsto> VInt n)) ''totp_secret_encrypted'' VNone = ?token" for n
    using g c(3) by (auto simp: get_updated MFA_FIELDS_def)
  have part: "partition_at (CHR '':'') (str_of_int (row_token_version R r) @ '':'' @ secret) = (str_of_int (row_token_version R r), secret)"
    using partition_at_append [OF no_colon_int] by simp
  note part = part [simplified]
  show "get_field R p ''totp_confirmed_at'' VNone = VNone" "\<not> is_enrolled R p" using g by (simp_all add: is_enrolled_def)
  show ver: "row_token_version R p = row_token_version R r" using g by (simp add: row_token_version_def)
  show "older_step R step p"
    using c(5) [of "''totp_last_step''" "''mfa_recovery_codes''"]
    by (simp add: older_step_def assms(4) pending_row_def set_field_def MFA_FIELDS_def)
  show "pending_secret R V p = Some secret"
    using assms(2,3) by (simp add: pending_secret_def Let_def g opt_str_def or_empty_def part ver)
  assume "n \<noteq> row_token_version R r"
  moreover have "row_token_version R (p(col R ''token_version'' \<mapsto> VInt n)) = n"
    by (simp add: row_token_version_def get_field_def int_value_def)
  ultimately show "pending_secret R V (p(col R ''token_version'' \<mapsto> VInt n)) = None"
    using assms(2) by (simp add: pending_secret_def Let_def gv opt_str_def or_empty_def part str_of_int_inj)
qed

lemma accept_run:
  assumes "mfa_columns R" and "user_row R uid d = Some r" and "matching_step secret code t = Some (Some step)"
    and "r' = (if older_step R step r then r(col R ''totp_last_step'' \<mapsto> VInt step) else r)"
  shows "fst (accept_totp R t r secret code d) = Inr (r', older_step R step r)"
    and "user_row R uid (snd (accept_totp R t r secret code d)) = Some r'"
  using claim_run [OF assms(2) pk_user_row [OF assms(2)] _ _ assms(4)] mfa_cols [OF assms(1), of "''totp_last_step''"] assms(3)
  by (simp_all add: accept_totp_def MFA_FIELDS_def)

definition confirmed_row :: "('b, 's, 'c, 'm) auth_runtime \<Rightarrow> 'm mfa_service \<Rightarrow> fresh \<Rightarrow> row \<Rightarrow> string \<Rightarrow> row" where
  "confirmed_row T V f r secret =
     set_field (repo T) (set_field (repo T) (set_field (repo T) r
       ''totp_secret_encrypted'' (VStr (encrypt_secret V (fresh_nonce f) secret)))
       ''totp_confirmed_at'' (VTime (now f)))
       ''mfa_recovery_codes'' (VStr (hash_recovery_codes (generate_recovery_codes (fresh_choices f) (recovery_code_count (mfa_conf V)))))"

lemma enable_run:
  assumes "mfa_columns (repo T)" and "user_row (repo T) uid (db w) = Some r"
    and "get_field (repo T) r ''totp_confirmed_at'' VNone = VNone"
  shows "fst (enable_mfa T V f r secret ctx w)
      = Inr (confirmed_row T V f r secret, Some (generate_recovery_codes (fresh_choices f) (recovery_code_count (mfa_conf V))))"
    and "user_row (repo T) uid (db (snd (enable_mfa T V f r secret ctx w))) = Some (confirmed_row T V f r secret)"
proof -
  note c = mfa_cols [OF assms(1)]
  let ?vs = "[(''totp_secret_encrypted'', VStr (encrypt_secret V (fresh_nonce f) secret)), (''totp_confirmed_at'', VTime (now f)),
      (''mfa_recovery_codes'', VStr (hash_recovery_codes (generate_recovery_codes (fresh_choices f) (recovery_code_count (mfa_conf V)))))]"
  have pre: "\<forall>(k, v) \<in> set ?vs. has_col (repo T) k \<and> col (repo T) k \<noteq> col (repo T) ''id''" "has_col (repo T) ''totp_confirmed_at''"
    using c(1,2) by (simp_all add: MFA_FIELDS_def)
  note cas = cas_run [OF assms(2) pk_user_row [OF assms(2)] pre, of True VNone "confirmed_row T V f r secret",
      unfolded assms(3) confirmed_row_def, simplified]
  show "fst (enable_mfa T V f r secret ctx w)
      = Inr (confirmed_row T V f r secret, Some (generate_recovery_codes (fresh_choices f) (recovery_code_count (mfa_conf V))))"
    "user_row (repo T) uid (db (snd (enable_mfa T V f r secret ctx w))) = Some (confirmed_row T V f r secret)"
    using cas by (simp_all add: enable_mfa_def Let_def run_simps confirmed_row_def)
qed

lemma confirmed_row_facts:
  assumes "mfa_columns (repo T)" and "service_decrypts V"
    and "q = confirmed_row T V f (r(col (repo T) ''totp_last_step'' \<mapsto> VInt step)) secret"
  shows "is_enrolled (repo T) q" and "confirmed_secret (repo T) V q = Some secret" and "\<not> older_step (repo T) step q"
    and "codes_of (repo T) q = map hash_recovery_code (generate_recovery_codes (fresh_choices f) (recovery_code_count (mfa_conf V)))"
proof -
  note c = mfa_cols [OF assms(1)]
  have g: "get_field (repo T) q ''totp_confirmed_at'' VNone = VTime (now f)"
    "get_field (repo T) q ''totp_secret_encrypted'' VNone = VStr (encrypt_secret V (fresh_nonce f) secret)"
    "get_field (repo T) q ''mfa_recovery_codes'' VNone
       = VStr (hash_recovery_codes (generate_recovery_codes (fresh_choices f) (recovery_code_count (mfa_conf V))))"
    using c(5) by (simp_all add: assms(3) confirmed_row_def get_set_other MFA_FIELDS_def)
  have "q (col (repo T) ''totp_last_step'') = Some (VInt step)"
    using c(5) [of "''totp_last_step''"] by (simp add: assms(3) confirmed_row_def set_field_def MFA_FIELDS_def)
  then show "\<not> older_step (repo T) step q" by (simp add: older_step_def)
  show "is_enrolled (repo T) q" "confirmed_secret (repo T) V q = Some secret"
    using g assms(2) by (simp_all add: is_enrolled_def confirmed_secret_def opt_str_def)
  show "codes_of (repo T) q = map hash_recovery_code (generate_recovery_codes (fresh_choices f) (recovery_code_count (mfa_conf V)))"
    using g by (simp add: codes_of_def opt_str_def hash_recovery_codes_def)
qed

lemma confirm_run:
  assumes "mfa_columns (repo T)" and "user_row (repo T) uid (db w) = Some p" and "\<not> is_enrolled (repo T) p"
    and "pending_secret (repo T) V p = Some secret" and "older_step (repo T) step p"
    and "get_field (repo T) p ''totp_confirmed_at'' VNone = VNone"
    and "matching_step secret code (now f) = Some (Some step)"
    and "q = confirmed_row T V f (p(col (repo T) ''totp_last_step'' \<mapsto> VInt step)) secret"
  shows "fst (confirm_setup T V f p code ctx w) = Inr (generate_recovery_codes (fresh_choices f) (recovery_code_count (mfa_conf V)))"
    and "user_row (repo T) uid (db (snd (confirm_setup T V f p code ctx w))) = Some q"
proof -
  let ?p = "p(col (repo T) ''totp_last_step'' \<mapsto> VInt step)"
  note acc = accept_run [OF assms(1,2,7) refl, unfolded if_P [OF assms(5)]]
  let ?w = "w\<lparr>db := snd (accept_totp (repo T) (now f) p secret code (db w))\<rparr>"
  have row: "user_row (repo T) uid (db ?w) = Some ?p" using acc(2) by simp
  have none: "get_field (repo T) ?p ''totp_confirmed_at'' VNone = VNone"
    using assms(6) mfa_cols(5) [OF assms(1), of "''totp_confirmed_at''" "''totp_last_step''"] by (simp add: get_updated MFA_FIELDS_def)
  note en = enable_run [OF assms(1) row none, of V f secret ctx]
  show "fst (confirm_setup T V f p code ctx w) = Inr (generate_recovery_codes (fresh_choices f) (recovery_code_count (mfa_conf V)))"
    "user_row (repo T) uid (db (snd (confirm_setup T V f p code ctx w))) = Some q"
    using en acc(1) assms(3-5,8) by (simp_all add: confirm_setup_def run_simps)
qed

section \<open>From setup to the first code\<close>

lemma b32_char_not_pad: "d < 32 \<Longrightarrow> b32_char d \<noteq> CHR ''=''"
  by (auto simp: b32_char_def dest: arg_cong [of _ _ "of_char :: char \<Rightarrow> nat"])

lemma rstrip_pad_nonempty: "c \<in> set s \<Longrightarrow> c \<noteq> CHR ''='' \<Longrightarrow> rstrip_pad s \<noteq> []"
  by (auto simp: rstrip_pad_def dropWhile_eq_Nil_conv)

lemma generate_secret_nonempty: "length s = TOTP_SECRET_BYTES \<Longrightarrow> generate_secret s \<noteq> []"
proof -
  assume "length s = TOTP_SECRET_BYTES"
  then have len: "length s = 20" by (simp add: TOTP_SECRET_BYTES_def)
  define n where "n = be_nat (take 5 s)"
  have "take 5 s \<in> set (chunks 5 s)" using len by (auto simp: chunks_def image_iff intro!: bexI [of _ 0])
  moreover have "b32_char (n div 32 ^ (7 - 0) mod 32) \<in> set (b32_quantum n)"
    unfolding b32_quantum_def set_map by (rule imageI) simp
  ultimately have "b32_char (n div 32 ^ (7 - 0) mod 32) \<in> set (b32encode s)"
    using len by (auto simp: b32encode_def Let_def n_def intro!: bexI [of _ "take 5 s"])
  then show ?thesis
    using rstrip_pad_nonempty b32_char_not_pad by (simp add: generate_secret_def)
qed

lemma begin_setup_run:
  assumes "mfa_columns R" and "user_row R uid d = Some r" and "\<not> is_enrolled R r"
    and "secret = generate_secret (fresh_secret f)" and "p = pending_row R V (fresh_nonce f) r secret"
  shows "fst (begin_setup R V f r d) = Inr (setup_payload R V p secret)"
    and "user_row R uid (snd (begin_setup R V f r d)) = Some p"
  using store_pending_run [OF assms(1,2), where V = V and f = f and secret = secret] assms(3-5)
  by (simp_all add: begin_setup_def Let_def run_simps)

lemma replay_refused:
  assumes "mfa_columns R" and "user_row R uid d = Some q" and "confirmed_secret R V q = Some secret"
    and "\<not> older_step R step q" and "matching_step secret code t = Some (Some step)"
  shows "\<exists>q'. fst (verify_totp R V t q code d) = Inr (q', False)"
  using accept_run [OF assms(1,2,5) refl] assms(3,4) by (simp add: verify_totp_def run_simps)

text \<open>
  C37. Enrolling an authenticator. Setup hands out the new secret and leaves the account not
  enrolled, with exactly that secret pending; a change of the account's version voids the
  pending secret. A code that does not match changes nothing. A matching code enables the second
  factor with that secret: the recovery codes returned are the ones stored, and a code of the
  same time step is not accepted again.
\<close>

theorem enrollment_round_trip:
  assumes "mfa_columns (repo T)" and "service_decrypts V" and "user_row (repo T) uid (db w) = Some r"
    and "\<not> is_enrolled (repo T) r" and "secret = generate_secret (fresh_secret f)" and "length (fresh_secret f) = TOTP_SECRET_BYTES"
    and "w1 = w\<lparr>db := snd (begin_setup (repo T) V f r (db w))\<rparr>"
  shows "\<exists>p. fst (begin_setup (repo T) V f r (db w)) = Inr (setup_payload (repo T) V p secret)
    \<and> user_row (repo T) uid (db w1) = Some p \<and> \<not> is_enrolled (repo T) p \<and> pending_secret (repo T) V p = Some secret
    \<and> (\<forall>n. n \<noteq> row_token_version (repo T) r \<longrightarrow> pending_secret (repo T) V (p(col (repo T) ''token_version'' \<mapsto> VInt n)) = None)
    \<and> (\<forall>f' code. matching_step secret code (now f') = Some None \<longrightarrow>
         confirm_setup T V f' p code ctx w1 = (Inl (UnauthorizedException ''Invalid code''), w1))
    \<and> (\<forall>f' code step. matching_step secret code (now f') = Some (Some step) \<longrightarrow>
         (\<exists>codes q. fst (confirm_setup T V f' p code ctx w1) = Inr codes
           \<and> user_row (repo T) uid (db (snd (confirm_setup T V f' p code ctx w1))) = Some q
           \<and> is_enrolled (repo T) q \<and> confirmed_secret (repo T) V q = Some secret
           \<and> codes_of (repo T) q = map hash_recovery_code codes
           \<and> (\<forall>t code'. matching_step secret code' t = Some (Some step) \<longrightarrow>
                (\<exists>q'. fst (verify_totp (repo T) V t q code' (db (snd (confirm_setup T V f' p code ctx w1)))) = Inr (q', False)))))"
    (is "\<exists>p. ?P p")
proof -
  define p where "p = pending_row (repo T) V (fresh_nonce f) r secret"
  note b = begin_setup_run [OF assms(1,3,4,5) p_def]
  have "secret \<noteq> []" using generate_secret_nonempty assms(5,6) by simp
  note facts = pending_row_facts [OF assms(1,2) this p_def]
  have row: "user_row (repo T) uid (db w1) = Some p" using b(2) by (simp add: assms(7))
  have wrong: "confirm_setup T V f' p code ctx w1 = (Inl (UnauthorizedException ''Invalid code''), w1)"
    if "matching_step secret code (now f') = Some None" for f' code
    using that facts(1,3) by (simp add: confirm_setup_def accept_totp_def run_simps)
  have right: "\<exists>codes q. fst (confirm_setup T V f' p code ctx w1) = Inr codes
           \<and> user_row (repo T) uid (db (snd (confirm_setup T V f' p code ctx w1))) = Some q
           \<and> is_enrolled (repo T) q \<and> confirmed_secret (repo T) V q = Some secret
           \<and> codes_of (repo T) q = map hash_recovery_code codes
           \<and> (\<forall>t code'. matching_step secret code' t = Some (Some step) \<longrightarrow>
                (\<exists>q'. fst (verify_totp (repo T) V t q code' (db (snd (confirm_setup T V f' p code ctx w1)))) = Inr (q', False)))"
    if m: "matching_step secret code (now f') = Some (Some step)" for f' code step
  proof -
    define q where "q = confirmed_row T V f' (p(col (repo T) ''totp_last_step'' \<mapsto> VInt step)) secret"
    note run = confirm_run [OF assms(1) row facts(1,3,4,5) m q_def, of ctx]
    note qf = confirmed_row_facts [OF assms(1,2) q_def]
    show ?thesis using run qf(1,2,4) replay_refused [OF assms(1) run(2) qf(2,3)] by blast
  qed
  show ?thesis using b(1) row facts(1,3,6) wrong right by (intro exI [of _ p]) blast
qed

definition demo_fernet :: fernet where
  "demo_fernet = \<lparr>fernet_encrypt = (\<lambda>keys nonce p. CHR ''x'' # p), fernet_decrypt = (\<lambda>keys t. case t of [] \<Rightarrow> None | _ # p \<Rightarrow> Some p)\<rparr>"

definition demo_challenges :: "mfa_challenge mem_store_config" where
  "demo_challenges = \<lparr>prefix = ''mfa_challenge:'', expiration = 300, generate_session_id = ''g'', payload_user_id = (\<lambda>_. None)\<rparr>"

definition demo_mfa :: "mfa_challenge mem_store mfa_service" where
  "demo_mfa = \<lparr>mfa_conf = \<lparr>issuer = ''App'', encryption_keys = [''e''], required_for = (\<lambda>_. False), mfa_oauth = False,
     challenge_ttl_seconds = 300, max_code_attempts = 5, recovery_code_count = 10\<rparr>,
     challenge_store = mem_storage demo_challenges, cipher = demo_fernet\<rparr>"

lemma demo_mfa_facts: "service_decrypts demo_mfa" "mfa_columns mfa_repo"
  by (simp_all add: service_decrypts_def fernet_decrypts_def demo_mfa_def demo_fernet_def mfa_columns_def MFA_FIELDS_def
      mfa_col_def demo_col)

definition plain_row :: row where
  "plain_row = demo_row 7 ''a@b.c'' 0"

lemma plain_row_facts: "user_row mfa_repo (VInt 7) \<lparr>rows = [plain_row]\<rparr> = Some plain_row" "\<not> is_enrolled mfa_repo plain_row"
  by (simp_all add: plain_row_def demo_row_def user_row_def demo_col is_enrolled_def get_field_def)

theorem enrollment_round_trip_witness:
  "\<exists>p. fst (begin_setup mfa_repo demo_mfa demo_fresh plain_row \<lparr>rows = [plain_row]\<rparr>)
       = Inr (setup_payload mfa_repo demo_mfa p (generate_secret (fresh_secret demo_fresh)))
     \<and> \<not> is_enrolled mfa_repo p"
  using enrollment_round_trip [of mfa_runtime demo_mfa "VInt 7" "demo_app [plain_row]" plain_row
      "generate_secret (fresh_secret demo_fresh)" demo_fresh
      "demo_app [plain_row]\<lparr>db := snd (begin_setup mfa_repo demo_mfa demo_fresh plain_row \<lparr>rows = [plain_row]\<rparr>)\<rparr>" no_context]
  by (auto simp: demo_mfa_facts plain_row_facts demo_fresh_def TOTP_SECRET_BYTES_def)

end
