(* ===== verification/Challenges.thy ===== *)
theory Challenges
  imports Enrollment
begin

text \<open>
  Login challenges: what a call to \<open>complete_challenge\<close> does to the stored challenge, and
  that only an accepted code issues a credential. The laws are stated over any store that keeps
  the contract of the session stores and hold of the in-memory one.
\<close>

section \<open>What the steps leave alone\<close>

definition no_credential :: "('b, 's, 'c, 'm) world \<Rightarrow> ('b, 's, 'c, 'm) world \<Rightarrow> bool" where
  "no_credential w w' \<longleftrightarrow> sess w' = sess w \<and> response_cookies w' = response_cookies w"

lemma get_by_id_state: "snd (get_by_id R uid d) = d"
  by (simp add: get_by_id_def with_attr_def select_where_def scalar_one_or_none_def run_simps split: option.split list.split)

lemma consume_keeps:
  "challenges (snd (consume_recovery_code T u code ctx w)) = challenges w \<and> no_credential w (snd (consume_recovery_code T u code ctx w))"
  by (auto simp: consume_recovery_code_def no_credential_def run_simps split: sum.split prod.split)

lemma check_answer_keeps:
  "challenges (snd (check_answer T V f ch u code ctx w)) = challenges w \<and> no_credential w (snd (check_answer T V f ch u code ctx w))"
  using consume_keeps [of T u code ctx w]
  by (auto simp: check_answer_def verify_code_def no_credential_def run_simps split: sum.split prod.split option.split)

lemma enable_keeps:
  "challenges (snd (enable_mfa T V f u s ctx w)) = challenges w \<and> no_credential w (snd (enable_mfa T V f u s ctx w))"
  by (auto simp: enable_mfa_def Let_def no_credential_def run_simps split: sum.split prod.split)

lemma complete_login_challenges: "challenges (snd (complete_login T tr f r u opt w)) = challenges w"
  by (cases tr) (auto simp: complete_login_session_def complete_login_bearer_def issue_tokens_def mint_def Let_def run_simps
      split: sum.split prod.split)

text \<open>The rest of the login once the challenge is taken.\<close>

definition finish_login :: "('b, 's, 'c, 'm) auth_runtime \<Rightarrow> 'm mfa_service \<Rightarrow> fresh \<Rightarrow> request \<Rightarrow> ('s, 'c) transport \<Rightarrow>
    mfa_challenge \<Rightarrow> hook_context \<Rightarrow> row \<Rightarrow> string option \<Rightarrow> (('b, 's, 'c, 'm) world, (string \<times> pyval) list) prog" where
  "finish_login T V f r transport ch ctx user' secret =
     bind (case secret of None \<Rightarrow> ret (user', None) | Some s \<Rightarrow> enable_mfa T V f user' s ctx) (\<lambda>(user'', codes).
     bind (record_login_success T f (ch_ip ch) (ch_identifier ch)) (\<lambda>_.
     bind (complete_login T transport f r user'' (ch_options ch)) (\<lambda>body.
     ret (body
       @ (case codes of None \<Rightarrow> [] | Some cs \<Rightarrow> [(''recovery_codes'', VList (map VStr cs))])
       @ (case opt_redirect_to (ch_options ch) of None \<Rightarrow> [] | Some d \<Rightarrow> [(''redirect_to'', VStr d)])))))"

lemma finish_login_challenges: "challenges (snd (finish_login T V f r tr ch ctx u s w)) = challenges w"
  by (auto simp: finish_login_def record_login_success_run run_simps complete_login_challenges conjunct1 [OF enable_keeps] split: sum.split prod.split option.split)

text \<open>An attempt on a live challenge, from the count of the attempt on.\<close>

definition answer_challenge :: "('b, 's, 'c, 'm) auth_runtime \<Rightarrow> 'm mfa_service \<Rightarrow> fresh \<Rightarrow> request \<Rightarrow> ('s, 'c) transport \<Rightarrow>
    string \<Rightarrow> string \<Rightarrow> mfa_challenge \<Rightarrow> (('b, 's, 'c, 'm) world, (string \<times> pyval) list) prog" where
  "answer_challenge T V f r transport key code ch =
     bind (guard_challenge T V f key ch) (\<lambda>_.
     bind (challenged_user T V f key ch) (\<lambda>user.
     let ctx = (request_context T r)\<lparr>hc_transport := Some (ch_transport ch)\<rparr>
     in bind (check_answer T V f ch user code ctx) (\<lambda>(user', accepted, secret).
        if \<not> accepted
        then bind (if ch_attempts ch \<ge> max_code_attempts (mfa_conf V) then delete_challenge V f key else ret ())
               (\<lambda>_. raise (UnauthorizedException ''Invalid code''))
        else
          bind (in_challenges (st_get_and_delete (challenge_store V) (now f) key)) (\<lambda>taken.
          if taken = None then raise INVALID_CHALLENGE else finish_login T V f r transport ch ctx user' secret))))"

lemma complete_challenge_answer:
  "complete_challenge T V f r token code =
     bind (in_challenges (st_get (challenge_store V) (now f) (challenge_key token))) (\<lambda>pending.
     case pending of
       None \<Rightarrow> raise INVALID_CHALLENGE
     | Some p \<Rightarrow>
         bind (transport_named T (ch_transport p)) (\<lambda>transport.
         if sets_cookies transport \<and> is_cross_site r
         then raise (ForbiddenException ''Cross-site login requests are not allowed.'')
         else bind (count_code_attempt V f (challenge_key token)) (answer_challenge T V f r transport (challenge_key token) code)))"
  unfolding complete_challenge_def answer_challenge_def finish_login_def Let_def ..

section \<open>Over a store that keeps its contract\<close>

text \<open>
  What is written on success: the user the challenge is for, and that the code was accepted for
  it. The check runs on a world that differs from the one before the call in the counters and
  the challenges only.
\<close>

definition answered :: "('b, 's, 'c, 'm) auth_runtime \<Rightarrow> 'm mfa_service \<Rightarrow> fresh \<Rightarrow> request \<Rightarrow> string \<Rightarrow> mfa_challenge \<Rightarrow>
    ('b, 's, 'c, 'm) world \<Rightarrow> bool" where
  "answered T V f r code ch w \<longleftrightarrow>
     (\<exists>u w2 w3 u' secret. fst (get_by_id (repo T) (account_id ch) (db w)) = Inr (Some u)
        \<and> is_active (repo T) u \<and> row_token_version (repo T) u = ch_version ch
        \<and> db w2 = db w \<and> no_credential w w2
        \<and> check_answer T V f ch u code ((request_context T r)\<lparr>hc_transport := Some (ch_transport ch)\<rparr>) w2
            = (Inr (u', True, secret), w3))"

lemma guard_challenge_shape:
  "\<exists>l. guard_challenge T V f key ch w = (Inr (), w\<lparr>limiter := l\<rparr>)
    \<or> (\<exists>n. guard_challenge T V f key ch w
         = bind (delete_challenge V f key) (\<lambda>_. raise (TOO_MANY n)) (w\<lparr>limiter := l\<rparr>))"
proof (cases "lockout T")
  case None
  then show ?thesis by (intro exI [of _ "limiter w"]) (simp add: guard_challenge_def run_simps)
next
  case (Some P)
  obtain al x n where "fst (check_and_record P (rate_limiter T) (now f) (ch_ip ch) (ch_identifier ch) False (limiter w)) = Inr (al, x, n)"
    by (metis check_and_record_answers prod_cases3)
  then show ?thesis using Some by (cases al) (auto simp: guard_challenge_def run_simps)
qed

locale challenge_service = session_store "challenge_store V" view ok who hit
  for V :: "'m mfa_service" and view :: "int \<Rightarrow> 'm \<Rightarrow> mfa_challenge entries" and ok who hit
begin

lemma get_step:
  assumes "ok (challenges w)"
  shows "\<exists>c. in_challenges (st_get (challenge_store V) t key) w = (Inr (val_of (view t (challenges w)) key), w\<lparr>challenges := c\<rparr>)
    \<and> ok c \<and> view t c = view t (challenges w)"
  using assms by (auto simp: in_challenges_run store_laws)

lemma delete_step:
  assumes "ok (challenges w)"
  shows "\<exists>c. delete_challenge V f key w = (Inr (), w\<lparr>challenges := c\<rparr>)
    \<and> ok c \<and> view (now f) c = (view (now f) (challenges w))(key := None)"
  using assms by (auto simp: delete_challenge_def run_simps store_laws)

lemma take_step:
  assumes "ok (challenges w)"
  shows "\<exists>c. in_challenges (st_get_and_delete (challenge_store V) t key) w
      = (Inr (val_of (view t (challenges w)) key), w\<lparr>challenges := c\<rparr>)
    \<and> ok c \<and> view t c = (view t (challenges w))(key := None)"
  using assms by (auto simp: in_challenges_run store_laws)

lemma count_step:
  assumes "ok (challenges w)" and "0 \<le> st_expiration (challenge_store V)" and "view (now f) (challenges w) key = Some (p, d)"
    and "ch = p\<lparr>ch_attempts := ch_attempts p + 1\<rparr>"
  shows "\<exists>c. count_code_attempt V f key w
      = (if ch_attempts ch > max_code_attempts (mfa_conf V) then Inl INVALID_CHALLENGE else Inr ch, w\<lparr>challenges := c\<rparr>)
    \<and> ok c \<and> view (now f) c key = (if ch_attempts ch > max_code_attempts (mfa_conf V) then None else Some (ch, d))"
proof -
  let ?m = "st_modify (challenge_store V) (now f) key (\<lambda>c. (c\<lparr>ch_attempts := ch_attempts c + 1\<rparr>, [])) False None (challenges w)"
  have v: "val_of (view (now f) (challenges w)) key = Some p" using assms(3) by (simp add: val_of_def)
  have m: "fst ?m = Inr (Some (ch, []))" "ok (snd ?m)" "view (now f) (snd ?m) key = Some (ch, d)"
    using assms by (simp_all add: modify_result modify_view modify_ok v ttl_or_def rewrite_entry_def)
  let ?w = "w\<lparr>challenges := snd ?m\<rparr>"
  have "ok (challenges ?w)" using m(2) by simp
  then obtain c where c: "delete_challenge V f key ?w = (Inr (), w\<lparr>challenges := c\<rparr>)" "ok c" "view (now f) c key = None"
    using delete_step [of ?w f key] by auto
  show ?thesis
  proof (cases "ch_attempts ch > max_code_attempts (mfa_conf V)")
    case True
    then show ?thesis using c m(1) by (intro exI [of _ c]) (simp add: count_code_attempt_def run_simps)
  next
    case False
    then show ?thesis using m by (intro exI [of _ "snd ?m"]) (simp add: count_code_attempt_def run_simps)
  qed
qed

lemma user_step:
  assumes "ok (challenges w)"
  shows "(\<exists>u. challenged_user T V f key ch w = (Inr u, w) \<and> fst (get_by_id (repo T) (account_id ch) (db w)) = Inr (Some u)
      \<and> is_active (repo T) u \<and> row_token_version (repo T) u = ch_version ch)
    \<or> (\<exists>e c. challenged_user T V f key ch w = (Inl e, w\<lparr>challenges := c\<rparr>) \<and> ok c
      \<and> view (now f) c key \<in> {None, view (now f) (challenges w) key})"
proof -
  have w: "w\<lparr>db := snd (get_by_id (repo T) (account_id ch) (db w))\<rparr> = w" by (simp add: get_by_id_state)
  have w': "w = w\<lparr>challenges := challenges w\<rparr>" by simp
  obtain c where c: "delete_challenge V f key w = (Inr (), w\<lparr>challenges := c\<rparr>)" "ok c" "view (now f) c key = None"
    using delete_step [OF assms, of f key] by auto
  show ?thesis
  proof (cases "fst (get_by_id (repo T) (account_id ch) (db w))")
    case (Inl e)
    then show ?thesis using assms w'
      by (intro disjI2 exI [of _ e] exI [of _ "challenges w"]) (simp add: challenged_user_def run_simps w)
  next
    case (Inr found)
    then show ?thesis using c by (auto simp: challenged_user_def run_simps w split: option.splits)
  qed
qed

text \<open>An attempt either is answered and takes the challenge, or issues nothing.\<close>

definition attempt_outcome :: "('b, 's, 'c, 'm) auth_runtime \<Rightarrow> fresh \<Rightarrow> request \<Rightarrow> string \<Rightarrow> string \<Rightarrow> mfa_challenge \<Rightarrow> int \<Rightarrow>
    ('b, 's, 'c, 'm) world \<Rightarrow> (exc + (string \<times> pyval) list) \<times> ('b, 's, 'c, 'm) world \<Rightarrow> bool" where
  "attempt_outcome T f r key code ch d w out \<longleftrightarrow> ok (challenges (snd out))
     \<and> (answered T V f r code ch w \<and> view (now f) (challenges (snd out)) key = None
        \<or> (\<exists>e. fst out = Inl e) \<and> no_credential w (snd out) \<and> view (now f) (challenges (snd out)) key \<in> {None, Some (ch, d)})"

lemma code_step:
  assumes "ok (challenges w2)" and "view (now f) (challenges w2) key = Some (ch, d)" and "no_credential w w2" and "db w2 = db w"
    and "fst (get_by_id (repo T) (account_id ch) (db w)) = Inr (Some u)" "is_active (repo T) u" "row_token_version (repo T) u = ch_version ch"
    and "ctx = (request_context T r)\<lparr>hc_transport := Some (ch_transport ch)\<rparr>"
  shows "attempt_outcome T f r key code ch d w
     (bind (check_answer T V f ch u code ctx) (\<lambda>(user', accepted, secret).
        if \<not> accepted
        then bind (if ch_attempts ch \<ge> max_code_attempts (mfa_conf V) then delete_challenge V f key else ret ())
               (\<lambda>_. raise (UnauthorizedException ''Invalid code''))
        else
          bind (in_challenges (st_get_and_delete (challenge_store V) (now f) key)) (\<lambda>taken.
          if taken = None then raise INVALID_CHALLENGE else finish_login T V f r transport ch ctx user' secret)) w2)"
proof -
  obtain res w3 where c: "check_answer T V f ch u code ctx w2 = (res, w3)" by force
  have k: "challenges w3 = challenges w2" "no_credential w2 w3" using check_answer_keeps [of T V f ch u code ctx w2] c by simp_all
  have ok3: "ok (challenges w3)" "view (now f) (challenges w3) key = Some (ch, d)" "no_credential w w3"
    using k assms(1-3) by (simp_all add: no_credential_def)
  obtain c1 where del: "delete_challenge V f key w3 = (Inr (), w3\<lparr>challenges := c1\<rparr>)" "ok c1" "view (now f) c1 key = None"
    using delete_step [OF ok3(1), of f key] by auto
  obtain c2 where tk: "in_challenges (st_get_and_delete (challenge_store V) (now f) key) w3 = (Inr (Some ch), w3\<lparr>challenges := c2\<rparr>)"
    "ok c2" "view (now f) c2 key = None"
    using take_step [OF ok3(1), of "now f" key] ok3(2) by (auto simp: val_of_def)
  have ans: "answered T V f r code ch w" if "res = Inr (u', True, secret)" for u' secret
    using assms(3-8) c that unfolding answered_def by blast
  show ?thesis
  proof (cases "\<exists>u' secret. res = Inr (u', True, secret)")
    case True
    then obtain u' secret where r: "res = Inr (u', True, secret)" by blast
    show ?thesis using ans [OF r] tk
      by (simp add: attempt_outcome_def bind_run c r tk(1) finish_login_challenges)
  next
    case False
    then show ?thesis using c ok3 del
      by (cases res) (auto simp: attempt_outcome_def run_simps no_credential_def)
  qed
qed

lemma answer_step:
  assumes "ok (challenges w)" and "view (now f) (challenges w) key = Some (ch, d)"
  shows "attempt_outcome T f r key code ch d w (answer_challenge T V f r transport key code ch w)"
proof -
  obtain l where l: "guard_challenge T V f key ch w = (Inr (), w\<lparr>limiter := l\<rparr>)
    \<or> (\<exists>n. guard_challenge T V f key ch w = bind (delete_challenge V f key) (\<lambda>_. raise (TOO_MANY n)) (w\<lparr>limiter := l\<rparr>))"
    using guard_challenge_shape [of T V f key ch w] by blast
  let ?w = "w\<lparr>limiter := l\<rparr>"
  have ok1: "ok (challenges ?w)" "view (now f) (challenges ?w) key = Some (ch, d)" using assms by simp_all
  obtain c where c: "delete_challenge V f key ?w = (Inr (), ?w\<lparr>challenges := c\<rparr>)" "ok c" "view (now f) c key = None"
    using delete_step [OF ok1(1), of f key] by auto
  show ?thesis using l
  proof
    assume g: "guard_challenge T V f key ch w = (Inr (), ?w)"
    show ?thesis using user_step [OF ok1(1), of T f key ch]
    proof
      assume "\<exists>u. challenged_user T V f key ch ?w = (Inr u, ?w) \<and> fst (get_by_id (repo T) (account_id ch) (db ?w)) = Inr (Some u)
        \<and> is_active (repo T) u \<and> row_token_version (repo T) u = ch_version ch"
      then obtain u where u: "challenged_user T V f key ch ?w = (Inr u, ?w)" "fst (get_by_id (repo T) (account_id ch) (db w)) = Inr (Some u)"
        "is_active (repo T) u" "row_token_version (repo T) u = ch_version ch" by auto
      have n: "no_credential w ?w" "db ?w = db w" by (simp_all add: no_credential_def)
      show ?thesis using code_step [OF ok1 n u(2-4) refl, of r code transport]
        unfolding answer_challenge_def Let_def bind_run [of "guard_challenge T V f key ch"]
          bind_run [of "challenged_user T V f key ch"] g fst_conv snd_conv sum.case u(1) .
    next
      assume "\<exists>e c. challenged_user T V f key ch ?w = (Inl e, ?w\<lparr>challenges := c\<rparr>) \<and> ok c
        \<and> view (now f) c key \<in> {None, view (now f) (challenges ?w) key}"
      then show ?thesis using assms(2)
        by (auto simp: answer_challenge_def bind_run g attempt_outcome_def no_credential_def)
    qed
  next
    assume "\<exists>n. guard_challenge T V f key ch w = bind (delete_challenge V f key) (\<lambda>_. raise (TOO_MANY n)) ?w"
    then show ?thesis using c
      by (auto simp: answer_challenge_def attempt_outcome_def no_credential_def run_simps)
  qed
qed

lemma complete_step:
  assumes "ok (challenges w)" and "0 \<le> st_expiration (challenge_store V)" and "key = challenge_key token"
    and "out = complete_challenge T V f r token code w"
  shows "ok (challenges (snd out)) \<and>
     (case view (now f) (challenges w) key of
        None \<Rightarrow> fst out = Inl INVALID_CHALLENGE \<and> no_credential w (snd out) \<and> view (now f) (challenges (snd out)) key = None
      | Some (p, d) \<Rightarrow>
          let ch = p\<lparr>ch_attempts := ch_attempts p + 1\<rparr>
          in ch_attempts ch \<le> max_code_attempts (mfa_conf V) \<and> answered T V f r code ch w \<and> view (now f) (challenges (snd out)) key = None
           \<or> (\<exists>e. fst out = Inl e) \<and> no_credential w (snd out)
             \<and> (view (now f) (challenges (snd out)) key = None
                \<or> view (now f) (challenges (snd out)) key = Some (ch, d) \<and> ch_attempts ch \<le> max_code_attempts (mfa_conf V)
                \<or> view (now f) (challenges (snd out)) key = Some (p, d) \<and>
                    (fst out = Inl INVALID_CHALLENGE \<or> fst out = Inl (ForbiddenException ''Cross-site login requests are not allowed.''))))"
proof -
  obtain c0 where c0: "in_challenges (st_get (challenge_store V) (now f) key) w = (Inr (val_of (view (now f) (challenges w)) key), w\<lparr>challenges := c0\<rparr>)"
    "ok c0" "view (now f) c0 = view (now f) (challenges w)" using get_step [OF assms(1), of "now f" key] by blast
  let ?w = "w\<lparr>challenges := c0\<rparr>"
  have out: "out = (case val_of (view (now f) (challenges w)) key of
       None \<Rightarrow> raise INVALID_CHALLENGE
     | Some p \<Rightarrow>
         bind (transport_named T (ch_transport p)) (\<lambda>transport.
         if sets_cookies transport \<and> is_cross_site r
         then raise (ForbiddenException ''Cross-site login requests are not allowed.'')
         else bind (count_code_attempt V f key) (answer_challenge T V f r transport key code))) ?w"
    unfolding assms(4) complete_challenge_answer assms(3) [symmetric]
      bind_run [of "in_challenges (st_get (challenge_store V) (now f) key)"] c0(1) fst_conv snd_conv sum.case ..
  show ?thesis
  proof (cases "view (now f) (challenges w) key")
    case None
    then show ?thesis using c0 by (simp add: out val_of_def run_simps no_credential_def)
  next
    case (Some pd)
    obtain p d where pd: "pd = (p, d)" by force
    define ch where "ch = p\<lparr>ch_attempts := ch_attempts p + 1\<rparr>"
    have v: "view (now f) (challenges ?w) key = Some (p, d)" "ok (challenges ?w)" using c0 Some pd by simp_all
    obtain c where c: "count_code_attempt V f key ?w
        = (if ch_attempts ch > max_code_attempts (mfa_conf V) then Inl INVALID_CHALLENGE else Inr ch, w\<lparr>challenges := c\<rparr>)"
      "ok c" "view (now f) c key = (if ch_attempts ch > max_code_attempts (mfa_conf V) then None else Some (ch, d))"
      using count_step [OF v(2) assms(2) v(1) ch_def] by auto
    consider (no_transport) "out = (Inl INVALID_CHALLENGE, ?w)"
      | (cross) "out = (Inl (ForbiddenException ''Cross-site login requests are not allowed.''), ?w)"
      | (over) "ch_attempts ch > max_code_attempts (mfa_conf V)" "out = (Inl INVALID_CHALLENGE, w\<lparr>challenges := c\<rparr>)"
      | (counted) tr where "ch_attempts ch \<le> max_code_attempts (mfa_conf V)" "out = answer_challenge T V f r tr key code ch (w\<lparr>challenges := c\<rparr>)"
    proof (cases "find (\<lambda>t. transport_name t = ch_transport p) (transports T)")
      case None
      then show ?thesis using Some pd by (intro no_transport) (simp add: out val_of_def transport_named_def run_simps)
    next
      case tr: (Some tr)
      then have o: "out = (if sets_cookies tr \<and> is_cross_site r
          then (Inl (ForbiddenException ''Cross-site login requests are not allowed.''), ?w)
          else bind (count_code_attempt V f key) (answer_challenge T V f r tr key code) ?w)"
        using Some pd by (simp add: out val_of_def transport_named_def run_simps)
      show ?thesis
      proof (cases "sets_cookies tr \<and> is_cross_site r")
        case True
        then show ?thesis using o by (intro cross) simp
      next
        case False
        then show ?thesis using o c(1) over counted by (cases "ch_attempts ch > max_code_attempts (mfa_conf V)") (auto simp: bind_run)
      qed
    qed
    then show ?thesis
    proof cases
      case counted
      have view: "ok (challenges (w\<lparr>challenges := c\<rparr>))" "view (now f) (challenges (w\<lparr>challenges := c\<rparr>)) key = Some (ch, d)"
        using c(2,3) counted(1) by simp_all
      have same: "answered T V f r code ch (w\<lparr>challenges := c\<rparr>) = answered T V f r code ch w"
        "no_credential (w\<lparr>challenges := c\<rparr>) x = no_credential w x" for x
        by (simp_all add: answered_def no_credential_def)
      have a: "ch_attempts p + 1 = ch_attempts ch" "p\<lparr>ch_attempts := ch_attempts ch\<rparr> = ch" by (simp_all add: ch_def)
      show ?thesis using answer_step [OF view, of T r code tr] counted Some pd
        by (auto simp: attempt_outcome_def same Let_def a)
    qed (use c v Some pd in \<open>auto simp: no_credential_def Let_def\<close>)
  qed
qed

end

definition mem_mfa :: "mfa_config \<Rightarrow> fernet \<Rightarrow> mfa_challenge mem_store_config \<Rightarrow> mfa_challenge mem_store mfa_service" where
  "mem_mfa conf F cfg = \<lparr>mfa_conf = conf, challenge_store = mem_storage cfg, cipher = F\<rparr>"

interpretation mem_challenges: challenge_service "mem_mfa conf F cfg" "store_view cfg" "store_ok cfg" "payload_user_id cfg"
  "\<lambda>_ s sid. map_of (data s) (get_key (prefix cfg) sid) \<noteq> None" for conf F cfg
proof -
  have "challenge_store (mem_mfa conf F cfg) = mem_storage cfg" by (simp add: mem_mfa_def)
  then show "challenge_service (mem_mfa conf F cfg) (store_view cfg) (store_ok cfg) (payload_user_id cfg)
      (\<lambda>_ s sid. map_of (data s) (get_key (prefix cfg) sid) \<noteq> None)"
    unfolding challenge_service_def session_store_def using mem_store.timed_store_axioms by simp
qed

section \<open>A credential needs its code\<close>

text \<open>
  C8. Answering a login challenge. Without a live challenge nothing is issued. With one, either
  the attempt is within the limit, the challenged account is active with the version it had when
  the password was checked, the code is accepted, and the challenge is used up; or the call fails
  without touching sessions or cookies, and the challenge is gone, or counted one attempt
  further within the limit, or, when the transport is unknown or the request cross-site, untouched
  because no code was checked.
\<close>

theorem challenge_needs_its_code:
  assumes "V = mem_mfa conf F cfg" and "store_ok cfg (challenges w)" and "0 \<le> expiration cfg"
    and "key = challenge_key token" and "out = complete_challenge T V f r token code w"
    and "after = store_view cfg (now f) (challenges (snd out)) key"
  shows "case store_view cfg (now f) (challenges w) key of
      None \<Rightarrow> fst out = Inl INVALID_CHALLENGE \<and> no_credential w (snd out) \<and> after = None
    | Some (p, d) \<Rightarrow>
        let ch = p\<lparr>ch_attempts := ch_attempts p + 1\<rparr>
        in ch_attempts ch \<le> max_code_attempts conf \<and> answered T V f r code ch w \<and> after = None
         \<or> (\<exists>e. fst out = Inl e) \<and> no_credential w (snd out)
           \<and> (after = None
              \<or> after = Some (ch, d) \<and> ch_attempts ch \<le> max_code_attempts conf
              \<or> after = Some (p, d) \<and>
                  (fst out = Inl INVALID_CHALLENGE \<or> fst out = Inl (ForbiddenException ''Cross-site login requests are not allowed.'')))"
proof -
  have sel: "0 \<le> st_expiration (challenge_store V)" "mfa_conf V = conf"
    using assms(1,3) by (simp_all add: mem_mfa_def mem_storage_def)
  show ?thesis
    using conjunct2 [OF mem_challenges.complete_step [OF assms(2) sel(1) [unfolded assms(1)] assms(4) assms(5) [unfolded assms(1)]]]
    unfolding sel(2) [unfolded assms(1)] assms(1,6) .
qed

theorem challenge_needs_its_code_witness:
  "fst (complete_challenge mfa_runtime (mem_mfa (mfa_conf demo_mfa) demo_fernet demo_challenges) demo_fresh plain_request ''t'' ''123456''
     (demo_app [plain_row])) = Inl INVALID_CHALLENGE"
proof -
  have "store_view demo_challenges (now demo_fresh) (challenges (demo_app [plain_row])) k = None" for k
    by (simp add: store_view_def mem_store_init_def)
  then show ?thesis
    using challenge_needs_its_code [OF refl, of demo_challenges "demo_app [plain_row]" "challenge_key ''t''" "''t''"
        "complete_challenge mfa_runtime (mem_mfa (mfa_conf demo_mfa) demo_fernet demo_challenges) demo_fresh plain_request ''t'' ''123456''
           (demo_app [plain_row])" mfa_runtime "mfa_conf demo_mfa" demo_fernet demo_fresh plain_request "''123456''"]
    by (simp add: store_ok_def mem_store_init_def demo_challenges_def)
qed

end
