(* ===== verification/Sudo.thy ===== *)
theory Sudo
  imports Mfa
begin

text \<open>
  Sudo mode, \<open>crudauth/sudo.py\<close>: a recent re-authentication stamped on the session, with a
  lockout of its own. The stamp, an ISO-8601 instant in the source, is the instant itself.
\<close>

definition SUDO_NAMESPACE :: string where
  "SUDO_NAMESPACE = ''sudo''"

definition SUDO_ELEVATED_UNTIL_META_KEY :: string where
  "SUDO_ELEVATED_UNTIL_META_KEY = ''sudo_elevated_until''"

record sudo_config =
  sudo_window_seconds :: int
  sudo_max_attempts :: int
  sudo_lockout_seconds :: int

record ('b, 's, 'c) sudo_manager =
  sudo_sessions :: "('s, 'c) session_manager"
  sudo_backend :: "'b rate_limiter_backend option"
  sudo_conf :: sudo_config

definition sudo_session_id :: "auth_principal \<Rightarrow> ('w, string) prog" where
  "sudo_session_id p =
     (case p_session_id p of
        None \<Rightarrow> raise (ForbiddenException ''Sudo requires a session-backed login.'')
      | Some sid \<Rightarrow> if p_transport p \<noteq> ''session'' \<or> sid = []
                     then raise (ForbiddenException ''Sudo requires a session-backed login.'') else ret sid)"

definition fail_key :: "pyval \<Rightarrow> string" where
  "fail_key uid = SUDO_NAMESPACE @ '':fail:'' @ py_str uid"

definition lock_key :: "pyval \<Rightarrow> string" where
  "lock_key uid = SUDO_NAMESPACE @ '':lock:'' @ py_str uid"

definition SUDO_LOCKED :: "int \<Rightarrow> exc" where
  "SUDO_LOCKED retry_after = SudoLockoutError ''Too many attempts. Try again later.'' (Some retry_after)"

definition guard_locked :: "('b, 's, 'c) sudo_manager \<Rightarrow> fresh \<Rightarrow> pyval \<Rightarrow> (('b, 's, 'c, 'm) world, unit) prog" where
  "guard_locked D f uid =
     (case sudo_backend D of
        None \<Rightarrow> ret ()
      | Some b \<Rightarrow> bind (in_lim (get_ttl b (now f) (lock_key uid))) (\<lambda>ttl.
          if ttl > 0 then raise (SUDO_LOCKED ttl) else ret ()))"

definition count_attempt :: "('b, 's, 'c) sudo_manager \<Rightarrow> fresh \<Rightarrow> pyval \<Rightarrow> (('b, 's, 'c, 'm) world, int) prog" where
  "count_attempt D f uid =
     (case sudo_backend D of
        None \<Rightarrow> ret 0
      | Some b \<Rightarrow> in_lim (increment b (now f) (fail_key uid) 1 (Some (sudo_window_seconds (sudo_conf D)))))"

definition clear_failures :: "('b, 's, 'c) sudo_manager \<Rightarrow> fresh \<Rightarrow> pyval \<Rightarrow> (('b, 's, 'c, 'm) world, unit) prog" where
  "clear_failures D f uid =
     (case sudo_backend D of
        None \<Rightarrow> ret ()
      | Some b \<Rightarrow> bind (in_lim (delete_key b (now f) (fail_key uid))) (\<lambda>_. ret ()))"

definition unstamp :: "session_data \<Rightarrow> session_data" where
  "unstamp d = d\<lparr>metadata := AList.delete SUDO_ELEVATED_UNTIL_META_KEY (metadata d)\<rparr>"

definition stamp :: "int \<Rightarrow> session_data \<Rightarrow> session_data" where
  "stamp until d = d\<lparr>metadata := AList.update SUDO_ELEVATED_UNTIL_META_KEY (VTime until) (metadata d)\<rparr>"

definition clear_elevation :: "('b, 's, 'c) sudo_manager \<Rightarrow> fresh \<Rightarrow> string \<Rightarrow> (('b, 's, 'c, 'm) world, unit) prog" where
  "clear_elevation D f sid = bind (in_sessions (modify_session (sudo_sessions D) (now f) sid unstamp)) (\<lambda>_. ret ())"

definition lock_sudo :: "('b, 's, 'c) sudo_manager \<Rightarrow> fresh \<Rightarrow> string \<Rightarrow> pyval \<Rightarrow> (('b, 's, 'c, 'm) world, 'a) prog" where
  "lock_sudo D f sid uid =
     (case sudo_backend D of
        None \<Rightarrow> raise (RuntimeError ''AssertionError'')
      | Some b \<Rightarrow>
          bind (in_lim (increment b (now f) (lock_key uid) 1 (Some (sudo_lockout_seconds (sudo_conf D))))) (\<lambda>_.
          bind (in_lim (delete_key b (now f) (fail_key uid))) (\<lambda>_.
          bind (clear_elevation D f sid) (\<lambda>_.
          raise (SUDO_LOCKED (sudo_lockout_seconds (sudo_conf D)))))))"

text \<open>The proof given: a password, or a code together with whether the request's \<open>db\<close> was passed.\<close>

definition verify_proof :: "('b, 's, 'c, 'm) auth_runtime \<Rightarrow> fresh \<Rightarrow> row \<Rightarrow> string option \<Rightarrow> string option \<Rightarrow> bool \<Rightarrow>
    (('b, 's, 'c, 'm) world, bool) prog" where
  "verify_proof T f user password code with_db =
     (case (code, mfa T, with_db) of
        (Some c, Some V, True) \<Rightarrow> bind (in_db (verify_totp (repo T) V (now f) user c)) (\<lambda>(_, ok). ret ok)
      | _ \<Rightarrow> ret (case password of None \<Rightarrow> False
                  | Some pw \<Rightarrow> verify_password (crypto_lib T) pw (stored_hash (repo T) user)))"

definition elevate :: "('b, 's, 'c, 'm) auth_runtime \<Rightarrow> ('b, 's, 'c) sudo_manager \<Rightarrow> fresh \<Rightarrow> auth_principal \<Rightarrow>
    string option \<Rightarrow> string option \<Rightarrow> bool \<Rightarrow> request option \<Rightarrow> (('b, 's, 'c, 'm) world, int) prog" where
  "elevate T D f p password code with_db r =
     (if (password = None) = (code = None) then raise (ValueError ''Pass exactly one of password or code.'')
      else if code \<noteq> None \<and> (mfa T = None \<or> \<not> with_db)
      then raise (ValueError ''Elevating with a code needs mfa=MfaConfig(...) and the request's db.'')
      else
        bind (sudo_session_id p) (\<lambda>sid.
        case p_user p of
          None \<Rightarrow> raise (ForbiddenException ''Sudo requires a session-backed login.'')
        | Some user \<Rightarrow>
            (let uid = pk (repo T) user; cfg = sudo_conf D
             in bind (guard_locked D f uid) (\<lambda>_.
                bind (count_attempt D f uid) (\<lambda>attempt.
                bind (if attempt > sudo_max_attempts cfg then lock_sudo D f sid uid else ret ()) (\<lambda>_.
                bind (verify_proof T f user password code with_db) (\<lambda>ok.
                if \<not> ok
                then bind (if attempt \<ge> sudo_max_attempts cfg then lock_sudo D f sid uid else ret ()) (\<lambda>_.
                       raise (UnauthorizedException (if code = None then ''Incorrect password'' else ''Invalid code'')))
                else
                  bind (clear_failures D f uid) (\<lambda>_.
                  let until = now f + sudo_window_seconds cfg * usec
                  in bind (in_sessions (modify_session (sudo_sessions D) (now f) sid (stamp until))) (\<lambda>stamped.
                     if stamped = None then raise (ForbiddenException ''Session no longer exists.'')
                     else bind (run_after_sudo (hooks T) (to_dict (repo T) user)
                                  (no_context\<lparr>hc_transport := Some ''session'', hc_request := r\<rparr>)) (\<lambda>_.
                          ret until)))))))))) "

definition is_elevated :: "('b, 's, 'c) sudo_manager \<Rightarrow> fresh \<Rightarrow> auth_principal \<Rightarrow> (('b, 's, 'c, 'm) world, bool) prog" where
  "is_elevated D f p =
     (case p_session_id p of
        None \<Rightarrow> ret False
      | Some sid \<Rightarrow>
          if p_transport p \<noteq> ''session'' \<or> sid = [] then ret False
          else
            bind (in_sessions (get_session (sudo_sessions D) (now f) sid)) (\<lambda>found.
            ret (case found of
                   None \<Rightarrow> False
                 | Some d \<Rightarrow>
                     (case map_of (metadata d) SUDO_ELEVATED_UNTIL_META_KEY of
                        Some (VTime until) \<Rightarrow> now f < until | _ \<Rightarrow> False))))"

end
