(* ===== verification/SudoLaws.thy ===== *)
theory SudoLaws
  imports Sudo
begin

text \<open>
  Sudo mode over the in-memory backends: what an attempt to elevate comes to, and when a session
  counts as elevated.
\<close>

definition mem_sudo :: "string \<Rightarrow> session_options \<Rightarrow> sudo_config \<Rightarrow>
    (mem_limiter, session_data mem_store, csrf_token mem_store) sudo_manager" where
  "mem_sudo g cfg c = \<lparr>sudo_sessions = mem_manager g cfg, sudo_backend = Some mem_backend, sudo_conf = c\<rparr>"

lemma mem_sudo_sel [simp]:
  "sudo_sessions (mem_sudo g cfg c) = mem_manager g cfg" "sudo_backend (mem_sudo g cfg c) = Some mem_backend"
  "sudo_conf (mem_sudo g cfg c) = c"
  by (simp_all add: mem_sudo_def)

definition elevated_at :: "int \<Rightarrow> session_data \<Rightarrow> bool" where
  "elevated_at t d \<longleftrightarrow> (\<exists>until. map_of (metadata d) SUDO_ELEVATED_UNTIL_META_KEY = Some (VTime until) \<and> t < until)"

lemma elevated_stamp [simp]: "elevated_at t (stamp until d) \<longleftrightarrow> t < until"
  by (simp add: elevated_at_def stamp_def AList.update_conv')

lemma elevated_unstamp [simp]: "\<not> elevated_at t (unstamp d)"
  by (simp add: elevated_at_def unstamp_def AList.delete_conv')

definition sudo_principal :: "auth_principal \<Rightarrow> string \<Rightarrow> row \<Rightarrow> bool" where
  "sudo_principal p sid u \<longleftrightarrow> p_transport p = ''session'' \<and> p_session_id p = Some sid \<and> sid \<noteq> [] \<and> p_user p = Some u"

lemma is_elevated_run:
  assumes "world_ok g cfg (sess w)" and "sudo_principal p sid u"
  shows "fst (is_elevated (mem_sudo g cfg c) f p w)
    = Inr (case val_of (live_sessions g cfg (now f) (sess w)) (session_key cfg sid) of None \<Rightarrow> False | Some d \<Rightarrow> elevated_at (now f) d)"
  using assms
  by (simp add: is_elevated_def sudo_principal_def get_session_def run_simps world_defs mem_store.get_result)
    (simp add: elevated_at_def split: option.split pyval.split)

lemma rewrite_run:
  assumes "world_ok g cfg (sess w)" and "0 \<le> session_timeout cfg" and "key = session_key cfg sid"
    and "L = live_sessions g cfg t (sess w)"
  shows "\<exists>s. in_sessions (modify_session (mem_manager g cfg) t sid ch) w = (Inr (map_option ch (val_of L key)), w\<lparr>sess := s\<rparr>)
    \<and> world_ok g cfg s
    \<and> live_sessions g cfg t s = (case L key of None \<Rightarrow> L | Some (d, x) \<Rightarrow> L(key \<mapsto> (ch d, x)))"
  using sm.modify_run [of g cfg "sess w" key sid t ch] assms(1-3) unfolding assms(4) world_defs
  by (intro exI [of _ "snd (modify_session (mem_manager g cfg) t sid ch (sess w))"]) (simp add: in_sessions_run)

definition locked_view :: "sudo_config \<Rightarrow> int \<Rightarrow> pyval \<Rightarrow> counters \<Rightarrow> counters" where
  "locked_view c t uid C = (inc t (lock_key uid) 1 (sudo_lockout_seconds c) C)(fail_key uid := None)"

lemma lock_run:
  assumes "mem_ok (limiter w)" and "world_ok g cfg (sess w)" and "0 \<le> session_timeout cfg" and "0 \<le> sudo_lockout_seconds c"
    and "L = live_sessions g cfg (now f) (sess w)"
  shows "\<exists>l s. lock_sudo (mem_sudo g cfg c) f sid uid w = (Inl (SUDO_LOCKED (sudo_lockout_seconds c)), w\<lparr>limiter := l, sess := s\<rparr>)
    \<and> mem_ok l \<and> mem_view (now f) l = locked_view c (now f) uid (mem_view (now f) (limiter w)) \<and> world_ok g cfg s
    \<and> live_sessions g cfg (now f) s = (case L (session_key cfg sid) of
         None \<Rightarrow> L | Some (d, x) \<Rightarrow> L(session_key cfg sid \<mapsto> (unstamp d, x)))"
proof -
  define l1 where "l1 = snd (increment mem_backend (now f) (lock_key uid) 1 (Some (sudo_lockout_seconds c)) (limiter w))"
  define l where "l = snd (delete_key mem_backend (now f) (fail_key uid) l1)"
  have l1: "mem_ok l1" "mem_view (now f) l1 = inc (now f) (lock_key uid) 1 (sudo_lockout_seconds c) (mem_view (now f) (limiter w))"
    using assms(1,4) by (simp_all add: l1_def mem.backend_laws)
  have l: "mem_ok l" "mem_view (now f) l = locked_view c (now f) uid (mem_view (now f) (limiter w))"
    using l1 by (simp_all add: l_def mem.backend_laws locked_view_def)
  obtain s where s: "in_sessions (modify_session (mem_manager g cfg) (now f) sid unstamp) (w\<lparr>limiter := l\<rparr>)
      = (Inr (map_option unstamp (val_of L (session_key cfg sid))), w\<lparr>limiter := l, sess := s\<rparr>)"
    "world_ok g cfg s" "live_sessions g cfg (now f) s = (case L (session_key cfg sid) of
         None \<Rightarrow> L | Some (d, x) \<Rightarrow> L(session_key cfg sid \<mapsto> (unstamp d, x)))"
    using rewrite_run [of g cfg "w\<lparr>limiter := l\<rparr>" "session_key cfg sid" sid L "now f" unstamp]
      assms(2,3,5) by auto
  have run: "lock_sudo (mem_sudo g cfg c) f sid uid w = (Inl (SUDO_LOCKED (sudo_lockout_seconds c)), w\<lparr>limiter := l, sess := s\<rparr>)"
    using assms(1,4) l1(1) s(1)
    by (simp add: lock_sudo_def clear_elevation_def bind_run in_lim_run mem.backend_laws raise_run ret_run
        flip: l1_def l_def)
  show ?thesis using run l s(2,3) by blast
qed

section \<open>An attempt to elevate\<close>

lemma start_run:
  assumes "mem_ok (limiter w)" and "0 \<le> sudo_window_seconds c" and "C = mem_view (now f) (limiter w)"
    and "wait = ttl_at (\<lambda>r. r div usec) (now f) C (lock_key uid)"
  shows "\<exists>l. guard_locked (mem_sudo g cfg c) f uid w = (if wait > 0 then Inl (SUDO_LOCKED wait) else Inr (), w\<lparr>limiter := l\<rparr>)
      \<and> mem_ok l \<and> mem_view (now f) l = C"
    and "\<exists>l. count_attempt (mem_sudo g cfg c) f uid w = (Inr (cnt C (fail_key uid) + 1), w\<lparr>limiter := l\<rparr>)
      \<and> mem_ok l \<and> mem_view (now f) l = inc (now f) (fail_key uid) 1 (sudo_window_seconds c) C"
    and "\<exists>l. clear_failures (mem_sudo g cfg c) f uid w = (Inr (), w\<lparr>limiter := l\<rparr>)
      \<and> mem_ok l \<and> mem_view (now f) l = C(fail_key uid := None)"
  using assms by (auto simp: guard_locked_def count_attempt_def clear_failures_def run_simps mem.backend_laws)

text \<open>What the attempt comes to, by the lock, the number of the attempt and the password.\<close>

definition sudo_outcome :: "('b, 's, 'c, 'm) auth_runtime \<Rightarrow> string \<Rightarrow> session_options \<Rightarrow> sudo_config \<Rightarrow> fresh \<Rightarrow> string \<Rightarrow> row \<Rightarrow>
    string \<Rightarrow> counters \<Rightarrow> session_data entries \<Rightarrow> (exc + int) \<times> counters \<times> session_data entries" where
  "sudo_outcome T g cfg c f sid u password C L =
     (let uid = pk (repo T) u; key = session_key cfg sid; n = cnt C (fail_key uid) + 1;
          wait = ttl_at (\<lambda>r. r div usec) (now f) C (lock_key uid);
          right = verify_password (crypto_lib T) password (stored_hash (repo T) u);
          counted = inc (now f) (fail_key uid) 1 (sudo_window_seconds c) C;
          ends = (\<lambda>ch. case L key of None \<Rightarrow> L | Some (d, x) \<Rightarrow> L(key \<mapsto> (ch d, x)));
          until = now f + sudo_window_seconds c * usec
      in if wait > 0 then (Inl (SUDO_LOCKED wait), C, L)
         else if n > sudo_max_attempts c \<or> \<not> right \<and> n \<ge> sudo_max_attempts c
         then (Inl (SUDO_LOCKED (sudo_lockout_seconds c)), locked_view c (now f) uid counted, ends unstamp)
         else if \<not> right then (Inl (UnauthorizedException ''Incorrect password''), counted, L)
         else (if L key = None then Inl (ForbiddenException ''Session no longer exists.'') else Inr until,
               counted(fail_key uid := None), ends (stamp until)))"

lemma elevate_run:
  fixes w :: "(mem_limiter, session_data mem_store, csrf_token mem_store, 'm) world"
  assumes "mem_ok (limiter w)" and "world_ok g cfg (sess w)" and "sudo_principal p sid u"
    and "0 \<le> session_timeout cfg" and "0 \<le> sudo_lockout_seconds c" and "0 \<le> sudo_window_seconds c"
    and "out = elevate T (mem_sudo g cfg c) f p (Some password) None with_db r w"
  shows "sudo_outcome T g cfg c f sid u password (mem_view (now f) (limiter w)) (live_sessions g cfg (now f) (sess w))
      = (fst out, mem_view (now f) (limiter (snd out)), live_sessions g cfg (now f) (sess (snd out)))"
    and "mem_ok (limiter (snd out))" and "world_ok g cfg (sess (snd out))"
proof -
  let ?D = "mem_sudo g cfg c" and ?uid = "pk (repo T) u"
  let ?C = "mem_view (now f) (limiter w)" and ?L = "live_sessions g cfg (now f) (sess w)" and ?key = "session_key cfg sid"
  let ?right = "verify_password (crypto_lib T) password (stored_hash (repo T) u)"
  define wait where "wait = ttl_at (\<lambda>r. r div usec) (now f) ?C (lock_key ?uid)"
  define n where "n = cnt ?C (fail_key ?uid) + 1"
  define until where "until = now f + sudo_window_seconds c * usec"
  obtain l1 where l1: "guard_locked ?D f ?uid w = (if wait > 0 then Inl (SUDO_LOCKED wait) else Inr (), w\<lparr>limiter := l1\<rparr>)"
    "mem_ok l1" "mem_view (now f) l1 = ?C" using start_run(1) [OF assms(1,6) refl wait_def] by blast
  let ?w1 = "w\<lparr>limiter := l1\<rparr>"
  have ok1: "mem_ok (limiter ?w1)" "?C = mem_view (now f) (limiter ?w1)" using l1 by simp_all
  obtain l2 where l2: "count_attempt ?D f ?uid ?w1 = (Inr n, w\<lparr>limiter := l2\<rparr>)" "mem_ok l2"
    "mem_view (now f) l2 = inc (now f) (fail_key ?uid) 1 (sudo_window_seconds c) ?C"
    using start_run(2) [OF ok1(1) assms(6) ok1(2) refl, where g = g and cfg = cfg and uid = ?uid] by (auto simp: n_def)
  let ?w2 = "w\<lparr>limiter := l2\<rparr>"
  have ok2: "mem_ok (limiter ?w2)" "world_ok g cfg (sess ?w2)" using l2 assms(2) by simp_all
  obtain l3 s3 where lock: "lock_sudo ?D f sid ?uid ?w2 = (Inl (SUDO_LOCKED (sudo_lockout_seconds c)) :: exc + unit, w\<lparr>limiter := l3, sess := s3\<rparr>)"
    "mem_ok l3" "mem_view (now f) l3 = locked_view c (now f) ?uid (mem_view (now f) l2)" "world_ok g cfg s3"
    "live_sessions g cfg (now f) s3 = (case ?L ?key of None \<Rightarrow> ?L | Some (d, x) \<Rightarrow> ?L(?key \<mapsto> (unstamp d, x)))"
    using lock_run [OF ok2 assms(4,5), of ?L f sid ?uid] by auto
  obtain l4 where l4: "clear_failures ?D f ?uid ?w2 = (Inr (), w\<lparr>limiter := l4\<rparr>)" "mem_ok l4"
    "mem_view (now f) l4 = (mem_view (now f) l2)(fail_key ?uid := None)"
    using start_run(3) [OF ok2(1) assms(6) refl refl, where g = g and cfg = cfg and uid = ?uid] by auto
  obtain s5 where s5: "in_sessions (modify_session (mem_manager g cfg) (now f) sid (stamp until)) (w\<lparr>limiter := l4\<rparr>)
      = (Inr (map_option (stamp until) (val_of ?L ?key)), w\<lparr>limiter := l4, sess := s5\<rparr>)" "world_ok g cfg s5"
    "live_sessions g cfg (now f) s5 = (case ?L ?key of None \<Rightarrow> ?L | Some (d, x) \<Rightarrow> ?L(?key \<mapsto> (stamp until d, x)))"
    using rewrite_run [of g cfg "w\<lparr>limiter := l4\<rparr>" ?key sid ?L "now f" "stamp until"] assms(2,4) by auto
  have sid: "sudo_session_id p = (ret sid :: (_, _) prog)" "p_user p = Some u"
    using assms(3) by (simp_all add: sudo_principal_def sudo_session_id_def)
  have proof_run: "verify_proof T f u (Some password) None with_db x = (Inr ?right, x)" for x
    by (simp add: verify_proof_def ret_run split: option.splits)
  have "sudo_outcome T g cfg c f sid u password ?C ?L
      = (fst out, mem_view (now f) (limiter (snd out)), live_sessions g cfg (now f) (sess (snd out)))
    \<and> mem_ok (limiter (snd out)) \<and> world_ok g cfg (sess (snd out))"
    unfolding assms(7) elevate_def sudo_outcome_def Let_def mem_sudo_sel wait_def [symmetric] n_def [symmetric] until_def [symmetric]
    using l1 l2 lock l4 s5 assms(1,2) proof_run
    by (auto simp: sid bind_run ret_run raise_run val_of_def hook_runs split: if_splits option.splits)
  then show "sudo_outcome T g cfg c f sid u password ?C ?L
      = (fst out, mem_view (now f) (limiter (snd out)), live_sessions g cfg (now f) (sess (snd out)))"
    "mem_ok (limiter (snd out))" "world_ok g cfg (sess (snd out))" by blast+
qed

section \<open>What elevation is worth\<close>

lemma gone_stays_gone:
  assumes "world_ok g cfg s" and "t \<le> t'" and "live_sessions g cfg t s key = None"
  shows "live_sessions g cfg t' s key = None"
  using mem_store.view_later [of "sess_config g cfg" "sess_store s" t t'] assms
  by (auto simp: world_defs live_at_def split: option.splits if_splits)

lemma later_session:
  assumes "world_ok g cfg s" and "t \<le> t'" and "live_sessions g cfg t s key = Some (d, x)"
    and "val_of (live_sessions g cfg t' s) key \<noteq> None"
  shows "val_of (live_sessions g cfg t' s) key = Some d"
  using mem_store.view_later [of "sess_config g cfg" "sess_store s" t t'] assms
  by (auto simp: world_defs live_at_def val_of_def split: option.splits if_splits)

text \<open>
  The deadline of the lock counter after it has been tripped: an increment arms a counter only
  when it has no deadline yet, so a lock that is still there keeps its old one.
\<close>

definition lock_deadline :: "sudo_config \<Rightarrow> int \<Rightarrow> pyval \<Rightarrow> counters \<Rightarrow> int" where
  "lock_deadline c t uid C = (case armed C (lock_key uid) of None \<Rightarrow> t + sudo_lockout_seconds c * usec | Some d \<Rightarrow> d)"

lemma whole_seconds: "0 < x div usec \<longleftrightarrow> usec \<le> x"
  by (simp add: usec_def pos_imp_zdiv_pos_iff)

lemma armed_expire: "armed (expire t C) k = (if expired_at t (armed C k) then None else armed C k)"
  by (auto simp: expire_def armed_def expired_at_def split: option.splits)

lemma lock_waits:
  assumes "mem_ok l" and "mem_view t l = locked_view c t uid C" and "t \<le> t'"
  shows "0 < ttl_at (\<lambda>r. r div usec) t' (mem_view t' l) (lock_key uid) \<longleftrightarrow> t' + usec \<le> lock_deadline c t uid C"
proof -
  have "fail_key uid \<noteq> lock_key uid" by (simp add: fail_key_def lock_key_def)
  then have "armed (mem_view t l) (lock_key uid) = Some (lock_deadline c t uid C)"
    using assms(2) by (simp add: locked_view_def lock_deadline_def)
  moreover have "mem_view t' l = expire t' (mem_view t l)" using mem.view_later assms(1,3) by blast
  ultimately show ?thesis
    using whole_seconds [of "lock_deadline c t uid C - t'"]
    by (simp add: ttl_at_def armed_expire expired_at_def) (auto simp: usec_def)
qed

text \<open>
  C20. Sudo. An attempt to elevate with a password comes to what the lock, the number of the
  attempt and the password say: refused while locked, locked out when the attempts are used up
  (which also ends a current elevation), counted as a failure, or elevated. An elevated session
  counts as elevated exactly until the window after the attempt has passed, for as long as it
  lives. When an attempt is answered with a lockout (it was not merely told to wait for an earlier
  one), the session is not elevated from then on, and the lock makes further attempts wait exactly
  until the last second before its deadline. That deadline is the end of the announced lockout if
  no lock counter was there; in the last second of an earlier lock, when the in-memory backend
  already reports no time left, the counter is still there and keeps its deadline, so that the
  announced lockout lapses with the earlier one.
\<close>

theorem sudo_elevation:
  fixes w :: "(mem_limiter, session_data mem_store, csrf_token mem_store, 'm) world"
  assumes "mem_ok (limiter w)" and "world_ok g cfg (sess w)" and "sudo_principal p sid u"
    and "0 \<le> session_timeout cfg" and "0 \<le> sudo_lockout_seconds c" and "0 \<le> sudo_window_seconds c"
    and "out = elevate T (mem_sudo g cfg c) f p (Some password) None with_db r w"
    and "C = mem_view (now f) (limiter w)" and "L = live_sessions g cfg (now f) (sess w)"
    and "until = now f + sudo_window_seconds c * usec"
  shows "(fst out, mem_view (now f) (limiter (snd out)), live_sessions g cfg (now f) (sess (snd out)))
      = sudo_outcome T g cfg c f sid u password C L
    \<and> (\<forall>v f'. fst out = Inr v \<longrightarrow> now f \<le> now f' \<longrightarrow>
         val_of (live_sessions g cfg (now f') (sess (snd out))) (session_key cfg sid) \<noteq> None \<longrightarrow>
         v = until \<and> fst (is_elevated (mem_sudo g cfg c) f' p (snd out)) = Inr (now f' < until))
    \<and> (fst out = Inl (SUDO_LOCKED (sudo_lockout_seconds c)) \<longrightarrow>
         ttl_at (\<lambda>r. r div usec) (now f) C (lock_key (pk (repo T) u)) = 0 \<longrightarrow>
         (\<forall>f'. now f \<le> now f' \<longrightarrow>
            fst (is_elevated (mem_sudo g cfg c) f' p (snd out)) = Inr False
            \<and> (0 < ttl_at (\<lambda>r. r div usec) (now f') (mem_view (now f') (limiter (snd out))) (lock_key (pk (repo T) u))
               \<longleftrightarrow> now f' + usec \<le> (case armed C (lock_key (pk (repo T) u)) of
                     None \<Rightarrow> now f + sudo_lockout_seconds c * usec | Some earlier \<Rightarrow> earlier))))"
proof -
  let ?key = "session_key cfg sid" and ?uid = "pk (repo T) u"
  note run = elevate_run [OF assms(1-7), folded assms(8,9)]
  note el = is_elevated_run [OF run(3) assms(3), of c]
  have spec: "(fst out, mem_view (now f) (limiter (snd out)), live_sessions g cfg (now f) (sess (snd out)))
      = sudo_outcome T g cfg c f sid u password C L" using run(1) by simp
  have up: "v = until \<and> fst (is_elevated (mem_sudo g cfg c) f' p (snd out)) = Inr (now f' < until)"
    if v: "fst out = Inr v" and "now f \<le> now f'"
      and alive: "val_of (live_sessions g cfg (now f') (sess (snd out))) ?key \<noteq> None" for v f'
  proof -
    obtain d x where "v = until" "live_sessions g cfg (now f) (sess (snd out)) = L(?key \<mapsto> (stamp until d, x))"
      using spec v assms(10) by (auto simp: sudo_outcome_def Let_def split: if_splits)
    then show ?thesis using later_session [OF run(3) that(2) _ alive] el [of f'] by simp
  qed
  have locked: "mem_view (now f) (limiter (snd out)) = locked_view c (now f) ?uid (inc (now f) (fail_key ?uid) 1 (sudo_window_seconds c) C)"
    "live_sessions g cfg (now f) (sess (snd out)) = (case L ?key of None \<Rightarrow> L | Some (d, x) \<Rightarrow> L(?key \<mapsto> (unstamp d, x)))"
    if "fst out = Inl (SUDO_LOCKED (sudo_lockout_seconds c))" "ttl_at (\<lambda>r. r div usec) (now f) C (lock_key ?uid) = 0"
    using run(1) that by (auto simp: sudo_outcome_def Let_def SUDO_LOCKED_def split: if_splits)
  have down: "fst (is_elevated (mem_sudo g cfg c) f' p (snd out)) = Inr False"
    if lock: "fst out = Inl (SUDO_LOCKED (sudo_lockout_seconds c))" "ttl_at (\<lambda>r. r div usec) (now f) C (lock_key ?uid) = 0" and later: "now f \<le> now f'" for f'
  proof (cases "val_of (live_sessions g cfg (now f') (sess (snd out))) ?key")
    case (Some d)
    then obtain d0 x where gone: "live_sessions g cfg (now f) (sess (snd out)) ?key = Some (unstamp d0, x)"
      using locked(2) [OF lock] gone_stays_gone [OF run(3) later]
      by (auto simp: val_of_def split: option.splits)
    then show ?thesis using later_session [OF run(3) later gone] el [of f'] Some by simp
  qed (simp add: el)
  have holds: "0 < ttl_at (\<lambda>r. r div usec) t (mem_view t (limiter (snd out))) (lock_key ?uid)
      \<longleftrightarrow> t + usec \<le> (case armed C (lock_key ?uid) of None \<Rightarrow> now f + sudo_lockout_seconds c * usec | Some d \<Rightarrow> d)"
    if "fst out = Inl (SUDO_LOCKED (sudo_lockout_seconds c))" "ttl_at (\<lambda>r. r div usec) (now f) C (lock_key ?uid) = 0" "now f \<le> t" for t
    using lock_waits [OF run(2) locked(1) [OF that(1,2)] that(3)]
    by (simp add: lock_deadline_def fail_key_def lock_key_def)
  show ?thesis using spec up down holds by blast
qed

definition demo_principal :: auth_principal where
  "demo_principal = build_principal demo_repo (VInt 7) (Some (demo_row 7 ''a@b.c'' 0)) ''session'' [] (Some ''s'')"

definition demo_sudo_config :: sudo_config where
  "demo_sudo_config = \<lparr>sudo_window_seconds = 300, sudo_max_attempts = 1, sudo_lockout_seconds = 900\<rparr>"

theorem sudo_elevation_witness:
  "fst (is_elevated (mem_sudo ''g'' default_options demo_sudo_config) demo_fresh demo_principal
     (snd (elevate demo_runtime (mem_sudo ''g'' default_options demo_sudo_config) demo_fresh demo_principal (Some ''wrong'') None True None
       (demo_app [])))) = Inr False"
proof -
  let ?D = "mem_sudo ''g'' default_options demo_sudo_config"
  let ?out = "elevate demo_runtime ?D demo_fresh demo_principal (Some ''wrong'') None True None (demo_app [])"
  have p: "sudo_principal demo_principal ''s'' (demo_row 7 ''a@b.c'' 0)"
    by (simp add: sudo_principal_def demo_principal_def build_principal_def)
  have none: "mem_view (now demo_fresh) mem_limiter_init k = None" for k by (simp add: mem_view_def mem_limiter_init_def)
  have wrong: "\<not> verify_password demo_crypto ''wrong'' (stored_hash demo_repo (demo_row 7 ''a@b.c'' 0))"
    by (simp add: verify_password_def matching_form_def check_pw_def or_empty_def utf8_def demo_crypto_def stored_hash_def
        get_field_def col_def demo_repo_def demo_row_def opt_str_def normalize_password_def)
  have sel: "0 \<le> session_timeout default_options" "0 \<le> sudo_lockout_seconds demo_sudo_config"
    "0 \<le> sudo_window_seconds demo_sudo_config" "sudo_max_attempts demo_sudo_config = 1"
    by (simp_all add: default_options_def demo_sudo_config_def)
  have ok: "mem_ok (limiter (demo_app []))" "world_ok ''g'' default_options (sess (demo_app []))" by simp_all
  note th = sudo_elevation [OF ok p sel(1-3), of ?out demo_runtime demo_fresh "''wrong''" True None, OF refl refl refl refl]
  have "fst ?out = Inl (SUDO_LOCKED (sudo_lockout_seconds demo_sudo_config))"
    using th wrong none by (simp add: sel(4) sudo_outcome_def ttl_at_def armed_def Let_def)
  then show ?thesis using th none by (simp add: ttl_at_def)
qed

end
