(* ===== verification/RateLimits.thy ===== *)
theory RateLimits
  imports Limiter Utils
begin

text \<open>
  Per-endpoint rate limits: the allowance values of \<open>crudauth/ratelimit/config.py\<close>, the
  window check and its dependencies (\<open>ratelimit/dependency.py\<close>), and the headers a limited
  request leaves (\<open>ratelimit/headers.py\<close>).
\<close>

section \<open>Allowances\<close>

record rate_limit =
  times :: int
  seconds :: int

definition mk_rate_limit :: "int \<Rightarrow> int \<Rightarrow> exc + rate_limit" where
  "mk_rate_limit t s =
     (if t < 0 then Inl (ValueError (''RateLimit times must be >= 0 (0 disables it), got '' @ str_of_int t))
      else if s \<le> 0 then Inl (ValueError (''RateLimit seconds must be > 0, got '' @ str_of_int s))
      else Inr \<lparr>times = t, seconds = s\<rparr>)"

definition disabled :: "rate_limit \<Rightarrow> bool" where
  "disabled l \<longleftrightarrow> times l = 0"

definition SECONDS_PER_HOUR :: int where
  "SECONDS_PER_HOUR = 3600"

definition DEFAULT_RATE_LIMITS :: "(string \<times> rate_limit) list" where
  "DEFAULT_RATE_LIMITS =
     [(''register'', \<lparr>times = 5, seconds = SECONDS_PER_HOUR\<rparr>),
      (''email_verify_request'', \<lparr>times = 5, seconds = SECONDS_PER_HOUR\<rparr>),
      (''password_reset_request'', \<lparr>times = 5, seconds = SECONDS_PER_HOUR\<rparr>),
      (''email_change_request'', \<lparr>times = 3, seconds = SECONDS_PER_HOUR\<rparr>),
      (''existing_account_notice'', \<lparr>times = 5, seconds = SECONDS_PER_HOUR\<rparr>),
      (''change_password'', \<lparr>times = 5, seconds = SECONDS_PER_HOUR\<rparr>),
      (''logout_all'', \<lparr>times = 10, seconds = SECONDS_PER_HOUR\<rparr>),
      (''csrf_refresh'', \<lparr>times = 30, seconds = SECONDS_PER_HOUR\<rparr>),
      (''oauth_authorize'', \<lparr>times = 30, seconds = SECONDS_PER_HOUR\<rparr>),
      (''mfa_manage'', \<lparr>times = 10, seconds = SECONDS_PER_HOUR\<rparr>)]"

section \<open>Who shares a budget\<close>

text \<open>
  \<open>key=\<close> of a limit: a \<open>KeyBy\<close> member, or a callback of the application, told apart by
  how many arguments it takes. \<open>Unsupported\<close> stands for any other value; \<open>KeyBy.USER\<close>
  is one here, since \<open>limit_by_user\<close> handles it.
\<close>

datatype 'p limit_key =
    By_ip
  | By_user
  | By_user_or_ip
  | By_callback "request \<Rightarrow> string"
  | By_callback2 "request \<Rightarrow> 'p option \<Rightarrow> string"
  | Unsupported string

definition identity_key ::
  "('p \<Rightarrow> pyval) \<Rightarrow> 'p limit_key \<Rightarrow> nat \<Rightarrow> exc + (request \<Rightarrow> 'p option \<Rightarrow> string) \<times> bool" where
  "identity_key user_id key hops =
     (case key of
        By_ip \<Rightarrow> Inr (\<lambda>r p. client_ip_key (get_client_ip r hops), False)
      | By_user_or_ip \<Rightarrow>
          Inr (\<lambda>r p. case p of
                 Some who \<Rightarrow> ''user:'' @ py_str (user_id who)
               | None \<Rightarrow> ''ip:'' @ client_ip_key (get_client_ip r hops), True)
      | By_callback2 f \<Rightarrow> Inr (f, True)
      | By_callback f \<Rightarrow> Inr (\<lambda>r p. f r, False)
      | By_user \<Rightarrow> Inl (ValueError ''Unsupported rate limit key: KeyBy.USER'')
      | Unsupported s \<Rightarrow> Inl (ValueError (''Unsupported rate limit key: '' @ s)))"

section \<open>Headers\<close>

text \<open>
  What a limited request touches: the limiter backend, \<open>request.state\<close>, and the headers of
  the injected response.
\<close>

record 'b limit_state =
  limit_counters :: 'b
  recorded :: "(string \<times> string) list option"
  response_headers :: "(string \<times> string) list"

definition in_limiter :: "('b, 'a) prog \<Rightarrow> ('b limit_state, 'a) prog" where
  "in_limiter m = zoom limit_counters (\<lambda>l s. s\<lparr>limit_counters := l\<rparr>) m"

definition X_LIMIT :: string where
  "X_LIMIT = ''X-RateLimit-Limit''"

definition REMAINING :: string where
  "REMAINING = ''X-RateLimit-Remaining''"

text \<open>\<open>int(headers[REMAINING])\<close>, which raises when the entry is missing or no number.\<close>

definition remaining_of :: "(string \<times> string) list \<Rightarrow> exc + int" where
  "remaining_of h =
     (case map_of h REMAINING of None \<Rightarrow> Inl (KeyError REMAINING)
      | Some v \<Rightarrow> (case int_of_str v of None \<Rightarrow> Inl (ValueError v) | Some n \<Rightarrow> Inr n))"

definition of_sum :: "exc + 'a \<Rightarrow> ('s, 'a) prog" where
  "of_sum r = (\<lambda>s. (r, s))"

definition record_rate_limit_headers ::
  "(string \<times> string) list \<Rightarrow> ('b limit_state, (string \<times> string) list) prog" where
  "record_rate_limit_headers headers =
     bind (gets recorded) (\<lambda>rec.
     case rec of
       None \<Rightarrow> bind (modifies (\<lambda>s. s\<lparr>recorded := Some headers\<rparr>)) (\<lambda>_. ret headers)
     | Some old \<Rightarrow>
         bind (of_sum (remaining_of old)) (\<lambda>n_old.
         bind (of_sum (remaining_of headers)) (\<lambda>n_new.
         if n_old \<le> n_new then ret old
         else bind (modifies (\<lambda>s. s\<lparr>recorded := Some headers\<rparr>)) (\<lambda>_. ret headers))))"

text \<open>\<open>response.headers.update(h)\<close>, and what the middleware adds to a response that starts.\<close>

definition update_headers :: "(string \<times> string) list \<Rightarrow> (string \<times> string) list \<Rightarrow> (string \<times> string) list" where
  "update_headers old new = foldl (\<lambda>acc (n, v). AList.update n v acc) old new"

definition has_header :: "string \<Rightarrow> (string \<times> string) list \<Rightarrow> bool" where
  "has_header n h \<longleftrightarrow> list_ex (\<lambda>(m, v). lower m = lower n) h"

definition send_with_headers ::
  "(string \<times> string) list option \<Rightarrow> (string \<times> string) list \<Rightarrow> (string \<times> string) list" where
  "send_with_headers rec h =
     (case rec of
        None \<Rightarrow> h
      | Some r \<Rightarrow> foldl (\<lambda>acc (n, v). if has_header n acc then acc else acc @ [(n, v)]) h r)"

section \<open>The window check\<close>

definition RATE_LIMIT_NAMESPACE :: string where
  "RATE_LIMIT_NAMESPACE = ''ratelimit''"

text \<open>A limit is fixed, or a function of the request and the caller.\<close>

datatype 'p limit_source = Fixed rate_limit | Resolver "request \<Rightarrow> 'p option \<Rightarrow> rate_limit option"

fun effective_limit :: "'p limit_source \<Rightarrow> request \<Rightarrow> 'p option \<Rightarrow> rate_limit option" where
  "effective_limit (Fixed l) r p = Some l"
| "effective_limit (Resolver f) r p = f r p"

definition limit_headers :: "rate_limit \<Rightarrow> int \<Rightarrow> bool \<Rightarrow> (string \<times> string) list" where
  "limit_headers l count limited =
     [(X_LIMIT, str_of_int (times l)),
      (REMAINING, if limited then ''0'' else str_of_int (max 0 (times l - count)))]"

definition enforce_rate_limit ::
  "'b rate_limiter_backend option \<Rightarrow> int \<Rightarrow> request \<Rightarrow> string \<Rightarrow> string \<Rightarrow> 'p limit_source \<Rightarrow> 'p option \<Rightarrow>
    ('b limit_state, unit) prog" where
  "enforce_rate_limit backend clock r action identity limit who =
     (case (effective_limit limit r who, backend) of
        (Some l, Some b) \<Rightarrow>
          if disabled l then ret ()
          else
            bind (in_limiter (increment_and_check b clock
                    (RATE_LIMIT_NAMESPACE @ '':'' @ action @ '':'' @ identity) (times l) (seconds l) True))
              (\<lambda>(count, limited, retry_after).
            bind (record_rate_limit_headers (limit_headers l count limited)) (\<lambda>out.
            bind (modifies (\<lambda>s. s\<lparr>response_headers := update_headers (response_headers s) out\<rparr>)) (\<lambda>_.
            if limited
            then raise (RateLimitException ''Too many requests. Try again later.'' (Some retry_after)
                   (limit_headers l count limited))
            else ret ())))
      | _ \<Rightarrow> ret ())"

section \<open>The dependencies\<close>

text \<open>
  \<open>limit_by_request\<close> resolves the caller only when the key or the limit reads it;
  \<open>limit_by_user\<close> rejects through \<open>current_user\<close> before anything is counted. The
  lookups are programs over the same state.
\<close>

definition limit_by_request ::
  "'b rate_limiter_backend option \<Rightarrow> ('p \<Rightarrow> pyval) \<Rightarrow> string \<Rightarrow> 'p limit_source \<Rightarrow> 'p limit_key \<Rightarrow> nat \<Rightarrow>
    (request \<Rightarrow> ('b limit_state, 'p option) prog) \<Rightarrow> exc + (int \<Rightarrow> request \<Rightarrow> ('b limit_state, unit) prog)" where
  "limit_by_request backend user_id action limit key hops lookup =
     (case identity_key user_id key hops of
        Inl e \<Rightarrow> Inl e
      | Inr (identity, reads_principal) \<Rightarrow>
          if \<not> (reads_principal \<or> (case limit of Resolver _ \<Rightarrow> True | Fixed _ \<Rightarrow> False))
          then Inr (\<lambda>clock r. enforce_rate_limit backend clock r action (identity r None) limit None)
          else Inr (\<lambda>clock r. bind (lookup r) (\<lambda>caller.
                 enforce_rate_limit backend clock r action (identity r caller) limit caller)))"

definition limit_by_user ::
  "'b rate_limiter_backend option \<Rightarrow> ('p \<Rightarrow> pyval) \<Rightarrow> string \<Rightarrow> 'p limit_source \<Rightarrow>
    (request \<Rightarrow> ('b limit_state, 'p) prog) \<Rightarrow> int \<Rightarrow> request \<Rightarrow> ('b limit_state, unit) prog" where
  "limit_by_user backend user_id action limit current_user clock r =
     bind (current_user r) (\<lambda>who.
       enforce_rate_limit backend clock r action (py_str (user_id who)) limit (Some who))"

section \<open>A window admits its allowance\<close>

text \<open>Successive checks of one key at the given clock readings.\<close>

fun window_checks :: "'b rate_limiter_backend \<Rightarrow> string \<Rightarrow> rate_limit \<Rightarrow> int list \<Rightarrow>
    ('b, (int \<times> bool \<times> int) list) prog" where
  "window_checks b key l [] = ret []"
| "window_checks b key l (t # ts) =
     bind (increment_and_check b t key (times l) (seconds l) True) (\<lambda>r.
     bind (window_checks b key l ts) (\<lambda>rs. ret (r # rs)))"

definition window_of :: "int \<Rightarrow> int \<Rightarrow> int" where
  "window_of period t = t div usec - (t div usec) mod period"

definition wkey :: "string \<Rightarrow> int \<Rightarrow> string" where
  "wkey key w = key @ '':'' @ str_of_int w"

definition window_result :: "rate_limit \<Rightarrow> int \<Rightarrow> int \<Rightarrow> int \<times> bool \<times> int" where
  "window_result l t n =
     (n, times l < n, if n \<le> times l then 0 else seconds l - (t div usec) mod seconds l)"

lemma window_gap: "0 < p \<Longrightarrow> window_of p t = window_of p t' \<Longrightarrow> t' < t + p * usec"
proof -
  assume p: "0 < p" and w: "window_of p t = window_of p t'"
  let ?s = "t div usec" and ?s' = "t' div usec"
  from p have "?s' - ?s' mod p + p > ?s'" "?s - ?s mod p \<le> ?s" by simp_all
  with w have "?s' < ?s + p" unfolding window_of_def by linarith
  then have "?s' + 1 \<le> ?s + p" by simp
  then have "(?s' + 1) * usec \<le> (?s + p) * usec" by (simp add: mult_right_mono)
  moreover have "t' < (?s' + 1) * usec"
    using mult_div_mod_eq [of usec t'] pos_mod_bound [OF usec_pos(1), of t']
    by (simp only: distrib_right mult.commute [of usec])
  moreover have "?s * usec \<le> t"
    using mult_div_mod_eq [of usec t] pos_mod_sign [OF usec_pos(1), of t]
    by (simp only: mult.commute [of usec])
  ultimately show ?thesis by (simp add: algebra_simps)
qed

definition covers :: "counters \<Rightarrow> string \<Rightarrow> int list \<Rightarrow> bool" where
  "covers c k ts \<longleftrightarrow> (\<forall>d t. armed c k = Some d \<longrightarrow> t \<in> set ts \<longrightarrow> t \<le> d)"

primrec counted_from :: "rate_limit \<Rightarrow> int \<Rightarrow> int list \<Rightarrow> (int \<times> bool \<times> int) list" where
  "counted_from l n [] = []"
| "counted_from l n (t # ts) = window_result l t (n + 1) # counted_from l (n + 1) ts"

lemma counted_from_nth:
  "i < length ts \<Longrightarrow> counted_from l n ts ! i = window_result l (ts ! i) (n + 1 + int i)"
  by (induction ts arbitrary: i n) (auto simp: nth_Cons algebra_simps split: nat.splits)

lemma counted_from_length [simp]: "length (counted_from l n ts) = length ts"
  by (induction ts arbitrary: n) simp_all

context rate_limiter
begin

lemma check_run:
  assumes "ok s" and "0 < seconds l"
  shows "fst (increment_and_check b t key (times l) (seconds l) open s)
      = Inr (window_result l t (cnt (view t s) (wkey key (window_of (seconds l) t)) + 1))
    \<and> view t (snd (increment_and_check b t key (times l) (seconds l) open s))
      = inc t (wkey key (window_of (seconds l) t)) 1 (seconds l) (view t s)
    \<and> ok (snd (increment_and_check b t key (times l) (seconds l) open s))"
  using assms
  by (simp add: increment_and_check_def Let_def run_simps backend_laws window_result_def
      window_of_def wkey_def)

lemma window_run:
  assumes "ok s" and "0 < seconds l" and "sorted (t0 # ts)"
    and "\<forall>t \<in> set ts. window_of (seconds l) t = w"
    and "covers (view t0 s) (wkey key w) ts" and "cnt (view t0 s) (wkey key w) = n"
  shows "fst (window_checks b key l ts s) = Inr (counted_from l n ts)"
  using assms
proof (induction ts arbitrary: s t0 n)
  case Nil
  then show ?case by (simp add: run_simps counted_from_def)
next
  case (Cons t ts)
  let ?k = "wkey key w"
  let ?s = "snd (increment_and_check b t key (times l) (seconds l) True s)"
  from Cons.prems have v: "view t s = expire t (view t0 s)" by (simp add: view_later)
  with Cons.prems(5,6) have n: "cnt (view t s) ?k = n" and cov: "covers (view t s) ?k (t # ts)"
    by (auto simp: covers_def expire_def expired_at_def cnt_def armed_def split: option.splits)
  note run = check_run [OF Cons.prems(1,2), of t key True]
  from Cons.prems(4) have w: "window_of (seconds l) t = w" by simp
  have "t' \<le> t + seconds l * usec" if "t' \<in> set ts" for t'
    using that w Cons.prems(2,4) window_gap [of "seconds l" t t'] by simp
  with run cov w have "covers (view t ?s) ?k ts"
    by (auto simp: covers_def split: option.splits)
  with run w n Cons.IH [of ?s t "n + 1"] Cons.prems
  show ?case by (simp add: run_simps)
qed

end

section \<open>Properties\<close>

text \<open>
  Within one window, whatever the allowance and however the requests are spread over it,
  the n-th request of a key is counted as the n-th, exactly the requests beyond the allowance
  are limited, and those are told to wait for at most one period and at least one second.
\<close>

theorem window_admits_its_allowance:
  assumes "mem_ok s" and "0 < seconds l" and "sorted (t0 # ts)"
    and "\<forall>t \<in> set ts. window_of (seconds l) t = w" and "mem_view t0 s (wkey key w) = None"
  shows "\<exists>rs. fst (window_checks mem_backend key l ts s) = Inr rs \<and> length rs = length ts
    \<and> (\<forall>i < length ts. \<exists>retry. rs ! i = (int i + 1, times l < int i + 1, retry)
        \<and> (times l < int i + 1 \<longrightarrow> 0 < retry \<and> retry \<le> seconds l))"
proof -
  have "covers (mem_view t0 s) (wkey key w) ts" using assms(5) by (simp add: covers_def)
  from mem.window_run [OF assms(1-4) this] assms(5)
  have "fst (window_checks mem_backend key l ts s) = Inr (counted_from l 0 ts)" by simp
  then show ?thesis using assms(2) by (auto simp: counted_from_nth window_result_def)
qed

theorem window_admits_its_allowance_witness:
  "\<exists>rs. fst (window_checks mem_backend ''k'' \<lparr>times = 1, seconds = 60\<rparr> [0, 5000000] mem_limiter_init) = Inr rs
     \<and> (\<exists>r. rs ! 1 = (2, True, r))"
  using window_admits_its_allowance [of mem_limiter_init "\<lparr>times = 1, seconds = 60\<rparr>" 0 "[0, 5000000]" 0 "''k''"]
  by (auto simp: window_of_def usec_def nth_Cons All_less_Suc2 numeral_2_eq_2 simp del: window_checks.simps
      dest: spec [of _ 1])

text \<open>
  An enforced limit answers a request over its allowance with a 429 that carries the
  wait and the headers, and lets every other request through with its remaining budget on
  the response; either way the budget is recorded on the request.
\<close>

theorem enforce_rate_limit_outcomes:
  assumes "0 < times l" and "0 < seconds l" and "mem_ok (limit_counters st)" and "recorded st = None"
    and "n = cnt (mem_view clock (limit_counters st))
          (wkey (RATE_LIMIT_NAMESPACE @ '':'' @ action @ '':'' @ ident) (window_of (seconds l) clock)) + 1"
    and "out = enforce_rate_limit (Some mem_backend) clock r action ident (Fixed l) who st"
  shows "(if n \<le> times l then fst out = Inr ()
            \<and> map_of (response_headers (snd out)) REMAINING = Some (str_of_int (times l - n))
          else (\<exists>e. fst out = Inl e \<and> status_code e = Some 429
            \<and> map_of (exc_headers e) REMAINING = Some ''0''
            \<and> map_of (exc_headers e) ''Retry-After''
                = Some (str_of_int (seconds l - (clock div usec) mod seconds l))))
    \<and> recorded (snd out) = Some (limit_headers l n (times l < n))"
  using assms mem.check_run [OF assms(3,2), of clock "RATE_LIMIT_NAMESPACE @ '':'' @ action @ '':'' @ ident" True]
  by (simp add: enforce_rate_limit_def disabled_def run_simps in_limiter_def window_result_def
      record_rate_limit_headers_def limit_headers_def update_headers_def update_conv' X_LIMIT_def REMAINING_def)

definition bare_request :: request where
  "bare_request = \<lparr>req_method = ''GET'', req_headers = [], req_cookies = [], req_client = None\<rparr>"

definition fresh_limit_state :: "mem_limiter limit_state" where
  "fresh_limit_state = \<lparr>limit_counters = mem_limiter_init, recorded = None, response_headers = []\<rparr>"

theorem enforce_rate_limit_outcomes_witness:
  "map_of (response_headers (snd (enforce_rate_limit (Some mem_backend) 0 bare_request ''a'' ''i''
     (Fixed \<lparr>times = 3, seconds = 60\<rparr>) (None :: unit option) fresh_limit_state))) REMAINING
   = Some (str_of_int 2)"
  using enforce_rate_limit_outcomes [of "\<lparr>times = 3, seconds = 60\<rparr>" fresh_limit_state _ 0 "''a''" "''i''", OF _ _ _ _ refl refl,
      of bare_request "None :: unit option"]
  by (simp add: fresh_limit_state_def)

text \<open>A limiter that fails lets the request through, with the whole budget on the response.\<close>

lemma window_limit_fails_open:
  assumes "fst (increment b clock (wkey (RATE_LIMIT_NAMESPACE @ '':'' @ action @ '':'' @ ident)
             (window_of (seconds l) clock)) 1 (Some (seconds l)) (limit_counters st)) = Inl e"
    and "recorded st = None"
  shows "fst (enforce_rate_limit (Some b) clock r action ident (Fixed l) who st) = Inr ()"
  using assms
  by (simp add: enforce_rate_limit_def run_simps in_limiter_def increment_and_check_def Let_def wkey_def
      window_of_def record_rate_limit_headers_def)

end
