(* ===== verification/Resolution.thy ===== *)
theory Resolution
  imports Sudo RateLimits
begin

text \<open>
  Who a request comes from: the resolver of \<open>crudauth/resolution.py\<close> that authenticates a
  request once and shares the principal, and the dependencies that \<open>CRUDAuth\<close>
  (\<open>crud_auth.py\<close>) builds over it: \<open>current_user\<close>, \<open>require_sudo\<close>,
  \<open>rate_limit\<close> and \<open>signed_in_recently\<close>. A factory that refuses a configuration
  gives \<open>Inl\<close> (its message without the listing of the configuration), otherwise the
  dependency that runs on each request.
\<close>

section \<open>The resolver\<close>

type_synonym ('b, 's, 'c, 'm, 'a) in_world = "(('b, 's, 'c, 'm) world, 'a) prog"

definition cache_key :: "('s, 'c) transport list \<Rightarrow> string list" where
  "cache_key ts = map transport_name ts"

definition new_context :: "('b, 's, 'c, 'm, unit) in_world" where
  "new_context = modifies (\<lambda>w. w\<lparr>user_cache := []\<rparr>)"

definition remember :: "string list \<Rightarrow> ('s, 'c) cached_principal \<Rightarrow> ('b, 's, 'c, 'm, unit) in_world" where
  "remember key c = modifies (\<lambda>w. w\<lparr>resolved := AList.update key c (resolved w)\<rparr>)"

definition forget :: "string list \<Rightarrow> ('b, 's, 'c, 'm, unit) in_world" where
  "forget key = modifies (\<lambda>w. w\<lparr>resolved := AList.delete key (resolved w)\<rparr>)"

text \<open>The transports in order; the first that recognises a credential gives the principal.\<close>

fun first_principal :: "('b, 's, 'c, 'm) auth_runtime \<Rightarrow> fresh \<Rightarrow> request \<Rightarrow> bool \<Rightarrow> bool \<Rightarrow> ('s, 'c) transport list \<Rightarrow>
    ('b, 's, 'c, 'm, (auth_principal \<times> ('s, 'c) transport) option) in_world" where
  "first_principal T f r csrf act [] = ret None"
| "first_principal T f r csrf act (t # ts) =
     bind (authenticate T t f r csrf act) (\<lambda>found.
     case found of Some p \<Rightarrow> ret (Some (p, t)) | None \<Rightarrow> first_principal T f r csrf act ts)"

text \<open>The principal on another database session: the user again, through that session.\<close>

definition on_session :: "('b, 's, 'c, 'm) auth_runtime \<Rightarrow> nat \<Rightarrow> string list \<Rightarrow> ('s, 'c) cached_principal \<Rightarrow>
    ('b, 's, 'c, 'm, ('s, 'c) cached_principal option) in_world" where
  "on_session T dbid key c =
     (if cp_db c = dbid then ret (Some c)
      else
        bind (in_db (get_by_id (repo T) (p_user_id (cp_principal c)))) (\<lambda>user.
        case user of
          None \<Rightarrow> bind (forget key) (\<lambda>_. ret None)
        | Some u \<Rightarrow>
            if \<not> is_active (repo T) u then bind (forget key) (\<lambda>_. ret None)
            else
              (let c' = c\<lparr>cp_principal := (cp_principal c)\<lparr>p_user := Some u\<rparr>, cp_db := dbid\<rparr>
               in bind (remember key c') (\<lambda>_. ret (Some c')))))"

definition catch_up :: "fresh \<Rightarrow> request \<Rightarrow> bool \<Rightarrow> bool \<Rightarrow> string list \<Rightarrow> ('s, 'c) cached_principal \<Rightarrow>
    ('b, 's, 'c, 'm, auth_principal option) in_world" where
  "catch_up f r csrf act key c =
     (let missing_csrf = csrf \<and> \<not> cp_csrf_enforced c; missing_activity = act \<and> \<not> cp_activity_updated c
      in if missing_csrf \<or> missing_activity
         then
           bind new_context (\<lambda>_.
           bind (revalidate (cp_transport c) f r (cp_principal c) missing_csrf missing_activity) (\<lambda>valid.
           if \<not> valid then bind (forget key) (\<lambda>_. ret None)
           else
             bind (remember key (c\<lparr>cp_csrf_enforced := cp_csrf_enforced c \<or> csrf,
                                   cp_activity_updated := cp_activity_updated c \<or> act\<rparr>)) (\<lambda>_.
             ret (Some (cp_principal c)))))
         else ret (Some (cp_principal c)))"

definition resolve :: "('b, 's, 'c, 'm) auth_runtime \<Rightarrow> fresh \<Rightarrow> request \<Rightarrow> nat \<Rightarrow> ('s, 'c) transport list \<Rightarrow> bool \<Rightarrow> bool \<Rightarrow>
    ('b, 's, 'c, 'm, auth_principal option) in_world" where
  "resolve T f r dbid ts csrf act =
     (let key = cache_key ts
      in bind (gets (\<lambda>w. map_of (resolved w) key)) (\<lambda>cached.
         case cached of
           None \<Rightarrow>
             bind new_context (\<lambda>_.
             bind (first_principal T f r csrf act ts) (\<lambda>found.
             case found of
               None \<Rightarrow> ret None
             | Some (p, t) \<Rightarrow>
                 bind (remember key \<lparr>cp_principal = p, cp_transport = t, cp_db = dbid, cp_csrf_enforced = csrf,
                                      cp_activity_updated = act\<rparr>) (\<lambda>_. ret (Some p))))
         | Some c \<Rightarrow>
             bind (on_session T dbid key c) (\<lambda>current.
             case current of None \<Rightarrow> ret None | Some c' \<Rightarrow> catch_up f r csrf act key c')))"

definition resolve_outside_dependencies :: "('b, 's, 'c, 'm) auth_runtime \<Rightarrow> fresh \<Rightarrow> request \<Rightarrow> nat \<Rightarrow> ('s, 'c) transport list \<Rightarrow>
    bool \<Rightarrow> ('b, 's, 'c, 'm, auth_principal option) in_world" where
  "resolve_outside_dependencies T f r own_db ts act =
     catch (resolve T f r own_db ts False act)
       (\<lambda>e. case e of UnauthorizedException _ \<Rightarrow> ret None | _ \<Rightarrow> raise e)"

section \<open>The application object\<close>

record ('b, 's, 'c, 'm) crud_auth =
  runtime :: "('b, 's, 'c, 'm) auth_runtime"
  sudo :: "('b, 's, 'c) sudo_manager option"
  policy :: password_policy
  action_limits :: "(string \<times> rate_limit) list"
  fresh_sign_in_seconds :: int

fun session_transport_in :: "('s, 'c) transport list \<Rightarrow> ('s, 'c) session_transport option" where
  "session_transport_in [] = None"
| "session_transport_in (SessionTransport S # ts) = Some S"
| "session_transport_in (BearerTransport B # ts) = session_transport_in ts"

definition the_session_manager :: "('b, 's, 'c, 'm) crud_auth \<Rightarrow> ('s, 'c) session_manager option" where
  "the_session_manager A = map_option manager (session_transport_in (transports (runtime A)))"

definition merge_rate_limits :: "(string \<times> rate_limit) list \<Rightarrow> exc + (string \<times> rate_limit) list" where
  "merge_rate_limits overrides =
     (if \<exists>o' \<in> set overrides. fst o' \<notin> fst ` set DEFAULT_RATE_LIMITS
      then Inl (ValueError ''Unknown rate_limits key(s)'')
      else Inr (foldl (\<lambda>acc (a, l). AList.update a l acc) DEFAULT_RATE_LIMITS overrides))"

definition select_transports :: "('b, 's, 'c, 'm) crud_auth \<Rightarrow> string list option \<Rightarrow> exc + ('s, 'c) transport list" where
  "select_transports A wanted =
     (case wanted of
        None \<Rightarrow> Inr (transports (runtime A))
      | Some names \<Rightarrow>
          (let selected = filter (\<lambda>t. transport_name t \<in> set names) (transports (runtime A))
           in if selected = [] then Inl (ValueError ''No configured transport matches'') else Inr selected))"

section \<open>current_user\<close>

text \<open>The keywords of \<open>current_user\<close>. A check raises, or returns a value; \<open>False\<close> denies.\<close>

record user_gate =
  optional :: bool
  superuser :: bool
  verified :: bool
  required_scopes :: "string list"
  via_transport :: "string list option"
  check_with :: "(auth_principal \<Rightarrow> exc + pyval) option"

definition any_user :: user_gate where
  "any_user = \<lparr>optional = False, superuser = False, verified = False, required_scopes = [],
     via_transport = None, check_with = None\<rparr>"

definition user_dependency :: "('b, 's, 'c, 'm) crud_auth \<Rightarrow> ('s, 'c) transport list \<Rightarrow> user_gate \<Rightarrow> fresh \<Rightarrow> request \<Rightarrow>
    ('b, 's, 'c, 'm, auth_principal option) in_world" where
  "user_dependency A selected gate f r =
     bind (resolve (runtime A) f r (request_db f) selected True True) (\<lambda>found.
     case found of
       None \<Rightarrow> if optional gate then ret None else raise (UnauthorizedException ''Not authenticated'')
     | Some p \<Rightarrow>
         if superuser gate \<and> \<not> p_is_superuser p then raise (ForbiddenException ''Insufficient privileges'')
         else if verified gate \<and> \<not> p_recovery_verified p then raise (ForbiddenException ''Recovery factor not verified'')
         else if required_scopes gate \<noteq> [] \<and> \<not> has_scopes p (required_scopes gate)
         then raise (ForbiddenException ''Insufficient scope'')
         else
           (case check_with gate of
              None \<Rightarrow> ret (Some p)
            | Some check \<Rightarrow>
                (case check p of
                   Inl e \<Rightarrow> raise e
                 | Inr v \<Rightarrow> if v = VBool False then raise (ForbiddenException ''Access denied'') else ret (Some p))))"

definition current_user :: "('b, 's, 'c, 'm) crud_auth \<Rightarrow> user_gate \<Rightarrow>
    exc + (fresh \<Rightarrow> request \<Rightarrow> ('b, 's, 'c, 'm, auth_principal option) in_world)" where
  "current_user A gate =
     (if verified gate \<and> recovery (repo (runtime A)) = None
      then Inl (ValueError ''current_user(verified=True) requires a recovery factor (identity.recovery)'')
      else
        (case select_transports A (via_transport gate) of
           Inl e \<Rightarrow> Inl e
         | Inr selected \<Rightarrow> Inr (user_dependency A selected gate)))"

text \<open>The dependency of the routes, where the principal is not optional.\<close>

definition signed_in :: "('b, 's, 'c, 'm) crud_auth \<Rightarrow> string list option \<Rightarrow> fresh \<Rightarrow> request \<Rightarrow>
    ('b, 's, 'c, 'm, auth_principal) in_world" where
  "signed_in A via f r =
     (case current_user A (any_user\<lparr>via_transport := via\<rparr>) of
        Inl e \<Rightarrow> raise e
      | Inr dependency \<Rightarrow>
          bind (dependency f r) (\<lambda>found.
          case found of None \<Rightarrow> raise (UnauthorizedException ''Not authenticated'') | Some p \<Rightarrow> ret p))"

definition require_sudo :: "('b, 's, 'c, 'm) crud_auth \<Rightarrow>
    exc + (fresh \<Rightarrow> request \<Rightarrow> ('b, 's, 'c, 'm, auth_principal) in_world)" where
  "require_sudo A =
     (case sudo A of
        None \<Rightarrow> Inl (RuntimeError ''Sudo is not configured; pass sudo=SudoConfig() to CRUDAuth.'')
      | Some D \<Rightarrow>
          Inr (\<lambda>f r.
            bind (signed_in A None f r) (\<lambda>p.
            bind (is_elevated D f p) (\<lambda>elevated.
            if elevated then ret p else raise (ForbiddenException ''Re-authentication required.'')))))"

definition signed_in_recently :: "('b, 's, 'c, 'm) crud_auth \<Rightarrow> fresh \<Rightarrow> auth_principal \<Rightarrow>
    ('b, 's, 'c, 'm, bool) in_world" where
  "signed_in_recently A f p =
     (case the_session_manager A of
        None \<Rightarrow> ret False
      | Some M \<Rightarrow>
          if fresh_sign_in_seconds A = 0 then ret False
          else
            (case p_session_id p of
               None \<Rightarrow> ret False
             | Some sid \<Rightarrow>
                 if p_transport p \<noteq> ''session'' \<or> sid = [] then ret False
                 else
                   bind (case sudo A of None \<Rightarrow> ret False | Some D \<Rightarrow> is_elevated D f p) (\<lambda>elevated.
                   if elevated then ret True
                   else
                     bind (in_sessions (get_session M (now f) sid)) (\<lambda>found.
                     ret (case found of
                            None \<Rightarrow> False
                          | Some d \<Rightarrow> created_at d \<ge> now f - fresh_sign_in_seconds A * usec)))))"

definition validate_password :: "('b, 's, 'c, 'm) crud_auth \<Rightarrow> string \<Rightarrow> row option \<Rightarrow> string \<Rightarrow> string \<Rightarrow> ('x, unit) prog" where
  "validate_password A password user src fld =
     (let context = (case user of
                       None \<Rightarrow> \<lparr>source = src, ctx_username = VNone, ctx_email = VNone, ctx_user = None\<rparr>
                     | Some u \<Rightarrow> for_user (repo (runtime A)) src u)
      in enforce_policy (crypto_lib (runtime A)) (policy A) password context fld)"

section \<open>rate_limit\<close>

definition in_limits :: "('b limit_state, 'a) prog \<Rightarrow> ('b, 's, 'c, 'm, 'a) in_world" where
  "in_limits m = zoom
     (\<lambda>w. \<lparr>limit_counters = limiter w, recorded = rate_headers w, response_headers = out_headers w\<rparr>)
     (\<lambda>l w. w\<lparr>limiter := limit_counters l, rate_headers := recorded l, out_headers := response_headers l\<rparr>) m"

text \<open>
  The caller is looked up in the world first; the dependency then counts against the key that the
  lookup gave.
\<close>

definition rate_limit_dep :: "('b, 's, 'c, 'm) crud_auth \<Rightarrow> string \<Rightarrow> auth_principal limit_source option \<Rightarrow>
    auth_principal limit_key \<Rightarrow> string list option \<Rightarrow> exc + (fresh \<Rightarrow> request \<Rightarrow> ('b, 's, 'c, 'm, unit) in_world)" where
  "rate_limit_dep A action limit key transport =
     (let T = runtime A; b = Some (rate_limiter T)
      in case (case limit of Some l \<Rightarrow> Some l | None \<Rightarrow> map_option Fixed (map_of (action_limits A) action)) of
           None \<Rightarrow> Inl (ValueError (''No rate limit configured for action '' @ action))
         | Some l \<Rightarrow>
             (case select_transports A transport of
                Inl e \<Rightarrow> Inl e
              | Inr selected \<Rightarrow>
                  if (case key of By_user \<Rightarrow> True | _ \<Rightarrow> False)
                  then Inr (\<lambda>f r. bind (signed_in A transport f r) (\<lambda>who.
                         in_limits (limit_by_user b p_user_id action l (\<lambda>_. ret who) (now f) r)))
                  else
                    (case identity_key p_user_id key (proxy_hops T) of
                       Inl e \<Rightarrow> Inl e
                     | Inr (identity, reads_principal) \<Rightarrow>
                         Inr (\<lambda>f r.
                           bind (if reads_principal \<or> (case l of Resolver _ \<Rightarrow> True | Fixed _ \<Rightarrow> False)
                                 then resolve T f r (request_db f) selected False True else ret None) (\<lambda>caller.
                           in_limits (case limit_by_request b p_user_id action l key (proxy_hops T) (\<lambda>_. ret caller) of
                                        Inl e \<Rightarrow> raise e | Inr dependency \<Rightarrow> dependency (now f) r))))))"

text \<open>A route with a built-in limit: the dependency runs before the route's own.\<close>

definition limited :: "('b, 's, 'c, 'm) crud_auth \<Rightarrow> string \<Rightarrow> auth_principal limit_key \<Rightarrow> fresh \<Rightarrow> request \<Rightarrow>
    ('b, 's, 'c, 'm, unit) in_world" where
  "limited A action key f r =
     (case rate_limit_dep A action None key None of Inl e \<Rightarrow> raise e | Inr dependency \<Rightarrow> dependency f r)"

end
