(* ===== verification/Routes.thy ===== *)
theory Routes
  imports Resolution
begin

text \<open>
  The routes: login, logout and token (\<open>transports/login.py\<close>,
  \<open>transports/session/routes.py\<close>, \<open>transports/bearer/routes.py\<close>), session management
  (\<open>transports/session/management.py\<close>), the second factor (\<open>mfa/router.py\<close>) and the
  account's password (\<open>account/router.py\<close>). A handler takes what FastAPI would inject; its
  dependencies run first, the ones of the decorator before those of the parameters.
\<close>

section \<open>Login and logout\<close>

type_synonym body = "(string \<times> pyval) list"

definition CROSS_SITE :: exc where
  "CROSS_SITE = ForbiddenException ''Cross-site login requests are not allowed.''"

definition password_login :: "('b, 's, 'c, 'm) auth_runtime \<Rightarrow> ('s, 'c) transport \<Rightarrow> fresh \<Rightarrow> request \<Rightarrow> string \<Rightarrow> string \<Rightarrow>
    login_options \<Rightarrow> ('b, 's, 'c, 'm, body) in_world" where
  "password_login T transport f r username password options =
     bind (authenticate_password T f r username password (mfa T = None)) (\<lambda>user.
     bind (case mfa T of
             None \<Rightarrow> ret None
           | Some V \<Rightarrow> challenge_login T V f r user (transport_name transport) username options) (\<lambda>challenge.
     case challenge of
       Some b \<Rightarrow> ret b
     | None \<Rightarrow> complete_login T transport f r user options))"

definition plain_options :: login_options where
  "plain_options = \<lparr>opt_remember_me = False, opt_scopes = None, opt_metadata = [], opt_redirect_to = None\<rparr>"

definition login_route :: "('b, 's, 'c, 'm) auth_runtime \<Rightarrow> ('s, 'c) session_transport \<Rightarrow> fresh \<Rightarrow> request \<Rightarrow> string \<Rightarrow> string \<Rightarrow>
    bool \<Rightarrow> ('b, 's, 'c, 'm, body) in_world" where
  "login_route T S f r username password remember_me =
     (if is_cross_site r then raise CROSS_SITE
      else password_login T (SessionTransport S) f r username password (plain_options\<lparr>opt_remember_me := remember_me\<rparr>))"

definition logout_route :: "('b, 's, 'c, 'm) auth_runtime \<Rightarrow> ('s, 'c) session_transport \<Rightarrow> fresh \<Rightarrow> request \<Rightarrow>
    ('b, 's, 'c, 'm, body) in_world" where
  "logout_route T S f r = bind (complete_logout T S f r) (\<lambda>_. ret [(''detail'', VStr ''Logged out'')])"

definition token_route :: "('b, 's, 'c, 'm) auth_runtime \<Rightarrow> bearer_transport \<Rightarrow> fresh \<Rightarrow> request \<Rightarrow> string \<Rightarrow> string \<Rightarrow>
    string list \<Rightarrow> ('b, 's, 'c, 'm, body) in_world" where
  "token_route T B f r username password scopes =
     (if refresh_location B = REFRESH_LOCATION_COOKIE \<and> is_cross_site r then raise CROSS_SITE
      else password_login T (BearerTransport B) f r username password (plain_options\<lparr>opt_scopes := Some scopes\<rparr>))"

section \<open>Session management\<close>

definition clear_manager_cookies :: "('s, 'c) session_manager \<Rightarrow> ('b, 's, 'c, 'm, unit) in_world" where
  "clear_manager_cookies M = modifies (\<lambda>w. w\<lparr>response_cookies := clear_session_cookies (opts M) (response_cookies w)\<rparr>)"

definition logout_all :: "('b, 's, 'c, 'm) crud_auth \<Rightarrow> ('s, 'c) session_manager \<Rightarrow> fresh \<Rightarrow> request \<Rightarrow> bool \<Rightarrow>
    ('b, 's, 'c, 'm, body) in_world" where
  "logout_all A M f r keep_current =
     bind (limited A ''logout_all'' By_user f r) (\<lambda>_.
     bind (signed_in A (Some [''session'']) f r) (\<lambda>p.
     bind (in_sessions (revoke_all M (now f) (p_user_id p) (if keep_current then p_session_id p else None))) (\<lambda>revoked.
     bind (if keep_current then ret () else clear_manager_cookies M) (\<lambda>_.
     ret [(''detail'', VStr ''Signed out of all sessions.''), (''revoked'', VInt revoked)]))))"

definition list_sessions :: "('b, 's, 'c, 'm) crud_auth \<Rightarrow> ('s, 'c) session_manager \<Rightarrow> fresh \<Rightarrow> request \<Rightarrow>
    ('b, 's, 'c, 'm, session_info list) in_world" where
  "list_sessions A M f r =
     bind (signed_in A (Some [''session'']) f r) (\<lambda>p.
     in_sessions (list_for_user M (now f) (p_user_id p) (p_session_id p)))"

definition revoke_session :: "('b, 's, 'c, 'm) crud_auth \<Rightarrow> ('s, 'c) session_manager \<Rightarrow> fresh \<Rightarrow> request \<Rightarrow> string \<Rightarrow>
    ('b, 's, 'c, 'm, body) in_world" where
  "revoke_session A M f r handle =
     bind (signed_in A (Some [''session'']) f r) (\<lambda>p.
     bind (in_sessions (revoke_by_handle M (now f) handle (p_user_id p))) (\<lambda>revoked.
     if \<not> revoked then raise (NotFoundException ''Session not found.'')
     else
       bind (case p_session_id p of
               None \<Rightarrow> ret ()
             | Some sid \<Rightarrow> if sid \<noteq> [] \<and> session_handle (opts M) sid = handle then clear_manager_cookies M else ret ()) (\<lambda>_.
       ret [(''detail'', VStr ''Session revoked.'')])))"

definition csrf_refresh :: "('b, 's, 'c, 'm) crud_auth \<Rightarrow> ('s, 'c) session_manager \<Rightarrow> fresh \<Rightarrow> request \<Rightarrow>
    ('b, 's, 'c, 'm, body) in_world" where
  "csrf_refresh A M f r =
     bind (limited A ''csrf_refresh'' By_ip f r) (\<lambda>_.
     if csrf_storage M = None then raise (BadRequestException ''CSRF is disabled.'')
     else
       (let sid = (case cookie r (session_cookie_name (opts M)) of None \<Rightarrow> [] | Some c \<Rightarrow> c)
        in bind (if sid = [] then ret None else in_sessions (validate_session M (now f) sid True)) (\<lambda>found.
           case found of
             None \<Rightarrow> raise (UnauthorizedException ''Not authenticated'')
           | Some d \<Rightarrow>
               (let held = (case cookie r (csrf_cookie_name (opts M)) of None \<Rightarrow> [] | Some c \<Rightarrow> c)
                in bind (if held = [] then ret False else in_sessions (validate_csrf_token M (now f) sid held)) (\<lambda>good.
                   if good then ret [(''csrf_token'', VStr held)]
                   else
                     bind (in_sessions (regenerate_csrf_token M (now f) (fresh_csrf f) sid None)) (\<lambda>token.
                     let max_age = (if meta_true (metadata d) REMEMBER_ME_META_KEY
                                    then Some (timeout_seconds_for (opts M) (metadata d)) else None)
                     in bind (modifies (\<lambda>w. w\<lparr>response_cookies := set_csrf_cookie (opts M) token max_age (response_cookies w)\<rparr>)) (\<lambda>_.
                        ret [(''csrf_token'', VStr token)])))))))"

section \<open>The second factor\<close>

definition principal_context :: "('b, 's, 'c, 'm) auth_runtime \<Rightarrow> request \<Rightarrow> auth_principal \<Rightarrow> hook_context" where
  "principal_context T r p = (request_context T r)\<lparr>hc_transport := Some (p_transport p)\<rparr>"

definition principal_row :: "auth_principal \<Rightarrow> ('x, row) prog" where
  "principal_row p = (case p_user p of None \<Rightarrow> raise (AttributeError ''user'') | Some u \<Rightarrow> ret u)"

definition FRESH_SIGN_IN_REQUIRED :: string where
  "FRESH_SIGN_IN_REQUIRED = ''Sign in again to continue: this needs a recent sign-in.''"

definition mfa_verify :: "('b, 's, 'c, 'm) crud_auth \<Rightarrow> 'm mfa_service \<Rightarrow> fresh \<Rightarrow> request \<Rightarrow> string \<Rightarrow> string \<Rightarrow>
    ('b, 's, 'c, 'm, body) in_world" where
  "mfa_verify A V f r challenge code = complete_challenge (runtime A) V f r challenge code"

definition mfa_challenge_route :: "('b, 's, 'c, 'm) crud_auth \<Rightarrow> 'm mfa_service \<Rightarrow> fresh \<Rightarrow> string \<Rightarrow>
    ('b, 's, 'c, 'm, body) in_world" where
  "mfa_challenge_route A V f challenge = describe_challenge (runtime A) V f challenge"

definition mfa_status_route :: "('b, 's, 'c, 'm) crud_auth \<Rightarrow> 'm mfa_service \<Rightarrow> fresh \<Rightarrow> request \<Rightarrow>
    ('b, 's, 'c, 'm, body) in_world" where
  "mfa_status_route A V f r =
     bind (signed_in A None f r) (\<lambda>p.
     bind (principal_row p) (\<lambda>user.
     ret (mfa_status (repo (runtime A)) V user)))"

definition mfa_setup :: "('b, 's, 'c, 'm) crud_auth \<Rightarrow> 'm mfa_service \<Rightarrow> fresh \<Rightarrow> request \<Rightarrow> string option \<Rightarrow>
    ('b, 's, 'c, 'm, body) in_world" where
  "mfa_setup A V f r password =
     bind (limited A ''mfa_manage'' By_user f r) (\<lambda>_.
     bind (signed_in A None f r) (\<lambda>p.
     bind (principal_row p) (\<lambda>user.
     let T = runtime A; hashed = stored_hash (repo T) user
     in bind (if is_unusable_password hashed
              then bind (signed_in_recently A f p) (\<lambda>recent.
                     if recent then ret () else raise (ForbiddenException FRESH_SIGN_IN_REQUIRED))
              else
                (case password of
                   None \<Rightarrow> raise (UnauthorizedException ''Incorrect password'')
                 | Some pw \<Rightarrow> if verify_password (crypto_lib T) pw hashed then ret ()
                              else raise (UnauthorizedException ''Incorrect password''))) (\<lambda>_.
        in_db (begin_setup (repo T) V f user)))))"

definition mfa_confirm :: "('b, 's, 'c, 'm) crud_auth \<Rightarrow> 'm mfa_service \<Rightarrow> fresh \<Rightarrow> request \<Rightarrow> string \<Rightarrow>
    ('b, 's, 'c, 'm, body) in_world" where
  "mfa_confirm A V f r code =
     bind (limited A ''mfa_manage'' By_user f r) (\<lambda>_.
     bind (signed_in A None f r) (\<lambda>p.
     bind (principal_row p) (\<lambda>user.
     bind (confirm_setup (runtime A) V f user code (principal_context (runtime A) r p)) (\<lambda>codes.
     ret [(''recovery_codes'', VList (map VStr codes))]))))"

definition mfa_disable :: "('b, 's, 'c, 'm) crud_auth \<Rightarrow> 'm mfa_service \<Rightarrow> fresh \<Rightarrow> request \<Rightarrow> string \<Rightarrow>
    ('b, 's, 'c, 'm, body) in_world" where
  "mfa_disable A V f r code =
     bind (limited A ''mfa_manage'' By_user f r) (\<lambda>_.
     bind (signed_in A None f r) (\<lambda>p.
     bind (principal_row p) (\<lambda>user.
     let ctx = principal_context (runtime A) r p
     in if is_required V user
        then raise (ForbiddenException ''Two-factor authentication is required for this account.'')
        else
          bind (verify_code (runtime A) V (now f) user code ctx) (\<lambda>(user', ok).
          if \<not> ok then raise (UnauthorizedException ''Invalid code'')
          else
            bind (disable_mfa (runtime A) user' ctx) (\<lambda>_.
            ret [(''detail'', VStr ''Two-factor authentication disabled.'')])))))"

definition mfa_regenerate :: "('b, 's, 'c, 'm) crud_auth \<Rightarrow> 'm mfa_service \<Rightarrow> fresh \<Rightarrow> request \<Rightarrow> string \<Rightarrow>
    ('b, 's, 'c, 'm, body) in_world" where
  "mfa_regenerate A V f r code =
     bind (limited A ''mfa_manage'' By_user f r) (\<lambda>_.
     bind (signed_in A None f r) (\<lambda>p.
     bind (principal_row p) (\<lambda>user.
     bind (verify_code (runtime A) V (now f) user code (principal_context (runtime A) r p)) (\<lambda>(user', ok).
     if \<not> ok then raise (UnauthorizedException ''Invalid code'')
     else
       bind (in_db (regenerate_recovery_codes (repo (runtime A)) V f user')) (\<lambda>codes.
       ret [(''recovery_codes'', VList (map VStr codes))])))))"

section \<open>The account\<close>

definition me :: "('b, 's, 'c, 'm) crud_auth \<Rightarrow> fresh \<Rightarrow> request \<Rightarrow> ('b, 's, 'c, 'm, body) in_world" where
  "me A f r =
     bind (signed_in A None f r) (\<lambda>p.
     let R = repo (runtime A)
     in ret [(''user_id'', p_user_id p),
             (''username'', case p_user p of None \<Rightarrow> VNone | Some u \<Rightarrow> get_field R u ''username'' VNone),
             (''email'', case p_user p of None \<Rightarrow> VNone | Some u \<Rightarrow> get_field R u ''email'' VNone),
             (''is_superuser'', VBool (p_is_superuser p)),
             (''scopes'', VList (map VStr (p_scopes p))),
             (''via'', VStr (p_transport p))])"

definition hash_or_empty :: "user_repo \<Rightarrow> row \<Rightarrow> string option" where
  "hash_or_empty R user = opt_str (get_field R user ''hashed_password'' (VStr []))"

definition set_password :: "('b, 's, 'c, 'm) crud_auth \<Rightarrow> fresh \<Rightarrow> request \<Rightarrow> string \<Rightarrow> ('b, 's, 'c, 'm, body) in_world" where
  "set_password A f r new_password =
     bind (signed_in A None f r) (\<lambda>p.
     bind (principal_row p) (\<lambda>user.
     let T = runtime A; R = repo T
     in if \<not> is_unusable_password (hash_or_empty R user)
        then raise (BadRequestException ''Account already has a password; use the password reset flow to change it.'')
        else
          bind (signed_in_recently A f p) (\<lambda>recent.
          if \<not> recent then raise (ForbiddenException FRESH_SIGN_IN_REQUIRED)
          else
            bind (validate_password A new_password (Some user) ''set'' ''new_password'') (\<lambda>_.
            bind (in_db (update_user R user
                    [(''hashed_password'', VStr (get_password_hash (crypto_lib T) (fresh_salt f) new_password))])) (\<lambda>_.
            ret [(''detail'', VStr ''Password set.'')])))))"

definition run_after_password_changed :: "auth_hooks \<Rightarrow> body \<Rightarrow> hook_context \<Rightarrow> ('b, 's, 'c, 'm, unit) in_world" where
  "run_after_password_changed H user ctx = run_with_db H (hook_event_of ''on_after_password_changed'' (Some user) [] ctx)"

text \<open>The eviction: the account's version goes up, and every session but the current one ends.\<close>

definition evict_others :: "('b, 's, 'c, 'm) crud_auth \<Rightarrow> fresh \<Rightarrow> auth_principal \<Rightarrow> row \<Rightarrow> ('b, 's, 'c, 'm, row) in_world" where
  "evict_others A f p user =
     bind (in_db (increment_token_version (repo (runtime A)) user)) (\<lambda>user'.
     case the_session_manager A of
       None \<Rightarrow> ret user'
     | Some M \<Rightarrow>
         bind (case p_session_id p of
                 None \<Rightarrow> ret False
               | Some sid \<Rightarrow> if sid = [] then ret False
                   else in_sessions (set_token_version M (now f) sid (row_token_version (repo (runtime A)) user'))) (\<lambda>_.
         bind (in_sessions (revoke_all M (now f) (p_user_id p) (p_session_id p))) (\<lambda>_. ret user')))"

definition change_password :: "('b, 's, 'c, 'm) crud_auth \<Rightarrow> fresh \<Rightarrow> request \<Rightarrow> string \<Rightarrow> string \<Rightarrow>
    ('b, 's, 'c, 'm, body) in_world" where
  "change_password A f r current_password new_password =
     bind (limited A ''change_password'' By_user f r) (\<lambda>_.
     bind (signed_in A None f r) (\<lambda>p.
     bind (principal_row p) (\<lambda>user.
     let T = runtime A; R = repo T; current_hash = hash_or_empty R user
     in if is_unusable_password current_hash
        then raise (BadRequestException ''Account has no password; use /set-password to create one.'')
        else if \<not> verify_password (crypto_lib T) current_password current_hash
        then raise (UnauthorizedException ''Current password is incorrect.'')
        else
          bind (validate_password A new_password (Some user) ''change'' ''new_password'') (\<lambda>_.
          bind (in_db (update_user R user
                  [(''hashed_password'', VStr (get_password_hash (crypto_lib T) (fresh_salt f) new_password))])) (\<lambda>user'.
          bind (evict_others A f p user') (\<lambda>user''.
          bind (run_after_password_changed (hooks T) (to_dict R user'')
                  (no_context\<lparr>hc_transport := Some (p_transport p), hc_request := Some r\<rparr>)) (\<lambda>_.
          ret [(''detail'', VStr ''Password changed.'')]))))))) "

end
