(* ===== verification/Email.thy ===== *)
theory Email
  imports Routes Json
begin

text \<open>
  The recovery flows, \<open>crudauth/email\<close>: signed tokens bound to the state of an account
  (\<open>service.py\<close>), the channels that deliver them (\<open>channel.py\<close>, \<open>sender.py\<close>,
  \<open>config.py\<close>) and the routes (\<open>router.py\<close>). Channels and senders are observers: what
  they are handed is logged, and they answer or raise. The database's unique constraints, which
  only a commit can report, are the field \<open>es_unique\<close> of the service, true of the tables that may
  be committed.
\<close>

section \<open>Messages\<close>

record delivery_intent =
  kind :: string
  intent_token :: "string option"
  intent_user :: body
  recipient :: pyval
  expires_in :: int

record email_context =
  ctx_kind :: string
  ctx_link :: "string option"
  ctx_recipient :: pyval
  ctx_expires_in :: int

record mail =
  mail_to :: pyval
  mail_subject :: string
  mail_body :: string
  mail_kind :: string
  mail_context :: email_context

record email_config =
  sender :: "mail \<Rightarrow> exc + unit"
  frontend_url :: string
  cfg_verify_ttl_hours :: int
  cfg_reset_ttl_hours :: int
  cfg_change_ttl_hours :: int
  verify_path :: string
  reset_path :: string
  change_path :: string

text \<open>A channel of the application's own has its \<open>sends_email\<close> and its \<open>deliver\<close>.\<close>

datatype channel = EmailChannel email_config | OtherChannel bool "delivery_intent \<Rightarrow> database option \<Rightarrow> exc + unit"

fun sends_email :: "channel \<Rightarrow> bool" where
  "sends_email (EmailChannel _) = True"
| "sends_email (OtherChannel b _) = b"

datatype outgoing = Mailed mail | Handed delivery_intent

text \<open>What the flows keep beside the world: the store of used tokens, and what was sent.\<close>

record 'u mail_state =
  used :: 'u
  outbox :: "outgoing list"

type_synonym ('b, 's, 'c, 'm, 'u) mail_world = "('b, 's, 'c, 'm) world \<times> 'u mail_state"

definition in_app :: "('w, 'a) prog \<Rightarrow> ('w \<times> 'y, 'a) prog" where
  "in_app m = zoom fst (\<lambda>w p. (w, snd p)) m"

definition in_mail :: "('y, 'a) prog \<Rightarrow> ('w \<times> 'y, 'a) prog" where
  "in_mail m = zoom snd (\<lambda>x p. (fst p, x)) m"

lemma in_app_run [run_simps]: "in_app m p = (fst (m (fst p)), (snd (m (fst p)), snd p))"
  by (simp add: in_app_def run_simps)

lemma in_mail_run [run_simps]: "in_mail m p = (fst (m (snd p)), (fst p, snd (m (snd p))))"
  by (simp add: in_mail_def run_simps)

definition rstrip_slash :: "string \<Rightarrow> string" where
  "rstrip_slash s = rev (dropWhile (\<lambda>c. c = CHR ''/'') (rev s))"

definition email_link :: "email_config \<Rightarrow> string \<Rightarrow> string \<Rightarrow> string" where
  "email_link cfg p token = rstrip_slash (frontend_url cfg) @ p @ ''?token='' @ token"

text \<open>Subject, path and first words of the messages with a link; subject and body of the notices.\<close>

definition email_specs :: "email_config \<Rightarrow> (string \<times> string \<times> string \<times> string) list" where
  "email_specs cfg =
     [(''verify_email'', ''Verify your email'', verify_path cfg, ''Verify your email:''),
      (''verify_recovery'', ''Verify your email'', verify_path cfg, ''Verify your email:''),
      (''reset_password'', ''Reset your password'', reset_path cfg, ''Reset your password:''),
      (''change_email'', ''Confirm your new email'', change_path cfg, ''Confirm your new email:'')]"

definition email_notices :: "email_config \<Rightarrow> (string \<times> string \<times> string) list" where
  "email_notices cfg =
     [(''existing_account'', ''You already have an account'',
         ''Someone tried to register with this email. You already have an account - ''
         @ ''sign in or reset your password at '' @ frontend_url cfg @ ''.''),
      (''email_changed'', ''Your email address was changed'',
         ''The email address on your account was changed. If you didn't make this ''
         @ ''change, sign in at '' @ frontend_url cfg @ '' to secure your account.'')]"

definition send :: "email_config \<Rightarrow> mail \<Rightarrow> ('u mail_state, unit) prog" where
  "send cfg m =
     bind (modifies (\<lambda>x. x\<lparr>outbox := outbox x @ [Mailed m]\<rparr>)) (\<lambda>_.
     case sender cfg m of Inl e \<Rightarrow> raise e | Inr _ \<Rightarrow> ret ())"

definition deliver_email :: "email_config \<Rightarrow> delivery_intent \<Rightarrow> ('u mail_state, unit) prog" where
  "deliver_email cfg i =
     (case map_of (email_notices cfg) (kind i) of
        Some (subject, text) \<Rightarrow>
          send cfg \<lparr>mail_to = recipient i, mail_subject = subject, mail_body = text, mail_kind = kind i,
            mail_context = \<lparr>ctx_kind = kind i, ctx_link = None, ctx_recipient = recipient i, ctx_expires_in = 0\<rparr>\<rparr>
      | None \<Rightarrow>
          (case map_of (email_specs cfg) (kind i) of
             None \<Rightarrow> raise (KeyError (kind i))
           | Some (subject, p, lead) \<Rightarrow>
               (case intent_token i of
                  None \<Rightarrow> raise (RuntimeError ''AssertionError'')
                | Some token \<Rightarrow>
                    let link = email_link cfg p token
                    in send cfg \<lparr>mail_to = recipient i, mail_subject = subject, mail_body = lead @ '' '' @ link,
                         mail_kind = kind i,
                         mail_context = \<lparr>ctx_kind = kind i, ctx_link = Some link, ctx_recipient = recipient i,
                                          ctx_expires_in = expires_in i\<rparr>\<rparr>)))"

fun channel_deliver :: "channel \<Rightarrow> delivery_intent \<Rightarrow> database option \<Rightarrow> ('u mail_state, unit) prog" where
  "channel_deliver (EmailChannel cfg) i d = deliver_email cfg i"
| "channel_deliver (OtherChannel _ hand) i d =
     bind (modifies (\<lambda>x. x\<lparr>outbox := outbox x @ [Handed i]\<rparr>)) (\<lambda>_.
     case hand i d of Inl e \<Rightarrow> raise e | Inr _ \<Rightarrow> ret ())"

section \<open>The service\<close>

definition VERIFY :: string where
  "VERIFY = ''verify_email''"

definition RESET :: string where
  "RESET = ''reset_password''"

definition CHANGE :: string where
  "CHANGE = ''change_email''"

definition STATE_CLAIM :: string where
  "STATE_CLAIM = ''state''"

definition STATE_DIGEST_CHARS :: nat where
  "STATE_DIGEST_CHARS = 32"

definition REDIRECT_CLAIM :: string where
  "REDIRECT_CLAIM = ''redirect_to''"

datatype used_token = UsedToken bool

record ('b, 's, 'c, 'u) email_service =
  es_repo :: user_repo
  es_policy :: password_policy
  es_secret :: string
  es_hooks :: auth_hooks
  es_algorithm :: string
  token_store :: "('u, used_token) session_storage option"
  es_sessions :: "('s, 'c) session_manager option"
  es_limiter :: "'b rate_limiter_backend option"
  es_limits :: "(string \<times> rate_limit) list"
  channels :: "channel list"
  verify_ttl_hours :: int
  reset_ttl_hours :: int
  change_ttl_hours :: int
  es_crypto :: crypto
  es_jwt :: jwt
  es_unique :: "row list \<Rightarrow> bool"

definition DEFAULT_VERIFY_TTL_HOURS :: int where
  "DEFAULT_VERIFY_TTL_HOURS = 24"

definition DEFAULT_RESET_TTL_HOURS :: int where
  "DEFAULT_RESET_TTL_HOURS = 1"

definition DEFAULT_CHANGE_TTL_HOURS :: int where
  "DEFAULT_CHANGE_TTL_HOURS = 24"

definition resolve_ttl :: "int option \<Rightarrow> int option \<Rightarrow> int \<Rightarrow> int" where
  "resolve_ttl override config dflt =
     (case override of Some n \<Rightarrow> n | None \<Rightarrow> (case config of Some n \<Rightarrow> n | None \<Rightarrow> dflt))"

text \<open>The constructor, on a service whose plain fields are set.\<close>

definition mk_email_service :: "('b, 's, 'c, 'u) email_service \<Rightarrow> email_config option \<Rightarrow> channel list \<Rightarrow>
    int option \<Rightarrow> int option \<Rightarrow> int option \<Rightarrow> ('b, 's, 'c, 'u) email_service" where
  "mk_email_service E config chs verify reset change =
     E\<lparr>channels := (case config of None \<Rightarrow> [] | Some cfg \<Rightarrow> [EmailChannel cfg]) @ chs,
       verify_ttl_hours := resolve_ttl verify (map_option cfg_verify_ttl_hours config) DEFAULT_VERIFY_TTL_HOURS,
       reset_ttl_hours := resolve_ttl reset (map_option cfg_reset_ttl_hours config) DEFAULT_RESET_TTL_HOURS,
       change_ttl_hours := resolve_ttl change (map_option cfg_change_ttl_hours config) DEFAULT_CHANGE_TTL_HOURS\<rparr>"

definition email_channels :: "('b, 's, 'c, 'u) email_service \<Rightarrow> channel list" where
  "email_channels E = filter sends_email (channels E)"

definition supports_email_change :: "('b, 's, 'c, 'u) email_service \<Rightarrow> bool" where
  "supports_email_change E \<longleftrightarrow> has_col (es_repo E) ''email'' \<and> email_channels E \<noteq> []"

definition deliver :: "('b, 's, 'c, 'u) email_service \<Rightarrow> delivery_intent \<Rightarrow> database option \<Rightarrow> ('u mail_state, unit) prog" where
  "deliver E i d =
     for_each (if kind i = ''change_email'' then email_channels E else channels E)
       (\<lambda>ch. catch (channel_deliver ch i d) (\<lambda>_. ret ()))"

text \<open>\<open>json.dumps\<close> with \<open>default=str\<close>, on values.\<close>

fun dumps_value :: "pyval \<Rightarrow> string" where
  "dumps_value VNone = ''null''"
| "dumps_value (VBool b) = (if b then ''true'' else ''false'')"
| "dumps_value (VInt n) = str_of_int n"
| "dumps_value (VStr s) = dumps_string s"
| "dumps_value (VTime t) = dumps_string (py_str (VTime t))"
| "dumps_value (VList xs) = ''['' @ join_with '', '' (map dumps_value xs) @ '']''"
| "dumps_value (VDict kvs) =
     ''{'' @ join_with '', '' (map (\<lambda>(k, v). dumps_string k @ '': '' @ dumps_value v) kvs) @ ''}''"

definition account_state :: "user_repo \<Rightarrow> string \<Rightarrow> row \<Rightarrow> pyval list" where
  "account_state R purpose user =
     (let password_hash = get_field R user ''hashed_password'' VNone;
          recovery_value = (case recovery R of None \<Rightarrow> VNone | Some f \<Rightarrow> get_field R user f VNone)
      in if purpose = VERIFY then [recovery_value]
         else if purpose = RESET then [password_hash, recovery_value]
         else [password_hash, get_field R user ''email'' VNone, VInt (row_token_version R user)])"

definition state_fingerprint :: "('b, 's, 'c, 'u) email_service \<Rightarrow> string \<Rightarrow> row \<Rightarrow> string" where
  "state_fingerprint E purpose user =
     take STATE_DIGEST_CHARS
       (hmac_sha256_hex (es_secret E) (dumps_value (VList (VStr purpose # account_state (es_repo E) purpose user))))"

definition redirect_claim :: "string option \<Rightarrow> claims" where
  "redirect_claim redirect_to =
     (let target = (case redirect_to of None \<Rightarrow> [] | Some t \<Rightarrow> if t = [] then [] else safe_redirect_path (Some t) [])
      in if target \<noteq> [] then [(REDIRECT_CLAIM, VStr target)] else [])"

definition redirect_from :: "claims \<Rightarrow> string option" where
  "redirect_from payload =
     (let target = (case claim_get payload REDIRECT_CLAIM of VStr s \<Rightarrow> safe_redirect_path (Some s) [] | _ \<Rightarrow> [])
      in if target = [] then None else Some target)"

definition mint_token :: "('b, 's, 'c, 'u) email_service \<Rightarrow> int \<Rightarrow> string \<Rightarrow> row \<Rightarrow> int \<Rightarrow> claims \<Rightarrow> string" where
  "mint_token E t purpose user expires_hours claims =
     create_signed_token (es_jwt E) t (es_secret E) (pk (es_repo E) user) purpose expires_hours (es_algorithm E)
       (claims @ [(STATE_CLAIM, VStr (state_fingerprint E purpose user))])"

definition INVALID_TOKEN :: exc where
  "INVALID_TOKEN = BadRequestException ''Invalid or expired token''"

definition redeem_token :: "('b, 's, 'c, 'u) email_service \<Rightarrow> int \<Rightarrow> string \<Rightarrow> string \<Rightarrow> (database, row \<times> claims) prog" where
  "redeem_token E t token purpose =
     (case verify_signed_token_full (es_jwt E) t token (es_secret E) purpose (es_algorithm E) of
        None \<Rightarrow> raise INVALID_TOKEN
      | Some payload \<Rightarrow>
          bind (get_by_id (es_repo E) (claim_get payload ''sub'')) (\<lambda>user.
          case user of
            None \<Rightarrow> raise INVALID_TOKEN
          | Some u \<Rightarrow>
              if \<not> is_active (es_repo E) u
                \<or> (case map_of payload STATE_CLAIM of None \<Rightarrow> [] | Some v \<Rightarrow> py_str v) \<noteq> state_fingerprint E purpose u
              then raise INVALID_TOKEN
              else ret (u, payload)))"

definition consume :: "('b, 's, 'c, 'u) email_service \<Rightarrow> int \<Rightarrow> string \<Rightarrow> int \<Rightarrow> ('u mail_state, bool) prog" where
  "consume E t token ttl_seconds =
     (case token_store E of
        None \<Rightarrow> ret True
      | Some st \<Rightarrow>
          zoom used (\<lambda>x s. s\<lparr>used := x\<rparr>)
            (st_set_if_absent st t (sha256_hex token) (UsedToken True) (Some ttl_seconds)))"

definition email_within_limit :: "('b, 's, 'c, 'u) email_service \<Rightarrow> int \<Rightarrow> string \<Rightarrow> pyval \<Rightarrow> ('b, bool) prog" where
  "email_within_limit E t action email =
     (case es_limiter E of
        None \<Rightarrow> ret True
      | Some b \<Rightarrow>
          (case map_of (es_limits E) action of
             None \<Rightarrow> ret True
           | Some limit \<Rightarrow>
               if disabled limit then ret True
               else
                 (let count = (\<lambda>target.
                        bind (increment_and_check b t (''email:'' @ action @ '':'' @ target) (times limit) (seconds limit) True)
                          (\<lambda>(_, limited, _). ret (\<not> limited)))
                  in case email of
                       VStr e \<Rightarrow> count (canon e)
                     | VNone \<Rightarrow> count ''None''
                     | _ \<Rightarrow> raise (AttributeError ''strip''))))"

section \<open>The flows\<close>

text \<open>Each throttle borrows the limit of its route; the notice has its own.\<close>

definition VERIFY_ACTION :: string where
  "VERIFY_ACTION = ''email_verify_request''"

definition RESET_ACTION :: string where
  "RESET_ACTION = ''password_reset_request''"

definition CHANGE_ACTION :: string where
  "CHANGE_ACTION = ''email_change_request''"

definition EXISTING_ACCOUNT_ACTION :: string where
  "EXISTING_ACCOUNT_ACTION = ''existing_account_notice''"

type_synonym ('b, 's, 'c, 'm, 'u, 'a) mail_prog = "(('b, 's, 'c, 'm, 'u) mail_world, 'a) prog"

definition run_after_recovery_verified :: "auth_hooks \<Rightarrow> body \<Rightarrow> hook_context \<Rightarrow> ('b, 's, 'c, 'm, unit) in_world" where
  "run_after_recovery_verified H user ctx = run_with_db H (hook_event_of ''on_after_recovery_verified'' (Some user) [] ctx)"

definition run_after_password_reset :: "auth_hooks \<Rightarrow> body \<Rightarrow> hook_context \<Rightarrow> ('b, 's, 'c, 'm, unit) in_world" where
  "run_after_password_reset H user ctx = run_with_db H (hook_event_of ''on_after_password_reset'' (Some user) [] ctx)"

definition run_after_email_changed :: "auth_hooks \<Rightarrow> body \<Rightarrow> hook_context \<Rightarrow> ('b, 's, 'c, 'm, unit) in_world" where
  "run_after_email_changed H user ctx = run_with_db H (hook_event_of ''on_after_email_changed'' (Some user) [] ctx)"

definition within_limit :: "('b, 's, 'c, 'u) email_service \<Rightarrow> fresh \<Rightarrow> string \<Rightarrow> pyval \<Rightarrow> ('b, 's, 'c, 'm, 'u, bool) mail_prog" where
  "within_limit E f action email = in_app (in_lim (email_within_limit E (now f) action email))"

definition deliver_with_db :: "('b, 's, 'c, 'u) email_service \<Rightarrow> delivery_intent \<Rightarrow> ('b, 's, 'c, 'm, 'u, unit) mail_prog" where
  "deliver_with_db E i = bind (in_app (gets db)) (\<lambda>d. in_mail (deliver E i (Some d)))"

definition notify_existing_account :: "('b, 's, 'c, 'u) email_service \<Rightarrow> fresh \<Rightarrow> pyval \<Rightarrow> ('b, 's, 'c, 'm, 'u, unit) mail_prog" where
  "notify_existing_account E f v =
     bind (within_limit E f EXISTING_ACCOUNT_ACTION v) (\<lambda>ok.
     if \<not> ok then ret ()
     else in_mail (deliver E \<lparr>kind = ''existing_account'', intent_token = None, intent_user = [], recipient = v, expires_in = 0\<rparr> None))"

definition request_recovery_verification :: "('b, 's, 'c, 'u) email_service \<Rightarrow> fresh \<Rightarrow> pyval \<Rightarrow> string option \<Rightarrow>
    ('b, 's, 'c, 'm, 'u, unit) mail_prog" where
  "request_recovery_verification E f v redirect_to =
     (let R = es_repo E
      in case recovery R of
           None \<Rightarrow> ret ()
         | Some factor \<Rightarrow>
             bind (within_limit E f VERIFY_ACTION v) (\<lambda>ok.
             if \<not> ok then ret ()
             else
               bind (in_app (in_db (get_by_field R factor v))) (\<lambda>user.
               case user of
                 None \<Rightarrow> ret ()
               | Some u \<Rightarrow>
                   if \<not> is_active R u \<or> recovery_verified R u then ret ()
                   else
                     deliver_with_db E
                       \<lparr>kind = (if factor = ''email'' then ''verify_email'' else ''verify_recovery''),
                        intent_token = Some (mint_token E (now f) VERIFY u (verify_ttl_hours E) (redirect_claim redirect_to)),
                        intent_user = to_dict R u, recipient = get_field R u factor VNone,
                        expires_in = verify_ttl_hours E * SECONDS_PER_HOUR\<rparr>)))"

definition TOKEN_USED :: exc where
  "TOKEN_USED = BadRequestException ''Token already used''"

definition confirm_recovery_verification :: "('b, 's, 'c, 'u) email_service \<Rightarrow> fresh \<Rightarrow> string \<Rightarrow>
    ('b, 's, 'c, 'm, 'u, row \<times> string option) mail_prog" where
  "confirm_recovery_verification E f token =
     (let R = es_repo E
      in bind (in_app (in_db (redeem_token E (now f) token VERIFY))) (\<lambda>(user, payload).
         bind (in_mail (consume E (now f) token (verify_ttl_hours E * SECONDS_PER_HOUR))) (\<lambda>fresh_use.
         if \<not> fresh_use then raise TOKEN_USED
         else
           bind (if recovery_verified R user then ret user
                 else
                   bind (in_app (in_db (mark_recovery_verified R user))) (\<lambda>user'.
                   bind (in_app (run_after_recovery_verified (es_hooks E) (to_dict R user') no_context)) (\<lambda>_.
                   ret user'))) (\<lambda>user'.
           ret (user', redirect_from payload)))))"

definition request_password_reset :: "('b, 's, 'c, 'u) email_service \<Rightarrow> fresh \<Rightarrow> pyval \<Rightarrow> string option \<Rightarrow>
    ('b, 's, 'c, 'm, 'u, unit) mail_prog" where
  "request_password_reset E f v redirect_to =
     (let R = es_repo E
      in case recovery R of
           None \<Rightarrow> ret ()
         | Some factor \<Rightarrow>
             bind (within_limit E f RESET_ACTION v) (\<lambda>ok.
             if \<not> ok then ret ()
             else
               bind (in_app (in_db (get_by_field R factor v))) (\<lambda>user.
               case user of
                 None \<Rightarrow> ret ()
               | Some u \<Rightarrow>
                   if \<not> is_active R u then ret ()
                   else
                     deliver_with_db E
                       \<lparr>kind = ''reset_password'',
                        intent_token = Some (mint_token E (now f) RESET u (reset_ttl_hours E) (redirect_claim redirect_to)),
                        intent_user = to_dict R u, recipient = get_field R u factor VNone,
                        expires_in = reset_ttl_hours E * SECONDS_PER_HOUR\<rparr>)))"

definition reset_password :: "('b, 's, 'c, 'u) email_service \<Rightarrow> fresh \<Rightarrow> string \<Rightarrow> string \<Rightarrow>
    ('b, 's, 'c, 'm, 'u, row \<times> string option) mail_prog" where
  "reset_password E f token new_password =
     (let R = es_repo E
      in bind (in_app (in_db (redeem_token E (now f) token RESET))) (\<lambda>(user, payload).
         bind (enforce_policy (es_crypto E) (es_policy E) new_password (for_user R ''reset'' user) ''new_password'') (\<lambda>_.
         bind (in_mail (consume E (now f) token (reset_ttl_hours E * SECONDS_PER_HOUR))) (\<lambda>fresh_use.
         if \<not> fresh_use then raise TOKEN_USED
         else
           bind (in_app (in_db (update_user R user
                   [(''hashed_password'', VStr (get_password_hash (es_crypto E) (fresh_salt f) new_password))]))) (\<lambda>user1.
           bind (in_app (in_db (increment_token_version R user1))) (\<lambda>user2.
           bind (case es_sessions E of
                   None \<Rightarrow> ret ()
                 | Some M \<Rightarrow> bind (in_app (in_sessions (terminate_all_user_sessions M (now f) (pk R user2) None))) (\<lambda>_. ret ())) (\<lambda>_.
           bind (in_app (run_after_password_reset (es_hooks E) (to_dict R user2) no_context)) (\<lambda>_.
           ret (user2, redirect_from payload)))))))))"

definition request_email_change :: "('b, 's, 'c, 'u) email_service \<Rightarrow> fresh \<Rightarrow> row \<Rightarrow> string \<Rightarrow> string \<Rightarrow> string option \<Rightarrow>
    ('b, 's, 'c, 'm, 'u, unit) mail_prog" where
  "request_email_change E f user new_email password redirect_to =
     (let R = es_repo E; new_email_c = canon new_email
      in if \<not> verify_password (es_crypto E) password (opt_str (get_field R user ''hashed_password'' VNone))
         then raise (BadRequestException ''Incorrect password'')
         else
           (case exceeds_length R ''email'' (VStr new_email_c) of
              Some limit \<Rightarrow> raise (ValueTooLongException [(''new_email'', limit)])
            | None \<Rightarrow>
                if Some new_email_c = canonical_email (opt_str (get_field R user ''email'' VNone))
                then raise (BadRequestException ''New email matches current email'')
                else
                  bind (within_limit E f CHANGE_ACTION (VStr new_email_c)) (\<lambda>ok.
                  if \<not> ok then ret ()
                  else
                    bind (in_app (in_db (get_by_email R new_email_c))) (\<lambda>taken.
                    if taken \<noteq> None then ret ()
                    else
                      deliver_with_db E
                        \<lparr>kind = ''change_email'',
                         intent_token = Some (mint_token E (now f) CHANGE user (change_ttl_hours E)
                           ((''new_email'', VStr new_email_c) # redirect_claim redirect_to)),
                         intent_user = to_dict R user, recipient = VStr new_email_c,
                         expires_in = change_ttl_hours E * SECONDS_PER_HOUR\<rparr>))))"

text \<open>An update whose commit the unique constraints may refuse; the rollback restores the table.\<close>

definition commit_update :: "('b, 's, 'c, 'u) email_service \<Rightarrow> row \<Rightarrow> body \<Rightarrow> exc \<Rightarrow> (database, row) prog" where
  "commit_update E user changes e =
     bind (gets rows) (\<lambda>before.
     bind (update_user (es_repo E) user changes) (\<lambda>user'.
     bind (gets rows) (\<lambda>after.
     if es_unique E after then ret user'
     else bind (modifies (\<lambda>d. d\<lparr>rows := before\<rparr>)) (\<lambda>_. raise e))))"

definition confirm_email_change :: "('b, 's, 'c, 'u) email_service \<Rightarrow> fresh \<Rightarrow> string \<Rightarrow>
    ('b, 's, 'c, 'm, 'u, row \<times> string option) mail_prog" where
  "confirm_email_change E f token =
     (let R = es_repo E
      in bind (in_app (in_db (redeem_token E (now f) token CHANGE))) (\<lambda>(user, payload).
         case canonical_email (opt_str (claim_get payload ''new_email'')) of
           None \<Rightarrow> raise (BadRequestException ''Invalid token'')
         | Some new_email \<Rightarrow>
             if new_email = [] then raise (BadRequestException ''Invalid token'')
             else
               bind (in_app (in_db (get_by_email R new_email))) (\<lambda>taken.
               if taken \<noteq> None then raise (DuplicateValueException ''Email already in use'')
               else
                 bind (in_mail (consume E (now f) token (change_ttl_hours E * SECONDS_PER_HOUR))) (\<lambda>fresh_use.
                 if \<not> fresh_use then raise TOKEN_USED
                 else
                   (let old_email = get_field R user ''email'' VNone
                    in bind (in_app (in_db (commit_update E user [(''email'', VStr new_email), (''email_verified'', VBool True)]
                               (DuplicateValueException ''Email already in use'')))) (\<lambda>user'.
                       bind (if truthy old_email
                             then deliver_with_db E \<lparr>kind = ''email_changed'', intent_token = None, intent_user = to_dict R user',
                                                     recipient = old_email, expires_in = 0\<rparr>
                             else ret ()) (\<lambda>_.
                       bind (in_app (run_after_email_changed (es_hooks E) (to_dict R user') no_context)) (\<lambda>_.
                       ret (user', redirect_from payload)))))))))"

section \<open>The routes\<close>

definition with_redirect :: "string \<Rightarrow> string option \<Rightarrow> body" where
  "with_redirect detail redirect_to =
     (''detail'', VStr detail) # (case redirect_to of None \<Rightarrow> [] | Some t \<Rightarrow> [(''redirect_to'', VStr t)])"

definition channel_noun :: "('b, 's, 'c, 'u) email_service \<Rightarrow> string" where
  "channel_noun E = (if recovery (es_repo E) = Some ''email'' then ''email'' else ''message'')"

definition verify_request_route :: "('b, 's, 'c, 'm) crud_auth \<Rightarrow> ('b, 's, 'c, 'u) email_service \<Rightarrow> fresh \<Rightarrow> request \<Rightarrow> string \<Rightarrow>
    string option \<Rightarrow> ('b, 's, 'c, 'm, 'u, body) mail_prog" where
  "verify_request_route A E f r v redirect_to =
     bind (in_app (limited A ''email_verify_request'' By_ip f r)) (\<lambda>_.
     bind (request_recovery_verification E f (VStr v) redirect_to) (\<lambda>_.
     ret [(''detail'', VStr (''If an account exists, a verification '' @ channel_noun E @ '' has been sent.''))]))"

definition verify_confirm_route :: "('b, 's, 'c, 'u) email_service \<Rightarrow> fresh \<Rightarrow> string \<Rightarrow> ('b, 's, 'c, 'm, 'u, body) mail_prog" where
  "verify_confirm_route E f token =
     bind (confirm_recovery_verification E f token) (\<lambda>(_, redirect_to).
     ret (with_redirect ''Verified successfully.'' redirect_to))"

definition reset_request_route :: "('b, 's, 'c, 'm) crud_auth \<Rightarrow> ('b, 's, 'c, 'u) email_service \<Rightarrow> fresh \<Rightarrow> request \<Rightarrow> string \<Rightarrow>
    string option \<Rightarrow> ('b, 's, 'c, 'm, 'u, body) mail_prog" where
  "reset_request_route A E f r v redirect_to =
     bind (in_app (limited A ''password_reset_request'' By_ip f r)) (\<lambda>_.
     bind (request_password_reset E f (VStr v) redirect_to) (\<lambda>_.
     ret [(''detail'', VStr (''If an account exists, a password reset '' @ channel_noun E @ '' has been sent.''))]))"

definition reset_confirm_route :: "('b, 's, 'c, 'u) email_service \<Rightarrow> fresh \<Rightarrow> string \<Rightarrow> string \<Rightarrow> ('b, 's, 'c, 'm, 'u, body) mail_prog" where
  "reset_confirm_route E f token new_password =
     bind (reset_password E f token new_password) (\<lambda>(_, redirect_to).
     ret (with_redirect ''Password reset successfully.'' redirect_to))"

definition change_request_route :: "('b, 's, 'c, 'm) crud_auth \<Rightarrow> ('b, 's, 'c, 'u) email_service \<Rightarrow> fresh \<Rightarrow> request \<Rightarrow> string \<Rightarrow>
    string \<Rightarrow> string option \<Rightarrow> ('b, 's, 'c, 'm, 'u, body) mail_prog" where
  "change_request_route A E f r new_email password redirect_to =
     bind (in_app (limited A ''email_change_request'' By_ip f r)) (\<lambda>_.
     bind (in_app (signed_in A None f r)) (\<lambda>p.
     bind (in_app (principal_row p)) (\<lambda>user.
     bind (request_email_change E f user new_email password redirect_to) (\<lambda>_.
     ret [(''detail'', VStr ''If the address is available, a confirmation email has been sent.'')]))))"

definition change_confirm_route :: "('b, 's, 'c, 'u) email_service \<Rightarrow> fresh \<Rightarrow> string \<Rightarrow> ('b, 's, 'c, 'm, 'u, body) mail_prog" where
  "change_confirm_route E f token =
     bind (confirm_email_change E f token) (\<lambda>(_, redirect_to).
     ret (with_redirect ''Email changed successfully.'' redirect_to))"

end
