(* ===== verification/Registration.thy ===== *)
theory Registration
  imports Email
begin

text \<open>
  Creating accounts: what the application may contribute to a new row (\<open>provisioning.py\<close>) and
  the registration route (\<open>register/route.py\<close>). A response is its status with its body.
\<close>

section \<open>Provisioning\<close>

text \<open>A provider's profile, \<open>oauth/schemas.py\<close>.\<close>

record oauth_user_info =
  oi_provider :: string
  oi_user_id :: string
  oi_email :: "string option"
  oi_email_verified :: bool
  oi_name :: "string option"
  oi_given_name :: "string option"
  oi_family_name :: "string option"
  oi_username :: "string option"
  oi_picture :: "string option"
  oi_raw_data :: body

record new_user_context =
  nu_email :: pyval
  nu_username :: pyval
  nu_source :: string
  nu_db :: database
  nu_register_data :: "body option"
  nu_oauth :: "oauth_user_info option"

definition suggested_name :: "new_user_context \<Rightarrow> string" where
  "suggested_name c =
     (case nu_oauth c of
        Some i \<Rightarrow>
          (case oi_name i of
             Some n \<Rightarrow> if n \<noteq> [] then n
                        else if truthy (nu_email c) then hd (split_on (CHR ''@'') (py_str (nu_email c))) else py_str (nu_username c)
           | None \<Rightarrow> if truthy (nu_email c) then hd (split_on (CHR ''@'') (py_str (nu_email c))) else py_str (nu_username c))
      | None \<Rightarrow> if truthy (nu_email c) then hd (split_on (CHR ''@'') (py_str (nu_email c))) else py_str (nu_username c))"

text \<open>The callback is the application's: it raises or contributes columns.\<close>

type_synonym new_user_fields = "new_user_context \<Rightarrow> exc + body"

definition resolve_new_user_fields :: "new_user_fields option \<Rightarrow> new_user_context \<Rightarrow> user_repo \<Rightarrow> ('x, body) prog" where
  "resolve_new_user_fields callback context R =
     (case callback of
        None \<Rightarrow> ret []
      | Some cb \<Rightarrow> (case cb context of Inl e \<Rightarrow> raise e | Inr given \<Rightarrow> ret (fst (filter_provisioning_data R [] given))))"

section \<open>The route\<close>

record registration =
  new_user_defaults :: body
  new_user_callback :: "new_user_fields option"

definition dict_update :: "body \<Rightarrow> body \<Rightarrow> body" where
  "dict_update a b = AList.updates (map fst b) (map snd b) a"

definition dict_get :: "body \<Rightarrow> string \<Rightarrow> pyval \<Rightarrow> pyval" where
  "dict_get d k dflt = (case map_of d k of None \<Rightarrow> dflt | Some v \<Rightarrow> v)"

definition capitalize :: "string \<Rightarrow> string" where
  "capitalize s =
     (case s of [] \<Rightarrow> []
      | c # t \<Rightarrow> (let n = (of_char c :: nat) in if 97 \<le> n \<and> n \<le> 122 then char_of (n - 32) else c) # lower t)"

definition ENROLLED_DETAIL :: string where
  "ENROLLED_DETAIL = ''If the email is available, check your inbox to finish signing up.''"

definition enrolled :: "int \<times> body" where
  "enrolled = (202, [(''detail'', VStr ENROLLED_DETAIL)])"

definition run_after_register :: "auth_hooks \<Rightarrow> body \<Rightarrow> hook_context \<Rightarrow> ('b, 's, 'c, 'm, unit) in_world" where
  "run_after_register H user ctx = run_with_db H (hook_event_of ''on_after_register'' (Some user) [] ctx)"

definition send_best_effort :: "('b, 's, 'c, 'm, 'u, unit) mail_prog \<Rightarrow> ('b, 's, 'c, 'm, 'u, unit) mail_prog" where
  "send_best_effort m = catch m (\<lambda>_. ret ())"

text \<open>\<open>data.pop\<close> of each login field: its values, and the data without them.\<close>

fun pop_fields :: "string list \<Rightarrow> body \<Rightarrow> ('x, body \<times> body) prog" where
  "pop_fields [] d = ret ([], d)"
| "pop_fields (f # fs) d =
     (case map_of d f of
        None \<Rightarrow> raise (KeyError f)
      | Some v \<Rightarrow> bind (pop_fields fs (AList.delete f d)) (\<lambda>(vs, rest). ret ((f, v) # vs, rest)))"

definition too_long_fields :: "user_repo \<Rightarrow> body \<Rightarrow> (string \<times> int) list" where
  "too_long_fields R d = concat (map (\<lambda>(k, v). case exceeds_length R k v of None \<Rightarrow> [] | Some limit \<Rightarrow> [(k, limit)]) d)"

definition unique_values :: "user_repo \<Rightarrow> body \<Rightarrow> body" where
  "unique_values R d = filter (\<lambda>(k, v). v \<noteq> VNone \<and> is_unique_column R k) d"

fun any_taken :: "user_repo \<Rightarrow> body \<Rightarrow> (database, bool) prog" where
  "any_taken R [] = ret False"
| "any_taken R ((k, v) # xs) = bind (get_by_field R k v) (\<lambda>u. if u \<noteq> None then ret True else any_taken R xs)"

fun on_existing :: "user_repo \<Rightarrow> ('b, 's, 'c, 'u) email_service option \<Rightarrow> fresh \<Rightarrow> body \<Rightarrow>
    ('b, 's, 'c, 'm, 'u, int \<times> body) mail_prog" where
  "on_existing R emails f [] = raise (DuplicateValueException ''Account already exists'')"
| "on_existing R emails f ((k, v) # xs) =
     bind (in_app (in_db (get_by_field R k v))) (\<lambda>u.
     if u = None then on_existing R emails f xs
     else if k = ''email'' \<or> recovery R = Some k
     then (case emails of
             Some E \<Rightarrow> bind (send_best_effort (notify_existing_account E f v)) (\<lambda>_. ret enrolled)
           | None \<Rightarrow> raise (DuplicateValueException (capitalize k @ '' already registered'')))
     else if emails \<noteq> None \<and> k \<notin> set (login_fields R) then ret enrolled
     else raise (DuplicateValueException (capitalize k @ '' already taken'')))"

text \<open>The insertion and what follows it; the loser of a race answers as for a taken value.\<close>

definition create_account :: "('b, 's, 'c, 'm) crud_auth \<Rightarrow> ('b, 's, 'c, 'u) email_service option \<Rightarrow> fresh \<Rightarrow> request \<Rightarrow>
    body \<Rightarrow> body \<Rightarrow> ('b, 's, 'c, 'm, 'u, int \<times> body) mail_prog" where
  "create_account A emails f r create_data uniques =
     (let T = runtime A; R = repo T
      in bind (catch (bind (in_app (in_db (create_user R create_data))) (\<lambda>u. ret (Some u)))
                (\<lambda>e. if e = integrity_error then ret None else raise e)) (\<lambda>created.
         case created of
           None \<Rightarrow> on_existing R emails f uniques
         | Some user \<Rightarrow>
             bind (in_app (run_after_register (hooks T) (to_dict R user) (request_context T r))) (\<lambda>_.
             case (emails, recovery R) of
               (Some E, Some factor) \<Rightarrow>
                 bind (send_best_effort (request_recovery_verification E f (get_field R user factor VNone) None)) (\<lambda>_. ret enrolled)
             | _ \<Rightarrow> ret (200, [(''id'', pk R user), (''email'', get_field R user ''email'' VNone),
                               (''username'', get_field R user ''username'' VNone)]))))"

definition count_registration :: "('b, 's, 'c, 'm) crud_auth \<Rightarrow> fresh \<Rightarrow> request \<Rightarrow> ('b, 's, 'c, 'm, 'u, unit) mail_prog" where
  "count_registration A f r =
     (let T = runtime A
      in case map_of (action_limits A) ''register'' of
           None \<Rightarrow> raise (KeyError ''register'')
         | Some limit \<Rightarrow>
             in_app (in_limits (enforce_rate_limit (Some (rate_limiter T)) (now f) r ''register''
               (client_ip_key (get_client_ip r (proxy_hops T))) (Fixed limit) (None :: auth_principal option))))"

text \<open>The route from the hashing of the password on.\<close>

definition enroll :: "('b, 's, 'c, 'm) crud_auth \<Rightarrow> registration \<Rightarrow> ('b, 's, 'c, 'u) email_service option \<Rightarrow> fresh \<Rightarrow> request \<Rightarrow>
    body \<Rightarrow> string \<Rightarrow> body \<Rightarrow> body \<Rightarrow> ('b, 's, 'c, 'm, 'u, int \<times> body) mail_prog" where
  "enroll A N emails f r submitted password login_values rest =
     (let T = runtime A; R = repo T; hashed = get_password_hash (crypto_lib T) (fresh_salt f) password;
          uniques = unique_values R (dict_update login_values rest)
      in bind (in_app (in_db (any_taken R uniques))) (\<lambda>taken.
         if taken then on_existing R emails f uniques
         else
           bind (in_app (gets db)) (\<lambda>d.
           bind (resolve_new_user_fields (new_user_callback N)
                   \<lparr>nu_email = dict_get login_values ''email'' (VStr []), nu_username = dict_get login_values ''username'' (VStr []),
                    nu_source = ''register'', nu_db = d, nu_register_data = Some submitted, nu_oauth = None\<rparr> R) (\<lambda>extra.
           create_account A emails f r
             (dict_update (dict_update (dict_update (login_values @ [(''hashed_password'', VStr hashed)]) rest) (new_user_defaults N)) extra)
             uniques))))"

definition register_route :: "('b, 's, 'c, 'm) crud_auth \<Rightarrow> registration \<Rightarrow> ('b, 's, 'c, 'u) email_service option \<Rightarrow> fresh \<Rightarrow> request \<Rightarrow>
    body \<Rightarrow> ('b, 's, 'c, 'm, 'u, int \<times> body) mail_prog" where
  "register_route A N emails f r submitted_body =
     (let T = runtime A; R = repo T
      in case map_of submitted_body ''password'' of
           None \<Rightarrow> raise (KeyError ''password'')
         | Some pw \<Rightarrow>
             (let password = py_str pw; submitted = AList.delete ''password'' submitted_body
              in bind (enforce_policy (crypto_lib T) (policy A) password
                         \<lparr>source = ''register'', ctx_username = dict_get submitted ''username'' VNone,
                          ctx_email = dict_get submitted ''email'' VNone, ctx_user = None\<rparr> ''password'') (\<lambda>_.
                 bind (pop_fields (login_fields R) (filter_registration_data R submitted)) (\<lambda>(login_values, rest).
                 let too_long = too_long_fields R (dict_update login_values rest)
                 in if too_long \<noteq> [] then raise (ValueTooLongException too_long)
                    else bind (count_registration A f r) (\<lambda>_. enroll A N emails f r submitted password login_values rest)))))"

end
