(* ===== verification/TransportLaws.thy ===== *)
theory TransportLaws
  imports Transports
begin

text \<open>
  What a bearer credential is worth: exactly when an access token authenticates, and what a
  refresh token can be exchanged for.
\<close>

section \<open>Finding the user of a token\<close>

text \<open>The subject claim is the text of the user's id; the id column reads it back.\<close>

definition subject_finds :: "user_repo \<Rightarrow> pyval \<Rightarrow> bool" where
  "subject_finds R uid \<longleftrightarrow> has_col R ''id'' \<and> coerce_id R (VStr (py_str uid)) = Some uid"

lemma subject_found:
  "subject_finds R uid \<Longrightarrow> user_row R uid d = Some u \<Longrightarrow> get_by_id R (VStr (py_str uid)) d = (Inr (Some u), d)"
  by (simp add: subject_finds_def get_by_id_run)

lemma strs_of_map [simp]: "strs_of (VList (map VStr ss)) = ss"
  by (induction ss) (simp_all add: strs_of_def)

lemma version_claim_get: "claim_get p TOKEN_VERSION_CLAIM = VInt n \<Longrightarrow> version_claim p = VInt n"
  by (auto simp: claim_get_def version_claim_def split: option.splits)

lemma grant_scopes_grantable: "set (grant_scopes B ss) \<subseteq> set (grantable_scopes B)"
  by (auto simp: grant_scopes_def clamp_scopes_def)

definition bearer_header :: "request \<Rightarrow> string \<Rightarrow> bool" where
  "bearer_header r token \<longleftrightarrow> header r ''authorization'' = Some (''Bearer '' @ token) \<and> token \<noteq> []"

lemma bearer_scheme: "bearer_header r token \<Longrightarrow>
    \<exists>h. header r ''authorization'' = Some h \<and> partition_at (CHR '' '') h = (''Bearer'', token) \<and> token \<noteq> []"
  by (simp add: bearer_header_def)

lemma lower_bearer: "lower ''Bearer'' = TOKEN_TYPE_BEARER"
  by code_simp

definition accepted_version :: "user_repo \<Rightarrow> int \<Rightarrow> row \<Rightarrow> bool" where
  "accepted_version R v u \<longleftrightarrow> is_active R u \<and> row_token_version R u = v"

lemma delta_or_Some: "ttl \<noteq> 0 \<Longrightarrow> delta_or x (Some ttl) = ttl"
  by (simp add: delta_or_def)

lemma authenticate_bearer_run:
  assumes "jwt_decodes (jwt_lib T)" and "access_ttl B \<noteq> 0" and "subject_finds (repo T) (pk (repo T) u0)"
    and "bearer_header r (access_token T B t0 u0 ss)"
    and "user_row (repo T) (pk (repo T) u0) (db w) = Some u" and "user_cache w = []"
  shows "fst (authenticate_bearer T f r w) =
      Inr (if now f < end_of t0 (access_ttl B) \<and> accepted_version (repo T) (row_token_version (repo T) u0) u
           then Some (build_principal (repo T) (pk (repo T) u) (Some u) ''bearer'' ss None) else None)"
proof -
  let ?R = "repo T"
  let ?data = "[(''sub'', VStr (py_str (pk ?R u0))), (TOKEN_VERSION_CLAIM, VInt (row_token_version ?R u0))]"
  let ?token = "access_token T B t0 u0 ss"
  note A = access_token_run [OF assms(1), of ?data ?token t0 "secret_key T" "Some (access_ttl B)" "algorithm T" ss
      "end_of t0 (access_ttl B)" "now f", OF _ access_token_def]
  have sub: "claim_get ?data ''sub'' = VStr (py_str (pk ?R u0))"
    and ver: "claim_get ?data TOKEN_VERSION_CLAIM = VInt (row_token_version ?R u0)"
    by (simp_all add: claim_get_def TOKEN_VERSION_CLAIM_def)
  have e: "end_of t0 (access_ttl B) = end_of t0 (delta_or DEFAULT_ACCESS_TTL_SECONDS (Some (access_ttl B)))"
    using assms(2) by (simp add: delta_or_Some)
  obtain h where h: "header r ''authorization'' = Some h" "partition_at (CHR '' '') h = (''Bearer'', ?token)" "?token \<noteq> []"
    using bearer_scheme [OF assms(4)] by blast
  show ?thesis
  proof (cases "now f < end_of t0 (access_ttl B)")
    case True
    then obtain p where p: "verify_token (jwt_lib T) (now f) ?token (secret_key T) ACCESS (algorithm T) = Some p"
      "claim_get p ''scopes'' = VList (map VStr ss)"
      "\<And>k. k \<notin> {''exp'', ''token_type'', ''scopes''} \<Longrightarrow> claim_get p k = claim_get ?data k"
      using A(1) [OF _ e] sub by auto
    have "claim_get p ''sub'' = VStr (py_str (pk ?R u0))" "version_claim p = VInt (row_token_version ?R u0)"
      using p(3) [of "''sub''"] p(3) [of TOKEN_VERSION_CLAIM] sub ver version_claim_get
      by (auto simp: TOKEN_VERSION_CLAIM_def)
    then show ?thesis using True h p assms(6) subject_found [OF assms(3,5)]
      by (auto simp: authenticate_bearer_def lower_bearer resolve_user_def accepted_version_def run_simps)
  next
    case False
    then show ?thesis using A(2,3) [OF _ e] sub h
      by (auto simp: authenticate_bearer_def lower_bearer run_simps)
  qed
qed

lemma refresh_route_run:
  assumes "jwt_decodes (jwt_lib T)" and "refresh_ttl_days B \<noteq> 0" and "subject_finds (repo T) (pk (repo T) u0)"
    and "read_refresh B r body = VStr (refresh_token_of T B t0 u0 ss)" and "refresh_token_of T B t0 u0 ss \<noteq> []"
    and "user_row (repo T) (pk (repo T) u0) (db w) = Some u"
  shows "refresh_route T B f r body w =
      (if now f < end_of t0 (refresh_ttl_days B * SECONDS_PER_DAY) \<and> accepted_version (repo T) (row_token_version (repo T) u0) u
       then Inr [(''access_token'', VStr (access_token T B (now f) u (clamp_scopes B ss))), (''token_type'', VStr TOKEN_TYPE_BEARER)]
       else Inl BAD_REFRESH, w)"
proof -
  let ?R = "repo T" and ?token = "refresh_token_of T B t0 u0 ss" and ?ttl = "refresh_ttl_days B * SECONDS_PER_DAY"
  let ?data = "[(''sub'', VStr (py_str (pk ?R u0))), (TOKEN_VERSION_CLAIM, VInt (row_token_version ?R u0)),
        (''scopes'', VList (map VStr ss))]"
  have get: "claim_get ?data ''sub'' = VStr (py_str (pk ?R u0))" "claim_get ?data ''scopes'' = VList (map VStr ss)"
    "claim_get ?data TOKEN_VERSION_CLAIM = VInt (row_token_version ?R u0)"
    by (simp_all add: claim_get_def TOKEN_VERSION_CLAIM_def)
  have e: "end_of t0 ?ttl = end_of t0 (delta_or (DEFAULT_REFRESH_TTL_DAYS * SECONDS_PER_DAY) (Some ?ttl))"
    using assms(2) by (subst delta_or_Some) (simp_all add: SECONDS_PER_DAY_def)
  note A = refresh_token_run [OF assms(1), of ?data ?token t0 "secret_key T" "Some ?ttl" "algorithm T"
      "end_of t0 ?ttl" "now f", OF _ refresh_token_of_def e]
  show ?thesis
  proof (cases "now f < end_of t0 ?ttl")
    case True
    then obtain p where p: "verify_token (jwt_lib T) (now f) ?token (secret_key T) REFRESH (algorithm T) = Some p"
      "\<And>k. k \<notin> {''exp'', ''token_type''} \<Longrightarrow> claim_get p k = claim_get ?data k"
      using A(1) get by auto
    have "claim_get p ''sub'' = VStr (py_str (pk ?R u0))" "claim_get p ''scopes'' = VList (map VStr ss)"
      "version_claim p = VInt (row_token_version ?R u0)"
      using p(2) [of "''sub''"] p(2) [of TOKEN_VERSION_CLAIM] p(2) [of "''scopes''"] get version_claim_get
      by (auto simp: TOKEN_VERSION_CLAIM_def)
    then show ?thesis using True p(1) assms(4,5) subject_found [OF assms(3,6)]
      by (auto simp: refresh_route_def Let_def accepted_version_def run_simps)
  next
    case False
    then show ?thesis using A(2) get assms(4,5) by (auto simp: refresh_route_def Let_def run_simps)
  qed
qed

section \<open>What a token is worth\<close>

text \<open>A deployment whose ids are text, holding one account.\<close>

definition text_id_row :: "int \<Rightarrow> row" where
  "text_id_row ver = (demo_row 0 ''a@b.c'' ver)(''id'' \<mapsto> VStr ''7'')"

lemma text_id_row_facts:
  "pk demo_repo (text_id_row v) = VStr ''7''" "row_token_version demo_repo (text_id_row v) = v"
  "is_active demo_repo (text_id_row v)" "subject_finds demo_repo (VStr ''7'')"
  "user_row demo_repo (VStr ''7'') \<lparr>rows = [text_id_row v]\<rparr> = Some (text_id_row v)"
  by (simp_all add: text_id_row_def demo_row_def pk_def get_field_def col_def demo_repo_def row_token_version_def int_value_def
      is_active_def has_col_def subject_finds_def coerce_id_def user_row_def)

lemma demo_token_nonempty: "access_token demo_runtime B t u ss \<noteq> []" "refresh_token_of demo_runtime B t u ss \<noteq> []"
  by (simp_all add: access_token_def refresh_token_of_def tokens_encode) (simp_all add: demo_jwt_def)

definition bearer_request :: "string \<Rightarrow> request" where
  "bearer_request token = plain_request\<lparr>req_headers := [(''authorization'', ''Bearer '' @ token)]\<rparr>"

text \<open>
  C16. An access token authenticates a request exactly until its lifetime has passed, while the
  account is active and its version is still the one the token was issued under; the principal
  is the account's current row with the scopes granted at issue, all of them grantable. In
  every other case the request is anonymous, never an error.
\<close>

theorem access_token_authenticates:
  assumes "jwt_decodes (jwt_lib T)" and "access_ttl B \<noteq> 0" and "subject_finds (repo T) (pk (repo T) u0)"
    and "bearer_header r (access_token T B t0 u0 ss)" and "ss = grant_scopes B requested"
    and "user_row (repo T) (pk (repo T) u0) (db w) = Some u" and "user_cache w = []"
  shows "fst (authenticate_bearer T f r w) =
      Inr (if now f < end_of t0 (access_ttl B) \<and> is_active (repo T) u \<and> row_token_version (repo T) u = row_token_version (repo T) u0
           then Some (build_principal (repo T) (pk (repo T) u0) (Some u) ''bearer'' ss None) else None)
    \<and> set ss \<subseteq> set (grantable_scopes B)"
  using authenticate_bearer_run [OF assms(1-4,6,7)] pk_user_row [OF assms(6)] grant_scopes_grantable
  by (simp add: accepted_version_def assms(5))

theorem access_token_authenticates_witness:
  "fst (authenticate_bearer demo_runtime demo_fresh
          (bearer_request (access_token demo_runtime demo_bearer 0 (text_id_row 1) (grant_scopes demo_bearer None)))
          (demo_app [text_id_row 2])) = Inr None"
  using access_token_authenticates [of demo_runtime demo_bearer "text_id_row 1"
      "bearer_request (access_token demo_runtime demo_bearer 0 (text_id_row 1) (grant_scopes demo_bearer None))" 0
      "grant_scopes demo_bearer None" None "demo_app [text_id_row 2]" "text_id_row 2" demo_fresh]
  by (simp add: demo_jwt_decodes text_id_row_facts demo_token_nonempty bearer_header_def bearer_request_def header_def
      header_list_def plain_request_def demo_bearer_def lower_def)

text \<open>
  C34. A refresh token is exchanged exactly until its lifetime has passed, while the account is
  active and its version unchanged; otherwise the answer is the same 401. The new access token
  carries the refresh token's scopes that are still grantable, and authenticates for one access
  lifetime from the exchange, as long as the account stays as it is. The exchange changes nothing.
\<close>

theorem refresh_exchanges:
  assumes "jwt_decodes (jwt_lib T)" and "refresh_ttl_days B \<noteq> 0" and "access_ttl B \<noteq> 0"
    and "subject_finds (repo T) (pk (repo T) u0)"
    and "read_refresh B r body = VStr (refresh_token_of T B t0 u0 ss)" and "refresh_token_of T B t0 u0 ss \<noteq> []"
    and "user_row (repo T) (pk (repo T) u0) (db w) = Some u" and "user_cache w = []"
    and "valid \<longleftrightarrow> now f < end_of t0 (refresh_ttl_days B * SECONDS_PER_DAY) \<and> is_active (repo T) u
           \<and> row_token_version (repo T) u = row_token_version (repo T) u0"
  shows "(\<not> valid \<longrightarrow> refresh_route T B f r body w = (Inl BAD_REFRESH, w))
    \<and> (valid \<longrightarrow> (\<exists>a. refresh_route T B f r body w
           = (Inr [(''access_token'', VStr a), (''token_type'', VStr TOKEN_TYPE_BEARER)], w)
         \<and> (\<forall>f' r'. bearer_header r' a \<longrightarrow> fst (authenticate_bearer T f' r' w) =
              Inr (if now f' < end_of (now f) (access_ttl B)
                   then Some (build_principal (repo T) (pk (repo T) u0) (Some u) ''bearer''
                          (filter (\<lambda>s. s \<in> set (grantable_scopes B)) ss) None)
                   else None))))"
proof -
  have u: "pk (repo T) u = pk (repo T) u0" by (rule pk_user_row [OF assms(7)])
  note run = refresh_route_run [OF assms(1,2,4-7), of f]
  note auth = authenticate_bearer_run [OF assms(1,3), where ?u0.0 = u and u = u, unfolded u, OF assms(4) _ assms(7,8)]
  show ?thesis using run auth assms(9)
    by (auto simp: accepted_version_def clamp_scopes_def u)
qed

theorem refresh_exchanges_witness:
  "fst (refresh_route demo_runtime demo_bearer demo_fresh plain_request
     (Some (VDict [(''refresh_token'', VStr (refresh_token_of demo_runtime demo_bearer 0 (text_id_row 1) [''read'']))]))
     (demo_app [text_id_row 2])) = Inl BAD_REFRESH"
  using refresh_exchanges [of demo_runtime demo_bearer "text_id_row 1" plain_request
      "Some (VDict [(''refresh_token'', VStr (refresh_token_of demo_runtime demo_bearer 0 (text_id_row 1) [''read'']))])"
      0 "[''read'']" "demo_app [text_id_row 2]" "text_id_row 2" False demo_fresh]
  by (simp add: demo_jwt_decodes text_id_row_facts demo_token_nonempty read_refresh_def cookie_def plain_request_def
      demo_bearer_def claim_get_def REFRESH_TOKEN_NAME_def REFRESH_LOCATION_BODY_def)

end
