(* ===== verification/EmailLaws.thy ===== *)
theory EmailLaws
  imports Email SessionLaws TransportLaws LoginLaws
begin

text \<open>
  What the recovery flows promise: a request answers and counts the same whether or not there is
  an account, and a link works once, for the account state it was made for, within its lifetime.
\<close>

section \<open>Delivery\<close>

text \<open>What a channel is made to send, whatever becomes of it.\<close>

fun dispatched :: "delivery_intent \<Rightarrow> channel \<Rightarrow> outgoing list" where
  "dispatched i (EmailChannel cfg) = outbox (snd (deliver_email cfg i \<lparr>used = (), outbox = []\<rparr>))"
| "dispatched i (OtherChannel _ _) = [Handed i]"

fun addressed :: "pyval \<Rightarrow> outgoing \<Rightarrow> bool" where
  "addressed v (Mailed m) \<longleftrightarrow> mail_to m = v"
| "addressed v (Handed i) \<longleftrightarrow> recipient i = v"

lemma send_run: "\<exists>x. send cfg m s = (x, s\<lparr>outbox := outbox s @ [Mailed m]\<rparr>)"
  by (cases "sender cfg m") (auto simp: send_def run_simps)

lemma send_outbox: "snd (send cfg m s) = s\<lparr>outbox := outbox s @ [Mailed m]\<rparr>"
  using send_run [of cfg m s] by auto

lemma channel_run: "snd (channel_deliver ch i d s) = s\<lparr>outbox := outbox s @ dispatched i ch\<rparr>"
proof (cases ch)
  case (EmailChannel cfg)
  then show ?thesis
    by (auto simp: deliver_email_def send_outbox Let_def raise_run split: option.split)
next
  case (OtherChannel b hand)
  then show ?thesis by (auto simp: run_simps split: sum.split)
qed

lemma each_channel_run:
  "for_each chs (\<lambda>ch. catch (channel_deliver ch i d) (\<lambda>_. ret ())) s
   = (Inr (), s\<lparr>outbox := outbox s @ concat (map (dispatched i) chs)\<rparr>)"
proof (induction chs arbitrary: s)
  case (Cons ch chs)
  have "catch (channel_deliver ch i d) (\<lambda>_. ret ()) s = (Inr (), s\<lparr>outbox := outbox s @ dispatched i ch\<rparr>)"
    using channel_run [of ch i d s] by (auto simp: catch_run ret_run split: sum.split)
  then show ?case by (simp add: bind_Inr Cons.IH)
qed (simp add: ret_run)

definition deliveries :: "('b, 's, 'c, 'u) email_service \<Rightarrow> delivery_intent \<Rightarrow> outgoing list" where
  "deliveries E i = concat (map (dispatched i) (if kind i = ''change_email'' then email_channels E else channels E))"

lemma deliver_run: "deliver E i d s = (Inr (), s\<lparr>outbox := outbox s @ deliveries E i\<rparr>)"
  unfolding deliver_def each_channel_run deliveries_def ..

lemma deliver_with_db_run:
  "deliver_with_db E i p = (Inr (), (fst p, (snd p)\<lparr>outbox := outbox (snd p) @ deliveries E i\<rparr>))"
  by (simp add: deliver_with_db_def bind_run in_app_run in_mail_run gets_run deliver_run)

lemma dispatched_addressed: "x \<in> set (dispatched i ch) \<Longrightarrow> addressed (recipient i) x"
  by (cases ch) (auto simp: deliver_email_def send_outbox Let_def raise_run split: option.splits)

lemma deliveries_addressed: "x \<in> set (deliveries E i) \<Longrightarrow> addressed (recipient i) x"
  by (auto simp: deliveries_def dest: dispatched_addressed split: if_splits)

lemma deliveries_only_email:
  "kind i = ''change_email'' \<Longrightarrow> set (deliveries E i) = (\<Union>ch \<in> {ch \<in> set (channels E). sends_email ch}. set (dispatched i ch))"
  by (simp add: deliveries_def email_channels_def)

section \<open>A token and the state it was made for\<close>

abbreviation reserved_claims :: "string set" where
  "reserved_claims \<equiv> {''sub'', ''purpose'', ''exp'', ''token_type'', STATE_CLAIM}"

lemma updates_get:
  "distinct (map fst xs) \<Longrightarrow> (k, v) \<in> set xs \<Longrightarrow> map_of (AList.updates (map fst xs) (map snd xs) al) k = Some v"
proof (induction xs arbitrary: al)
  case (Cons x xs)
  show ?case
  proof (cases "x = (k, v)")
    case True
    then show ?thesis using Cons.prems(1) by (simp add: updates_keep update_conv')
  next
    case False
    then have "(k, v) \<in> set xs" using Cons.prems(2) by auto
    then have "k \<in> set (map fst xs)" by force
    then have "fst x \<noteq> k" using Cons.prems(1) by auto
    then show ?thesis using Cons False by (cases x) (auto simp: update_conv')
  qed
qed simp

lemma minted_claims:
  assumes "set (map fst cs) \<inter> reserved_claims = {}" and "distinct (map fst cs)"
    and "c = signed_claims t0 uid purpose hours (cs @ [(STATE_CLAIM, VStr fp)])"
  shows "(k, v) \<in> set cs \<Longrightarrow> claim_get c k = v" and "claim_get c STATE_CLAIM = VStr fp"
    and "k \<notin> set (map fst cs) \<union> reserved_claims \<Longrightarrow> claim_get c k = VNone"
proof -
  let ?xs = "cs @ [(STATE_CLAIM, VStr fp)]"
  have d: "distinct (map fst ?xs)" using assms(1,2) by auto
  have got: "map_of c k' = Some v'" if "(k', v') \<in> set ?xs" for k' v'
    unfolding assms(3) signed_claims_def by (rule updates_get [OF d that])
  show "(k, v) \<in> set cs \<Longrightarrow> claim_get c k = v" "claim_get c STATE_CLAIM = VStr fp"
    using got [of k v] got [of STATE_CLAIM "VStr fp"] by (simp_all add: claim_get_def)
  show "k \<notin> set (map fst cs) \<union> reserved_claims \<Longrightarrow> claim_get c k = VNone"
    by (simp add: assms(3) signed_claims_def claim_get_def updates_keep del: map_append)
qed

lemma redeem_run:
  assumes "jwt_decodes (es_jwt E)" and "R = es_repo E" and "subject_finds R (pk R u0)"
    and "user_row R (pk R u0) d = Some u" and "set (map fst cs) \<inter> reserved_claims = {}" and "distinct (map fst cs)"
    and "token = mint_token E t0 purpose u0 hours cs"
  shows "\<exists>payload. redeem_token E t token purpose d
      = (if t < end_of t0 (hours * 3600) \<and> is_active R u \<and> state_fingerprint E purpose u0 = state_fingerprint E purpose u
         then Inr (u, payload) else Inl INVALID_TOKEN, d)
    \<and> (\<forall>(k, v) \<in> set cs. claim_get payload k = v) \<and> (\<forall>k. k \<notin> set (map fst cs) \<union> reserved_claims \<longrightarrow> claim_get payload k = VNone)"
proof -
  define extra where "extra = cs @ [(STATE_CLAIM, VStr (state_fingerprint E purpose u0))]"
  define c where "c = signed_claims t0 (pk R u0) purpose hours extra"
  have res: "set (map fst extra) \<inter> {''sub'', ''purpose'', ''exp'', ''token_type''} = {}"
    using assms(5) by (auto simp: extra_def STATE_CLAIM_def)
  note get = signed_claims_get [OF res, of t0 "pk R u0" purpose hours, folded c_def]
  note minted = minted_claims [OF assms(5,6) c_def [unfolded extra_def]]
  have tok: "token = jwt_encode (es_jwt E) c (es_secret E) (es_algorithm E)"
    by (simp add: assms(7) mint_token_def tokens_encode c_def extra_def assms(2))
  obtain e where e: "expiry_claim t0 (hours * 3600) = VTime e" by (simp add: expiry_claim_def)
  have ex: "map_of c ''exp'' = Some (VTime e)" and end': "e div usec * usec = end_of t0 (hours * 3600)"
    by (simp_all add: get e end_of_expiry [OF e])
  show ?thesis
  proof (cases "t < end_of t0 (hours * 3600)")
    case True
    then obtain p where p: "verify_signed_token_full (es_jwt E) t token (es_secret E) purpose (es_algorithm E) = Some p"
      "\<forall>k. k \<noteq> ''exp'' \<longrightarrow> claim_get p k = claim_get c k"
      using verify_token_run(2) [OF assms(1) ex, of t "es_secret E" "es_algorithm E" purpose] by (auto simp: end' tok get)
    have st: "map_of p STATE_CLAIM = Some (VStr (state_fingerprint E purpose u0))"
      using p(2) minted(2) by (auto simp: claim_get_def STATE_CLAIM_def split: option.splits)
    have exp: "''exp'' \<notin> set (map fst cs)" using assms(5) by auto
    have "claim_get p k = v" if "(k, v) \<in> set cs" for k v
    proof -
      have "k \<noteq> ''exp''" using exp that by force
      then show ?thesis using p(2) minted(1) [OF that] by simp
    qed
    moreover have "claim_get p k = VNone" if "k \<notin> set (map fst cs) \<union> reserved_claims" for k
      using p(2) minted(3) [OF that] that by simp
    moreover have "redeem_token E t token purpose d = (if t < end_of t0 (hours * 3600) \<and> is_active R u
        \<and> state_fingerprint E purpose u0 = state_fingerprint E purpose u then Inr (u, p) else Inl INVALID_TOKEN, d)"
      using True st p(2) get(2) subject_found [OF assms(3,4)]
      by (auto simp: redeem_token_def p(1) bind_run ret_run raise_run assms(2))
    ultimately show ?thesis by blast
  next
    case False
    then have "redeem_token E t token purpose d = (Inl INVALID_TOKEN, d)"
      using verify_token_late(2) [OF assms(1) ex, of t] by (simp add: end' tok redeem_token_def raise_run)
    moreover have "c \<noteq> []" using ex by auto
    ultimately show ?thesis using False minted(1,3) by (intro exI [of _ c]) auto
  qed
qed

section \<open>One use\<close>

text \<open>
  The laws of a session store are enough for single use: a token that was consumed is refused
  for as long as its entry is kept.
\<close>

locale token_keeper = session_store st view ok who hit
  for st :: "('u, used_token) session_storage" and view ok who hit
begin

lemma consume_run:
  assumes "ok (used m)" and "token_store E = Some st" and "0 \<le> ttl"
  shows "fst (consume E t token ttl m) = Inr (view t (used m) (sha256_hex token) = None)"
    and "ok (used (snd (consume E t token ttl m)))"
    and "outbox (snd (consume E t token ttl m)) = outbox m"
    and "t \<le> t' \<Longrightarrow> t' \<le> t + ttl * usec \<Longrightarrow> view t (used m) (sha256_hex token) = None \<Longrightarrow>
      view t' (used (snd (consume E t token ttl m))) (sha256_hex token) \<noteq> None"
proof -
  let ?k = "sha256_hex token"
  have k: "?k \<noteq> []" using sha256_hex_length [of token] by fastforce
  let ?s = "snd (st_set_if_absent st t ?k (UsedToken True) (Some ttl) (used m))"
  have run: "consume E t token ttl m = (Inr (view t (used m) ?k = None), m\<lparr>used := ?s\<rparr>)"
    using assms k by (simp add: consume_def run_simps store_laws)
  then show "fst (consume E t token ttl m) = Inr (view t (used m) ?k = None)"
    "outbox (snd (consume E t token ttl m)) = outbox m" by simp_all
  have ok': "ok ?s" using assms(1) k by (simp add: store_laws)
  then show "ok (used (snd (consume E t token ttl m)))" by (simp add: run)
  assume *: "t \<le> t'" "t' \<le> t + ttl * usec" "view t (used m) ?k = None"
  have "view t ?s ?k = Some (UsedToken True, t + ttl * usec)"
    using assms k *(3) by (simp add: store_laws ttl_or_def)
  then show "view t' (used (snd (consume E t token ttl m))) ?k \<noteq> None"
    using view_later [OF ok' *(1)] *(2) by (simp add: run live_at_def)
qed

lemma consume_again:
  assumes "ok (used m)" and "token_store E = Some st" and "0 \<le> ttl" and "m' = snd (consume E t token ttl m)"
    and "fst (consume E t token ttl m) = Inr True" and "used n = used m'" and "t \<le> t'" and "t' \<le> t + ttl * usec"
  shows "fst (consume E t' token ttl n) = Inr False"
proof -
  note run = consume_run [OF assms(1-3), where t = t and token = token]
  have "ok (used n)" using run(2) assms(4,6) by simp
  moreover have "view t' (used n) (sha256_hex token) \<noteq> None"
    using run(4) [OF assms(7,8)] run(1) assms(4-6) by simp
  ultimately show ?thesis using consume_run(1) [OF _ assms(2,3), where m = n and t = t' and token = token] by simp
qed

end

interpretation used_tokens: token_keeper "mem_storage cfg" "store_view cfg" "store_ok cfg" "payload_user_id cfg"
  "\<lambda>_ s sid. map_of (data s) (get_key (prefix cfg) sid) \<noteq> None" for cfg :: "used_token mem_store_config"
  by (intro token_keeper.intro session_store.intro) (rule mem_store.timed_store_axioms)

section \<open>Redirects\<close>

definition honored :: "string option \<Rightarrow> string option" where
  "honored redirect_to = (if redirect_claim redirect_to = [] then None else redirect_to)"

lemma redirect_claim_shape:
  "redirect_claim to = (case honored to of None \<Rightarrow> [] | Some t \<Rightarrow> [(REDIRECT_CLAIM, VStr t)])"
  "honored to = Some t \<Longrightarrow> t \<noteq> [] \<and> safe_redirect_path (Some t) [] = t"
  by (auto simp: honored_def redirect_claim_def safe_redirect_path_def Let_def split: option.splits if_splits)

lemma redirect_claim_reserved:
  "set (map fst (redirect_claim to)) \<inter> reserved_claims = {}" "distinct (map fst (redirect_claim to))"
  "set (map fst (redirect_claim to)) \<subseteq> {REDIRECT_CLAIM}"
  by (auto simp: redirect_claim_def Let_def REDIRECT_CLAIM_def STATE_CLAIM_def split: option.split)

lemma redirect_carried:
  assumes "\<forall>(k, v) \<in> set cs. claim_get payload k = v"
    and "\<forall>k. k \<notin> set (map fst cs) \<union> reserved_claims \<longrightarrow> claim_get payload k = VNone"
    and "set cs = set (redirect_claim to) \<union> set rest" and "REDIRECT_CLAIM \<notin> fst ` set rest"
  shows "redirect_from payload = honored to"
proof (cases "honored to")
  case None
  then have "claim_get payload REDIRECT_CLAIM = VNone"
    using assms(2-4) by (auto simp: redirect_claim_shape(1) REDIRECT_CLAIM_def STATE_CLAIM_def)
  then show ?thesis by (simp add: None redirect_from_def)
next
  case (Some t)
  then have "claim_get payload REDIRECT_CLAIM = VStr t"
    using assms(1,3) by (auto simp: redirect_claim_shape(1))
  then show ?thesis using redirect_claim_shape(2) [OF Some] by (simp add: Some redirect_from_def)
qed

section \<open>Password reset\<close>

lemma redeem_late:
  assumes "jwt_decodes (es_jwt E)" and "token = mint_token E t0 purpose u0 hours cs"
    and "set (map fst cs) \<inter> reserved_claims = {}" and "end_of t0 (hours * 3600) \<le> t"
  shows "redeem_token E t token q d = (Inl INVALID_TOKEN, d)"
proof -
  define extra where "extra = cs @ [(STATE_CLAIM, VStr (state_fingerprint E purpose u0))]"
  have res: "set (map fst extra) \<inter> {''sub'', ''purpose'', ''exp'', ''token_type''} = {}"
    using assms(3) by (auto simp: extra_def STATE_CLAIM_def)
  obtain e where e: "expiry_claim t0 (hours * 3600) = VTime e" by (simp add: expiry_claim_def)
  have "map_of (signed_claims t0 (pk (es_repo E) u0) purpose hours extra) ''exp'' = Some (VTime e)"
    by (simp add: signed_claims_get [OF res] e)
  then show ?thesis
    using verify_token_late(2) [OF assms(1)] assms(4) end_of_expiry [OF e]
    by (simp add: redeem_token_def assms(2) mint_token_def tokens_encode extra_def raise_run)
qed

lemma select_keeps: "snd (select_where P d) = d"
  by (auto simp: select_where_def scalar_one_or_none_def run_simps split: list.split)

lemma get_by_id_keeps: "snd (get_by_id R v d) = d"
  by (auto simp: get_by_id_def with_attr_def select_keeps run_simps split: option.split)

lemma redeem_keeps: "snd (redeem_token E t token q d) = d"
  using get_by_id_keeps [of "es_repo E" _ d]
  by (auto simp: redeem_token_def bind_run raise_run ret_run split: option.split sum.split)

lemma enforce_policy_pure: "enforce_policy L P pw c fld s = (fst (enforce_policy L P pw c fld ()), s)"
  by (auto simp: enforce_policy_def run_simps split: sum.split)

lemma end_of_le: "end_of t h \<le> t + h * usec"
  by (simp add: end_of_def usec_def)

lemma mail_hooks [run_simps]:
  "run_after_recovery_verified H d c w = (Inr (), logged H (hook_event_of ''on_after_recovery_verified'' (Some d) [] c) w)"
  "run_after_password_reset H d c w = (Inr (), logged H (hook_event_of ''on_after_password_reset'' (Some d) [] c) w)"
  "run_after_email_changed H d c w = (Inr (), logged H (hook_event_of ''on_after_email_changed'' (Some d) [] c) w)"
  by (simp_all add: run_after_recovery_verified_def run_after_password_reset_def run_after_email_changed_def run_simps)

text \<open>The columns a reset writes are there and are neither each other nor the key.\<close>

definition reset_columns :: "user_repo \<Rightarrow> bool" where
  "reset_columns R \<longleftrightarrow> has_col R ''hashed_password'' \<and> has_col R ''token_version''
     \<and> distinct [col R ''hashed_password'', col R ''token_version'', col R ''id'']"

definition reset_row :: "user_repo \<Rightarrow> string \<Rightarrow> int \<Rightarrow> row \<Rightarrow> row" where
  "reset_row R h n u = u(col R ''hashed_password'' \<mapsto> VStr h, col R ''token_version'' \<mapsto> VInt n)"

lemma reset_row_facts:
  assumes "reset_columns R"
  shows "stored_hash R (reset_row R h n u) = Some h" and "row_token_version R (reset_row R h n u) = n"
    and "pk R (reset_row R h n u) = pk R u"
  using assms by (auto simp: reset_columns_def reset_row_def stored_hash_def opt_str_def get_field_def row_token_version_def
      int_value_def pk_def)

lemma set_and_bump_run:
  assumes "user_row R uid d = Some u" and "reset_columns R" and "u (col R ''token_version'') = Some (VInt n)"
    and "m = bind (update_user R u [(''hashed_password'', VStr h)]) (increment_token_version R)" and "u' = reset_row R h (n + 1) u"
  shows "fst (m d) = Inr u'" and "user_row R uid (snd (m d)) = Some u'"
    and "v \<noteq> uid \<Longrightarrow> user_row R v (snd (m d)) = user_row R v d"
proof -
  define u1 where "u1 = u(col R ''hashed_password'' \<mapsto> VStr h)"
  have c: "has_col R ''hashed_password''" "has_col R ''token_version''" "col R ''token_version'' \<noteq> col R ''id''"
    "col R ''hashed_password'' \<noteq> col R ''id''" "col R ''hashed_password'' \<noteq> col R ''token_version''"
    using assms(2) by (auto simp: reset_columns_def)
  have one: "apply_fields R [(''hashed_password'', VStr h)] u = u1"
    using c(1) by (simp add: apply_fields_def set_field_def u1_def)
  note up = update_user_run [OF assms(1) pk_user_row [OF assms(1)], of "[(''hashed_password'', VStr h)]", unfolded one]
  have cols: "\<forall>(k, v) \<in> set [(''hashed_password'', VStr h)]. col R k \<noteq> col R ''id''" using c(4) by simp
  have n: "u1 (col R ''token_version'') = Some (VInt n)" using assms(3) c(5) by (simp add: u1_def)
  note inc = increment_run [OF up(2) [OF cols] pk_user_row [OF up(2) [OF cols]] c(2,3) n]
  have u': "u' = u1(col R ''token_version'' \<mapsto> VInt (n + 1))" by (simp add: assms(5) reset_row_def u1_def)
  show "fst (m d) = Inr u'" "user_row R uid (snd (m d)) = Some u'"
    using up(1) [OF cols] inc(1,2) by (simp_all add: assms(4) bind_run u')
  show "v \<noteq> uid \<Longrightarrow> user_row R v (snd (m d)) = user_row R v d"
    using up(1,3) [OF cols] inc(3) by (simp add: assms(4) bind_run)
qed

lemma in_db_bind:
  "bind (in_app (in_db a)) (\<lambda>x. bind (in_app (in_db (b x))) k) = bind (in_app (in_db (bind a b))) k"
  by (rule ext) (auto simp: bind_run in_app_run in_db_run split: sum.split)

text \<open>The end of a reset, once the link, the password and the single use have passed.\<close>

definition apply_reset :: "('b, 's, 'c, 'u) email_service \<Rightarrow> fresh \<Rightarrow> row \<Rightarrow> string \<Rightarrow> claims \<Rightarrow>
    ('b, 's, 'c, 'm, 'u, row \<times> string option) mail_prog" where
  "apply_reset E f user new_password payload =
     (let R = es_repo E; h = get_password_hash (es_crypto E) (fresh_salt f) new_password
      in bind (in_app (in_db (bind (update_user R user [(''hashed_password'', VStr h)]) (increment_token_version R)))) (\<lambda>user2.
         bind (case es_sessions E of
                 None \<Rightarrow> ret ()
               | Some M \<Rightarrow> bind (in_app (in_sessions (terminate_all_user_sessions M (now f) (pk R user2) None))) (\<lambda>_. ret ())) (\<lambda>_.
         bind (in_app (run_after_password_reset (es_hooks E) (to_dict R user2) no_context)) (\<lambda>_.
         ret (user2, redirect_from payload)))))"

lemma reset_stages:
  "reset_password E f token pw =
     bind (in_app (in_db (redeem_token E (now f) token RESET))) (\<lambda>(user, payload).
     bind (enforce_policy (es_crypto E) (es_policy E) pw (for_user (es_repo E) ''reset'' user) ''new_password'') (\<lambda>_.
     bind (in_mail (consume E (now f) token (reset_ttl_hours E * SECONDS_PER_HOUR))) (\<lambda>fresh_use.
     if \<not> fresh_use then raise TOKEN_USED else apply_reset E f user pw payload)))"
  unfolding reset_password_def apply_reset_def Let_def in_db_bind ..

lemma apply_reset_run:
  fixes w :: "('b, session_data mem_store, csrf_token mem_store, 'm) world" and m :: "'u mail_state"
  assumes "R = es_repo E" and "user_row R uid (db w) = Some u" and "reset_columns R" and "u (col R ''token_version'') = Some (VInt n)"
    and "es_sessions E = Some (mem_manager g cfg)" and "world_ok g cfg (sess w)" and "L = live_sessions g cfg (now f) (sess w)"
    and "u' = reset_row R (get_password_hash (es_crypto E) (fresh_salt f) pw) (n + 1) u"
  shows "\<exists>w'. apply_reset E f u pw payload (w, m) = (Inr (u', redirect_from payload), (w', m))
    \<and> user_row R uid (db w') = Some u' \<and> (\<forall>v. v \<noteq> uid \<longrightarrow> user_row R v (db w') = user_row R v (db w))
    \<and> live_sessions g cfg (now f) (sess w') = (\<lambda>k. if k \<in> owned sess_user uid L then None else L k)"
proof -
  define mm where "mm = bind (update_user R u [(''hashed_password'', VStr (get_password_hash (es_crypto E) (fresh_salt f) pw))]) (increment_token_version R)"
  note d = set_and_bump_run [OF assms(2-4) mm_def assms(8)]
  let ?w = "w\<lparr>db := snd (mm (db w))\<rparr>"
  have uid: "pk R u' = uid" using reset_row_facts(3) [OF assms(3)] pk_user_row [OF assms(2)] by (simp add: assms(8))
  define A where "A = {k \<in> owned sess_user uid L. \<forall>x. (None :: string option) = Some x \<longrightarrow> x \<noteq> [] \<longrightarrow> k \<noteq> session_key cfg x}"
  have A: "A = owned sess_user uid L" by (simp add: A_def)
  have rv: "fst (revoke_all (mem_manager g cfg) (now f) uid None (sess w)) = Inr (int (card A))"
    "live_sessions g cfg (now f) (snd (revoke_all (mem_manager g cfg) (now f) uid None (sess w))) = drop_keys A L"
    using sm.revoke_all_run [of g cfg "sess w" A uid "now f" None] assms(6,7) by (auto simp: A_def world_defs)
  let ?w' = "logged (es_hooks E) (hook_event_of ''on_after_password_reset'' (Some (to_dict R u')) [] no_context)
      (?w\<lparr>sess := snd (revoke_all (mem_manager g cfg) (now f) uid None (sess w))\<rparr>)"
  have "apply_reset E f u pw payload (w, m) = (Inr (u', redirect_from payload), (?w', m))"
    unfolding apply_reset_def Let_def assms(1) [symmetric] mm_def [symmetric]
    using d(1) rv(1) by (simp add: bind_run in_app_run in_db_run in_sessions_run ret_run mail_hooks assms(5) uid revoke_all_def)
  then show ?thesis using d(2,3) rv(2) by (auto simp: drop_keys_def A fun_eq_iff)
qed

lemma apply_reset_mail: "snd (snd (apply_reset E f u pw payload p)) = snd p"
  by (auto simp: apply_reset_def Let_def bind_run in_app_run ret_run split: sum.split option.split)

lemma in_app_db_run: "in_app (in_db a) (w, m) = (fst (a (db w)), (w\<lparr>db := snd (a (db w))\<rparr>, m))"
  by (simp add: in_app_run in_db_run)

definition policy_answer :: "('b, 's, 'c, 'u) email_service \<Rightarrow> string \<Rightarrow> row \<Rightarrow> exc + unit" where
  "policy_answer E pw u = fst (enforce_policy (es_crypto E) (es_policy E) pw (for_user (es_repo E) ''reset'' u) ''new_password'' ())"

lemma reset_run:
  "reset_password E f token pw (w, m) =
     (case fst (redeem_token E (now f) token RESET (db w)) of
        Inl e \<Rightarrow> (Inl e, (w, m))
      | Inr (u, payload) \<Rightarrow>
          (case policy_answer E pw u of
             Inl e \<Rightarrow> (Inl e, (w, m))
           | Inr _ \<Rightarrow>
               (let c = consume E (now f) token (reset_ttl_hours E * SECONDS_PER_HOUR) m
                in case fst c of
                     Inl e \<Rightarrow> (Inl e, (w, snd c))
                   | Inr fresh_use \<Rightarrow> if fresh_use then apply_reset E f u pw payload (w, snd c) else (Inl TOKEN_USED, (w, snd c)))))"
proof -
  have pure: "enforce_policy (es_crypto E) (es_policy E) pw (for_user (es_repo E) ''reset'' u) ''new_password'' p = (policy_answer E pw u, p)"
    for u and p :: "('a, 'b, 'c, 'd) world \<times> 'e mail_state"
    unfolding policy_answer_def by (rule enforce_policy_pure)
  show ?thesis
    unfolding reset_stages
    by (auto simp: bind_run in_app_db_run redeem_keeps pure in_mail_run raise_run Let_def split: sum.split)
qed

context token_keeper
begin

lemma reset_replay:
  assumes "ok (used m)" and "token_store E = Some st" and "0 \<le> reset_ttl_hours E" and "jwt_decodes (es_jwt E)"
    and "token = mint_token E t0 RESET u0 (reset_ttl_hours E) cs" and "set (map fst cs) \<inter> reserved_claims = {}" and "t0 \<le> now f"
    and "fst (reset_password E f token pw (w, m)) = Inr x" and "used m' = used (snd (snd (reset_password E f token pw (w, m))))"
    and "now f \<le> now f'"
  shows "\<exists>e n. reset_password E f' token pw' (w', m') = (Inl e, (w', n))"
proof (cases "end_of t0 (reset_ttl_hours E * 3600) \<le> now f'")
  case True
  then show ?thesis using redeem_late [OF assms(4-6)] by (simp add: reset_run)
next
  case False
  let ?ttl = "reset_ttl_hours E * SECONDS_PER_HOUR"
  have c: "fst (consume E (now f) token ?ttl m) = Inr True" "used m' = used (snd (consume E (now f) token ?ttl m))"
    using assms(8,9) by (auto simp: reset_run apply_reset_mail Let_def split: sum.splits if_splits)
  have ttl: "0 \<le> ?ttl" using assms(3) by (simp add: SECONDS_PER_HOUR_def)
  have "now f' \<le> now f + ?ttl * usec"
    using False end_of_le [of t0 "reset_ttl_hours E * 3600"] assms(7) by (simp add: SECONDS_PER_HOUR_def)
  then have "fst (consume E (now f') token ?ttl m') = Inr False"
    using consume_again [OF assms(1,2) ttl refl c(1,2) assms(10)] by simp
  then show ?thesis by (auto simp: reset_run Let_def split: sum.split)
qed

end

lemma verify_new_hash: "bcrypt_verifies L \<Longrightarrow> verify_password L p (Some (get_password_hash L salt p))"
  by (simp add: verify_password_def matching_form_def get_password_hash_def normalize_password_def check_pw_hash Let_def)

text \<open>
  C5. A reset link. Within its lifetime and while the account is active and in the state the link
  was made for, and only then, it is let through; a password that fails the policy does not use it
  up. Used, it sets the new password, raises the account's version by one and ends every session
  of the account and of nobody else, and no other account changes. The link is then spent for
  good: at no later time, from no state of the application, does it set a password again. Every
  other link made for the old state is void as soon as the digest of the new state differs.
\<close>

theorem reset_link_works_once:
  fixes w :: "('b, session_data mem_store, csrf_token mem_store, 'm) world" and m :: "used_token mem_store mail_state"
  assumes "jwt_decodes (es_jwt E)" and "bcrypt_verifies (es_crypto E)" and "R = es_repo E" and "subject_finds R uid"
    and "user_row R uid (db w) = Some u" and "pk R u0 = uid" and "reset_columns R" and "u (col R ''token_version'') = Some (VInt n)"
    and "token = mint_token E t0 RESET u0 (reset_ttl_hours E) (redirect_claim to)" and "0 \<le> reset_ttl_hours E" and "t0 \<le> now f"
    and "token_store E = Some (mem_storage ts)" and "store_ok ts (used m)"
    and "es_sessions E = Some (mem_manager g cfg)" and "world_ok g cfg (sess w)" and "L = live_sessions g cfg (now f) (sess w)"
    and "out = reset_password E f token pw (w, m)"
    and "valid \<longleftrightarrow> now f < end_of t0 (reset_ttl_hours E * 3600) \<and> is_active R u
           \<and> state_fingerprint E RESET u0 = state_fingerprint E RESET u"
  shows "(\<not> valid \<longrightarrow> out = (Inl INVALID_TOKEN, (w, m)))
    \<and> (\<forall>e. valid \<longrightarrow> policy_answer E pw u = Inl e \<longrightarrow> out = (Inl e, (w, m)))
    \<and> (valid \<longrightarrow> policy_answer E pw u = Inr () \<longrightarrow>
         (if store_view ts (now f) (used m) (sha256_hex token) \<noteq> None then fst out = Inl TOKEN_USED \<and> fst (snd out) = w
          else \<exists>u' w' m'. out = (Inr (u', honored to), (w', m')) \<and> user_row R uid (db w') = Some u'
            \<and> verify_password (es_crypto E) pw (stored_hash R u') \<and> row_token_version R u' = n + 1
            \<and> (\<forall>v. v \<noteq> uid \<longrightarrow> user_row R v (db w') = user_row R v (db w))
            \<and> live_sessions g cfg (now f) (sess w') = (\<lambda>k. if k \<in> owned sess_user uid L then None else L k)
            \<and> (\<forall>f' pw' w'' m''. now f \<le> now f' \<longrightarrow> used m'' = used m' \<longrightarrow>
                 (\<exists>e k. reset_password E f' token pw' (w'', m'') = (Inl e, (w'', k))))
            \<and> (\<forall>t t1 to'. state_fingerprint E RESET u' \<noteq> state_fingerprint E RESET u0 \<longrightarrow>
                 redeem_token E t (mint_token E t1 RESET u0 (reset_ttl_hours E) (redirect_claim to')) RESET (db w') = (Inl INVALID_TOKEN, db w'))))"
proof -
  note claims = redirect_claim_reserved(1,2)
  let ?ttl = "reset_ttl_hours E * SECONDS_PER_HOUR"
  have ttl: "0 \<le> ?ttl" using assms(10) by (simp add: SECONDS_PER_HOUR_def)
  obtain payload where p: "redeem_token E (now f) token RESET (db w) = (if valid then Inr (u, payload) else Inl INVALID_TOKEN, db w)"
    "redirect_from payload = honored to"
    using redeem_run [OF assms(1,3) _ _ claims assms(9), of "db w" u "now f"] assms(4-6,18) redirect_carried [of "redirect_claim to" _ to "[]"]
    by auto
  note run = reset_run [of E f token pw w m, folded assms(17), unfolded p(1)]
  note cons = used_tokens.consume_run [OF assms(13,12) ttl, where t = "now f" and token = token]
  define u' where "u' = reset_row R (get_password_hash (es_crypto E) (fresh_salt f) pw) (n + 1) u"
  have good: "\<exists>w' m'. out = (Inr (u', honored to), (w', m')) \<and> user_row R uid (db w') = Some u'
            \<and> (\<forall>v. v \<noteq> uid \<longrightarrow> user_row R v (db w') = user_row R v (db w))
            \<and> live_sessions g cfg (now f) (sess w') = (\<lambda>k. if k \<in> owned sess_user uid L then None else L k)"
    if "valid" "policy_answer E pw u = Inr ()" "store_view ts (now f) (used m) (sha256_hex token) = None"
    using apply_reset_run [OF assms(3,5,7,8,14,15,16) u'_def, of payload "snd (consume E (now f) token ?ttl m)"] that cons(1) p(2)
    by (auto simp: run Let_def)
  have spent: "\<exists>e k. reset_password E f' token pw' (w'', m'') = (Inl e, (w'', k))"
    if "out = (Inr x, (w', m'))" "now f \<le> now f'" "used m'' = used m'" for x w' m' f' pw' w'' m''
    using used_tokens.reset_replay [OF assms(13,12,10,1,9) claims(1) assms(11), of pw w x m'' f'] that unfolding assms(17) by simp
  have void: "redeem_token E t (mint_token E t1 RESET u0 (reset_ttl_hours E) (redirect_claim to')) RESET d = (Inl INVALID_TOKEN, d)"
    if "user_row R uid d = Some u'" "state_fingerprint E RESET u' \<noteq> state_fingerprint E RESET u0" for t t1 to' d
    using redeem_run [OF assms(1,3) _ _ claims refl, of u0 d u' t t1 RESET "reset_ttl_hours E" to'] that assms(4,6) by auto
  have verified: "verify_password (es_crypto E) pw (stored_hash R u')" "row_token_version R u' = n + 1"
    using assms(2) by (simp_all add: u'_def reset_row_facts [OF assms(7)] verify_new_hash)
  have success: "\<exists>u' w' m'. out = (Inr (u', honored to), (w', m')) \<and> user_row R uid (db w') = Some u'
            \<and> verify_password (es_crypto E) pw (stored_hash R u') \<and> row_token_version R u' = n + 1
            \<and> (\<forall>v. v \<noteq> uid \<longrightarrow> user_row R v (db w') = user_row R v (db w))
            \<and> live_sessions g cfg (now f) (sess w') = (\<lambda>k. if k \<in> owned sess_user uid L then None else L k)
            \<and> (\<forall>f' pw' w'' m''. now f \<le> now f' \<longrightarrow> used m'' = used m' \<longrightarrow>
                 (\<exists>e k. reset_password E f' token pw' (w'', m'') = (Inl e, (w'', k))))
            \<and> (\<forall>t t1 to'. state_fingerprint E RESET u' \<noteq> state_fingerprint E RESET u0 \<longrightarrow>
                 redeem_token E t (mint_token E t1 RESET u0 (reset_ttl_hours E) (redirect_claim to')) RESET (db w') = (Inl INVALID_TOKEN, db w'))"
    if passed: "valid" "policy_answer E pw u = Inr ()" "store_view ts (now f) (used m) (sha256_hex token) = None"
  proof -
    obtain w' m' where o': "out = (Inr (u', honored to), (w', m'))" "user_row R uid (db w') = Some u'"
      "\<forall>v. v \<noteq> uid \<longrightarrow> user_row R v (db w') = user_row R v (db w)"
      "live_sessions g cfg (now f) (sess w') = (\<lambda>k. if k \<in> owned sess_user uid L then None else L k)"
      using good [OF passed] by blast
    show ?thesis
      using o' verified spent [OF o'(1)] void [OF o'(2)] by (intro exI [of _ u'] exI [of _ w'] exI [of _ m']) (simp, blast)
  qed
  have "out = (Inl INVALID_TOKEN, (w, m))" if "\<not> valid" using that by (simp add: run)
  moreover have "out = (Inl e, (w, m))" if "valid" "policy_answer E pw u = Inl e" for e using that by (simp add: run)
  moreover have "fst out = Inl TOKEN_USED \<and> fst (snd out) = w"
    if "valid" "policy_answer E pw u = Inr ()" "store_view ts (now f) (used m) (sha256_hex token) \<noteq> None"
    using that cons(1) by (auto simp: run Let_def)
  ultimately show ?thesis using success by (simp only: if_split) blast
qed

definition demo_tokens :: "used_token mem_store_config" where
  "demo_tokens = \<lparr>prefix = ''used:'', expiration = 86400, generate_session_id = ''x'', payload_user_id = (\<lambda>_. None)\<rparr>"

definition demo_mail :: "used_token mem_store mail_state" where
  "demo_mail = \<lparr>used = mem_store_init, outbox = []\<rparr>"

definition mail_repo :: user_repo where
  "mail_repo = demo_repo\<lparr>columns := [''id'', ''email'', ''hashed_password'', ''email_verified'', ''token_version'']\<rparr>"

definition demo_email :: "(mem_limiter, session_data mem_store, csrf_token mem_store, used_token mem_store) email_service" where
  "demo_email = \<lparr>es_repo = mail_repo, es_policy = demo_policy, es_secret = ''k'', es_hooks = (\<lambda>_. None), es_algorithm = ''HS256'',
     token_store = Some (mem_storage demo_tokens), es_sessions = Some (mem_manager ''g'' default_options),
     es_limiter = Some mem_backend, es_limits = DEFAULT_RATE_LIMITS, channels = [OtherChannel True (\<lambda>_ _. Inr ())],
     verify_ttl_hours = 24, reset_ttl_hours = 1, change_ttl_hours = 24, es_crypto = demo_crypto, es_jwt = demo_jwt,
     es_unique = (\<lambda>_. True)\<rparr>"

lemma demo_email_sel:
  "es_repo demo_email = mail_repo" "es_jwt demo_email = demo_jwt" "es_crypto demo_email = demo_crypto"
  "reset_ttl_hours demo_email = 1" "token_store demo_email = Some (mem_storage demo_tokens)"
  "es_sessions demo_email = Some (mem_manager ''g'' default_options)"
  by (simp_all add: demo_email_def)

lemma mail_row_facts:
  "pk mail_repo (text_id_row v) = VStr ''7''" "row_token_version mail_repo (text_id_row v) = v"
  "is_active mail_repo (text_id_row v)" "subject_finds mail_repo (VStr ''7'')"
  "user_row mail_repo (VStr ''7'') \<lparr>rows = [text_id_row v]\<rparr> = Some (text_id_row v)"
  "reset_columns mail_repo" "text_id_row v (col mail_repo ''token_version'') = Some (VInt v)"
  by (simp_all add: text_id_row_def demo_row_def pk_def get_field_def col_def demo_repo_def mail_repo_def row_token_version_def int_value_def
      is_active_def has_col_def subject_finds_def coerce_id_def user_row_def reset_columns_def)

theorem reset_link_works_once_witness:
  "\<exists>u' w' m'. reset_password demo_email demo_fresh (mint_token demo_email 0 RESET (text_id_row 1) 1 []) ''long''
      (demo_app [text_id_row 1], demo_mail) = (Inr (u', None), (w', m'))
    \<and> verify_password demo_crypto ''long'' (stored_hash mail_repo u') \<and> row_token_version mail_repo u' = 2"
proof -
  have p: "policy_answer demo_email ''long'' (text_id_row 1) = Inr ()"
    by (simp add: policy_answer_def demo_email_def enforce_policy_def check_policy_def rule_errors_def requirements_def demo_policy_def
        demo_crypto_def normalize_password_def ret_run)
  have n: "redirect_claim None = []" "honored None = None" by (simp_all add: redirect_claim_def honored_def)
  note th = reset_link_works_once [where E = demo_email and uid = "VStr ''7''" and w = "demo_app [text_id_row 1]" and to = None
      and u = "text_id_row 1" and ?u0.0 = "text_id_row 1" and n = 1 and ?t0.0 = 0 and f = demo_fresh and m = demo_mail and pw = "''long''" and ts = demo_tokens and g = "''g''" and cfg = default_options,
      OF _ _ refl _ _ _ _ _ refl _ _ _ _ _ _ refl refl refl]
  have e: "now demo_fresh = 0" "store_ok demo_tokens (used demo_mail)" "store_view demo_tokens t (used demo_mail) = Map.empty"
    "0 < end_of 0 3600" for t by (simp_all add: demo_fresh_def demo_mail_def end_of_def usec_def)
  show ?thesis using th p by (auto simp: demo_email_sel n demo_jwt_decodes demo_bcrypt mail_row_facts e)
qed

end
