(* ===== verification/EmailRequests.thy ===== *)
theory EmailRequests
  imports EmailLaws
begin

text \<open>
  What a recovery request gives away, and the change of an email address from its request to its
  confirmation.
\<close>

section \<open>Requests\<close>

definition account_of :: "user_repo \<Rightarrow> string \<Rightarrow> string \<Rightarrow> row list \<Rightarrow> row option" where
  "account_of R factor v rs = (case filter (\<lambda>r. r (col R factor) = Some (login_value factor v)) rs of [] \<Rightarrow> None | r # _ \<Rightarrow> Some r)"

lemma within_limit_answers: "\<exists>b. fst (email_within_limit E t action (VStr e) l) = Inr b"
  by (auto simp: email_within_limit_def increment_and_check_def Let_def run_simps split: option.split sum.split prod.split)

definition allowed :: "('b, 's, 'c, 'u) email_service \<Rightarrow> int \<Rightarrow> string \<Rightarrow> string \<Rightarrow> 'b \<Rightarrow> bool" where
  "allowed E t action e l \<longleftrightarrow> fst (email_within_limit E t action (VStr e) l) = Inr True"

definition counted :: "('b, 's, 'c, 'u) email_service \<Rightarrow> int \<Rightarrow> string \<Rightarrow> string \<Rightarrow> ('b, 's, 'c, 'm) world \<Rightarrow> ('b, 's, 'c, 'm) world" where
  "counted E t action e w = w\<lparr>limiter := snd (email_within_limit E t action (VStr e) (limiter w))\<rparr>"

lemma counted_sel [simp]: "db (counted E t action e w) = db w" "sess (counted E t action e w) = sess w"
  by (simp_all add: counted_def)

lemma within_limit_run: "within_limit E f action (VStr e) (w, m) = (Inr (allowed E (now f) action e (limiter w)), (counted E (now f) action e w, m))"
  using within_limit_answers [of E "now f" action e "limiter w"]
  by (auto simp: within_limit_def in_app_run in_lim_run allowed_def counted_def)

definition reset_intent :: "('b, 's, 'c, 'u) email_service \<Rightarrow> int \<Rightarrow> string \<Rightarrow> string option \<Rightarrow> row \<Rightarrow> delivery_intent" where
  "reset_intent E t factor to u =
     \<lparr>kind = ''reset_password'', intent_token = Some (mint_token E t RESET u (reset_ttl_hours E) (redirect_claim to)),
      intent_user = to_dict (es_repo E) u, recipient = get_field (es_repo E) u factor VNone,
      expires_in = reset_ttl_hours E * SECONDS_PER_HOUR\<rparr>"

definition verify_intent :: "('b, 's, 'c, 'u) email_service \<Rightarrow> int \<Rightarrow> string \<Rightarrow> string option \<Rightarrow> row \<Rightarrow> delivery_intent" where
  "verify_intent E t factor to u =
     \<lparr>kind = (if factor = ''email'' then ''verify_email'' else ''verify_recovery''),
      intent_token = Some (mint_token E t VERIFY u (verify_ttl_hours E) (redirect_claim to)),
      intent_user = to_dict (es_repo E) u, recipient = get_field (es_repo E) u factor VNone,
      expires_in = verify_ttl_hours E * SECONDS_PER_HOUR\<rparr>"

text \<open>
  C38. Requests reveal nothing. Asking for a reset or for a verification always succeeds, and what
  it leaves of the application is the same for every user table: the throttle of the submitted
  value counted once, nothing else. Whether there is an active account shows only in what is sent:
  every channel is handed one message with a link for that very account, addressed to the value
  the account itself has on record.
\<close>

theorem requests_reveal_nothing:
  fixes w :: "('b, 's, 'c, 'm) world"
  assumes "R = es_repo E" and "recovery R = Some factor" and "has_col R factor" and "unique_in (col R factor) (rows (db w))"
    and "acc = account_of R factor v (rows (db w))"
  shows "request_password_reset E f (VStr v) to (w, m) = (Inr (), (counted E (now f) RESET_ACTION v w, m\<lparr>outbox := outbox m @
        (case acc of
           Some u \<Rightarrow> if allowed E (now f) RESET_ACTION v (limiter w) \<and> is_active R u then deliveries E (reset_intent E (now f) factor to u) else []
         | None \<Rightarrow> [])\<rparr>))
    \<and> request_recovery_verification E f (VStr v) to (w, m) = (Inr (), (counted E (now f) VERIFY_ACTION v w, m\<lparr>outbox := outbox m @
        (case acc of
           Some u \<Rightarrow> if allowed E (now f) VERIFY_ACTION v (limiter w) \<and> is_active R u \<and> \<not> recovery_verified R u
                     then deliveries E (verify_intent E (now f) factor to u) else []
         | None \<Rightarrow> [])\<rparr>))
    \<and> (\<forall>u x. acc = Some u \<longrightarrow> x \<in> set (deliveries E (reset_intent E (now f) factor to u)) \<union> set (deliveries E (verify_intent E (now f) factor to u)) \<longrightarrow>
         addressed (login_value factor v) x)"
proof -
  have find: "get_by_field R factor (VStr v) (db w) = (Inr acc, db w)"
    using get_by_field_run [OF assms(3,4), of v] by (simp add: assms(5) account_of_def)
  have own: "get_field R u factor VNone = login_value factor v" if "acc = Some u" for u
  proof -
    have "u \<in> set (filter (\<lambda>r. r (col R factor) = Some (login_value factor v)) (rows (db w)))"
      using that by (auto simp: assms(5) account_of_def simp del: set_filter split: list.splits)
    then show ?thesis by (simp add: get_field_def)
  qed
  have reset: "request_password_reset E f (VStr v) to (w, m) = (Inr (), (counted E (now f) RESET_ACTION v w, m\<lparr>outbox := outbox m @
        (case acc of
           Some u \<Rightarrow> if allowed E (now f) RESET_ACTION v (limiter w) \<and> is_active R u then deliveries E (reset_intent E (now f) factor to u) else []
         | None \<Rightarrow> [])\<rparr>))"
    by (auto simp: request_password_reset_def Let_def assms(1) [symmetric] assms(2) bind_run within_limit_run in_app_db_run find
        ret_run deliver_with_db_run reset_intent_def split: option.split)
  have verify: "request_recovery_verification E f (VStr v) to (w, m) = (Inr (), (counted E (now f) VERIFY_ACTION v w, m\<lparr>outbox := outbox m @
        (case acc of
           Some u \<Rightarrow> if allowed E (now f) VERIFY_ACTION v (limiter w) \<and> is_active R u \<and> \<not> recovery_verified R u
                     then deliveries E (verify_intent E (now f) factor to u) else []
         | None \<Rightarrow> [])\<rparr>))"
    by (auto simp: request_recovery_verification_def Let_def assms(1) [symmetric] assms(2) bind_run within_limit_run in_app_db_run find
        ret_run deliver_with_db_run verify_intent_def split: option.split)
  have "addressed (login_value factor v) x"
    if "acc = Some u" "x \<in> set (deliveries E (reset_intent E (now f) factor to u)) \<union> set (deliveries E (verify_intent E (now f) factor to u))" for u x
    using that(2) own [OF that(1)] deliveries_addressed [of x E "reset_intent E (now f) factor to u"]
      deliveries_addressed [of x E "verify_intent E (now f) factor to u"]
    by (auto simp: reset_intent_def verify_intent_def assms(1))
  with reset verify show ?thesis by blast
qed

theorem requests_reveal_nothing_witness:
  "\<exists>w' m'. request_password_reset demo_email demo_fresh (VStr ''x'') None (demo_app [text_id_row 1], demo_mail) = (Inr (), (w', m'))
     \<and> db w' = \<lparr>rows = [text_id_row 1]\<rparr> \<and> outbox m' = []"
proof -
  have u: "recovery mail_repo = Some ''email''" "has_col mail_repo ''email''" "unique_in (col mail_repo ''email'') [text_id_row 1]"
    by (simp_all add: mail_repo_def demo_repo_def has_col_def col_def unique_in_def)
  have n: "account_of mail_repo ''email'' ''x'' [text_id_row 1] = None"
    by (simp add: account_of_def login_value_def text_id_row_def demo_row_def mail_repo_def demo_repo_def col_def
        strip_def lower_def lower_char_def is_space_def)
  show ?thesis
    using requests_reveal_nothing [of mail_repo demo_email "''email''" "demo_app [text_id_row 1]" None "''x''" demo_fresh None demo_mail] u n
    by (simp add: demo_email_sel demo_mail_def)
qed

section \<open>Changing the address\<close>

definition change_claims :: "string \<Rightarrow> string option \<Rightarrow> claims" where
  "change_claims e to = (''new_email'', VStr e) # redirect_claim to"

lemma change_claims_reserved: "set (map fst (change_claims e to)) \<inter> reserved_claims = {}" "distinct (map fst (change_claims e to))"
  using redirect_claim_reserved [of to] by (auto simp: change_claims_def STATE_CLAIM_def REDIRECT_CLAIM_def)

definition email_columns :: "user_repo \<Rightarrow> bool" where
  "email_columns R \<longleftrightarrow> has_col R ''email'' \<and> has_col R ''email_verified''
     \<and> distinct [col R ''email'', col R ''email_verified'', col R ''id'']"

definition changed_row :: "user_repo \<Rightarrow> string \<Rightarrow> row \<Rightarrow> row" where
  "changed_row R e u = u(col R ''email'' \<mapsto> VStr (canon e), col R ''email_verified'' \<mapsto> VBool True)"

lemma commit_update_run:
  assumes "user_row R uid d = Some u" and "R = es_repo E" and "email_columns R"
    and "d' = snd (update_user R u [(''email'', VStr e), (''email_verified'', VBool True)] d)"
  shows "commit_update E u [(''email'', VStr e), (''email_verified'', VBool True)] x d
      = (if es_unique E (rows d') then (Inr (changed_row R e u), d') else (Inl x, d))"
    and "user_row R uid d' = Some (changed_row R e u)" and "v \<noteq> uid \<Longrightarrow> user_row R v d' = user_row R v d"
proof -
  let ?ch = "[(''email'', VStr e), (''email_verified'', VBool True)]"
  have cols: "\<forall>(k, v) \<in> set ?ch. col R k \<noteq> col R ''id''" using assms(3) by (auto simp: email_columns_def)
  have row: "apply_fields R ?ch u = changed_row R e u"
    using assms(3) by (simp add: apply_fields_def set_field_def changed_row_def email_columns_def)
  note up = update_user_run [OF assms(1) pk_user_row [OF assms(1)] cols, unfolded row]
  show "commit_update E u ?ch x d = (if es_unique E (rows d') then (Inr (changed_row R e u), d') else (Inl x, d))"
    using up(1) by (simp add: commit_update_def run_simps assms(2) [symmetric] assms(4))
  show "user_row R uid d' = Some (changed_row R e u)" "v \<noteq> uid \<Longrightarrow> user_row R v d' = user_row R v d"
    using up(2,3) by (simp_all add: assms(4))
qed

definition changed_notice :: "user_repo \<Rightarrow> pyval \<Rightarrow> row \<Rightarrow> delivery_intent" where
  "changed_notice R old u = \<lparr>kind = ''email_changed'', intent_token = None, intent_user = to_dict R u, recipient = old, expires_in = 0\<rparr>"

abbreviation email_taken :: exc where
  "email_taken \<equiv> DuplicateValueException ''Email already in use''"

lemma confirm_change_run:
  assumes "R = es_repo E" and "redeem_token E (now f) token CHANGE (db w) = (Inr (u, payload), db w)"
    and "claim_get payload ''new_email'' = VStr e" and "canon e = e" and "e \<noteq> []" and "has_col R ''email''"
    and "unique_in (col R ''email'') (rows (db w))" and "c = consume E (now f) token (change_ttl_hours E * SECONDS_PER_HOUR) m"
    and "fst c = Inr b" and "old = get_field R u ''email'' VNone"
    and "commit_update E u [(''email'', VStr e), (''email_verified'', VBool True)] email_taken (db w) = (if q then (Inr u', d') else (Inl email_taken, db w))"
  shows "confirm_email_change E f token (w, m) =
      (if account_of R ''email'' e (rows (db w)) \<noteq> None then (Inl email_taken, (w, m))
       else if \<not> b then (Inl TOKEN_USED, (w, snd c))
       else if \<not> q then (Inl email_taken, (w, snd c))
       else (Inr (u', redirect_from payload),
             (logged (es_hooks E) (hook_event_of ''on_after_email_changed'' (Some (to_dict R u')) [] no_context) (w\<lparr>db := d'\<rparr>),
              (snd c)\<lparr>outbox := outbox (snd c) @ (if truthy old then deliveries E (changed_notice R old u') else [])\<rparr>)))"
proof -
  have find: "get_by_email R e (db w) = (Inr (account_of R ''email'' e (rows (db w))), db w)"
    using get_by_field_run [OF assms(6,7), of e] by (simp add: get_by_email_def account_of_def)
  show ?thesis
    using assms(9,11)
    by (simp add: confirm_email_change_def Let_def assms(1) [symmetric] bind_run in_db_run assms(2,3) opt_str_def canonical_email_def
        assms(4,5) find in_mail_run assms(8) [symmetric] raise_run ret_run deliver_with_db_run mail_hooks in_app_run
        assms(10) [symmetric] changed_notice_def)
qed

lemma request_change_sends:
  assumes "R = es_repo E" and "has_col R ''email''" and "unique_in (col R ''email'') (rows (db w))"
    and "i = \<lparr>kind = ''change_email'', intent_token = Some (mint_token E (now f) CHANGE u (change_ttl_hours E) (change_claims (canon new) to)),
              intent_user = to_dict R u, recipient = VStr (canon new), expires_in = change_ttl_hours E * SECONDS_PER_HOUR\<rparr>"
  shows "\<exists>sent. outbox (snd (snd (request_email_change E f u new pw to (w, m)))) = outbox m @ sent
    \<and> (sent \<noteq> [] \<longrightarrow> sent = deliveries E i \<and> verify_password (es_crypto E) pw (stored_hash R u)
         \<and> account_of R ''email'' (canon new) (rows (db w)) = None)"
proof -
  have find: "get_by_email R (canon new) (db w) = (Inr (account_of R ''email'' (canon new) (rows (db w))), db w)"
    using get_by_field_run [OF assms(2,3), of "canon new"] by (simp add: get_by_email_def account_of_def)
  show ?thesis
    using find by (auto simp: request_email_change_def Let_def assms(1) [symmetric] bind_run in_app_run in_db_run within_limit_run
        raise_run ret_run deliver_with_db_run stored_hash_def assms(4) change_claims_def split: option.split)
qed

lemma request_change_addressed:
  assumes "R = es_repo E" and "has_col R ''email''" and "unique_in (col R ''email'') (rows (db w))"
  shows "\<exists>sent. outbox (snd (snd (request_email_change E f u new pw to (w, m)))) = outbox m @ sent
         \<and> (sent \<noteq> [] \<longrightarrow> verify_password (es_crypto E) pw (stored_hash R u) \<and> account_of R ''email'' (canon new) (rows (db w)) = None)
         \<and> (\<forall>x \<in> set sent. addressed (VStr (canon new)) x \<and> (\<exists>ch \<in> set (channels E). \<exists>i. sends_email ch \<and> x \<in> set (dispatched i ch)))"
proof -
  define i where "i = \<lparr>kind = ''change_email'', intent_token = Some (mint_token E (now f) CHANGE u (change_ttl_hours E) (change_claims (canon new) to)),
      intent_user = to_dict R u, recipient = VStr (canon new), expires_in = change_ttl_hours E * SECONDS_PER_HOUR\<rparr>"
  obtain sent where s: "outbox (snd (snd (request_email_change E f u new pw to (w, m)))) = outbox m @ sent"
    "sent \<noteq> [] \<longrightarrow> sent = deliveries E i \<and> verify_password (es_crypto E) pw (stored_hash R u)
       \<and> account_of R ''email'' (canon new) (rows (db w)) = None"
    using request_change_sends [OF assms i_def, of pw m] by blast
  have i: "kind i = ''change_email''" "recipient i = VStr (canon new)" by (simp_all add: i_def)
  have "addressed (VStr (canon new)) x \<and> (\<exists>ch \<in> set (channels E). \<exists>i. sends_email ch \<and> x \<in> set (dispatched i ch))" if "x \<in> set sent" for x
  proof -
    have x: "x \<in> set (deliveries E i)" using that s(2) by auto
    then show ?thesis using deliveries_addressed [OF x] deliveries_only_email [OF i(1), of E] i(2) by auto
  qed
  with s show ?thesis by blast
qed

text \<open>
  Changing the email address. A request sends its link to the new address only, through
  channels that send email, and only after the account's password and for an address that is
  free. Within its lifetime and in the state it was made for, the link gives the account the new
  address, verified, and tells the old address; no other account changes. An address taken in the
  meantime refuses the link without using it up, a used link is refused, and a commit that the
  unique constraints refuse leaves the table as it was.
\<close>

theorem email_change_outcomes:
  fixes w :: "('b, 's, 'c, 'm) world" and m :: "used_token mem_store mail_state"
  assumes "jwt_decodes (es_jwt E)" and "R = es_repo E" and "subject_finds R uid" and "user_row R uid (db w) = Some u"
    and "pk R u0 = uid" and "email_columns R" and "unique_in (col R ''email'') (rows (db w))"
    and "token = mint_token E t0 CHANGE u0 (change_ttl_hours E) (change_claims e to)" and "canon e = e" and "e \<noteq> []"
    and "token_store E = Some (mem_storage ts)" and "store_ok ts (used m)" and "0 \<le> change_ttl_hours E"
    and "out = confirm_email_change E f token (w, m)" and "old = get_field R u ''email'' VNone"
    and "valid \<longleftrightarrow> now f < end_of t0 (change_ttl_hours E * 3600) \<and> is_active R u \<and> state_fingerprint E CHANGE u0 = state_fingerprint E CHANGE u"
    and "taken \<longleftrightarrow> account_of R ''email'' e (rows (db w)) \<noteq> None" and "spent \<longleftrightarrow> store_view ts (now f) (used m) (sha256_hex token) \<noteq> None"
  shows "(\<not> valid \<longrightarrow> out = (Inl INVALID_TOKEN, (w, m))) \<and> (valid \<and> taken \<longrightarrow> out = (Inl email_taken, (w, m)))
    \<and> (valid \<and> \<not> taken \<and> spent \<longrightarrow> fst out = Inl TOKEN_USED \<and> fst (snd out) = w)
    \<and> (valid \<and> \<not> taken \<and> \<not> spent \<longrightarrow>
         fst out = Inl email_taken \<and> fst (snd out) = w \<and> (\<exists>d. user_row R uid d = Some (changed_row R e u) \<and> \<not> es_unique E (rows d))
         \<or> (\<exists>u' w' m'. out = (Inr (u', honored to), (w', m')) \<and> user_row R uid (db w') = Some u' \<and> es_unique E (rows (db w'))
              \<and> get_field R u' ''email'' VNone = VStr e \<and> email_verified R u'
              \<and> (\<forall>v. v \<noteq> uid \<longrightarrow> user_row R v (db w') = user_row R v (db w))
              \<and> outbox m' = outbox m @ (if truthy old then deliveries E (changed_notice R old u') else [])
              \<and> store_view ts (now f) (used m') (sha256_hex token) \<noteq> None))
    \<and> (\<forall>new pw. \<exists>sent. outbox (snd (snd (request_email_change E f u new pw to (w, m)))) = outbox m @ sent
         \<and> (sent \<noteq> [] \<longrightarrow> verify_password (es_crypto E) pw (stored_hash R u) \<and> account_of R ''email'' (canon new) (rows (db w)) = None)
         \<and> (\<forall>x \<in> set sent. addressed (VStr (canon new)) x \<and> (\<exists>ch \<in> set (channels E). \<exists>i. sends_email ch \<and> x \<in> set (dispatched i ch))))"
proof -
  let ?ttl = "change_ttl_hours E * SECONDS_PER_HOUR"
  have ttl: "0 \<le> ?ttl" using assms(13) by (simp add: SECONDS_PER_HOUR_def)
  have has: "has_col R ''email''" using assms(6) by (simp add: email_columns_def)
  obtain payload where p: "redeem_token E (now f) token CHANGE (db w) = (if valid then Inr (u, payload) else Inl INVALID_TOKEN, db w)"
    "claim_get payload ''new_email'' = VStr e" "redirect_from payload = honored to"
    using redeem_run [OF assms(1,2) _ _ change_claims_reserved assms(8), of "db w" u "now f"] assms(3-5,16)
      redirect_carried [of "change_claims e to" _ to "[(''new_email'', VStr e)]"]
    by (auto simp: change_claims_def REDIRECT_CLAIM_def)
  note cons = used_tokens.consume_run [OF assms(12,11) ttl, where t = "now f" and token = token]
  define u' where "u' = changed_row R e u"
  define d' where "d' = snd (update_user R u [(''email'', VStr e), (''email_verified'', VBool True)] (db w))"
  note cu = commit_update_run [OF assms(4,2,6) d'_def, folded u'_def]
  note run = confirm_change_run [OF assms(2) _ p(2) assms(9,10) has assms(7) refl cons(1) assms(15) cu(1), folded assms(14)]
  have row: "get_field R u' ''email'' VNone = VStr e" "email_verified R u'"
    using assms(6,9) by (simp_all add: u'_def changed_row_def get_field_def email_verified_def email_columns_def)
  have refused: "out = (Inl INVALID_TOKEN, (w, m))" if "\<not> valid"
    using that p(1) by (simp add: assms(14) confirm_email_change_def Let_def bind_run in_app_run in_db_run)
  have done': "out = (if taken then (Inl email_taken, (w, m)) else if spent then (Inl TOKEN_USED, (w, snd (consume E (now f) token ?ttl m)))
       else if \<not> es_unique E (rows d') then (Inl email_taken, (w, snd (consume E (now f) token ?ttl m)))
       else (Inr (u', honored to),
             (logged (es_hooks E) (hook_event_of ''on_after_email_changed'' (Some (to_dict R u')) [] no_context) (w\<lparr>db := d'\<rparr>),
              (snd (consume E (now f) token ?ttl m))\<lparr>outbox := outbox m @ (if truthy old then deliveries E (changed_notice R old u') else [])\<rparr>)))" if "valid"
    using run that p(1,3) cons(3) by (simp add: assms(17,18))
  note sends = request_change_addressed [OF assms(2) has assms(7)]
  have kept: "store_view ts (now f) (used (snd (consume E (now f) token ?ttl m))) (sha256_hex token) \<noteq> None" if "\<not> spent"
    by (rule cons(4)) (use ttl that [unfolded assms(18) not_not] in \<open>simp_all add: usec_def\<close>)
  show ?thesis using refused done' sends row kept cu(2,3) unfolding u'_def by (cases valid; cases taken; cases spent; cases "es_unique E (rows d')") auto
qed

lemma mail_columns: "email_columns mail_repo" "unique_in (col mail_repo ''email'') [text_id_row 1]"
  by (simp_all add: email_columns_def has_col_def col_def unique_in_def mail_repo_def demo_repo_def)

theorem email_change_outcomes_witness:
  "\<exists>u' w' m'. confirm_email_change demo_email demo_fresh (mint_token demo_email 0 CHANGE (text_id_row 1) 24 (change_claims ''n@b.c'' None))
      (demo_app [text_id_row 1], demo_mail) = (Inr (u', None), (w', m'))
    \<and> get_field mail_repo u' ''email'' VNone = VStr ''n@b.c'' \<and> email_verified mail_repo u'"
proof -
  have s: "change_ttl_hours demo_email = 24" "es_unique demo_email r" for r by (simp_all add: demo_email_def)
  have c: "canon ''n@b.c'' = ''n@b.c''" by code_simp
  have free: "account_of mail_repo ''email'' ''n@b.c'' [text_id_row 1] = None"
    by (simp add: account_of_def login_value_def text_id_row_def demo_row_def mail_repo_def demo_repo_def col_def c)
  have e: "now demo_fresh = 0" "store_ok demo_tokens (used demo_mail)" "store_view demo_tokens t (used demo_mail) = Map.empty"
    "0 < end_of 0 86400" "honored None = None" for t
    by (simp_all add: demo_fresh_def demo_mail_def end_of_def usec_def honored_def)
  note th = email_change_outcomes [where E = demo_email and uid = "VStr ''7''" and w = "demo_app [text_id_row 1]" and to = None
      and u = "text_id_row 1" and ?u0.0 = "text_id_row 1" and ?t0.0 = 0 and f = demo_fresh and m = demo_mail and e = "''n@b.c''" and ts = demo_tokens,
      OF _ refl _ _ _ _ _ refl _ _ _ _ _ refl refl refl refl refl]
  show ?thesis using th by (auto simp: demo_email_sel s c free demo_jwt_decodes mail_row_facts mail_columns e)
qed

end
