(* ===== verification/ResolutionLaws.thy ===== *)
theory ResolutionLaws
  imports Resolution TransportLaws
begin

text \<open>
  The principal of a request is resolved once and shared, yet no gate is skipped: the states a
  request can reach, the invariant of the cached principals, and what \<open>current_user\<close> lets through.
\<close>

section \<open>A request without its CSRF token\<close>

definition uncsrfed :: "request \<Rightarrow> bool" where
  "uncsrfed r \<longleftrightarrow> req_method r \<notin> set SAFE_METHODS \<and> header r CSRF_HEADER_NAME \<in> {None, Some []}"

lemma enforce_csrf_missing:
  "csrf_enabled S \<Longrightarrow> uncsrfed r \<Longrightarrow> enforce_csrf S f r sid w = (Inl (CSRFException ''Missing CSRF token''), w)"
  by (auto simp: enforce_csrf_def uncsrfed_def run_simps)

lemma enforce_csrf_resolved: "resolved (snd (enforce_csrf S f r sid w)) = resolved w"
  by (auto simp: enforce_csrf_def run_simps split: option.split sum.split)

lemma resolve_user_resolved: "resolved (snd (resolve_user R uid w)) = resolved w"
  by (auto simp: resolve_user_def run_simps split: option.split sum.split)

lemma authenticate_session_resolved: "resolved (snd (authenticate_session T S f r csrf act w)) = resolved w"
  by (auto simp: authenticate_session_def Let_def bind_run in_sessions_run ret_run enforce_csrf_resolved resolve_user_resolved
      split: option.split sum.split)

lemma authenticate_bearer_resolved: "resolved (snd (authenticate_bearer T f r w)) = resolved w"
  by (auto simp: authenticate_bearer_def Let_def bind_run ret_run raise_run resolve_user_resolved
      split: option.split sum.split prod.split)

lemma authenticate_resolved: "resolved (snd (authenticate T t f r csrf act w)) = resolved w"
  by (cases t) (simp_all add: authenticate_session_resolved authenticate_bearer_resolved)

lemma authenticate_session_principal:
  assumes "fst (authenticate_session T S f r csrf act w) = Inr (Some p)"
  shows "p_transport p = ''session''" and "\<exists>sid. p_session_id p = Some sid \<and> sid \<noteq> []"
    and "csrf_enabled S \<Longrightarrow> uncsrfed r \<Longrightarrow> \<not> csrf"
  using assms
  by (auto simp: authenticate_session_def Let_def bind_run in_sessions_run ret_run build_principal_def enforce_csrf_missing
      split: option.splits sum.splits if_splits)

lemma authenticate_bearer_principal: "fst (authenticate_bearer T f r w) = Inr (Some p) \<Longrightarrow> p_transport p = ''bearer''"
  by (auto simp: authenticate_bearer_def Let_def bind_run ret_run raise_run build_principal_def
      split: option.splits sum.splits if_splits prod.splits)

section \<open>The cached principals\<close>

text \<open>A session's principal is cached with its session, and as not yet checked against CSRF.\<close>

definition awaits_csrf :: "('s, 'c) cached_principal \<Rightarrow> bool" where
  "awaits_csrf c = (case cp_transport c of
     BearerTransport B \<Rightarrow> p_transport (cp_principal c) = ''bearer''
   | SessionTransport S \<Rightarrow> csrf_enabled S \<and> \<not> cp_csrf_enforced c \<and> (\<exists>sid. p_session_id (cp_principal c) = Some sid \<and> sid \<noteq> []))"

definition await_all :: "(string list \<times> ('s, 'c) cached_principal) list \<Rightarrow> bool" where
  "await_all rs \<longleftrightarrow> (\<forall>k c. map_of rs k = Some c \<longrightarrow> awaits_csrf c)"

lemma await_all_intros [simp]:
  "await_all []" "await_all rs \<Longrightarrow> awaits_csrf c \<Longrightarrow> await_all (AList.update key c rs)"
  "await_all rs \<Longrightarrow> await_all (AList.delete key rs)"
  by (auto simp: await_all_def AList.update_conv' AList.delete_conv')

definition csrf_on :: "('s, 'c) transport list \<Rightarrow> bool" where
  "csrf_on ts \<longleftrightarrow> (\<forall>S. SessionTransport S \<in> set ts \<longrightarrow> csrf_enabled S)"

lemma first_principal_run:
  assumes "csrf_on ts" and "uncsrfed r"
  shows "resolved (snd (first_principal T f r csrf act ts w)) = resolved w"
    and "fst (first_principal T f r csrf act ts w) = Inr (Some (p, t)) \<Longrightarrow>
      awaits_csrf \<lparr>cp_principal = p, cp_transport = t, cp_db = n, cp_csrf_enforced = csrf, cp_activity_updated = act\<rparr>
      \<and> (csrf \<longrightarrow> p_transport p = ''bearer'')"
proof -
  have "resolved (snd (first_principal T f r csrf act ts w)) = resolved w \<and>
    (fst (first_principal T f r csrf act ts w) = Inr (Some (p, t)) \<longrightarrow>
      awaits_csrf \<lparr>cp_principal = p, cp_transport = t, cp_db = n, cp_csrf_enforced = csrf, cp_activity_updated = act\<rparr>
      \<and> (csrf \<longrightarrow> p_transport p = ''bearer''))"
    using assms(1)
  proof (induction ts arbitrary: w)
    case Nil
    then show ?case by (simp add: run_simps)
  next
    case (Cons x ts)
    have on: "csrf_on ts" "\<And>S. x = SessionTransport S \<Longrightarrow> csrf_enabled S" 
      using Cons.prems unfolding csrf_on_def by (meson list.set_intros)+
    note IH = Cons.IH [OF on(1), of "snd (authenticate T x f r csrf act w)"]
    have here: "awaits_csrf \<lparr>cp_principal = p, cp_transport = x, cp_db = n, cp_csrf_enforced = csrf, cp_activity_updated = act\<rparr>
        \<and> (csrf \<longrightarrow> p_transport p = ''bearer'')" if "fst (authenticate T x f r csrf act w) = Inr (Some p)"
      using that on(2) assms(2) authenticate_session_principal [of T _ f r csrf act w p] authenticate_bearer_principal [of T f r w p]
      by (cases x) (auto simp: awaits_csrf_def)
    show ?case using IH here authenticate_resolved [of T x f r csrf act w]
      by (auto simp: bind_run ret_run split: sum.splits option.splits)
  qed
  then show "resolved (snd (first_principal T f r csrf act ts w)) = resolved w"
    and "fst (first_principal T f r csrf act ts w) = Inr (Some (p, t)) \<Longrightarrow>
      awaits_csrf \<lparr>cp_principal = p, cp_transport = t, cp_db = n, cp_csrf_enforced = csrf, cp_activity_updated = act\<rparr>
      \<and> (csrf \<longrightarrow> p_transport p = ''bearer'')" by blast+
qed

lemma remember_run: "remember key c w = (Inr (), w\<lparr>resolved := AList.update key c (resolved w)\<rparr>)"
  by (simp add: remember_def run_simps)

lemma forget_run: "forget key w = (Inr (), w\<lparr>resolved := AList.delete key (resolved w)\<rparr>)"
  by (simp add: forget_def run_simps)

lemma new_context_run: "new_context w = (Inr (), w\<lparr>user_cache := []\<rparr>)"
  by (simp add: new_context_def run_simps)

section \<open>One resolution after another\<close>

lemma revalidate_session_resolved: "resolved (snd (revalidate_session S f r p csrf act w)) = resolved w"
  by (auto simp: revalidate_session_def bind_run in_sessions_run ret_run enforce_csrf_resolved split: option.split sum.split)

lemma revalidate_resolved: "resolved (snd (revalidate t f r p csrf act w)) = resolved w"
  by (cases t) (simp_all add: revalidate_session_resolved ret_run)

lemma revalidate_session_unproven:
  assumes "fst (revalidate_session S f r p True act w) = Inr True"
    and "csrf_enabled S" and "uncsrfed r" and "p_session_id p = Some sid"
  shows "sid = []"
  using assms by (auto simp: revalidate_session_def bind_run in_sessions_run ret_run enforce_csrf_missing split: sum.splits if_splits)

lemma catch_up_run:
  assumes "await_all (resolved w)" and "awaits_csrf c" and "uncsrfed r" and "out = catch_up f r csrf act key c w"
  shows "await_all (resolved (snd out))" and "fst out = Inr (Some p) \<Longrightarrow> csrf \<Longrightarrow> p_transport p = ''bearer''"
proof -
  let ?mc = "csrf \<and> \<not> cp_csrf_enforced c" and ?ma = "act \<and> \<not> cp_activity_updated c"
  let ?c' = "c\<lparr>cp_csrf_enforced := cp_csrf_enforced c \<or> csrf, cp_activity_updated := cp_activity_updated c \<or> act\<rparr>"
  define res where "res = revalidate (cp_transport c) f r (cp_principal c) ?mc ?ma (w\<lparr>user_cache := []\<rparr>)"
  have state: "resolved (snd res) = resolved w" by (simp add: res_def revalidate_resolved)
  have fine: "awaits_csrf ?c' \<and> (csrf \<longrightarrow> p_transport (cp_principal c) = ''bearer'')" if "fst res = Inr True"
    using that assms(2,3)
    by (cases "cp_transport c") (auto simp: awaits_csrf_def res_def dest: revalidate_session_unproven)
  have other: "csrf \<longrightarrow> p_transport (cp_principal c) = ''bearer''" if "\<not> (?mc \<or> ?ma)"
    using that assms(2) by (cases "cp_transport c") (auto simp: awaits_csrf_def)
  have out: "out = (if ?mc \<or> ?ma then (case fst res of Inl e \<Rightarrow> (Inl e, snd res)
      | Inr valid \<Rightarrow> if valid then (Inr (Some (cp_principal c)), (snd res)\<lparr>resolved := AList.update key ?c' (resolved (snd res))\<rparr>)
          else (Inr None, (snd res)\<lparr>resolved := AList.delete key (resolved (snd res))\<rparr>))
      else (Inr (Some (cp_principal c)), w))"
    unfolding assms(4) catch_up_def Let_def res_def
    by (simp add: bind_run new_context_run remember_run forget_run ret_run split: sum.split)
  show "await_all (resolved (snd out))"
    using assms(1) fine state by (auto simp: out split: sum.split)
  show "fst out = Inr (Some p) \<Longrightarrow> csrf \<Longrightarrow> p_transport p = ''bearer''"
    using fine other by (auto simp: out split: sum.splits if_splits)
qed

lemma on_session_run:
  assumes "await_all (resolved w)" and "awaits_csrf c"
  shows "await_all (resolved (snd (on_session T dbid key c w)))"
    and "fst (on_session T dbid key c w) = Inr (Some c') \<Longrightarrow> awaits_csrf c'"
proof -
  have moved: "awaits_csrf (c\<lparr>cp_principal := (cp_principal c)\<lparr>p_user := u\<rparr>, cp_db := dbid\<rparr>)" for u
    using assms(2) by (simp add: awaits_csrf_def split: transport.splits)
  show "await_all (resolved (snd (on_session T dbid key c w)))"
    using assms(1) moved
    by (auto simp: on_session_def Let_def bind_run in_db_run ret_run forget_run remember_run
        split: option.split sum.split)
  show "fst (on_session T dbid key c w) = Inr (Some c') \<Longrightarrow> awaits_csrf c'"
    using assms(2) moved
    by (auto simp: on_session_def Let_def bind_run in_db_run ret_run forget_run remember_run split: option.splits sum.splits if_splits)
qed

lemma resolve_run:
  assumes "await_all (resolved w)" and "csrf_on ts" and "uncsrfed r" and "out = resolve T f r dbid ts csrf act w"
  shows "await_all (resolved (snd out))" and "fst out = Inr (Some p) \<Longrightarrow> csrf \<Longrightarrow> p_transport p = ''bearer''"
proof -
  have "await_all (resolved (snd out)) \<and> (fst out = Inr (Some p) \<longrightarrow> csrf \<longrightarrow> p_transport p = ''bearer'')"
  proof (cases "map_of (resolved w) (cache_key ts)")
    case None
    let ?w = "w\<lparr>user_cache := []\<rparr>"
    note run = first_principal_run [OF assms(2,3), of T f csrf act ?w]
    show ?thesis using None assms(1) run(1) run(2) [where n = dbid]
      by (auto simp: assms(4) resolve_def Let_def bind_run gets_run new_context_run remember_run ret_run
          split: sum.split option.split prod.split)
  next
    case (Some c)
    have c: "awaits_csrf c" using assms(1) Some by (simp add: await_all_def)
    note mv = on_session_run [OF assms(1) c, of T dbid "cache_key ts"]
    show ?thesis using Some mv catch_up_run [OF mv(1) _ assms(3) refl]
      by (auto simp: assms(4) resolve_def Let_def bind_run gets_run ret_run split: sum.split option.split)
  qed
  then show "await_all (resolved (snd out))" "fst out = Inr (Some p) \<Longrightarrow> csrf \<Longrightarrow> p_transport p = ''bearer''" by blast+
qed

text \<open>
  The states a request can reach: nothing resolved at first, any resolutions over configured
  transports with or without the CSRF check, and anything else that happens in between.
\<close>

inductive request_reach :: "('b, 's, 'c, 'm) auth_runtime \<Rightarrow> request \<Rightarrow> ('b, 's, 'c, 'm) world \<Rightarrow> bool" for T r where
  arrives: "resolved w = [] \<Longrightarrow> request_reach T r w"
| resolves: "request_reach T r w \<Longrightarrow> set ts \<subseteq> set (transports T) \<Longrightarrow>
    request_reach T r (snd (resolve T f r dbid ts csrf act w))"
| elsewhere: "request_reach T r w \<Longrightarrow> resolved w' = resolved w \<Longrightarrow> request_reach T r w'"

lemma csrf_on_subset: "csrf_on ts \<Longrightarrow> set us \<subseteq> set ts \<Longrightarrow> csrf_on us"
  unfolding csrf_on_def by blast

lemma reach_awaits:
  assumes "request_reach T r w" and "csrf_on (transports T)" and "uncsrfed r"
  shows "await_all (resolved w)"
  using assms(1)
proof induction
  case (arrives w)
  then show ?case by simp
next
  case (resolves w ts f dbid csrf act)
  then show ?case using resolve_run(1) [OF _ csrf_on_subset [OF assms(2)] assms(3) refl] by blast
next
  case (elsewhere w w')
  then show ?case by simp
qed

section \<open>What current_user lets through\<close>

definition demo_auth :: "(mem_limiter, session_data mem_store, csrf_token mem_store, mfa_challenge mem_store) crud_auth" where
  "demo_auth = \<lparr>runtime = demo_runtime, sudo = None, policy = demo_policy, action_limits = DEFAULT_RATE_LIMITS, fresh_sign_in_seconds = 600\<rparr>"

lemma demo_csrf_on: "csrf_on (transports demo_runtime)"
  by (simp add: csrf_on_def demo_runtime_def)

text \<open>
  C4. No gate is skipped. Whatever a request without its CSRF token has resolved before, with or
  without the CSRF check, through middleware, rate limits or other gates, \<open>current_user\<close> never
  lets its session cookie through on an unsafe method: the caller it passes on came with a bearer
  token. And that caller meets every condition of the gate: superuser, verified recovery factor,
  all required scopes, and a check that did not deny it.
\<close>

theorem no_gate_is_skipped:
  assumes "request_reach (runtime A) r w" and "csrf_on (transports (runtime A))" and "uncsrfed r"
    and "set selected \<subseteq> set (transports (runtime A))"
    and "fst (user_dependency A selected gate f r w) = Inr (Some p)"
  shows "p_transport p = ''bearer'' \<and> (superuser gate \<longrightarrow> p_is_superuser p) \<and> (verified gate \<longrightarrow> p_recovery_verified p)
    \<and> set (required_scopes gate) \<subseteq> set (p_scopes p)
    \<and> (\<forall>check. check_with gate = Some check \<longrightarrow> (\<exists>v. check p = Inr v \<and> v \<noteq> VBool False))"
proof -
  let ?out = "resolve (runtime A) f r (request_db f) selected True True w"
  have "fst ?out = Inr (Some p) \<and> (superuser gate \<longrightarrow> p_is_superuser p) \<and> (verified gate \<longrightarrow> p_recovery_verified p)
    \<and> (required_scopes gate \<noteq> [] \<longrightarrow> has_scopes p (required_scopes gate))
    \<and> (\<forall>check. check_with gate = Some check \<longrightarrow> (\<exists>v. check p = Inr v \<and> v \<noteq> VBool False))"
    using assms(5) by (auto simp: user_dependency_def bind_run ret_run raise_run split: sum.splits option.splits if_splits)
  then show ?thesis
    using resolve_run(2) [OF reach_awaits [OF assms(1-3)] csrf_on_subset [OF assms(2,4)] assms(3) refl, of "runtime A" f "request_db f" True True p]
    by (auto simp: has_scopes_def)
qed

theorem no_gate_is_skipped_witness:
  "\<exists>p. fst (user_dependency demo_auth (transports demo_runtime) any_user demo_fresh
       (bearer_request (access_token demo_runtime demo_bearer 0 (text_id_row 1) [''read''])) (demo_app [text_id_row 1])) = Inr (Some p)
     \<and> p_transport p = ''bearer''"
proof -
  define r where "r = bearer_request (access_token demo_runtime demo_bearer 0 (text_id_row 1) [''read''])"
  let ?w = "demo_app [text_id_row 1]"
  have B: "access_ttl demo_bearer = 900" by (simp add: demo_bearer_def)
  have hdr: "bearer_header r (access_token demo_runtime demo_bearer 0 (text_id_row 1) [''read''])"
    by (simp add: r_def bearer_header_def bearer_request_def header_def header_list_def demo_token_nonempty)
  have un: "uncsrfed r"
    by (simp add: uncsrfed_def SAFE_METHODS_def r_def bearer_request_def plain_request_def header_def header_list_def
        CSRF_HEADER_NAME_def) code_simp
  have sess: "authenticate demo_runtime (SessionTransport S) demo_fresh r True True x = (Inr None, x)" for S x
    by (simp add: authenticate_session_def presented_session_def r_def bearer_request_def plain_request_def cookie_def ret_run)
  obtain p where p: "fst (authenticate_bearer demo_runtime demo_fresh r (?w\<lparr>user_cache := []\<rparr>)) = Inr (Some p)"
    using authenticate_bearer_run [OF _ _ _ hdr, of "?w\<lparr>user_cache := []\<rparr>" "text_id_row 1" demo_fresh]
    by (simp add: demo_jwt_decodes B text_id_row_facts demo_fresh_def end_of_def usec_def accepted_version_def)
  have run: "fst (user_dependency demo_auth (transports demo_runtime) any_user demo_fresh r ?w) = Inr (Some p)"
    using p sess
    by (simp add: user_dependency_def resolve_def cache_key_def demo_auth_def demo_runtime_def any_user_def bind_run gets_run
        new_context_run remember_run ret_run demo_app_def Let_def)
  have "request_reach (runtime demo_auth) r ?w" by (rule request_reach.arrives) (simp add: demo_app_def)
  then show ?thesis
    using no_gate_is_skipped [of demo_auth r ?w "transports demo_runtime" any_user demo_fresh p] run un demo_csrf_on
    unfolding r_def [symmetric] by (auto simp: demo_auth_def)
qed

end
