(* ===== verification/RegistrationLaws.thy ===== *)
theory RegistrationLaws
  imports Registration EmailRequests ResolutionLaws
begin

text \<open>
  What a registration gives away and what it adds: with email configured the answer to a valid
  signup does not depend on which accounts exist, and at most one row is added, never beside one
  that has the same value in a unique column.
\<close>

section \<open>Looking for taken values\<close>

definition lookup_value :: "string \<Rightarrow> pyval \<Rightarrow> pyval" where
  "lookup_value k v = (case v of VStr s \<Rightarrow> login_value k s | _ \<Rightarrow> v)"

definition is_taken :: "user_repo \<Rightarrow> database \<Rightarrow> string \<times> pyval \<Rightarrow> bool" where
  "is_taken R d kv \<longleftrightarrow> (\<exists>r \<in> set (rows d). r (col R (fst kv)) = Some (lookup_value (fst kv) (snd kv)))"

definition searchable :: "user_repo \<Rightarrow> database \<Rightarrow> body \<Rightarrow> bool" where
  "searchable R d xs \<longleftrightarrow> (\<forall>(k, v) \<in> set xs. v \<noteq> VNone \<and> has_col R k \<and> unique_in (col R k) (rows d))"

lemma lookup_value_some: "v \<noteq> VNone \<Longrightarrow> lookup_value k v \<noteq> VNone"
  by (auto simp: lookup_value_def login_value_def split: pyval.split)

lemma get_taken_run:
  assumes "v \<noteq> VNone" and "has_col R k" and "unique_in (col R k) (rows d)"
  shows "\<exists>u. get_by_field R k v d = (Inr u, d) \<and> (u \<noteq> None \<longleftrightarrow> is_taken R d (k, v))"
proof -
  let ?F = "filter (\<lambda>r. r (col R k) = Some (lookup_value k v)) (rows d)"
  have "get_by_field R k v d = (Inr (case ?F of [] \<Rightarrow> None | r # _ \<Rightarrow> Some r), d)"
    using unique_filter [OF assms(3) lookup_value_some [OF assms(1), of k]] assms(2)
    by (auto simp: get_by_field_def with_attr_def select_where_def scalar_one_or_none_def run_simps lookup_value_def login_value_def
        split: pyval.splits)
  moreover have "(case ?F of [] \<Rightarrow> None | r # _ \<Rightarrow> Some r) \<noteq> None \<longleftrightarrow> is_taken R d (k, v)"
    by (auto simp: is_taken_def filter_empty_conv filter_eq_Cons_iff split: list.split)
  ultimately show ?thesis by blast
qed

lemma any_taken_run: "searchable R d xs \<Longrightarrow> any_taken R xs d = (Inr (\<exists>x \<in> set xs. is_taken R d x), d)"
proof (induction xs)
  case (Cons x xs)
  obtain k v where x: "x = (k, v)" by force
  then obtain u where "get_by_field R k v d = (Inr u, d)" "u \<noteq> None \<longleftrightarrow> is_taken R d (k, v)"
    using get_taken_run [of v R k d] Cons.prems by (auto simp: searchable_def)
  then show ?case using Cons by (auto simp: x bind_run ret_run searchable_def)
qed (simp add: ret_run)

lemma best_effort_mail: "\<exists>p'. send_best_effort mm p = (Inr (), p')"
  by (auto simp: send_best_effort_def catch_run ret_run split: sum.split)

text \<open>The only collisions that show are those of a login field that is not private.\<close>

definition private_field :: "user_repo \<Rightarrow> string \<Rightarrow> bool" where
  "private_field R k \<longleftrightarrow> k = ''email'' \<or> recovery R = Some k"

lemma notify_keeps_db: "db (fst (snd (send_best_effort (notify_existing_account E f v) p))) = db (fst p)"
  by (cases p) (auto simp: send_best_effort_def notify_existing_account_def catch_run bind_run ret_run within_limit_def in_app_run in_lim_run
      in_mail_run split: sum.split)

lemma on_existing_run:
  assumes "searchable R (db (fst p)) xs" and "\<exists>x \<in> set xs. is_taken R (db (fst p)) x"
    and "\<forall>x \<in> set xs. is_taken R (db (fst p)) x \<longrightarrow> private_field R (fst x) \<or> fst x \<notin> set (login_fields R)"
  shows "fst (on_existing R (Some E) f xs p) = Inr enrolled \<and> db (fst (snd (on_existing R (Some E) f xs p))) = db (fst p)"
  using assms
proof (induction xs)
  case (Cons x xs)
  obtain k v where x: "x = (k, v)" by force
  then obtain u where u: "get_by_field R k v (db (fst p)) = (Inr u, db (fst p))" "u \<noteq> None \<longleftrightarrow> is_taken R (db (fst p)) (k, v)"
    using get_taken_run [of v R k "db (fst p)"] Cons.prems by (auto simp: searchable_def)
  have g: "in_app (in_db (get_by_field R k v)) p = (Inr u, p)" using u(1) by (simp add: in_app_run in_db_run)
  show ?case
  proof (cases "u = None")
    case True
    then show ?thesis using Cons g u(2) by (auto simp: x bind_run searchable_def)
  next
    case False
    moreover obtain p' where "send_best_effort (notify_existing_account E f v) p = (Inr (), p')" using best_effort_mail by blast
    ultimately show ?thesis using Cons.prems(3) g u(2) notify_keeps_db [of E f v p]
      by (auto simp: x bind_run ret_run private_field_def)
  qed
qed simp

section \<open>A signup\<close>

text \<open>What the route makes of a submitted body before it looks at any state.\<close>

definition parse_signup :: "('b, 's, 'c, 'm) crud_auth \<Rightarrow> body \<Rightarrow> exc + (body \<times> string \<times> body \<times> body)" where
  "parse_signup A submitted_body =
     (let R = repo (runtime A)
      in case map_of submitted_body ''password'' of
           None \<Rightarrow> Inl (KeyError ''password'')
         | Some pw \<Rightarrow>
             (let submitted = AList.delete ''password'' submitted_body
              in case fst (enforce_policy (crypto_lib (runtime A)) (policy A) (py_str pw)
                         \<lparr>source = ''register'', ctx_username = dict_get submitted ''username'' VNone,
                          ctx_email = dict_get submitted ''email'' VNone, ctx_user = None\<rparr> ''password'' ()) of
                   Inl e \<Rightarrow> Inl e
                 | Inr _ \<Rightarrow>
                     (case fst (pop_fields (login_fields R) (filter_registration_data R submitted) ()) of
                        Inl e \<Rightarrow> Inl e
                      | Inr (login_values, rest) \<Rightarrow>
                          if too_long_fields R (dict_update login_values rest) \<noteq> []
                          then Inl (ValueTooLongException (too_long_fields R (dict_update login_values rest)))
                          else Inr (submitted, py_str pw, login_values, rest))))"

lemma pop_fields_pure: "pop_fields fs d s = (fst (pop_fields fs d ()), s)"
  by (induction fs arbitrary: d) (auto simp: run_simps split: option.split sum.split)

lemma register_run:
  "register_route A N emails f r b p =
     (case parse_signup A b of
        Inl e \<Rightarrow> (Inl e, p)
      | Inr (submitted, password, login_values, rest) \<Rightarrow>
          bind (count_registration A f r) (\<lambda>_. enroll A N emails f r submitted password login_values rest) p)"
proof (cases "map_of b ''password''")
  case (Some pw)
  note pure = enforce_policy_pure [of _ _ _ _ _ p] pop_fields_pure [of _ _ p]
  show ?thesis
    by (simp add: register_route_def parse_signup_def Let_def Some bind_run [of "enforce_policy _ _ _ _ _"] bind_run [of "pop_fields _ _"]
        pure raise_run split: sum.split prod.split)
qed (simp add: register_route_def parse_signup_def raise_run)

definition account_data :: "('b, 's, 'c, 'm) crud_auth \<Rightarrow> registration \<Rightarrow> fresh \<Rightarrow> string \<Rightarrow> body \<Rightarrow> body \<Rightarrow> body \<Rightarrow> body" where
  "account_data A N f password login_values rest extra =
     dict_update (dict_update (dict_update
       (login_values @ [(''hashed_password'', VStr (get_password_hash (crypto_lib (runtime A)) (fresh_salt f) password))]) rest)
       (new_user_defaults N)) extra"

text \<open>
  What is asked of a user table: the unique columns keep values unique, no public login name of
  the signup is taken in it, the callback of the application answers, and the database accepts a
  row none of whose unique values is taken.
\<close>

definition signup_table :: "('b, 's, 'c, 'm) crud_auth \<Rightarrow> registration \<Rightarrow> fresh \<Rightarrow> string \<Rightarrow> body \<Rightarrow> body \<Rightarrow> database \<Rightarrow> bool" where
  "signup_table A N f password login_values rest d \<longleftrightarrow>
     (let R = repo (runtime A); xs = unique_values R (dict_update login_values rest)
      in searchable R d xs
       \<and> (\<forall>x \<in> set xs. is_taken R d x \<longrightarrow> private_field R (fst x) \<or> fst x \<notin> set (login_fields R))
       \<and> (\<forall>cb. new_user_callback N = Some cb \<longrightarrow> (\<forall>c. \<exists>x. cb c = Inr x))
       \<and> ((\<exists>x \<in> set xs. is_taken R d x)
          \<or> (\<forall>extra. \<exists>row. insert_row R (rows d) (create_kwargs R (account_data A N f password login_values rest extra)) = Inr row)))"

lemma register_hook: "run_after_register H d c w = (Inr (), logged H (hook_event_of ''on_after_register'' (Some d) [] c) w)"
  by (simp add: run_after_register_def run_simps)

lemma verification_keeps_db: "db (fst (snd (send_best_effort (request_recovery_verification E f v to) p))) = db (fst p)"
proof -
  have keep: "snd (get_by_field R k x d) = d" for R k x d
    by (simp add: get_by_field_def with_attr_def select_keeps raise_run)
  show ?thesis
    by (cases p) (auto simp: send_best_effort_def request_recovery_verification_def catch_run bind_run ret_run within_limit_def in_app_run
        in_lim_run in_db_run keep deliver_with_db_run Let_def split: sum.split option.split)
qed

lemma create_account_run:
  assumes "R = repo (runtime A)" and "recovery R = Some factor"
    and "insert_row R (rows (db (fst p))) (create_kwargs R data') = Inr row"
  shows "fst (create_account A (Some E) f r data' xs p) = Inr enrolled
    \<and> rows (db (fst (snd (create_account A (Some E) f r data' xs p)))) = rows (db (fst p)) @ [row]"
proof -
  have c: "in_app (in_db (create_user R data')) p = (Inr row, ((fst p)\<lparr>db := (db (fst p))\<lparr>rows := rows (db (fst p)) @ [row]\<rparr>\<rparr>, snd p))"
    using assms(3) by (simp add: create_user_def in_app_run in_db_run bind_run gets_run modifies_run ret_run)
  let ?p = "(logged (hooks (runtime A)) (hook_event_of ''on_after_register'' (Some (to_dict R row)) [] (request_context (runtime A) r))
      ((fst p)\<lparr>db := (db (fst p))\<lparr>rows := rows (db (fst p)) @ [row]\<rparr>\<rparr>), snd p)"
  obtain p' where s: "send_best_effort (request_recovery_verification E f (get_field R row factor VNone) None) ?p = (Inr (), p')"
    using best_effort_mail by blast
  have "db (fst p') = (db (fst p))\<lparr>rows := rows (db (fst p)) @ [row]\<rparr>"
    using verification_keeps_db [of E f "get_field R row factor VNone" None ?p] s by simp
  then show ?thesis
    using c s by (simp add: create_account_def Let_def assms(1) [symmetric] assms(2) bind_run catch_run ret_run in_app_run register_hook)
qed

lemma provisioning_answers:
  assumes "\<forall>cb. callback = Some cb \<longrightarrow> (\<forall>c. \<exists>x. cb c = Inr x)"
  shows "\<exists>extra. resolve_new_user_fields callback c R p = (Inr extra, p)"
proof (cases callback)
  case (Some cb)
  then obtain x where "cb c = Inr x" using assms by blast
  then show ?thesis by (simp add: resolve_new_user_fields_def Some ret_run)
qed (simp add: resolve_new_user_fields_def ret_run)

lemma enroll_run:
  assumes "R = repo (runtime A)" and "recovery R = Some factor" and "signup_table A N f password lv rest (db (fst p))"
    and "xs = unique_values R (dict_update lv rest)" and "out = enroll A N (Some E) f r submitted password lv rest p"
  shows "fst out = Inr enrolled" and "\<exists>x \<in> set xs. is_taken R (db (fst p)) x \<Longrightarrow> db (fst (snd out)) = db (fst p)"
    and "\<not> (\<exists>x \<in> set xs. is_taken R (db (fst p)) x) \<Longrightarrow> \<exists>row. rows (db (fst (snd out))) = rows (db (fst p)) @ [row]"
proof -
  let ?taken = "\<exists>x \<in> set xs. is_taken R (db (fst p)) x"
  have t: "searchable R (db (fst p)) xs" "\<forall>x \<in> set xs. is_taken R (db (fst p)) x \<longrightarrow> private_field R (fst x) \<or> fst x \<notin> set (login_fields R)"
    "\<forall>cb. new_user_callback N = Some cb \<longrightarrow> (\<forall>c. \<exists>x. cb c = Inr x)"
    "?taken \<or> (\<forall>extra. \<exists>row. insert_row R (rows (db (fst p))) (create_kwargs R (account_data A N f password lv rest extra)) = Inr row)"
    using assms(3) unfolding signup_table_def Let_def assms(1,4) by blast+
  have any: "in_app (in_db (any_taken R xs)) p = (Inr ?taken, p)"
    using any_taken_run [OF t(1)] by (simp add: in_app_run in_db_run)
  have run: "out = (if ?taken then on_existing R (Some E) f xs p
      else bind (in_app (gets db)) (\<lambda>d.
           bind (resolve_new_user_fields (new_user_callback N)
                   \<lparr>nu_email = dict_get lv ''email'' (VStr []), nu_username = dict_get lv ''username'' (VStr []),
                    nu_source = ''register'', nu_db = d, nu_register_data = Some submitted, nu_oauth = None\<rparr> R) (\<lambda>extra.
           create_account A (Some E) f r (account_data A N f password lv rest extra) xs)) p)"
    unfolding assms(5) enroll_def Let_def account_data_def assms(1) [symmetric] assms(4) [symmetric]
      bind_run [of "in_app (in_db _)"] any fst_conv snd_conv sum.case by (rule if_distribR)
  have taken: "fst out = Inr enrolled \<and> db (fst (snd out)) = db (fst p)" if ?taken
    using on_existing_run [OF t(1) that t(2), of E f] that by (simp add: run)
  have free: "fst out = Inr enrolled \<and> (\<exists>row. rows (db (fst (snd out))) = rows (db (fst p)) @ [row])" if none: "\<not> ?taken"
  proof -
    obtain extra where "resolve_new_user_fields (new_user_callback N)
        \<lparr>nu_email = dict_get lv ''email'' (VStr []), nu_username = dict_get lv ''username'' (VStr []),
         nu_source = ''register'', nu_db = db (fst p), nu_register_data = Some submitted, nu_oauth = None\<rparr> R p = (Inr extra, p)"
      using provisioning_answers [OF t(3), where p = p and R = R] by blast
    moreover obtain row where "insert_row R (rows (db (fst p))) (create_kwargs R (account_data A N f password lv rest extra)) = Inr row"
      using t(4) none by blast
    ultimately show ?thesis
      using create_account_run [OF assms(1,2), of p "account_data A N f password lv rest extra" row E f r xs] none
      by (auto simp: run bind_run in_app_run gets_run)
  qed
  show "fst out = Inr enrolled" using taken free by blast
  show "?taken \<Longrightarrow> db (fst (snd out)) = db (fst p)" using taken by blast
  show "\<not> ?taken \<Longrightarrow> \<exists>row. rows (db (fst (snd out))) = rows (db (fst p)) @ [row]" using free by blast
qed

lemma count_registration_db:
  "count_registration A f r (w\<lparr>db := d\<rparr>, m) =
     (fst (count_registration A f r (w, m)), ((fst (snd (count_registration A f r (w, m))))\<lparr>db := d\<rparr>, m))"
  by (auto simp: count_registration_def Let_def in_app_run in_limits_def zoom_run raise_run split: option.split)

text \<open>
  C6. Registration reveals nothing. With email and a recovery factor configured, the answer to a
  signup is the same over any two user tables in which no public login name of it is taken: a
  refusal that looks at the submitted data and the caller's budget only, or one and the same
  acceptance, whether the address is new or belongs to somebody. At most one row is added, and
  none when a unique value of the signup is taken.
\<close>

theorem registration_reveals_nothing:
  fixes w :: "('b, 's, 'c, 'm) world" and m :: "'u mail_state"
  assumes "R = repo (runtime A)" and "recovery R = Some factor"
    and "\<forall>s pw lv rest. parse_signup A b = Inr (s, pw, lv, rest) \<longrightarrow> signup_table A N f pw lv rest d1 \<and> signup_table A N f pw lv rest d2"
    and "out = register_route A N (Some E) f r b (w\<lparr>db := d1\<rparr>, m)"
  shows "fst (register_route A N (Some E) f r b (w\<lparr>db := d2\<rparr>, m)) = fst out
    \<and> (\<forall>x. fst out = Inr x \<longrightarrow> x = enrolled)
    \<and> (rows (db (fst (snd out))) = rows d1
       \<or> (\<exists>row s pw lv rest. rows (db (fst (snd out))) = rows d1 @ [row] \<and> parse_signup A b = Inr (s, pw, lv, rest)
            \<and> \<not> (\<exists>x \<in> set (unique_values R (dict_update lv rest)). is_taken R d1 x)))"
proof (cases "parse_signup A b")
  case (Inl e)
  then show ?thesis by (simp add: register_run assms(4))
next
  case (Inr q)
  obtain s pw lv rest where q: "q = (s, pw, lv, rest)" by (cases q)
  have t: "signup_table A N f pw lv rest d1" "signup_table A N f pw lv rest d2" using assms(3) Inr q by blast+
  have run: "register_route A N (Some E) f r b p = bind (count_registration A f r) (\<lambda>_. enroll A N (Some E) f r s pw lv rest) p" for p :: "('b, 's, 'c, 'm, 'u) mail_world"
    by (simp add: register_run Inr q)
  show ?thesis
  proof (cases "fst (count_registration A f r (w, m))")
    case (Inl e)
    then show ?thesis by (simp add: run bind_run count_registration_db assms(4))
  next
    case (Inr u)
    let ?p = "\<lambda>d. ((fst (snd (count_registration A f r (w, m))))\<lparr>db := d\<rparr>, m)"
    have go: "register_route A N (Some E) f r b (w\<lparr>db := d\<rparr>, m) = enroll A N (Some E) f r s pw lv rest (?p d)" for d
      using Inr by (simp add: run bind_run count_registration_db)
    have d: "db (fst (?p d)) = d" for d by simp
    note e1 = enroll_run [OF assms(1,2) _ refl refl, of N f pw lv rest "?p d1" E r s, unfolded d, OF t(1)]
    note e2 = enroll_run(1) [OF assms(1,2) _ refl refl, of N f pw lv rest "?p d2" E r s, unfolded d, OF t(2)]
    show ?thesis using e1 e2 \<open>parse_signup A b = Inr q\<close> q unfolding assms(4) go by (auto simp del: fst_conv snd_conv) metis+
  qed
qed

definition plain_registration :: registration where
  "plain_registration = \<lparr>new_user_defaults = [], new_user_callback = None\<rparr>"

definition demo_signup :: body where
  "demo_signup = [(''email'', VStr ''a@b.c''), (''password'', VStr ''long'')]"

lemma demo_signup_parsed:
  "parse_signup demo_auth demo_signup = Inr ([(''email'', VStr ''a@b.c'')], ''long'', [(''email'', VStr ''a@b.c'')], [])"
  by (simp add: parse_signup_def demo_signup_def demo_auth_def enforce_policy_def check_policy_def rule_errors_def requirements_def
      demo_policy_def demo_crypto_def normalize_password_def run_simps filter_registration_data_def allowed_register_names_def
      gated_names_def with_columns_def rv_names_def recovery_verified_col_def demo_repo_def col_def REGISTRATION_ALLOWED_FIELDS_def
      REGISTRATION_GATED_FIELDS_def LOGICAL_FIELDS_def too_long_fields_def exceeds_length_def string_length_def dict_update_def Let_def)

lemma canon_abc: "canon ''a@b.c'' = ''a@b.c''"
  by code_simp

lemma demo_signup_tables: "rs \<in> {[], [text_id_row 1]} \<Longrightarrow>
    signup_table demo_auth plain_registration demo_fresh ''long'' [(''email'', VStr ''a@b.c'')] [] \<lparr>rows = rs\<rparr>"
  by (auto simp: signup_table_def demo_auth_def unique_values_def dict_update_def is_unique_column_def searchable_def demo_repo_def col_def
      has_col_def unique_in_def private_field_def plain_registration_def is_taken_def lookup_value_def login_value_def Let_def
      text_id_row_def demo_row_def canon_abc)

theorem registration_reveals_nothing_witness:
  "fst (register_route demo_auth plain_registration (Some demo_email) demo_fresh plain_request demo_signup (demo_app [text_id_row 1], demo_mail))
   = fst (register_route demo_auth plain_registration (Some demo_email) demo_fresh plain_request demo_signup (demo_app [], demo_mail))"
proof -
  have app: "(demo_app [])\<lparr>db := \<lparr>rows = rs\<rparr>\<rparr> = demo_app rs" for rs by (simp add: demo_app_def)
  have "recovery (repo (runtime demo_auth)) = Some ''email''" by (simp add: demo_auth_def demo_repo_def)
  then show ?thesis
    using registration_reveals_nothing [OF refl, of demo_auth "''email''" demo_signup plain_registration demo_fresh "\<lparr>rows = []\<rparr>" "\<lparr>rows = [text_id_row 1]\<rparr>"
        _ demo_email plain_request "demo_app []" demo_mail, OF _ _ refl]
    by (simp add: demo_signup_parsed demo_signup_tables app)
qed

end
