(* ===== verification/OAuthAccounts.thy ===== *)
theory OAuthAccounts
  imports Registration Enrollment
begin

text \<open>
  Accounts behind an OAuth sign-in, \<open>crudauth/oauth/service.py\<close>: a provider's profile is
  resolved to the account that has its provider id, to the account with the verified email, or to
  a new one.
\<close>

section \<open>Constants\<close>

definition USERNAME_MIN_LENGTH :: nat where
  "USERNAME_MIN_LENGTH = 2"

definition USERNAME_MAX_LENGTH :: int where
  "USERNAME_MAX_LENGTH = 32"

definition USERNAME_FALLBACK :: string where
  "USERNAME_FALLBACK = ''user''"

definition USERNAME_MAX_SUFFIX_ATTEMPTS :: nat where
  "USERNAME_MAX_SUFFIX_ATTEMPTS = 100"

section \<open>Usernames\<close>

definition strip_underscores :: "string \<Rightarrow> string" where
  "strip_underscores s = rev (dropWhile (\<lambda>c. c = CHR ''_'') (rev (dropWhile (\<lambda>c. c = CHR ''_'') s)))"

definition rstrip_underscores :: "string \<Rightarrow> string" where
  "rstrip_underscores s = rev (dropWhile (\<lambda>c. c = CHR ''_'') (rev s))"

definition username_char :: "char \<Rightarrow> bool" where
  "username_char c \<longleftrightarrow> (let n = (of_char c :: nat) in 97 \<le> n \<and> n \<le> 122 \<or> 48 \<le> n \<and> n \<le> 57)"

text \<open>Each run of other characters becomes one underscore; the flag says that one is running.\<close>

fun squash :: "bool \<Rightarrow> string \<Rightarrow> string" where
  "squash b [] = []"
| "squash b (c # s) =
     (if username_char c then c # squash False s
      else if b then squash True s else CHR ''_'' # squash True s)"

definition sanitize_username :: "string \<Rightarrow> int \<Rightarrow> string" where
  "sanitize_username raw max_length =
     (let v = strip_underscores (squash False (lower raw));
          v' = (if length v < USERNAME_MIN_LENGTH then strip_underscores (USERNAME_FALLBACK @ ''_'' @ v) else v)
      in rstrip_underscores (take (nat max_length) v'))"

record ('s, 'c) oauth_service =
  oa_repo :: user_repo
  oa_fields :: "new_user_fields option"
  oa_defaults :: body
  oa_sessions :: "('s, 'c) session_manager option"

definition username_max_length :: "('s, 'c) oauth_service \<Rightarrow> int" where
  "username_max_length S =
     (case string_length (oa_repo S) ''username'' of
        None \<Rightarrow> USERNAME_MAX_LENGTH | Some n \<Rightarrow> if n = 0 then USERNAME_MAX_LENGTH else n)"

definition username_base :: "('s, 'c) oauth_service \<Rightarrow> oauth_user_info \<Rightarrow> string" where
  "username_base S info =
     (let pick = (\<lambda>o' rest. case o' of Some s \<Rightarrow> if s \<noteq> [] then s else rest | None \<Rightarrow> rest);
          local_part = (case oi_email info of Some e \<Rightarrow> if e \<noteq> [] then Some (hd (split_on (CHR ''@'') e)) else None | None \<Rightarrow> None)
      in sanitize_username
           (pick (oi_username info) (pick (oi_given_name info) (pick (oi_name info) (pick local_part USERNAME_FALLBACK))))
           (username_max_length S))"

definition username_with_suffix :: "('s, 'c) oauth_service \<Rightarrow> string \<Rightarrow> string \<Rightarrow> string" where
  "username_with_suffix S base suffix =
     (let available = username_max_length S - int (length suffix) - 1
      in if available \<le> 0 then take (nat (username_max_length S)) suffix
         else rstrip_underscores (take (nat available) base) @ ''_'' @ suffix)"

text \<open>What an OAuth request draws at random.\<close>

record oauth_fresh =
  of_state :: string
  of_verifier :: string
  of_suffix :: string
  of_retry_suffix :: string
  of_password :: string

definition random_username :: "('s, 'c) oauth_service \<Rightarrow> string \<Rightarrow> string \<Rightarrow> string" where
  "random_username S suffix base = username_with_suffix S base suffix"

fun first_free :: "user_repo \<Rightarrow> string list \<Rightarrow> (database, string option) prog" where
  "first_free R [] = ret None"
| "first_free R (candidate # cs) =
     bind (username_exists R candidate) (\<lambda>taken. if \<not> taken then ret (Some candidate) else first_free R cs)"

definition unique_username :: "('s, 'c) oauth_service \<Rightarrow> oauth_fresh \<Rightarrow> string \<Rightarrow> (database, string) prog" where
  "unique_username S g base =
     bind (first_free (oa_repo S)
             (base # map (\<lambda>n. username_with_suffix S base (str_of_nat n)) [1..<USERNAME_MAX_SUFFIX_ATTEMPTS])) (\<lambda>found.
     case found of Some u \<Rightarrow> ret u | None \<Rightarrow> ret (random_username S (of_suffix g) base))"

section \<open>Finding, linking, creating\<close>

definition refuse_inactive :: "user_repo \<Rightarrow> row \<Rightarrow> ('x, unit) prog" where
  "refuse_inactive R user =
     (if \<not> is_active R user then raise (OAuthAccountException ''account_inactive'' ''This account is disabled.'') else ret ())"

definition link_fields :: "oauth_user_info \<Rightarrow> int \<Rightarrow> body" where
  "link_fields info t =
     [(oi_provider info @ ''_id'', VStr (oi_user_id info)), (''oauth_provider'', VStr (oi_provider info)), (''oauth_updated_at'', VTime t)]"

definition claim_fields :: "oauth_fresh \<Rightarrow> body" where
  "claim_fields g =
     [(''hashed_password'', VStr (make_unusable_password (of_password g))), (''email_verified'', VBool True)]
     @ map (\<lambda>f. (f, VNone)) MFA_FIELDS"

definition link_account :: "('s, 'c) oauth_service \<Rightarrow> fresh \<Rightarrow> oauth_fresh \<Rightarrow> row \<Rightarrow> oauth_user_info \<Rightarrow>
    ('b, 's, 'c, 'm, row) in_world" where
  "link_account S f g user info =
     (let R = oa_repo S; claimed = (\<not> email_verified R user)
      in if get_field R user (oi_provider info @ ''_id'') VNone \<noteq> VNone
         then raise (OAuthAccountException ''provider_already_linked''
                (''This account is already linked to a different '' @ oi_provider info @ '' account.''))
         else
           bind (in_db (update_user R user (link_fields info (now f) @ (if claimed then claim_fields g else [])))) (\<lambda>user1.
           if \<not> claimed then ret user1
           else
             bind (in_db (increment_token_version R user1)) (\<lambda>user2.
             bind (case oa_sessions S of
                     None \<Rightarrow> ret ()
                   | Some M \<Rightarrow> bind (in_sessions (terminate_all_user_sessions M (now f) (pk R user2) None)) (\<lambda>_. ret ())) (\<lambda>_.
             ret user2))))"

definition oauth_account_data :: "('s, 'c) oauth_service \<Rightarrow> fresh \<Rightarrow> oauth_fresh \<Rightarrow> oauth_user_info \<Rightarrow> string \<Rightarrow> body" where
  "oauth_account_data S f g info username =
     dict_update
       [(''username'', VStr username), (''email'', case oi_email info of None \<Rightarrow> VNone | Some e \<Rightarrow> VStr (canon e)),
        (''hashed_password'', VStr (make_unusable_password (of_password g))), (''email_verified'', VBool True),
        (''oauth_provider'', VStr (oi_provider info)), (oi_provider info @ ''_id'', VStr (oi_user_id info)),
        (''oauth_created_at'', VTime (now f)), (''oauth_updated_at'', VTime (now f))]
       (oa_defaults S)"

definition create_oauth_user :: "('s, 'c) oauth_service \<Rightarrow> fresh \<Rightarrow> oauth_fresh \<Rightarrow> oauth_user_info \<Rightarrow> (database, row) prog" where
  "create_oauth_user S f g info =
     (let R = oa_repo S; base = username_base S info
      in bind (unique_username S g base) (\<lambda>username.
         let row = oauth_account_data S f g info username
         in bind (gets (\<lambda>d. d)) (\<lambda>d.
            bind (resolve_new_user_fields (oa_fields S)
                    \<lparr>nu_email = dict_get row ''email'' VNone, nu_username = dict_get row ''username'' VNone,
                     nu_source = ''oauth'', nu_db = d, nu_register_data = None, nu_oauth = Some info\<rparr> R) (\<lambda>extra.
            let row' = dict_update row extra
            in catch (create_user R row')
                 (\<lambda>e. if e = integrity_error
                       then create_user R (dict_update row' [(''username'', VStr (random_username S (of_retry_suffix g) base))])
                       else raise e)))))"

definition get_or_create_user :: "('s, 'c) oauth_service \<Rightarrow> fresh \<Rightarrow> oauth_fresh \<Rightarrow> oauth_user_info \<Rightarrow>
    ('b, 's, 'c, 'm, row \<times> bool) in_world" where
  "get_or_create_user S f g info =
     (let R = oa_repo S
      in bind (in_db (get_by_oauth R (oi_provider info) (oi_user_id info))) (\<lambda>found.
         case found of
           Some user \<Rightarrow> bind (refuse_inactive R user) (\<lambda>_. ret (user, False))
         | None \<Rightarrow>
             (case oi_email info of
                None \<Rightarrow> raise (OAuthAccountException ''email_missing'' (''The '' @ oi_provider info @
                  '' account did not provide an email address, which is required to sign in.''))
              | Some email \<Rightarrow>
                  if email = [] then raise (OAuthAccountException ''email_missing'' (''The '' @ oi_provider info @
                    '' account did not provide an email address, which is required to sign in.''))
                  else if \<not> oi_email_verified info
                  then raise (OAuthAccountException ''email_unverified'' (''The '' @ oi_provider info @
                    '' account's email address isn't verified. Verify it with '' @ oi_provider info @ '' and try again.''))
                  else
                    bind (in_db (get_by_email R email)) (\<lambda>existing.
                    case existing of
                      Some user \<Rightarrow>
                        bind (refuse_inactive R user) (\<lambda>_.
                        bind (link_account S f g user info) (\<lambda>user'. ret (user', False)))
                    | None \<Rightarrow>
                        (case exceeds_length R ''email'' (VStr (canon email)) of
                           Some limit \<Rightarrow> raise (OAuthAccountException ''email_too_long'' (''The '' @ oi_provider info @
                             '' email address is longer than the '' @ str_of_int limit @ '' characters this app accepts.''))
                         | None \<Rightarrow> bind (in_db (create_oauth_user S f g info)) (\<lambda>user. ret (user, True)))))))"

end
