(* ===== verification/OAuthLaws.thy ===== *)
theory OAuthLaws
  imports OAuthAccounts EmailRequests
begin

text \<open>
  Which account an OAuth sign-in reaches and what it may change there: the account of the provider
  id, the account of a verified address, linked or claimed, or a new one.
\<close>

section \<open>Writing fields\<close>

text \<open>Fields in distinct columns, none of them the email, read back as written.\<close>

lemma apply_fields_get:
  assumes "inj_on (col R) (insert k (fst ` set kv))" and "distinct (map fst kv)" and "''email'' \<notin> fst ` set kv"
  shows "apply_fields R kv r (col R k) = (if has_col R k \<and> k \<in> fst ` set kv then map_of kv k else r (col R k))"
  using assms
proof (induction kv arbitrary: r)
  case (Cons x kv)
  obtain j v where x: "x = (j, v)" by (cases x)
  have ne: "j \<noteq> ''email''" using Cons.prems(3) by (auto simp: x)
  have inj: "inj_on (col R) (insert k (fst ` set kv))" by (rule inj_on_subset [OF Cons.prems(1)]) auto
  have kj: "col R k = col R j \<longleftrightarrow> k = j" using Cons.prems(1) by (auto simp: x inj_on_def)
  have ih: "apply_fields R kv r' (col R k) = (if has_col R k \<and> k \<in> fst ` set kv then map_of kv k else r' (col R k))" for r'
    using Cons.IH [OF inj] Cons.prems(2,3) by (simp add: x)
  have j: "(case v of VStr s \<Rightarrow> if j = ''email'' then VStr (canon s) else v | _ \<Rightarrow> v) = v" using ne by (simp split: pyval.split)
  have "apply_fields R (x # kv) r = apply_fields R kv (if has_col R j then set_field R r j v else r)"
    by (simp add: apply_fields_def x j)
  then show ?case
    using ih Cons.prems(2) kj by (auto simp: x set_field_def)
qed (simp add: apply_fields_def)

section \<open>Linking and claiming\<close>

definition provider_column :: "oauth_user_info \<Rightarrow> string" where
  "provider_column info = oi_provider info @ ''_id''"

definition written_fields :: "oauth_user_info \<Rightarrow> string list" where
  "written_fields info = [provider_column info, ''oauth_provider'', ''oauth_updated_at'', ''hashed_password'', ''email_verified''] @ MFA_FIELDS"

text \<open>The columns an OAuth sign-in writes are there and distinct, also from the key, the address and the version.\<close>

definition oauth_columns :: "user_repo \<Rightarrow> oauth_user_info \<Rightarrow> bool" where
  "oauth_columns R info \<longleftrightarrow> (\<forall>c \<in> set (written_fields info @ [''token_version'', ''email'']). has_col R c)
     \<and> distinct (map (col R) (written_fields info @ [''token_version'', ''email'', ''id'', ''is_active'']))"

definition linked_row :: "user_repo \<Rightarrow> oauth_user_info \<Rightarrow> int \<Rightarrow> row \<Rightarrow> row" where
  "linked_row R info t u = apply_fields R (link_fields info t) u"

definition claimed_row :: "user_repo \<Rightarrow> oauth_user_info \<Rightarrow> int \<Rightarrow> oauth_fresh \<Rightarrow> row \<Rightarrow> row" where
  "claimed_row R info t g u = apply_fields R (link_fields info t @ claim_fields g) u"

lemma written_data:
  "map fst (link_fields info t) = [provider_column info, ''oauth_provider'', ''oauth_updated_at'']"
  "map fst (link_fields info t @ claim_fields g) = written_fields info"
  by (simp_all add: link_fields_def claim_fields_def written_fields_def provider_column_def comp_def)

lemma oauth_cols:
  assumes "oauth_columns R info"
  shows "distinct (written_fields info)" "''email'' \<notin> set (written_fields info)"
    and "inj_on (col R) (set (written_fields info) \<union> {''token_version'', ''email'', ''id'', ''is_active''})"
    and "c \<in> set (written_fields info) \<Longrightarrow> has_col R c" "has_col R ''token_version''" "has_col R ''email''"
proof -
  let ?l = "written_fields info @ [''token_version'', ''email'', ''id'', ''is_active'']"
  have d: "distinct (map (col R) ?l)" "\<forall>c \<in> set (written_fields info @ [''token_version'', ''email'']). has_col R c"
    using assms unfolding oauth_columns_def by blast+
  from d(1) have "distinct ?l" "inj_on (col R) (set ?l)" by (simp_all only: distinct_map)
  then show "distinct (written_fields info)" "''email'' \<notin> set (written_fields info)"
    "inj_on (col R) (set (written_fields info) \<union> {''token_version'', ''email'', ''id'', ''is_active''})"
    by (simp_all only: distinct_append set_append) auto
  show "c \<in> set (written_fields info) \<Longrightarrow> has_col R c" "has_col R ''token_version''" "has_col R ''email''" using d(2) by simp_all
qed

lemma written_get:
  assumes "oauth_columns R info" and "kv = link_fields info t \<or> kv = link_fields info t @ claim_fields g"
    and "k \<in> set (written_fields info) \<union> {''token_version'', ''email'', ''id'', ''is_active''}"
  shows "get_field R (apply_fields R kv u) k dflt = (case map_of kv k of Some v \<Rightarrow> v | None \<Rightarrow> get_field R u k dflt)"
proof -
  note c = oauth_cols [OF assms(1)]
  have keys: "fst ` set kv \<subseteq> set (written_fields info)" "distinct (map fst kv)"
    using assms(2) c(1) written_data [of info t] written_data(2) [of info t g]
    by (auto simp: written_fields_def simp flip: set_map)
  have "insert k (fst ` set kv) \<subseteq> set (written_fields info) \<union> {''token_version'', ''email'', ''id'', ''is_active''}"
    using keys(1) assms(3) by blast
  from apply_fields_get [OF inj_on_subset [OF c(3) this] keys(2)]
  have "apply_fields R kv u (col R k) = (if has_col R k \<and> k \<in> fst ` set kv then map_of kv k else u (col R k))"
    using keys(1) c(2) by blast
  moreover have "has_col R k" if "k \<in> fst ` set kv" using that keys(1) c(4) by blast
  moreover have "map_of kv k = None \<longleftrightarrow> k \<notin> fst ` set kv" by (rule map_of_eq_None_iff)
  ultimately show ?thesis
    by (cases "k \<in> fst ` set kv") (auto simp: get_field_def split: option.split)
qed

lemma written_elsewhere:
  assumes "c \<notin> col R ` fst ` set kv"
  shows "apply_fields R kv u c = u c"
  using assms
proof (induction kv arbitrary: u)
  case (Cons x kv)
  then show ?case by (cases x) (simp add: apply_fields_def set_field_def Let_def)
qed (simp add: apply_fields_def)

text \<open>The sessions of one user end, those of the others stay.\<close>

lemma end_sessions_run:
  fixes w :: "('b, session_data mem_store, csrf_token mem_store, 'm) world"
  assumes "world_ok gk cfg (sess w)" and "L = live_sessions gk cfg t (sess w)"
  shows "\<exists>n s. in_sessions (terminate_all_user_sessions (mem_manager gk cfg) t uid None) w = (Inr n, w\<lparr>sess := s\<rparr>)
    \<and> live_sessions gk cfg t s = (\<lambda>k. if k \<in> owned sess_user uid L then None else L k)"
proof -
  define A where "A = {k \<in> owned sess_user uid L. \<forall>x. (None :: string option) = Some x \<longrightarrow> x \<noteq> [] \<longrightarrow> k \<noteq> session_key cfg x}"
  have A: "A = owned sess_user uid L" by (simp add: A_def)
  have "fst (revoke_all (mem_manager gk cfg) t uid None (sess w)) = Inr (int (card A))"
    "live_sessions gk cfg t (snd (revoke_all (mem_manager gk cfg) t uid None (sess w))) = drop_keys A L"
    using sm.revoke_all_run [of gk cfg "sess w" A uid t None] assms by (auto simp: A_def world_defs)
  then show ?thesis by (auto simp: in_sessions_run revoke_all_def drop_keys_def A fun_eq_iff)
qed

lemma link_run:
  fixes w :: "('b, 's, 'c, 'm) world"
  assumes "R = oa_repo S" and "oauth_columns R info" and "user_row R uid (db w) = Some u" and "email_verified R u"
    and "get_field R u (provider_column info) VNone = VNone" and "u' = linked_row R info (now f) u"
  shows "\<exists>d. link_account S f g u info w = (Inr u', w\<lparr>db := d\<rparr>) \<and> user_row R uid d = Some u'
    \<and> (\<forall>v. v \<noteq> uid \<longrightarrow> user_row R v d = user_row R v (db w))"
proof -
  have cols: "\<forall>(k, v) \<in> set (link_fields info (now f)). col R k \<noteq> col R ''id''"
    using oauth_cols(3) [OF assms(2)] by (auto simp: link_fields_def written_fields_def provider_column_def inj_on_def)
  note up = update_user_run [OF assms(3) pk_user_row [OF assms(3)] cols]
  show ?thesis
    using up assms(4,5) by (simp add: link_account_def Let_def assms(1) [symmetric] provider_column_def [symmetric] bind_run in_db_run
        ret_run assms(6) linked_row_def) blast
qed

lemma claim_row_run:
  fixes w :: "('b, 's, 'c, 'm) world"
  assumes "R = oa_repo S" and "oauth_columns R info" and "user_row R uid (db w) = Some u" and "u (col R ''token_version'') = Some (VInt n)"
    and "u' = (claimed_row R info (now f) g u)(col R ''token_version'' \<mapsto> VInt (n + 1))"
  shows "\<exists>d. bind (in_db (update_user R u (link_fields info (now f) @ claim_fields g))) (\<lambda>u1. in_db (increment_token_version R u1)) w
      = (Inr u', w\<lparr>db := d\<rparr>) \<and> user_row R uid d = Some u'
    \<and> (\<forall>v. v \<noteq> uid \<longrightarrow> user_row R v d = user_row R v (db w)) \<and> pk R u' = uid"
proof -
  let ?kv = "link_fields info (now f) @ claim_fields g"
  note c = oauth_cols [OF assms(2)]
  have keys: "fst ` set ?kv = set (written_fields info)" using written_data(2) [of info "now f" g] by (metis set_map)
  have "col R k \<noteq> col R ''id''" "col R k \<noteq> col R ''token_version''" if "k \<in> set (written_fields info)" for k
    using that c(3) by (auto simp: inj_on_def written_fields_def MFA_FIELDS_def provider_column_def)
  then have cols: "\<forall>(k, v) \<in> set ?kv. col R k \<noteq> col R ''id''" and tv: "col R ''token_version'' \<notin> col R ` fst ` set ?kv"
    using keys by fastforce+
  note up = update_user_run [OF assms(3) pk_user_row [OF assms(3)] cols]
  have n: "apply_fields R ?kv u (col R ''token_version'') = Some (VInt n)" using written_elsewhere [OF tv] assms(4) by simp
  have tvid: "col R ''token_version'' \<noteq> col R ''id''" using c(3) by (auto simp: inj_on_def)
  note inc = increment_run [OF up(2) pk_user_row [OF up(2)] c(5) tvid n]
  have u': "u' = (apply_fields R ?kv u)(col R ''token_version'' \<mapsto> VInt (n + 1))" by (simp add: assms(5) claimed_row_def)
  have run: "bind (in_db (update_user R u ?kv)) (\<lambda>u1. in_db (increment_token_version R u1)) w
      = (Inr u', w\<lparr>db := snd (increment_token_version R (apply_fields R ?kv u) (snd (update_user R u ?kv (db w))))\<rparr>)"
    using inc(1) up(1) by (simp add: bind_run in_db_run u')
  have "pk R u' = uid" using pk_user_row [OF inc(2)] by (simp add: u')
  then show ?thesis
    using run inc(2,3) up(3) by (auto simp: u')
qed

lemma claim_account_run:
  fixes w :: "('b, session_data mem_store, csrf_token mem_store, 'm) world"
  assumes "R = oa_repo S" and "oauth_columns R info" and "user_row R uid (db w) = Some u" and "\<not> email_verified R u"
    and "get_field R u (provider_column info) VNone = VNone" and "u (col R ''token_version'') = Some (VInt n)"
    and "oa_sessions S = Some (mem_manager gk cfg)" and "world_ok gk cfg (sess w)" and "L = live_sessions gk cfg (now f) (sess w)"
    and "u' = (claimed_row R info (now f) g u)(col R ''token_version'' \<mapsto> VInt (n + 1))"
  shows "\<exists>d s. link_account S f g u info w = (Inr u', w\<lparr>db := d, sess := s\<rparr>) \<and> user_row R uid d = Some u'
    \<and> (\<forall>v. v \<noteq> uid \<longrightarrow> user_row R v d = user_row R v (db w))
    \<and> live_sessions gk cfg (now f) s = (\<lambda>k. if k \<in> owned sess_user uid L then None else L k)"
proof -
  obtain d where d: "bind (in_db (update_user R u (link_fields info (now f) @ claim_fields g))) (\<lambda>u1. in_db (increment_token_version R u1)) w
      = (Inr u', w\<lparr>db := d\<rparr>)"
    and row: "user_row R uid d = Some u'" "\<forall>v. v \<noteq> uid \<longrightarrow> user_row R v d = user_row R v (db w)" "pk R u' = uid"
    using claim_row_run [OF assms(1-3,6,10)] by blast
  obtain k s where e: "in_sessions (terminate_all_user_sessions (mem_manager gk cfg) (now f) uid None) (w\<lparr>db := d\<rparr>)
      = (Inr k, w\<lparr>db := d, sess := s\<rparr>)"
    "live_sessions gk cfg (now f) s = (\<lambda>k. if k \<in> owned sess_user uid L then None else L k)"
    using end_sessions_run [of gk cfg "w\<lparr>db := d\<rparr>" L "now f" uid] assms(8,9) by auto
  have "link_account S f g u info w = (Inr u', w\<lparr>db := d, sess := s\<rparr>)"
    using assms(4,5,7) d row(3) e(1)
    by (auto simp: link_account_def Let_def assms(1) [symmetric] provider_column_def [symmetric] bind_run in_db_run ret_run
        split: sum.splits prod.splits)
  then show ?thesis using row e(2) by auto
qed

section \<open>Creating\<close>









section \<open>The account a profile reaches\<close>

definition by_provider :: "user_repo \<Rightarrow> oauth_user_info \<Rightarrow> row list \<Rightarrow> row option" where
  "by_provider R info rs = (case filter (\<lambda>r. r (col R (provider_column info)) = Some (VStr (oi_user_id info))) rs of [] \<Rightarrow> None | r # _ \<Rightarrow> Some r)"

definition by_address :: "user_repo \<Rightarrow> oauth_user_info \<Rightarrow> row list \<Rightarrow> row option" where
  "by_address R info rs = (case oi_email info of None \<Rightarrow> None | Some e \<Rightarrow> account_of R ''email'' e rs)"

definition vouched :: "oauth_user_info \<Rightarrow> bool" where
  "vouched info \<longleftrightarrow> oi_email info \<noteq> None \<and> oi_email info \<noteq> Some [] \<and> oi_email_verified info"

definition refused :: "(exc + 'a) \<times> 'w \<Rightarrow> 'w \<Rightarrow> bool" where
  "refused out w \<longleftrightarrow> (\<exists>code m. out = (Inl (OAuthAccountException code m), w))"

lemma first_filter:
  "(case filter P xs of [] \<Rightarrow> None | r # _ \<Rightarrow> Some r) = Some u \<Longrightarrow> u \<in> set xs \<and> P u"
proof -
  assume "(case filter P xs of [] \<Rightarrow> None | r # _ \<Rightarrow> Some r) = Some u"
  then have "u \<in> set (filter P xs)" by (auto split: list.splits simp del: set_filter)
  then show ?thesis by simp
qed

lemma by_address_row: "by_address R info rs = Some u \<Longrightarrow> u \<in> set rs"
  by (auto simp: by_address_def account_of_def dest: first_filter split: option.splits)

lemma get_by_oauth_run:
  assumes "has_col R (provider_column info)" and "unique_in (col R (provider_column info)) (rows d)"
  shows "get_by_oauth R (oi_provider info) (oi_user_id info) d = (Inr (by_provider R info (rows d)), d)"
  using unique_filter [OF assms(2), of "VStr (oi_user_id info)"] assms(1)
  by (auto simp: get_by_oauth_def Let_def provider_column_def [symmetric] select_where_def scalar_one_or_none_def run_simps by_provider_def)

lemma get_or_create_run:
  assumes "R = oa_repo S" and "oauth_columns R info"
    and "unique_in (col R (provider_column info)) (rows (db w))" and "unique_in (col R ''email'') (rows (db w))"
  shows "by_provider R info (rows (db w)) = Some u \<Longrightarrow>
      get_or_create_user S f g info w = (if is_active R u then Inr (u, False) else Inl (OAuthAccountException ''account_inactive'' ''This account is disabled.''), w)"
    and "by_provider R info (rows (db w)) = None \<Longrightarrow> \<not> vouched info \<Longrightarrow> refused (get_or_create_user S f g info w) w"
    and "by_provider R info (rows (db w)) = None \<Longrightarrow> vouched info \<Longrightarrow> by_address R info (rows (db w)) = Some u \<Longrightarrow>
      get_or_create_user S f g info w = bind (refuse_inactive R u) (\<lambda>_. bind (link_account S f g u info) (\<lambda>u'. ret (u', False))) w"
    and "by_provider R info (rows (db w)) = None \<Longrightarrow> vouched info \<Longrightarrow> by_address R info (rows (db w)) = None \<Longrightarrow>
      refused (get_or_create_user S f g info w) w
      \<or> get_or_create_user S f g info w = bind (in_db (create_oauth_user S f g info)) (\<lambda>user. ret (user, True)) w"
proof -
  note c = oauth_cols [OF assms(2)]
  have pid: "has_col R (provider_column info)" by (rule c(4)) (simp add: written_fields_def)
  note o = get_by_oauth_run [OF pid assms(3)]
  have e: "get_by_email R e (db w) = (Inr (account_of R ''email'' e (rows (db w))), db w)" for e
    using get_by_field_run [OF c(6) assms(4)] by (simp add: get_by_email_def account_of_def)
  note defs = get_or_create_user_def Let_def assms(1) [symmetric] bind_run in_db_run o e refuse_inactive_def ret_run raise_run refused_def
  show "by_provider R info (rows (db w)) = Some u \<Longrightarrow>
      get_or_create_user S f g info w = (if is_active R u then Inr (u, False) else Inl (OAuthAccountException ''account_inactive'' ''This account is disabled.''), w)"
    by (simp add: defs)
  show "by_provider R info (rows (db w)) = None \<Longrightarrow> \<not> vouched info \<Longrightarrow> refused (get_or_create_user S f g info w) w"
    by (auto simp: defs vouched_def split: option.split)
  show "by_provider R info (rows (db w)) = None \<Longrightarrow> vouched info \<Longrightarrow> by_address R info (rows (db w)) = Some u \<Longrightarrow>
      get_or_create_user S f g info w = bind (refuse_inactive R u) (\<lambda>_. bind (link_account S f g u info) (\<lambda>u'. ret (u', False))) w"
    by (auto simp: defs vouched_def by_address_def split: option.splits)
  show "by_provider R info (rows (db w)) = None \<Longrightarrow> vouched info \<Longrightarrow> by_address R info (rows (db w)) = None \<Longrightarrow>
      refused (get_or_create_user S f g info w) w
      \<or> get_or_create_user S f g info w = bind (in_db (create_oauth_user S f g info)) (\<lambda>user. ret (user, True)) w"
    by (auto simp: defs vouched_def by_address_def split: option.splits)
qed

lemma unusable_never_verifies: "bcrypt_shape L \<Longrightarrow> \<not> verify_password L p (Some (make_unusable_password t))"
  by (auto simp: bcrypt_shape_def check_pw_def verify_password_def matching_form_def Let_def or_empty_def utf8_def utf8_char_def
      make_unusable_password_def)

text \<open>What linking leaves of the account, and what a claim takes from whoever held it before.\<close>

lemma linked_row_facts:
  assumes "oauth_columns R info"
  shows "get_field R (linked_row R info t u) (provider_column info) VNone = VStr (oi_user_id info)"
    and "c \<notin> col R ` {provider_column info, ''oauth_provider'', ''oauth_updated_at''} \<Longrightarrow> linked_row R info t u c = u c"
  using written_get [OF assms, of "link_fields info t" t "undefined" "provider_column info" u VNone]
    written_elsewhere [of c R "link_fields info t" u]
  by (auto simp: linked_row_def link_fields_def written_fields_def provider_column_def)

lemma claimed_row_facts:
  assumes "oauth_columns R info" and "u' = (claimed_row R info t g u)(col R ''token_version'' \<mapsto> VInt n)"
  shows "get_field R u' (provider_column info) VNone = VStr (oi_user_id info)"
    and "stored_hash R u' = Some (make_unusable_password (of_password g))" and "email_verified R u'" and "\<not> is_enrolled R u'"
    and "row_token_version R u' = n"
proof -
  let ?kv = "link_fields info t @ claim_fields g"
  note c = oauth_cols [OF assms(1)]
  have k: "col R k \<noteq> col R ''token_version''" if "k \<in> set (written_fields info)" for k
    using that c(3) by (auto simp: inj_on_def written_fields_def MFA_FIELDS_def provider_column_def)
  have get: "get_field R u' k dflt = (case map_of ?kv k of Some v \<Rightarrow> v | None \<Rightarrow> get_field R u k dflt)" if "k \<in> set (written_fields info)" for k dflt
    using written_get [OF assms(1), of ?kv t g k u dflt] k [OF that] that by (simp add: assms(2) get_updated claimed_row_def)
  have d: "distinct (written_fields info)" by (rule c(1))
  note defs = link_fields_def claim_fields_def written_fields_def provider_column_def MFA_FIELDS_def
  show "get_field R u' (provider_column info) VNone = VStr (oi_user_id info)"
    using get [of "provider_column info"] by (simp add: defs)
  have hp: "provider_column info \<noteq> ''hashed_password''" "provider_column info \<noteq> ''email_verified''" "provider_column info \<noteq> ''totp_confirmed_at''"
    using d by (auto simp: written_fields_def MFA_FIELDS_def)
  note hp = hp [unfolded provider_column_def]
  show "stored_hash R u' = Some (make_unusable_password (of_password g))"
    using get [of "''hashed_password''" VNone] hp by (simp add: defs stored_hash_def opt_str_def)
  show "email_verified R u'" using get [of "''email_verified''" "VBool False"] hp by (simp add: defs email_verified_def)
  show "\<not> is_enrolled R u'" using get [of "''totp_confirmed_at''" VNone] hp by (simp add: defs is_enrolled_def)
  show "row_token_version R u' = n" by (simp add: row_token_version_def assms(2) get_updated int_value_def)
qed




text \<open>
  C3. Linking and claiming. A vouched address of an active account without an id of that provider
  links the profile to it. An account whose own address was verified keeps everything else,
  password, version and sessions included. An account whose address was never verified is claimed:
  no password verifies any more, its second factor is gone, its version is raised by one and every
  session of it ends, so that whoever set it up before is out. No other account or session changes.
\<close>

theorem oauth_link_and_claim:
  fixes w :: "('b, session_data mem_store, csrf_token mem_store, 'm) world"
  assumes "R = oa_repo S" and "oauth_columns R info"
    and "unique_in (col R (provider_column info)) (rows (db w))" and "unique_in (col R ''email'') (rows (db w))"
    and "oa_sessions S = Some (mem_manager gk cfg)" and "world_ok gk cfg (sess w)" and "L = live_sessions gk cfg (now f) (sess w)"
    and "by_provider R info (rows (db w)) = None" and "vouched info" and "by_address R info (rows (db w)) = Some u"
    and "is_active R u" and "get_field R u (provider_column info) VNone = VNone"
    and "user_row R uid (db w) = Some u" and "u (col R ''token_version'') = Some (VInt n)"
  shows "\<exists>u' w'. get_or_create_user S f g info w = (Inr (u', False), w') \<and> user_row R uid (db w') = Some u'
    \<and> (\<forall>v. v \<noteq> uid \<longrightarrow> user_row R v (db w') = user_row R v (db w))
    \<and> get_field R u' (provider_column info) VNone = VStr (oi_user_id info)
    \<and> (if email_verified R u
       then sess w' = sess w \<and> (\<forall>c. c \<notin> col R ` {provider_column info, ''oauth_provider'', ''oauth_updated_at''} \<longrightarrow> u' c = u c)
       else (\<forall>C p. bcrypt_shape C \<longrightarrow> \<not> verify_password C p (stored_hash R u')) \<and> \<not> is_enrolled R u' \<and> email_verified R u'
         \<and> row_token_version R u' = n + 1
         \<and> live_sessions gk cfg (now f) (sess w') = (\<lambda>k. if k \<in> owned sess_user uid L then None else L k))"
proof -
  have run: "get_or_create_user S f g info w = bind (link_account S f g u info) (\<lambda>u'. ret (u', False)) w"
    using get_or_create_run(3) [OF assms(1-4,8-10)] assms(11) by (simp add: refuse_inactive_def bind_run ret_run)
  show ?thesis
  proof (cases "email_verified R u")
    case True
    obtain d where "link_account S f g u info w = (Inr (linked_row R info (now f) u), w\<lparr>db := d\<rparr>)"
      "user_row R uid d = Some (linked_row R info (now f) u)" "\<forall>v. v \<noteq> uid \<longrightarrow> user_row R v d = user_row R v (db w)"
      using link_run [OF assms(1,2,13) True assms(12) refl] by blast
    then show ?thesis using True linked_row_facts [OF assms(2)] by (auto simp: run bind_run ret_run)
  next
    case False
    define u' where "u' = (claimed_row R info (now f) g u)(col R ''token_version'' \<mapsto> VInt (n + 1))"
    obtain d s where o': "link_account S f g u info w = (Inr u', w\<lparr>db := d, sess := s\<rparr>)"
      "user_row R uid d = Some u'" "\<forall>v. v \<noteq> uid \<longrightarrow> user_row R v d = user_row R v (db w)"
      "live_sessions gk cfg (now f) s = (\<lambda>k. if k \<in> owned sess_user uid L then None else L k)"
      using claim_account_run [OF assms(1,2,13) False assms(12,14,5,6,7) u'_def] by blast
    show ?thesis
      using False o' claimed_row_facts [OF assms(2) u'_def] unusable_never_verifies by (auto simp: run bind_run ret_run)
  qed
qed

section \<open>An example\<close>

definition oauth_repo :: user_repo where
  "oauth_repo = demo_repo\<lparr>columns := LOGICAL_FIELDS, column_map := []\<rparr>"

definition demo_oauth :: "(session_data mem_store, csrf_token mem_store) oauth_service" where
  "demo_oauth = \<lparr>oa_repo = oauth_repo, oa_fields = None, oa_defaults = [], oa_sessions = Some (mem_manager ''g'' default_options)\<rparr>"

definition demo_profile :: oauth_user_info where
  "demo_profile = \<lparr>oi_provider = ''github'', oi_user_id = ''42'', oi_email = Some ''a@b.c'', oi_email_verified = True, oi_name = None,
     oi_given_name = None, oi_family_name = None, oi_username = Some ''Octo Cat'', oi_picture = None, oi_raw_data = []\<rparr>"

definition demo_oauth_fresh :: oauth_fresh where
  "demo_oauth_fresh = \<lparr>of_state = ''s'', of_verifier = ''v'', of_suffix = ''0a'', of_retry_suffix = ''0b'', of_password = ''p''\<rparr>"

lemma demo_oauth_facts:
  "oa_repo demo_oauth = oauth_repo" "oa_defaults demo_oauth = []" "oa_sessions demo_oauth = Some (mem_manager ''g'' default_options)"
  "vouched demo_profile" "oi_email demo_profile = Some ''a@b.c''" "provider_column demo_profile = ''github_id''" "oi_user_id demo_profile = ''42''"
  by (simp_all add: demo_oauth_def demo_profile_def vouched_def provider_column_def)

lemma oauth_repo_col: "col oauth_repo k = k" "has_col oauth_repo k \<longleftrightarrow> k \<in> set LOGICAL_FIELDS"
  by (simp_all add: oauth_repo_def col_def has_col_def)

lemma oauth_repo_columns: "oauth_columns oauth_repo demo_profile"
  by (simp add: oauth_columns_def oauth_repo_col written_fields_def demo_oauth_facts MFA_FIELDS_def LOGICAL_FIELDS_def)

lemma oauth_repo_rows:
  "unique_in c [text_id_row 1]" "by_provider oauth_repo demo_profile [text_id_row 1] = None"
  "by_address oauth_repo demo_profile [text_id_row 1] = Some (text_id_row 1)" "is_active oauth_repo (text_id_row 1)"
  "get_field oauth_repo (text_id_row 1) ''github_id'' VNone = VNone" "\<not> email_verified oauth_repo (text_id_row 1)"
  "user_row oauth_repo (VStr ''7'') \<lparr>rows = [text_id_row 1]\<rparr> = Some (text_id_row 1)"
  "text_id_row 1 (col oauth_repo ''token_version'') = Some (VInt 1)"
proof -
  have "canon ''a@b.c'' = ''a@b.c''" by code_simp
  then show "by_address oauth_repo demo_profile [text_id_row 1] = Some (text_id_row 1)"
    by (simp add: by_address_def account_of_def demo_oauth_facts login_value_def oauth_repo_col text_id_row_def demo_row_def)
qed (simp_all add: unique_in_def by_provider_def demo_oauth_facts oauth_repo_col text_id_row_def demo_row_def is_active_def get_field_def
    email_verified_def user_row_def)


theorem oauth_link_and_claim_witness:
  "\<exists>u' w'. get_or_create_user demo_oauth demo_fresh demo_oauth_fresh demo_profile (demo_app [text_id_row 1]) = (Inr (u', False), w')
    \<and> \<not> verify_password demo_crypto ''long'' (stored_hash oauth_repo u') \<and> row_token_version oauth_repo u' = 2"
proof -
  note th = oauth_link_and_claim [where R = oauth_repo and S = demo_oauth and w = "demo_app [text_id_row 1]" and gk = "''g''" and cfg = default_options
      and u = "text_id_row 1" and n = 1 and uid = "VStr ''7''" and f = demo_fresh and g = demo_oauth_fresh,
      OF _ oauth_repo_columns _ _ _ _ refl]
  show ?thesis using th demo_bcrypt(2) by (fastforce simp: demo_oauth_facts oauth_repo_rows)
qed

end
