(* ===== verification/Usernames.thy ===== *)
theory Usernames
  imports OAuthLaws
begin

text \<open>
  The usernames an OAuth sign-in makes: lower-case letters, digits and inner underscores, within
  the length of the column, and free when they are chosen.
\<close>

definition good_username :: "int \<Rightarrow> string \<Rightarrow> bool" where
  "good_username n u \<longleftrightarrow> u \<noteq> [] \<and> int (length u) \<le> n \<and> (\<forall>c \<in> set u. username_char c \<or> c = CHR ''_'') \<and> hd u \<noteq> CHR ''_'' \<and> last u \<noteq> CHR ''_''"

lemma username_char_plain: "username_char c \<Longrightarrow> c \<noteq> CHR ''_''"
  by (auto simp: username_char_def Let_def)

lemma squash_chars: "c \<in> set (squash b s) \<Longrightarrow> username_char c \<or> c = CHR ''_''"
  by (induction b s rule: squash.induct) (auto split: if_splits)

lemma rstrip_set: "set (rstrip_underscores s) \<subseteq> set s" and rstrip_length: "length (rstrip_underscores s) \<le> length s"
  using set_dropWhileD [of _ _ "rev s"] length_dropWhile_le [of _ "rev s"] by (auto simp: rstrip_underscores_def)

lemma rstrip_last: "rstrip_underscores s \<noteq> [] \<Longrightarrow> last (rstrip_underscores s) \<noteq> CHR ''_''"
  using hd_dropWhile [of "\<lambda>c. c = CHR ''_''" "rev s"] by (auto simp: rstrip_underscores_def last_rev)

lemma rstrip_Cons: "c \<noteq> CHR ''_'' \<Longrightarrow> rstrip_underscores (c # s) = c # rstrip_underscores s"
  by (simp add: rstrip_underscores_def dropWhile_append)

lemma strip_rstrip: "strip_underscores s = rstrip_underscores (dropWhile (\<lambda>c. c = CHR ''_'') s)"
  by (simp add: strip_underscores_def rstrip_underscores_def)

lemma rstrip_hd: "hd s \<noteq> CHR ''_'' \<Longrightarrow> s \<noteq> [] \<Longrightarrow> rstrip_underscores s \<noteq> [] \<and> hd (rstrip_underscores s) = hd s"
  by (cases s) (simp_all add: rstrip_Cons)

lemma strip_hd: "strip_underscores s \<noteq> [] \<Longrightarrow> hd (strip_underscores s) \<noteq> CHR ''_''"
proof (cases "dropWhile (\<lambda>c. c = CHR ''_'') s")
  case (Cons c t)
  then have "c \<noteq> CHR ''_''" by (auto simp: dropWhile_eq_Cons_conv)
  then show ?thesis using Cons by (simp add: strip_rstrip rstrip_Cons)
qed (simp add: strip_rstrip rstrip_underscores_def)

lemma strip_set: "set (strip_underscores s) \<subseteq> set s"
  unfolding strip_rstrip using rstrip_set [of "dropWhile (\<lambda>c. c = CHR ''_'') s"] set_dropWhileD by fastforce

lemma good_cut:
  assumes "\<forall>c \<in> set v. username_char c \<or> c = CHR ''_''" and "v \<noteq> []" and "hd v \<noteq> CHR ''_''" and "1 \<le> n"
  shows "good_username n (rstrip_underscores (take (nat n) v))"
proof -
  have t: "take (nat n) v \<noteq> []" "hd (take (nat n) v) = hd v" using assms(2,4) by (cases v; simp add: take_Cons')+
  have "set (rstrip_underscores (take (nat n) v)) \<subseteq> set v" using rstrip_set [of "take (nat n) v"] set_take_subset [of "nat n" v] by blast
  moreover have "int (length (rstrip_underscores (take (nat n) v))) \<le> n" using rstrip_length [of "take (nat n) v"] assms(4) by (simp add: min_def split: if_splits)
  ultimately show ?thesis
    using rstrip_hd [of "take (nat n) v"] rstrip_last [of "take (nat n) v"] t assms(1,3) by (auto simp: good_username_def)
qed

lemma sanitize_good: "1 \<le> n \<Longrightarrow> good_username n (sanitize_username raw n)"
proof -
  assume n: "1 \<le> n"
  define v where "v = strip_underscores (squash False (lower raw))"
  define w where "w = (if length v < USERNAME_MIN_LENGTH then strip_underscores (USERNAME_FALLBACK @ ''_'' @ v) else v)"
  have v: "\<forall>c \<in> set v. username_char c \<or> c = CHR ''_''" using strip_set squash_chars unfolding v_def by blast
  have u: "\<forall>c \<in> set (USERNAME_FALLBACK @ ''_'' @ v). username_char c \<or> c = CHR ''_''"
    using v by (auto simp: USERNAME_FALLBACK_def username_char_def)
  have f: "strip_underscores (USERNAME_FALLBACK @ ''_'' @ v) \<noteq> []" "hd (strip_underscores (USERNAME_FALLBACK @ ''_'' @ v)) \<noteq> CHR ''_''"
    by (simp_all add: strip_rstrip USERNAME_FALLBACK_def rstrip_Cons)
  have "\<forall>c \<in> set w. username_char c \<or> c = CHR ''_''" using v u strip_set [of "USERNAME_FALLBACK @ ''_'' @ v"] unfolding w_def by (cases "length v < USERNAME_MIN_LENGTH") (simp_all only: if_True if_False, blast+)
  moreover have "w \<noteq> []" "hd w \<noteq> CHR ''_''"
    using f strip_hd [of "squash False (lower raw)", folded v_def] unfolding w_def USERNAME_MIN_LENGTH_def
    by (cases "length v < 2"; force)+
  ultimately show ?thesis
    using good_cut n by (simp add: sanitize_username_def Let_def v_def [symmetric] w_def [symmetric])
qed

lemma digits_plain: "c \<in> set (str_of_nat n) \<Longrightarrow> username_char c" and digits_nonempty: "str_of_nat n \<noteq> []"
proof -
  show "c \<in> set (str_of_nat n) \<Longrightarrow> username_char c"
  proof (induction n rule: str_of_nat.induct)
    case (1 n)
    have d: "username_char (char_of (48 + m))" if "m < 10" for m :: nat
      using that by (simp add: username_char_def Let_def of_char_of)
    show ?case using 1 d by (subst (asm) (2) str_of_nat.simps) (auto split: if_splits)
  qed
  show "str_of_nat n \<noteq> []" using str_of_nat_hd [of n] by auto
qed

lemma suffixed_good:
  assumes "good_username (username_max_length S) base" and "suffix \<noteq> []" and "\<forall>c \<in> set suffix. username_char c"
  shows "good_username (username_max_length S) (username_with_suffix S base suffix)"
proof -
  let ?n = "username_max_length S"
  have n: "1 \<le> ?n" using assms(1) by (cases base) (auto simp: good_username_def)
  show ?thesis
  proof (cases "?n - int (length suffix) - 1 \<le> 0")
    case True
    have "take (nat ?n) suffix \<noteq> []" using assms(2) n by (cases suffix) (auto simp: take_Cons')
    moreover have "int (length (take (nat ?n) suffix)) \<le> ?n" using n by (auto simp: min_def)
    moreover have "username_char (hd (take (nat ?n) suffix))" "username_char (last (take (nat ?n) suffix))"
      using calculation(1) assms(3) by (meson hd_in_set last_in_set in_set_takeD)+
    moreover have "\<forall>c \<in> set (take (nat ?n) suffix). username_char c" using assms(3) in_set_takeD by fast
    ultimately have "good_username ?n (take (nat ?n) suffix)" unfolding good_username_def using username_char_plain by blast
    then show ?thesis using True by (simp add: username_with_suffix_def)
  next
    case False
    let ?k = "?n - int (length suffix) - 1"
    have "good_username ?k (rstrip_underscores (take (nat ?k) base))"
      using assms(1) False by (intro good_cut) (auto simp: good_username_def)
    then have "good_username ?n (rstrip_underscores (take (nat ?k) base) @ ''_'' @ suffix)"
      using username_char_plain [OF bspec [OF assms(3) last_in_set [OF assms(2)]]] assms(2,3) unfolding good_username_def by auto
    then show ?thesis using False by (simp add: username_with_suffix_def Let_def)
  qed
qed

lemma first_free_run:
  assumes "has_col R ''username''" and "unique_in (col R ''username'') (rows d)"
  shows "first_free R cs d = (Inr (find (\<lambda>c. \<not> (\<exists>r \<in> set (rows d). r (col R ''username'') = Some (VStr c))) cs), d)"
proof (induction cs)
  case (Cons c cs)
  let ?f = "filter (\<lambda>r. r (col R ''username'') = Some (VStr c)) (rows d)"
  have "username_exists R c d = (Inr (?f \<noteq> []), d)"
    using get_by_field_run [OF assms, of c]
    by (auto simp: username_exists_def get_by_username_def bind_run ret_run login_value_def split: list.split)
  moreover have "?f \<noteq> [] \<longleftrightarrow> (\<exists>r \<in> set (rows d). r (col R ''username'') = Some (VStr c))" by (simp add: filter_empty_conv)
  ultimately have "username_exists R c d = (Inr (\<exists>r \<in> set (rows d). r (col R ''username'') = Some (VStr c)), d)" by simp
  then show ?case using Cons by (simp add: bind_run ret_run)
qed (simp add: ret_run)

lemma find_SomeD: "find P xs = Some x \<Longrightarrow> x \<in> set xs \<and> P x"
  by (auto simp: find_Some_iff)

text \<open>
  Usernames of new accounts. The search for a username always ends with one, within 100
  lookups that change nothing: of lower-case letters, digits and inner underscores, not longer than
  the column, and used by no account, unless all candidates were taken and the random one is tried.
\<close>

theorem oauth_usernames:
  assumes "R = oa_repo S" and "1 \<le> username_max_length S" and "has_col R ''username''" and "unique_in (col R ''username'') (rows d)"
    and "of_suffix g \<noteq> []" and "\<forall>c \<in> set (of_suffix g). username_char c"
  shows "\<exists>u. unique_username S g (username_base S info) d = (Inr u, d) \<and> good_username (username_max_length S) u
    \<and> (u = random_username S (of_suffix g) (username_base S info) \<or> \<not> (\<exists>r \<in> set (rows d). r (col R ''username'') = Some (VStr u)))"
proof -
  let ?base = "username_base S info"
  let ?cs = "?base # map (\<lambda>n. username_with_suffix S ?base (str_of_nat n)) [1..<USERNAME_MAX_SUFFIX_ATTEMPTS]"
  let ?free = "\<lambda>c. \<not> (\<exists>r \<in> set (rows d). r (col R ''username'') = Some (VStr c))"
  have base: "good_username (username_max_length S) ?base"
    unfolding username_base_def Let_def by (rule sanitize_good [OF assms(2)])
  have good: "good_username (username_max_length S) c" if "c \<in> set ?cs" for c
    using that base suffixed_good [OF base digits_nonempty] digits_plain by auto
  have run: "unique_username S g ?base d = (Inr (case find ?free ?cs of Some u \<Rightarrow> u | None \<Rightarrow> random_username S (of_suffix g) ?base), d)"
    unfolding unique_username_def bind_run assms(1) [symmetric] first_free_run [OF assms(3,4)] by (simp add: ret_run split: option.split)
  have "good_username (username_max_length S) (random_username S (of_suffix g) ?base)"
    unfolding random_username_def by (rule suffixed_good [OF base assms(5,6)])
  then show ?thesis
    using run good find_SomeD [of ?free ?cs] by (cases "find ?free ?cs") (simp_all only: option.case, blast+)
qed

theorem oauth_usernames_witness:
  "\<exists>u. unique_username demo_oauth demo_oauth_fresh (username_base demo_oauth demo_profile) \<lparr>rows = [text_id_row 1]\<rparr> = (Inr u, \<lparr>rows = [text_id_row 1]\<rparr>)
    \<and> good_username 32 u"
proof -
  have m: "username_max_length demo_oauth = 32"
    by (simp add: username_max_length_def demo_oauth_facts oauth_repo_def demo_repo_def string_length_def USERNAME_MAX_LENGTH_def)
  have s: "of_suffix demo_oauth_fresh \<noteq> []" "\<forall>c \<in> set (of_suffix demo_oauth_fresh). username_char c"
    by (simp_all add: demo_oauth_fresh_def username_char_def Let_def)
  have r: "has_col (oa_repo demo_oauth) ''username''" by (simp add: demo_oauth_facts oauth_repo_col LOGICAL_FIELDS_def)
  show ?thesis
    using oauth_usernames [OF refl _ r _ s, of "\<lparr>rows = [text_id_row 1]\<rparr>" demo_profile] by (auto simp: m oauth_repo_rows(1))
qed

end
