(* ===== verification/Urls.thy ===== *)
theory Urls
  imports Totp Passwords
begin

text \<open>
  The parts of Python's \<open>urllib.parse\<close> and \<open>str\<close> that the OAuth flows call beside those of
  \<open>Utils\<close>: \<open>urlencode\<close>, the components of \<open>urlsplit\<close>, \<open>repr\<close>, \<open>replace\<close> and
  \<open>strip\<close> of a character; and \<open>oauth/paths.py\<close>.
\<close>

section \<open>Strings\<close>

definition strip_char :: "char \<Rightarrow> string \<Rightarrow> string" where
  "strip_char x s = rev (dropWhile (\<lambda>c. c = x) (rev (dropWhile (\<lambda>c. c = x) s)))"

definition rstrip_char :: "char \<Rightarrow> string \<Rightarrow> string" where
  "rstrip_char x s = rev (dropWhile (\<lambda>c. c = x) (rev s))"

text \<open>\<open>s.replace(old, new)\<close> for a non-empty \<open>old\<close>, and \<open>old in s\<close>.\<close>

function replace_all :: "string \<Rightarrow> string \<Rightarrow> string \<Rightarrow> string" where
  "replace_all old new [] = []"
| "replace_all old new (c # s) =
     (if old \<noteq> [] \<and> starts_with (c # s) old then new @ replace_all old new (drop (length old) (c # s))
      else c # replace_all old new s)"
  by pat_completeness auto
termination
  by (relation "measure (\<lambda>(old, new, s). length s)") auto

fun contains :: "string \<Rightarrow> string \<Rightarrow> bool" where
  "contains [] sub = (sub = [])"
| "contains (c # s) sub = (starts_with (c # s) sub \<or> contains s sub)"

text \<open>\<open>repr\<close> of ASCII text: double quotes when the text has single quotes only.\<close>

definition APOSTROPHE :: char where
  "APOSTROPHE = char_of (39 :: nat)"

definition repr_char :: "char \<Rightarrow> char \<Rightarrow> string" where
  "repr_char q c =
     (let n = (of_char c :: nat)
      in if c = q \<or> c = backslash then [backslash, c]
         else if n = 9 then backslash # ''t'' else if n = 10 then backslash # ''n'' else if n = 13 then backslash # ''r''
         else if n < 32 \<or> n = 127 then backslash # ''x'' @ [hex_nibble (n div 16), hex_nibble (n mod 16)]
         else [c])"

definition str_repr :: "string \<Rightarrow> string" where
  "str_repr s =
     (let q = (if APOSTROPHE \<in> set s \<and> CHR 0x22 \<notin> set s then CHR 0x22 else APOSTROPHE)
      in q # concat (map (repr_char q) s) @ [q])"

section \<open>URLs\<close>

definition quote_plus :: "string \<Rightarrow> string" where
  "quote_plus s = concat (map (\<lambda>c. if c = CHR '' '' then ''+'' else quote_all [c]) s)"

definition urlencode :: "(string \<times> string) list \<Rightarrow> string" where
  "urlencode params = join_with ''&'' (map (\<lambda>(k, v). quote_plus k @ ''='' @ quote_plus v) params)"

text \<open>
  \<open>urlsplit\<close> drops leading blanks and controls, and tabs and line ends anywhere; what follows the
  network location is path, query and fragment.
\<close>

definition url_clean :: "string \<Rightarrow> string" where
  "url_clean u = filter (\<lambda>c. (of_char c :: nat) \<notin> {9, 10, 13}) (dropWhile (\<lambda>c. (of_char c :: nat) \<le> 32) u)"

definition url_rest :: "string \<Rightarrow> string" where
  "url_rest u =
     (let rest = (if url_scheme u = [] then u else drop (length (url_scheme u) + 1) u)
      in if starts_with rest ''//'' then dropWhile (\<lambda>c. c \<notin> set ''/?#'') (drop 2 rest) else rest)"

definition url_fragment :: "string \<Rightarrow> string" where
  "url_fragment u = drop 1 (dropWhile (\<lambda>c. c \<noteq> CHR ''#'') (url_rest u))"

definition url_query :: "string \<Rightarrow> string" where
  "url_query u = drop 1 (dropWhile (\<lambda>c. c \<noteq> CHR ''?'') (takeWhile (\<lambda>c. c \<noteq> CHR ''#'') (url_rest u)))"

text \<open>
  Brackets have to match, and to hold an IPv6 address (an address of a later version is not
  modelled); otherwise \<open>urlsplit\<close> raises.
\<close>

definition after_last :: "char \<Rightarrow> string \<Rightarrow> string" where
  "after_last x s = rev (takeWhile (\<lambda>c. c \<noteq> x) (rev s))"

definition netloc_ok :: "string \<Rightarrow> bool" where
  "netloc_ok n =
     (if CHR ''['' \<in> set n \<or> CHR '']'' \<in> set n
      then (let h = after_last (CHR ''@'') n
            in starts_with h ''['' \<and> CHR '']'' \<in> set h
               \<and> parse_ipv6 (takeWhile (\<lambda>c. c \<noteq> CHR '']'') (drop 1 h)) \<noteq> None
               \<and> (let after = drop 1 (dropWhile (\<lambda>c. c \<noteq> CHR '']'') h) in after = [] \<or> starts_with after '':''))
      else True)"

definition url_hostname :: "string \<Rightarrow> string" where
  "url_hostname u =
     (let h = after_last (CHR ''@'') (url_netloc u)
      in lower (if starts_with h ''['' then takeWhile (\<lambda>c. c \<noteq> CHR '']'') (drop 1 h) else takeWhile (\<lambda>c. c \<noteq> CHR '':'') h))"

section \<open>Where the OAuth routes live\<close>

type_synonym oauth_paths = "(string \<times> string) list"

definition PROVIDER_FIELD :: string where
  "PROVIDER_FIELD = ''{provider}''"

definition DEFAULT_OAUTH_PATHS :: oauth_paths where
  "DEFAULT_OAUTH_PATHS =
     [(''prefix'', ''/oauth''), (''authorize_path'', ''/{provider}/authorize''), (''callback_path'', ''/{provider}/callback'')]"

definition resolve_oauth_paths :: "oauth_paths option \<Rightarrow> exc + oauth_paths" where
  "resolve_oauth_paths overrides =
     (let o' = (case overrides of None \<Rightarrow> [] | Some d \<Rightarrow> d)
      in if \<not> fst ` set o' \<subseteq> fst ` set DEFAULT_OAUTH_PATHS then Inl (ValueError ''Unknown oauth_paths key(s)'')
         else Inr (AList.updates (map fst o') (map snd o') DEFAULT_OAUTH_PATHS))"

definition path_of :: "oauth_paths \<Rightarrow> string \<Rightarrow> string" where
  "path_of ps k = (case map_of ps k of None \<Rightarrow> [] | Some p \<Rightarrow> p)"

definition callback_url :: "string \<Rightarrow> oauth_paths \<Rightarrow> string \<Rightarrow> string" where
  "callback_url base_url ps provider =
     (let callback = replace_all PROVIDER_FIELD provider (path_of ps ''callback_path'');
          slash = CHR ''/'';
          route = join_with [slash] (filter (\<lambda>p. p \<noteq> []) (map (strip_char slash) [path_of ps ''prefix'', callback]))
      in rstrip_char slash base_url @ [slash] @ route)"

definition is_redirect_target :: "string \<Rightarrow> exc + bool" where
  "is_redirect_target target =
     (if safe_redirect_path (Some target) [] = target then Inr True
      else (let u = url_clean target
            in if \<not> netloc_ok (url_netloc u) then Inl (ValueError ''Invalid URL'')
               else Inr (url_scheme u \<in> {''http'', ''https''} \<and> url_netloc u \<noteq> [])))"

end
