(* ===== verification/OAuthProviders.thy ===== *)
theory OAuthProviders
  imports Urls Registration
begin

text \<open>
  OAuth providers, \<open>crudauth/oauth\<close>: the authorization-code flow of \<open>provider.py\<close>, Google and
  GitHub, generic OpenID Connect with its discovery, and the registry of \<open>factory.py\<close>. HTTP is not
  part of the package: the answers of the provider's endpoints are a record of functions, and a
  body is the JSON value the client decodes, an object without repeated keys, a number as its text;
  \<open>None\<close> is a body that is not JSON.
\<close>

section \<open>Constants\<close>

definition GOOGLE :: string where "GOOGLE = ''google''"

definition GITHUB :: string where "GITHUB = ''github''"

definition GOOGLE_AUTHORIZE_ENDPOINT :: string where
  "GOOGLE_AUTHORIZE_ENDPOINT = ''https://accounts.google.com/o/oauth2/v2/auth''"

definition GOOGLE_TOKEN_ENDPOINT :: string where
  "GOOGLE_TOKEN_ENDPOINT = ''https://oauth2.googleapis.com/token''"

definition GOOGLE_USERINFO_ENDPOINT :: string where
  "GOOGLE_USERINFO_ENDPOINT = ''https://www.googleapis.com/oauth2/v3/userinfo''"

definition GOOGLE_DEFAULT_SCOPES :: "string list" where
  "GOOGLE_DEFAULT_SCOPES = [''openid'', ''https://www.googleapis.com/auth/userinfo.email'', ''https://www.googleapis.com/auth/userinfo.profile'']"

definition GITHUB_AUTHORIZE_ENDPOINT :: string where
  "GITHUB_AUTHORIZE_ENDPOINT = ''https://github.com/login/oauth/authorize''"

definition GITHUB_TOKEN_ENDPOINT :: string where
  "GITHUB_TOKEN_ENDPOINT = ''https://github.com/login/oauth/access_token''"

definition GITHUB_USERINFO_ENDPOINT :: string where
  "GITHUB_USERINFO_ENDPOINT = ''https://api.github.com/user''"

definition GITHUB_EMAILS_ENDPOINT :: string where
  "GITHUB_EMAILS_ENDPOINT = ''https://api.github.com/user/emails''"

definition GITHUB_DEFAULT_SCOPES :: "string list" where
  "GITHUB_DEFAULT_SCOPES = [''read:user'', ''user:email'']"

definition OIDC_DISCOVERY_PATH :: string where
  "OIDC_DISCOVERY_PATH = ''/.well-known/openid-configuration''"

definition OIDC_DEFAULT_SCOPES :: "string list" where
  "OIDC_DEFAULT_SCOPES = [''openid'', ''profile'', ''email'']"

definition OIDC_LOCAL_HOSTS :: "string list" where
  "OIDC_LOCAL_HOSTS = [''localhost'', ''127.0.0.1'', ''::1'']"

definition TOKEN_AUTH_POST :: string where
  "TOKEN_AUTH_POST = ''client_secret_post''"

definition TOKEN_AUTH_BASIC :: string where
  "TOKEN_AUTH_BASIC = ''client_secret_basic''"

section \<open>JSON values as Python has them\<close>

type_synonym json_object = "(string \<times> json) list"

definition jget :: "json_object \<Rightarrow> string \<Rightarrow> json" where
  "jget o' k = (case map_of o' k of None \<Rightarrow> JNull | Some v \<Rightarrow> v)"

fun json_truthy :: "json \<Rightarrow> bool" where
  "json_truthy JNull = False"
| "json_truthy (JBool b) = b"
| "json_truthy (JNumber n) = (\<exists>c \<in> set (takeWhile (\<lambda>c. c \<notin> set ''eE'') n). c \<in> set ''123456789'')"
| "json_truthy (JString s) = (s \<noteq> [])"
| "json_truthy (JArray xs) = (xs \<noteq> [])"
| "json_truthy (JObject kvs) = (kvs \<noteq> [])"

text \<open>\<open>repr\<close> and \<open>str\<close> of what \<open>json\<close> decodes to.\<close>

fun json_repr :: "json \<Rightarrow> string" where
  "json_repr JNull = ''None''"
| "json_repr (JBool b) = (if b then ''True'' else ''False'')"
| "json_repr (JNumber n) = n"
| "json_repr (JString s) = str_repr s"
| "json_repr (JArray xs) = ''['' @ join_with '', '' (map json_repr xs) @ '']''"
| "json_repr (JObject kvs) = ''{'' @ join_with '', '' (map (\<lambda>(k, v). str_repr k @ '': '' @ json_repr v) kvs) @ ''}''"

definition json_str :: "json \<Rightarrow> string" where
  "json_str v = (case v of JString s \<Rightarrow> s | _ \<Rightarrow> json_repr v)"

text \<open>A field \<open>str | None\<close> of a pydantic model: anything else is a validation error.\<close>

definition str_field :: "json \<Rightarrow> exc + string option" where
  "str_field v = (case v of JNull \<Rightarrow> Inr None | JString s \<Rightarrow> Inr (Some s) | _ \<Rightarrow> Inl (ValueError ''string_type''))"

fun pyval_of_json :: "json \<Rightarrow> pyval" where
  "pyval_of_json JNull = VNone"
| "pyval_of_json (JBool b) = VBool b"
| "pyval_of_json (JNumber n) = (case int_of_str n of None \<Rightarrow> VStr n | Some i \<Rightarrow> VInt i)"
| "pyval_of_json (JString s) = VStr s"
| "pyval_of_json (JArray xs) = VList (map pyval_of_json xs)"
| "pyval_of_json (JObject kvs) = VDict (map (\<lambda>(k, v). (k, pyval_of_json v)) kvs)"

section \<open>The port\<close>

record http_response =
  resp_status :: int
  resp_json :: "json option"

record http_client =
  http_post :: "string \<Rightarrow> (string \<times> string) list \<Rightarrow> (string \<times> string) list \<Rightarrow> (string \<times> string) option \<Rightarrow> exc + http_response"
  http_get :: "string \<Rightarrow> (string \<times> string) list \<Rightarrow> exc + http_response"

text \<open>
  The classes of providers: an OpenID Connect provider has its issuer and whether its endpoints are
  resolved; one of the application's own has its \<open>process_user_info\<close>.
\<close>

datatype provider_class = Google | GitHub | OIDC string bool | Custom_provider "json_object \<Rightarrow> exc + oauth_user_info"

record oauth_provider =
  pv_class :: provider_class
  client_id :: string
  client_secret :: string
  redirect_uri :: string
  scopes :: "string list"
  authorize_endpoint :: string
  token_endpoint :: string
  userinfo_endpoint :: string
  provider_name :: string
  token_auth_method :: string

definition returned :: "exc + 'a \<Rightarrow> ('x, 'a) prog" where
  "returned x = (case x of Inl e \<Rightarrow> raise e | Inr a \<Rightarrow> ret a)"

definition ensure_ready :: "oauth_provider \<Rightarrow> ('x, unit) prog" where
  "ensure_ready P =
     (case pv_class P of
        OIDC _ False \<Rightarrow> raise (RuntimeError (''The '' @ str_repr (provider_name P) @ '' OIDC provider hasn't resolved its endpoints yet. ''
          @ ''Await auth.initialize() in your app's lifespan startup, before serving.''))
      | _ \<Rightarrow> ret ())"

text \<open>\<open>base64.urlsafe_b64encode\<close> without its padding, of the digest of the verifier.\<close>

definition url_safe :: "char \<Rightarrow> char" where
  "url_safe c = (if c = CHR ''+'' then CHR ''-'' else if c = CHR ''/'' then CHR ''_'' else c)"

definition code_challenge_of :: "string \<Rightarrow> string" where
  "code_challenge_of verifier = rstrip_char (CHR ''='') (map url_safe (b64encode (sha256 verifier)))"

record authorization =
  auth_url :: string
  auth_state :: string
  auth_verifier :: "string option"

text \<open>\<open>params.update(extra)\<close> is \<open>dict_update\<close> on text.\<close>

definition get_authorization_url :: "oauth_provider \<Rightarrow> string \<Rightarrow> string \<Rightarrow> string option \<Rightarrow> bool \<Rightarrow> (string \<times> string) list \<Rightarrow>
    ('x, authorization) prog" where
  "get_authorization_url P drawn_state verifier state pkce extra_params =
     bind (ensure_ready P) (\<lambda>_.
     let st = (case state of Some s \<Rightarrow> if s \<noteq> [] then s else drawn_state | None \<Rightarrow> drawn_state);
         params = [(''client_id'', client_id P), (''redirect_uri'', redirect_uri P), (''response_type'', ''code''), (''state'', st),
                   (''scope'', join_with '' '' (scopes P))]
                  @ (if pkce then [(''code_challenge'', code_challenge_of verifier), (''code_challenge_method'', ''S256'')] else [])
     in ret \<lparr>auth_url = authorize_endpoint P @ ''?'' @ urlencode (AList.updates (map fst extra_params) (map snd extra_params) params),
             auth_state = st, auth_verifier = (if pkce then Some verifier else None)\<rparr>)"

definition ok_json :: "exc + http_response \<Rightarrow> ('x, json) prog" where
  "ok_json answer =
     bind (returned answer) (\<lambda>resp.
     if resp_status resp < 200 \<or> 299 < resp_status resp then raise (HTTPError ''HTTPStatusError'')
     else (case resp_json resp of None \<Rightarrow> raise (ValueError ''JSONDecodeError'') | Some j \<Rightarrow> ret j))"

definition base_exchange_code :: "http_client \<Rightarrow> oauth_provider \<Rightarrow> string \<Rightarrow> string option \<Rightarrow> (string \<times> string) list \<Rightarrow> ('x, json) prog" where
  "base_exchange_code H P code code_verifier headers =
     bind (ensure_ready P) (\<lambda>_.
     let form = [(''client_id'', client_id P), (''code'', code), (''redirect_uri'', redirect_uri P), (''grant_type'', ''authorization_code'')];
         basic = client_secret P \<noteq> [] \<and> token_auth_method P = TOKEN_AUTH_BASIC;
         form1 = form @ (if client_secret P \<noteq> [] \<and> \<not> basic then [(''client_secret'', client_secret P)] else []);
         form2 = form1 @ (case code_verifier of Some v \<Rightarrow> if v \<noteq> [] then [(''code_verifier'', v)] else [] | None \<Rightarrow> []);
         req_headers = AList.updates (map fst headers) (map snd headers) [(''Accept'', ''application/json'')]
     in ok_json (http_post H (token_endpoint P) form2 req_headers (if basic then Some (client_id P, client_secret P) else None)))"

definition exchange_code :: "http_client \<Rightarrow> oauth_provider \<Rightarrow> string \<Rightarrow> string option \<Rightarrow> (string \<times> string) list \<Rightarrow> ('x, json) prog" where
  "exchange_code H P code code_verifier headers =
     (case pv_class P of
        GitHub \<Rightarrow> base_exchange_code H P code code_verifier (AList.updates (map fst headers) (map snd headers) [(''Accept'', ''application/json'')])
      | _ \<Rightarrow> base_exchange_code H P code code_verifier headers)"

definition bearer_headers :: "json \<Rightarrow> (string \<times> string) list" where
  "bearer_headers tok = [(''Authorization'', ''Bearer '' @ json_str tok), (''Accept'', ''application/json'')]"

definition base_get_user_info :: "http_client \<Rightarrow> oauth_provider \<Rightarrow> json \<Rightarrow> ('x, json) prog" where
  "base_get_user_info H P tok =
     bind (ensure_ready P) (\<lambda>_. ok_json (http_get H (userinfo_endpoint P) (bearer_headers tok)))"

text \<open>GitHub's addresses come from an endpoint of their own.\<close>

definition github_get_user_info :: "http_client \<Rightarrow> oauth_provider \<Rightarrow> json \<Rightarrow> ('x, json) prog" where
  "github_get_user_info H P tok =
     bind (base_get_user_info H P tok) (\<lambda>profile.
     bind (returned (http_get H GITHUB_EMAILS_ENDPOINT (bearer_headers tok))) (\<lambda>resp.
     if resp_status resp = 200
     then (case resp_json resp of
             None \<Rightarrow> raise (ValueError ''JSONDecodeError'')
           | Some emails \<Rightarrow>
               (case profile of
                  JObject kvs \<Rightarrow> ret (JObject (AList.update ''emails'' emails kvs))
                | _ \<Rightarrow> raise (TypeError ''item assignment'')))
     else ret profile))"

definition get_user_info :: "http_client \<Rightarrow> oauth_provider \<Rightarrow> json \<Rightarrow> ('x, json) prog" where
  "get_user_info H P tok =
     (case pv_class P of GitHub \<Rightarrow> github_get_user_info H P tok | _ \<Rightarrow> base_get_user_info H P tok)"

section \<open>What a provider says of the user\<close>

text \<open>The first entry with a property; \<open>entry.get\<close> raises on what is not an object.\<close>

fun first_entry :: "(json_object \<Rightarrow> bool) \<Rightarrow> json list \<Rightarrow> exc + json_object option" where
  "first_entry P [] = Inr None"
| "first_entry P (e # es) =
     (case e of JObject kvs \<Rightarrow> if P kvs then Inr (Some kvs) else first_entry P es | _ \<Rightarrow> Inl (AttributeError ''get''))"

definition is_primary :: "json_object \<Rightarrow> bool" where
  "is_primary e \<longleftrightarrow> json_truthy (jget e ''primary'')"

definition is_verified :: "json_object \<Rightarrow> bool" where
  "is_verified e \<longleftrightarrow> jget e ''verified'' = JBool True"

definition select_github_email :: "json list \<Rightarrow> exc + json \<times> bool" where
  "select_github_email emails =
     (case first_entry (\<lambda>e. is_primary e \<and> is_verified e) emails of
        Inl x \<Rightarrow> Inl x
      | Inr (Some e) \<Rightarrow> Inr (jget e ''email'', True)
      | Inr None \<Rightarrow>
          (case first_entry is_verified emails of
             Inl x \<Rightarrow> Inl x
           | Inr (Some e) \<Rightarrow> Inr (jget e ''email'', True)
           | Inr None \<Rightarrow>
               (case first_entry is_primary emails of
                  Inl x \<Rightarrow> Inl x
                | Inr (Some e) \<Rightarrow> Inr (jget e ''email'', False)
                | Inr None \<Rightarrow>
                    (case emails of
                       JObject e # _ \<Rightarrow> Inr (jget e ''email'', is_verified e)
                     | _ \<Rightarrow> Inr (JNull, False)))))"

text \<open>What iterating over the value of \<open>emails\<close> meets: an object or text gives text, a number nothing.\<close>

definition github_emails :: "json_object \<Rightarrow> exc + json list" where
  "github_emails info =
     (let v = jget info ''emails''
      in if \<not> json_truthy v then Inr []
         else (case v of
                 JArray xs \<Rightarrow> Inr xs
               | JObject kvs \<Rightarrow> Inr (map (\<lambda>(k, _). JString k) kvs)
               | JString s \<Rightarrow> Inr (map (\<lambda>c. JString [c]) s)
               | _ \<Rightarrow> Inl (TypeError ''not iterable'')))"

definition user_info_of :: "string \<Rightarrow> json_object \<Rightarrow> json \<Rightarrow> json \<Rightarrow> bool \<Rightarrow> (json \<times> json \<times> json \<times> json \<times> json) \<Rightarrow> exc + oauth_user_info" where
  "user_info_of provider info uid email vouch names =
     (let (name, given, family, username, picture) = names
      in case (str_field email, str_field name, str_field given, str_field family, str_field username, str_field picture) of
           (Inr e, Inr n, Inr g, Inr f, Inr u, Inr p) \<Rightarrow>
             Inr \<lparr>oi_provider = provider, oi_user_id = json_str uid, oi_email = e, oi_email_verified = vouch, oi_name = n,
                  oi_given_name = g, oi_family_name = f, oi_username = u, oi_picture = p,
                  oi_raw_data = map (\<lambda>(k, v). (k, pyval_of_json v)) info\<rparr>
         | _ \<Rightarrow> Inl (ValueError ''validation error''))"

definition google_user_info :: "json_object \<Rightarrow> exc + oauth_user_info" where
  "google_user_info info =
     (let sub = jget info ''sub''
      in if sub = JNull then Inl (ValueError ''Google did not return a user id (sub).'')
         else user_info_of GOOGLE info sub (jget info ''email'') (jget info ''email_verified'' = JBool True)
                (jget info ''name'', jget info ''given_name'', jget info ''family_name'', JNull, jget info ''picture''))"

definition github_user_info :: "json_object \<Rightarrow> exc + oauth_user_info" where
  "github_user_info info =
     (let gh_id = jget info ''id''
      in if gh_id = JNull then Inl (ValueError ''GitHub did not return a user id.'')
         else (case github_emails info of
                 Inl x \<Rightarrow> Inl x
               | Inr emails \<Rightarrow>
                   (case select_github_email emails of
                      Inl x \<Rightarrow> Inl x
                    | Inr (email, vouch) \<Rightarrow>
                        user_info_of GITHUB info gh_id email vouch
                          (jget info ''name'', JNull, JNull, jget info ''login'', jget info ''avatar_url''))))"

definition oidc_user_info :: "string \<Rightarrow> json_object \<Rightarrow> exc + oauth_user_info" where
  "oidc_user_info name info =
     (let subject = jget info ''sub''
      in if subject = JNull \<or> json_str subject = [] then Inl (BadRequestException (name @ '' did not return a subject (sub).''))
         else user_info_of name info subject (jget info ''email'') (jget info ''email_verified'' = JBool True)
                (jget info ''name'', jget info ''given_name'', jget info ''family_name'', jget info ''preferred_username'', jget info ''picture''))"

definition process_user_info :: "oauth_provider \<Rightarrow> json_object \<Rightarrow> exc + oauth_user_info" where
  "process_user_info P info =
     (case pv_class P of
        Google \<Rightarrow> google_user_info info
      | GitHub \<Rightarrow> github_user_info info
      | OIDC _ _ \<Rightarrow> oidc_user_info (provider_name P) info
      | Custom_provider process \<Rightarrow> process info)"

section \<open>Providers with fixed endpoints\<close>

text \<open>\<open>scopes or default\<close>, and the check of \<open>requires_client_secret\<close>.\<close>

definition scopes_or :: "string list option \<Rightarrow> string list \<Rightarrow> string list" where
  "scopes_or given dflt = (case given of None \<Rightarrow> dflt | Some xs \<Rightarrow> if xs = [] then dflt else xs)"

definition mk_provider :: "bool \<Rightarrow> oauth_provider \<Rightarrow> exc + oauth_provider" where
  "mk_provider requires_client_secret P =
     (if requires_client_secret \<and> client_secret P = []
      then Inl (ValueError (''The '' @ str_repr (provider_name P) @ '' OAuth provider needs a client_secret: ''
        @ ''set OAuthCredentials(client_secret=...).''))
      else Inr P)"

type_synonym provider_maker = "string \<Rightarrow> string \<Rightarrow> string \<Rightarrow> string list option \<Rightarrow> exc + oauth_provider"

definition google_provider :: provider_maker where
  "google_provider cid secret uri given =
     mk_provider True
       \<lparr>pv_class = Google, client_id = cid, client_secret = secret, redirect_uri = uri, scopes = scopes_or given GOOGLE_DEFAULT_SCOPES,
        authorize_endpoint = GOOGLE_AUTHORIZE_ENDPOINT, token_endpoint = GOOGLE_TOKEN_ENDPOINT, userinfo_endpoint = GOOGLE_USERINFO_ENDPOINT,
        provider_name = GOOGLE, token_auth_method = TOKEN_AUTH_POST\<rparr>"

definition github_provider :: provider_maker where
  "github_provider cid secret uri given =
     mk_provider True
       \<lparr>pv_class = GitHub, client_id = cid, client_secret = secret, redirect_uri = uri, scopes = scopes_or given GITHUB_DEFAULT_SCOPES,
        authorize_endpoint = GITHUB_AUTHORIZE_ENDPOINT, token_endpoint = GITHUB_TOKEN_ENDPOINT, userinfo_endpoint = GITHUB_USERINFO_ENDPOINT,
        provider_name = GITHUB, token_auth_method = TOKEN_AUTH_POST\<rparr>"

section \<open>OpenID Connect\<close>

definition normalize_issuer :: "string \<Rightarrow> exc + string" where
  "normalize_issuer given =
     (let s = strip given; u = url_clean s
      in if s = [] then Inl (ValueError ''OAuthCredentials.issuer cannot be empty.'')
         else if \<not> netloc_ok (url_netloc u) then Inl (ValueError ''Invalid IPv6 URL'')
         else if url_scheme u \<notin> {''http'', ''https''} \<or> url_netloc u = []
         then Inl (ValueError (''OIDC issuer must be an absolute http(s) URL, got '' @ str_repr given @ ''.''))
         else if url_query u \<noteq> [] \<or> url_fragment u \<noteq> []
         then Inl (ValueError (''OIDC issuer cannot carry a query or fragment, got '' @ str_repr given @ ''.''))
         else if url_scheme u = ''http'' \<and> url_hostname u \<notin> set OIDC_LOCAL_HOSTS
         then Inl (ValueError (''OIDC issuer '' @ str_repr given @ '' must use https (plain http is allowed only on ''
           @ ''127.0.0.1, ::1, localhost, for local development).''))
         else Inr (rstrip_char (CHR ''/'') s))"

definition oidc_provider :: "string \<Rightarrow> string \<Rightarrow> string \<Rightarrow> string \<Rightarrow> string \<Rightarrow> string list option \<Rightarrow> string \<times> string \<times> string \<Rightarrow>
    exc + oauth_provider" where
  "oidc_provider cid secret uri given_issuer name given endpoints =
     (let (authorize, token, userinfo) = endpoints
      in case normalize_issuer given_issuer of
           Inl e \<Rightarrow> Inl e
         | Inr normal \<Rightarrow>
             mk_provider False
               \<lparr>pv_class = OIDC normal (authorize \<noteq> [] \<and> token \<noteq> [] \<and> userinfo \<noteq> []), client_id = cid, client_secret = secret,
                redirect_uri = uri, scopes = scopes_or given OIDC_DEFAULT_SCOPES, authorize_endpoint = authorize, token_endpoint = token,
                userinfo_endpoint = userinfo, provider_name = name, token_auth_method = TOKEN_AUTH_POST\<rparr>)"

definition pick_token_auth :: "oauth_provider \<Rightarrow> json_object \<Rightarrow> string" where
  "pick_token_auth P document =
     (case jget document ''token_endpoint_auth_methods_supported'' of
        JArray supported \<Rightarrow>
          if client_secret P = [] then TOKEN_AUTH_POST
          else if JString TOKEN_AUTH_POST \<in> set supported then TOKEN_AUTH_POST
          else if JString TOKEN_AUTH_BASIC \<in> set supported then TOKEN_AUTH_BASIC
          else TOKEN_AUTH_POST
      | _ \<Rightarrow> TOKEN_AUTH_POST)"

definition REQUIRED_ENDPOINTS :: "string list" where
  "REQUIRED_ENDPOINTS = [''authorization_endpoint'', ''token_endpoint'', ''userinfo_endpoint'']"

text \<open>An endpoint the document gives is kept as its text. The provider of any other class has nothing to resolve.\<close>

definition initialize :: "http_client \<Rightarrow> oauth_provider \<Rightarrow> ('x, oauth_provider) prog" where
  "initialize H P =
     (case pv_class P of
        OIDC normal False \<Rightarrow>
          (let url = normal @ OIDC_DISCOVERY_PATH
           in bind (ok_json (http_get H url [(''Accept'', ''application/json'')])) (\<lambda>document.
              case document of
                JObject kvs \<Rightarrow>
                  (let declared = (if map_of kvs ''issuer'' = None then [] else json_str (jget kvs ''issuer''));
                       missing = filter (\<lambda>k. \<not> json_truthy (jget kvs k)) REQUIRED_ENDPOINTS
                   in if declared \<noteq> normal \<and> rstrip_char (CHR ''/'') declared \<noteq> normal
                      then raise (ValueError (''OIDC discovery issuer mismatch: configured '' @ str_repr normal @ '', document declares '' @ str_repr declared
                        @ ''. The document must declare the issuer it was fetched from; a mismatch means the wrong provider answered.''))
                      else if missing \<noteq> []
                      then raise (ValueError (''OIDC discovery at '' @ url @ '' is missing '' @ json_repr (JArray (map JString missing)) @ ''.''))
                      else ret (P\<lparr>pv_class := OIDC normal True, authorize_endpoint := json_str (jget kvs ''authorization_endpoint''),
                                  token_endpoint := json_str (jget kvs ''token_endpoint''),
                                  userinfo_endpoint := json_str (jget kvs ''userinfo_endpoint''),
                                  token_auth_method := pick_token_auth P kvs\<rparr>))
              | _ \<Rightarrow> raise (ValueError (''OIDC discovery at '' @ url @ '' did not return a JSON object.''))))
      | _ \<Rightarrow> ret P)"

definition from_discovery :: "http_client \<Rightarrow> string \<Rightarrow> string \<Rightarrow> string \<Rightarrow> string \<Rightarrow> string \<Rightarrow> string list option \<Rightarrow> ('x, oauth_provider) prog" where
  "from_discovery H given_issuer cid secret uri name given =
     bind (returned (oidc_provider cid secret uri given_issuer name given ([], [], []))) (initialize H)"

section \<open>The registry\<close>

type_synonym provider_registry = "(string \<times> provider_maker) list"

definition register_provider :: "provider_registry \<Rightarrow> string \<Rightarrow> provider_maker \<Rightarrow> provider_registry" where
  "register_provider reg name maker = AList.update name maker reg"

definition get_provider_class :: "provider_registry \<Rightarrow> string \<Rightarrow> provider_maker option" where
  "get_provider_class reg name = map_of reg name"

definition create_provider :: "provider_registry \<Rightarrow> string \<Rightarrow> provider_maker" where
  "create_provider reg name cid secret uri given =
     (case map_of reg name of
        None \<Rightarrow> Inl (ValueError (''Unknown OAuth provider: '' @ str_repr name))
      | Some maker \<Rightarrow> maker cid secret uri given)"

end
