(* ===== verification/OAuthRoutes.thy ===== *)
theory OAuthRoutes
  imports OAuthProviders OAuthAccounts
begin

text \<open>
  The OAuth routes, \<open>crudauth/oauth/router.py\<close>, over the world and a store of pending states. An
  answer is a redirect or a JSON body with its status; the cookies it sets and deletes go to the
  response cookies of the world.
\<close>

definition OAUTH_STATE_TTL_SECONDS :: int where
  "OAUTH_STATE_TTL_SECONDS = 30 * 60"

definition OAUTH_STATE_COOKIE_NAME :: string where
  "OAUTH_STATE_COOKIE_NAME = ''oauth_state''"

definition OAUTH_FAILED :: string where "OAUTH_FAILED = ''oauth_failed''"

definition INVALID_STATE :: string where "INVALID_STATE = ''invalid_state''"

definition ACCOUNT_INACTIVE :: string where "ACCOUNT_INACTIVE = ''account_inactive''"

record oauth_state =
  os_state :: string
  os_provider :: string
  os_verifier :: "string option"
  os_redirect_to :: "string option"
  os_created_at :: int

datatype oauth_response = Redirect string | JsonAnswer int body

record ('o, 's, 'c) oauth_router =
  ob_providers :: "(string \<times> oauth_provider) list"
  ob_store :: "('o, oauth_state) session_storage"
  ob_service :: "('s, 'c) oauth_service"
  ob_manager :: "('s, 'c) session_manager"
  ob_default_redirect :: string
  ob_mode :: string

definition build_oauth_router :: "('o, 's, 'c) oauth_router \<Rightarrow> string \<Rightarrow> string \<Rightarrow> exc + ('o, 's, 'c) oauth_router" where
  "build_oauth_router B authorize_path callback_path =
     (if ob_mode B \<notin> {''redirect'', ''json''} then Inl (ValueError (''response_mode must be 'redirect' or 'json'' @ [APOSTROPHE]))
      else case filter (\<lambda>p. \<not> contains p PROVIDER_FIELD) [authorize_path, callback_path] of
             [] \<Rightarrow> Inr B
           | p # _ \<Rightarrow> Inl (ValueError (''OAuth path '' @ str_repr p @ '' must contain '' @ str_repr PROVIDER_FIELD)))"

type_synonym ('b, 's, 'c, 'm, 'o) oauth_world = "('b, 's, 'c, 'm) world \<times> 'o"

type_synonym ('b, 's, 'c, 'm, 'o, 'a) oauth_prog = "(('b, 's, 'c, 'm, 'o) oauth_world, 'a) prog"

definition in_states :: "('o, 'a) prog \<Rightarrow> ('w \<times> 'o, 'a) prog" where
  "in_states m = zoom snd (\<lambda>x p. (fst p, x)) m"

lemma in_states_run [run_simps]: "in_states m p = (fst (m (snd p)), (fst p, snd (m (snd p))))"
  by (simp add: in_states_def run_simps)

section \<open>Answers\<close>

definition json_mode :: "('o, 's, 'c) oauth_router \<Rightarrow> bool" where
  "json_mode B \<longleftrightarrow> ob_mode B = ''json''"

definition the_provider :: "('o, 's, 'c) oauth_router \<Rightarrow> string \<Rightarrow> ('x, oauth_provider) prog" where
  "the_provider B name =
     (case map_of (ob_providers B) name of
        None \<Rightarrow> raise (BadRequestException (''Unknown or unconfigured OAuth provider: '' @ str_repr name))
      | Some P \<Rightarrow> ret P)"

definition add_cookies :: "cookie_op list \<Rightarrow> ('b, 's, 'c, 'm, 'o, unit) oauth_prog" where
  "add_cookies cs = in_app (modifies (\<lambda>w. w\<lparr>response_cookies := response_cookies w @ cs\<rparr>))"

definition set_state_cookie :: "('o, 's, 'c) oauth_router \<Rightarrow> string \<Rightarrow> cookie_op" where
  "set_state_cookie B v = SetCookie OAUTH_STATE_COOKIE_NAME v True (cookie_secure (opts (ob_manager B))) ''lax'' (cookie_path (opts (ob_manager B)))
     (Some OAUTH_STATE_TTL_SECONDS)"

definition clear_state_cookie :: "('o, 's, 'c) oauth_router \<Rightarrow> cookie_op" where
  "clear_state_cookie B = DeleteCookie OAUTH_STATE_COOKIE_NAME (cookie_path (opts (ob_manager B))) False ''lax''"

definition error_response :: "('o, 's, 'c) oauth_router \<Rightarrow> string \<Rightarrow> ('b, 's, 'c, 'm, 'o, oauth_response) oauth_prog" where
  "error_response B code =
     bind (add_cookies [clear_state_cookie B]) (\<lambda>_.
     ret (if json_mode B then JsonAnswer 400 [(''detail'', VStr code)]
          else Redirect (ob_default_redirect B @ (if CHR ''?'' \<in> set (ob_default_redirect B) then ''&'' else ''?'') @ ''error='' @ code)))"

definition invalid_state :: "('o, 's, 'c) oauth_router \<Rightarrow> ('b, 's, 'c, 'm, 'o, oauth_response) oauth_prog" where
  "invalid_state B =
     (if json_mode B then raise (BadRequestException ''Invalid or expired OAuth state'') else error_response B INVALID_STATE)"

section \<open>The routes\<close>

definition authorize_route :: "('b, 's, 'c, 'm) crud_auth \<Rightarrow> ('o, 's, 'c) oauth_router \<Rightarrow> fresh \<Rightarrow> oauth_fresh \<Rightarrow> request \<Rightarrow> string \<Rightarrow>
    string option \<Rightarrow> ('b, 's, 'c, 'm, 'o, oauth_response) oauth_prog" where
  "authorize_route A B f g r provider redirect_to =
     bind (in_app (limited A ''oauth_authorize'' By_ip f r)) (\<lambda>_.
     bind (the_provider B provider) (\<lambda>P.
     bind (get_authorization_url P (of_state g) (of_verifier g) None True []) (\<lambda>auth_data.
     bind (in_states (st_create (ob_store B) (now f)
             \<lparr>os_state = auth_state auth_data, os_provider = provider, os_verifier = auth_verifier auth_data,
              os_redirect_to = redirect_to, os_created_at = now f\<rparr> (auth_state auth_data) (Some OAUTH_STATE_TTL_SECONDS))) (\<lambda>_.
     bind (add_cookies [set_state_cookie B (auth_state auth_data)]) (\<lambda>_.
     ret (if json_mode B then JsonAnswer 200 [(''url'', VStr (auth_url auth_data))] else Redirect (auth_url auth_data)))))))"

text \<open>What the callback catches while it talks to the provider; \<open>None\<close> answers \<open>oauth_failed\<close>.\<close>

fun flow_error :: "exc \<Rightarrow> bool" where
  "flow_error (HTTPError _) = True"
| "flow_error (ValueError _) = True"
| "flow_error (KeyError _) = True"
| "flow_error (TypeError _) = True"
| "flow_error _ = False"

definition fetch_profile :: "http_client \<Rightarrow> oauth_provider \<Rightarrow> string \<Rightarrow> string option \<Rightarrow> ('x, oauth_user_info option) prog" where
  "fetch_profile H P code verifier =
     catch
       (bind (exchange_code H P code verifier []) (\<lambda>token.
        let tok = (case token of JObject kvs \<Rightarrow> jget kvs ''access_token'' | _ \<Rightarrow> JNull)
        in if \<not> json_truthy tok then ret None
           else bind (get_user_info H P tok) (\<lambda>raw.
                case raw of
                  JObject kvs \<Rightarrow> bind (returned (process_user_info P kvs)) (\<lambda>info. ret (Some info))
                | _ \<Rightarrow> ret None)))
       (\<lambda>e. if flow_error e then ret None else raise e)"

text \<open>The account, or the code of the refusal.\<close>

definition resolve_account :: "('o, 's, 'c) oauth_router \<Rightarrow> fresh \<Rightarrow> oauth_fresh \<Rightarrow> oauth_user_info \<Rightarrow>
    ('b, 's, 'c, 'm, 'o, string + row \<times> bool) oauth_prog" where
  "resolve_account B f g info =
     catch (bind (in_app (get_or_create_user (ob_service B) f g info)) (\<lambda>x. ret (Inr x)))
       (\<lambda>e. case e of OAuthAccountException code _ \<Rightarrow> ret (Inl code) | _ \<Rightarrow> raise e)"

definition oauth_event :: "oauth_user_info \<Rightarrow> bool \<Rightarrow> (string \<times> pyval) list" where
  "oauth_event info created =
     (let opt = (\<lambda>x. case x of None \<Rightarrow> VNone | Some s \<Rightarrow> VStr s)
      in [(''info'', VDict [(''provider'', VStr (oi_provider info)), (''provider_user_id'', VStr (oi_user_id info)),
            (''email'', opt (oi_email info)), (''email_verified'', VBool (oi_email_verified info)), (''name'', opt (oi_name info)),
            (''given_name'', opt (oi_given_name info)), (''family_name'', opt (oi_family_name info)),
            (''username'', opt (oi_username info)), (''picture'', opt (oi_picture info)), (''raw_data'', VDict (oi_raw_data info))]),
          (''created'', VBool created)])"

definition run_oauth_login :: "auth_hooks \<Rightarrow> (string \<times> pyval) list \<Rightarrow> oauth_user_info \<Rightarrow> bool \<Rightarrow> hook_context \<Rightarrow> (('b, 's, 'c, 'm) world, unit) prog" where
  "run_oauth_login Hs user info created ctx = run_with_db Hs (hook_event_of ''on_oauth_login'' (Some user) (oauth_event info created) ctx)"

definition user_payload :: "user_repo \<Rightarrow> row \<Rightarrow> body" where
  "user_payload R user =
     [(''user_id'', pk R user), (''username'', get_field R user ''username'' VNone), (''email'', get_field R user ''email'' VNone),
      (''is_superuser'', VBool (is_superuser R user))]"

definition oauth_metadata :: "string \<Rightarrow> metadata" where
  "oauth_metadata provider = [(''login_type'', VStr ''oauth''), (''oauth_provider'', VStr provider)]"

definition mfa_redirect :: "('o, 's, 'c) oauth_router \<Rightarrow> body \<Rightarrow> oauth_response" where
  "mfa_redirect B challenge =
     (if json_mode B then JsonAnswer 200 challenge
      else Redirect (ob_default_redirect B @ ''#mfa_challenge='' @ (case map_of challenge ''challenge'' of None \<Rightarrow> [] | Some v \<Rightarrow> py_str v)))"

text \<open>The session of an account that no second factor holds back.\<close>

definition start_oauth_session :: "('b, 's, 'c, 'm) auth_runtime \<Rightarrow> ('o, 's, 'c) oauth_router \<Rightarrow> fresh \<Rightarrow> request \<Rightarrow> string \<Rightarrow> row \<Rightarrow> string \<Rightarrow>
    ('b, 's, 'c, 'm, 'o, oauth_response) oauth_prog" where
  "start_oauth_session T B f r provider user redirect_url =
     (let R = repo T; M = ob_manager B
      in bind (in_app (in_sessions (create_session M (now f) (fresh_session f) (fresh_csrf f) r (pk R user) (oauth_metadata provider) None
                 (Some (row_token_version R user))))) (\<lambda>(sid, csrf).
         bind (in_app (run_after_login (hooks T) (to_dict R user)
                 (no_context\<lparr>hc_transport := Some ''oauth'', hc_request := Some r, hc_session_handle := Some (session_handle (opts M) sid)\<rparr>))) (\<lambda>_.
         bind (in_app (modifies (\<lambda>w. w\<lparr>response_cookies := set_session_cookies (opts M) sid csrf None (response_cookies w)\<rparr>))) (\<lambda>_.
         bind (add_cookies [clear_state_cookie B]) (\<lambda>_.
         ret (if json_mode B
              then JsonAnswer 200 [(''user'', VDict (user_payload R user)), (''csrf_token'', VStr csrf), (''redirect_to'', VStr redirect_url)]
              else Redirect redirect_url))))))"

definition finish_oauth :: "('b, 's, 'c, 'm) auth_runtime \<Rightarrow> ('o, 's, 'c) oauth_router \<Rightarrow> fresh \<Rightarrow> request \<Rightarrow> string \<Rightarrow> oauth_state \<Rightarrow> row \<Rightarrow>
    ('b, 's, 'c, 'm, 'o, oauth_response) oauth_prog" where
  "finish_oauth T B f r provider st user =
     (let R = repo T; redirect_url = safe_redirect_path (os_redirect_to st) (ob_default_redirect B)
      in bind (case mfa T of
                 None \<Rightarrow> ret None
               | Some V \<Rightarrow>
                   if \<not> mfa_oauth (mfa_conf V) then ret None
                   else in_app (challenge_login T V f r user ''session'' (''oauth:'' @ py_str (pk R user))
                          \<lparr>opt_remember_me = False, opt_scopes = None, opt_metadata = oauth_metadata provider,
                           opt_redirect_to = Some redirect_url\<rparr>)) (\<lambda>challenge.
         case challenge of
           Some c \<Rightarrow> bind (add_cookies [clear_state_cookie B]) (\<lambda>_. ret (mfa_redirect B c))
         | None \<Rightarrow> start_oauth_session T B f r provider user redirect_url))"

text \<open>From the verified state on.\<close>

definition redeem_callback :: "('b, 's, 'c, 'm) auth_runtime \<Rightarrow> ('o, 's, 'c) oauth_router \<Rightarrow> http_client \<Rightarrow> oauth_provider \<Rightarrow> fresh \<Rightarrow> oauth_fresh \<Rightarrow>
    request \<Rightarrow> string \<Rightarrow> string \<Rightarrow> oauth_state \<Rightarrow> ('b, 's, 'c, 'm, 'o, oauth_response) oauth_prog" where
  "redeem_callback T B H P f g r provider code st =
     (let R = repo T
      in bind (fetch_profile H P code (os_verifier st)) (\<lambda>profile.
         case profile of
           None \<Rightarrow> error_response B OAUTH_FAILED
         | Some info \<Rightarrow>
             bind (resolve_account B f g info) (\<lambda>account.
             case account of
               Inl refusal \<Rightarrow> error_response B refusal
             | Inr (user, created) \<Rightarrow>
                 bind (if created
                       then in_app (run_after_register (hooks T) (to_dict R user) (no_context\<lparr>hc_transport := Some ''oauth'', hc_request := Some r\<rparr>))
                       else ret ()) (\<lambda>_.
                 if \<not> is_active R user then error_response B ACCOUNT_INACTIVE
                 else
                   bind (in_app (run_oauth_login (hooks T) (to_dict R user) info created
                           ((request_context T r)\<lparr>hc_transport := Some ''oauth''\<rparr>))) (\<lambda>_.
                   finish_oauth T B f r provider st user)))))"

definition or_blank :: "string option \<Rightarrow> string" where
  "or_blank x = (case x of None \<Rightarrow> [] | Some s \<Rightarrow> s)"

definition callback_route :: "('b, 's, 'c, 'm) auth_runtime \<Rightarrow> ('o, 's, 'c) oauth_router \<Rightarrow> http_client \<Rightarrow> fresh \<Rightarrow> oauth_fresh \<Rightarrow> request \<Rightarrow> string \<Rightarrow>
    string option \<Rightarrow> string option \<Rightarrow> string option \<Rightarrow> ('b, 's, 'c, 'm, 'o, oauth_response) oauth_prog" where
  "callback_route T B H f g r provider code state error =
     bind (the_provider B provider) (\<lambda>P.
     if or_blank error \<noteq> [] \<or> or_blank code = [] \<or> or_blank state = [] then error_response B OAUTH_FAILED
     else
       (let bound = or_blank (cookie r OAUTH_STATE_COOKIE_NAME)
        in if bound = [] \<or> bound \<noteq> or_blank state then invalid_state B
           else
             bind (in_states (st_get_and_delete (ob_store B) (now f) (or_blank state))) (\<lambda>state_data.
             case state_data of
               None \<Rightarrow> invalid_state B
             | Some st \<Rightarrow>
                 if os_provider st \<noteq> provider then invalid_state B
                 else redeem_callback T B H P f g r provider (or_blank code) st)))"

end
