(* ===== verification/OAuthRouteLaws.thy ===== *)
theory OAuthRouteLaws
  imports OAuthRoutes OAuthLaws ResolutionLaws
begin

text \<open>
  What the OAuth flow promises: a callback acts only for the browser that began the sign-in, once,
  and what it comes to.
\<close>

section \<open>Runs of the parts\<close>

definition error_answer :: "('o, 's, 'c) oauth_router \<Rightarrow> string \<Rightarrow> oauth_response" where
  "error_answer B code =
     (if json_mode B then JsonAnswer 400 [(''detail'', VStr code)]
      else Redirect (ob_default_redirect B @ (if CHR ''?'' \<in> set (ob_default_redirect B) then ''&'' else ''?'') @ ''error='' @ code))"

definition with_cookies :: "cookie_op list \<Rightarrow> ('b, 's, 'c, 'm) world \<Rightarrow> ('b, 's, 'c, 'm) world" where
  "with_cookies cs w = w\<lparr>response_cookies := response_cookies w @ cs\<rparr>"

lemma with_cookies_sel [simp]:
  "db (with_cookies cs w) = db w" "sess (with_cookies cs w) = sess w" "challenges (with_cookies cs w) = challenges w"
  "limiter (with_cookies cs w) = limiter w" "hook_log (with_cookies cs w) = hook_log w" "response_cookies (with_cookies cs w) = response_cookies w @ cs"
  by (simp_all add: with_cookies_def)

lemma add_cookies_run: "add_cookies cs (w, s) = (Inr (), (with_cookies cs w, s))"
  by (simp add: add_cookies_def in_app_run modifies_run with_cookies_def)

lemma error_response_run: "error_response B code (w, s) = (Inr (error_answer B code), (with_cookies [clear_state_cookie B] w, s))"
  by (simp add: error_response_def bind_run add_cookies_run ret_run error_answer_def)

text \<open>An answer that leaves everything but the state cookie alone.\<close>

definition turned_away :: "('o, 's, 'c) oauth_router \<Rightarrow> (exc + oauth_response) \<times> ('b, 's, 'c, 'm, 'o) oauth_world \<Rightarrow> ('b, 's, 'c, 'm) world \<Rightarrow> bool" where
  "turned_away B out w \<longleftrightarrow>
     (\<exists>e. fst out = Inl e \<and> status_code e = Some 400 \<and> fst (snd out) = w)
     \<or> (\<exists>code \<in> {OAUTH_FAILED, INVALID_STATE}. fst out = Inr (error_answer B code) \<and> fst (snd out) = with_cookies [clear_state_cookie B] w)"

lemma invalid_state_turned: "turned_away B (invalid_state B (w, s)) w" "snd (snd (invalid_state B (w, s))) = s"
  by (simp_all add: invalid_state_def raise_run error_response_run turned_away_def)

text \<open>Talking to a provider leaves the state alone and does not depend on it.\<close>

lemma ensure_ready_pure: "ensure_ready P p = (fst (ensure_ready P ()), p)"
  by (auto simp: ensure_ready_def raise_run ret_run split: provider_class.split bool.split)

lemma returned_pure: "returned a p = (a, p)"
  by (simp add: returned_def raise_run ret_run split: sum.split)

lemma ok_json_pure: "ok_json a p = (fst (ok_json a ()), p)"
  by (auto simp: ok_json_def returned_pure bind_run raise_run ret_run split: sum.split option.split)

lemma base_exchange_pure: "base_exchange_code H P c v hs p = (fst (base_exchange_code H P c v hs ()), p)"
  unfolding base_exchange_code_def bind_run ensure_ready_pure [of P p] Let_def
  by (cases "fst (ensure_ready P ())") (simp_all add: ok_json_pure [of _ p])

lemma exchange_pure: "exchange_code H P c v hs p = (fst (exchange_code H P c v hs ()), p)"
  by (cases "pv_class P") (simp_all add: exchange_code_def base_exchange_pure [of _ _ _ _ _ p])

lemma base_info_pure: "base_get_user_info H P t p = (fst (base_get_user_info H P t ()), p)"
  unfolding base_get_user_info_def bind_run ensure_ready_pure [of P p]
  by (cases "fst (ensure_ready P ())") (simp_all add: ok_json_pure [of _ p])

lemma user_info_pure: "get_user_info H P t p = (fst (get_user_info H P t ()), p)"
  unfolding get_user_info_def github_get_user_info_def bind_run base_info_pure [of H P t p] returned_pure
  by (auto simp: base_info_pure [of H P t p] raise_run ret_run split: provider_class.split sum.split option.split json.split)

definition profile_of :: "http_client \<Rightarrow> oauth_provider \<Rightarrow> string \<Rightarrow> string option \<Rightarrow> exc + oauth_user_info option" where
  "profile_of H P code v = fst (fetch_profile H P code v ())"

lemma fetch_profile_run: "fetch_profile H P code v p = (profile_of H P code v, p)"
  unfolding profile_of_def fetch_profile_def catch_run bind_run exchange_pure [of _ _ _ _ _ p] Let_def
  by (auto simp: user_info_pure [of _ _ _ p] bind_run returned_pure raise_run ret_run split: sum.split json.split)

text \<open>Programs that leave the pending states alone.\<close>

definition keeps :: "('b, 's, 'c, 'm, 'o, 'a) oauth_prog \<Rightarrow> bool" where
  "keeps m \<longleftrightarrow> (\<forall>p. snd (snd (m p)) = snd p)"

lemma keeps_bind: "keeps m \<Longrightarrow> (\<And>x. keeps (k x)) \<Longrightarrow> keeps (bind m k)"
  and keeps_catch: "keeps m \<Longrightarrow> (\<And>e. keeps (h e)) \<Longrightarrow> keeps (catch m h)"
  by (simp_all add: keeps_def bind_run catch_run del: split_paired_All split: sum.split)

lemma keeps_atoms: "keeps (ret x)" "keeps (raise e)" "keeps (in_app a)" "keeps (fetch_profile H P c v)"
  by (simp_all add: keeps_def ret_run raise_run in_app_run fetch_profile_run)

lemma keeps_answers: "keeps (add_cookies cs)" "keeps (error_response B code)"
  by (auto simp: add_cookies_def error_response_def intro!: keeps_bind keeps_atoms)

lemmas keeps_intros = keeps_bind keeps_catch keeps_atoms keeps_answers

lemma redeem_callback_keeps: "keeps (redeem_callback T B H P f g r provider code st)"
proof -
  have a: "keeps (resolve_account B f g info)" for info
    unfolding resolve_account_def by (intro keeps_intros) (simp add: keeps_intros split: exc.split)
  have s: "keeps (start_oauth_session T B f r provider user u)" for user u
    unfolding start_oauth_session_def Let_def by (auto intro!: keeps_intros)
  have f: "keeps (finish_oauth T B f r provider st user)" for user
    unfolding finish_oauth_def Let_def by (auto intro!: keeps_intros s split: option.split)
  show ?thesis
    unfolding redeem_callback_def Let_def
    by (auto intro!: keeps_intros a f split: option.split sum.split prod.split)
qed

lemma redeem_keeps_states: "snd (snd (redeem_callback T B H P f g r provider code st p)) = snd p"
  using redeem_callback_keeps unfolding keeps_def by blast

section \<open>Pending states\<close>

text \<open>The entry a callback may act on: that of the browser's own state, begun for this provider.\<close>

definition bound_entry :: "request \<Rightarrow> string \<Rightarrow> string option \<Rightarrow> (string \<Rightarrow> oauth_state option) \<Rightarrow> oauth_state option" where
  "bound_entry r provider state pending =
     (case state of
        None \<Rightarrow> None
      | Some x \<Rightarrow>
          if x = [] \<or> cookie r OAUTH_STATE_COOKIE_NAME \<noteq> Some x then None
          else (case pending x of None \<Rightarrow> None | Some st \<Rightarrow> if os_provider st = provider then Some st else None))"

lemma the_provider_run: "the_provider B provider p = (case map_of (ob_providers B) provider of
    None \<Rightarrow> (Inl (BadRequestException (''Unknown or unconfigured OAuth provider: '' @ str_repr provider)), p) | Some P \<Rightarrow> (Inr P, p))"
  by (simp add: the_provider_def raise_run ret_run split: option.split)

locale state_keeper = session_store st view ok who hit
  for st :: "('o, oauth_state) session_storage" and view ok who hit
begin

lemma callback_run:
  assumes "ok s" and "ob_store B = st" and "out = callback_route T B H f g r provider code state error (w, s)"
  shows "bound_entry r provider state (val_of (view (now f) s)) = None \<Longrightarrow> turned_away B out w"
    and "or_blank error = [] \<Longrightarrow> or_blank code \<noteq> [] \<Longrightarrow> map_of (ob_providers B) provider = Some P \<Longrightarrow>
      bound_entry r provider (Some x) (val_of (view (now f) s)) = Some e \<Longrightarrow> state = Some x \<Longrightarrow>
      out = redeem_callback T B H P f g r provider (or_blank code) e (w, snd (st_get_and_delete st (now f) x s))"
proof -
  note run = assms(3)[unfolded callback_route_def bind_run the_provider_run Let_def in_states_run assms(2)] take_result [OF assms(1)]
  show "bound_entry r provider state (val_of (view (now f) s)) = None \<Longrightarrow> turned_away B out w"
    by (auto simp: run(1) error_response_run invalid_state_turned bound_entry_def or_blank_def run(2) bind_run in_states_run turned_away_def [of B "(Inl _, _)"]
        turned_away_def [of B "(Inr _, _)"] split: option.splits if_splits)
  show "or_blank error = [] \<Longrightarrow> or_blank code \<noteq> [] \<Longrightarrow> map_of (ob_providers B) provider = Some P \<Longrightarrow>
      bound_entry r provider (Some x) (val_of (view (now f) s)) = Some e \<Longrightarrow> state = Some x \<Longrightarrow>
      out = redeem_callback T B H P f g r provider (or_blank code) e (w, snd (st_get_and_delete st (now f) x s))"
    by (auto simp: run bound_entry_def or_blank_def bind_run in_states_run split: option.splits if_splits)
qed

lemma taken_gone:
  assumes "ok s" and "t \<le> t'"
  shows "val_of (view t' (snd (st_get_and_delete st t x s))) x = None"
  using view_later [OF take_ok [OF assms(1)] assms(2), of t x] take_view [OF assms(1)] by (simp add: val_of_def live_at_def)

end

interpretation pending: state_keeper "mem_storage cfg" "store_view cfg" "store_ok cfg" "payload_user_id cfg"
  "\<lambda>_ s sid. map_of (data s) (get_key (prefix cfg) sid) \<noteq> None" for cfg :: "oauth_state mem_store_config"
  by unfold_locales

text \<open>
  C2. A callback acts only for the browser that began the sign-in, and once. Unless the browser's
  cookie holds the very state of the callback, and that state is pending for this provider, the
  answer is an error and nothing of the application changes. The callback that gets through takes
  the state with it, whatever comes of it: no later callback with that state gets through, from
  whatever browser and with whatever code.
\<close>

theorem oauth_state_binds_once:
  fixes w :: "('b, 's, 'c, 'm) world"
  assumes "store_ok sc s" and "ob_store B = mem_storage sc" and "out = callback_route T B H f g r provider code state error (w, s)"
    and "entry = bound_entry r provider state (val_of (store_view sc (now f) s))"
  shows "(entry = None \<longrightarrow> turned_away B out w)
    \<and> (\<forall>st. entry = Some st \<longrightarrow> or_blank error = [] \<longrightarrow> or_blank code \<noteq> [] \<longrightarrow> map_of (ob_providers B) provider \<noteq> None \<longrightarrow>
        (\<forall>T' H' f' g' r' provider' code' error' w'. now f \<le> now f' \<longrightarrow>
           turned_away B (callback_route T' B H' f' g' r' provider' code' state error' (w' :: ('b, 's, 'c, 'm) world, snd (snd out))) w'))"
proof (intro conjI impI allI)
  show "entry = None \<Longrightarrow> turned_away B out w" using pending.callback_run(1) [OF assms(1-3)] assms(4) by simp
next
  fix st T' H' g' r' provider' code' error' and f' :: fresh and w' :: "('b, 's, 'c, 'm) world"
  assume e: "entry = Some st" and ok: "or_blank error = []" "or_blank code \<noteq> []" "map_of (ob_providers B) provider \<noteq> None" and t: "now f \<le> now f'"
  obtain x where x: "state = Some x" using e assms(4) by (cases state) (auto simp: bound_entry_def)
  obtain P where P: "map_of (ob_providers B) provider = Some P" using ok(3) by blast
  let ?s = "snd (st_get_and_delete (mem_storage sc) (now f) x s)"
  have "out = redeem_callback T B H P f g r provider (or_blank code) st (w, ?s)"
    using pending.callback_run(2) [OF assms(1-3) ok(1,2) P, of x st] e x assms(4) by simp
  then have s: "snd (snd out) = ?s" by (simp add: redeem_keeps_states)
  have "bound_entry r' provider' state (val_of (store_view sc (now f') ?s)) = None"
    using pending.taken_gone [OF assms(1) t, of x] by (simp add: bound_entry_def x)
  then show "turned_away B (callback_route T' B H' f' g' r' provider' code' state error' (w', snd (snd out))) w'"
    unfolding s using pending.callback_run(1) [OF mem_store.take_ok [OF assms(1)] assms(2) refl] by blast
qed

text \<open>
  There and back. An authorization answers with the provider's page, carrying the client, the
  callback address, a fresh state and the challenge of a fresh verifier, and hands the browser the
  state. Within half an hour a callback from that browser gets through, with the verifier the
  challenge was made from and the destination the sign-in was begun with; after that it does not.
\<close>

theorem oauth_round_trip:
  fixes w :: "('b, 's, 'c, 'm) world" and w' :: "('b, 's, 'c, 'm) world"
  assumes "store_ok sc s" and "ob_store B = mem_storage sc" and "map_of (ob_providers B) provider = Some P" and "of_state g \<noteq> []"
    and "authorize_route A B f g r provider to (w, s) = (Inr answer, (w1, s1))"
    and "st = \<lparr>os_state = of_state g, os_provider = provider, os_verifier = Some (of_verifier g), os_redirect_to = to, os_created_at = now f\<rparr>"
    and "url = authorize_endpoint P @ ''?'' @ urlencode [(''client_id'', client_id P), (''redirect_uri'', redirect_uri P), (''response_type'', ''code''),
           (''state'', of_state g), (''scope'', join_with '' '' (scopes P)), (''code_challenge'', code_challenge_of (of_verifier g)),
           (''code_challenge_method'', ''S256'')]"
    and "cookie r' OAUTH_STATE_COOKIE_NAME = Some (of_state g)" and "code \<noteq> []" and "now f \<le> now f'"
    and "out = callback_route T B H f' g' r' provider (Some code) (Some (of_state g)) None (w', s1)"
  shows "answer = (if json_mode B then JsonAnswer 200 [(''url'', VStr url)] else Redirect url)
    \<and> set_state_cookie B (of_state g) \<in> set (response_cookies w1)
    \<and> (if now f' \<le> now f + OAUTH_STATE_TTL_SECONDS * usec
       then \<exists>s2. out = redeem_callback T B H P f' g' r' provider code st (w', s2)
       else turned_away B out w')"
proof -
  let ?s = "snd (st_create (mem_storage sc) (now f) st (of_state g) (Some OAUTH_STATE_TTL_SECONDS) s)"
  have made: "st_create (mem_storage sc) (now f) st (of_state g) (Some OAUTH_STATE_TTL_SECONDS) s = (Inr (of_state g), ?s)"
    using mem_store.create_result [OF assms(1,4)] by (metis prod.collapse)
  have run: "answer = (if json_mode B then JsonAnswer 200 [(''url'', VStr url)] else Redirect url)"
    "set_state_cookie B (of_state g) \<in> set (response_cookies w1)" "s1 = ?s"
    using assms(5) made
    by (auto simp: authorize_route_def bind_run in_app_run the_provider_run assms(3) get_authorization_url_def ensure_ready_pure [of P "(_, _)"] ret_run
        Let_def in_states_run assms(2,6,7) add_cookies_run split: sum.splits)
  have ttl: "0 \<le> ttl_or (st_expiration (mem_storage sc)) (Some OAUTH_STATE_TTL_SECONDS)" by (simp add: ttl_or_def OAUTH_STATE_TTL_SECONDS_def)
  have ok: "store_ok sc ?s" by (rule mem_store.create_ok [OF assms(1,4)])
  have "store_view sc (now f) ?s (of_state g) = Some (st, now f + OAUTH_STATE_TTL_SECONDS * usec)"
    using mem_store.create_view [OF assms(1,4) ttl] by (simp add: ttl_or_def)
  then have live: "val_of (store_view sc (now f') ?s) (of_state g) = (if now f' \<le> now f + OAUTH_STATE_TTL_SECONDS * usec then Some st else None)"
    using mem_store.view_later [OF ok assms(10)] by (simp add: val_of_def live_at_def)
  have entry: "bound_entry r' provider (Some (of_state g)) (val_of (store_view sc (now f') ?s))
      = (if now f' \<le> now f + OAUTH_STATE_TTL_SECONDS * usec then Some st else None)"
  proof -
    have "os_provider st = provider" by (simp add: assms(6))
    then show ?thesis using assms(4,8) by (simp add: bound_entry_def live)
  qed
  have out: "out = callback_route T B H f' g' r' provider (Some code) (Some (of_state g)) None (w', ?s)" by (simp add: assms(11) run(3))
  note cb = pending.callback_run [OF ok assms(2) out]
  show ?thesis
  proof (cases "now f' \<le> now f + OAUTH_STATE_TTL_SECONDS * usec")
    case True
    then have "out = redeem_callback T B H P f' g' r' provider code st (w', snd (st_get_and_delete (mem_storage sc) (now f') (of_state g) ?s))"
      using cb(2) [OF _ _ assms(3), of "of_state g" st] entry assms(9) by (simp add: or_blank_def)
    then show ?thesis using run(1,2) True by auto
  next
    case False
    then show ?thesis using run(1,2) cb(1) entry by simp
  qed
qed

section \<open>What a callback comes to\<close>

definition sign_in_answer :: "('o, 's, 'c) oauth_router \<Rightarrow> user_repo \<Rightarrow> row \<Rightarrow> string \<Rightarrow> string \<Rightarrow> oauth_response" where
  "sign_in_answer B R user csrf url =
     (if json_mode B then JsonAnswer 200 [(''user'', VDict (user_payload R user)), (''csrf_token'', VStr csrf), (''redirect_to'', VStr url)]
      else Redirect url)"

definition second_factor :: "('b, 's, 'c, 'm) auth_runtime \<Rightarrow> row \<Rightarrow> bool" where
  "second_factor T user \<longleftrightarrow> (\<exists>V. mfa T = Some V \<and> mfa_oauth (mfa_conf V) \<and> (is_enrolled (repo T) user \<or> is_required V user))"

text \<open>The account's session is live, for its current version, and the browser has its cookie.\<close>

definition oauth_session :: "string \<Rightarrow> session_options \<Rightarrow> fresh \<Rightarrow> user_repo \<Rightarrow> row \<Rightarrow>
    ('b, session_data mem_store, csrf_token mem_store, 'm) world \<Rightarrow> bool" where
  "oauth_session gk cfg f R user w \<longleftrightarrow>
     (\<exists>d x. live_sessions gk cfg (now f) (sess w) (session_key cfg (fresh_session f)) = Some (d, x)
        \<and> user_id d = pk R user \<and> token_version d = Some (row_token_version R user))
     \<and> (\<exists>ck \<in> set (response_cookies w). \<exists>h e. ck = SetCookie (session_cookie_name cfg) (fresh_session f) h (cookie_secure cfg) (cookie_samesite cfg) (cookie_path cfg) e)"

lemma oauth_timeout: "timeout_seconds_for cfg (oauth_metadata p) = session_timeout cfg"
  by (simp add: timeout_seconds_for_def meta_true_def oauth_metadata_def REMEMBER_ME_META_KEY_def)

lemma start_session_run:
  fixes w :: "('b, session_data mem_store, csrf_token mem_store, 'm) world"
  assumes "ob_manager B = mem_manager gk cfg" and "world_ok gk cfg (sess w)" and "fresh_session f \<noteq> []" and "fresh_csrf f \<noteq> []"
    and "0 \<le> session_timeout cfg" and "R = repo T"
  shows "\<exists>w'. start_oauth_session T B f r provider user url (w, s) = (Inr (sign_in_answer B R user (fresh_csrf f) url), (w', s))
    \<and> db w' = db w \<and> oauth_session gk cfg f R user w'"
proof -
  let ?M = "mem_manager gk cfg"
  let ?c = "create_session ?M (now f) (fresh_session f) (fresh_csrf f) r (pk R user) (oauth_metadata provider) None (Some (row_token_version R user)) (sess w)"
  have ok: "store_ok (sess_config gk cfg) (sess_store (sess w)) \<and> store_ok (csrf_config gk cfg) (csrf_store (sess w))"
    using assms(2) by (simp add: world_ok_def)
  have ttl: "0 \<le> ttl_or (timeout_seconds_for cfg (oauth_metadata provider)) (None :: int option)"
    by (simp add: ttl_or_def oauth_timeout assms(5))
  note cr = sm.create_run(1,2) [where g = gk and cfg = cfg and md = "oauth_metadata provider" and e = "None :: int option" and now = "now f"
      and r = r and u = "pk R user" and ver = "Some (row_token_version R user)", unfolded mem_manager_sel, OF ok assms(3,4) ttl refl refl refl refl]
  have c: "fst ?c = Inr (fresh_session f, fresh_csrf f)" using cr(1) by simp
  obtain x where live: "live_sessions gk cfg (now f) (snd ?c) (session_key cfg (fresh_session f))
      = Some (new_session cfg (now f) (fresh_session f) (fresh_csrf f) r (pk R user) (oauth_metadata provider) (Some (row_token_version R user)), x)"
    using cr(2) by (simp add: live_sessions_def)
  have i: "in_sessions (create_session ?M (now f) (fresh_session f) (fresh_csrf f) r (pk R user) (oauth_metadata provider) None
      (Some (row_token_version R user))) w = (Inr (fresh_session f, fresh_csrf f), w\<lparr>sess := snd ?c\<rparr>)"
    using c by (simp add: in_sessions_run)
  show ?thesis
    using i live
    by (auto simp: start_oauth_session_def Let_def assms(1) assms(6) [symmetric] bind_run in_app_run hook_runs modifies_run add_cookies_run ret_run
        sign_in_answer_def oauth_session_def new_session_def set_session_cookies_def set_csrf_cookie_def)
qed

lemma challenge_login_keeps:
  "sess (snd (challenge_login T V f r user tr i opt w)) = sess w \<and> response_cookies (snd (challenge_login T V f r user tr i opt w)) = response_cookies w"
  by (auto simp: challenge_login_def Let_def bind_run ret_run in_db_run in_challenges_run record_login_success_run split: sum.split prod.split)

lemma challenge_login_open:
  assumes "\<not> is_enrolled (repo T) user" and "\<not> is_required V user"
  shows "\<exists>l. challenge_login T V f r user tr i opt w = (Inr None, w\<lparr>limiter := l\<rparr>)"
  using assms by (auto simp: challenge_login_def Let_def bind_run ret_run record_login_success_run)

lemma challenge_login_demands:
  assumes "is_enrolled (repo T) user \<or> is_required V user"
  shows "fst (challenge_login T V f r user tr i opt w) \<noteq> Inr None"
  using assms by (auto simp: challenge_login_def Let_def bind_run ret_run split: sum.split prod.split)

lemma finish_held:
  assumes "second_factor T user" and "out = finish_oauth T B f r provider st user (w, s)"
  shows "sess (fst (snd out)) = sess w \<and> set (response_cookies (fst (snd out))) \<subseteq> set (response_cookies w) \<union> {clear_state_cookie B}"
proof -
  obtain V where V: "mfa T = Some V" "mfa_oauth (mfa_conf V)" "is_enrolled (repo T) user \<or> is_required V user"
    using assms(1) by (auto simp: second_factor_def)
  let ?c = "challenge_login T V f r user ''session'' (''oauth:'' @ py_str (pk (repo T) user))
      \<lparr>opt_remember_me = False, opt_scopes = None, opt_metadata = oauth_metadata provider,
       opt_redirect_to = Some (safe_redirect_path (os_redirect_to st) (ob_default_redirect B))\<rparr> w"
  have c: "fst ?c \<noteq> Inr None" "sess (snd ?c) = sess w" "response_cookies (snd ?c) = response_cookies w"
    using challenge_login_demands [OF V(3)] challenge_login_keeps by blast+
  show ?thesis
  proof (cases "fst ?c")
    case (Inl e)
    then show ?thesis using c(2,3) by (auto simp: assms(2) finish_oauth_def Let_def V(1,2) bind_run in_app_run)
  next
    case (Inr ch)
    then obtain ch' where "ch = Some ch'" using c(1) by (cases ch) auto
    then show ?thesis
      using Inr c(2,3) by (auto simp: assms(2) finish_oauth_def Let_def V(1,2) bind_run in_app_run add_cookies_run ret_run)
  qed
qed

lemma finish_open:
  fixes w :: "('b, session_data mem_store, csrf_token mem_store, 'm) world"
  assumes "ob_manager B = mem_manager gk cfg" and "world_ok gk cfg (sess w)" and "fresh_session f \<noteq> []" and "fresh_csrf f \<noteq> []"
    and "0 \<le> session_timeout cfg" and "R = repo T" and "\<not> second_factor T user"
  shows "\<exists>w'. finish_oauth T B f r provider st user (w, s)
      = (Inr (sign_in_answer B R user (fresh_csrf f) (safe_redirect_path (os_redirect_to st) (ob_default_redirect B))), (w', s))
    \<and> db w' = db w \<and> oauth_session gk cfg f R user w'"
proof -
  let ?url = "safe_redirect_path (os_redirect_to st) (ob_default_redirect B)"
  have "\<exists>l. finish_oauth T B f r provider st user (w, s) = start_oauth_session T B f r provider user ?url (w\<lparr>limiter := l\<rparr>, s)"
  proof (cases "\<exists>V. mfa T = Some V \<and> mfa_oauth (mfa_conf V)")
    case True
    then obtain V where V: "mfa T = Some V" "mfa_oauth (mfa_conf V)" by blast
    then have n: "\<not> is_enrolled (repo T) user" "\<not> is_required V user" using assms(7) by (auto simp: second_factor_def)
    obtain l where "challenge_login T V f r user ''session'' (''oauth:'' @ py_str (pk (repo T) user))
      \<lparr>opt_remember_me = False, opt_scopes = None, opt_metadata = oauth_metadata provider, opt_redirect_to = Some ?url\<rparr> w = (Inr None, w\<lparr>limiter := l\<rparr>)"
      using challenge_login_open [OF n] by blast
    then show ?thesis using V by (auto simp: finish_oauth_def Let_def bind_run in_app_run)
  next
    case False
    have "w\<lparr>limiter := limiter w\<rparr> = w" by simp
    then show ?thesis
      using False by (intro exI [of _ "limiter w"]) (auto simp: finish_oauth_def Let_def bind_run ret_run split: option.split)
  qed
  then obtain l where l: "finish_oauth T B f r provider st user (w, s) = start_oauth_session T B f r provider user ?url (w\<lparr>limiter := l\<rparr>, s)" by blast
  have "world_ok gk cfg (sess (w\<lparr>limiter := l\<rparr>))" using assms(2) by simp
  from start_session_run [OF assms(1) this assms(3-6), of r provider user ?url s] show ?thesis by (auto simp: l)
qed

text \<open>The world after the hooks of a sign-in.\<close>

lemma register_logged: "run_after_register Hs d c w = (Inr (), logged Hs (hook_event_of ''on_after_register'' (Some d) [] c) w)"
  by (simp add: run_after_register_def run_simps)

lemma oauth_logged: "run_oauth_login Hs d i b c w = (Inr (), logged Hs (hook_event_of ''on_oauth_login'' (Some d) (oauth_event i b) c) w)"
  by (simp add: run_oauth_login_def run_simps)

lemma redeem_callback_run:
  assumes "R = repo T" and "profile_of H P code (os_verifier st) = Inr (Some info)"
    and "get_or_create_user (ob_service B) f g info w = (Inr (user, created), w1)"
  shows "\<exists>w2. db w2 = db w1 \<and> sess w2 = sess w1 \<and> response_cookies w2 = response_cookies w1
    \<and> redeem_callback T B H P f g r provider code st (w, s)
        = (if is_active R user then finish_oauth T B f r provider st user (w2, s) else error_response B ACCOUNT_INACTIVE (w2, s))"
proof -
  define w2 where "w2 = (if created then logged (hooks T) (hook_event_of ''on_after_register'' (Some (to_dict R user))
      [] (no_context\<lparr>hc_transport := Some ''oauth'', hc_request := Some r\<rparr>)) w1 else w1)"
  define w3 where "w3 = (if is_active R user then logged (hooks T) (hook_event_of ''on_oauth_login'' (Some (to_dict R user)) (oauth_event info created)
      ((request_context T r)\<lparr>hc_transport := Some ''oauth''\<rparr>)) w2 else w2)"
  have "db w3 = db w1 \<and> sess w3 = sess w1 \<and> response_cookies w3 = response_cookies w1" by (simp add: w3_def w2_def)
  moreover have "redeem_callback T B H P f g r provider code st (w, s)
      = (if is_active R user then finish_oauth T B f r provider st user (w3, s) else error_response B ACCOUNT_INACTIVE (w3, s))"
    by (simp add: redeem_callback_def Let_def bind_run fetch_profile_run assms(1) [symmetric] assms(2,3) resolve_account_def catch_run in_app_run ret_run
        register_logged oauth_logged w3_def w2_def)
  ultimately show ?thesis by blast
qed

text \<open>Resolving the account keeps the session stores well formed.\<close>

definition sessions_stay_ok :: "string \<Rightarrow> session_options \<Rightarrow> ('b, session_data mem_store, csrf_token mem_store, 'm, 'a) in_world \<Rightarrow> bool" where
  "sessions_stay_ok gk cfg m \<longleftrightarrow> (\<forall>w. world_ok gk cfg (sess w) \<longrightarrow> world_ok gk cfg (sess (snd (m w))))"

lemma stay_ok_bind: "sessions_stay_ok gk cfg m \<Longrightarrow> (\<And>x. sessions_stay_ok gk cfg (k x)) \<Longrightarrow> sessions_stay_ok gk cfg (bind m k)"
  by (simp add: sessions_stay_ok_def bind_run split: sum.split)

lemma stay_ok_atoms: "sessions_stay_ok gk cfg (ret x)" "sessions_stay_ok gk cfg (raise e)" "sessions_stay_ok gk cfg (in_db d)"
  by (simp_all add: sessions_stay_ok_def ret_run raise_run in_db_run)

lemma stay_ok_end: "sessions_stay_ok gk cfg (in_sessions (terminate_all_user_sessions (mem_manager gk cfg) t uid None))"
  using sm.revoke_all_run(4) [of gk cfg _ _ uid t None] by (auto simp: sessions_stay_ok_def in_sessions_run revoke_all_def world_defs)

lemmas stay_ok_intros = stay_ok_bind stay_ok_atoms stay_ok_end

lemma account_sessions_ok:
  fixes w :: "('b, session_data mem_store, csrf_token mem_store, 'm) world"
  assumes "oa_sessions S \<in> {None, Some (mem_manager gk cfg)}" and "world_ok gk cfg (sess w)"
  shows "world_ok gk cfg (sess (snd (get_or_create_user S f g info w)))"
proof -
  have link: "sessions_stay_ok gk cfg (link_account S f g u info :: ('b, session_data mem_store, csrf_token mem_store, 'm, row) in_world)" for u
    using assms(1) unfolding link_account_def Let_def by (auto intro!: stay_ok_intros)
  have "sessions_stay_ok gk cfg (get_or_create_user S f g info :: ('b, session_data mem_store, csrf_token mem_store, 'm, row \<times> bool) in_world)"
    unfolding get_or_create_user_def Let_def refuse_inactive_def
    by (auto intro!: stay_ok_intros link split: option.split)
  then show ?thesis using assms(2) by (simp add: sessions_stay_ok_def)
qed

definition on_this_host :: "string \<Rightarrow> bool" where
  "on_this_host t \<longleftrightarrow> (\<exists>u. t = CHR ''/'' # u \<and> (\<forall>v. u \<noteq> CHR ''/'' # v)) \<and> (\<forall>c \<in> set t. c \<noteq> CHR 0x5C \<and> 32 \<le> (of_char c :: nat))"

lemma destination_on_host:
  "safe_redirect_path target dflt = (case target of None \<Rightarrow> dflt | Some t \<Rightarrow> if on_this_host t then t else dflt)"
proof -
  have "backslash = CHR 0x5C" by code_simp
  then show ?thesis
    by (auto simp: safe_redirect_path_on_host on_this_host_def starts_with_Cons list_all_iff split: option.split)
qed

text \<open>
  C31. What a verified callback comes to. If the provider can not be asked or does not answer as it
  should, nothing changes; a refusal to resolve the account is reported by its code and changes
  nothing beyond it; a disabled account is turned away without a session. An account that has to
  prove a second factor gets no session and no session cookie yet. Every other account gets a live
  session for its current version with its cookie, and is sent (or, in JSON mode, told to go) to the
  path it asked for at the start if that stays on this host, and to the configured default otherwise,
  which is whatever the application configured, an absolute URL included. On this host means: it
  begins with one slash, not two, and holds no backslash and no control character.
\<close>

theorem oauth_callback_outcomes:
  fixes w :: "('b, session_data mem_store, csrf_token mem_store, 'm) world"
  assumes "R = repo T" and "ob_manager B = mem_manager gk cfg" and "fresh_session f \<noteq> []" and "fresh_csrf f \<noteq> []" and "0 \<le> session_timeout cfg"
    and "profile = profile_of H P code (os_verifier st)" and "out = redeem_callback T B H P f g r provider code st (w, s)"
    and "oa_sessions (ob_service B) \<in> {None, Some (mem_manager gk cfg)}" and "world_ok gk cfg (sess w)"
  shows "(\<forall>e. profile = Inl e \<longrightarrow> out = (Inl e, (w, s)))
    \<and> (profile = Inr None \<longrightarrow> out = (Inr (error_answer B OAUTH_FAILED), (with_cookies [clear_state_cookie B] w, s)))
    \<and> (\<forall>info c m w1. profile = Inr (Some info) \<longrightarrow> get_or_create_user (ob_service B) f g info w = (Inl (OAuthAccountException c m), w1) \<longrightarrow>
         out = (Inr (error_answer B c), (with_cookies [clear_state_cookie B] w1, s)))
    \<and> (\<forall>info user created w1. profile = Inr (Some info) \<longrightarrow> get_or_create_user (ob_service B) f g info w = (Inr (user, created), w1) \<longrightarrow>
         (if \<not> is_active R user then fst out = Inr (error_answer B ACCOUNT_INACTIVE) \<and> db (fst (snd out)) = db w1 \<and> sess (fst (snd out)) = sess w1
          else if second_factor T user
          then sess (fst (snd out)) = sess w1 \<and> set (response_cookies (fst (snd out))) \<subseteq> set (response_cookies w1) \<union> {clear_state_cookie B}
          else (\<exists>url. fst out = Inr (sign_in_answer B R user (fresh_csrf f) url)
              \<and> (case os_redirect_to st of None \<Rightarrow> url = ob_default_redirect B
                  | Some t \<Rightarrow> url = (if on_this_host t then t else ob_default_redirect B)))
            \<and> db (fst (snd out)) = db w1 \<and> oauth_session gk cfg f R user (fst (snd out))))"
proof -
  have settled: "if \<not> is_active R user then fst out = Inr (error_answer B ACCOUNT_INACTIVE) \<and> db (fst (snd out)) = db w1 \<and> sess (fst (snd out)) = sess w1
      else if second_factor T user
      then sess (fst (snd out)) = sess w1 \<and> set (response_cookies (fst (snd out))) \<subseteq> set (response_cookies w1) \<union> {clear_state_cookie B}
      else (\<exists>url. fst out = Inr (sign_in_answer B R user (fresh_csrf f) url)
          \<and> (case os_redirect_to st of None \<Rightarrow> url = ob_default_redirect B
              | Some t \<Rightarrow> url = (if on_this_host t then t else ob_default_redirect B)))
        \<and> db (fst (snd out)) = db w1 \<and> oauth_session gk cfg f R user (fst (snd out))"
    if p: "profile = Inr (Some info)" and got: "get_or_create_user (ob_service B) f g info w = (Inr (user, created), w1)" for info user created w1
  proof -
    obtain w2 where w2: "db w2 = db w1" "sess w2 = sess w1" "response_cookies w2 = response_cookies w1"
      "out = (if is_active R user then finish_oauth T B f r provider st user (w2, s) else error_response B ACCOUNT_INACTIVE (w2, s))"
      using redeem_callback_run [OF assms(1) p [unfolded assms(6)] got] assms(7) by metis
    have ok: "world_ok gk cfg (sess w2)" using account_sessions_ok [OF assms(8,9), of f g info] got w2(2) by simp
    consider "\<not> is_active R user" | "is_active R user" "second_factor T user" | "is_active R user" "\<not> second_factor T user" by blast
    then show ?thesis
    proof cases
      case 1
      then show ?thesis by (simp add: w2 error_response_run)
    next
      case 2
      then show ?thesis using finish_held [OF 2(2) refl, of B f r provider st w2 s] by (simp add: w2)
    next
      case 3
      obtain w3 where "finish_oauth T B f r provider st user (w2, s)
          = (Inr (sign_in_answer B R user (fresh_csrf f) (safe_redirect_path (os_redirect_to st) (ob_default_redirect B))), (w3, s))"
        "db w3 = db w2" "oauth_session gk cfg f R user w3"
        using finish_open [OF assms(2) ok assms(3,4,5,1) 3(2)] by blast
      then show ?thesis using 3 by (simp add: w2 destination_on_host split: option.split)
    qed
  qed
  note early = assms(7) redeem_callback_def Let_def bind_run fetch_profile_run assms(6) [symmetric] error_response_run resolve_account_def catch_run
    in_app_run ret_run raise_run
  have "out = (Inl e, (w, s))" if "profile = Inl e" for e using that by (simp add: early)
  moreover have "out = (Inr (error_answer B OAUTH_FAILED), (with_cookies [clear_state_cookie B] w, s))" if "profile = Inr None"
    using that by (simp add: early)
  moreover have "out = (Inr (error_answer B c), (with_cookies [clear_state_cookie B] w1, s))"
    if "profile = Inr (Some info)" "get_or_create_user (ob_service B) f g info w = (Inl (OAuthAccountException c m), w1)" for info c m w1
    using that by (simp add: early)
  ultimately show ?thesis using settled by blast
qed

section \<open>A sign-in with GitHub\<close>

definition demo_states :: "oauth_state mem_store_config" where
  "demo_states = \<lparr>prefix = ''oauth_state:'', expiration = 1800, generate_session_id = ''g'', payload_user_id = (\<lambda>_. None)\<rparr>"

definition demo_github :: oauth_provider where
  "demo_github = \<lparr>pv_class = GitHub, client_id = ''id'', client_secret = ''secret'', redirect_uri = ''https://app/cb'', scopes = GITHUB_DEFAULT_SCOPES,
     authorize_endpoint = GITHUB_AUTHORIZE_ENDPOINT, token_endpoint = GITHUB_TOKEN_ENDPOINT, userinfo_endpoint = GITHUB_USERINFO_ENDPOINT,
     provider_name = GITHUB, token_auth_method = TOKEN_AUTH_POST\<rparr>"

definition demo_router :: "(oauth_state mem_store, session_data mem_store, csrf_token mem_store) oauth_router" where
  "demo_router = \<lparr>ob_providers = [(GITHUB, demo_github)], ob_store = mem_storage demo_states, ob_service = demo_oauth,
     ob_manager = mem_manager ''g'' default_options, ob_default_redirect = ''/'', ob_mode = ''redirect''\<rparr>"

text \<open>An endpoint that knows one token and one user.\<close>

definition demo_http :: http_client where
  "demo_http = \<lparr>http_post = (\<lambda>url form hs cred. Inr \<lparr>resp_status = 200, resp_json = Some (JObject [(''access_token'', JString ''t'')])\<rparr>),
     http_get = (\<lambda>url hs. Inr \<lparr>resp_status = 200, resp_json = Some (if url = GITHUB_EMAILS_ENDPOINT
       then JArray [JObject [(''email'', JString ''a@b.c''), (''primary'', JBool True), (''verified'', JBool True)]]
       else JObject [(''id'', JNumber ''42''), (''login'', JString ''octo'')])\<rparr>)\<rparr>"

definition demo_pending :: oauth_state where
  "demo_pending = \<lparr>os_state = ''s'', os_provider = GITHUB, os_verifier = Some ''v'', os_redirect_to = None, os_created_at = 0\<rparr>"

definition demo_pending_store :: "oauth_state mem_store" where
  "demo_pending_store = snd (st_create (mem_storage demo_states) 0 demo_pending ''s'' (Some 1800) mem_store_init)"

definition demo_browser :: request where
  "demo_browser = plain_request\<lparr>req_cookies := [(OAUTH_STATE_COOKIE_NAME, ''s'')]\<rparr>"

lemma demo_router_sel:
  "ob_store demo_router = mem_storage demo_states" "map_of (ob_providers demo_router) GITHUB = Some demo_github" "ob_service demo_router = demo_oauth"
  "ob_manager demo_router = mem_manager ''g'' default_options" "ob_default_redirect demo_router = ''/''" "\<not> json_mode demo_router"
  by (simp_all add: demo_router_def json_mode_def)

lemma demo_github_ready: "ensure_ready demo_github p = (Inr (), p)"
  by (simp add: ensure_ready_def demo_github_def ret_run)

lemma demo_browser_cookie: "cookie demo_browser OAUTH_STATE_COOKIE_NAME = Some ''s''"
  by (simp add: demo_browser_def cookie_def)

lemma demo_pending_facts:
  "store_ok demo_states demo_pending_store" "val_of (store_view demo_states 0 demo_pending_store) ''s'' = Some demo_pending"
  using mem_store.create_ok [of demo_states mem_store_init "''s''" 0 demo_pending "Some 1800"]
    mem_store.create_view [of demo_states mem_store_init "''s''" "Some 1800" 0 demo_pending]
  by (simp_all add: demo_pending_store_def val_of_def ttl_or_def usec_def)

lemma demo_profile_fetched:
  "profile_of demo_http demo_github ''code'' (Some ''v'') = Inr (Some \<lparr>oi_provider = ''github'', oi_user_id = ''42'', oi_email = Some ''a@b.c'',
     oi_email_verified = True, oi_name = None, oi_given_name = None, oi_family_name = None, oi_username = Some ''octo'', oi_picture = None,
     oi_raw_data = [(''id'', VInt 42), (''login'', VStr ''octo''), (''emails'', VList [VDict [(''email'', VStr ''a@b.c''), (''primary'', VBool True), (''verified'', VBool True)]])]\<rparr>)"
  by code_simp

theorem oauth_state_binds_once_witness:
  "turned_away demo_router (callback_route demo_runtime demo_router demo_http demo_fresh demo_oauth_fresh demo_browser GITHUB (Some ''code'') (Some ''s'') None
     (demo_app [], snd (snd (callback_route demo_runtime demo_router demo_http demo_fresh demo_oauth_fresh demo_browser GITHUB (Some ''code'') (Some ''s'') None
        (demo_app [], demo_pending_store))))) (demo_app [])"
proof -
  have "bound_entry demo_browser GITHUB (Some ''s'') (val_of (store_view demo_states (now demo_fresh) demo_pending_store)) = Some demo_pending"
    using demo_pending_facts(2) by (simp add: bound_entry_def demo_browser_cookie demo_fresh_def) (simp add: demo_pending_def)
  then show ?thesis
    using oauth_state_binds_once [where T = demo_runtime and H = demo_http and f = demo_fresh and g = demo_oauth_fresh and r = demo_browser
        and provider = GITHUB and code = "Some ''code''" and state = "Some ''s''" and error = None and w = "demo_app []",
        OF demo_pending_facts(1) demo_router_sel(1) refl refl]
    by (simp add: or_blank_def demo_router_sel(2))
qed

definition unlimited_auth :: "(mem_limiter, session_data mem_store, csrf_token mem_store, mfa_challenge mem_store) crud_auth" where
  "unlimited_auth = demo_auth\<lparr>action_limits := [(''oauth_authorize'', \<lparr>times = 0, seconds = 0\<rparr>)]\<rparr>"

lemma unlimited: "limited unlimited_auth ''oauth_authorize'' By_ip f r w = (Inr (), w)"
  by (simp add: limited_def unlimited_auth_def rate_limit_dep_def select_transports_def identity_key_def limit_by_request_def bind_run ret_run in_limits_def
      enforce_rate_limit_def disabled_def demo_auth_def demo_runtime_def zoom_def)

theorem oauth_round_trip_witness:
  "\<exists>url w s. authorize_route unlimited_auth demo_router demo_fresh demo_oauth_fresh plain_request GITHUB None (demo_app [], mem_store_init)
       = (Inr (Redirect url), (w, s))
     \<and> (\<exists>s'. callback_route demo_runtime demo_router demo_http (demo_fresh\<lparr>now := 1\<rparr>) demo_oauth_fresh demo_browser GITHUB (Some ''code'') (Some ''s'') None
            (demo_app [], s)
          = redeem_callback demo_runtime demo_router demo_http demo_github (demo_fresh\<lparr>now := 1\<rparr>) demo_oauth_fresh demo_browser GITHUB ''code''
              demo_pending (demo_app [], s'))"
proof -
  have g: "of_state demo_oauth_fresh = ''s''" "of_verifier demo_oauth_fresh = ''v''" "now demo_fresh = 0" by (simp_all add: demo_oauth_fresh_def demo_fresh_def)
  have made: "fst (st_create (mem_storage demo_states) 0 demo_pending ''s'' (Some OAUTH_STATE_TTL_SECONDS) mem_store_init) = Inr ''s''"
    using mem_store.create_result [of demo_states mem_store_init "''s''"] by simp
  obtain answer w1 s1 where run: "authorize_route unlimited_auth demo_router demo_fresh demo_oauth_fresh plain_request GITHUB None (demo_app [], mem_store_init)
      = (Inr answer, (w1, s1))"
    by (auto simp: made authorize_route_def bind_run in_app_run unlimited the_provider_run demo_router_sel get_authorization_url_def
        demo_github_ready ret_run Let_def in_states_run add_cookies_run g demo_pending_def [symmetric])
  note th = oauth_round_trip [OF _ demo_router_sel(1,2) _ run _ refl, where r' = demo_browser and code = "''code''" and f' = "demo_fresh\<lparr>now := 1\<rparr>"
      and st = demo_pending and T = demo_runtime and H = demo_http and g' = demo_oauth_fresh and w' = "demo_app []", OF _ _ _ _ _ _ refl]
  show ?thesis
    using th run by (simp add: g demo_pending_def demo_browser_cookie demo_router_sel(6) OAUTH_STATE_TTL_SECONDS_def usec_def)
qed
definition linked_row_42 :: row where
  "linked_row_42 = (text_id_row 1)(''github_id'' \<mapsto> VStr ''42'')"

definition oauth_runtime :: mem_runtime where
  "oauth_runtime = demo_runtime\<lparr>repo := oauth_repo\<rparr>"

theorem oauth_callback_outcomes_witness:
  "\<exists>out. out = redeem_callback oauth_runtime demo_router demo_http demo_github demo_fresh demo_oauth_fresh demo_browser GITHUB ''code'' demo_pending
       (demo_app [linked_row_42], demo_pending_store)
     \<and> fst out = Inr (Redirect ''/'') \<and> oauth_session ''g'' default_options demo_fresh oauth_repo linked_row_42 (fst (snd out))"
proof -
  define info where "info = the (case profile_of demo_http demo_github ''code'' (Some ''v'') of Inr i \<Rightarrow> i)"
  have p: "profile_of demo_http demo_github ''code'' (os_verifier demo_pending) = Inr (Some info)"
    by (simp add: demo_profile_fetched info_def demo_pending_def)
  have i: "oi_provider info = ''github''" "oi_user_id info = ''42''" by (simp_all add: demo_profile_fetched info_def)
  have cols: "oauth_columns oauth_repo info" "provider_column info = ''github_id''"
    using oauth_repo_columns by (simp_all add: oauth_columns_def written_fields_def provider_column_def demo_profile_def i)
  have active: "is_active oauth_repo linked_row_42"
    by (simp add: is_active_def get_field_def oauth_repo_col linked_row_42_def text_id_row_def demo_row_def)
  have "by_provider oauth_repo info [linked_row_42] = Some linked_row_42" by (simp add: by_provider_def cols(2) i oauth_repo_col linked_row_42_def)
  then have got: "get_or_create_user demo_oauth demo_fresh demo_oauth_fresh info (demo_app [linked_row_42]) = (Inr (linked_row_42, False), demo_app [linked_row_42])"
    using get_or_create_run(1) [OF _ cols(1), of demo_oauth "demo_app [linked_row_42]" linked_row_42] active
    by (simp add: demo_oauth_facts unique_in_def)
  have T: "repo oauth_runtime = oauth_repo" "mfa oauth_runtime = None" by (simp_all add: oauth_runtime_def)
  have fresh: "fresh_session demo_fresh \<noteq> []" "fresh_csrf demo_fresh \<noteq> []" "0 \<le> session_timeout default_options"
    by (simp_all add: demo_fresh_def default_options_def)
  have "url = ''/''" if "case os_redirect_to demo_pending of None \<Rightarrow> url = ob_default_redirect demo_router
      | Some t \<Rightarrow> url = (if on_this_host t then t else ob_default_redirect demo_router)" for url
    using that by (auto simp: demo_pending_def demo_router_def split: if_splits)
  moreover have "\<not> second_factor oauth_runtime linked_row_42" by (simp add: second_factor_def T)
  moreover note oauth_callback_outcomes [OF T(1) [symmetric] demo_router_sel(4) _ _ _ p [symmetric] refl, where f = demo_fresh and g = demo_oauth_fresh and r = demo_browser
      and provider = GITHUB and w = "demo_app [linked_row_42]" and s = demo_pending_store]
  ultimately show ?thesis
    using got active by (auto simp: demo_router_sel demo_oauth_facts fresh sign_in_answer_def)
qed

end
