(* ===== verification/OAuthProviderLaws.thy ===== *)
theory OAuthProviderLaws
  imports OAuthRouteLaws
begin

text \<open>
  What a provider has to say for an address to count as verified, and what discovery makes of an
  OpenID Connect provider.
\<close>

section \<open>Verified addresses\<close>

lemma first_entry_Some: "first_entry Q es = Inr (Some e) \<Longrightarrow> JObject e \<in> set es \<and> Q e"
  by (induction es) (auto split: json.splits if_splits)

lemma first_entry_None: "first_entry Q es = Inr None \<Longrightarrow> JObject e \<in> set es \<Longrightarrow> \<not> Q e"
  by (induction es) (auto split: json.splits if_splits)

lemma select_github_run:
  assumes "select_github_email es = Inr (v, yes)"
  shows "yes \<Longrightarrow> \<exists>e. JObject e \<in> set es \<and> is_verified e \<and> v = jget e ''email''"
    and "JObject e \<in> set es \<Longrightarrow> is_verified e \<Longrightarrow> yes"
    and "JObject e \<in> set es \<Longrightarrow> is_primary e \<Longrightarrow> is_verified e \<Longrightarrow> \<exists>d. JObject d \<in> set es \<and> is_primary d \<and> is_verified d \<and> v = jget d ''email''"
  using assms first_entry_Some [of _ es] first_entry_None [of _ es]
  by (auto simp: select_github_email_def split: sum.splits option.splits list.splits json.splits) (metis (no_types, lifting))+

lemma github_emails_shape:
  assumes "github_emails info = Inr es" and "JObject e \<in> set es"
  shows "jget info ''emails'' = JArray es"
  using assms by (auto simp: github_emails_def Let_def split: if_splits json.splits)

lemma user_info_of_fields:
  assumes "user_info_of provider info uid email vouch names = Inr u"
  shows "oi_provider u = provider" "oi_user_id u = json_str uid" "str_field email = Inr (oi_email u)" "oi_email_verified u = vouch"
  using assms by (auto simp: user_info_of_def Let_def split: prod.splits sum.splits)

definition told_verified :: "oauth_provider \<Rightarrow> json_object \<Rightarrow> string option \<Rightarrow> bool" where
  "told_verified P info email \<longleftrightarrow>
     (if pv_class P = GitHub
      then \<exists>es e. jget info ''emails'' = JArray es \<and> JObject e \<in> set es \<and> is_verified e \<and> str_field (jget e ''email'') = Inr email
      else jget info ''email_verified'' = JBool True \<and> str_field (jget info ''email'') = Inr email)"

text \<open>
  C40. Verified addresses. A built-in provider's profile carries an address as verified only if the
  provider said literally \<open>true\<close> of that very address: in the claim of Google and of OpenID Connect,
  in the entry of the list of GitHub. GitHub's list is searched through: if one of its entries is verified the
  address is, and it is the primary one if that is. A payload without an account id, null or missing, is never accepted.
\<close>

theorem provider_vouches_when_told:
  assumes "process_user_info P info = Inr u" and "\<forall>h. pv_class P \<noteq> Custom_provider h"
  shows "(oi_email_verified u \<longrightarrow> told_verified P info (oi_email u))
    \<and> (pv_class P = GitHub \<longrightarrow> (\<forall>es e. jget info ''emails'' = JArray es \<longrightarrow> JObject e \<in> set es \<longrightarrow> is_verified e \<longrightarrow>
         oi_email_verified u \<and> (is_primary e \<longrightarrow> (\<exists>d. JObject d \<in> set es \<and> is_primary d \<and> is_verified d \<and> str_field (jget d ''email'') = Inr (oi_email u)))))
    \<and> jget info (if pv_class P = GitHub then ''id'' else ''sub'') \<noteq> JNull"
proof (cases "pv_class P")
  case GitHub
  then obtain es email vouch where g: "jget info ''id'' \<noteq> JNull" "github_emails info = Inr es" "select_github_email es = Inr (email, vouch)"
    "user_info_of GITHUB info (jget info ''id'') email vouch (jget info ''name'', JNull, JNull, jget info ''login'', jget info ''avatar_url'') = Inr u"
    using assms(1) by (auto simp: process_user_info_def github_user_info_def Let_def split: if_splits sum.splits prod.splits)
  note f = user_info_of_fields [OF g(4)]
  have list: "es = es'" if "jget info ''emails'' = JArray es'" "JObject e \<in> set es'" for es' e
    using g(2) that by (auto simp: github_emails_def Let_def split: if_splits)
  have "told_verified P info (oi_email u)" if "oi_email_verified u"
    using select_github_run(1) [OF g(3)] github_emails_shape [OF g(2)] f(3,4) that GitHub by (auto simp: told_verified_def)
  then show ?thesis
    using GitHub g(1) list select_github_run(2,3) [OF g(3)] f(3,4) by simp metis
next
  case Google
  then show ?thesis
    using assms(1) user_info_of_fields [of GOOGLE info "jget info ''sub''"]
    by (auto simp: process_user_info_def google_user_info_def Let_def told_verified_def split: if_splits)
next
  case (OIDC i b)
  then show ?thesis
    using assms(1) user_info_of_fields [of "provider_name P" info "jget info ''sub''"]
    by (auto simp: process_user_info_def oidc_user_info_def Let_def told_verified_def split: if_splits)
qed (use assms(2) in simp)

definition github_answer :: json_object where
  "github_answer = [(''id'', JNumber ''42''),
     (''emails'', JArray [JObject [(''email'', JString ''x@b.c''), (''primary'', JBool True)], JObject [(''email'', JString ''a@b.c''), (''verified'', JBool True)]])]"

theorem provider_vouches_when_told_witness:
  "\<exists>u. process_user_info demo_github github_answer = Inr u \<and> oi_email u = Some ''a@b.c'' \<and> oi_email_verified u
     \<and> told_verified demo_github github_answer (oi_email u)"
proof -
  have "(case process_user_info demo_github github_answer of Inl e \<Rightarrow> False | Inr u \<Rightarrow> oi_email u = Some ''a@b.c'' \<and> oi_email_verified u)" by code_simp
  then obtain u where u: "process_user_info demo_github github_answer = Inr u" "oi_email u = Some ''a@b.c''" "oi_email_verified u"
    by (auto split: sum.splits)
  then show ?thesis using provider_vouches_when_told [OF u(1)] by (simp add: demo_github_def)
qed

section \<open>Discovery\<close>

lemma ok_json_Inr:
  "fst (ok_json a p) = Inr j \<Longrightarrow> \<exists>resp. a = Inr resp \<and> 200 \<le> resp_status resp \<and> resp_status resp < 300 \<and> resp_json resp = Some j"
  by (auto simp: ok_json_def returned_pure bind_run raise_run ret_run split: sum.splits option.splits if_splits)

definition resolved_by :: "oauth_provider \<Rightarrow> string \<Rightarrow> json_object \<Rightarrow> oauth_provider" where
  "resolved_by P normal kvs = P\<lparr>pv_class := OIDC normal True, authorize_endpoint := json_str (jget kvs ''authorization_endpoint''),
     token_endpoint := json_str (jget kvs ''token_endpoint''), userinfo_endpoint := json_str (jget kvs ''userinfo_endpoint''),
     token_auth_method := pick_token_auth P kvs\<rparr>"

definition declares :: "json_object \<Rightarrow> string \<Rightarrow> bool" where
  "declares kvs normal \<longleftrightarrow> map_of kvs ''issuer'' \<noteq> None \<and> normal \<in> {json_str (jget kvs ''issuer''), rstrip_char (CHR ''/'') (json_str (jget kvs ''issuer''))}"

lemma initialize_run:
  assumes "pv_class P = OIDC normal False" and "normal \<noteq> []"
    and "answer = http_get H (normal @ OIDC_DISCOVERY_PATH) [(''Accept'', ''application/json'')]"
  shows "snd (initialize H P p) = p"
    and "fst (initialize H P p) = Inr P' \<longleftrightarrow>
      (\<exists>resp kvs. answer = Inr resp \<and> 200 \<le> resp_status resp \<and> resp_status resp < 300 \<and> resp_json resp = Some (JObject kvs)
         \<and> declares kvs normal \<and> (\<forall>k \<in> set REQUIRED_ENDPOINTS. json_truthy (jget kvs k)) \<and> P' = resolved_by P normal kvs)"
proof -
  obtain j where j: "ok_json answer p = (j, p)" using ok_json_pure by metis
  have e: "rstrip_char c [] = []" for c by (simp add: rstrip_char_def)
  have m: "filter (\<lambda>k. \<not> json_truthy (jget kvs k)) REQUIRED_ENDPOINTS = [] \<longleftrightarrow> (\<forall>k \<in> set REQUIRED_ENDPOINTS. json_truthy (jget kvs k))" for kvs
    by (simp add: filter_empty_conv)
  note run = initialize_def assms(1) Let_def bind_run assms(3) [symmetric] j
  show "snd (initialize H P p) = p" by (simp add: run raise_run ret_run split: sum.split json.split)
  have "fst (initialize H P p) = Inr P' \<longleftrightarrow> (\<exists>kvs. j = Inr (JObject kvs) \<and> declares kvs normal
      \<and> (\<forall>k \<in> set REQUIRED_ENDPOINTS. json_truthy (jget kvs k)) \<and> P' = resolved_by P normal kvs)"
    using assms(2) e by (auto simp: run m declares_def resolved_by_def raise_run ret_run split: sum.split json.split)
  moreover have "j = Inr d \<longleftrightarrow> (\<exists>resp. answer = Inr resp \<and> 200 \<le> resp_status resp \<and> resp_status resp < 300 \<and> resp_json resp = Some d)" for d
  proof
    show "j = Inr d \<Longrightarrow> \<exists>resp. answer = Inr resp \<and> 200 \<le> resp_status resp \<and> resp_status resp < 300 \<and> resp_json resp = Some d"
      using ok_json_Inr [of answer p d] j by simp
    show "\<exists>resp. answer = Inr resp \<and> 200 \<le> resp_status resp \<and> resp_status resp < 300 \<and> resp_json resp = Some d \<Longrightarrow> j = Inr d"
      using j by (auto simp: ok_json_def returned_pure bind_run ret_run)
  qed
  ultimately show "fst (initialize H P p) = Inr P' \<longleftrightarrow>
      (\<exists>resp kvs. answer = Inr resp \<and> 200 \<le> resp_status resp \<and> resp_status resp < 300 \<and> resp_json resp = Some (JObject kvs)
         \<and> declares kvs normal \<and> (\<forall>k \<in> set REQUIRED_ENDPOINTS. json_truthy (jget kvs k)) \<and> P' = resolved_by P normal kvs)"
    by blast
qed

text \<open>
  Discovery. An OpenID Connect provider whose endpoints are not resolved refuses every outward
  step. It becomes ready only from a JSON object that declares the configured issuer (a trailing
  slash aside) and names all three endpoints, which are then used as named; the client, its
  secret and the issuer stay, and a provider that is ready is not asked again.
\<close>

theorem oidc_discovery:
  assumes "pv_class P = OIDC normal False" and "normal \<noteq> []"
    and "answer = http_get H (normal @ OIDC_DISCOVERY_PATH) [(''Accept'', ''application/json'')]"
  shows "(\<exists>m. get_authorization_url P s v st' k ex p = (Inl (RuntimeError m), p))
    \<and> (\<exists>m. exchange_code H P code cv hs p = (Inl (RuntimeError m), p))
    \<and> (\<exists>m. get_user_info H P tok p = (Inl (RuntimeError m), p))
    \<and> (\<forall>P'. initialize H P p = (Inr P', p) \<longleftrightarrow>
         (\<exists>resp kvs. answer = Inr resp \<and> 200 \<le> resp_status resp \<and> resp_status resp < 300 \<and> resp_json resp = Some (JObject kvs)
            \<and> declares kvs normal \<and> (\<forall>k \<in> set REQUIRED_ENDPOINTS. json_truthy (jget kvs k)) \<and> P' = resolved_by P normal kvs))
    \<and> (\<forall>P'. initialize H P p = (Inr P', p) \<longrightarrow> (\<forall>H'. initialize H' P' p = (Inr P', p)))"
proof -
  have r: "\<exists>m. ensure_ready P q = (Inl (RuntimeError m), q)" for q :: 'x by (simp add: assms(1) ensure_ready_def raise_run)
  have "\<exists>m. get_authorization_url P s v st' k ex p = (Inl (RuntimeError m), p)" "\<exists>m. base_exchange_code H P code cv hs p = (Inl (RuntimeError m), p)"
    "\<exists>m. base_get_user_info H P tok p = (Inl (RuntimeError m), p)"
    by (simp_all add: get_authorization_url_def base_exchange_code_def base_get_user_info_def bind_run assms(1) ensure_ready_def raise_run)
  moreover have "initialize H' (resolved_by P normal kvs) p = (Inr (resolved_by P normal kvs), p)" for H' kvs
    by (simp add: initialize_def resolved_by_def ret_run)
  moreover have "initialize H P p = (x, p) \<longleftrightarrow> fst (initialize H P p) = x" for x
    using initialize_run(1) [OF assms, of p] by (metis fst_conv prod.collapse)
  ultimately show ?thesis
    using initialize_run(2) [OF assms, of p] by (auto simp: exchange_code_def get_user_info_def assms(1))
qed

definition demo_document :: json_object where
  "demo_document = [(''issuer'', JString ''https://id/''), (''authorization_endpoint'', JString ''https://id/a''),
     (''token_endpoint'', JString ''https://id/t''), (''userinfo_endpoint'', JString ''https://id/u'')]"

definition demo_discovery :: http_client where
  "demo_discovery = \<lparr>http_post = (\<lambda>url form hs cred. Inl (HTTPError ''ConnectError'')),
     http_get = (\<lambda>url hs. if url = ''https://id/.well-known/openid-configuration''
       then Inr \<lparr>resp_status = 200, resp_json = Some (JObject demo_document)\<rparr> else Inl (HTTPError ''ConnectError''))\<rparr>"

definition demo_oidc :: oauth_provider where
  "demo_oidc = \<lparr>pv_class = OIDC ''https://id'' False, client_id = ''id'', client_secret = ''secret'', redirect_uri = ''https://app/cb'', scopes = OIDC_DEFAULT_SCOPES,
     authorize_endpoint = [], token_endpoint = [], userinfo_endpoint = [], provider_name = ''sso'', token_auth_method = TOKEN_AUTH_POST\<rparr>"

theorem oidc_discovery_witness:
  "oidc_provider ''id'' ''secret'' ''https://app/cb'' ''https://id/'' ''sso'' None ([], [], []) = Inr demo_oidc
   \<and> initialize demo_discovery demo_oidc () = (Inr (resolved_by demo_oidc ''https://id'' demo_document), ())"
proof
  show "oidc_provider ''id'' ''secret'' ''https://app/cb'' ''https://id/'' ''sso'' None ([], [], []) = Inr demo_oidc"
  proof -
    have "normalize_issuer ''https://id/'' = Inr ''https://id''" by code_simp
    then show ?thesis by (simp add: oidc_provider_def mk_provider_def demo_oidc_def scopes_or_def)
  qed
  have "declares demo_document ''https://id''" "\<forall>k \<in> set REQUIRED_ENDPOINTS. json_truthy (jget demo_document k)" by code_simp+
  moreover have "http_get demo_discovery (''https://id'' @ OIDC_DISCOVERY_PATH) [(''Accept'', ''application/json'')]
      = Inr \<lparr>resp_status = 200, resp_json = Some (JObject demo_document)\<rparr>"
    by (simp add: demo_discovery_def OIDC_DISCOVERY_PATH_def)
  moreover note oidc_discovery [OF _ _ refl, where P = demo_oidc and normal = "''https://id''" and H = demo_discovery and p = "()"]
  ultimately show "initialize demo_discovery demo_oidc () = (Inr (resolved_by demo_oidc ''https://id'' demo_document), ())"
    by (auto simp: demo_oidc_def)
qed

end
