(* ===== verification/Database.thy ===== *)
theory Database
  imports Storage Urls
begin

text \<open>
  The SQLAlchemy backends: \<open>storage/backends/database.py\<close> (the \<open>DatabaseStore\<close> with its two
  tables, and the storage over one of them) and \<open>ratelimit/backends/database.py\<close>. A table is the
  list of its rows under their primary keys, and a statement of the source is a program over it.
  The database is shared: before each of a store's transactions the transactions of other workers
  may have run, and the database may roll the transaction back and report an error. What it will do is
  the list \<open>upcoming\<close> of the state, empty for a database that is used by nobody else and reports
  nothing. A transaction itself is atomic. Two readings of the clock within one operation are one.
\<close>

section \<open>Tables and statements\<close>

record 'a store_row =
  sr_value :: 'a
  sr_user_id :: "string option"
  sr_version :: int
  sr_expires :: int

record counter_row =
  cr_count :: int
  cr_expires :: "int option"

record 'a db_tables =
  store_table :: "(string \<times> 'a store_row) list"
  counter_table :: "(string \<times> counter_row) list"

type_synonym ('r, 'x) statement = "((string \<times> 'r) list, 'x) prog"

definition select_rows :: "(string \<Rightarrow> 'r \<Rightarrow> bool) \<Rightarrow> ('r, (string \<times> 'r) list) statement" where
  "select_rows P = gets (filter (\<lambda>(k, r). P k r))"

definition matched :: "(string \<Rightarrow> 'r \<Rightarrow> bool) \<Rightarrow> (string \<times> 'r) list \<Rightarrow> int" where
  "matched P t = int (length (filter (\<lambda>(k, r). P k r) t))"

definition update_rows :: "(string \<Rightarrow> 'r \<Rightarrow> bool) \<Rightarrow> ('r \<Rightarrow> 'r) \<Rightarrow> ('r, int) statement" where
  "update_rows P f t = (Inr (matched P t), map (\<lambda>(k, r). (k, if P k r then f r else r)) t)"

definition delete_rows :: "(string \<Rightarrow> 'r \<Rightarrow> bool) \<Rightarrow> ('r, int) statement" where
  "delete_rows P t = (Inr (matched P t), filter (\<lambda>(k, r). \<not> P k r) t)"

definition insert_into :: "string \<Rightarrow> 'r \<Rightarrow> ('r, unit) statement" where
  "insert_into k r t = (if k \<in> fst ` set t then (Inl integrity_error, t) else (Inr (), t @ [(k, r)]))"

definition on_store :: "('a store_row, 'x) statement \<Rightarrow> ('a db_tables, 'x) prog" where
  "on_store m = zoom store_table (\<lambda>t d. d\<lparr>store_table := t\<rparr>) m"

definition on_counters :: "(counter_row, 'x) statement \<Rightarrow> ('a db_tables, 'x) prog" where
  "on_counters m = zoom counter_table (\<lambda>t d. d\<lparr>counter_table := t\<rparr>) m"

section \<open>Transactions\<close>

text \<open>What the driver reports: the kind of the error and the fields the source looks at.\<close>

record db_error =
  is_integrity_error :: bool
  sqlstate :: "string option"
  pgcode :: "string option"
  error_args :: "int list"

definition MYSQL_RETRYABLE_CODES :: "int list" where
  "MYSQL_RETRYABLE_CODES = [1205, 1213]"

definition POSTGRESQL_RETRYABLE_STATES :: "string list" where
  "POSTGRESQL_RETRYABLE_STATES = [''40001'', ''40P01'']"

definition retryable :: "db_error \<Rightarrow> bool" where
  "retryable e \<longleftrightarrow>
     sqlstate e \<in> Some ` set POSTGRESQL_RETRYABLE_STATES \<or> pgcode e \<in> Some ` set POSTGRESQL_RETRYABLE_STATES
     \<or> (case error_args e of [] \<Rightarrow> False | a # _ \<Rightarrow> a \<in> set MYSQL_RETRYABLE_CODES)"

definition db_exc :: "db_error \<Rightarrow> exc" where
  "db_exc e = (if is_integrity_error e then integrity_error else BackendError ''DBAPIError'')"

definition DATABASE_TRANSACTION_ATTEMPTS :: nat where
  "DATABASE_TRANSACTION_ATTEMPTS = 5"

text \<open>
  The state of a \<open>DatabaseStore\<close>. Each element of \<open>upcoming\<close> is about one attempt: what other
  workers do to the tables before it, and the error it fails with, if it does.
\<close>

record 'a database_store =
  tables :: "'a db_tables"
  writes_since_purge :: int
  upcoming :: "(('a db_tables \<Rightarrow> 'a db_tables) \<times> db_error option) list"

definition next_attempt :: "'a database_store \<Rightarrow> db_error option \<times> 'a database_store" where
  "next_attempt s =
     (case upcoming s of
        [] \<Rightarrow> (None, s)
      | (others, fault) # rest \<Rightarrow> (fault, s\<lparr>tables := others (tables s), upcoming := rest\<rparr>))"

text \<open>A transaction that raises is rolled back, and one that is not a write leaves nothing to commit.\<close>

definition transact :: "bool \<Rightarrow> ('a db_tables, 'x) prog \<Rightarrow> ('a database_store, 'x) prog" where
  "transact write work s =
     (case work (tables s) of
        (Inl e, _) \<Rightarrow> (Inl e, s)
      | (Inr x, t) \<Rightarrow> (Inr x, if write then s\<lparr>tables := t\<rparr> else s))"

fun run_attempts :: "nat \<Rightarrow> bool \<Rightarrow> ('a db_tables, 'x) prog \<Rightarrow> ('a database_store, 'x) prog" where
  "run_attempts 0 write work s = (Inl (AssertionError ''unreachable''), s)"
| "run_attempts (Suc left) write work s =
     (case next_attempt s of
        (None, s') \<Rightarrow> transact write work s'
      | (Some e, s') \<Rightarrow>
          if is_integrity_error e \<or> \<not> retryable e then (Inl (db_exc e), s')
          else if left = 0 then (Inl (db_exc e), s')
          else run_attempts left write work s')"

definition db_run :: "bool \<Rightarrow> ('a db_tables, 'x) prog \<Rightarrow> ('a database_store, 'x) prog" where
  "db_run write work = run_attempts DATABASE_TRANSACTION_ATTEMPTS write work"

text \<open>An upsert of the source that lost a race for its insert is run once more.\<close>

definition run_upsert :: "('a db_tables, 'x) prog \<Rightarrow> ('a database_store, 'x) prog" where
  "run_upsert work = catch (db_run True work) (\<lambda>e. if e = integrity_error then db_run True work else raise e)"

section \<open>Keys, clock, configuration\<close>

definition now_ms :: "int \<Rightarrow> int" where
  "now_ms clock = clock div 1000"

definition expires_in :: "int \<Rightarrow> int \<Rightarrow> int" where
  "expires_in clock seconds = now_ms clock + seconds * 1000"

definition DATABASE_KEY_MAX_LENGTH :: nat where
  "DATABASE_KEY_MAX_LENGTH = 255"

definition DATABASE_KEY_DIGEST_SEPARATOR :: string where
  "DATABASE_KEY_DIGEST_SEPARATOR = ''#''"

definition stored_key :: "string \<Rightarrow> string" where
  "stored_key key =
     (if length key \<le> DATABASE_KEY_MAX_LENGTH then key
      else (let digest = sha256_hex key;
                keep = DATABASE_KEY_MAX_LENGTH - length digest - length DATABASE_KEY_DIGEST_SEPARATOR
            in take keep key @ DATABASE_KEY_DIGEST_SEPARATOR @ digest))"

text \<open>The SQL dialect, and what SQLAlchemy says it can do.\<close>

record db_engine =
  dialect :: string
  delete_returning :: bool
  insert_returning :: bool

definition MYSQL_DIALECTS :: "string list" where
  "MYSQL_DIALECTS = [''mysql'', ''mariadb'']"

definition upserts_returning :: "db_engine \<Rightarrow> bool" where
  "upserts_returning E \<longleftrightarrow> dialect E \<in> {''postgresql'', ''sqlite''} \<and> insert_returning E"

record database_config =
  purge_every :: int
  purge_batch_size :: int
  engine :: db_engine

definition mk_database_store :: "string \<Rightarrow> string \<Rightarrow> database_config \<Rightarrow> exc + database_config" where
  "mk_database_store store_name counter_name D =
     (if store_name = counter_name then Inl (ValueError ''store_table and counter_table must differ'')
      else if purge_every D < 0 then Inl (ValueError ''purge_every must be 0 (off) or a positive number of writes'')
      else if purge_batch_size D < 1 then Inl (ValueError ''purge_batch_size must be at least 1'')
      else Inr D)"

section \<open>Purging\<close>

text \<open>
  The loop of \<open>_purge\<close> over \<open>n\<close> batches, with whether it came to its end: a loop without a
  bound on its batches is one that came to its end for some \<open>n\<close>.
\<close>

fun purge_batches :: "nat \<Rightarrow> ('w, string list) prog \<Rightarrow> (string list \<Rightarrow> ('w, int) prog) \<Rightarrow> int \<Rightarrow> int \<Rightarrow> ('w, int \<times> bool) prog" where
  "purge_batches 0 sel del batch_limit deleted = ret (deleted, False)"
| "purge_batches (Suc n) sel del batch_limit deleted =
     bind sel (\<lambda>batch.
     if batch = [] then ret (deleted, True)
     else bind (del batch) (\<lambda>gone.
          if int (length batch) < batch_limit then ret (deleted + gone, True)
          else purge_batches n sel del batch_limit (deleted + gone)))"

definition expired_values :: "int \<Rightarrow> string \<Rightarrow> 'a store_row \<Rightarrow> bool" where
  "expired_values clock k r \<longleftrightarrow> sr_expires r \<le> now_ms clock"

definition expired_counter :: "int \<Rightarrow> string \<Rightarrow> counter_row \<Rightarrow> bool" where
  "expired_counter clock k r \<longleftrightarrow> (case cr_expires r of None \<Rightarrow> False | Some e \<Rightarrow> e \<le> now_ms clock)"

definition some_keys :: "(string \<Rightarrow> 'r \<Rightarrow> bool) \<Rightarrow> int \<Rightarrow> ('r, string list) statement" where
  "some_keys P batch_limit = bind (select_rows P) (\<lambda>rs. ret (take (nat batch_limit) (map fst rs)))"

definition purge_values :: "nat \<Rightarrow> int \<Rightarrow> int \<Rightarrow> ('a database_store, int \<times> bool) prog" where
  "purge_values n clock batch_limit =
     purge_batches n (db_run False (on_store (some_keys (expired_values clock) batch_limit)))
       (\<lambda>batch. db_run True (on_store (delete_rows (\<lambda>k r. k \<in> set batch \<and> expired_values clock k r)))) batch_limit 0"

definition purge_counters :: "nat \<Rightarrow> int \<Rightarrow> int \<Rightarrow> ('a database_store, int \<times> bool) prog" where
  "purge_counters n clock batch_limit =
     purge_batches n (db_run False (on_counters (some_keys (expired_counter clock) batch_limit)))
       (\<lambda>batch. db_run True (on_counters (delete_rows (\<lambda>k r. k \<in> set batch \<and> expired_counter clock k r)))) batch_limit 0"

text \<open>\<open>purge_expired\<close> with \<open>n\<close> batches at most for each table: the count, and whether both loops ended.\<close>

definition purge_expired :: "database_config \<Rightarrow> nat \<Rightarrow> int \<Rightarrow> int option \<Rightarrow> ('a database_store, int \<times> bool) prog" where
  "purge_expired D n clock batch_size =
     (let batch_limit = (case batch_size of None \<Rightarrow> purge_batch_size D | Some b \<Rightarrow> if b = 0 then purge_batch_size D else b)
      in bind (purge_values n clock batch_limit) (\<lambda>(gone, ended).
         bind (purge_counters n clock batch_limit) (\<lambda>(gone', ended').
         ret (gone + gone', ended \<and> ended'))))"

definition note_write :: "database_config \<Rightarrow> int \<Rightarrow> ('a database_store, unit) prog" where
  "note_write D clock =
     (if purge_every D = 0 then ret ()
      else
        bind (modifies (\<lambda>s. s\<lparr>writes_since_purge := writes_since_purge s + 1\<rparr>)) (\<lambda>_.
        bind (gets writes_since_purge) (\<lambda>writes.
        if writes < purge_every D then ret ()
        else
          bind (modifies (\<lambda>s. s\<lparr>writes_since_purge := 0\<rparr>)) (\<lambda>_.
          let batches = nat (- ((- purge_every D) div purge_batch_size D))
          in catch (bind (purge_values batches clock (purge_batch_size D)) (\<lambda>_.
                    bind (purge_counters batches clock (purge_batch_size D)) (\<lambda>_. ret ())))
               (\<lambda>_. ret ())))))"

section \<open>The storage\<close>

text \<open>
  \<open>ds_user_id\<close> is what \<open>getattr(data, "user_id", None)\<close> finds, \<open>ds_uuid\<close> the id drawn when none is given.
\<close>

record 'a db_storage =
  ds_database :: database_config
  ds_prefix :: string
  ds_expiration :: int
  ds_uuid :: string
  ds_user_id :: "'a \<Rightarrow> pyval option"

definition db_key :: "'a db_storage \<Rightarrow> string \<Rightarrow> string" where
  "db_key S session_id = stored_key (get_key (ds_prefix S) session_id)"

definition live_row :: "int \<Rightarrow> string \<Rightarrow> string \<Rightarrow> 'a store_row \<Rightarrow> bool" where
  "live_row clock key k r \<longleftrightarrow> k = key \<and> now_ms clock < sr_expires r"

definition user_column :: "'a db_storage \<Rightarrow> 'a \<Rightarrow> string option" where
  "user_column S v = map_option py_str (ds_user_id S v)"

definition row_expiry :: "'a db_storage \<Rightarrow> int \<Rightarrow> int option \<Rightarrow> int" where
  "row_expiry S clock exp = expires_in clock (ttl_or (ds_expiration S) exp)"

definition db_create :: "'a db_storage \<Rightarrow> int \<Rightarrow> 'a \<Rightarrow> string \<Rightarrow> int option \<Rightarrow> ('a database_store, string) prog" where
  "db_create S clock v session_id exp =
     (let sid = (if session_id = [] then ds_uuid S else session_id);
          key = db_key S sid;
          write = on_store
            (bind (update_rows (\<lambda>k _. k = key) (\<lambda>r. r\<lparr>sr_value := v, sr_user_id := user_column S v, sr_version := sr_version r + 1,
                sr_expires := row_expiry S clock exp\<rparr>)) (\<lambda>replaced.
             if replaced = 0
             then insert_into key \<lparr>sr_value = v, sr_user_id = user_column S v, sr_version = 1, sr_expires = row_expiry S clock exp\<rparr>
             else ret ()))
      in bind (run_upsert write) (\<lambda>_. bind (note_write (ds_database S) clock) (\<lambda>_. ret sid)))"

definition db_get :: "'a db_storage \<Rightarrow> int \<Rightarrow> string \<Rightarrow> ('a database_store, 'a option) prog" where
  "db_get S clock session_id =
     bind (db_run False (on_store (select_rows (live_row clock (db_key S session_id))))) (\<lambda>rs.
     ret (case rs of [] \<Rightarrow> None | (_, r) # _ \<Rightarrow> Some (sr_value r)))"

definition db_rewrite :: "'a db_storage \<Rightarrow> int \<Rightarrow> string \<Rightarrow> 'a \<Rightarrow> bool \<Rightarrow> int option \<Rightarrow> ('a database_store, bool) prog" where
  "db_rewrite S clock session_id v reset exp =
     bind (db_run True (on_store (update_rows (live_row clock (db_key S session_id))
             (\<lambda>r. r\<lparr>sr_value := v, sr_user_id := user_column S v, sr_version := sr_version r + 1,
                    sr_expires := (if reset then row_expiry S clock exp else sr_expires r)\<rparr>)))) (\<lambda>n.
     ret (n \<noteq> 0))"

definition DATABASE_MODIFY_MAX_ATTEMPTS :: nat where
  "DATABASE_MODIFY_MAX_ATTEMPTS = 50"

text \<open>The update that applies only to the version it was computed from.\<close>

definition guarded_update :: "'a db_storage \<Rightarrow> int \<Rightarrow> string \<Rightarrow> 'a store_row \<Rightarrow> 'a \<Rightarrow> bool \<Rightarrow> int option \<Rightarrow> ('a db_tables, int) prog" where
  "guarded_update S clock key seen v reset exp =
     on_store (update_rows (\<lambda>k r. live_row clock key k r \<and> sr_version r = sr_version seen)
       (\<lambda>r. r\<lparr>sr_value := v, sr_user_id := user_column S v, sr_version := sr_version seen + 1,
              sr_expires := (if reset then row_expiry S clock exp else sr_expires r)\<rparr>))"

fun modify_attempts :: "nat \<Rightarrow> 'a db_storage \<Rightarrow> int \<Rightarrow> string \<Rightarrow> ('a \<Rightarrow> 'a \<times> string) \<Rightarrow> bool \<Rightarrow> int option \<Rightarrow>
    ('a database_store, ('a \<times> string) option) prog" where
  "modify_attempts 0 S clock key change reset exp =
     raise (RuntimeError (''Could not update '' @ str_repr key @ '': it changed under every attempt''))"
| "modify_attempts (Suc n) S clock key change reset exp =
     bind (db_run False (on_store (select_rows (live_row clock key)))) (\<lambda>rs.
     case rs of
       [] \<Rightarrow> ret None
     | (_, seen) # _ \<Rightarrow>
         bind (db_run True (guarded_update S clock key seen (fst (change (sr_value seen))) reset exp)) (\<lambda>n'.
         if n' \<noteq> 0 then ret (Some (change (sr_value seen)))
         else modify_attempts n S clock key change reset exp))"

definition db_modify :: "'a db_storage \<Rightarrow> int \<Rightarrow> string \<Rightarrow> ('a \<Rightarrow> 'a \<times> string) \<Rightarrow> bool \<Rightarrow> int option \<Rightarrow>
    ('a database_store, ('a \<times> string) option) prog" where
  "db_modify S clock session_id = modify_attempts DATABASE_MODIFY_MAX_ATTEMPTS S clock (db_key S session_id)"

definition db_remove :: "'a db_storage \<Rightarrow> int \<Rightarrow> string \<Rightarrow> pyval \<Rightarrow> ('a database_store, bool) prog" where
  "db_remove S clock session_id user_id =
     bind (db_run True (on_store (bind (delete_rows (live_row clock (db_key S session_id))) (\<lambda>live.
             bind (delete_rows (\<lambda>k _. k = db_key S session_id)) (\<lambda>_. ret live))))) (\<lambda>n.
     ret (n \<noteq> 0))"

definition db_extend :: "'a db_storage \<Rightarrow> int \<Rightarrow> string \<Rightarrow> int option \<Rightarrow> ('a database_store, bool) prog" where
  "db_extend S clock session_id exp =
     bind (db_run True (on_store (update_rows (live_row clock (db_key S session_id)) (\<lambda>r. r\<lparr>sr_expires := row_expiry S clock exp\<rparr>)))) (\<lambda>n.
     ret (n \<noteq> 0))"

definition db_exists :: "'a db_storage \<Rightarrow> int \<Rightarrow> string \<Rightarrow> ('a database_store, bool) prog" where
  "db_exists S clock session_id =
     bind (db_run False (on_store (select_rows (live_row clock (db_key S session_id))))) (\<lambda>rs. ret (rs \<noteq> []))"

text \<open>\<open>INSERT OR IGNORE\<close> inserts nothing where a plain insert raises.\<close>

definition insert_row_count :: "db_engine \<Rightarrow> string \<Rightarrow> 'r \<Rightarrow> ('r, int) statement" where
  "insert_row_count E k r =
     (if dialect E = ''sqlite'' then catch (bind (insert_into k r) (\<lambda>_. ret 1)) (\<lambda>_. ret 0)
      else bind (insert_into k r) (\<lambda>_. ret 1))"

definition db_set_if_absent :: "'a db_storage \<Rightarrow> int \<Rightarrow> string \<Rightarrow> 'a \<Rightarrow> int option \<Rightarrow> ('a database_store, bool) prog" where
  "db_set_if_absent S clock session_id v exp =
     (let key = db_key S session_id;
          row = \<lparr>sr_value = v, sr_user_id = user_column S v, sr_version = 1, sr_expires = row_expiry S clock exp\<rparr>;
          claim = on_store (bind (delete_rows (\<lambda>k r. k = key \<and> expired_values clock k r)) (\<lambda>_.
                    bind (insert_row_count (engine (ds_database S)) key row) (\<lambda>n. ret (n \<noteq> 0))))
      in bind (catch (bind (db_run True claim) (\<lambda>claimed. ret (Some claimed)))
                 (\<lambda>e. if e = integrity_error then ret None else raise e)) (\<lambda>outcome.
         if outcome = Some True then bind (note_write (ds_database S) clock) (\<lambda>_. ret True) else ret False))"

definition delete_returning_values :: "(string \<Rightarrow> 'a store_row \<Rightarrow> bool) \<Rightarrow> ('a store_row, 'a list) statement" where
  "delete_returning_values P =
     bind (select_rows P) (\<lambda>rs. bind (delete_rows P) (\<lambda>_. ret (map (\<lambda>(_, r). sr_value r) rs)))"

definition db_get_and_delete :: "'a db_storage \<Rightarrow> int \<Rightarrow> string \<Rightarrow> ('a database_store, 'a option) prog" where
  "db_get_and_delete S clock session_id =
     (let live = live_row clock (db_key S session_id)
      in db_run True (on_store
           (if delete_returning (engine (ds_database S))
            then bind (delete_returning_values live) (\<lambda>vs. ret (case vs of [] \<Rightarrow> None | v # _ \<Rightarrow> Some v))
            else bind (select_rows live) (\<lambda>rs.
                 case rs of
                   [] \<Rightarrow> ret None
                 | (_, seen) # _ \<Rightarrow>
                     bind (delete_rows (\<lambda>k r. live k r \<and> sr_value r = sr_value seen)) (\<lambda>n.
                     ret (if n \<noteq> 0 then Some (sr_value seen) else None))))))"

definition db_get_user_sessions :: "'a db_storage \<Rightarrow> int \<Rightarrow> pyval \<Rightarrow> ('a database_store, string list) prog" where
  "db_get_user_sessions S clock user_id =
     bind (db_run False (on_store (select_rows (\<lambda>k r.
             sr_user_id r = Some (py_str user_id) \<and> now_ms clock < sr_expires r \<and> take (length (ds_prefix S)) k = ds_prefix S)))) (\<lambda>rs.
     ret (map (\<lambda>(k, _). drop (length (ds_prefix S)) k) rs))"

text \<open>The part of a glob before its first wildcard.\<close>

definition literal_prefix :: "string \<Rightarrow> string" where
  "literal_prefix pattern = takeWhile (\<lambda>c. c \<notin> set ''*?['') pattern"

definition db_scan_keys :: "'a db_storage \<Rightarrow> int \<Rightarrow> string option \<Rightarrow> ('a database_store, string list) prog" where
  "db_scan_keys S clock match =
     (let pattern = (case match of None \<Rightarrow> ds_prefix S @ ''*'' | Some m \<Rightarrow> if m = [] then ds_prefix S @ ''*'' else m);
          lit = literal_prefix pattern
      in bind (db_run False (on_store (select_rows (\<lambda>k r. now_ms clock < sr_expires r \<and> take (length lit) k = lit)))) (\<lambda>rs.
         ret (filter (fnmatchcase pattern) (map fst rs))))"

definition db_delete_pattern :: "'a db_storage \<Rightarrow> int \<Rightarrow> string \<Rightarrow> ('a database_store, int) prog" where
  "db_delete_pattern S clock pattern =
     (let lit = literal_prefix pattern; starts = (\<lambda>k. take (length lit) k = lit)
      in if lit = pattern then db_run True (on_store (delete_rows (\<lambda>k _. starts k)))
         else
           bind (db_run False (on_store (select_rows (\<lambda>k _. starts k)))) (\<lambda>rs.
           let keys = filter (fnmatchcase (pattern @ ''*'')) (map fst rs)
           in if keys = [] then ret 0 else db_run True (on_store (delete_rows (\<lambda>k _. k \<in> set keys)))))"

text \<open>The class has no per-user index beside the column, so it has nothing to drop from one.\<close>

definition db_storage_of :: "'a db_storage \<Rightarrow> ('a database_store, 'a) session_storage" where
  "db_storage_of S =
     \<lparr>st_prefix = ds_prefix S, st_expiration = ds_expiration S,
      st_create = db_create S, st_get = db_get S, st_update = db_rewrite S, st_delete = db_remove S, st_extend = db_extend S,
      st_exists = db_exists S, st_modify = db_modify S, st_set_if_absent = db_set_if_absent S,
      st_get_and_delete = db_get_and_delete S, st_get_user_sessions = db_get_user_sessions S,
      st_remove_from_user_index = (\<lambda>_ _ _. ret ()), st_scan_keys = db_scan_keys S, st_delete_pattern = db_delete_pattern S\<rparr>"

section \<open>The counters\<close>

record db_limiter =
  dl_database :: database_config
  dl_prefix :: string

definition limiter_key :: "db_limiter \<Rightarrow> string \<Rightarrow> string" where
  "limiter_key L key = stored_key (dl_prefix L @ key)"

definition live_counter :: "db_limiter \<Rightarrow> int \<Rightarrow> string \<Rightarrow> string \<Rightarrow> counter_row \<Rightarrow> bool" where
  "live_counter L clock key k r \<longleftrightarrow> k = limiter_key L key \<and> (case cr_expires r of None \<Rightarrow> True | Some e \<Rightarrow> now_ms clock < e)"

text \<open>
  The three forms of the upsert: in one statement with \<open>RETURNING\<close>; MySQL's, which assigns the
  columns one after the other; and an update followed by an insert when there was no row. The last two read the
  count back.
\<close>

definition read_count :: "string \<Rightarrow> (counter_row, int) statement" where
  "read_count key = bind (select_rows (\<lambda>k _. k = key)) (\<lambda>rs. case rs of [] \<Rightarrow> raise (KeyError key) | (_, r) # _ \<Rightarrow> ret (cr_count r))"

definition insert_or :: "string \<Rightarrow> counter_row \<Rightarrow> (counter_row \<Rightarrow> counter_row) \<Rightarrow> (counter_row, unit) statement" where
  "insert_or key start change t =
     (if key \<in> fst ` set t then (Inr (), map (\<lambda>(k, r). (k, if k = key then change r else r)) t) else (Inr (), t @ [(key, start)]))"

definition upsert_counter :: "db_engine \<Rightarrow> string \<Rightarrow> counter_row \<Rightarrow> (counter_row \<Rightarrow> int) \<Rightarrow> (counter_row \<Rightarrow> int option) \<Rightarrow> (counter_row, int) statement" where
  "upsert_counter E key start new_count new_expiry =
     (let both = (\<lambda>r. r\<lparr>cr_count := new_count r, cr_expires := new_expiry r\<rparr>)
      in if upserts_returning E then bind (insert_or key start both) (\<lambda>_. read_count key)
         else if dialect E \<in> set MYSQL_DIALECTS
         then bind (insert_or key start (\<lambda>r. let r' = r\<lparr>cr_count := new_count r\<rparr> in r'\<lparr>cr_expires := new_expiry r'\<rparr>)) (\<lambda>_. read_count key)
         else bind (update_rows (\<lambda>k _. k = key) both) (\<lambda>n.
              bind (if n = 0 then insert_into key start else ret ()) (\<lambda>_. read_count key)))"

definition upsert :: "db_limiter \<Rightarrow> int \<Rightarrow> string \<Rightarrow> int \<Rightarrow> (bool \<Rightarrow> int option \<Rightarrow> int option) \<Rightarrow> int option \<Rightarrow> ('a database_store, int) prog" where
  "upsert L clock key amount expires_at new_expiry =
     (let gone = expired_counter clock key;
          work = on_counters (upsert_counter (engine (dl_database L)) (limiter_key L key) \<lparr>cr_count = amount, cr_expires = new_expiry\<rparr>
                   (\<lambda>r. if gone r then amount else cr_count r + amount) (\<lambda>r. expires_at (gone r) (cr_expires r)))
      in bind (run_upsert work) (\<lambda>counted. bind (note_write (dl_database L) clock) (\<lambda>_. ret counted)))"

definition counter_deadline :: "int \<Rightarrow> int option \<Rightarrow> int option" where
  "counter_deadline clock exp = map_option (expires_in clock) exp"

definition db_increment :: "db_limiter \<Rightarrow> int \<Rightarrow> string \<Rightarrow> int \<Rightarrow> int option \<Rightarrow> ('a database_store, int) prog" where
  "db_increment L clock key amount exp =
     (let armed_at = counter_deadline clock exp
      in upsert L clock key amount (\<lambda>gone old. if gone then armed_at else if old = None then armed_at else old) armed_at)"

definition db_increment_and_refresh_ttl :: "db_limiter \<Rightarrow> int \<Rightarrow> string \<Rightarrow> int \<Rightarrow> int option \<Rightarrow> ('a database_store, int) prog" where
  "db_increment_and_refresh_ttl L clock key amount exp =
     (let armed_at = counter_deadline clock exp
      in upsert L clock key amount (\<lambda>gone old. if armed_at \<noteq> None then armed_at else if gone then None else old) armed_at)"

definition db_get_count :: "db_limiter \<Rightarrow> int \<Rightarrow> string \<Rightarrow> ('a database_store, int option) prog" where
  "db_get_count L clock key =
     bind (db_run False (on_counters (select_rows (live_counter L clock key)))) (\<lambda>rs.
     ret (case rs of [] \<Rightarrow> None | (_, r) # _ \<Rightarrow> Some (cr_count r)))"

definition db_get_ttl :: "db_limiter \<Rightarrow> int \<Rightarrow> string \<Rightarrow> ('a database_store, int) prog" where
  "db_get_ttl L clock key =
     bind (db_run False (on_counters (select_rows (live_counter L clock key)))) (\<lambda>rs.
     ret (case rs of
            [] \<Rightarrow> 0
          | (_, r) # _ \<Rightarrow> (case cr_expires r of None \<Rightarrow> 0 | Some e \<Rightarrow> max 0 (- ((now_ms clock - e) div 1000)))))"

definition db_delete_counter :: "db_limiter \<Rightarrow> int \<Rightarrow> string \<Rightarrow> ('a database_store, bool) prog" where
  "db_delete_counter L clock key =
     bind (db_run True (on_counters (bind (delete_rows (live_counter L clock key)) (\<lambda>live.
             bind (delete_rows (\<lambda>k _. k = limiter_key L key)) (\<lambda>_. ret live))))) (\<lambda>n.
     ret (n \<noteq> 0))"

definition db_backend :: "db_limiter \<Rightarrow> 'a database_store rate_limiter_backend" where
  "db_backend L = \<lparr>increment = db_increment L, increment_and_refresh_ttl = db_increment_and_refresh_ttl L,
     get_count = db_get_count L, delete_key = db_delete_counter L, get_ttl = db_get_ttl L\<rparr>"

end
