(* ===== verification/DatabaseLaws.thy ===== *)
theory DatabaseLaws
  imports Database SessionLaws
begin

text \<open>
  What the database backends promise. On a database that nobody else uses and that reports no error
  the storage and the limiter keep the contracts of their ports, up to the clock, which
  counts milliseconds. With other workers and errors: no update is lost, a claim has one winner, a transaction
  that is rolled back is run again.
\<close>

section \<open>Statements\<close>

lemma filter_key:
  assumes "distinct (map fst t)"
  shows "filter (\<lambda>(k, r). k = key \<and> Q r) t = (case map_of t key of None \<Rightarrow> [] | Some r \<Rightarrow> if Q r then [(key, r)] else [])"
  using assms
proof (induction t)
  case (Cons p t)
  obtain k r where p: "p = (k, r)" by (cases p)
  have "k = key \<Longrightarrow> map_of t key = None" using Cons.prems p by (auto simp: map_of_eq_None_iff)
  then show ?case using Cons p by (auto split: option.splits)
qed simp

lemma map_of_changed: "map_of (map (\<lambda>(k, r). (k, if P k r then f r else r)) t) j = map_option (\<lambda>r. if P j r then f r else r) (map_of t j)"
  by (induction t) auto

lemma map_of_kept:
  assumes "distinct (map fst t)"
  shows "map_of (filter (\<lambda>(k, r). \<not> P k r) t) j = (case map_of t j of None \<Rightarrow> None | Some r \<Rightarrow> if P j r then None else Some r)"
  using assms
proof (induction t)
  case (Cons p t)
  obtain k r where p: "p = (k, r)" by (cases p)
  have "k = j \<Longrightarrow> map_of t j = None" using Cons.prems p by (auto simp: map_of_eq_None_iff)
  then show ?case using Cons p by (auto split: option.splits)
qed simp

lemma keys_changed [simp]: "map fst (map (\<lambda>(k, r). (k, if P k r then f r else r)) t) = map fst t"
  by (induction t) auto

lemma distinct_kept: "distinct (map fst t) \<Longrightarrow> distinct (map fst (filter P t))"
  by (induction t) auto

lemma matched_key:
  assumes "distinct (map fst t)"
  shows "matched (\<lambda>k r. k = key \<and> Q r) t = (case map_of t key of None \<Rightarrow> 0 | Some r \<Rightarrow> if Q r then 1 else 0)"
  by (simp add: matched_def filter_key [OF assms] split: option.split)

lemmas statement_runs = select_rows_def update_rows_def delete_rows_def insert_into_def on_store_def on_counters_def

section \<open>Transactions\<close>

lemma next_quiet: "upcoming s = [] \<Longrightarrow> next_attempt s = (None, s)"
  by (simp add: next_attempt_def)

lemma db_run_quiet: "upcoming s = [] \<Longrightarrow> db_run write work s = transact write work s"
  by (simp add: db_run_def DATABASE_TRANSACTION_ATTEMPTS_def next_quiet eval_nat_numeral)

text \<open>A transaction of the store table alone that answers.\<close>

lemma store_write:
  assumes "upcoming s = []" and "m (store_table (tables s)) = (Inr x, t)"
  shows "db_run True (on_store m) s = (Inr x, s\<lparr>tables := (tables s)\<lparr>store_table := t\<rparr>\<rparr>)"
  using assms by (simp add: db_run_quiet transact_def on_store_def zoom_run)

lemma store_read:
  assumes "upcoming s = []" and "m (store_table (tables s)) = (Inr x, t)"
  shows "db_run False (on_store m) s = (Inr x, s)"
  using assms by (simp add: db_run_quiet transact_def on_store_def zoom_run)

lemma counter_write:
  assumes "upcoming s = []" and "m (counter_table (tables s)) = (Inr x, t)"
  shows "db_run True (on_counters m) s = (Inr x, s\<lparr>tables := (tables s)\<lparr>counter_table := t\<rparr>\<rparr>)"
  using assms by (simp add: db_run_quiet transact_def on_counters_def zoom_run)

lemma counter_read:
  assumes "upcoming s = []" and "m (counter_table (tables s)) = (Inr x, t)"
  shows "db_run False (on_counters m) s = (Inr x, s)"
  using assms by (simp add: db_run_quiet transact_def on_counters_def zoom_run)

text \<open>What a transaction comes to once the errors that were retried are over.\<close>

definition rolled_back :: "(('a db_tables \<Rightarrow> 'a db_tables) \<times> db_error option) list \<Rightarrow> bool" where
  "rolled_back es \<longleftrightarrow> (\<forall>(g, e) \<in> set es. \<exists>x. e = Some x \<and> retryable x \<and> \<not> is_integrity_error x)"

definition after_others :: "(('a db_tables \<Rightarrow> 'a db_tables) \<times> db_error option) list \<Rightarrow> 'a db_tables \<Rightarrow> 'a db_tables" where
  "after_others es t = foldl (\<lambda>d (g, _). g d) t es"

lemma run_attempts_skip:
  assumes "rolled_back es" and "length es < n" and "upcoming s = es @ rest"
  shows "run_attempts n write work s
    = run_attempts (Suc (n - Suc (length es))) write work (s\<lparr>tables := after_others es (tables s), upcoming := rest\<rparr>)"
  using assms
proof (induction n arbitrary: es s)
  case (Suc n)
  show ?case
  proof (cases es)
    case Nil
    then show ?thesis using Suc.prems by (cases s) (simp add: after_others_def)
  next
    case (Cons e es')
    obtain h x where e: "e = (h, Some x)" "retryable x" "\<not> is_integrity_error x" using Suc.prems(1) Cons by (auto simp: rolled_back_def)
    have "n \<noteq> 0" using Suc.prems(2) Cons by auto
    moreover have "rolled_back es'" using Suc.prems(1) Cons by (simp add: rolled_back_def)
    ultimately show ?thesis
      using Suc.IH [of es' "s\<lparr>tables := h (tables s), upcoming := es' @ rest\<rparr>"] Suc.prems(2,3) Cons e
      by (simp add: next_attempt_def after_others_def del: run_attempts.simps(2))
         (simp add: next_attempt_def)
  qed
qed simp

lemma run_attempts_exhausted:
  assumes "rolled_back es" and "length es = Suc n" and "upcoming s = es @ rest"
  shows "run_attempts (Suc n) write work s
    = (Inl (BackendError ''DBAPIError''), s\<lparr>tables := after_others es (tables s), upcoming := rest\<rparr>)"
  using assms
proof (induction n arbitrary: es s)
  case 0
  then obtain h x where "es = [(h, Some x)]" "\<not> is_integrity_error x" by (auto simp: rolled_back_def length_Suc_conv)
  then show ?case using 0 by (simp add: next_attempt_def after_others_def db_exc_def)
next
  case (Suc n)
  then obtain h x es' where e: "es = (h, Some x) # es'" "retryable x" "\<not> is_integrity_error x" by (auto simp: rolled_back_def length_Suc_conv)
  have "rolled_back es'" "length es' = Suc n" using Suc.prems(1,2) e by (simp_all add: rolled_back_def)
  then show ?case
    using Suc.IH [of es' "s\<lparr>tables := h (tables s), upcoming := es' @ rest\<rparr>"] Suc.prems(3) e
    by (simp add: next_attempt_def after_others_def)
qed

section \<open>Purging\<close>

text \<open>What a purge may do: rows that have expired go.\<close>

definition purged :: "int \<Rightarrow> 'a db_tables \<Rightarrow> 'a db_tables \<Rightarrow> bool" where
  "purged clock d d' \<longleftrightarrow>
     (\<exists>A B. store_table d' = filter (\<lambda>(k, r). \<not> (k \<in> A \<and> expired_values clock k r)) (store_table d)
        \<and> counter_table d' = filter (\<lambda>(k, r). \<not> (k \<in> B \<and> expired_counter clock k r)) (counter_table d))"

lemma filter_more: "filter (\<lambda>(k, r). \<not> (k \<in> B \<and> P k r)) (filter (\<lambda>(k, r). \<not> (k \<in> A \<and> P k r)) t) = filter (\<lambda>(k, r). \<not> (k \<in> A \<union> B \<and> P k r)) t"
  by (induction t) auto

lemma purged_refl: "purged clock d d"
  unfolding purged_def by (intro exI [of _ "{}"] conjI) (simp_all add: case_prod_unfold)

lemma purged_trans:
  assumes "purged clock d d'" and "purged clock d' d''"
  shows "purged clock d d''"
proof -
  obtain A B where "store_table d' = filter (\<lambda>(k, r). \<not> (k \<in> A \<and> expired_values clock k r)) (store_table d)"
    "counter_table d' = filter (\<lambda>(k, r). \<not> (k \<in> B \<and> expired_counter clock k r)) (counter_table d)"
    using assms(1) unfolding purged_def by (elim exE conjE)
  moreover obtain A' B' where "store_table d'' = filter (\<lambda>(k, r). \<not> (k \<in> A' \<and> expired_values clock k r)) (store_table d')"
    "counter_table d'' = filter (\<lambda>(k, r). \<not> (k \<in> B' \<and> expired_counter clock k r)) (counter_table d')"
    using assms(2) unfolding purged_def by (elim exE conjE)
  ultimately show ?thesis unfolding purged_def by (intro exI [of _ "A \<union> A'"] exI [of _ "B \<union> B'"]) (simp only: filter_more)
qed

lemma purge_batches_run:
  assumes "\<And>s. Q s \<Longrightarrow> \<exists>b. sel s = (Inr b, s)" and "\<And>s b. Q s \<Longrightarrow> \<exists>n s'. del b s = (Inr n, s') \<and> Q s' \<and> R s s'"
    and "\<And>s. R s s" and "\<And>s t u. R s t \<Longrightarrow> R t u \<Longrightarrow> R s u" and "Q s"
  shows "\<exists>r s'. purge_batches n sel del lim acc s = (Inr r, s') \<and> Q s' \<and> R s s'"
  using assms(5)
proof (induction n arbitrary: s acc)
  case 0
  then show ?case using assms(3) by (intro exI [of _ "(acc, False)"] exI [of _ s]) (simp add: ret_run)
next
  case (Suc n)
  obtain b where b: "sel s = (Inr b, s)" using assms(1) [OF Suc.prems] by blast
  obtain m s' where d: "del b s = (Inr m, s')" "Q s'" "R s s'" using assms(2) [OF Suc.prems] by blast
  show ?case
  proof (cases "b = [] \<or> int (length b) < lim")
    case True
    then show ?thesis using b d Suc.prems assms(3) by (auto simp: bind_run ret_run)
  next
    case False
    then show ?thesis using Suc.IH [OF d(2), of "acc + m"] b d(1,3) assms(4) by (auto simp: bind_run)
  qed
qed

definition same_state :: "'a database_store \<Rightarrow> 'a database_store \<Rightarrow> bool" where
  "same_state s s' \<longleftrightarrow> s' = s\<lparr>tables := tables s', writes_since_purge := writes_since_purge s'\<rparr>"

lemma same_state_trans: "same_state s t \<Longrightarrow> same_state t u \<Longrightarrow> same_state s u"
  by (cases s; cases t; cases u) (simp add: same_state_def)

lemma some_keys_run: "\<exists>b. some_keys P lim t = (Inr b, t)"
  by (simp add: some_keys_def select_rows_def bind_run ret_run gets_run)

lemma purge_tables_run:
  assumes "upcoming s = []"
  shows "\<exists>r s'. purge_values n clock lim s = (Inr r, s') \<and> upcoming s' = [] \<and> purged clock (tables s) (tables s') \<and> same_state s s'"
    and "\<exists>r s'. purge_counters n clock lim s = (Inr r, s') \<and> upcoming s' = [] \<and> purged clock (tables s) (tables s') \<and> same_state s s'"
proof -
  let ?R = "\<lambda>s s'. purged clock (tables s) (tables s') \<and> same_state s s'" and ?Q = "\<lambda>s. upcoming s = []"
  have R: "?R s s" "?R s t \<Longrightarrow> ?R t u \<Longrightarrow> ?R s u" for s t u :: "'a database_store"
    using purged_refl purged_trans same_state_trans by (auto simp: same_state_def)
  have store: "\<exists>n s'. db_run True (on_store (delete_rows (\<lambda>k r. k \<in> set b \<and> expired_values clock k r))) s = (Inr n, s') \<and> ?Q s' \<and> ?R s s'"
    if "?Q s" for s :: "'a database_store" and b
  proof -
    have c: "filter (\<lambda>(k, r). \<not> (k \<in> {} \<and> expired_counter clock k r)) t = t" for t by (simp add: case_prod_unfold)
    have "purged clock (tables s) ((tables s)\<lparr>store_table := filter (\<lambda>(k, r). \<not> (k \<in> set b \<and> expired_values clock k r)) (store_table (tables s))\<rparr>)"
      unfolding purged_def by (intro exI [of _ "set b"] exI [of _ "{}"]) (simp only: db_tables.simps c, simp)
    then show ?thesis using store_write [OF that delete_rows_def] that by (simp add: same_state_def)
  qed
  have counter: "\<exists>n s'. db_run True (on_counters (delete_rows (\<lambda>k r. k \<in> set b \<and> expired_counter clock k r))) s = (Inr n, s') \<and> ?Q s' \<and> ?R s s'"
    if "?Q s" for s :: "'a database_store" and b
  proof -
    have c: "filter (\<lambda>(k, r). \<not> (k \<in> {} \<and> expired_values clock k r)) t = t" for t :: "(string \<times> 'a store_row) list" by (simp add: case_prod_unfold)
    have "purged clock (tables s) ((tables s)\<lparr>counter_table := filter (\<lambda>(k, r). \<not> (k \<in> set b \<and> expired_counter clock k r)) (counter_table (tables s))\<rparr>)"
      unfolding purged_def by (intro exI [of _ "set b"] exI [of _ "{}"]) (simp only: db_tables.simps c, simp)
    then show ?thesis using counter_write [OF that delete_rows_def] that by (simp add: same_state_def)
  qed
  have sel: "\<exists>b. db_run False (on_store (some_keys (expired_values clock) lim)) s = (Inr b, s)"
    "\<exists>b. db_run False (on_counters (some_keys (expired_counter clock) lim)) s = (Inr b, s)" if "?Q s" for s :: "'a database_store"
    using store_read [OF that, of "some_keys (expired_values clock) lim"] counter_read [OF that, of "some_keys (expired_counter clock) lim"]
      some_keys_run by blast+
  show "\<exists>r s'. purge_values n clock lim s = (Inr r, s') \<and> upcoming s' = [] \<and> purged clock (tables s) (tables s') \<and> same_state s s'"
    unfolding purge_values_def by (rule purge_batches_run [where Q = ?Q and R = ?R, OF sel(1) store R]) (use assms in simp_all)
  show "\<exists>r s'. purge_counters n clock lim s = (Inr r, s') \<and> upcoming s' = [] \<and> purged clock (tables s) (tables s') \<and> same_state s s'"
    unfolding purge_counters_def by (rule purge_batches_run [where Q = ?Q and R = ?R, OF sel(2) counter R]) (use assms in simp_all)
qed

lemma note_write_run:
  assumes "upcoming s = []"
  shows "\<exists>s'. note_write D clock s = (Inr (), s') \<and> upcoming s' = [] \<and> purged clock (tables s) (tables s')"
proof -
  let ?s = "s\<lparr>writes_since_purge := 0\<rparr>" and ?n = "nat (- ((- purge_every D) div purge_batch_size D))"
  obtain r s1 where s1: "purge_values ?n clock (purge_batch_size D) ?s = (Inr r, s1)" "upcoming s1 = []" "purged clock (tables s) (tables s1)"
    using purge_tables_run(1) [of ?s ?n clock "purge_batch_size D"] assms by auto
  obtain r' s2 where s2: "purge_counters ?n clock (purge_batch_size D) s1 = (Inr r', s2)" "upcoming s2 = []" "purged clock (tables s1) (tables s2)"
    using purge_tables_run(2) [OF s1(2), of ?n clock "purge_batch_size D"] by auto
  show ?thesis
  proof (cases "purge_every D = 0 \<or> writes_since_purge s + 1 < purge_every D")
    case True
    then show ?thesis using assms by (auto simp: note_write_def bind_run modifies_run gets_run ret_run purged_refl)
  next
    case False
    then show ?thesis using s1 s2 purged_trans [OF s1(3) s2(3)]
      by (simp add: note_write_def bind_run modifies_run gets_run ret_run catch_run Let_def)
  qed
qed

section \<open>The live values of a storage\<close>

definition fits :: "'a db_storage \<Rightarrow> string \<Rightarrow> bool" where
  "fits S sid \<longleftrightarrow> length (ds_prefix S) + length sid < DATABASE_KEY_MAX_LENGTH"

definition row_view :: "int \<Rightarrow> 'a store_row option \<Rightarrow> ('a \<times> int) option" where
  "row_view clock x = (case x of None \<Rightarrow> None | Some r \<Rightarrow> if now_ms clock < sr_expires r then Some (sr_value r, sr_expires r * 1000 - 1) else None)"

definition row_of :: "'a db_storage \<Rightarrow> 'a database_store \<Rightarrow> string \<Rightarrow> 'a store_row option" where
  "row_of S s sid = map_of (store_table (tables s)) (db_key S sid)"

definition db_view :: "'a db_storage \<Rightarrow> int \<Rightarrow> 'a database_store \<Rightarrow> 'a entries" where
  "db_view S clock s = (\<lambda>sid. if fits S sid then row_view clock (row_of S s sid) else None)"

definition prefix_ok :: "'a db_storage \<Rightarrow> bool" where
  "prefix_ok S \<longleftrightarrow> length (ds_prefix S) \<le> 190 \<and> set (ds_prefix S) \<inter> set ''*?['' = {}"

definition row_ok :: "'a db_storage \<Rightarrow> string \<Rightarrow> 'a store_row \<Rightarrow> bool" where
  "row_ok S k r \<longleftrightarrow> (take (length (ds_prefix S)) k = ds_prefix S \<longrightarrow> length k < DATABASE_KEY_MAX_LENGTH \<and> sr_user_id r = user_column S (sr_value r))"

definition db_ok :: "'a db_storage \<Rightarrow> 'a database_store \<Rightarrow> bool" where
  "db_ok S s \<longleftrightarrow> prefix_ok S \<and> upcoming s = [] \<and> distinct (map fst (store_table (tables s)))
     \<and> (\<forall>k r. map_of (store_table (tables s)) k = Some r \<longrightarrow> row_ok S k r)"

lemma db_ok_facts:
  assumes "db_ok S s"
  shows "prefix_ok S" "upcoming s = []" "distinct (map fst (store_table (tables s)))" "row_of S s sid = Some r \<Longrightarrow> row_ok S (db_key S sid) r"
  using assms by (simp_all add: db_ok_def row_of_def)

lemma key_of_fitting: "fits S sid \<Longrightarrow> db_key S sid = ds_prefix S @ sid"
  by (simp add: db_key_def stored_key_def get_key_def fits_def DATABASE_KEY_MAX_LENGTH_def)

lemma key_prefix: "prefix_ok S \<Longrightarrow> take (length (ds_prefix S)) (db_key S sid) = ds_prefix S"
  by (auto simp: db_key_def stored_key_def get_key_def prefix_ok_def DATABASE_KEY_MAX_LENGTH_def DATABASE_KEY_DIGEST_SEPARATOR_def Let_def min_def)

lemma key_of_long: "\<not> fits S sid \<Longrightarrow> length (db_key S sid) = DATABASE_KEY_MAX_LENGTH"
  by (auto simp: db_key_def stored_key_def get_key_def fits_def DATABASE_KEY_MAX_LENGTH_def DATABASE_KEY_DIGEST_SEPARATOR_def Let_def min_def)

lemma key_inj: "fits S sid \<Longrightarrow> db_key S j = db_key S sid \<Longrightarrow> j = sid"
  using key_of_long [of S j] key_of_fitting [of S j] key_of_fitting [of S sid] by (cases "fits S j") (auto simp: fits_def)

lemma view_row:
  assumes "db_ok S s"
  shows "db_view S clock s sid = row_view clock (row_of S s sid)"
proof (cases "fits S sid \<or> row_of S s sid = None")
  case False
  then obtain r where "row_of S s sid = Some r" "\<not> fits S sid" by auto
  then show ?thesis
    using db_ok_facts(4) [OF assms, of sid r] key_of_long [of S sid] key_prefix [OF db_ok_facts(1) [OF assms], of sid] by (simp add: row_ok_def)
qed (auto simp: db_view_def row_view_def)

text \<open>One row written, or removed.\<close>

lemma row_put:
  assumes "db_ok S s" and "upcoming s' = []" and "distinct (map fst (store_table (tables s')))"
    and "\<forall>k. k \<noteq> db_key S sid \<longrightarrow> map_of (store_table (tables s')) k = map_of (store_table (tables s)) k"
    and "x = map_of (store_table (tables s')) (db_key S sid)" and "\<forall>r. x = Some r \<longrightarrow> fits S sid \<and> sr_user_id r = user_column S (sr_value r)"
  shows "db_ok S s'" and "db_view S clock s' = (db_view S clock s)(sid := row_view clock x)"
proof -
  have "row_ok S k r" if k: "map_of (store_table (tables s')) k = Some r" for k r
  proof (cases "k = db_key S sid")
    case True
    then show ?thesis using assms(5,6) k key_of_fitting [of S sid] by (auto simp: row_ok_def fits_def)
  next
    case False
    then show ?thesis using assms(1,4) k by (simp add: db_ok_def)
  qed
  then show ok: "db_ok S s'" using assms(1-3) by (simp add: db_ok_def)
  show "db_view S clock s' = (db_view S clock s)(sid := row_view clock x)"
  proof
    fix j
    show "db_view S clock s' j = ((db_view S clock s)(sid := row_view clock x)) j"
    proof (cases "db_key S j = db_key S sid")
      case True
      then have "j = sid \<or> \<not> fits S sid" using key_inj by blast
      then show ?thesis
      proof
        assume "j = sid"
        then show ?thesis using view_row [OF ok] assms(5) by (simp add: row_of_def)
      next
        assume n: "\<not> fits S sid"
        then have "\<not> fits S j" using True key_inj by metis
        then show ?thesis using n assms(6) by (cases x) (auto simp: db_view_def row_view_def)
      qed
    next
      case False
      then show ?thesis using assms(4) by (auto simp: db_view_def row_of_def)
    qed
  qed
qed

lemma purged_view:
  assumes "db_ok S s" and "purged clock (tables s) (tables s')" and "upcoming s' = []"
  shows "db_ok S s'" and "db_view S clock s' = db_view S clock s"
proof -
  obtain A where A: "store_table (tables s') = filter (\<lambda>(k, r). \<not> (k \<in> A \<and> expired_values clock k r)) (store_table (tables s))"
    using assms(2) by (auto simp: purged_def)
  have m: "map_of (store_table (tables s')) k = (case map_of (store_table (tables s)) k of None \<Rightarrow> None
      | Some r \<Rightarrow> if k \<in> A \<and> expired_values clock k r then None else Some r)" for k
    unfolding A using map_of_kept [OF db_ok_facts(3) [OF assms(1)], of "\<lambda>k r. k \<in> A \<and> expired_values clock k r"] by simp
  show "db_ok S s'" using assms(1,3) m distinct_kept [of "store_table (tables s)"] A by (auto simp: db_ok_def split: option.splits if_splits)
  have "row_view clock (row_of S s' sid) = row_view clock (row_of S s sid)" for sid
    by (auto simp: row_of_def m row_view_def expired_values_def split: option.splits)
  then show "db_view S clock s' = db_view S clock s" by (simp add: db_view_def fun_eq_iff)
qed

section \<open>The operations of the storage\<close>

definition set_store :: "(string \<times> 'a store_row) list \<Rightarrow> 'a database_store \<Rightarrow> 'a database_store" where
  "set_store t s = s\<lparr>tables := (tables s)\<lparr>store_table := t\<rparr>\<rparr>"

lemma set_store_sel [simp]: "upcoming (set_store t s) = upcoming s" "store_table (tables (set_store t s)) = t"
  "counter_table (tables (set_store t s)) = counter_table (tables s)"
  by (simp_all add: set_store_def)

lemmas store_runs = store_write [folded set_store_def] store_read

lemma live_row_eq: "live_row clock key = (\<lambda>k r. k = key \<and> now_ms clock < sr_expires r)"
  by (simp add: live_row_def fun_eq_iff)

lemma live_select:
  assumes "db_ok S s"
  shows "db_run False (on_store (select_rows (live_row clock (db_key S sid)))) s
    = (Inr (case row_of S s sid of None \<Rightarrow> [] | Some r \<Rightarrow> if now_ms clock < sr_expires r then [(db_key S sid, r)] else []), s)"
  by (rule store_runs(2) [OF db_ok_facts(2) [OF assms]])
     (simp add: select_rows_def gets_run live_row_def filter_key [OF db_ok_facts(3) [OF assms]] row_of_def)

lemma live_update:
  assumes "db_ok S s" and "\<And>r. sr_user_id r = user_column S (sr_value r) \<Longrightarrow> sr_user_id (g r) = user_column S (sr_value (g r))"
    and "out = db_run True (on_store (update_rows (live_row clock (db_key S sid)) g)) s"
  shows "fst out = Inr (if db_view S clock s sid = None then 0 else 1)"
    and "db_ok S (snd out)"
    and "db_view S clock (snd out) = (db_view S clock s)(sid :=
      (case row_of S s sid of None \<Rightarrow> None | Some r \<Rightarrow> if now_ms clock < sr_expires r then row_view clock (Some (g r)) else None))"
proof -
  let ?t = "store_table (tables s)" and ?key = "db_key S sid"
  let ?t' = "map (\<lambda>(k, r). (k, if live_row clock ?key k r then g r else r)) ?t"
  have out: "out = (Inr (matched (live_row clock ?key) ?t), set_store ?t' s)"
    unfolding assms(3) by (rule store_runs(1) [OF db_ok_facts(2) [OF assms(1)]]) (simp add: update_rows_def)
  have "matched (live_row clock ?key) ?t = (case row_of S s sid of None \<Rightarrow> 0 | Some r \<Rightarrow> if now_ms clock < sr_expires r then 1 else 0)"
    using matched_key [OF db_ok_facts(3) [OF assms(1)], of ?key "\<lambda>r. now_ms clock < sr_expires r"] by (simp add: live_row_eq row_of_def)
  then show "fst out = Inr (if db_view S clock s sid = None then 0 else 1)"
    by (simp add: out view_row [OF assms(1)] row_view_def split: option.split)
  have m: "map_of ?t' k = map_option (\<lambda>r. if live_row clock ?key k r then g r else r) (map_of ?t k)" for k by (rule map_of_changed)
  have new: "fits S sid \<and> sr_user_id r = user_column S (sr_value r)" if here: "map_of ?t' ?key = Some r" for r
  proof -
    obtain r0 where r0: "map_of ?t ?key = Some r0" "r = (if live_row clock ?key ?key r0 then g r0 else r0)"
      using here unfolding m by blast
    then have "row_ok S ?key r0" using db_ok_facts(4) [OF assms(1), of sid r0] by (simp add: row_of_def)
    then have "length ?key < DATABASE_KEY_MAX_LENGTH" "sr_user_id r0 = user_column S (sr_value r0)"
      using key_prefix [OF db_ok_facts(1) [OF assms(1)]] by (simp_all add: row_ok_def)
    then show ?thesis using key_of_long [of S sid] r0(2) assms(2) by auto
  qed
  have t: "upcoming (snd out) = []" "distinct (map fst (store_table (tables (snd out))))"
    using db_ok_facts(2,3) [OF assms(1)] by (simp_all add: out del: map_map)
  have other: "\<forall>k. k \<noteq> ?key \<longrightarrow> map_of (store_table (tables (snd out))) k = map_of ?t k"
  proof (intro allI impI)
    fix k assume "k \<noteq> ?key"
    then show "map_of (store_table (tables (snd out))) k = map_of ?t k"
      unfolding out snd_conv set_store_sel m by (cases "map_of ?t k") (simp_all add: live_row_def)
  qed
  have this_key: "map_of ?t' ?key = map_of (store_table (tables (snd out))) ?key" by (simp add: out)
  have "\<forall>r. map_of ?t' ?key = Some r \<longrightarrow> fits S sid \<and> sr_user_id r = user_column S (sr_value r)" using new by blast
  note put = row_put [OF assms(1) t other this_key this]
  show "db_ok S (snd out)" by (rule put(1))
  show "db_view S clock (snd out) = (db_view S clock s)(sid :=
      (case row_of S s sid of None \<Rightarrow> None | Some r \<Rightarrow> if now_ms clock < sr_expires r then row_view clock (Some (g r)) else None))"
    unfolding put(2) [of clock] m by (auto simp: row_of_def live_row_def row_view_def fun_eq_iff split: option.split)
qed

lemma create_write:
  assumes "distinct (map fst t)"
  shows "\<exists>t' r. bind (update_rows (\<lambda>k _. k = key) f) (\<lambda>n. if n = 0 then insert_into key r0 else ret ()) t = (Inr (), t')
    \<and> distinct (map fst t') \<and> (\<forall>k. k \<noteq> key \<longrightarrow> map_of t' k = map_of t k) \<and> map_of t' key = Some r \<and> (r = r0 \<or> (\<exists>r1. r = f r1))"
proof (cases "map_of t key")
  case None
  then have k: "key \<notin> fst ` set t" by (simp add: map_of_eq_None_iff)
  then have "map (\<lambda>(k, r). (k, if k = key then f r else r)) t = t" by (intro map_idI) force
  moreover have "matched (\<lambda>k _. k = key) t = 0" using matched_key [OF assms, of key "\<lambda>_. True"] None by simp
  ultimately have "bind (update_rows (\<lambda>k _. k = key) f) (\<lambda>n. if n = 0 then insert_into key r0 else ret ()) t = (Inr (), t @ [(key, r0)])"
    using k by (simp add: bind_run update_rows_def insert_into_def)
  then show ?thesis using assms k None by (intro exI [of _ "t @ [(key, r0)]"] exI [of _ r0]) (auto simp: map_add_def split: option.split)
next
  case (Some r1)
  let ?t' = "map (\<lambda>(k, r). (k, if k = key then f r else r)) t"
  have "matched (\<lambda>k _. k = key) t = 1" using matched_key [OF assms, of key "\<lambda>_. True"] Some by simp
  then have "bind (update_rows (\<lambda>k _. k = key) f) (\<lambda>n. if n = 0 then insert_into key r0 else ret ()) t = (Inr (), ?t')"
    by (simp add: bind_run update_rows_def ret_run)
  moreover have "map_of ?t' k = (if k = key then map_option f (map_of t k) else map_of t k)" for k
    using map_of_changed [of "\<lambda>k _. k = key" f t k] by (simp add: option.map_ident)
  ultimately show ?thesis using assms Some by (intro exI [of _ ?t'] exI [of _ "f r1"]) (auto simp del: map_map)
qed

lemma upsert_quiet:
  assumes "upcoming s = []" and "work (store_table (tables s)) = (Inr x, t)"
  shows "run_upsert (on_store work) s = (Inr x, set_store t s)"
  using store_runs(1) [where m = work, OF assms] by (simp add: run_upsert_def catch_run)

lemma db_create_run:
  assumes "db_ok S s" and "sid \<noteq> []" and "fits S sid" and "out = db_create S clock v sid e s"
  shows "fst out = Inr sid" and "db_ok S (snd out)"
    and "db_view S clock (snd out) = (db_view S clock s)(sid := (if now_ms clock < row_expiry S clock e then Some (v, row_expiry S clock e * 1000 - 1) else None))"
proof -
  let ?key = "db_key S sid" and ?E = "row_expiry S clock e"
  let ?f = "\<lambda>r. r\<lparr>sr_value := v, sr_user_id := user_column S v, sr_version := sr_version r + 1, sr_expires := ?E\<rparr>"
  let ?r0 = "\<lparr>sr_value = v, sr_user_id = user_column S v, sr_version = 1, sr_expires = ?E\<rparr>"
  obtain t' r where t': "bind (update_rows (\<lambda>k _. k = ?key) ?f) (\<lambda>n. if n = 0 then insert_into ?key ?r0 else ret ()) (store_table (tables s)) = (Inr (), t')"
    "distinct (map fst t')" "\<forall>k. k \<noteq> ?key \<longrightarrow> map_of t' k = map_of (store_table (tables s)) k" "map_of t' ?key = Some r"
    and r: "r = ?r0 \<or> (\<exists>r1. r = ?f r1)"
    using create_write [OF db_ok_facts(3) [OF assms(1)], of ?key ?f ?r0] by blast
  have row: "sr_value r = v" "sr_user_id r = user_column S v" "sr_expires r = ?E" using r by auto
  let ?s = "set_store t' s"
  have u: "upcoming ?s = []" using db_ok_facts(2) [OF assms(1)] by simp
  obtain s' where n: "note_write (ds_database S) clock ?s = (Inr (), s')" "upcoming s' = []" "purged clock (tables ?s) (tables s')"
    using note_write_run [OF u] by blast
  have out: "out = (Inr sid, s')"
    using upsert_quiet [where work = "bind (update_rows (\<lambda>k _. k = ?key) ?f) (\<lambda>n. if n = 0 then insert_into ?key ?r0 else ret ())", OF db_ok_facts(2) [OF assms(1)] t'(1)]
      n(1) assms(2) by (simp add: assms(4) db_create_def Let_def bind_run ret_run)
  have "db_ok S ?s" "db_view S clock ?s = (db_view S clock s)(sid := row_view clock (Some r))"
    using row_put [OF assms(1) u, of sid "Some r"] t'(2-4) row(1,2) assms(3) by simp_all
  then show "fst out = Inr sid" "db_ok S (snd out)"
    "db_view S clock (snd out) = (db_view S clock s)(sid := (if now_ms clock < ?E then Some (v, ?E * 1000 - 1) else None))"
    using purged_view [OF _ n(3,2)] row(1,3) by (simp_all add: out row_view_def)
qed

lemma db_get_run:
  assumes "db_ok S s"
  shows "db_get S clock sid s = (Inr (val_of (db_view S clock s) sid), s)"
  by (simp add: db_get_def bind_run ret_run live_select [OF assms] val_of_def view_row [OF assms] row_view_def split: option.split)

lemma db_exists_run:
  assumes "db_ok S s"
  shows "db_exists S clock sid s = (Inr (db_view S clock s sid \<noteq> None), s)"
  by (simp add: db_exists_def bind_run ret_run live_select [OF assms] view_row [OF assms] row_view_def split: option.split)

lemma expiry_after: "1 \<le> ttl_or (ds_expiration S) e \<Longrightarrow> now_ms clock < row_expiry S clock e"
  by (simp add: row_expiry_def expires_in_def)

lemma db_rewrite_run:
  assumes "db_ok S s" and "out = db_rewrite S clock sid v r e s"
  shows "fst out = Inr (db_view S clock s sid \<noteq> None)" and "db_ok S (snd out)"
    and "1 \<le> ttl_or (ds_expiration S) e \<Longrightarrow> db_view S clock (snd out)
      = rewrite_entry sid v (if r then Some (row_expiry S clock e * 1000 - 1) else None) (db_view S clock s)"
proof -
  let ?g = "\<lambda>x. x\<lparr>sr_value := v, sr_user_id := user_column S v, sr_version := sr_version x + 1,
      sr_expires := (if r then row_expiry S clock e else sr_expires x)\<rparr>"
  obtain x t where run: "db_run True (on_store (update_rows (live_row clock (db_key S sid)) ?g)) s = (x, t)" by (meson surj_pair)
  note up = live_update [OF assms(1) _ run [symmetric], simplified]
  have answer: "out = (map_sum id (\<lambda>n. n \<noteq> 0) x, t)"
    using run up(1) by (simp add: assms(2) db_rewrite_def bind_run ret_run)
  then show "fst out = Inr (db_view S clock s sid \<noteq> None)" "db_ok S (snd out)" using up(1,2) by simp_all
  show "db_view S clock (snd out) = rewrite_entry sid v (if r then Some (row_expiry S clock e * 1000 - 1) else None) (db_view S clock s)"
    if "1 \<le> ttl_or (ds_expiration S) e"
    using answer up(3) expiry_after [OF that, of clock] view_row [OF assms(1), of clock sid]
    by (auto simp: rewrite_entry_def row_view_def fun_upd_idem_iff split: option.splits)
qed

lemma db_extend_run:
  assumes "db_ok S s" and "out = db_extend S clock sid e s"
  shows "fst out = Inr (db_view S clock s sid \<noteq> None)" and "db_ok S (snd out)"
    and "1 \<le> ttl_or (ds_expiration S) e \<Longrightarrow> db_view S clock (snd out)
      = (case db_view S clock s sid of None \<Rightarrow> db_view S clock s
         | Some (v, _) \<Rightarrow> (db_view S clock s)(sid \<mapsto> (v, row_expiry S clock e * 1000 - 1)))"
proof -
  let ?g = "\<lambda>x. x\<lparr>sr_expires := row_expiry S clock e\<rparr>"
  obtain x t where run: "db_run True (on_store (update_rows (live_row clock (db_key S sid)) ?g)) s = (x, t)" by (meson surj_pair)
  note up = live_update [OF assms(1) _ run [symmetric], simplified]
  have answer: "out = (map_sum id (\<lambda>n. n \<noteq> 0) x, t)"
    using run up(1) by (simp add: assms(2) db_extend_def bind_run ret_run)
  then show "fst out = Inr (db_view S clock s sid \<noteq> None)" "db_ok S (snd out)" using up(1,2) by simp_all
  show "db_view S clock (snd out) = (case db_view S clock s sid of None \<Rightarrow> db_view S clock s
         | Some (v, _) \<Rightarrow> (db_view S clock s)(sid \<mapsto> (v, row_expiry S clock e * 1000 - 1)))"
    if "1 \<le> ttl_or (ds_expiration S) e"
    using answer up(3) expiry_after [OF that, of clock] view_row [OF assms(1), of clock sid]
    by (auto simp: row_view_def fun_upd_idem_iff split: option.splits)
qed


lemma update_rows_cong:
  assumes "\<forall>(k, r) \<in> set t. P k r = Q k r \<and> (Q k r \<longrightarrow> f r = g r)"
  shows "update_rows P f t = update_rows Q g t"
proof -
  have "filter (\<lambda>(k, r). P k r) t = filter (\<lambda>(k, r). Q k r) t" using assms by (intro filter_cong) auto
  moreover have "map (\<lambda>(k, r). (k, if P k r then f r else r)) t = map (\<lambda>(k, r). (k, if Q k r then g r else r)) t"
    using assms by (intro map_cong) auto
  ultimately show ?thesis by (simp add: update_rows_def matched_def)
qed

lemma guarded_update_run:
  assumes "db_ok S s" and "row_of S s sid = Some seen"
  shows "db_run True (guarded_update S clock (db_key S sid) seen v r e) s
    = db_run True (on_store (update_rows (live_row clock (db_key S sid)) (\<lambda>x. x\<lparr>sr_value := v, sr_user_id := user_column S v,
        sr_version := sr_version x + 1, sr_expires := (if r then row_expiry S clock e else sr_expires x)\<rparr>))) s"
proof -
  have "x = seen" if "(db_key S sid, x) \<in> set (store_table (tables s))" for x
    using that assms(2) db_ok_facts(3) [OF assms(1)] by (simp add: row_of_def map_of_is_SomeI)
  then have "update_rows (\<lambda>k x. live_row clock (db_key S sid) k x \<and> sr_version x = sr_version seen)
      (\<lambda>x. x\<lparr>sr_value := v, sr_user_id := user_column S v, sr_version := sr_version seen + 1,
         sr_expires := (if r then row_expiry S clock e else sr_expires x)\<rparr>) (store_table (tables s))
    = update_rows (live_row clock (db_key S sid)) (\<lambda>x. x\<lparr>sr_value := v, sr_user_id := user_column S v,
        sr_version := sr_version x + 1, sr_expires := (if r then row_expiry S clock e else sr_expires x)\<rparr>) (store_table (tables s))"
    by (intro update_rows_cong) (auto simp: live_row_def)
  then show ?thesis
    using db_ok_facts(2) [OF assms(1)] by (simp add: db_run_quiet transact_def guarded_update_def on_store_def zoom_run)
qed

text \<open>Nobody else writes, so the first attempt of a modify is the update of what it read.\<close>

lemma db_modify_run:
  assumes "db_ok S s"
  shows "db_modify S clock sid ch r e s = (case db_view S clock s sid of None \<Rightarrow> (Inr None, s)
    | Some (v, _) \<Rightarrow> (Inr (Some (ch v)), snd (db_rewrite S clock sid (fst (ch v)) r e s)))"
proof (cases "db_view S clock s sid")
  case None
  obtain n where DB: "DATABASE_MODIFY_MAX_ATTEMPTS = Suc n"
    using that [of 49] by (simp add: DATABASE_MODIFY_MAX_ATTEMPTS_def)
  show ?thesis
    using None view_row [OF assms, of clock sid]
    by (auto simp: db_modify_def DB bind_run ret_run live_select [OF assms] row_view_def
        split: option.splits if_splits)
next
  case (Some p)
  then obtain seen where seen: "row_of S s sid = Some seen" "now_ms clock < sr_expires seen" "fst p = sr_value seen"
    using view_row [OF assms, of clock sid] by (auto simp: row_view_def split: option.splits if_splits)
  have one: "fst (db_rewrite S clock sid (fst (ch (sr_value seen))) r e s) = Inr True"
    using db_rewrite_run(1) [OF assms refl] Some by simp
  obtain n where DB: "DATABASE_MODIFY_MAX_ATTEMPTS = Suc n"
    using that [of 49] by (simp add: DATABASE_MODIFY_MAX_ATTEMPTS_def)
  show ?thesis
    using one Some seen
    by (auto simp: db_modify_def DB bind_run ret_run live_select [OF assms] guarded_update_run [OF assms seen(1)] db_rewrite_def
        split: sum.splits prod.splits)
qed

lemma row_fits:
  assumes "db_ok S s" and "row_of S s sid = Some r"
  shows "fits S sid \<and> sr_user_id r = user_column S (sr_value r)"
  using db_ok_facts(4) [OF assms] key_prefix [OF db_ok_facts(1) [OF assms(1)], of sid] key_of_long [of S sid]
  by (auto simp: row_ok_def)

text \<open>A delete of the row of one id, if it is in a given state.\<close>

lemma row_dropped:
  assumes "db_ok S s" and "P = (\<lambda>k r. k = db_key S sid \<and> Q r)" and "t = filter (\<lambda>(k, r). \<not> P k r) (store_table (tables s))"
  shows "db_ok S (set_store t s)"
    and "db_view S clock (set_store t s) = (db_view S clock s)(sid := row_view clock (case row_of S s sid of None \<Rightarrow> None | Some r \<Rightarrow> if Q r then None else Some r))"
    and "map_of t k = (case map_of (store_table (tables s)) k of None \<Rightarrow> None | Some r \<Rightarrow> if k = db_key S sid \<and> Q r then None else Some r)"
proof -
  let ?t = "store_table (tables s)" and ?s = "set_store t s"
  have m: "map_of t k = (case map_of ?t k of None \<Rightarrow> None | Some r \<Rightarrow> if k = db_key S sid \<and> Q r then None else Some r)" for k
    unfolding assms(2,3) by (rule map_of_kept [OF db_ok_facts(3) [OF assms(1)]])
  have u: "upcoming ?s = []" and d: "distinct (map fst (store_table (tables ?s)))"
    using db_ok_facts(2,3) [OF assms(1)] distinct_kept by (auto simp: assms(3))
  have other: "\<forall>k. k \<noteq> db_key S sid \<longrightarrow> map_of (store_table (tables ?s)) k = map_of ?t k" by (simp add: m split: option.split)
  have this_key: "map_of t (db_key S sid) = map_of (store_table (tables ?s)) (db_key S sid)" by simp
  have new: "\<forall>r. map_of t (db_key S sid) = Some r \<longrightarrow> fits S sid \<and> sr_user_id r = user_column S (sr_value r)"
    using row_fits [OF assms(1), of sid] by (auto simp: m row_of_def split: option.splits if_splits)
  note put = row_put [OF assms(1) u d other this_key new]
  show "db_ok S ?s" by (rule put(1))
  show "db_view S clock ?s = (db_view S clock s)(sid := row_view clock (case row_of S s sid of None \<Rightarrow> None | Some r \<Rightarrow> if Q r then None else Some r))"
    using put(2) [of clock] m [of "db_key S sid"] by (simp add: row_of_def cong: option.case_cong)
  show "map_of t k = (case map_of ?t k of None \<Rightarrow> None | Some r \<Rightarrow> if k = db_key S sid \<and> Q r then None else Some r)" by (rule m)
qed

lemma matched_live:
  assumes "db_ok S s"
  shows "matched (live_row clock (db_key S sid)) (store_table (tables s)) = (if db_view S clock s sid = None then 0 else 1)"
  using matched_key [OF db_ok_facts(3) [OF assms], of "db_key S sid" "\<lambda>r. now_ms clock < sr_expires r"] view_row [OF assms, of clock sid]
  by (simp add: live_row_eq row_of_def row_view_def split: option.split)

lemma filter_twice:
  assumes "\<And>k r. P k r \<Longrightarrow> Q k r"
  shows "filter (\<lambda>(k, r). \<not> Q k r) (filter (\<lambda>(k, r). \<not> P k r) t) = filter (\<lambda>(k, r). \<not> Q k r) t"
  using assms by (induction t) auto

lemma db_remove_run:
  assumes "db_ok S s" and "out = db_remove S clock sid u s"
  shows "fst out = Inr (db_view S clock s sid \<noteq> None)" and "db_ok S (snd out)"
    and "db_view S clock (snd out) = (db_view S clock s)(sid := None)"
proof -
  let ?t = "store_table (tables s)" and ?key = "db_key S sid"
  let ?t' = "filter (\<lambda>(k, r). \<not> k = ?key) ?t"
  have f: "filter (\<lambda>(k, r). \<not> k = ?key) (filter (\<lambda>(k, r). \<not> live_row clock ?key k r) ?t) = ?t'"
    by (rule filter_twice) (simp add: live_row_def)
  have "db_run True (on_store (bind (delete_rows (live_row clock ?key)) (\<lambda>live. bind (delete_rows (\<lambda>k _. k = ?key)) (\<lambda>_. ret live)))) s
      = (Inr (matched (live_row clock ?key) ?t), set_store ?t' s)"
    by (rule store_runs(1) [OF db_ok_facts(2) [OF assms(1)]]) (simp add: bind_run delete_rows_def ret_run f del: filter_filter)
  then have out: "out = (Inr (db_view S clock s sid \<noteq> None), set_store ?t' s)"
    by (simp add: assms(2) db_remove_def bind_run ret_run matched_live [OF assms(1)])
  then show "fst out = Inr (db_view S clock s sid \<noteq> None)" by simp
  have e: "(\<lambda>k r. k = ?key) = (\<lambda>k r. k = ?key \<and> True)" by simp
  note drop = row_dropped [OF assms(1) e refl]
  show "db_ok S (snd out)" "db_view S clock (snd out) = (db_view S clock s)(sid := None)"
    using drop(1) drop(2) [of clock] by (auto simp: out row_view_def split: option.splits)
qed

lemma live_filter:
  assumes "db_ok S s"
  shows "filter (\<lambda>(k, r). live_row clock (db_key S sid) k r) (store_table (tables s))
      = (case row_of S s sid of None \<Rightarrow> [] | Some r \<Rightarrow> if now_ms clock < sr_expires r then [(db_key S sid, r)] else [])"
  by (simp add: live_row_def filter_key [OF db_ok_facts(3) [OF assms]] row_of_def)

lemma delete_rows_cong:
  assumes "\<forall>(k, r) \<in> set t. P k r = Q k r"
  shows "delete_rows P t = delete_rows Q t"
proof -
  have "filter (\<lambda>(k, r). P k r) t = filter (\<lambda>(k, r). Q k r) t" using assms by (intro filter_cong) auto
  moreover have "filter (\<lambda>(k, r). \<not> P k r) t = filter (\<lambda>(k, r). \<not> Q k r) t" using assms by (intro filter_cong) auto
  ultimately show ?thesis by (simp add: delete_rows_def matched_def)
qed

lemma db_take_exact:
  assumes "db_ok S s"
  shows "db_get_and_delete S clock sid s = (Inr (val_of (db_view S clock s) sid),
    set_store (filter (\<lambda>(k, r). \<not> live_row clock (db_key S sid) k r) (store_table (tables s))) s)"
proof -
  let ?t = "store_table (tables s)" and ?live = "live_row clock (db_key S sid)"
  let ?t' = "filter (\<lambda>(k, r). \<not> ?live k r) ?t"
  have same: "delete_rows (\<lambda>k r'. ?live k r' \<and> sr_value r' = sr_value r) ?t = delete_rows ?live ?t" if "row_of S s sid = Some r" for r
  proof (rule delete_rows_cong)
    have "r' = r" if "(db_key S sid, r') \<in> set ?t" for r'
      using that \<open>row_of S s sid = Some r\<close> db_ok_facts(3) [OF assms] by (simp add: row_of_def map_of_is_SomeI)
    then show "\<forall>(k, r') \<in> set ?t. (?live k r' \<and> sr_value r' = sr_value r) = ?live k r'" by (auto simp: live_row_def)
  qed
  have gone: "?t' = ?t" if "db_view S clock s sid = None"
  proof -
    have "filter (\<lambda>(k, r). ?live k r) ?t = []"
      using that view_row [OF assms, of clock sid] live_filter [OF assms, of clock sid] by (auto simp: row_view_def split: option.splits if_splits)
    then show ?thesis by (auto simp: filter_empty_conv filter_id_conv)
  qed
  show ?thesis
    unfolding db_get_and_delete_def Let_def
    by (rule store_runs(1) [OF db_ok_facts(2) [OF assms]])
       (use same gone view_row [OF assms, of clock sid] matched_live [OF assms, of clock sid] in
         \<open>auto simp: bind_run ret_run delete_returning_values_def select_rows_def gets_run live_filter [OF assms] delete_rows_def
            val_of_def row_view_def split: option.splits if_splits\<close>)
qed

lemma db_take_run:
  assumes "db_ok S s" and "out = db_get_and_delete S clock sid s"
  shows "fst out = Inr (val_of (db_view S clock s) sid)" and "db_ok S (snd out)"
    and "db_view S clock (snd out) = (db_view S clock s)(sid := None)"
proof -
  have out: "out = (Inr (val_of (db_view S clock s) sid),
      set_store (filter (\<lambda>(k, r). \<not> live_row clock (db_key S sid) k r) (store_table (tables s))) s)"
    unfolding assms(2) by (rule db_take_exact [OF assms(1)])
  then show "fst out = Inr (val_of (db_view S clock s) sid)" by simp
  note drop = row_dropped [OF assms(1) live_row_eq refl]
  show "db_ok S (snd out)" "db_view S clock (snd out) = (db_view S clock s)(sid := None)"
    using drop(1) drop(2) [of clock] by (auto simp: out row_view_def split: option.splits)
qed

lemma insert_row_count_run: "insert_row_count E k r t
    = (if k \<in> fst ` set t then if dialect E = ''sqlite'' then (Inr 0, t) else (Inl integrity_error, t) else (Inr 1, t @ [(k, r)]))"
  by (simp add: insert_row_count_def insert_into_def bind_run catch_run ret_run)

lemma db_claim_exact:
  assumes "db_ok S s" and "t1 = filter (\<lambda>(k, r). \<not> (k = db_key S sid \<and> expired_values clock k r)) (store_table (tables s))"
    and "row = \<lparr>sr_value = v, sr_user_id = user_column S v, sr_version = 1, sr_expires = row_expiry S clock e\<rparr>"
  shows "db_view S clock s sid \<noteq> None \<Longrightarrow> \<exists>s'. db_set_if_absent S clock sid v e s = (Inr False, s') \<and> (s' = s \<or> s' = set_store t1 s)"
    and "db_view S clock s sid = None \<Longrightarrow> db_set_if_absent S clock sid v e s
      = bind (note_write (ds_database S) clock) (\<lambda>_. ret True) (set_store (t1 @ [(db_key S sid, row)]) s)"
    and "db_key S sid \<in> fst ` set t1 \<longleftrightarrow> db_view S clock s sid \<noteq> None"
proof -
  let ?t = "store_table (tables s)" and ?key = "db_key S sid" and ?sqlite = "dialect (engine (ds_database S)) = ''sqlite''"
  let ?P = "\<lambda>k r. k = ?key \<and> expired_values clock k r"
  let ?work = "bind (delete_rows ?P) (\<lambda>_. bind (insert_row_count (engine (ds_database S)) ?key row) (\<lambda>n. ret (n \<noteq> 0)))"
  have P: "?P = (\<lambda>k r. k = ?key \<and> sr_expires r \<le> now_ms clock)" by (simp add: expired_values_def)
  show there: "?key \<in> fst ` set t1 \<longleftrightarrow> db_view S clock s sid \<noteq> None"
    using row_dropped(3) [OF assms(1) P assms(2), of ?key] view_row [OF assms(1), of clock sid] map_of_eq_None_iff [of t1 ?key]
    by (auto simp: row_of_def row_view_def split: option.splits if_splits)
  have work: "?work ?t = (if ?key \<in> fst ` set t1 then if ?sqlite then (Inr False, t1) else (Inl integrity_error, t1) else (Inr True, t1 @ [(?key, row)]))"
    by (simp add: bind_run delete_rows_def insert_row_count_run ret_run assms(2))
  have run: "db_run True (on_store ?work) s = (if ?key \<in> fst ` set t1 then if ?sqlite then (Inr False, set_store t1 s) else (Inl integrity_error, s)
      else (Inr True, set_store (t1 @ [(?key, row)]) s))"
    using db_ok_facts(2) [OF assms(1)] by (simp add: db_run_quiet transact_def on_store_def zoom_run work set_store_def)
  then show "db_view S clock s sid \<noteq> None \<Longrightarrow> \<exists>s'. db_set_if_absent S clock sid v e s = (Inr False, s') \<and> (s' = s \<or> s' = set_store t1 s)"
    and "db_view S clock s sid = None \<Longrightarrow> db_set_if_absent S clock sid v e s
      = bind (note_write (ds_database S) clock) (\<lambda>_. ret True) (set_store (t1 @ [(?key, row)]) s)"
    using there by (auto simp: db_set_if_absent_def Let_def assms(3) [symmetric] bind_run ret_run catch_run)
qed

lemma map_of_snoc: "k \<notin> fst ` set t \<Longrightarrow> map_of (t @ [(k, r)]) = (map_of t)(k \<mapsto> r)"
  by (induction t) (auto simp: fun_eq_iff)

lemma db_claim_run:
  assumes "db_ok S s" and "out = db_set_if_absent S clock sid v e s"
  shows "fst out = Inr (db_view S clock s sid = None)"
    and "fits S sid \<Longrightarrow> db_ok S (snd out)"
    and "fits S sid \<Longrightarrow> db_view S clock (snd out) = (if db_view S clock s sid = None
      then (db_view S clock s)(sid := (if now_ms clock < row_expiry S clock e then Some (v, row_expiry S clock e * 1000 - 1) else None))
      else db_view S clock s)"
proof -
  let ?t = "store_table (tables s)" and ?key = "db_key S sid"
  let ?P = "\<lambda>k r. k = ?key \<and> expired_values clock k r" 
  let ?t1 = "filter (\<lambda>(k, r). \<not> ?P k r) ?t"
  define row where row: "row = \<lparr>sr_value = v, sr_user_id = user_column S v, sr_version = 1, sr_expires = row_expiry S clock e\<rparr>"
  have P: "?P = (\<lambda>k r. k = ?key \<and> sr_expires r \<le> now_ms clock)" by (simp add: expired_values_def)
  note drop = row_dropped [OF assms(1) P refl]
  note run = db_claim_exact [OF assms(1) refl row]
  have "fst out = Inr (db_view S clock s sid = None) \<and> (fits S sid \<longrightarrow> db_ok S (snd out) \<and> db_view S clock (snd out) = (if db_view S clock s sid = None
      then (db_view S clock s)(sid := (if now_ms clock < row_expiry S clock e then Some (v, row_expiry S clock e * 1000 - 1) else None))
      else db_view S clock s))"
  proof (cases "db_view S clock s sid = None")
    case False
    have "row_view clock (case row_of S s sid of None \<Rightarrow> None | Some r \<Rightarrow> if sr_expires r \<le> now_ms clock then None else Some r) = db_view S clock s sid"
      using view_row [OF assms(1), of clock sid] by (auto simp: row_view_def split: option.splits)
    then show ?thesis using run(1) [OF False] False assms(1) drop(1) drop(2) [of clock] by (auto simp: assms(2) fun_upd_idem)
  next
    case True
    let ?s = "set_store (?t1 @ [(?key, row)]) s"
    have u: "upcoming ?s = []" using db_ok_facts(2) [OF assms(1)] by simp
    obtain s' where n: "note_write (ds_database S) clock ?s = (Inr (), s')" "upcoming s' = []" "purged clock (tables ?s) (tables s')"
      using note_write_run [OF u] by blast
    have out: "out = (Inr True, s')" using run(2) [OF True] n(1) by (simp add: assms(2) bind_run ret_run)
    have new: "?key \<notin> fst ` set ?t1" using run(3) True by simp
    have d: "distinct (map fst (store_table (tables ?s)))" using new distinct_kept [OF db_ok_facts(3) [OF assms(1)]] by simp
    have at: "map_of (store_table (tables ?s)) k = (if k = ?key then Some row else map_of ?t k)" for k
      unfolding set_store_sel map_of_snoc [OF new] fun_upd_apply drop(3) by (simp split: option.split)
    have other: "\<forall>k. k \<noteq> ?key \<longrightarrow> map_of (store_table (tables ?s)) k = map_of ?t k" using at by simp
    have this_key: "Some row = map_of (store_table (tables ?s)) ?key" using at by simp
    note put = row_put [OF assms(1) u d other this_key]
    show ?thesis
      using put(1) put(2) [of clock] purged_view [OF _ n(3,2)] True by (auto simp: out row row_view_def)
  qed
  then show "fst out = Inr (db_view S clock s sid = None)"
    and "fits S sid \<Longrightarrow> db_ok S (snd out)"
    and "fits S sid \<Longrightarrow> db_view S clock (snd out) = (if db_view S clock s sid = None
      then (db_view S clock s)(sid := (if now_ms clock < row_expiry S clock e then Some (v, row_expiry S clock e * 1000 - 1) else None))
      else db_view S clock s)" by blast+
qed


lemma row_keys:
  assumes "db_ok S s" and "(k, r) \<in> set (store_table (tables s))" and "take (length (ds_prefix S)) k = ds_prefix S"
  shows "\<exists>sid. k = ds_prefix S @ sid \<and> fits S sid \<and> row_of S s sid = Some r"
proof -
  obtain sid where k: "k = ds_prefix S @ sid" using assms(3) by (metis append_take_drop_id)
  have r: "map_of (store_table (tables s)) (ds_prefix S @ sid) = Some r" using assms(2) db_ok_facts(3) [OF assms(1)] k by simp
  then have "row_ok S (ds_prefix S @ sid) r" using assms(1) by (simp only: db_ok_def)
  then have "length (ds_prefix S @ sid) < DATABASE_KEY_MAX_LENGTH" by (simp add: row_ok_def)
  then have "fits S sid" by (simp add: fits_def)
  then show ?thesis using r k by (auto simp: row_of_def key_of_fitting)
qed

lemma db_get_user_sessions_run:
  assumes "db_ok S s"
  shows "\<exists>ids. db_get_user_sessions S clock u s = (Inr ids, s) \<and> distinct ids \<and> set ids = owned (ds_user_id S) u (db_view S clock s)"
proof -
  let ?t = "store_table (tables s)" and ?n = "length (ds_prefix S)"
  let ?P = "\<lambda>k r. sr_user_id r = Some (py_str u) \<and> now_ms clock < sr_expires r \<and> take ?n k = ds_prefix S"
  let ?rs = "filter (\<lambda>(k, r). ?P k r) ?t" and ?ids = "map (\<lambda>(k, _). drop ?n k) (filter (\<lambda>(k, r). ?P k r) ?t)"
  have run: "db_get_user_sessions S clock u s = (Inr ?ids, s)"
    using store_runs(2) [OF db_ok_facts(2) [OF assms], of "select_rows ?P" "?rs" "?t"]
    by (simp add: db_get_user_sessions_def bind_run ret_run select_rows_def gets_run)
  have "inj_on (drop ?n) (fst ` set ?rs)"
  proof (rule inj_onI)
    fix a c assume "a \<in> fst ` set ?rs" "c \<in> fst ` set ?rs" and eq: "drop ?n a = drop ?n c"
    then have "take ?n a = take ?n c" by auto
    then show "a = c" using eq by (metis append_take_drop_id)
  qed
  then have "distinct (map (drop ?n) (map fst ?rs))"
    using distinct_kept [OF db_ok_facts(3) [OF assms]] by (simp add: distinct_map [of _ "map fst ?rs"] del: map_map)
  then have "distinct ?ids" by (simp add: case_prod_unfold comp_def)
  moreover have "sid \<in> set ?ids \<longleftrightarrow> sid \<in> owned (ds_user_id S) u (db_view S clock s)" for sid
  proof
    assume "sid \<in> set ?ids"
    then obtain k r where "(k, r) \<in> set ?t" "?P k r" "sid = drop ?n k" by auto
    moreover from this obtain j where "k = ds_prefix S @ j" "fits S j" "row_of S s j = Some r" using row_keys [OF assms] by blast
    ultimately show "sid \<in> owned (ds_user_id S) u (db_view S clock s)"
      using row_fits [OF assms, of j r] by (simp add: owned_def db_view_def row_view_def user_column_def)
  next
    assume "sid \<in> owned (ds_user_id S) u (db_view S clock s)"
    then obtain r where "fits S sid" "row_of S s sid = Some r" "now_ms clock < sr_expires r" "user_column S (sr_value r) = Some (py_str u)"
      by (auto simp: owned_def db_view_def row_view_def user_column_def split: if_splits option.splits)
    then have "(ds_prefix S @ sid, r) \<in> set ?rs" using row_fits [OF assms, of sid r] by (auto simp: row_of_def key_of_fitting dest: map_of_SomeD)
    then show "sid \<in> set ?ids" by (force simp: image_iff)
  qed
  ultimately show ?thesis using run by blast
qed

lemma star_matches: "fnmatchcase ''*'' s"
  by (induction s) (simp_all add: fnmatchcase.simps)

lemma prefix_matches: "set p \<inter> set ''*?['' = {} \<Longrightarrow> fnmatchcase (p @ ''*'') (p @ s)"
  by (induction p) (auto simp: fnmatchcase.simps star_matches)

lemma prefix_literal: "set p \<inter> set ''*?['' = {} \<Longrightarrow> literal_prefix (p @ ''*'') = p"
  by (induction p) (auto simp: literal_prefix_def)

lemma db_scan_run:
  assumes "db_ok S s"
  shows "\<exists>ks. db_scan_keys S clock m s = (Inr ks, s)"
    and "\<exists>ks. db_scan_keys S clock None s = (Inr ks, s) \<and> (\<lambda>k. ds_prefix S @ k) ` dom (db_view S clock s) \<subseteq> set ks"
proof -
  let ?t = "store_table (tables s)"
  have run: "db_scan_keys S clock m s = (Inr (filter (fnmatchcase pat) (map fst (filter (\<lambda>(k, r). now_ms clock < sr_expires r \<and> take (length (literal_prefix pat)) k = literal_prefix pat) ?t))), s)"
    if "pat = (case m of None \<Rightarrow> ds_prefix S @ ''*'' | Some m \<Rightarrow> if m = [] then ds_prefix S @ ''*'' else m)" for pat m
    using store_runs(2) [OF db_ok_facts(2) [OF assms], of "select_rows (\<lambda>k r. now_ms clock < sr_expires r \<and> take (length (literal_prefix pat)) k = literal_prefix pat)"]
    by (simp add: db_scan_keys_def that [symmetric] Let_def bind_run ret_run select_rows_def gets_run)
  then show "\<exists>ks. db_scan_keys S clock m s = (Inr ks, s)" by blast
  have free: "set (ds_prefix S) \<inter> set ''*?['' = {}" using db_ok_facts(1) [OF assms] by (simp add: prefix_ok_def)
  have "ds_prefix S @ sid \<in> set (filter (fnmatchcase (ds_prefix S @ ''*''))
      (map fst (filter (\<lambda>(k, r). now_ms clock < sr_expires r \<and> take (length (ds_prefix S)) k = ds_prefix S) ?t)))"
    if here: "sid \<in> dom (db_view S clock s)" for sid
  proof -
    obtain r where "fits S sid" "row_of S s sid = Some r" "now_ms clock < sr_expires r"
      using here by (auto simp: db_view_def row_view_def split: if_splits option.splits)
    then have "(ds_prefix S @ sid, r) \<in> set ?t" "now_ms clock < sr_expires r" by (auto simp: row_of_def key_of_fitting dest: map_of_SomeD)
    then show ?thesis using prefix_matches [OF free, of sid] by (force simp: image_iff)
  qed
  then show "\<exists>ks. db_scan_keys S clock None s = (Inr ks, s) \<and> (\<lambda>k. ds_prefix S @ k) ` dom (db_view S clock s) \<subseteq> set ks"
    using run [of "ds_prefix S @ ''*''" None] by (auto simp: prefix_literal [OF free])
qed

section \<open>The contract of the port\<close>

text \<open>The instant an entry of \<open>n\<close> seconds written now has left to live, in microseconds.\<close>

definition due_ms :: "int \<Rightarrow> int \<Rightarrow> int" where
  "due_ms clock n = (clock div 1000 + n * 1000) * 1000 - 1"

lemma due_row: "row_expiry S clock e * 1000 - 1 = due_ms clock (ttl_or (ds_expiration S) e)"
  by (simp add: row_expiry_def expires_in_def now_ms_def due_ms_def)

lemma view_at_later: "now \<le> t \<Longrightarrow> db_view S t s = live_at t (db_view S now s)"
  by (auto simp: db_view_def row_view_def live_at_def now_ms_def fun_eq_iff split: option.split)

lemmas db_runs = db_create_run [OF _ _ _ refl] db_get_run db_exists_run db_rewrite_run [OF _ refl] db_extend_run [OF _ refl]
  db_modify_run db_remove_run [OF _ refl] db_take_run [OF _ refl] db_claim_run [OF _ refl] expiry_after due_row

interpretation db_store: timed_store "db_storage_of S" "db_view S" "db_ok S" "ds_user_id S" "\<lambda>now s sid. db_view S now s sid \<noteq> None"
  due_ms "\<lambda>sid. sid \<noteq> [] \<and> fits S sid" "\<lambda>n. 1 \<le> n" for S
proof (unfold_locales, goal_cases)
  case (1 s now t)
  then show ?case by (simp add: view_at_later)
next
  case (2 s now k v d)
  then show ?case by (auto simp: db_view_def row_view_def now_ms_def split: if_splits option.splits)
next
  case (31 s now u)
  then show ?case using db_get_user_sessions_run [OF 31, of now u] by (auto simp: db_storage_of_def)
next
  case (32 s now u)
  then show ?case using db_get_user_sessions_run [OF 32, of now u] by (auto simp: db_storage_of_def)
next
  case (33 s now u)
  then show ?case using db_get_user_sessions_run [OF 33, of now u] by (auto simp: db_storage_of_def)
next
  case (37 s now)
  then show ?case using db_scan_run(2) [OF 37, of now] by (auto simp: db_storage_of_def)
next
  case (38 s now m)
  then show ?case using db_scan_run(1) [OF 38, of now m] by (auto simp: db_storage_of_def)
next
  case (39 s now m)
  then show ?case using db_scan_run(1) [OF 39, of now m] by (auto simp: db_storage_of_def)
qed (auto simp: db_storage_of_def db_runs ret_run val_of_def split: option.splits)

end
