(* ===== verification/StoreSpec.thy ===== *)
theory StoreSpec
  imports DatabaseLaws
begin

text \<open>
  One specification of the session store port, kept by both backends: what a client is answered over
  any sequence of operations depends on the live entries at the start, the clock and the operations alone,
  except that the in-process store may answer the deletion of an ended entry as if it were still there.
\<close>

section \<open>Operations and answers\<close>

text \<open>
  The ten operations every backend of the port has. The two optional ones on key patterns,
  \<open>scan_keys\<close> and \<open>delete_pattern\<close>, follow below, where they matter: for the stores of one table.
\<close>

datatype 'a store_op =
    OpCreate 'a string "int option"
  | OpGet string
  | OpUpdate string 'a bool "int option"
  | OpDelete string
  | OpExtend string "int option"
  | OpExists string
  | OpModify string "'a \<Rightarrow> 'a \<times> string" bool "int option"
  | OpClaim string 'a "int option"
  | OpTake string
  | OpSessions pyval

datatype 'a answer = Id string | Found "'a option" | Yes bool | Changed "('a \<times> string) option" | Ids "string set"

definition run_op :: "('s, 'a) session_storage \<Rightarrow> int \<Rightarrow> 'a store_op \<Rightarrow> ('s, 'a answer) prog" where
  "run_op st t op =
     (case op of
        OpCreate v sid e \<Rightarrow> bind (st_create st t v sid e) (\<lambda>i. ret (Id i))
      | OpGet sid \<Rightarrow> bind (st_get st t sid) (\<lambda>x. ret (Found x))
      | OpUpdate sid v r e \<Rightarrow> bind (st_update st t sid v r e) (\<lambda>y. ret (Yes y))
      | OpDelete sid \<Rightarrow> bind (st_delete st t sid VNone) (\<lambda>y. ret (Yes y))
      | OpExtend sid e \<Rightarrow> bind (st_extend st t sid e) (\<lambda>y. ret (Yes y))
      | OpExists sid \<Rightarrow> bind (st_exists st t sid) (\<lambda>y. ret (Yes y))
      | OpModify sid ch r e \<Rightarrow> bind (st_modify st t sid ch r e) (\<lambda>x. ret (Changed x))
      | OpClaim sid v e \<Rightarrow> bind (st_set_if_absent st t sid v e) (\<lambda>y. ret (Yes y))
      | OpTake sid \<Rightarrow> bind (st_get_and_delete st t sid) (\<lambda>x. ret (Found x))
      | OpSessions u \<Rightarrow> bind (st_get_user_sessions st t u) (\<lambda>ids. ret (Ids (set ids))))"

section \<open>The specification\<close>

text \<open>\<open>ends e\<close> is the instant an entry written now with the given lifetime ends.\<close>

fun spec_op :: "(int option \<Rightarrow> int) \<Rightarrow> ('a \<Rightarrow> pyval option) \<Rightarrow> 'a store_op \<Rightarrow> 'a entries \<Rightarrow> 'a answer \<times> 'a entries" where
  "spec_op ends who (OpCreate v sid e) m = (Id sid, m(sid \<mapsto> (v, ends e)))"
| "spec_op ends who (OpGet sid) m = (Found (val_of m sid), m)"
| "spec_op ends who (OpUpdate sid v r e) m = (Yes (m sid \<noteq> None), rewrite_entry sid v (if r then Some (ends e) else None) m)"
| "spec_op ends who (OpDelete sid) m = (Yes (m sid \<noteq> None), m(sid := None))"
| "spec_op ends who (OpExtend sid e) m =
     (case m sid of None \<Rightarrow> (Yes False, m) | Some (v, _) \<Rightarrow> (Yes True, m(sid \<mapsto> (v, ends e))))"
| "spec_op ends who (OpExists sid) m = (Yes (m sid \<noteq> None), m)"
| "spec_op ends who (OpModify sid ch r e) m =
     (case m sid of None \<Rightarrow> (Changed None, m)
      | Some (v, d) \<Rightarrow> (Changed (Some (ch v)), m(sid \<mapsto> (fst (ch v), if r then ends e else d))))"
| "spec_op ends who (OpClaim sid v e) m = (if m sid = None then (Yes True, m(sid \<mapsto> (v, ends e))) else (Yes False, m))"
| "spec_op ends who (OpTake sid) m = (Found (val_of m sid), m(sid := None))"
| "spec_op ends who (OpSessions u) m = (Ids (owned who u m), m)"

fun spec_ops :: "(int \<Rightarrow> int option \<Rightarrow> int) \<Rightarrow> ('a \<Rightarrow> pyval option) \<Rightarrow> (int \<times> 'a store_op) list \<Rightarrow> 'a entries \<Rightarrow> 'a answer list" where
  "spec_ops ends who [] m = []"
| "spec_ops ends who ((t, op) # ops) m = (let (a, m') = spec_op (ends t) who op (live_at t m) in a # spec_ops ends who ops m')"

text \<open>
  Answers that agree, but for the deletion of an id in \<open>R\<close>, which may be told to have been there;
  \<open>R\<close> follows the operations: a create or claim adds its id, a delete or take removes it.
\<close>

fun remembered :: "'a store_op \<Rightarrow> string set \<Rightarrow> string set" where
  "remembered (OpCreate v sid e) R = insert sid R"
| "remembered (OpClaim sid v e) R = insert sid R"
| "remembered (OpDelete sid) R = R - {sid}"
| "remembered (OpTake sid) R = R - {sid}"
| "remembered _ R = R"

fun lenient :: "string set \<Rightarrow> (int \<times> 'a store_op) list \<Rightarrow> 'a answer list \<Rightarrow> 'a answer list \<Rightarrow> bool" where
  "lenient R [] as bs \<longleftrightarrow> as = [] \<and> bs = []"
| "lenient R ((t, op) # ops) as bs \<longleftrightarrow> (\<exists>a as' b bs'. as = a # as' \<and> bs = b # bs'
     \<and> (a = b \<or> (\<exists>sid. op = OpDelete sid \<and> sid \<in> R \<and> a = Yes True)) \<and> lenient (remembered op R) ops as' bs')"

text \<open>The ids a store takes, and the lifetimes that are not over as they begin.\<close>

fun op_ok :: "(string \<Rightarrow> bool) \<Rightarrow> (int option \<Rightarrow> bool) \<Rightarrow> 'a store_op \<Rightarrow> bool" where
  "op_ok valid lasts (OpCreate v sid e) \<longleftrightarrow> valid sid \<and> lasts e"
| "op_ok valid lasts (OpUpdate sid v r e) \<longleftrightarrow> lasts e"
| "op_ok valid lasts (OpExtend sid e) \<longleftrightarrow> lasts e"
| "op_ok valid lasts (OpModify sid ch r e) \<longleftrightarrow> lasts e"
| "op_ok valid lasts (OpClaim sid v e) \<longleftrightarrow> valid sid \<and> lasts e"
| "op_ok valid lasts _ \<longleftrightarrow> True"

context timed_store
begin

abbreviation ends :: "int \<Rightarrow> int option \<Rightarrow> int" where
  "ends t e \<equiv> due t (ttl_or (st_expiration st) e)"

lemma op_run:
  assumes "ok s" and "op_ok valid (\<lambda>e. good (ttl_or (st_expiration st) e)) op"
  shows "fst (run_op st t op s) = Inr (case op of OpDelete sid \<Rightarrow> Yes (hit t s sid) | _ \<Rightarrow> fst (spec_op (ends t) who op (view t s)))"
    and "view t (snd (run_op st t op s)) = snd (spec_op (ends t) who op (view t s))"
    and "ok (snd (run_op st t op s))"
proof -
  obtain ids where ids: "fst (st_get_user_sessions st t u s) = Inr (ids u)" "set (ids u) = owned who u (view t s)" for u
    using user_sessions_result [OF assms(1)] by metis
  show "fst (run_op st t op s) = Inr (case op of OpDelete sid \<Rightarrow> Yes (hit t s sid) | _ \<Rightarrow> fst (spec_op (ends t) who op (view t s)))"
    using assms ids by (cases op) (auto simp: run_op_def run_simps store_laws val_of_def split: option.split)
  show "view t (snd (run_op st t op s)) = snd (spec_op (ends t) who op (view t s))"
    using assms ids by (cases op) (auto simp: run_op_def run_simps store_laws val_of_def rewrite_entry_def split: option.split)
  show "ok (snd (run_op st t op s))"
    using assms ids by (cases op) (auto simp: run_op_def run_simps store_laws)
qed

text \<open>
  \<open>stored\<close> is an upper bound on the ids of which a deletion may say that they were there.
\<close>

lemma ops_run:
  assumes "\<And>s t sid. ok s \<Longrightarrow> hit t s sid \<Longrightarrow> view t s sid = None \<Longrightarrow> sid \<in> stored s"
    and "\<And>s t op. op_ok valid (\<lambda>e. good (ttl_or (st_expiration st) e)) op \<Longrightarrow> stored (snd (run_op st t op s)) \<subseteq> remembered op (stored s)"
    and "ok s" and "sorted (start # map fst ops)" and "\<forall>(t, op) \<in> set ops. op_ok valid (\<lambda>e. good (ttl_or (st_expiration st) e)) op"
    and "stored s \<subseteq> R"
  shows "\<exists>as. fst (map_prog (\<lambda>(t, op). run_op st t op) ops s) = Inr as \<and> lenient R ops as (spec_ops ends who ops (view start s))"
  using assms(3-)
proof (induction ops arbitrary: s start R)
  case (Cons p ops)
  obtain t op where p: "p = (t, op)" by (cases p)
  have v: "view t s = live_at t (view start s)" using Cons.prems(1,2) view_later [of s start t] p by simp
  let ?a = "case op of OpDelete sid \<Rightarrow> Yes (hit t s sid) | _ \<Rightarrow> fst (spec_op (ends t) who op (view t s))"
  note run = op_run [OF Cons.prems(1), of op t]
  have "remembered op (stored s) \<subseteq> remembered op R" using Cons.prems(4) by (cases op) auto
  moreover have "stored (snd (run_op st t op s)) \<subseteq> remembered op (stored s)" using assms(2) Cons.prems(3) p by simp
  ultimately have "stored (snd (run_op st t op s)) \<subseteq> remembered op R" by blast
  from Cons.IH [OF _ _ _ this, of t] obtain as where "fst (map_prog (\<lambda>(t, op). run_op st t op) ops (snd (run_op st t op s))) = Inr as"
    "lenient (remembered op R) ops as (spec_ops ends who ops (view t (snd (run_op st t op s))))"
    using run Cons.prems p by auto
  moreover have "?a = fst (spec_op (ends t) who op (view t s)) \<or> (\<exists>sid. op = OpDelete sid \<and> sid \<in> R \<and> ?a = Yes True)"
    using assms(1) [OF Cons.prems(1)] hit_live [OF Cons.prems(1)] Cons.prems(4) by (cases op) (auto, (metis option.exhaust subsetD surj_pair)+)
  ultimately show ?case using run Cons.prems(3) p v by (auto simp: run_simps case_prod_unfold Let_def)
qed (simp add: run_simps)

lemma ops_run_exactly:
  assumes "\<And>s t sid. ok s \<Longrightarrow> hit t s sid \<Longrightarrow> view t s sid \<noteq> None"
    and "ok s" and "sorted (start # map fst ops)" and "\<forall>(t, op) \<in> set ops. op_ok valid (\<lambda>e. good (ttl_or (st_expiration st) e)) op"
  shows "fst (map_prog (\<lambda>(t, op). run_op st t op) ops s) = Inr (spec_ops ends who ops (view start s))"
  using assms(2-)
proof (induction ops arbitrary: s start)
  case (Cons p ops)
  obtain t op where p: "p = (t, op)" by (cases p)
  have v: "view t s = live_at t (view start s)" using Cons.prems(1,2) view_later [of s start t] p by simp
  note run = op_run [OF Cons.prems(1), of op t]
  have "hit t s sid \<longleftrightarrow> view t s sid \<noteq> None" for sid using assms(1) hit_live Cons.prems(1) by blast
  then have "(case op of OpDelete sid \<Rightarrow> Yes (hit t s sid) | _ \<Rightarrow> fst (spec_op (ends t) who op (view t s))) = fst (spec_op (ends t) who op (view t s))"
    by (cases op) simp_all
  then show ?case
    using run Cons.IH [of "snd (run_op st t op s)" t] Cons.prems p v by (simp add: run_simps case_prod_unfold Let_def)
qed (simp add: run_simps)

end

section \<open>What the in-process store may remember\<close>














section \<open>Storages in one table\<close>

text \<open>A statement that leaves the rows of every other key as they are, and a program that does, but for purges.\<close>

definition leaves_rows :: "string \<Rightarrow> ('r, 'x) statement \<Rightarrow> bool" where
  "leaves_rows key m \<longleftrightarrow> (\<forall>t. distinct (map fst t) \<longrightarrow>
     distinct (map fst (snd (m t))) \<and> (\<forall>k. k \<noteq> key \<longrightarrow> map_of (snd (m t)) k = map_of t k))"

definition leaves_others :: "int \<Rightarrow> string \<Rightarrow> ('a database_store, 'x) prog \<Rightarrow> bool" where
  "leaves_others clock key p \<longleftrightarrow> (\<forall>s. upcoming s = [] \<longrightarrow> distinct (map fst (store_table (tables s))) \<longrightarrow>
     upcoming (snd (p s)) = [] \<and> distinct (map fst (store_table (tables (snd (p s)))))
     \<and> (\<forall>k. k \<noteq> key \<longrightarrow> map_of (store_table (tables (snd (p s)))) k = map_of (store_table (tables s)) k
          \<or> map_of (store_table (tables (snd (p s)))) k = None \<and> row_view clock (map_of (store_table (tables s)) k) = None))"

named_theorems leaving

lemma leaves_rows_simple [leaving]:
  "leaves_rows key (ret x)" "leaves_rows key (raise e)" "leaves_rows key (select_rows P)"
  "(\<forall>k r. P k r \<longrightarrow> k = key) \<Longrightarrow> leaves_rows key (update_rows P f)"
  "(\<forall>k r. P k r \<longrightarrow> k = key) \<Longrightarrow> leaves_rows key (delete_rows P)"
  "leaves_rows key (insert_into key r)"
proof -
  show "leaves_rows key (update_rows P f)" if "\<forall>k r. P k r \<longrightarrow> k = key"
  proof -
    have "map_option (\<lambda>r. if P k r then f r else r) x = x" if "k \<noteq> key" for k x
      using \<open>\<forall>k r. P k r \<longrightarrow> k = key\<close> that by (cases x) auto
    then show ?thesis by (simp add: leaves_rows_def update_rows_def map_of_changed del: map_map)
  qed
  show "leaves_rows key (delete_rows P)" if "\<forall>k r. P k r \<longrightarrow> k = key"
    using that by (auto simp: leaves_rows_def delete_rows_def distinct_kept map_of_kept split: option.split)
  show "leaves_rows key (insert_into key r)"
    by (auto simp: leaves_rows_def insert_into_def map_of_snoc simp del: map_of_append)
qed (simp_all add: leaves_rows_def ret_run raise_run select_rows_def gets_run)

lemma leaves_rows_bind [leaving]: "leaves_rows key m \<Longrightarrow> (\<And>x. leaves_rows key (f x)) \<Longrightarrow> leaves_rows key (bind m f)"
  by (simp add: leaves_rows_def bind_run split: sum.split)

lemma leaves_rows_catch [leaving]: "leaves_rows key m \<Longrightarrow> (\<And>x. leaves_rows key (f x)) \<Longrightarrow> leaves_rows key (catch m f)"
  by (simp add: leaves_rows_def catch_run split: sum.split)

lemma leaves_rows_count [leaving]: "leaves_rows key (insert_row_count E key r)"
  unfolding insert_row_count_def by (auto intro!: leaving)

lemma leaves_run [leaving]: "leaves_rows key m \<Longrightarrow> leaves_others clock key (db_run w (on_store m))"
  by (auto simp: leaves_others_def leaves_rows_def db_run_quiet transact_def on_store_def zoom_run split: sum.split prod.split)


lemma leaves_others_simple [leaving]: "leaves_others clock key (ret x)" "leaves_others clock key (raise e)"
  by (simp_all add: leaves_others_def ret_run raise_run)

lemma leaves_trans:
  fixes p :: "('a database_store, 'x) prog" and q :: "'a database_store \<Rightarrow> ('a database_store, 'y) prog"
  assumes "leaves_others clock key p" and "\<And>s. leaves_others clock key (q s)"
  shows "leaves_others clock key (\<lambda>s. q s (snd (p s)))"
  unfolding leaves_others_def
proof (intro allI impI conjI)
  fix s :: "'a database_store" assume s: "upcoming s = []" "distinct (map fst (store_table (tables s)))"
  have p: "upcoming (snd (p s)) = []" "distinct (map fst (store_table (tables (snd (p s)))))"
    and rows: "\<forall>k. k \<noteq> key \<longrightarrow> map_of (store_table (tables (snd (p s)))) k = map_of (store_table (tables s)) k
      \<or> map_of (store_table (tables (snd (p s)))) k = None \<and> row_view clock (map_of (store_table (tables s)) k) = None"
    using assms(1) s unfolding leaves_others_def by blast+
  let ?s = "snd (q s (snd (p s)))"
  show "upcoming ?s = []" "distinct (map fst (store_table (tables ?s)))" using assms(2) [of s] p unfolding leaves_others_def by blast+
  fix k assume k: "k \<noteq> key"
  have "map_of (store_table (tables ?s)) k = map_of (store_table (tables (snd (p s)))) k
      \<or> map_of (store_table (tables ?s)) k = None \<and> row_view clock (map_of (store_table (tables (snd (p s)))) k) = None"
    using assms(2) [of s] p k unfolding leaves_others_def by blast
  then show "map_of (store_table (tables ?s)) k = map_of (store_table (tables s)) k
      \<or> map_of (store_table (tables ?s)) k = None \<and> row_view clock (map_of (store_table (tables s)) k) = None"
    using rows k by force
qed

lemma leaves_others_bind [leaving]:
  assumes "leaves_others clock key m" and "\<And>x. leaves_others clock key (f x)"
  shows "leaves_others clock key (bind m f)"
proof -
  let ?q = "\<lambda>s t. case fst (m s) of Inl e \<Rightarrow> (Inl e, t) | Inr x \<Rightarrow> f x t"
  have "leaves_others clock key (?q s)" for s
    using assms(2) by (cases "fst (m s)") (simp_all add: leaves_others_def)
  moreover have "bind m f = (\<lambda>s. ?q s (snd (m s)))" by (simp add: fun_eq_iff bind_run split: sum.split)
  ultimately show ?thesis using leaves_trans [OF assms(1), of ?q] by (simp only:)
qed

lemma leaves_others_catch [leaving]:
  assumes "leaves_others clock key m" and "\<And>x. leaves_others clock key (f x)"
  shows "leaves_others clock key (catch m f)"
proof -
  let ?q = "\<lambda>s t. case fst (m s) of Inl e \<Rightarrow> f e t | Inr x \<Rightarrow> (Inr x, t)"
  have "leaves_others clock key (?q s)" for s
    using assms(2) by (cases "fst (m s)") (simp_all add: leaves_others_def)
  moreover have "catch m f = (\<lambda>s. ?q s (snd (m s)))" by (simp add: fun_eq_iff catch_run split: sum.split)
  ultimately show ?thesis using leaves_trans [OF assms(1), of ?q] by (simp only:)
qed

lemma purged_rows:
  assumes "distinct (map fst (store_table d))" and "purged clock d d'"
  shows "distinct (map fst (store_table d'))"
    and "map_of (store_table d') k = map_of (store_table d) k \<or> map_of (store_table d') k = None \<and> row_view clock (map_of (store_table d) k) = None"
proof -
  obtain A where A: "store_table d' = filter (\<lambda>(k, r). \<not> (k \<in> A \<and> expired_values clock k r)) (store_table d)"
    using assms(2) by (auto simp: purged_def)
  show "distinct (map fst (store_table d'))" unfolding A by (rule distinct_kept [OF assms(1)])
  have "map_of (store_table d') k = (case map_of (store_table d) k of None \<Rightarrow> None
      | Some r \<Rightarrow> if k \<in> A \<and> expired_values clock k r then None else Some r)"
    unfolding A using map_of_kept [OF assms(1), of "\<lambda>k r. k \<in> A \<and> expired_values clock k r"] by simp
  then show "map_of (store_table d') k = map_of (store_table d) k \<or> map_of (store_table d') k = None \<and> row_view clock (map_of (store_table d) k) = None"
    by (auto simp: row_view_def expired_values_def split: option.splits)
qed

lemma leaves_note_write [leaving]: "leaves_others clock key (note_write D clock)"
  unfolding leaves_others_def
proof (intro allI impI)
  fix s :: "'a database_store" assume s: "upcoming s = []" "distinct (map fst (store_table (tables s)))"
  obtain s' where n: "note_write D clock s = (Inr (), s')" "upcoming s' = []" "purged clock (tables s) (tables s')"
    using note_write_run [OF s(1)] by blast
  show "upcoming (snd (note_write D clock s)) = [] \<and> distinct (map fst (store_table (tables (snd (note_write D clock s)))))
     \<and> (\<forall>k. k \<noteq> key \<longrightarrow> map_of (store_table (tables (snd (note_write D clock s)))) k = map_of (store_table (tables s)) k
          \<or> map_of (store_table (tables (snd (note_write D clock s)))) k = None \<and> row_view clock (map_of (store_table (tables s)) k) = None)"
    using n purged_rows [OF s(2) n(3)] by simp
qed

lemma leaves_upsert [leaving]: "leaves_rows key m \<Longrightarrow> leaves_others clock key (run_upsert (on_store m))"
  unfolding run_upsert_def by (auto intro!: leaving)


fun op_id :: "'a store_op \<Rightarrow> string" where
  "op_id (OpCreate v sid e) = sid"
| "op_id (OpGet sid) = sid"
| "op_id (OpUpdate sid v r e) = sid"
| "op_id (OpDelete sid) = sid"
| "op_id (OpExtend sid e) = sid"
| "op_id (OpExists sid) = sid"
| "op_id (OpModify sid ch r e) = sid"
| "op_id (OpClaim sid v e) = sid"
| "op_id (OpTake sid) = sid"
| "op_id (OpSessions u) = []"

lemma leaves_modify [leaving]: "leaves_others clock key (modify_attempts n S clock key ch r e)"
proof (induction n)
  case (Suc n)
  show ?case unfolding modify_attempts.simps guarded_update_def
    by (intro leaving allI impI) (auto split: list.split prod.split simp: live_row_def intro!: leaving Suc)
qed (simp add: leaving)

lemma leaves_if [leaving]: "(c \<Longrightarrow> leaves_rows key m) \<Longrightarrow> (\<not> c \<Longrightarrow> leaves_rows key m') \<Longrightarrow> leaves_rows key (if c then m else m')"
  "(c \<Longrightarrow> leaves_others clock key p) \<Longrightarrow> (\<not> c \<Longrightarrow> leaves_others clock key p') \<Longrightarrow> leaves_others clock key (if c then p else p')"
  by simp_all

lemmas db_op_defs = db_create_def db_get_def db_rewrite_def db_remove_def db_extend_def db_exists_def db_modify_def db_set_if_absent_def
  db_get_and_delete_def db_get_user_sessions_def delete_returning_values_def

text \<open>A create without an id draws one.\<close>

definition written_id :: "'a db_storage \<Rightarrow> 'a store_op \<Rightarrow> string" where
  "written_id S op = (case op of OpCreate v sid e \<Rightarrow> if sid = [] then ds_uuid S else sid | _ \<Rightarrow> op_id op)"

lemma op_leaves: "leaves_others t (db_key S (written_id S op)) (run_op (db_storage_of S) t op)"
  by (cases op) (auto simp: run_op_def db_storage_of_def db_op_defs Let_def live_row_def written_id_def intro!: leaving split: list.split prod.split)

text \<open>
  The optional operations on key patterns work on the table's keys, not on a storage's ids: a deletion by
  pattern removes every row whose key begins with the pattern, whoever's it is. A storage keeps to its own
  rows when what its pattern begins with, before a wildcard, begins with its prefix.
\<close>

datatype 'a table_op = Keyed "'a store_op" | Scan "string option" | DeletePattern string

definition run_table :: "('s, 'a) session_storage \<Rightarrow> int \<Rightarrow> 'a table_op \<Rightarrow> ('s, unit) prog" where
  "run_table st t act =
     (case act of
        Keyed op \<Rightarrow> bind (run_op st t op) (\<lambda>_. ret ())
      | Scan m \<Rightarrow> bind (st_scan_keys st t m) (\<lambda>_. ret ())
      | DeletePattern pattern \<Rightarrow> bind (st_delete_pattern st t pattern) (\<lambda>_. ret ()))"

definition keeps_to_own :: "'a db_storage \<Rightarrow> 'b table_op \<Rightarrow> bool" where
  "keeps_to_own S act \<longleftrightarrow> (\<forall>pattern. act = DeletePattern pattern \<longrightarrow>
     take (length (ds_prefix S)) (takeWhile (\<lambda>c. c \<noteq> CHR ''*'' \<and> c \<noteq> CHR ''?'' \<and> c \<noteq> CHR ''['') pattern) = ds_prefix S)"

definition apart :: "'a db_storage \<Rightarrow> 'a db_storage \<Rightarrow> bool" where
  "apart S S' \<longleftrightarrow> take (length (ds_prefix S)) (ds_prefix S') \<noteq> ds_prefix S \<and> take (length (ds_prefix S')) (ds_prefix S) \<noteq> ds_prefix S'"

lemma apart_prefixes:
  assumes "apart S S'" and "take (length (ds_prefix S')) k = ds_prefix S'"
  shows "take (length (ds_prefix S)) k \<noteq> ds_prefix S"
proof
  assume k: "take (length (ds_prefix S)) k = ds_prefix S"
  have "take (length (ds_prefix S)) (ds_prefix S') = ds_prefix S" if "length (ds_prefix S) \<le> length (ds_prefix S')"
    using k that assms(2) take_take [of "length (ds_prefix S)" "length (ds_prefix S')" k] by (simp add: min_def)
  moreover have "take (length (ds_prefix S')) (ds_prefix S) = ds_prefix S'" if "length (ds_prefix S') \<le> length (ds_prefix S)"
    using k that assms(2) take_take [of "length (ds_prefix S')" "length (ds_prefix S)" k] by (simp add: min_def)
  ultimately show False using assms(1) nat_le_linear [of "length (ds_prefix S)" "length (ds_prefix S')"] by (auto simp: apart_def)
qed

lemma apart_keys: "prefix_ok S \<Longrightarrow> prefix_ok S' \<Longrightarrow> apart S S' \<Longrightarrow> db_key S' j \<noteq> db_key S sid"
  using key_prefix [of S sid] key_prefix [of S' j] apart_prefixes [of S S' "db_key S sid"] by auto

lemma row_view_none: "row_view t None = None"
  by (simp add: row_view_def)

lemma row_view_later: "row_view now x = None \<Longrightarrow> now \<le> t \<Longrightarrow> row_view t x = None"
  using zdiv_mono1 [of now t 1000] by (auto simp: row_view_def now_ms_def split: option.splits if_splits)

text \<open>
  What a storage leaves of the table: keys stay unique, and the rows whose keys do not begin with its prefix
  stay, but for expired ones that a purge removes.
\<close>

definition leaves_foreign :: "string \<Rightarrow> int \<Rightarrow> 'a database_store \<Rightarrow> 'a database_store \<Rightarrow> bool" where
  "leaves_foreign pfx t s s' \<longleftrightarrow> upcoming s' = [] \<and> distinct (map fst (store_table (tables s')))
     \<and> (\<forall>k. take (length pfx) k \<noteq> pfx \<longrightarrow> map_of (store_table (tables s')) k = map_of (store_table (tables s)) k
          \<or> map_of (store_table (tables s')) k = None \<and> row_view t (map_of (store_table (tables s)) k) = None)"

lemma rows_deleted:
  assumes "upcoming s = []" and "distinct (map fst (store_table (tables s)))" and "\<And>k r. P k r \<Longrightarrow> take (length pfx) k = pfx"
  shows "leaves_foreign pfx t s (snd (db_run True (on_store (delete_rows P)) s))"
  using assms
  by (auto simp: leaves_foreign_def db_run_quiet transact_def on_store_def zoom_run delete_rows_def distinct_kept map_of_kept split: option.split)

lemma rows_selected: "upcoming s = [] \<Longrightarrow> snd (db_run False (on_store (select_rows P)) s) = s"
  by (simp add: db_run_quiet transact_def on_store_def zoom_run select_rows_def gets_run)

lemma leaves_foreign_refl: "upcoming s = [] \<Longrightarrow> distinct (map fst (store_table (tables s))) \<Longrightarrow> leaves_foreign pfx t s s"
  by (simp add: leaves_foreign_def)

lemma pattern_leaves:
  assumes "upcoming s = []" and "distinct (map fst (store_table (tables s)))"
    and "take (length (ds_prefix S)) (literal_prefix pattern) = ds_prefix S"
  shows "leaves_foreign (ds_prefix S) t s (snd (db_delete_pattern S clock pattern s))"
proof -
  let ?lit = "literal_prefix pattern" and ?pfx = "ds_prefix S"
  have "length ?pfx \<le> length ?lit" using arg_cong [OF assms(3), of length] by simp
  then have own: "take (length ?pfx) k = ?pfx" if "take (length ?lit) k = ?lit" for k
    using assms(3) that take_take [of "length ?pfx" "length ?lit" k] by (simp add: min_absorb1)
  let ?keys = "filter (fnmatchcase (pattern @ ''*'')) (map fst (filter (\<lambda>(k, r). take (length ?lit) k = ?lit) (store_table (tables s))))"
  let ?sel = "db_run False (on_store (select_rows (\<lambda>k _. take (length ?lit) k = ?lit))) s"
  have sel: "snd ?sel = s" by (rule rows_selected [OF assms(1)])
  have "fst ?sel = Inr (filter (\<lambda>(k, r). take (length ?lit) k = ?lit) (store_table (tables s)))"
    using assms(1) by (simp add: db_run_quiet transact_def on_store_def zoom_run select_rows_def gets_run)
  then have run: "db_delete_pattern S clock pattern s = (if ?lit = pattern then db_run True (on_store (delete_rows (\<lambda>k _. take (length ?lit) k = ?lit))) s
      else if ?keys = [] then (Inr 0, s) else db_run True (on_store (delete_rows (\<lambda>k _. k \<in> set ?keys))) s)"
    using sel by (simp add: db_delete_pattern_def Let_def bind_run ret_run)
  have keys: "k \<in> set ?keys \<Longrightarrow> take (length ?pfx) k = ?pfx" for k using own by auto
  show ?thesis unfolding run
    using rows_deleted [OF assms(1,2) own] rows_deleted [OF assms(1,2) keys] leaves_foreign_refl [OF assms(1,2)] by simp
qed

lemma table_leaves:
  assumes "upcoming s = []" and "distinct (map fst (store_table (tables s)))" and "prefix_ok S" and "keeps_to_own S act"
  shows "leaves_foreign (ds_prefix S) t s (snd (run_table (db_storage_of S) t act s))"
proof (cases act)
  case (Keyed op)
  have "take (length (ds_prefix S)) k \<noteq> ds_prefix S \<Longrightarrow> k \<noteq> db_key S (written_id S op)" for k using key_prefix [OF assms(3)] by blast
  moreover have "leaves_others t (db_key S (written_id S op)) (run_op (db_storage_of S) t op)" by (rule op_leaves)
  ultimately have "leaves_foreign (ds_prefix S) t s (snd (run_op (db_storage_of S) t op s))"
    using assms(1,2) unfolding leaves_others_def leaves_foreign_def by blast
  then show ?thesis by (simp add: Keyed run_table_def bind_run ret_run split: sum.split)
next
  case (Scan m)
  have "snd (db_scan_keys S t m s) = s" using rows_selected [OF assms(1)]
    by (simp add: db_scan_keys_def Let_def bind_run ret_run split: sum.split)
  then show ?thesis using leaves_foreign_refl [OF assms(1,2)] by (simp add: Scan run_table_def db_storage_of_def bind_run ret_run split: sum.split)
next
  case (DeletePattern pattern)
  have "take (length (ds_prefix S)) (literal_prefix pattern) = ds_prefix S"
    using assms(4) by (simp add: keeps_to_own_def DeletePattern literal_prefix_def conj_assoc)
  from pattern_leaves [OF assms(1,2) this, of t t]
  show ?thesis by (simp add: DeletePattern run_table_def db_storage_of_def bind_run ret_run split: sum.split)
qed

lemma foreign_kept:
  assumes "db_ok S' s" and "apart S S'" and "prefix_ok S" and "leaves_foreign (ds_prefix S) t s s'"
  shows "db_ok S' s'" and "t \<le> t' \<Longrightarrow> db_view S' t' s' = db_view S' t' s"
proof -
  let ?t = "store_table (tables s)" and ?t' = "store_table (tables s')"
  have rows: "map_of ?t' k = map_of ?t k \<or> map_of ?t' k = None \<and> row_view t (map_of ?t k) = None"
    if "take (length (ds_prefix S')) k = ds_prefix S'" for k
    using assms(4) apart_prefixes [OF assms(2) that] by (simp add: leaves_foreign_def)
  have "row_ok S' k r" if k: "map_of ?t' k = Some r" for k r
    using rows [of k] k assms(1) by (cases "take (length (ds_prefix S')) k = ds_prefix S'") (auto simp: db_ok_def row_ok_def)
  then show "db_ok S' s'" using assms(1,4) by (simp add: db_ok_def leaves_foreign_def)
  show "db_view S' t' s' = db_view S' t' s" if "t \<le> t'"
  proof
    fix j
    have "row_view t' (map_of ?t' (db_key S' j)) = row_view t' (map_of ?t (db_key S' j))"
      using rows [OF key_prefix [OF db_ok_facts(1) [OF assms(1)]], of j] row_view_later [OF _ that] row_view_none by metis
    then show "db_view S' t' s' j = db_view S' t' s j" by (simp add: db_view_def row_of_def)
  qed
qed

lemma tables_apart:
  assumes "db_ok S' s" and "apart S S'" and "prefix_ok S" and "sorted (map fst ops)" and "\<forall>(t, act) \<in> set ops. keeps_to_own S act"
    and "s' = snd (map_prog (\<lambda>(t, act). run_table (db_storage_of S) t act) ops s)"
  shows "db_ok S' s' \<and> (\<forall>t'. (\<forall>(t, act) \<in> set ops. t \<le> t') \<longrightarrow> db_view S' t' s' = db_view S' t' s)"
  using assms(1,4-)
proof (induction ops arbitrary: s)
  case (Cons p ops)
  obtain t act where p: "p = (t, act)" by (cases p)
  let ?s = "snd (run_table (db_storage_of S) t act s)"
  have "leaves_foreign (ds_prefix S) t s ?s"
    using Cons.prems(3) p by (intro table_leaves [OF db_ok_facts(2,3) [OF Cons.prems(1)] assms(3)]) simp
  note step = foreign_kept [OF Cons.prems(1) assms(2,3) this]
  have rest: "s' = ?s \<or> s' = snd (map_prog (\<lambda>(t, act). run_table (db_storage_of S) t act) ops ?s)"
    using Cons.prems(4) p by (simp add: bind_run ret_run split: sum.split)
  have "sorted (map fst ops)" "\<forall>(t, act) \<in> set ops. keeps_to_own S act" using Cons.prems(2,3) by simp_all
  note later = Cons.IH [OF step(1) this]
  show ?case
  proof (cases "s' = ?s")
    case True
    then show ?thesis using step p by auto
  next
    case False
    then have "s' = snd (map_prog (\<lambda>(t, act). run_table (db_storage_of S) t act) ops ?s)" using rest by blast
    from later [OF this] step(2) p show ?thesis by auto
  qed
qed (simp add: ret_run)

lemma rows_deleted_ok: "db_ok S s \<Longrightarrow> db_ok S (snd (db_run True (on_store (delete_rows P)) s))"
  by (auto simp: db_ok_def db_run_quiet transact_def on_store_def zoom_run delete_rows_def distinct_kept map_of_kept split: option.splits if_splits)

lemma table_stays_ok:
  assumes "db_ok S s" and "\<forall>op. act = Keyed op \<longrightarrow> op_ok (\<lambda>sid. sid \<noteq> [] \<and> fits S sid) (\<lambda>e. 1 \<le> ttl_or (ds_expiration S) e) op"
  shows "db_ok S (snd (run_table (db_storage_of S) t act s))"
proof (cases act)
  case (Keyed op)
  then show ?thesis using db_store.op_run(3) [OF assms(1), of op t] assms(2)
    by (simp add: run_table_def bind_run ret_run db_storage_of_def split: sum.split)
next
  case (Scan m)
  have "snd (db_scan_keys S t m s) = s" using rows_selected [OF db_ok_facts(2) [OF assms(1)]]
    by (simp add: db_scan_keys_def Let_def bind_run ret_run split: sum.split)
  then show ?thesis using assms(1) by (simp add: Scan run_table_def db_storage_of_def bind_run ret_run split: sum.split)
next
  case (DeletePattern pattern)
  have "db_ok S (snd (db_delete_pattern S t pattern s))"
    using assms(1) rows_deleted_ok rows_selected [OF db_ok_facts(2) [OF assms(1)]]
    by (auto simp: db_delete_pattern_def Let_def bind_run ret_run split: sum.split)
  then show ?thesis by (simp add: DeletePattern run_table_def db_storage_of_def bind_run ret_run split: sum.split)
qed

lemma tables_stay_ok:
  assumes "db_ok S s" and "\<forall>(t, act) \<in> set ops. \<forall>op. act = Keyed op \<longrightarrow> op_ok (\<lambda>sid. sid \<noteq> [] \<and> fits S sid) (\<lambda>e. 1 \<le> ttl_or (ds_expiration S) e) op"
  shows "db_ok S (snd (map_prog (\<lambda>(t, act). run_table (db_storage_of S) t act) ops s))"
  using assms
proof (induction ops arbitrary: s)
  case (Cons p ops)
  then show ?case using table_stays_ok [of S s "snd p" "fst p"]
    by (cases p) (auto simp: bind_run ret_run split: sum.split)
qed (simp add: ret_run)

text \<open>
  C24. Stores of one table do not meet. Take a storage and another whose prefix is unrelated: neither of the
  two prefixes begins with the other. Whatever sequence of operations the first does at increasing times, the ten keyed ones
  with any ids (over-long ones, stored under a digest, and a drawn one included), scans, and deletions by
  patterns that begin with its own prefix, and even if one of them raises, the second sees the entries
  it saw, values and deadlines, from then on, and its rows stay well-formed: under one key, fitting
  the column, naming the user of their value. A deletion by a pattern that does not begin with the storage's own prefix is excluded:
  the code does not restrict it, and it removes rows of any storage. While the first uses ids
  that fit the column its own rows stay well-formed too.
\<close>

theorem storages_keep_apart:
  assumes "db_ok S' s" and "apart S S'" and "prefix_ok S" and "sorted (map fst ops)" and "\<forall>(t, act) \<in> set ops. keeps_to_own S act"
    and "s' = snd (map_prog (\<lambda>(t, act). run_table (db_storage_of S) t act) ops s)"
  shows "db_ok S' s' \<and> (\<forall>t'. (\<forall>(t, act) \<in> set ops. t \<le> t') \<longrightarrow> db_view S' t' s' = db_view S' t' s)
    \<and> (db_ok S s \<longrightarrow> (\<forall>(t, act) \<in> set ops. \<forall>op. act = Keyed op \<longrightarrow> op_ok (\<lambda>sid. sid \<noteq> [] \<and> fits S sid) (\<lambda>e. 1 \<le> ttl_or (ds_expiration S) e) op)
        \<longrightarrow> db_ok S s')"
  using tables_apart [OF assms] tables_stay_ok assms(6) by blast

section \<open>On concrete stores\<close>

definition demo_engine :: db_engine where
  "demo_engine = \<lparr>dialect = ''postgresql'', delete_returning = True, insert_returning = True\<rparr>"

definition demo_database :: database_config where
  "demo_database = \<lparr>purge_every = 1000, purge_batch_size = 100, engine = demo_engine\<rparr>"

definition demo_table :: "string \<Rightarrow> string db_storage" where
  "demo_table p = \<lparr>ds_database = demo_database, ds_prefix = p, ds_expiration = 60, ds_uuid = ''u'', ds_user_id = (\<lambda>_. None)\<rparr>"

definition empty_database :: "'a database_store" where
  "empty_database = \<lparr>tables = \<lparr>store_table = [], counter_table = []\<rparr>, writes_since_purge = 0, upcoming = []\<rparr>"

lemma demo_table_sel [simp]: "ds_prefix (demo_table p) = p" "ds_expiration (demo_table p) = 60" "ds_database (demo_table p) = demo_database"
  "ds_user_id (demo_table p) = (\<lambda>_. None)"
  by (simp_all add: demo_table_def)

lemma empty_database_ok: "prefix_ok S \<Longrightarrow> db_ok S empty_database"
  by (simp add: db_ok_def empty_database_def)

lemma empty_database_view [simp]: "db_view S t empty_database = (\<lambda>_. None)"
  by (simp add: db_view_def row_of_def empty_database_def row_view_def fun_eq_iff)

lemma demo_prefixes: "prefix_ok (demo_table ''s:'')" "prefix_ok (demo_table ''c:'')" "fits (demo_table ''s:'') ''k''"
  by (simp_all add: prefix_ok_def fits_def DATABASE_KEY_MAX_LENGTH_def)


text \<open>After sixty seconds the deletion of an entry is answered differently by the two.\<close>

lemma ended_entry_deleted:
  "fst (map_prog (\<lambda>(t, op). run_op (mem_storage demo_config) t op)
      [(0, OpClaim ''k'' ''a'' (Some 60)), (60000001, OpDelete ''k'')] mem_store_init) = Inr [Yes True, Yes True]"
  "fst (map_prog (\<lambda>(t, op). run_op (db_storage_of (demo_table ''s:'')) t op)
      [(0, OpClaim ''k'' ''a'' (Some 60)), (60000001, OpDelete ''k'')] empty_database) = Inr [Yes True, Yes False]"
proof -
  show "fst (map_prog (\<lambda>(t, op). run_op (mem_storage demo_config) t op)
      [(0, OpClaim ''k'' ''a'' (Some 60)), (60000001, OpDelete ''k'')] mem_store_init) = Inr [Yes True, Yes True]"
    by code_simp
  show "fst (map_prog (\<lambda>(t, op). run_op (db_storage_of (demo_table ''s:'')) t op)
      [(0, OpClaim ''k'' ''a'' (Some 60)), (60000001, OpDelete ''k'')] empty_database) = Inr [Yes True, Yes False]"
    using db_store.ops_run_exactly [where S = "demo_table ''s:''" and s = empty_database and start = 0
        and ops = "[(0, OpClaim ''k'' ''a'' (Some 60)), (60000001, OpDelete ''k'')]"]
      empty_database_ok [OF demo_prefixes(1)] demo_prefixes(3)
    by (simp add: ttl_or_def live_at_def due_ms_def db_storage_of_def del: map_prog.simps)
qed

theorem storages_keep_apart_witness:
  "db_view (demo_table ''c:'') 9 (snd (map_prog (\<lambda>(t, act). run_table (db_storage_of (demo_table ''s:'')) t act)
      [(0, Keyed (OpCreate ''a'' ''k'' None)), (4, Keyed (OpDelete ''k'')), (6, DeletePattern ''s:*''), (7, Scan None)] empty_database)) = (\<lambda>_. None)"
  using storages_keep_apart [where S = "demo_table ''s:''" and S' = "demo_table ''c:''" and s = empty_database
      and ops = "[(0, Keyed (OpCreate ''a'' ''k'' None)), (4, Keyed (OpDelete ''k'')), (6, DeletePattern ''s:*''), (7, Scan None)]",
      OF empty_database_ok [OF demo_prefixes(2)] _ demo_prefixes(1) _ _ refl]
  by (simp add: apart_def keeps_to_own_def del: map_prog.simps)

end
