(* ===== verification/DatabaseRaces.thy ===== *)
theory DatabaseRaces
  imports StoreSpec
begin

text \<open>
  The database backends among other workers: what a modify and a retried transaction come to when
  others write in between, when a purge ends and what it removes, and that the statements chosen for a
  database make no difference.
\<close>

section \<open>Modify\<close>

definition row_at :: "string \<Rightarrow> 'a db_tables \<Rightarrow> 'a store_row option" where
  "row_at key d = map_of (store_table d) key"

text \<open>
  Between two of the store's transactions other workers may do anything to the tables, as long as their
  transactions and the store's own are not rolled back and keys stay unique. \<open>versioned\<close> is what the
  version column stands for: while the row is there, a writer that changes its value changes its version.
\<close>

definition versioned :: "string \<Rightarrow> ('a db_tables \<Rightarrow> 'a db_tables) \<Rightarrow> bool" where
  "versioned key g \<longleftrightarrow> (\<forall>d r r'. distinct (map fst (store_table d)) \<longrightarrow> row_at key d = Some r \<longrightarrow> row_at key (g d) = Some r' \<longrightarrow>
     sr_version r' = sr_version r \<longrightarrow> sr_value r' = sr_value r)"

definition no_rollbacks :: "(('a db_tables \<Rightarrow> 'a db_tables) \<times> db_error option) list \<Rightarrow> bool" where
  "no_rollbacks es \<longleftrightarrow> (\<forall>(g, e) \<in> set es. e = None
     \<and> (\<forall>d. distinct (map fst (store_table d)) \<longrightarrow> distinct (map fst (store_table (g d)))))"

text \<open>What other workers do right before the \<open>i\<close>-th transaction.\<close>

definition writer_at :: "nat \<Rightarrow> 'a database_store \<Rightarrow> 'a db_tables \<Rightarrow> 'a db_tables" where
  "writer_at i s = (if i < length (upcoming s) then fst (upcoming s ! i) else id)"

definition advance :: "'a database_store \<Rightarrow> 'a database_store" where
  "advance s = (case upcoming s of [] \<Rightarrow> s | (g, _) # es \<Rightarrow> s\<lparr>tables := g (tables s), upcoming := es\<rparr>)"

lemma advance_sel: "tables (advance s) = after_others (take 1 (upcoming s)) (tables s)" "upcoming (advance s) = drop 1 (upcoming s)"
  by (auto simp: advance_def after_others_def split: list.split)

lemma db_run_advance:
  assumes "no_rollbacks (upcoming s)"
  shows "db_run w work s = transact w work (advance s)"
proof (cases "upcoming s")
  case (Cons p es)
  then show ?thesis using assms
    by (cases p) (auto simp: db_run_def DATABASE_TRANSACTION_ATTEMPTS_def eval_nat_numeral next_attempt_def advance_def no_rollbacks_def)
qed (simp add: db_run_quiet advance_def)

lemma advance_ok:
  assumes "no_rollbacks (upcoming s)" and "distinct (map fst (store_table (tables s)))"
  shows "no_rollbacks (upcoming (advance s))" and "distinct (map fst (store_table (tables (advance s))))"
    and "versioned key (writer_at 0 s) \<Longrightarrow> row_at key (tables s) = Some r \<Longrightarrow> row_at key (tables (advance s)) = Some r' \<Longrightarrow>
      sr_version r' = sr_version r \<Longrightarrow> sr_value r' = sr_value r"
proof -
  have "no_rollbacks (upcoming (advance s)) \<and> distinct (map fst (store_table (tables (advance s)))) \<and> tables (advance s) = writer_at 0 s (tables s)"
  proof (cases "upcoming s")
    case (Cons p es)
    obtain g e where p: "p = (g, e)" by (cases p)
    have "no_rollbacks es" "distinct (map fst (store_table (g (tables s))))" using assms Cons p by (auto simp: no_rollbacks_def)
    then show ?thesis using Cons p by (simp add: advance_def writer_at_def)
  next
    case Nil
    then show ?thesis using assms by (simp add: advance_def writer_at_def)
  qed
  then show "no_rollbacks (upcoming (advance s))" and "distinct (map fst (store_table (tables (advance s))))"
    and "versioned key (writer_at 0 s) \<Longrightarrow> row_at key (tables s) = Some r \<Longrightarrow> row_at key (tables (advance s)) = Some r' \<Longrightarrow>
      sr_version r' = sr_version r \<Longrightarrow> sr_value r' = sr_value r"
    using assms(2) unfolding versioned_def by (blast, blast, metis)
qed

lemma writer_advance: "writer_at i (advance s) = writer_at (Suc i) s"
  by (cases "upcoming s") (auto simp: writer_at_def advance_def)

definition live_in :: "int \<Rightarrow> string \<Rightarrow> 'a db_tables \<Rightarrow> 'a store_row \<Rightarrow> bool" where
  "live_in clock key d r \<longleftrightarrow> row_at key d = Some r \<and> now_ms clock < sr_expires r"

text \<open>The row of a key replaced, every other row kept.\<close>

definition put_row :: "string \<Rightarrow> 'a store_row \<Rightarrow> 'a db_tables \<Rightarrow> 'a db_tables" where
  "put_row key r d = d\<lparr>store_table := map (\<lambda>(k, x). (k, if k = key then r else x)) (store_table d)\<rparr>"

definition rewritten :: "'a db_storage \<Rightarrow> int \<Rightarrow> 'a \<Rightarrow> bool \<Rightarrow> int option \<Rightarrow> 'a store_row \<Rightarrow> 'a store_row" where
  "rewritten S clock v reset exp r = r\<lparr>sr_value := v, sr_user_id := user_column S v, sr_version := sr_version r + 1,
     sr_expires := (if reset then row_expiry S clock exp else sr_expires r)\<rparr>"

lemma read_step:
  assumes "no_rollbacks (upcoming s)" and "distinct (map fst (store_table (tables s)))"
  shows "db_run False (on_store (select_rows (live_row clock key))) s
    = (Inr (case row_at key (tables (advance s)) of None \<Rightarrow> [] | Some r \<Rightarrow> if now_ms clock < sr_expires r then [(key, r)] else []), advance s)"
  unfolding db_run_advance [OF assms(1)] transact_def row_at_def
  by (simp add: on_store_def zoom_run select_rows_def gets_run live_row_def filter_key [OF advance_ok(2) [OF assms]])

lemma guarded_step:
  assumes "no_rollbacks (upcoming s)" and "distinct (map fst (store_table (tables s)))" and "row_at key (tables s) = Some seen"
  shows "(\<exists>r. live_in clock key (tables (advance s)) r \<and> sr_version r = sr_version seen
        \<and> (versioned key (writer_at 0 s) \<longrightarrow> sr_value r = sr_value seen)
        \<and> db_run True (guarded_update S clock key seen v reset exp) s
          = (Inr 1, (advance s)\<lparr>tables := put_row key (rewritten S clock v reset exp r) (tables (advance s))\<rparr>))
    \<or> (\<forall>r. live_in clock key (tables (advance s)) r \<longrightarrow> sr_version r \<noteq> sr_version seen)
        \<and> db_run True (guarded_update S clock key seen v reset exp) s = (Inr 0, advance s)"
proof -
  let ?s = "advance s" let ?t = "store_table (tables ?s)"
  let ?P = "\<lambda>k r. live_row clock key k r \<and> sr_version r = sr_version seen"
  let ?g = "\<lambda>r. r\<lparr>sr_value := v, sr_user_id := user_column S v, sr_version := sr_version seen + 1,
      sr_expires := (if reset then row_expiry S clock exp else sr_expires r)\<rparr>"
  note ok = advance_ok [OF assms(1,2)]
  have P: "?P = (\<lambda>k r. k = key \<and> now_ms clock < sr_expires r \<and> sr_version r = sr_version seen)" by (simp add: live_row_def fun_eq_iff)
  have m: "matched ?P ?t = (case row_at key (tables ?s) of None \<Rightarrow> 0 | Some r \<Rightarrow> if now_ms clock < sr_expires r \<and> sr_version r = sr_version seen then 1 else 0)"
    unfolding P by (simp add: matched_key [OF ok(2)] row_at_def)
  have run: "db_run True (guarded_update S clock key seen v reset exp) s
      = (Inr (matched ?P ?t), ?s\<lparr>tables := (tables ?s)\<lparr>store_table := map (\<lambda>(k, r). (k, if ?P k r then ?g r else r)) ?t\<rparr>\<rparr>)"
    unfolding db_run_advance [OF assms(1)] transact_def guarded_update_def by (simp add: on_store_def zoom_run update_rows_def)
  show ?thesis
  proof (cases "\<exists>r. live_in clock key (tables ?s) r \<and> sr_version r = sr_version seen")
    case True
    then obtain r where r: "live_in clock key (tables ?s) r" "sr_version r = sr_version seen" by blast
    have "x = r" if "(key, x) \<in> set ?t" for x using that r(1) ok(2) by (simp add: live_in_def row_at_def map_of_is_SomeI)
    then have "map (\<lambda>(k, x). (k, if ?P k x then ?g x else x)) ?t = map (\<lambda>(k, x). (k, if k = key then rewritten S clock v reset exp r else x)) ?t"
      using r by (intro map_cong) (auto simp: live_row_def live_in_def rewritten_def)
    moreover have "versioned key (writer_at 0 s) \<longrightarrow> sr_value r = sr_value seen" using ok(3) [OF _ assms(3) _ r(2)] r(1) by (simp add: live_in_def)
    ultimately show ?thesis using run m r by (intro disjI1 exI [of _ r]) (auto simp: live_in_def put_row_def)
  next
    case False
    then have "map (\<lambda>(k, x). (k, if ?P k x then ?g x else x)) ?t = ?t"
      using ok(2) by (intro map_idI) (auto simp: live_row_def live_in_def row_at_def)
    then show ?thesis using run m False by (intro disjI2) (auto simp: live_in_def split: option.split)
  qed
qed


text \<open>The tables that the \<open>i\<close>-th transaction finds, when the store itself has written nothing yet.\<close>

definition found_at :: "nat \<Rightarrow> 'a database_store \<Rightarrow> 'a db_tables" where
  "found_at i s = after_others (take i (upcoming s)) (tables s)"

lemma found_advance: "found_at i (advance s) = found_at (Suc i) s"
  by (cases "upcoming s") (auto simp: found_at_def advance_def after_others_def)

lemma found_first: "tables s = found_at 0 s" "tables (advance s) = found_at 1 s"
  by (simp_all add: found_at_def advance_sel after_others_def)

definition overtaken :: "int \<Rightarrow> string \<Rightarrow> 'a db_tables \<Rightarrow> 'a db_tables \<Rightarrow> bool" where
  "overtaken clock key d d' \<longleftrightarrow> (\<exists>r. live_in clock key d r \<and> (\<forall>r'. live_in clock key d' r' \<longrightarrow> sr_version r' \<noteq> sr_version r))"

text \<open>What a modify may come to.\<close>

definition modify_outcome :: "nat \<Rightarrow> 'a db_storage \<Rightarrow> int \<Rightarrow> string \<Rightarrow> ('a \<Rightarrow> 'a \<times> string) \<Rightarrow> bool \<Rightarrow> int option \<Rightarrow>
    'a database_store \<Rightarrow> (exc + ('a \<times> string) option) \<times> 'a database_store \<Rightarrow> bool" where
  "modify_outcome n S clock key ch reset exp s out \<longleftrightarrow>
     (case fst out of
        Inr (Some y) \<Rightarrow> \<exists>i seen r. live_in clock key (found_at i s) seen \<and> y = ch (sr_value seen)
           \<and> live_in clock key (found_at (Suc i) s) r \<and> sr_version r = sr_version seen
           \<and> (versioned key (writer_at i s) \<longrightarrow> sr_value r = sr_value seen)
           \<and> tables (snd out) = put_row key (rewritten S clock (fst y) reset exp r) (found_at (Suc i) s)
      | Inr None \<Rightarrow> \<exists>i. (\<forall>r. \<not> live_in clock key (found_at i s) r) \<and> tables (snd out) = found_at i s
      | Inl e \<Rightarrow> e = RuntimeError (''Could not update '' @ str_repr key @ '': it changed under every attempt'')
           \<and> tables (snd out) = found_at (2 * n) s
           \<and> (\<forall>j < n. overtaken clock key (found_at (2 * j + 1) s) (found_at (2 * j + 2) s)))"

lemma modify_outcome_later:
  assumes "modify_outcome n S clock key ch reset exp (advance (advance s)) out" and "overtaken clock key (found_at 1 s) (found_at 2 s)"
  shows "modify_outcome (Suc n) S clock key ch reset exp s out"
proof -
  have "overtaken clock key (found_at (2 * j + 1) s) (found_at (2 * j + 2) s)"
    if "\<forall>j < n. overtaken clock key (found_at (Suc (Suc (2 * j + 1))) s) (found_at (Suc (Suc (2 * j + 2))) s)" "j < Suc n" for j
    using that assms(2) by (cases j) (auto simp: numeral_2_eq_2)
  note over = this
  show ?thesis
  proof (cases "fst out")
    case (Inl e)
    then show ?thesis using assms(1) over by (auto simp: modify_outcome_def found_advance)
  next
    case (Inr y)
    then show ?thesis using assms(1) unfolding modify_outcome_def found_advance writer_advance by (cases y) (simp only: sum.case option.case, blast)+
  qed
qed

lemma modify_attempts_outcome:
  assumes "no_rollbacks (upcoming s)" and "distinct (map fst (store_table (tables s)))"
  shows "modify_outcome n S clock key ch reset exp s (modify_attempts n S clock key ch reset exp s)"
  using assms
proof (induction n arbitrary: s)
  case 0
  then show ?case by (simp add: modify_outcome_def raise_run found_first)
next
  case (Suc n)
  let ?s = "advance s"
  note ok = advance_ok(1,2) [OF Suc.prems] and ok2 = advance_ok(1,2) [OF advance_ok(1,2) [OF Suc.prems]]
  note read = read_step [OF Suc.prems, of clock]
  show ?case
  proof (cases "\<exists>r. live_in clock key (tables ?s) r")
    case False
    then have "modify_attempts (Suc n) S clock key ch reset exp s = (Inr None, ?s)"
      using read by (auto simp: bind_run ret_run live_in_def split: option.split)
    then show ?thesis using False by (auto simp: modify_outcome_def found_first(2) intro!: exI [of _ 1])
  next
    case True
    then obtain r where r: "live_in clock key (tables ?s) r" by blast
    then have row: "row_at key (tables ?s) = Some r" by (simp add: live_in_def)
    have run: "modify_attempts (Suc n) S clock key ch reset exp s
      = bind (db_run True (guarded_update S clock key r (fst (ch (sr_value r))) reset exp))
          (\<lambda>n'. if n' \<noteq> 0 then ret (Some (ch (sr_value r))) else modify_attempts n S clock key ch reset exp) ?s"
      using read r by (simp add: bind_run live_in_def)
    from guarded_step [OF ok row, where S = S and clock = clock and v = "fst (ch (sr_value r))" and reset = reset and exp = exp]
    show ?thesis
    proof (elim disjE exE conjE)
      fix r' assume "live_in clock key (tables (advance ?s)) r'" "sr_version r' = sr_version r" "versioned key (writer_at 0 ?s) \<longrightarrow> sr_value r' = sr_value r"
        and "db_run True (guarded_update S clock key r (fst (ch (sr_value r))) reset exp) ?s
          = (Inr 1, (advance ?s)\<lparr>tables := put_row key (rewritten S clock (fst (ch (sr_value r))) reset exp r') (tables (advance ?s))\<rparr>)"
      moreover have "tables (advance ?s) = found_at 2 s" by (simp add: found_first(2) found_advance numeral_2_eq_2)
      ultimately show ?thesis unfolding run using r
        by (simp add: modify_outcome_def bind_run ret_run found_first(2) writer_advance numeral_2_eq_2)
          (rule exI [of _ "Suc 0"], rule exI [of _ r], blast)
    next
      assume lost: "\<forall>r'. live_in clock key (tables (advance ?s)) r' \<longrightarrow> sr_version r' \<noteq> sr_version r"
        and "db_run True (guarded_update S clock key r (fst (ch (sr_value r))) reset exp) ?s = (Inr 0, advance ?s)"
      then have "modify_attempts (Suc n) S clock key ch reset exp s = modify_attempts n S clock key ch reset exp (advance ?s)"
        unfolding run by (simp add: bind_run)
      moreover have "overtaken clock key (found_at 1 s) (found_at 2 s)"
        using lost r by (auto simp: overtaken_def found_first(2) found_advance numeral_2_eq_2)
      ultimately show ?thesis using modify_outcome_later [OF Suc.IH [OF ok2]] by simp
    qed
  qed
qed

text \<open>
  C9. A modify of the database store while other workers write. Whatever they do between its
  transactions, short of rolling one of them back or storing a key twice, a modify comes to one of three
  outcomes. It finds nothing alive at the moment it looks, and writes nothing. Or it applies its change to
  the value it read from a live row and writes that, with the version raised by one, into a live row that
  still has the version it read, leaving every other row as it then is; if the writers between this
  reading and this writing changed no value without changing its version, the row it writes over still
  has the value that was read, so that no update is lost. Or it has been overtaken, by a new version or
  the end of the row, in each of its fifty attempts, and then raises and leaves everything to the others.
  A worker that deletes the row and creates it anew starts its versions over and is one that the guard
  does not recognise: what it stored can be overwritten with a change of the old value.
\<close>

theorem modify_loses_no_update:
  assumes "no_rollbacks (upcoming s)" and "distinct (map fst (store_table (tables s)))"
  shows "modify_outcome DATABASE_MODIFY_MAX_ATTEMPTS S clock (db_key S sid) ch reset exp s (db_modify S clock sid ch reset exp s)"
  unfolding db_modify_def by (rule modify_attempts_outcome [OF assms])


text \<open>
  A worker that removes a row and creates it again starts its versions anew, so it is not one that the
  guard recognises: a modify that read the old row then puts its change of the old value over the new one.
\<close>

definition old_row :: "string store_row" where
  "old_row = \<lparr>sr_value = ''old'', sr_user_id = None, sr_version = 1, sr_expires = 100\<rparr>"

definition one_row :: "string store_row \<Rightarrow> string db_tables" where
  "one_row r = \<lparr>store_table = [(''s:k'', r)], counter_table = []\<rparr>"

definition recreates :: "string db_tables \<Rightarrow> string db_tables" where
  "recreates d = tables (snd (bind (db_remove (demo_table ''s:'') 0 ''k'' VNone) (\<lambda>_. db_create (demo_table ''s:'') 0 ''new'' ''k'' None)
     \<lparr>tables = d, writes_since_purge = 0, upcoming = []\<rparr>))"

definition raced :: "(string db_tables \<Rightarrow> string db_tables) \<Rightarrow> string database_store" where
  "raced g = \<lparr>tables = one_row old_row, writes_since_purge = 0, upcoming = [(id, None), (g, None)]\<rparr>"

lemma demo_key: "db_key (demo_table ''s:'') ''k'' = ''s:k''"
  using key_of_fitting [OF demo_prefixes(3)] by simp

lemma recreates_run: "recreates (one_row old_row) = one_row \<lparr>sr_value = ''new'', sr_user_id = None, sr_version = 1, sr_expires = 60000\<rparr>"
  by (simp add: recreates_def one_row_def old_row_def db_remove_def db_create_def demo_key bind_run ret_run db_run_quiet transact_def on_store_def zoom_run
      run_upsert_def catch_run update_rows_def delete_rows_def insert_into_def matched_def live_row_def now_ms_def note_write_def Let_def
      modifies_run gets_run demo_database_def row_expiry_def expires_in_def ttl_or_def user_column_def)

lemma recreation_is_overwritten:
  "let (answer, s) = db_modify (demo_table ''s:'') 0 ''k'' (\<lambda>v. (v @ ''!'', [])) False None (raced recreates)
   in answer = Inr (Some (''old!'', [])) \<and> map_option sr_value (row_at ''s:k'' (tables s)) = Some ''old!''
      \<and> map_option sr_value (row_at ''s:k'' (recreates (tables (raced recreates)))) = Some ''new''"
proof -
  obtain n where n: "DATABASE_MODIFY_MAX_ATTEMPTS = Suc n" using that [of 49] by (simp add: DATABASE_MODIFY_MAX_ATTEMPTS_def)
  have run: "db_run w work s = transact w work s'" if "next_attempt s = (None, s')" for w work and s s' :: "string database_store"
    using that by (simp add: db_run_def DATABASE_TRANSACTION_ATTEMPTS_def eval_nat_numeral)
  let ?s1 = "\<lparr>tables = one_row old_row, writes_since_purge = 0, upcoming = [(recreates, None)]\<rparr>"
  let ?row = "\<lparr>sr_value = ''old!'', sr_user_id = None, sr_version = 2, sr_expires = 60000\<rparr>"
  let ?s2 = "\<lparr>tables = one_row ?row, writes_since_purge = 0, upcoming = []\<rparr>"
  have first: "next_attempt (raced recreates) = (None, ?s1)" by (simp add: raced_def next_attempt_def)
  have got: "db_run False (on_store (select_rows (live_row 0 ''s:k''))) (raced recreates) = (Inr [(''s:k'', old_row)], ?s1)"
    unfolding run [OF first] transact_def by (simp add: on_store_def zoom_run select_rows_def gets_run one_row_def live_row_def old_row_def now_ms_def)
  have second: "next_attempt ?s1 = (None, ?s1\<lparr>tables := one_row \<lparr>sr_value = ''new'', sr_user_id = None, sr_version = 1, sr_expires = 60000\<rparr>, upcoming := []\<rparr>)"
    by (simp add: next_attempt_def recreates_run)
  have put: "db_run True (guarded_update (demo_table ''s:'') 0 ''s:k'' old_row ''old!'' False None) ?s1 = (Inr 1, ?s2)"
    unfolding run [OF second] transact_def by (simp add: guarded_update_def on_store_def zoom_run update_rows_def matched_def one_row_def live_row_def old_row_def now_ms_def user_column_def)
  have "db_modify (demo_table ''s:'') 0 ''k'' (\<lambda>v. (v @ ''!'', [])) False None (raced recreates) = (Inr (Some (''old!'', [])), ?s2)"
    using got put by (simp add: db_modify_def n demo_key bind_run ret_run old_row_def)
  then show ?thesis by (simp add: row_at_def raced_def recreates_run) (simp add: one_row_def)
qed


definition writes_meanwhile :: "string db_tables \<Rightarrow> string db_tables" where
  "writes_meanwhile d = d\<lparr>store_table := map (\<lambda>(k, r). (k, if k = ''s:k'' then r\<lparr>sr_value := ''mid'', sr_version := sr_version r + 1\<rparr> else r)) (store_table d)\<rparr>"

lemma meanwhile_versioned: "no_rollbacks [(id, None), (writes_meanwhile, None)]" "versioned ''s:k'' writes_meanwhile"
  by (auto simp: no_rollbacks_def versioned_def writes_meanwhile_def row_at_def map_of_changed simp del: map_map)

theorem modify_loses_no_update_witness:
  "modify_outcome DATABASE_MODIFY_MAX_ATTEMPTS (demo_table ''s:'') 0 ''s:k'' (\<lambda>v. (v @ ''!'', [])) False None (raced writes_meanwhile)
     (db_modify (demo_table ''s:'') 0 ''k'' (\<lambda>v. (v @ ''!'', [])) False None (raced writes_meanwhile))"
  using modify_loses_no_update [where S = "demo_table ''s:''" and sid = "''k''" and s = "raced writes_meanwhile" and clock = 0
      and ch = "\<lambda>v. (v @ ''!'', [])" and reset = False and exp = None] meanwhile_versioned(1)
  by (simp add: demo_key raced_def one_row_def)

section \<open>Purging\<close>

lemma first_keys:
  assumes "distinct (map fst F)" and "b = set (take l (map fst F))"
  shows "filter (\<lambda>(k, r). k \<in> b) F = take l F" and "filter (\<lambda>(k, r). k \<notin> b) F = drop l F"
proof -
  have "F = take l F @ drop l F" by simp
  moreover have "\<forall>(k, r) \<in> set (take l F). k \<in> b" by (force simp: assms(2) take_map)
  moreover have "\<forall>(k, r) \<in> set (drop l F). k \<notin> b"
    using assms(1) set_take_disj_set_drop_if_distinct [of "map fst F" l l] by (force simp: assms(2) drop_map take_map)
  ultimately have "filter (\<lambda>(k, r). k \<in> b) (take l F @ drop l F) = take l F" "filter (\<lambda>(k, r). k \<notin> b) (take l F @ drop l F) = drop l F"
    unfolding filter_append by (auto simp: filter_id_conv filter_empty_conv)
  then show "filter (\<lambda>(k, r). k \<in> b) F = take l F" "filter (\<lambda>(k, r). k \<notin> b) F = drop l F" by simp_all
qed

lemma batch_gone:
  assumes "distinct (map fst t)" and "F = filter (\<lambda>(k, r). P k r) t" and "b = set (take l (map fst F))"
  shows "filter (\<lambda>(k, r). k \<in> b \<and> P k r) t = take l F"
    and "filter (\<lambda>(k, r). P k r) (filter (\<lambda>(k, r). \<not> (k \<in> b \<and> P k r)) t) = drop l F"
    and "filter (\<lambda>(k, r). \<not> P k r) (filter (\<lambda>(k, r). \<not> (k \<in> b \<and> P k r)) t) = filter (\<lambda>(k, r). \<not> P k r) t"
proof -
  have d: "distinct (map fst F)" unfolding assms(2) by (rule distinct_kept [OF assms(1)])
  have "filter (\<lambda>(k, r). k \<in> b \<and> P k r) t = filter (\<lambda>(k, r). k \<in> b) F"
    and "filter (\<lambda>(k, r). P k r) (filter (\<lambda>(k, r). \<not> (k \<in> b \<and> P k r)) t) = filter (\<lambda>(k, r). k \<notin> b) F"
    and rest: "filter (\<lambda>(k, r). \<not> P k r) (filter (\<lambda>(k, r). \<not> (k \<in> b \<and> P k r)) t) = filter (\<lambda>(k, r). \<not> P k r) t"
    unfolding assms(2) by (induction t) auto
  then show "filter (\<lambda>(k, r). k \<in> b \<and> P k r) t = take l F"
    and "filter (\<lambda>(k, r). P k r) (filter (\<lambda>(k, r). \<not> (k \<in> b \<and> P k r)) t) = drop l F"
    using first_keys [OF d assms(3)] by simp_all
  show "filter (\<lambda>(k, r). \<not> P k r) (filter (\<lambda>(k, r). \<not> (k \<in> b \<and> P k r)) t) = filter (\<lambda>(k, r). \<not> P k r) t" by (rule rest)
qed

lemma filter_none: "filter (\<lambda>(k, r). P k r) t = [] \<Longrightarrow> filter (\<lambda>(k, r). \<not> P k r) t = t"
  by (induction t) (auto split: if_splits)

text \<open>The loop over one table, which is \<open>rows\<close> of the state, in batches of at most \<open>lim\<close>.\<close>

lemma purge_loop:
  fixes rows :: "'w \<Rightarrow> (string \<times> 'r) list"
  assumes "\<And>s. Q s \<Longrightarrow> sel s = (Inr (take (nat lim) (map fst (filter (\<lambda>(k, r). P k r) (rows s)))), s)"
    and "\<And>s b. Q s \<Longrightarrow> del b s = (Inr (matched (\<lambda>k r. k \<in> set b \<and> P k r) (rows s)), put (filter (\<lambda>(k, r). \<not> (k \<in> set b \<and> P k r)) (rows s)) s)"
    and "\<And>s t. Q s \<Longrightarrow> Q (put t s)" and "\<And>s t. rows (put t s) = t" and "\<And>s t u. put t (put u s) = put t s" and "\<And>s. put (rows s) s = s"
    and "1 \<le> lim" and "Q s" and "distinct (map fst (rows s))"
    and "int (length (filter (\<lambda>(k, r). P k r) (rows s))) div lim < int n"
  shows "purge_batches n sel del lim acc s
    = (Inr (acc + int (length (filter (\<lambda>(k, r). P k r) (rows s))), True), put (filter (\<lambda>(k, r). \<not> P k r) (rows s)) s)"
  using assms(8-)
proof (induction n arbitrary: s acc)
  case 0
  then show ?case using assms(7) pos_imp_zdiv_nonneg_iff [of lim] by (simp add: not_le [symmetric])
next
  case (Suc n)
  let ?F = "filter (\<lambda>(k, r). P k r) (rows s)" let ?b = "take (nat lim) (map fst ?F)"
  let ?s = "put (filter (\<lambda>(k, r). \<not> (k \<in> set ?b \<and> P k r)) (rows s)) s"
  note gone = batch_gone [where P = P and l = "nat lim", OF Suc.prems(2) refl refl]
  have rest: "rows ?s = filter (\<lambda>(k, r). \<not> (k \<in> set ?b \<and> P k r)) (rows s)" by (rule assms(4))
  have m: "matched (\<lambda>k r. k \<in> set ?b \<and> P k r) (rows s) = (if int (length ?F) < lim then int (length ?F) else lim)"
    unfolding matched_def gone(1) using assms(7) by (auto simp: min_def)
  have b: "?b = [] \<longleftrightarrow> ?F = []" "int (length ?b) < lim \<longleftrightarrow> int (length ?F) < lim" using assms(7) by auto
  have run: "purge_batches (Suc n) sel del lim acc s = (if ?F = [] then (Inr (acc, True), s)
      else if int (length ?F) < lim then (Inr (acc + int (length ?F), True), ?s)
      else purge_batches n sel del lim (acc + lim) ?s)"
    unfolding purge_batches.simps bind_run assms(1) [OF Suc.prems(1)] fst_conv snd_conv sum.case
    by (simp only: b if_distrib [of "\<lambda>p. p s"] bind_run assms(2) [OF Suc.prems(1)] m fst_conv snd_conv sum.case ret_run) (simp add: ret_run)
  show ?case
  proof (cases "int (length ?F) < lim")
    case True
    then have none: "filter (\<lambda>(k, r). P k r) (rows ?s) = []" unfolding rest gone(2) by simp
    then have kept: "filter (\<lambda>(k, r). \<not> P k r) (rows ?s) = rows ?s" by (rule filter_none)
    have "filter (\<lambda>(k, r). \<not> P k r) (rows s) = filter (\<lambda>(k, r). \<not> P k r) (rows ?s)" unfolding rest by (rule gone(3) [symmetric])
    also have "\<dots> = rows ?s" by (rule kept)
    finally have all: "filter (\<lambda>(k, r). \<not> P k r) (rows s) = rows ?s" .
    show ?thesis
    proof (cases "?F = []")
      case True
      show ?thesis unfolding run filter_none [OF True] assms(6) using True by simp
    next
      case nonempty: False
      show ?thesis unfolding run all rest using nonempty True by simp
    qed
  next
    case False
    have len: "length (filter (\<lambda>(k, r). P k r) (rows ?s)) = length ?F - nat lim" unfolding rest gone(2) by simp
    have "int (length ?F - nat lim) = int (length ?F) - lim" using False assms(7) by (simp add: of_nat_diff nat_le_iff)
    moreover have "(int (length ?F) - lim + lim) div lim = (int (length ?F) - lim) div lim + 1" using assms(7) by (intro div_add_self2) simp
    ultimately have small: "int (length (filter (\<lambda>(k, r). P k r) (rows ?s))) div lim < int n"
      and sum: "acc + lim + int (length (filter (\<lambda>(k, r). P k r) (rows ?s))) = acc + int (length ?F)"
      using Suc.prems(3) unfolding len by simp_all
    have d: "distinct (map fst (rows ?s))" unfolding rest by (rule distinct_kept [OF Suc.prems(2)])
    have "filter (\<lambda>(k, r). \<not> P k r) (rows ?s) = filter (\<lambda>(k, r). \<not> P k r) (rows s)" unfolding rest by (rule gone(3))
    then have "purge_batches n sel del lim (acc + lim) ?s = (Inr (acc + int (length ?F), True), put (filter (\<lambda>(k, r). \<not> P k r) (rows s)) s)"
      using Suc.IH [OF assms(3) [OF Suc.prems(1)] d small] sum by (simp add: assms(5))
    then show ?thesis unfolding run using False assms(7) by auto
  qed
qed


definition set_counters :: "(string \<times> counter_row) list \<Rightarrow> 'a database_store \<Rightarrow> 'a database_store" where
  "set_counters t s = s\<lparr>tables := (tables s)\<lparr>counter_table := t\<rparr>\<rparr>"

lemma set_counters_sel [simp]: "upcoming (set_counters t s) = upcoming s" "counter_table (tables (set_counters t s)) = t"
  "store_table (tables (set_counters t s)) = store_table (tables s)"
  by (simp_all add: set_counters_def)

lemma purge_values_run:
  assumes "upcoming s = []" and "distinct (map fst (store_table (tables s)))" and "1 \<le> lim"
    and "int (length (filter (\<lambda>(k, r). expired_values clock k r) (store_table (tables s)))) div lim < int n"
  shows "purge_values n clock lim s = (Inr (int (length (filter (\<lambda>(k, r). expired_values clock k r) (store_table (tables s)))), True),
    set_store (filter (\<lambda>(k, r). \<not> expired_values clock k r) (store_table (tables s))) s)"
proof -
  have sel: "db_run False (on_store (some_keys (expired_values clock) lim)) s
      = (Inr (take (nat lim) (map fst (filter (\<lambda>(k, r). expired_values clock k r) (store_table (tables s))))), s)" if "upcoming s = []" for s :: "'a database_store"
    by (rule store_runs(2) [OF that]) (simp add: some_keys_def select_rows_def bind_run gets_run ret_run)
  have del: "db_run True (on_store (delete_rows (\<lambda>k r. k \<in> set b \<and> expired_values clock k r))) s
      = (Inr (matched (\<lambda>k r. k \<in> set b \<and> expired_values clock k r) (store_table (tables s))),
         set_store (filter (\<lambda>(k, r). \<not> (k \<in> set b \<and> expired_values clock k r)) (store_table (tables s))) s)" if "upcoming s = []" for s :: "'a database_store" and b
    by (rule store_runs(1) [OF that]) (simp add: delete_rows_def)
  show ?thesis unfolding purge_values_def
    by (rule trans [OF purge_loop [where rows = "\<lambda>s. store_table (tables s)" and put = set_store and Q = "\<lambda>s. upcoming s = []", OF sel del]])
       (use assms in \<open>simp_all add: set_store_def\<close>)
qed

lemma purge_counters_run:
  assumes "upcoming s = []" and "distinct (map fst (counter_table (tables s)))" and "1 \<le> lim"
    and "int (length (filter (\<lambda>(k, r). expired_counter clock k r) (counter_table (tables s)))) div lim < int n"
  shows "purge_counters n clock lim s = (Inr (int (length (filter (\<lambda>(k, r). expired_counter clock k r) (counter_table (tables s)))), True),
    set_counters (filter (\<lambda>(k, r). \<not> expired_counter clock k r) (counter_table (tables s))) s)"
proof -
  have sel: "db_run False (on_counters (some_keys (expired_counter clock) lim)) s
      = (Inr (take (nat lim) (map fst (filter (\<lambda>(k, r). expired_counter clock k r) (counter_table (tables s))))), s)" if "upcoming s = []" for s :: "'a database_store"
    by (rule counter_read [OF that]) (simp add: some_keys_def select_rows_def bind_run gets_run ret_run)
  have del: "db_run True (on_counters (delete_rows (\<lambda>k r. k \<in> set b \<and> expired_counter clock k r))) s
      = (Inr (matched (\<lambda>k r. k \<in> set b \<and> expired_counter clock k r) (counter_table (tables s))),
         set_counters (filter (\<lambda>(k, r). \<not> (k \<in> set b \<and> expired_counter clock k r)) (counter_table (tables s))) s)" if "upcoming s = []" for s :: "'a database_store" and b
    unfolding set_counters_def by (rule counter_write [OF that]) (simp add: delete_rows_def)
  show ?thesis unfolding purge_counters_def
    by (rule trans [OF purge_loop [where rows = "\<lambda>s. counter_table (tables s)" and put = set_counters and Q = "\<lambda>s. upcoming s = []", OF sel del]])
       (use assms in \<open>simp_all add: set_counters_def\<close>)
qed

text \<open>
  C26. A purge ends. Once it may take one batch more than the expired rows of a table fill, it comes to its
  end, has removed from both tables exactly the rows that have expired, and says how many they were. The one that
  goes with a write may be cut short or meet an error, and never fails the write.
\<close>

theorem purge_ends:
  assumes "upcoming s = []" and "distinct (map fst (store_table (tables s)))" and "distinct (map fst (counter_table (tables s)))"
    and "lim = (case batch_size of None \<Rightarrow> purge_batch_size D | Some b \<Rightarrow> if b = 0 then purge_batch_size D else b)" and "1 \<le> lim"
    and "int (length (filter (\<lambda>(k, r). expired_values clock k r) (store_table (tables s)))) div lim < int n"
    and "int (length (filter (\<lambda>(k, r). expired_counter clock k r) (counter_table (tables s)))) div lim < int n"
  shows "purge_expired D n clock batch_size s
      = (Inr (int (length (filter (\<lambda>(k, r). expired_values clock k r) (store_table (tables s))))
            + int (length (filter (\<lambda>(k, r). expired_counter clock k r) (counter_table (tables s)))), True),
         s\<lparr>tables := \<lparr>store_table = filter (\<lambda>(k, r). \<not> expired_values clock k r) (store_table (tables s)),
                      counter_table = filter (\<lambda>(k, r). \<not> expired_counter clock k r) (counter_table (tables s))\<rparr>\<rparr>)
    \<and> fst (note_write D clock other) = Inr ()"
proof
  let ?s = "set_store (filter (\<lambda>(k, r). \<not> expired_values clock k r) (store_table (tables s))) s"
  have "set_counters t (set_store t' s) = s\<lparr>tables := \<lparr>store_table = t', counter_table = t\<rparr>\<rparr>" for t t'
    by (simp add: set_counters_def set_store_def)
  then show "purge_expired D n clock batch_size s
      = (Inr (int (length (filter (\<lambda>(k, r). expired_values clock k r) (store_table (tables s))))
            + int (length (filter (\<lambda>(k, r). expired_counter clock k r) (counter_table (tables s)))), True),
         s\<lparr>tables := \<lparr>store_table = filter (\<lambda>(k, r). \<not> expired_values clock k r) (store_table (tables s)),
                      counter_table = filter (\<lambda>(k, r). \<not> expired_counter clock k r) (counter_table (tables s))\<rparr>\<rparr>)"
    using purge_values_run [OF assms(1,2,5,6)] purge_counters_run [of ?s lim clock n] assms(1,3,5,7)
    unfolding purge_expired_def assms(4) [symmetric] Let_def by (simp add: bind_run ret_run)
  show "fst (note_write D clock other) = Inr ()"
    by (simp add: note_write_def bind_run modifies_run gets_run ret_run catch_run Let_def split: sum.split)
qed


theorem purge_ends_witness:
  "fst (purge_expired demo_database 1 200000 None ((raced id)\<lparr>upcoming := []\<rparr>)) = Inr (1, True)
  \<and> fst (note_write demo_database 200000 (raced id)) = Inr ()"
proof -
  have e: "filter (\<lambda>(k, r). expired_values 200000 k r) (store_table (one_row old_row)) = [(''s:k'', old_row)]"
    "filter (\<lambda>(k, r). expired_counter 200000 k r) (counter_table (one_row old_row)) = []"
    by (simp_all add: one_row_def old_row_def expired_values_def now_ms_def)
  have "distinct (map fst (store_table (one_row old_row)))" "distinct (map fst (counter_table (one_row old_row)))" "purge_batch_size demo_database = 100"
    by (simp_all add: one_row_def demo_database_def)
  then show ?thesis
    using purge_ends [where s = "(raced id)\<lparr>upcoming := []\<rparr>" and batch_size = None and D = demo_database and lim = 100 and clock = 200000 and n = 1
      and other = "raced id"] e
    by (simp add: raced_def)
qed

section \<open>Transactions that are run again\<close>

text \<open>
  C25. Rolled back and run again. A transaction that the database rolls back over a deadlock, a lock
  timeout or a serialization failure fewer times than there are attempts takes effect exactly once,
  on what the other workers have left by then. When every attempt fails, the error is raised and of this
  transaction nothing remains; so it is at once for any other error.
\<close>

theorem transaction_applied_once:
  assumes "rolled_back es" and "upcoming s = es @ rest" and "out = db_run True work s"
  shows "(length es < DATABASE_TRANSACTION_ATTEMPTS \<longrightarrow> rest = (g, None) # later \<longrightarrow>
        (\<forall>x t. work (g (after_others es (tables s))) = (Inr x, t) \<longrightarrow>
           out = (Inr x, s\<lparr>tables := t, upcoming := later\<rparr>)))
    \<and> (length es = DATABASE_TRANSACTION_ATTEMPTS \<longrightarrow>
        out = (Inl (BackendError ''DBAPIError''), s\<lparr>tables := after_others es (tables s), upcoming := rest\<rparr>))
    \<and> (length es < DATABASE_TRANSACTION_ATTEMPTS \<longrightarrow> rest = (g, Some e) # later \<longrightarrow> is_integrity_error e \<or> \<not> retryable e \<longrightarrow>
        out = (Inl (db_exc e), s\<lparr>tables := g (after_others es (tables s)), upcoming := later\<rparr>))"
proof -
  let ?s = "s\<lparr>tables := after_others es (tables s), upcoming := rest\<rparr>"
  have skip: "out = run_attempts (Suc (DATABASE_TRANSACTION_ATTEMPTS - Suc (length es))) True work ?s" if "length es < DATABASE_TRANSACTION_ATTEMPTS"
    using run_attempts_skip [OF assms(1) that assms(2)] by (simp add: assms(3) db_run_def)
  have "out = (Inl (BackendError ''DBAPIError''), ?s)" if "length es = DATABASE_TRANSACTION_ATTEMPTS"
    using run_attempts_exhausted [OF assms(1) _ assms(2), of 4] that by (simp add: assms(3) db_run_def DATABASE_TRANSACTION_ATTEMPTS_def eval_nat_numeral)
  then show ?thesis using skip by (auto simp: next_attempt_def transact_def)
qed

definition deadlock :: db_error where
  "deadlock = \<lparr>is_integrity_error = False, sqlstate = Some ''40P01'', pgcode = None, error_args = []\<rparr>"

theorem transaction_applied_once_witness:
  "db_run True (on_store (delete_rows (\<lambda>_ _. True))) ((raced id)\<lparr>upcoming := [(writes_meanwhile, Some deadlock), (id, None)]\<rparr>)
    = (Inr 1, (raced id)\<lparr>tables := \<lparr>store_table = [], counter_table = []\<rparr>, upcoming := []\<rparr>)"
  using transaction_applied_once [where es = "[(writes_meanwhile, Some deadlock)]" and s = "(raced id)\<lparr>upcoming := [(writes_meanwhile, Some deadlock), (id, None)]\<rparr>"
      and rest = "[(id, None)]" and g = id and later = "[]" and work = "on_store (delete_rows (\<lambda>_ _. True))", OF _ _ refl]
  by (simp add: rolled_back_def deadlock_def retryable_def POSTGRESQL_RETRYABLE_STATES_def DATABASE_TRANSACTION_ATTEMPTS_def after_others_def
      on_store_def zoom_run delete_rows_def matched_def writes_meanwhile_def raced_def one_row_def)

section \<open>The statements chosen for a database\<close>

lemma matched_none: "matched (\<lambda>k _. k = key) t = 0 \<longleftrightarrow> key \<notin> fst ` set t"
  by (force simp: matched_def filter_empty_conv)

lemma insert_or_assigns: "insert_or key start f t = (if key \<in> fst ` set t then (Inr (), map (\<lambda>(k, r). (k, if k = key then f r else r)) t) else (Inr (), t @ [(key, start)]))"
  by (simp add: insert_or_def)

text \<open>Assigned one after the other, the columns come out as assigned together: the new deadline does not depend on the count.\<close>

lemma upsert_forms:
  assumes "\<forall>r n. new_expiry (r\<lparr>cr_count := n\<rparr>) = new_expiry r"
  shows "upsert_counter E key start new_count new_expiry = upsert_counter E' key start new_count new_expiry"
proof -
  let ?both = "\<lambda>r. r\<lparr>cr_count := new_count r, cr_expires := new_expiry r\<rparr>"
  have seq: "(\<lambda>r. let r' = r\<lparr>cr_count := new_count r\<rparr> in r'\<lparr>cr_expires := new_expiry r'\<rparr>) = ?both"
    using assms by (simp add: Let_def)
  have upd: "bind (update_rows (\<lambda>k _. k = key) ?both) (\<lambda>n. bind (if n = 0 then insert_into key start else ret ()) (\<lambda>_. read_count key))
      = bind (insert_or key start ?both) (\<lambda>_. read_count key)"
  proof
    fix t :: "(string \<times> counter_row) list"
    show "bind (update_rows (\<lambda>k _. k = key) ?both) (\<lambda>n. bind (if n = 0 then insert_into key start else ret ()) (\<lambda>_. read_count key)) t
      = bind (insert_or key start ?both) (\<lambda>_. read_count key) t"
    proof (cases "key \<in> fst ` set t")
      case True
      then show ?thesis by (simp add: bind_run update_rows_def insert_or_def matched_none ret_run)
    next
      case False
      then have "map (\<lambda>(k, r). (k, if k = key then ?both r else r)) t = t" by (intro map_idI) force
      then show ?thesis using False by (simp add: bind_run update_rows_def insert_or_def matched_none insert_into_def)
    qed
  qed
  show ?thesis unfolding upsert_counter_def Let_def [of ?both] seq upd by simp
qed

lemma limiter_key_engine: "limiter_key (L\<lparr>dl_database := D\<rparr>) = limiter_key L" "live_counter (L\<lparr>dl_database := D\<rparr>) = live_counter L"
  by (simp_all add: limiter_key_def live_counter_def fun_eq_iff)

lemma note_write_engine: "note_write (D\<lparr>engine := E\<rparr>) clock = note_write D clock"
  by (simp add: note_write_def Let_def cong: if_cong)

lemma upsert_engine: "upsert (L\<lparr>dl_database := (dl_database L)\<lparr>engine := E\<rparr>\<rparr>) clock key amount expires_at new_expiry = upsert L clock key amount expires_at new_expiry"
proof -
  have e: "\<forall>r n. expires_at (expired_counter clock key (r\<lparr>cr_count := n\<rparr>)) (cr_expires (r\<lparr>cr_count := n\<rparr>))
      = expires_at (expired_counter clock key r) (cr_expires r)" by (simp add: expired_counter_def)
  show ?thesis
    unfolding upsert_def Let_def upsert_forms [where new_expiry = "\<lambda>r. expires_at (expired_counter clock key r) (cr_expires r)" and E = "engine (dl_database L)"
        and E' = E, OF e] by (simp add: limiter_key_def note_write_engine)
qed

text \<open>
  C27. Every database alike. Whatever the engine can do, counters are counted the same, to the last row
  and under any interference: in one statement, in MySQL's order of assignments, or by an update and an insert.
  A value is consumed the same with and without \<open>RETURNING\<close>.
\<close>

theorem engines_agree:
  fixes S :: "'a db_storage" and L :: db_limiter
  assumes "db_ok S s" and "D = (ds_database S)\<lparr>engine := E\<rparr>"
  shows "db_backend (L\<lparr>dl_database := (dl_database L)\<lparr>engine := E\<rparr>\<rparr>) = (db_backend L :: 'a database_store rate_limiter_backend)
    \<and> st_get_and_delete (db_storage_of (S\<lparr>ds_database := D\<rparr>)) clock sid s = st_get_and_delete (db_storage_of S) clock sid s"
proof
  show "db_backend (L\<lparr>dl_database := (dl_database L)\<lparr>engine := E\<rparr>\<rparr>) = (db_backend L :: 'a database_store rate_limiter_backend)"
    by (simp add: db_backend_def db_increment_def [abs_def] db_increment_and_refresh_ttl_def [abs_def] db_get_count_def [abs_def]
        db_get_ttl_def [abs_def] db_delete_counter_def [abs_def] upsert_engine limiter_key_engine Let_def)
  show "st_get_and_delete (db_storage_of (S\<lparr>ds_database := D\<rparr>)) clock sid s = st_get_and_delete (db_storage_of S) clock sid s"
  proof -
    let ?S = "S\<lparr>ds_database := D\<rparr>"
    have same: "prefix_ok ?S = prefix_ok S" "db_key ?S = db_key S" "row_ok ?S = row_ok S"
      by (simp_all add: prefix_ok_def db_key_def row_ok_def user_column_def fun_eq_iff)
    then have ok: "db_ok ?S s" using assms(1) by (simp add: db_ok_def)
    have "db_view ?S clock s = db_view S clock s" by (simp add: db_view_def row_of_def same fits_def fun_eq_iff)
    then show ?thesis using db_take_exact [OF ok, of clock sid] db_take_exact [OF assms(1), of clock sid] by (simp add: db_storage_of_def same)
  qed
qed

theorem engines_agree_witness:
  "st_get_and_delete (db_storage_of ((demo_table ''s:'')\<lparr>ds_database := demo_database\<lparr>engine := \<lparr>dialect = ''mysql'', delete_returning = False, insert_returning = False\<rparr>\<rparr>\<rparr>))
      0 ''k'' empty_database
    = st_get_and_delete (db_storage_of (demo_table ''s:'')) 0 ''k'' empty_database"
  using engines_agree [where S = "demo_table ''s:''" and s = "empty_database" and clock = 0 and sid = "''k''"
      and E = "\<lparr>dialect = ''mysql'', delete_returning = False, insert_returning = False\<rparr>", OF empty_database_ok [OF demo_prefixes(1)] refl] by simp

end
