(* ===== verification/CounterLaws.thy ===== *)
theory CounterLaws
  imports DatabaseRaces
begin

text \<open>
  The counters of both limiter backends keep one contract, up to how they count time: the in-process
  backend to the microsecond, the database backend in milliseconds, and each rounds the seconds
  left in its own way. Told to forget a counter that has ended, the in-process backend may answer
  that it was there.
\<close>

section \<open>The contract\<close>

text \<open>
  \<open>due now e\<close> is the instant a counter armed now for \<open>e\<close> seconds ends, \<open>left d now\<close> the seconds
  reported to be left of one that ends at \<open>d\<close>, \<open>found now s k\<close> what forgetting a key
  answers, which is so for every live counter. A backend may take only some keys.
\<close>

definition bump :: "string \<Rightarrow> int \<Rightarrow> int \<Rightarrow> counters \<Rightarrow> counters" where
  "bump k a d c = c(k \<mapsto> (cnt c k + a, Some (case armed c k of None \<Rightarrow> d | Some d0 \<Rightarrow> d0)))"

definition bump_to :: "string \<Rightarrow> int \<Rightarrow> int \<Rightarrow> counters \<Rightarrow> counters" where
  "bump_to k a d c = c(k \<mapsto> (cnt c k + a, Some d))"

definition seconds_left :: "(int \<Rightarrow> int \<Rightarrow> int) \<Rightarrow> int \<Rightarrow> counters \<Rightarrow> string \<Rightarrow> int" where
  "seconds_left left now c k = (case armed c k of None \<Rightarrow> 0 | Some d \<Rightarrow> left d now)"

locale timed_counters =
  fixes b :: "'b rate_limiter_backend"
    and view :: "int \<Rightarrow> 'b \<Rightarrow> counters"
    and ok :: "'b \<Rightarrow> bool"
    and due :: "int \<Rightarrow> int \<Rightarrow> int"
    and left :: "int \<Rightarrow> int \<Rightarrow> int"
    and valid :: "string \<Rightarrow> bool"
    and good :: "int \<Rightarrow> bool"
    and found :: "int \<Rightarrow> 'b \<Rightarrow> string \<Rightarrow> bool"
  assumes later: "ok s \<Longrightarrow> now \<le> t \<Longrightarrow> view t s = expire t (view now s)"
    and increments: "ok s \<Longrightarrow> valid k \<Longrightarrow> good e \<Longrightarrow>
      fst (increment b now k a (Some e) s) = Inr (cnt (view now s) k + a)
      \<and> view now (snd (increment b now k a (Some e) s)) = bump k a (due now e) (view now s)
      \<and> ok (snd (increment b now k a (Some e) s))"
    and refreshes: "ok s \<Longrightarrow> valid k \<Longrightarrow> good e \<Longrightarrow>
      fst (increment_and_refresh_ttl b now k a (Some e) s) = Inr (cnt (view now s) k + a)
      \<and> view now (snd (increment_and_refresh_ttl b now k a (Some e) s)) = bump_to k a (due now e) (view now s)
      \<and> ok (snd (increment_and_refresh_ttl b now k a (Some e) s))"
    and counts_live: "ok s \<Longrightarrow> valid k \<Longrightarrow> fst (get_count b now k s) = Inr (map_option fst (view now s k))
      \<and> view now (snd (get_count b now k s)) = view now s \<and> ok (snd (get_count b now k s))"
    and tells_left: "ok s \<Longrightarrow> valid k \<Longrightarrow> fst (get_ttl b now k s) = Inr (seconds_left left now (view now s) k)
      \<and> view now (snd (get_ttl b now k s)) = view now s \<and> ok (snd (get_ttl b now k s))"
    and forgets: "ok s \<Longrightarrow> valid k \<Longrightarrow> fst (delete_key b now k s) = Inr (found now s k)
      \<and> (view now s k \<noteq> None \<longrightarrow> found now s k)
      \<and> view now (snd (delete_key b now k s)) = (view now s)(k := None) \<and> ok (snd (delete_key b now k s))"

text \<open>The contract of the in-process counters is an instance.\<close>

sublocale rate_limiter \<subseteq> counting: timed_counters b view ok "\<lambda>now e. now + e * usec" "\<lambda>d now. max 0 (rnd (d - now))" "\<lambda>_. True" "\<lambda>e. 0 \<le> e" hit
  by unfold_locales
     (auto simp: backend_laws hit_live bump_def inc_def bump_to_def inc_refresh_def seconds_left_def ttl_at_def view_later)

section \<open>Operations and their specification\<close>

datatype counter_op = CountUp string int int | CountUpRefresh string int int | CountOf string | LeftOf string | Forget string

datatype counter_answer = Number int | Maybe "int option" | WasThere bool

definition run_counter :: "'b rate_limiter_backend \<Rightarrow> int \<Rightarrow> counter_op \<Rightarrow> ('b, counter_answer) prog" where
  "run_counter b t op =
     (case op of
        CountUp k a e \<Rightarrow> bind (increment b t k a (Some e)) (\<lambda>n. ret (Number n))
      | CountUpRefresh k a e \<Rightarrow> bind (increment_and_refresh_ttl b t k a (Some e)) (\<lambda>n. ret (Number n))
      | CountOf k \<Rightarrow> bind (get_count b t k) (\<lambda>n. ret (Maybe n))
      | LeftOf k \<Rightarrow> bind (get_ttl b t k) (\<lambda>n. ret (Number n))
      | Forget k \<Rightarrow> bind (delete_key b t k) (\<lambda>y. ret (WasThere y)))"

fun spec_counter :: "(int \<Rightarrow> int \<Rightarrow> int) \<Rightarrow> (int \<Rightarrow> int \<Rightarrow> int) \<Rightarrow> int \<Rightarrow> counter_op \<Rightarrow> counters \<Rightarrow> counter_answer \<times> counters" where
  "spec_counter due left t (CountUp k a e) c = (Number (cnt c k + a), bump k a (due t e) c)"
| "spec_counter due left t (CountUpRefresh k a e) c = (Number (cnt c k + a), bump_to k a (due t e) c)"
| "spec_counter due left t (CountOf k) c = (Maybe (map_option fst (c k)), c)"
| "spec_counter due left t (LeftOf k) c = (Number (seconds_left left t c k), c)"
| "spec_counter due left t (Forget k) c = (WasThere (c k \<noteq> None), c(k := None))"

fun spec_counters :: "(int \<Rightarrow> int \<Rightarrow> int) \<Rightarrow> (int \<Rightarrow> int \<Rightarrow> int) \<Rightarrow> (int \<times> counter_op) list \<Rightarrow> counters \<Rightarrow> counter_answer list" where
  "spec_counters due left [] c = []"
| "spec_counters due left ((t, op) # ops) c =
     (let (a, c') = spec_counter due left t op (expire t c) in a # spec_counters due left ops c')"

fun counter_ok :: "(string \<Rightarrow> bool) \<Rightarrow> (int \<Rightarrow> bool) \<Rightarrow> counter_op \<Rightarrow> bool" where
  "counter_ok valid good (CountUp k a e) \<longleftrightarrow> valid k \<and> good e"
| "counter_ok valid good (CountUpRefresh k a e) \<longleftrightarrow> valid k \<and> good e"
| "counter_ok valid good (CountOf k) \<longleftrightarrow> valid k"
| "counter_ok valid good (LeftOf k) \<longleftrightarrow> valid k"
| "counter_ok valid good (Forget k) \<longleftrightarrow> valid k"

text \<open>
  Answers that agree, but for forgetting a key in \<open>R\<close>, which may be told to have been there;
  \<open>R\<close> follows the operations: counting adds its key, forgetting removes it.
\<close>

fun counted_keys :: "counter_op \<Rightarrow> string set \<Rightarrow> string set" where
  "counted_keys (CountUp k a e) R = insert k R"
| "counted_keys (CountUpRefresh k a e) R = insert k R"
| "counted_keys (Forget k) R = R - {k}"
| "counted_keys _ R = R"

fun lenient_counters :: "string set \<Rightarrow> (int \<times> counter_op) list \<Rightarrow> counter_answer list \<Rightarrow> counter_answer list \<Rightarrow> bool" where
  "lenient_counters R [] as bs \<longleftrightarrow> as = [] \<and> bs = []"
| "lenient_counters R ((t, op) # ops) as bs \<longleftrightarrow> (\<exists>a as' b bs'. as = a # as' \<and> bs = b # bs'
     \<and> (a = b \<or> (\<exists>k. op = Forget k \<and> k \<in> R \<and> a = WasThere True)) \<and> lenient_counters (counted_keys op R) ops as' bs')"

context timed_counters
begin

lemma counter_run:
  assumes "ok s" and "counter_ok valid good op"
  shows "fst (run_counter b t op s) = Inr (case op of Forget k \<Rightarrow> WasThere (found t s k) | _ \<Rightarrow> fst (spec_counter due left t op (view t s)))
    \<and> view t (snd (run_counter b t op s)) = snd (spec_counter due left t op (view t s))
    \<and> ok (snd (run_counter b t op s))"
proof (cases op)
  case (Forget k)
  then show ?thesis using forgets [OF assms(1), of k t] assms(2) by (auto simp: run_counter_def bind_run ret_run)
qed (use assms increments refreshes counts_live tells_left in \<open>auto simp: run_counter_def bind_run ret_run\<close>)

lemma counters_run_exactly:
  assumes "\<And>s t k. ok s \<Longrightarrow> found t s k \<Longrightarrow> valid k \<Longrightarrow> view t s k \<noteq> None"
    and "ok s" and "sorted (start # map fst ops)" and "\<forall>(t, op) \<in> set ops. counter_ok valid good op"
  shows "fst (map_prog (\<lambda>(t, op). run_counter b t op) ops s) = Inr (spec_counters due left ops (view start s))"
  using assms(2-)
proof (induction ops arbitrary: s start)
  case (Cons p ops)
  obtain t op where p: "p = (t, op)" by (cases p)
  have v: "view t s = expire t (view start s)" using Cons.prems(1,2) later [of s start t] p by simp
  have "(case op of Forget k \<Rightarrow> WasThere (found t s k) | _ \<Rightarrow> fst (spec_counter due left t op (view t s))) = fst (spec_counter due left t op (view t s))"
    using assms(1) [OF Cons.prems(1)] forgets [OF Cons.prems(1)] Cons.prems(3) p by (cases op) (simp_all, blast)
  then show ?case
    using counter_run [OF Cons.prems(1), of op t] Cons.IH [of "snd (run_counter b t op s)" t] Cons.prems p v
    by (simp add: run_simps case_prod_unfold Let_def)
qed (simp add: run_simps)

text \<open>
  \<open>kept s\<close> is an upper bound on the keys of which forgetting may say that they were there.
\<close>

lemma counters_run:
  assumes "\<And>s t k. ok s \<Longrightarrow> found t s k \<Longrightarrow> view t s k = None \<Longrightarrow> k \<in> kept s"
    and "\<And>s t op. kept (snd (run_counter b t op s)) \<subseteq> counted_keys op (kept s)"
    and "ok s" and "sorted (start # map fst ops)" and "\<forall>(t, op) \<in> set ops. counter_ok valid good op" and "kept s \<subseteq> R"
  shows "\<exists>as. fst (map_prog (\<lambda>(t, op). run_counter b t op) ops s) = Inr as \<and> lenient_counters R ops as (spec_counters due left ops (view start s))"
  using assms(3-)
proof (induction ops arbitrary: s start R)
  case (Cons p ops)
  obtain t op where p: "p = (t, op)" by (cases p)
  have v: "view t s = expire t (view start s)" using Cons.prems(1,2) later [of s start t] p by simp
  let ?a = "case op of Forget k \<Rightarrow> WasThere (found t s k) | _ \<Rightarrow> fst (spec_counter due left t op (view t s))"
  have run: "fst (run_counter b t op s) = Inr ?a" "view t (snd (run_counter b t op s)) = snd (spec_counter due left t op (view t s))"
    "ok (snd (run_counter b t op s))"
    using counter_run [OF Cons.prems(1), of op t] Cons.prems(3) p by simp_all
  have "counted_keys op (kept s) \<subseteq> counted_keys op R" using Cons.prems(4) by (cases op) auto
  then have "kept (snd (run_counter b t op s)) \<subseteq> counted_keys op R" using assms(2) [of t op s] by (rule subset_trans [rotated])
  from Cons.IH [OF run(3) _ _ this, of t] obtain as where "fst (map_prog (\<lambda>(t, op). run_counter b t op) ops (snd (run_counter b t op s))) = Inr as"
    "lenient_counters (counted_keys op R) ops as (spec_counters due left ops (view t (snd (run_counter b t op s))))"
    using Cons.prems p by auto
  moreover have "?a = fst (spec_counter due left t op (view t s)) \<or> (\<exists>k. op = Forget k \<and> k \<in> R \<and> ?a = WasThere True)"
  proof (cases op)
    case (Forget k)
    then show ?thesis
      using assms(1) [OF Cons.prems(1), of t k] forgets [OF Cons.prems(1), of k t] Cons.prems(3,4) p by (cases "view t s k") auto
  qed simp_all
  ultimately show ?case using run p v by (auto simp: run_simps case_prod_unfold Let_def)
qed (simp add: run_simps)

end


section \<open>The counters of the database\<close>

definition counter_fits :: "db_limiter \<Rightarrow> string \<Rightarrow> bool" where
  "counter_fits L k \<longleftrightarrow> length (dl_prefix L) + length k < DATABASE_KEY_MAX_LENGTH"

definition counter_view :: "int \<Rightarrow> counter_row option \<Rightarrow> (int \<times> int option) option" where
  "counter_view clock x = (case x of None \<Rightarrow> None
     | Some r \<Rightarrow> if expired_counter clock [] r then None else Some (cr_count r, map_option (\<lambda>e. e * 1000 - 1) (cr_expires r)))"

definition db_counters :: "db_limiter \<Rightarrow> int \<Rightarrow> 'a database_store \<Rightarrow> counters" where
  "db_counters L clock s = (\<lambda>k. if counter_fits L k then counter_view clock (map_of (counter_table (tables s)) (limiter_key L k)) else None)"

definition counters_ok :: "'a database_store \<Rightarrow> bool" where
  "counters_ok s \<longleftrightarrow> upcoming s = [] \<and> distinct (map fst (counter_table (tables s)))"

text \<open>Seconds left, rounded up from the milliseconds.\<close>

definition left_ms :: "int \<Rightarrow> int \<Rightarrow> int" where
  "left_ms d clock = max 0 (- ((clock div 1000 - (d + 1) div 1000) div 1000))"

lemma limiter_key_fitting: "counter_fits L k \<Longrightarrow> limiter_key L k = dl_prefix L @ k"
  by (simp add: limiter_key_def stored_key_def counter_fits_def DATABASE_KEY_MAX_LENGTH_def)

lemma expired_any: "expired_counter clock k r = expired_counter clock [] r"
  by (simp add: expired_counter_def)

text \<open>One counter written, or removed.\<close>

lemma counter_put:
  assumes "counters_ok s" and "counter_fits L k" and "upcoming s' = []" and "distinct (map fst (counter_table (tables s')))"
    and "\<forall>j. j \<noteq> limiter_key L k \<longrightarrow> map_of (counter_table (tables s')) j = map_of (counter_table (tables s)) j"
    and "map_of (counter_table (tables s')) (limiter_key L k) = x"
  shows "counters_ok s'" and "db_counters L clock s' = (db_counters L clock s)(k := counter_view clock x)"
  using assms by (auto simp: counters_ok_def db_counters_def fun_eq_iff limiter_key_fitting)

lemma counters_purged:
  assumes "counters_ok s" and "purged clock (tables s) (tables s')" and "upcoming s' = []"
  shows "counters_ok s'" and "db_counters L clock s' = db_counters L clock s"
proof -
  obtain A where A: "counter_table (tables s') = filter (\<lambda>(k, r). \<not> (k \<in> A \<and> expired_counter clock k r)) (counter_table (tables s))"
    using assms(2) by (auto simp: purged_def)
  have d: "distinct (map fst (counter_table (tables s)))" using assms(1) by (simp add: counters_ok_def)
  show "counters_ok s'" using assms(3) unfolding counters_ok_def A by (intro conjI distinct_kept [OF d])
  have "map_of (counter_table (tables s')) j = (case map_of (counter_table (tables s)) j of None \<Rightarrow> None
      | Some r \<Rightarrow> if j \<in> A \<and> expired_counter clock j r then None else Some r)" for j
    unfolding A using map_of_kept [OF d, of "\<lambda>k r. k \<in> A \<and> expired_counter clock k r"] by simp
  then have "counter_view clock (map_of (counter_table (tables s')) j) = counter_view clock (map_of (counter_table (tables s)) j)" for j
    using expired_any [of clock j] by (auto simp: counter_view_def split: option.split)
  then show "db_counters L clock s' = db_counters L clock s" by (simp add: db_counters_def fun_eq_iff)
qed

definition counted_row :: "int \<Rightarrow> int \<Rightarrow> (bool \<Rightarrow> int option \<Rightarrow> int option) \<Rightarrow> int option \<Rightarrow> counter_row option \<Rightarrow> counter_row" where
  "counted_row clock amount expires_at new_expiry x =
     (case x of None \<Rightarrow> \<lparr>cr_count = amount, cr_expires = new_expiry\<rparr>
      | Some r \<Rightarrow> \<lparr>cr_count = (if expired_counter clock [] r then amount else cr_count r + amount),
                  cr_expires = expires_at (expired_counter clock [] r) (cr_expires r)\<rparr>)"

lemma select_key: "distinct (map fst t) \<Longrightarrow> filter (\<lambda>(k, r). k = key) t = (case map_of t key of None \<Rightarrow> [] | Some r \<Rightarrow> [(key, r)])"
  using filter_key [of t key "\<lambda>_. True"] by (simp cong: option.case_cong)

lemma upsert_counter_run:
  assumes "distinct (map fst t)" and "\<forall>r n. new_expiry (r\<lparr>cr_count := n\<rparr>) = new_expiry r"
    and "row = (case map_of t key of None \<Rightarrow> start | Some r \<Rightarrow> r\<lparr>cr_count := new_count r, cr_expires := new_expiry r\<rparr>)"
  shows "\<exists>t'. upsert_counter E key start new_count new_expiry t = (Inr (cr_count row), t') \<and> distinct (map fst t')
    \<and> map_of t' key = Some row \<and> (\<forall>j. j \<noteq> key \<longrightarrow> map_of t' j = map_of t j)"
proof -
  let ?both = "\<lambda>r. r\<lparr>cr_count := new_count r, cr_expires := new_expiry r\<rparr>"
  let ?E = "\<lparr>dialect = ''sqlite'', delete_returning = True, insert_returning = True\<rparr>"
  let ?t' = "if key \<in> fst ` set t then map (\<lambda>(k, r). (k, if k = key then ?both r else r)) t else t @ [(key, start)]"
  have "upsert_counter E key start new_count new_expiry = upsert_counter ?E key start new_count new_expiry"
    by (rule upsert_forms [OF assms(2)])
  also have "\<dots> = bind (insert_or key start ?both) (\<lambda>_. read_count key)"
    by (simp add: upsert_counter_def upserts_returning_def Let_def)
  finally have form: "upsert_counter E key start new_count new_expiry t = read_count key ?t'"
    by (simp add: bind_run insert_or_def)
  have d: "distinct (map fst ?t')" using assms(1) by (simp del: map_map)
  have at: "map_of ?t' j = (if j = key then Some row else map_of t j)" for j
  proof (cases "key \<in> fst ` set t")
    case True
    then obtain r where r: "map_of t key = Some r" by (metis map_of_eq_None_iff option.exhaust)
    have "map_option (\<lambda>r. if j = key then ?both r else r) (map_of t j) = (if j = key then Some row else map_of t j)"
      using r assms(3) by (cases "map_of t j") auto
    then show ?thesis using True map_of_changed [of "\<lambda>k _. k = key" ?both t j] by simp
  next
    case False
    then show ?thesis using assms(3) map_of_snoc [OF False, of start] by (simp add: map_of_eq_None_iff [THEN iffD2])
  qed
  have "read_count key ?t' = (Inr (cr_count row), ?t')"
    using at [of key] by (simp add: read_count_def bind_run select_rows_def gets_run select_key [OF d] ret_run)
  then show ?thesis using form d at by auto
qed


lemma upsert_run:
  assumes "counters_ok s" and "counter_fits L k" and "x = map_of (counter_table (tables s)) (limiter_key L k)"
    and "row = counted_row clock a expires_at new_expiry x" and "out = upsert L clock k a expires_at new_expiry s"
  shows "fst out = Inr (cr_count row)" and "counters_ok (snd out)"
    and "db_counters L clock (snd out) = (db_counters L clock s)(k := counter_view clock (Some row))"
proof -
  let ?t = "counter_table (tables s)" and ?key = "limiter_key L k"
  let ?count = "\<lambda>r. if expired_counter clock k r then a else cr_count r + a" and ?expiry = "\<lambda>r. expires_at (expired_counter clock k r) (cr_expires r)"
  have u: "upcoming s = []" and d: "distinct (map fst ?t)" using assms(1) by (simp_all add: counters_ok_def)
  have e: "\<forall>r n. ?expiry (r\<lparr>cr_count := n\<rparr>) = ?expiry r" by (simp add: expired_counter_def)
  have row: "row = (case map_of ?t ?key of None \<Rightarrow> \<lparr>cr_count = a, cr_expires = new_expiry\<rparr>
      | Some r \<Rightarrow> r\<lparr>cr_count := ?count r, cr_expires := ?expiry r\<rparr>)"
    by (simp add: assms(3,4) counted_row_def expired_any [of clock k] split: option.split)
  obtain t' where t': "upsert_counter (engine (dl_database L)) ?key \<lparr>cr_count = a, cr_expires = new_expiry\<rparr> ?count ?expiry ?t = (Inr (cr_count row), t')"
    "distinct (map fst t')" "map_of t' ?key = Some row" "\<forall>j. j \<noteq> ?key \<longrightarrow> map_of t' j = map_of ?t j"
    using upsert_counter_run [OF d e row, of "engine (dl_database L)"] by blast
  let ?s = "set_counters t' s"
  have run: "run_upsert (on_counters (upsert_counter (engine (dl_database L)) ?key \<lparr>cr_count = a, cr_expires = new_expiry\<rparr> ?count ?expiry)) s = (Inr (cr_count row), ?s)"
    using counter_write [where m = "upsert_counter (engine (dl_database L)) ?key \<lparr>cr_count = a, cr_expires = new_expiry\<rparr> ?count ?expiry", OF u t'(1)]
    by (simp add: run_upsert_def catch_run set_counters_def)
  have us: "upcoming ?s = []" using u by simp
  obtain s' where n: "note_write (dl_database L) clock ?s = (Inr (), s')" "upcoming s' = []" "purged clock (tables ?s) (tables s')"
    using note_write_run [OF us] by blast
  have out: "out = (Inr (cr_count row), s')" using run n(1) by (simp add: assms(5) upsert_def Let_def bind_run ret_run)
  have put: "counters_ok ?s" "db_counters L clock ?s = (db_counters L clock s)(k := counter_view clock (Some row))"
    using counter_put [OF assms(1,2) us, of "Some row"] t'(2-4) by simp_all
  show "fst out = Inr (cr_count row)" by (simp add: out)
  show "counters_ok (snd out)" "db_counters L clock (snd out) = (db_counters L clock s)(k := counter_view clock (Some row))"
    using counters_purged [OF put(1) n(3,2)] put(2) by (simp_all add: out)
qed

lemma live_counter_eq: "live_counter L clock key = (\<lambda>k r. k = limiter_key L key \<and> \<not> expired_counter clock [] r)"
  by (auto simp: live_counter_def expired_counter_def fun_eq_iff split: option.split)

lemma counter_select:
  assumes "counters_ok s"
  shows "db_run False (on_counters (select_rows (live_counter L clock k))) s
    = (Inr (case map_of (counter_table (tables s)) (limiter_key L k) of None \<Rightarrow> []
        | Some r \<Rightarrow> if expired_counter clock [] r then [] else [(limiter_key L k, r)]), s)"
proof -
  have "distinct (map fst (counter_table (tables s)))" using assms by (simp add: counters_ok_def)
  then have "filter (\<lambda>(j, r). live_counter L clock k j r) (counter_table (tables s)) = (case map_of (counter_table (tables s)) (limiter_key L k) of None \<Rightarrow> []
        | Some r \<Rightarrow> if expired_counter clock [] r then [] else [(limiter_key L k, r)])"
    by (simp add: live_counter_eq filter_key split: option.split)
  then show ?thesis using assms by (intro counter_read) (simp_all add: counters_ok_def select_rows_def gets_run)
qed

lemma counter_at: "counter_fits L k \<Longrightarrow> db_counters L clock s k = counter_view clock (map_of (counter_table (tables s)) (limiter_key L k))"
  by (simp add: db_counters_def)

lemma counter_forget:
  assumes "counters_ok s" and "counter_fits L k" and "out = db_delete_counter L clock k s"
  shows "fst out = Inr (db_counters L clock s k \<noteq> None)" and "counters_ok (snd out)" and "db_counters L clock (snd out) = (db_counters L clock s)(k := None)"
proof -
  let ?t = "counter_table (tables s)" and ?key = "limiter_key L k"
  let ?t' = "filter (\<lambda>(j, r). \<not> j = ?key) ?t"
  have u: "upcoming s = []" and d: "distinct (map fst ?t)" using assms(1) by (simp_all add: counters_ok_def)
  have f: "filter (\<lambda>(j, r). \<not> j = ?key) (filter (\<lambda>(j, r). \<not> live_counter L clock k j r) ?t) = ?t'"
    by (rule filter_twice) (simp add: live_counter_def)
  have "db_run True (on_counters (bind (delete_rows (live_counter L clock k)) (\<lambda>live. bind (delete_rows (\<lambda>j _. j = ?key)) (\<lambda>_. ret live)))) s
      = (Inr (matched (live_counter L clock k) ?t), set_counters ?t' s)"
    unfolding set_counters_def by (rule counter_write [OF u]) (simp add: bind_run delete_rows_def ret_run f del: filter_filter)
  then have out: "out = (Inr (matched (live_counter L clock k) ?t \<noteq> 0), set_counters ?t' s)"
    by (simp add: assms(3) db_delete_counter_def bind_run ret_run)
  have at: "map_of ?t' j = (if j = ?key then None else map_of ?t j)" for j
    using map_of_kept [OF d, of "\<lambda>j r. j = ?key" j] by (auto split: option.splits)
  have "live_counter L clock k = (\<lambda>j r. j = ?key \<and> \<not> expired_counter clock [] r)"
    by (auto simp: live_counter_def expired_counter_def fun_eq_iff split: option.split)
  then have "matched (live_counter L clock k) ?t \<noteq> 0 \<longleftrightarrow> db_counters L clock s k \<noteq> None"
    using assms(2) by (simp add: matched_key [OF d] db_counters_def counter_view_def split: option.split)
  then show "fst out = Inr (db_counters L clock s k \<noteq> None)" by (simp add: out)
  show "counters_ok (snd out)" "db_counters L clock (snd out) = (db_counters L clock s)(k := None)"
    using counter_put [OF assms(1,2), of "set_counters ?t' s" None] u at distinct_kept [OF d] by (simp_all add: out counter_view_def)
qed

lemma counted_view:
  assumes "counter_fits L k" and "1 \<le> e" and "row = counted_row clock a expires_at (counter_deadline clock (Some e)) (map_of (counter_table (tables s)) (limiter_key L k))"
  shows "cr_count row = cnt (db_counters L clock s) k + a"
    and "\<forall>old. expires_at True old = counter_deadline clock (Some e) \<Longrightarrow>
      \<forall>old. expires_at False old = (if old = None then counter_deadline clock (Some e) else old) \<Longrightarrow>
      (db_counters L clock s)(k := counter_view clock (Some row)) = bump k a (due_ms clock e) (db_counters L clock s)"
    and "\<forall>gone old. expires_at gone old = counter_deadline clock (Some e) \<Longrightarrow>
      (db_counters L clock s)(k := counter_view clock (Some row)) = bump_to k a (due_ms clock e) (db_counters L clock s)"
proof -
  let ?x = "map_of (counter_table (tables s)) (limiter_key L k)"
  have ends: "expires_in clock e * 1000 - 1 = due_ms clock e" "\<not> expires_in clock e \<le> now_ms clock"
    using assms(2) by (simp_all add: expires_in_def now_ms_def due_ms_def)
  show "cr_count row = cnt (db_counters L clock s) k + a"
    by (auto simp: assms(3) counted_row_def cnt_def counter_at [OF assms(1)] counter_view_def split: option.splits)
  then show "\<forall>gone old. expires_at gone old = counter_deadline clock (Some e) \<Longrightarrow>
      (db_counters L clock s)(k := counter_view clock (Some row)) = bump_to k a (due_ms clock e) (db_counters L clock s)"
    using ends by (auto simp: assms(3) counted_row_def bump_to_def counter_view_def expired_counter_def counter_deadline_def split: option.splits)
  show "(db_counters L clock s)(k := counter_view clock (Some row)) = bump k a (due_ms clock e) (db_counters L clock s)"
    if "\<forall>old. expires_at True old = counter_deadline clock (Some e)"
      "\<forall>old. expires_at False old = (if old = None then counter_deadline clock (Some e) else old)"
  proof -
    have "counter_view clock (Some row) = Some (cnt (db_counters L clock s) k + a,
        Some (case armed (db_counters L clock s) k of None \<Rightarrow> due_ms clock e | Some d0 \<Rightarrow> d0))"
      using that ends by (auto simp: assms(3) counted_row_def cnt_def armed_def counter_at [OF assms(1)] counter_view_def expired_counter_def
          counter_deadline_def split: option.splits if_splits)
    then show ?thesis by (simp add: bump_def)
  qed
qed

interpretation db_counting: timed_counters "db_backend L" "db_counters L" counters_ok due_ms left_ms "counter_fits L" "\<lambda>e. 1 \<le> e"
  "\<lambda>now s k. db_counters L now s k \<noteq> None" for L
proof (unfold_locales, goal_cases)
  case (1 s now t)
  then show ?case
    by (auto simp: db_counters_def counter_view_def expire_def armed_def expired_at_def expired_counter_def now_ms_def fun_eq_iff split: option.split)
next
  case (2 s k e now a)
  let ?d = "counter_deadline now (Some e)"
  let ?f = "\<lambda>gone old. if gone then ?d else if old = None then ?d else old"
  have f: "\<forall>old. ?f True old = ?d" "\<forall>old. ?f False old = (if old = None then ?d else old)" by simp_all
  have "increment (db_backend L) now k a (Some e) s = upsert L now k a ?f ?d s" by (simp add: db_backend_def db_increment_def Let_def)
  then show ?case
    using upsert_run [where expires_at = ?f and new_expiry = ?d and a = a and clock = now, OF 2(1,2) refl refl refl]
      counted_view(1,2) [where expires_at = ?f and a = a and s = s, OF 2(2,3) refl] f by (simp only: simp_thms)
next
  case (3 s k e now a)
  let ?d = "counter_deadline now (Some e)"
  let ?f = "\<lambda>gone old. ?d"
  have "increment_and_refresh_ttl (db_backend L) now k a (Some e) s = upsert L now k a ?f ?d s"
    by (simp add: db_backend_def db_increment_and_refresh_ttl_def Let_def counter_deadline_def)
  then show ?case
    using upsert_run [where expires_at = ?f and new_expiry = ?d and a = a and clock = now, OF 3(1,2) refl refl refl]
      counted_view(1,3) [where expires_at = ?f and a = a and s = s and clock = now, OF 3(2,3) refl] by simp
next
  case (4 s k now)
  then show ?case using counter_select [OF 4(1), of L now k]
    by (auto simp: db_backend_def db_get_count_def bind_run ret_run counter_at counter_view_def split: option.split)
next
  case (5 s k now)
  then show ?case using counter_select [OF 5(1), of L now k]
    by (auto simp: db_backend_def db_get_ttl_def bind_run ret_run seconds_left_def armed_def counter_at counter_view_def left_ms_def now_ms_def split: option.split)
next
  case (6 s k now)
  then show ?case using counter_forget [OF 6 refl] by (simp add: db_backend_def)
qed


section \<open>Properties\<close>




text \<open>
  A lock of the database holds to its end. From the moment a counter is armed until the last
  millisecond of its seconds its key is reported locked, for at least one second and at most all of them, and
  not at all from then on.
\<close>

theorem database_lock_holds:
  assumes "counters_ok s" and "counter_fits L k" and "1 \<le> e" and "db_counters L t s k = None"
    and "s' = snd (increment (db_backend L) t k a (Some e) s)" and "t \<le> t'"
  shows "\<exists>n. fst (get_ttl (db_backend L) t' k s') = Inr n \<and> (if t' \<le> due_ms t e then 1 \<le> n \<and> n \<le> e else n = 0)"
proof -
  let ?d = "due_ms t e"
  have inc: "db_counters L t s' = bump k a ?d (db_counters L t s)" "counters_ok s'"
    using db_counting.increments [OF assms(1-3), of t a] by (simp_all add: assms(5))
  have armed: "armed (db_counters L t' s') k = (if t' \<le> ?d then Some ?d else None)"
    using db_counting.later [OF inc(2) assms(6), of L] inc(1) assms(4) by (simp add: expire_def bump_def armed_def expired_at_def)
  have ttl: "fst (get_ttl (db_backend L) t' k s') = Inr (seconds_left left_ms t' (db_counters L t' s') k)"
    using db_counting.tells_left [OF inc(2) assms(2)] by simp
  have "1 \<le> left_ms ?d t' \<and> left_ms ?d t' \<le> e" if "t' \<le> ?d"
  proof -
    let ?x = "(t' div 1000 - (t div 1000 + e * 1000)) div 1000"
    have l: "left_ms ?d t' = max 0 (- ?x)" by (simp add: left_ms_def due_ms_def mult.commute)
    have "t' div 1000 < t div 1000 + e * 1000" "t div 1000 \<le> t' div 1000"
      using that assms(6) by (simp_all add: due_ms_def zdiv_mono1)
    then have "?x \<le> - 1" "- e \<le> ?x" by linarith+
    then show ?thesis unfolding l by linarith
  qed
  then show ?thesis using armed by (simp add: ttl seconds_left_def)
qed

definition demo_limiter :: db_limiter where
  "demo_limiter = \<lparr>dl_database = demo_database, dl_prefix = []\<rparr>"

lemma empty_counters [simp]: "counters_ok empty_database" "db_counters L t empty_database = (\<lambda>_. None)"
  by (simp_all add: counters_ok_def empty_database_def db_counters_def counter_view_def fun_eq_iff)

lemma demo_counter_fits: "counter_fits demo_limiter ''k''"
  by (simp add: counter_fits_def demo_limiter_def DATABASE_KEY_MAX_LENGTH_def)



text \<open>After sixty seconds forgetting a counter is answered differently by the two.\<close>

lemma ended_counter_forgotten:
  "fst (map_prog (\<lambda>(t, op). run_counter mem_backend t op) [(0, CountUp ''k'' 1 60), (60000001, Forget ''k'')] mem_limiter_init)
    = Inr [Number 1, WasThere True]"
  "fst (map_prog (\<lambda>(t, op). run_counter (db_backend demo_limiter) t op) [(0, CountUp ''k'' 1 60), (60000001, Forget ''k'')] empty_database)
    = Inr [Number 1, WasThere False]"
proof -
  show "fst (map_prog (\<lambda>(t, op). run_counter mem_backend t op) [(0, CountUp ''k'' 1 60), (60000001, Forget ''k'')] mem_limiter_init)
    = Inr [Number 1, WasThere True]" by code_simp
  show "fst (map_prog (\<lambda>(t, op). run_counter (db_backend demo_limiter) t op) [(0, CountUp ''k'' 1 60), (60000001, Forget ''k'')] empty_database)
    = Inr [Number 1, WasThere False]"
    using db_counting.counters_run_exactly [where start = 0 and ops = "[(0, CountUp ''k'' 1 60), (60000001, Forget ''k'')]"
        and s = empty_database and L = demo_limiter] demo_counter_fits
    by (simp add: bump_def expire_def expired_at_def cnt_def armed_def due_ms_def del: map_prog.simps)
qed

theorem database_lock_holds_witness:
  "\<exists>n. fst (get_ttl (db_backend demo_limiter) 59500000 ''k'' (snd (increment (db_backend demo_limiter) 0 ''k'' 1 (Some 60) empty_database))) = Inr n
    \<and> 1 \<le> n \<and> n \<le> 60"
  using database_lock_holds [where s = empty_database and L = demo_limiter and k = "''k''" and e = 60 and t = 0 and t' = 59500000 and a = 1,
      OF _ demo_counter_fits _ _ refl]
  by (simp add: due_ms_def)

end
