(* ===== verification/Construction.thy ===== *)
theory Construction
  imports Resolution OAuthRoutes Email Enrollment Database "HOL-Library.List_Lexorder" "HOL-Library.Char_ord"
begin

text \<open>
  How an application is put together: the session transport's constructor and its binding to a
  backend (\<open>crudauth/transports/session/transport.py\<close>), the stores it asks for by name
  (\<open>storage/__init__.py\<close>), and the constructor of \<open>CRUDAuth\<close> (\<open>crud_auth.py\<close>)
  with the checks, defaults, builders and warnings it runs in order.

  What the application hands over as an object of its own (a Redis client, a store, a limiter) is
  known by a number. The state of a construction is what it has logged and the Redis clients it has
  built so far; both stay when a later check raises. The optional packages are taken to be installed,
  and two of their verdicts are parameters of the model: what \<open>Redis.from_url\<close> says of a URL and
  what FastAPI says of the prefix and the paths of a router. Either may raise.
\<close>

section \<open>Defaults\<close>

definition SECONDS_PER_MINUTE :: int where
  "SECONDS_PER_MINUTE = 60"

definition DEFAULT_LOGIN_MAX_ATTEMPTS :: int where
  "DEFAULT_LOGIN_MAX_ATTEMPTS = 5"

definition DEFAULT_LOGIN_ATTEMPT_WINDOW_SECONDS :: int where
  "DEFAULT_LOGIN_ATTEMPT_WINDOW_SECONDS = SECONDS_PER_MINUTE"

definition DEFAULT_LOGIN_LOCKOUT_BASE_SECONDS :: int where
  "DEFAULT_LOGIN_LOCKOUT_BASE_SECONDS = SECONDS_PER_MINUTE"

definition DEFAULT_LOGIN_LOCKOUT_MAX_SECONDS :: int where
  "DEFAULT_LOGIN_LOCKOUT_MAX_SECONDS = SECONDS_PER_HOUR"

definition DEFAULT_LOGIN_ROUND_RETENTION_SECONDS :: int where
  "DEFAULT_LOGIN_ROUND_RETENTION_SECONDS = SECONDS_PER_HOUR"

definition DEFAULT_REDIS_URL :: string where
  "DEFAULT_REDIS_URL = ''redis://localhost:6379/0''"

definition REDIS_KEY_PREFIX :: string where
  "REDIS_KEY_PREFIX = ''crudauth:rl:''"

definition BACKEND_MEMORY :: string where
  "BACKEND_MEMORY = ''memory''"

definition BACKEND_REDIS :: string where
  "BACKEND_REDIS = ''redis''"

definition BACKEND_DATABASE :: string where
  "BACKEND_DATABASE = ''database''"

definition BACKEND_CUSTOM :: string where
  "BACKEND_CUSTOM = ''custom''"

definition SESSION_STORAGE_PREFIX :: string where
  "SESSION_STORAGE_PREFIX = ''session:''"

definition CSRF_STORAGE_PREFIX :: string where
  "CSRF_STORAGE_PREFIX = ''csrf:''"

definition CHALLENGE_STORAGE_PREFIX :: string where
  "CHALLENGE_STORAGE_PREFIX = ''mfa_challenge:''"

definition USED_TOKEN_TTL_SECONDS :: int where
  "USED_TOKEN_TTL_SECONDS = 24 * SECONDS_PER_HOUR"

lemmas default_defs = SECONDS_PER_MINUTE_def SECONDS_PER_HOUR_def DEFAULT_LOGIN_MAX_ATTEMPTS_def
  DEFAULT_LOGIN_ATTEMPT_WINDOW_SECONDS_def DEFAULT_LOGIN_LOCKOUT_BASE_SECONDS_def DEFAULT_LOGIN_LOCKOUT_MAX_SECONDS_def
  DEFAULT_LOGIN_ROUND_RETENTION_SECONDS_def OAUTH_STATE_TTL_SECONDS_def USED_TOKEN_TTL_SECONDS_def

lemmas backend_defs = BACKEND_MEMORY_def BACKEND_REDIS_def BACKEND_DATABASE_def BACKEND_CUSTOM_def

section \<open>Clients and stores\<close>

datatype redis_client = Given_client nat | Client_for string

record build_log =
  warned :: "string list"
  opened :: "redis_client list"

definition warning :: "string \<Rightarrow> (build_log, unit) prog" where
  "warning message = modifies (\<lambda>s. s\<lparr>warned := warned s @ [message]\<rparr>)"

definition require :: "bool \<Rightarrow> string \<Rightarrow> (build_log, unit) prog" where
  "require ok message = (if ok then ret () else raise (ValueError message))"

definition given :: "string option \<Rightarrow> string \<Rightarrow> string" where
  "given x dflt = (case x of None \<Rightarrow> dflt | Some s \<Rightarrow> if s = [] then dflt else s)"

text \<open>\<open>from_url\<close> is the verdict of \<open>Redis.from_url\<close>, which refuses what it cannot read as a URL.\<close>

definition redis_client_from_url :: "(string \<Rightarrow> exc + unit) \<Rightarrow> string option \<Rightarrow> (build_log, redis_client) prog" where
  "redis_client_from_url from_url url =
     (let at = given url DEFAULT_REDIS_URL
      in bind (returned (from_url at)) (\<lambda>_.
         bind (modifies (\<lambda>s. s\<lparr>opened := opened s @ [Client_for at]\<rparr>)) (\<lambda>_. ret (Client_for at))))"

text \<open>A Redis store says whether the client is its own to close.\<close>

datatype store_place = In_memory | In_redis redis_client bool | In_database database_config

record store_config =
  sc_place :: store_place
  sc_prefix :: string
  sc_expiration :: int

definition get_session_storage :: "(string \<Rightarrow> exc + unit) \<Rightarrow> string \<Rightarrow> string \<Rightarrow> int \<Rightarrow> string option \<Rightarrow> redis_client option \<Rightarrow> database_config option \<Rightarrow>
    (build_log, store_config) prog" where
  "get_session_storage from_url backend pfx ttl redis_url client database =
     (let b = lower (if backend = [] then BACKEND_MEMORY else backend);
          at = (\<lambda>place. ret \<lparr>sc_place = place, sc_prefix = pfx, sc_expiration = ttl\<rparr>)
      in if b = BACKEND_MEMORY then at In_memory
         else if b = BACKEND_REDIS then
           (case client of
              Some c \<Rightarrow> at (In_redis c False)
            | None \<Rightarrow> bind (redis_client_from_url from_url redis_url) (\<lambda>c. at (In_redis c True)))
         else if b = BACKEND_DATABASE then
           (case database of
              None \<Rightarrow> raise (ValueError ''backend='database' needs a DatabaseStore (database=...)'')
            | Some d \<Rightarrow> at (In_database d))
         else raise (ValueError (''Unknown session backend: '' @ str_repr b @ '' (expected 'memory', 'redis' or 'database')'')))"

section \<open>The session transport\<close>

text \<open>The constructor's arguments; \<open>ss_redis_client\<close> and the two stores are objects of the application.\<close>

record session_spec =
  ss_backend :: "string option"
  ss_redis_url :: "string option"
  ss_redis_client :: "nat option"
  ss_csrf :: bool
  ss_max_sessions :: int
  ss_timeout_minutes :: int
  ss_absolute_hours :: "int option"
  ss_remember_days :: int
  ss_cleanup_minutes :: int
  ss_cookies :: "cookie_config option"
  ss_cookie_name :: string
  ss_csrf_cookie_name :: string
  ss_storage_prefix :: string
  ss_csrf_storage_prefix :: string
  ss_storage :: "nat option"
  ss_csrf_storage :: "nat option"
  ss_login_max_attempts :: "int option"
  ss_login_attempt_window :: "int option"
  ss_login_lockout_base :: "int option"
  ss_login_lockout_max :: "int option"
  ss_on_login_success :: "login_success_clears option"
  ss_management_routes :: bool

definition default_session_spec :: session_spec where
  "default_session_spec = \<lparr>ss_backend = None, ss_redis_url = None, ss_redis_client = None, ss_csrf = True,
     ss_max_sessions = 5, ss_timeout_minutes = 30, ss_absolute_hours = None, ss_remember_days = 30, ss_cleanup_minutes = 15,
     ss_cookies = None, ss_cookie_name = SESSION_COOKIE_NAME, ss_csrf_cookie_name = CSRF_COOKIE_NAME,
     ss_storage_prefix = SESSION_STORAGE_PREFIX, ss_csrf_storage_prefix = CSRF_STORAGE_PREFIX, ss_storage = None,
     ss_csrf_storage = None, ss_login_max_attempts = None, ss_login_attempt_window = None, ss_login_lockout_base = None,
     ss_login_lockout_max = None, ss_on_login_success = None, ss_management_routes = False\<rparr>"

definition or_default :: "'a option \<Rightarrow> 'a \<Rightarrow> 'a" where
  "or_default x dflt = (case x of None \<Rightarrow> dflt | Some v \<Rightarrow> v)"

definition default_lockout :: "exc + lockout_policy" where
  "default_lockout = lockout_config DEFAULT_LOGIN_MAX_ATTEMPTS DEFAULT_LOGIN_ATTEMPT_WINDOW_SECONDS DEFAULT_LOGIN_LOCKOUT_BASE_SECONDS
     DEFAULT_LOGIN_LOCKOUT_MAX_SECONDS DEFAULT_LOGIN_ROUND_RETENTION_SECONDS Clear_all"

definition lockout_overrides :: "session_spec \<Rightarrow> exc + lockout_policy option" where
  "lockout_overrides s =
     (if ss_login_max_attempts s = None \<and> ss_login_attempt_window s = None \<and> ss_login_lockout_base s = None
         \<and> ss_login_lockout_max s = None \<and> ss_on_login_success s = None
      then Inr None
      else map_sum id Some
        (lockout_config (or_default (ss_login_max_attempts s) DEFAULT_LOGIN_MAX_ATTEMPTS)
           (or_default (ss_login_attempt_window s) DEFAULT_LOGIN_ATTEMPT_WINDOW_SECONDS)
           (or_default (ss_login_lockout_base s) DEFAULT_LOGIN_LOCKOUT_BASE_SECONDS)
           (or_default (ss_login_lockout_max s) DEFAULT_LOGIN_LOCKOUT_MAX_SECONDS) DEFAULT_LOGIN_ROUND_RETENTION_SECONDS
           (or_default (ss_on_login_success s) Clear_all)))"

record session_config =
  sx_args :: session_spec
  sx_backend :: "string option"
  sx_lockout :: "lockout_policy option"

definition own_redis :: "session_spec \<Rightarrow> bool" where
  "own_redis s \<longleftrightarrow> ss_redis_url s \<noteq> None \<or> ss_redis_client s \<noteq> None"

definition mk_session_transport :: "session_spec \<Rightarrow> exc + session_config" where
  "mk_session_transport s =
     (if ss_redis_url s \<noteq> None \<and> ss_redis_client s \<noteq> None then Inl (ValueError ''redis_url and redis_client are mutually exclusive'')
      else if ss_cookie_name s = ss_csrf_cookie_name s then Inl (ValueError ''cookie_name and csrf_cookie_name must differ'')
      else if ss_storage_prefix s = ss_csrf_storage_prefix s
      then Inl (ValueError ''storage_prefix and csrf_storage_prefix must differ'')
      else if ss_storage s \<noteq> None \<and> (ss_backend s \<noteq> None \<or> own_redis s)
      then Inl (ValueError (''storage can't be combined with backend, redis_url or redis_client: ''
        @ ''the store you pass decides where sessions live''))
      else if ss_storage s \<noteq> None \<and> ss_storage_prefix s \<noteq> SESSION_STORAGE_PREFIX
      then Inl (ValueError ''storage carries its own key prefix; drop storage_prefix'')
      else if ss_storage s \<noteq> None \<and> ss_csrf s \<and> ss_csrf_storage s = None
      then Inl (ValueError ''storage needs a csrf_storage while csrf is on'')
      else if ss_storage s = None \<and> ss_csrf_storage s \<noteq> None
      then Inl (ValueError ''csrf_storage is only used together with storage'')
      else
        (let backend = (case ss_backend s of None \<Rightarrow> None | Some b \<Rightarrow> if b = [] then None else Some (lower b))
         in if backend \<in> {Some BACKEND_MEMORY, Some BACKEND_DATABASE} \<and> own_redis s
            then Inl (ValueError (''backend='' @ str_repr (or_default backend []) @ '' can't be combined with redis_url or redis_client''))
            else map_sum id (\<lambda>l. \<lparr>sx_args = s, sx_backend = backend, sx_lockout = l\<rparr>) (lockout_overrides s)))"

text \<open>
  What \<open>bind\<close> reads of the runtime. \<open>wr_ua\<close> is the optional package that reads a user agent,
  \<open>wr_from_url\<close> what \<open>Redis.from_url\<close> says of a URL.
\<close>

record wiring =
  wr_secret :: string
  wr_cookies :: cookie_config
  wr_lockout :: lockout_policy
  wr_hops :: nat
  wr_redis :: "redis_client option"
  wr_database :: "database_config option"
  wr_ua :: "(string \<Rightarrow> user_agent_info) option"
  wr_from_url :: "string \<Rightarrow> exc + unit"

datatype store_ref = Built store_config | Passed nat

record bound_session =
  sb_config :: session_config
  sb_backend :: string
  sb_client :: "redis_client option"
  sb_owned :: "redis_client option"
  sb_options :: session_options
  sb_store :: store_ref
  sb_csrf_store :: "store_ref option"
  sb_lockout :: lockout_policy

definition session_cookie_config :: "wiring \<Rightarrow> session_spec \<Rightarrow> cookie_config" where
  "session_cookie_config W s = (case ss_cookies s of None \<Rightarrow> wr_cookies W | Some c \<Rightarrow> c)"

definition manager_options :: "wiring \<Rightarrow> session_spec \<Rightarrow> session_options" where
  "manager_options W s =
     (let cookies = session_cookie_config W s
      in \<lparr>max_sessions = ss_max_sessions s, session_timeout = ss_timeout_minutes s * SECONDS_PER_MINUTE,
          remember_me_timeout = ss_remember_days s * 24 * SECONDS_PER_HOUR,
          cleanup_interval = ss_cleanup_minutes s * SECONDS_PER_MINUTE, cookie_secure = cookie_config.secure cookies,
          cookie_samesite = cookie_config.samesite cookies, cookie_path = cookie_config.path cookies,
          session_cookie_name = ss_cookie_name s, csrf_cookie_name = ss_csrf_cookie_name s, trusted_proxy_hops = wr_hops W,
          key_secret = Some (wr_secret W), absolute_timeout = map_option (\<lambda>h. h * SECONDS_PER_HOUR) (ss_absolute_hours s),
          user_agents_parse = wr_ua W\<rparr>)"

text \<open>The client the transport ends up with, and whether it built it.\<close>

definition session_client :: "wiring \<Rightarrow> session_config \<Rightarrow> (build_log, redis_client option \<times> bool) prog" where
  "session_client W c =
     (case (ss_redis_client (sx_args c), ss_redis_url (sx_args c)) of
        (Some n, _) \<Rightarrow> ret (Some (Given_client n), False)
      | (None, Some url) \<Rightarrow> bind (redis_client_from_url (wr_from_url W) (Some url)) (\<lambda>r. ret (Some r, True))
      | (None, None) \<Rightarrow>
          ret (if sx_backend c \<in> {Some BACKEND_MEMORY, Some BACKEND_DATABASE} then None else wr_redis W, False))"

definition bound_to :: "wiring \<Rightarrow> session_config \<Rightarrow> string \<Rightarrow> redis_client option \<Rightarrow> redis_client option \<Rightarrow> store_ref \<Rightarrow>
    store_ref option \<Rightarrow> bound_session" where
  "bound_to W c backend client own store tokens =
     \<lparr>sb_config = c, sb_backend = backend, sb_client = client, sb_owned = own, sb_options = manager_options W (sx_args c),
      sb_store = store, sb_csrf_store = tokens, sb_lockout = wr_lockout W\<rparr>"

text \<open>The stores, once the client is known: sessions, and tokens while CSRF is on.\<close>

definition session_stores :: "wiring \<Rightarrow> session_config \<Rightarrow> string \<Rightarrow> redis_client option \<Rightarrow> database_config option \<Rightarrow>
    (build_log, store_ref \<times> store_ref option) prog" where
  "session_stores W c backend client database =
     (let s = sx_args c; timeout = ss_timeout_minutes s * SECONDS_PER_MINUTE
      in bind (get_session_storage (wr_from_url W) backend (ss_storage_prefix s) timeout None client database) (\<lambda>store.
         bind (if ss_csrf s
               then bind (get_session_storage (wr_from_url W) backend (ss_csrf_storage_prefix s) timeout None client database) (\<lambda>x. ret (Some (Built x)))
               else ret None) (\<lambda>tokens.
         ret (Built store, tokens))))"

text \<open>The backend for a client; one built on the way is the transport's to close.\<close>

definition connect_session :: "wiring \<Rightarrow> session_config \<Rightarrow> redis_client option \<Rightarrow> bool \<Rightarrow> (build_log, bound_session) prog" where
  "connect_session W c client built =
     (let database = (if client = None then wr_database W else None);
          backend = or_default (sx_backend c)
            (if client \<noteq> None then BACKEND_REDIS else if database \<noteq> None then BACKEND_DATABASE else BACKEND_MEMORY)
      in bind (require (sx_backend c = Some BACKEND_DATABASE \<longrightarrow> database \<noteq> None)
           (''backend='database' needs CRUDAuth(database_store=...)'')) (\<lambda>_.
         bind (if backend = BACKEND_REDIS \<and> client = None
               then bind (redis_client_from_url (wr_from_url W) None) (\<lambda>r. ret (Some r, True)) else ret (client, built)) (\<lambda>(client, built).
         bind (session_stores W c backend client database) (\<lambda>(store, tokens).
         ret (bound_to W c backend client (if built then client else None) store tokens)))))"

definition bind_session :: "wiring \<Rightarrow> session_config \<Rightarrow> (build_log, bound_session) prog" where
  "bind_session W c =
     bind (require (cookie_config.samesite (session_cookie_config W (sx_args c)) \<noteq> ''none'')
       (''SessionTransport cookies cannot use SameSite=None (it weakens CSRF protection). Use 'lax' or 'strict'.'')) (\<lambda>_.
     case ss_storage (sx_args c) of
       Some n \<Rightarrow> ret (bound_to W c BACKEND_CUSTOM None None (Passed n)
         (if ss_csrf (sx_args c) then map_option Passed (ss_csrf_storage (sx_args c)) else None))
     | None \<Rightarrow> bind (session_client W c) (\<lambda>(client, built). connect_session W c client built))"

section \<open>The settings of an application\<close>

datatype transport_spec = Session_config session_config | Bearer_config bearer_transport | App_transport string "exc + unit"

datatype bound_transport = Session_bound bound_session | Bearer_bound bearer_transport | App_bound string

datatype limiter_choice =
    Memory_limiter
  | Redis_limiter redis_client string
  | Database_limiter database_config string
  | App_limiter nat

record oauth_credentials =
  cr_client_id :: string
  cr_client_secret :: string
  cr_scopes :: "string list option"
  cr_issuer :: "string option"

text \<open>
  The keywords of \<open>CRUDAuth\<close>. \<open>as_model\<close> is the user model; the repository's own fields in it
  are overwritten. \<open>as_mfa\<close> comes with whether \<open>MfaConfig.required\<close> is something other than
  \<open>False\<close>, and a register schema with its name.
\<close>

record auth_settings =
  as_secret :: string
  as_model :: user_repo
  as_transports :: "transport_spec list"
  as_column_map :: "(string \<times> string) list"
  as_login :: "string list"
  as_recovery :: "string option"
  as_oauth :: "(string \<times> oauth_credentials) list"
  as_oauth_paths :: "oauth_paths option"
  as_response_mode :: string
  as_default_redirect :: "string option"
  as_email :: "email_config option"
  as_channels :: "channel list"
  as_base_url :: "string option"
  as_cookies :: "cookie_config option"
  as_register_schema :: "(string \<times> string list) option"
  as_register_extra :: "string list"
  as_new_user_defaults :: body
  as_limiter :: "limiter_choice option"
  as_redis_url :: "string option"
  as_redis_client :: "nat option"
  as_database :: "database_config option"
  as_limit_prefix :: "string option"
  as_limits :: "(string \<times> rate_limit) list"
  as_lockout :: "lockout_policy option"
  as_hops :: nat
  as_sudo :: "sudo_config option"
  as_mfa :: "(mfa_config \<times> bool) option"
  as_warn_memory :: bool
  as_fresh_seconds :: int

text \<open>
  Parts of the environment: providers registered so far, what a Fernet key is, the user-agent package, whether
  \<open>Redis.from_url\<close> takes a URL, and whether FastAPI takes a router's prefix and the two paths on it.
\<close>

record environment =
  en_registry :: provider_registry
  en_fernet_key :: "string \<Rightarrow> bool"
  en_ua :: "(string \<Rightarrow> user_agent_info) option"
  en_redis_from_url :: "string \<Rightarrow> exc + unit"
  en_oauth_routes :: "string \<Rightarrow> string \<Rightarrow> string \<Rightarrow> exc + unit"

record oauth_wiring =
  ow_providers :: "(string \<times> oauth_provider) list"
  ow_paths :: oauth_paths
  ow_default_redirect :: string

record wired =
  wd_repo :: user_repo
  wd_wiring :: wiring
  wd_limiter :: limiter_choice
  wd_limits :: "(string \<times> rate_limit) list"
  wd_defaults :: body
  wd_fresh_seconds :: int
  wd_transports :: "bound_transport list"
  wd_owned_redis :: "redis_client option"
  wd_stores :: "(string \<times> store_config) list"
  wd_mfa :: "mfa_config option"
  wd_sudo :: "sudo_config option"
  wd_email :: "(email_config option \<times> channel list) option"
  wd_oauth :: "oauth_wiring option"

section \<open>The checks\<close>

definition build_repo :: "auth_settings \<Rightarrow> user_repo" where
  "build_repo A = (as_model A)\<lparr>column_map := as_column_map A, register_extra_fields := as_register_extra A,
     login_fields := as_login A, recovery := as_recovery A\<rparr>"

definition check_places :: "auth_settings \<Rightarrow> (build_log, unit) prog" where
  "check_places A =
     bind (require (as_secret A \<noteq> []) ''SECRET_KEY is required'') (\<lambda>_.
     bind (require (\<not> (as_database A \<noteq> None \<and> (as_redis_url A \<noteq> None \<or> as_redis_client A \<noteq> None)))
       (''database_store can't be combined with redis_url or redis_client: pick one place to keep server-side state'')) (\<lambda>_.
     bind (require (\<not> (as_redis_client A \<noteq> None \<and> as_redis_url A \<noteq> None)) ''redis_url and redis_client are mutually exclusive'') (\<lambda>_.
     require (\<not> (as_limit_prefix A \<noteq> None \<and> as_limiter A \<noteq> None))
       (''rate_limit_prefix can't be combined with rate_limiter: give the backend you pass its own prefix''))))"

definition validate_identity :: "auth_settings \<Rightarrow> (build_log, unit) prog" where
  "validate_identity A =
     (let R = build_repo A
      in bind (for_each (as_login A) (\<lambda>f. require (is_unique_column R f)
           (''identity.login field '' @ [APOSTROPHE] @ f @ [APOSTROPHE] @ '' is not a unique column on the user model; every login field must be a single-field unique column.''))) (\<lambda>_.
         bind (case as_recovery A of None \<Rightarrow> ret () | Some f \<Rightarrow> require (is_unique_column R f)
           (''identity.recovery field '' @ [APOSTROPHE] @ f @ [APOSTROPHE] @ '' is not a unique column on the user model; the recovery field must be a single-field unique column.'')) (\<lambda>_.
         bind (require (\<not> (as_oauth A \<noteq> [] \<and> ''email'' \<notin> set (as_login A)))
           (''OAuth requires 'email' in identity.login - OAuth links and creates accounts by email, so an email-less contract cannot enable OAuth.'')) (\<lambda>_.
         bind (require (\<not> (as_recovery A = None \<and> (as_email A \<noteq> None \<or> as_channels A \<noteq> [])))
           (''email= and channels= deliver recovery tokens, so they require a recovery factor; set identity.recovery or drop them.'')) (\<lambda>_.
         require (\<not> (as_email A \<noteq> None \<and> \<not> has_col R ''email''))
           (''email=EmailConfig(...) requires an 'email' column on the user model.''))))))"

definition quoted_list :: "string list \<Rightarrow> string" where
  "quoted_list xs = ''['' @ join_with '', '' (map str_repr xs) @ '']''"

definition sorted_names :: "string list \<Rightarrow> string" where
  "sorted_names xs = quoted_list (sort (remdups xs))"

definition warn_on_register_extra_fields :: "auth_settings \<Rightarrow> (build_log, unit) prog" where
  "warn_on_register_extra_fields A =
     (let gated = gated_register_fields (build_repo A) (as_register_extra A)
      in if as_register_extra A = [] \<or> gated = [] then ret ()
         else warning (''register_extra_fields lists privileged field(s) '' @ sorted_names gated
           @ ''; these stay gated and will NOT be settable at registration. Remove them.''))"

definition warn_on_privileged_register_fields :: "auth_settings \<Rightarrow> (build_log, unit) prog" where
  "warn_on_privileged_register_fields A =
     (case as_register_schema A of
        None \<Rightarrow> ret ()
      | Some (name, fs) \<Rightarrow>
          (let gated = gated_register_fields (build_repo A) fs; droppable = droppable_register_fields (build_repo A) fs
           in bind (if gated = [] then ret () else warning (''register_schema '' @ name @ '' declares privileged field(s) '' @ sorted_names gated
                @ '' that registration will ignore. /register may only set '' @ sorted_names REGISTRATION_ALLOWED_FIELDS
                @ '' plus columns you opt in via register_extra_fields; remove these from the schema.'')) (\<lambda>_.
              if droppable = [] then ret () else warning (''register_schema '' @ name @ '' declares field(s) '' @ sorted_names droppable
                @ '' that map to model columns but are not opted in; registration will drop them. Add them to register_extra_fields=''
                @ sorted_names droppable @ '' to persist them.''))))"

section \<open>The runtime\<close>

definition first_session :: "transport_spec list \<Rightarrow> session_config option" where
  "first_session ts = (case concat (map (\<lambda>t. case t of Session_config c \<Rightarrow> [c] | _ \<Rightarrow> []) ts) of [] \<Rightarrow> None | c # _ \<Rightarrow> Some c)"

definition build_limiter :: "auth_settings \<Rightarrow> redis_client option \<Rightarrow> limiter_choice" where
  "build_limiter A client =
     (case as_limiter A of
        Some l \<Rightarrow> l
      | None \<Rightarrow>
          (case client of
             Some c \<Rightarrow> Redis_limiter c (or_default (as_limit_prefix A) REDIS_KEY_PREFIX)
           | None \<Rightarrow>
               (case as_database A of
                  Some d \<Rightarrow> Database_limiter d (or_default (as_limit_prefix A) [])
                | None \<Rightarrow> Memory_limiter)))"

definition build_lockout :: "auth_settings \<Rightarrow> session_config option \<Rightarrow> exc + lockout_policy" where
  "build_lockout A first =
     (let on_transport = (case first of None \<Rightarrow> None | Some c \<Rightarrow> sx_lockout c)
      in if as_lockout A \<noteq> None \<and> on_transport \<noteq> None
         then Inl (ValueError (''Login lockout is configured twice: pass either CRUDAuth(lockout=LockoutConfig(...)) ''
           @ ''or SessionTransport's login_* arguments, not both.''))
         else (case as_lockout A of
                 Some l \<Rightarrow> Inr (l\<lparr>fail_open := False\<rparr>)
               | None \<Rightarrow> (case on_transport of Some l \<Rightarrow> Inr (l\<lparr>fail_open := False\<rparr>) | None \<Rightarrow> default_lockout)))"

definition default_cookies :: cookie_config where
  "default_cookies = \<lparr>secure = True, samesite = ''lax'', path = ''/''\<rparr>"

definition build_wiring :: "environment \<Rightarrow> auth_settings \<Rightarrow> redis_client option \<Rightarrow> lockout_policy \<Rightarrow> wiring" where
  "build_wiring V A client lock =
     \<lparr>wr_secret = as_secret A, wr_cookies = or_default (as_cookies A) default_cookies, wr_lockout = lock, wr_hops = as_hops A,
      wr_redis = client, wr_database = as_database A, wr_ua = en_ua V, wr_from_url = en_redis_from_url V\<rparr>"

definition bind_transport :: "wiring \<Rightarrow> transport_spec \<Rightarrow> (build_log, bound_transport) prog" where
  "bind_transport W t =
     (case t of
        Session_config c \<Rightarrow> bind (bind_session W c) (\<lambda>b. ret (Session_bound b))
      | Bearer_config b \<Rightarrow> ret (Bearer_bound b)
      | App_transport name r \<Rightarrow> bind (returned r) (\<lambda>_. ret (App_bound name)))"

section \<open>Stores of the features\<close>

definition MEMORY_TOKEN_STORES :: string where
  "MEMORY_TOKEN_STORES = ''one-time-token/OAuth-state stores''"

definition MEMORY_MFA_STORE :: string where
  "MEMORY_MFA_STORE = ''MFA store''"

definition bound_sessions :: "bound_transport list \<Rightarrow> bound_session list" where
  "bound_sessions ts = concat (map (\<lambda>t. case t of Session_bound b \<Rightarrow> [b] | _ \<Rightarrow> []) ts)"

definition first_bound :: "bound_transport list \<Rightarrow> bound_session option" where
  "first_bound ts = (case bound_sessions ts of [] \<Rightarrow> None | b # _ \<Rightarrow> Some b)"

definition backend_config :: "wiring \<Rightarrow> bound_transport list \<Rightarrow> string \<times> redis_client option" where
  "backend_config W ts =
     (if wr_redis W \<noteq> None then (BACKEND_REDIS, wr_redis W)
      else if wr_database W \<noteq> None then (BACKEND_DATABASE, None)
      else (case first_bound ts of
              None \<Rightarrow> (BACKEND_MEMORY, None)
            | Some b \<Rightarrow> if sb_backend b \<noteq> BACKEND_CUSTOM then (sb_backend b, sb_client b) else (BACKEND_MEMORY, None)))"

definition new_store :: "wiring \<Rightarrow> bound_transport list \<Rightarrow> string \<Rightarrow> string \<Rightarrow> int \<Rightarrow> (build_log, string \<times> store_config) prog" where
  "new_store W ts label pfx ttl =
     (let (backend, client) = backend_config W ts
      in bind (get_session_storage (wr_from_url W) backend pfx ttl None client (wr_database W)) (\<lambda>store. ret (label, store)))"

section \<open>Second factor, sudo, email, OAuth\<close>

definition build_mfa :: "environment \<Rightarrow> auth_settings \<Rightarrow> wiring \<Rightarrow> bound_transport list \<Rightarrow> mfa_config \<Rightarrow>
    (build_log, (string \<times> store_config) list) prog" where
  "build_mfa V A W ts config =
     (let missing = filter (\<lambda>f. \<not> has_col (build_repo A) f) MFA_FIELDS
      in bind (require (missing = []) (''mfa=MfaConfig(...) needs the MFA columns '' @ quoted_list missing
             @ '' on the user model. Use make_auth_identity(mfa=True), or map them via column_map=.'')) (\<lambda>_.
         bind (require (wr_secret W \<notin> set (encryption_keys config)) ''MfaConfig.encryption_key must differ from SECRET_KEY.'') (\<lambda>_.
         bind (new_store W ts MEMORY_MFA_STORE CHALLENGE_STORAGE_PREFIX (challenge_ttl_seconds config)) (\<lambda>store.
         bind (require (list_all (en_fernet_key V) (encryption_keys config))
             ''MfaConfig.encryption_key must be a Fernet key (32 url-safe base64-encoded bytes).'') (\<lambda>_.
         ret [store])))))"

definition require_session_manager :: "bound_transport list \<Rightarrow> string \<Rightarrow> (build_log, bound_session) prog" where
  "require_session_manager ts message = (case first_bound ts of None \<Rightarrow> raise (ValueError message) | Some b \<Rightarrow> ret b)"

definition build_sudo :: "bound_transport list \<Rightarrow> sudo_config \<Rightarrow> (build_log, sudo_config) prog" where
  "build_sudo ts config =
     bind (require_session_manager ts
       ''Sudo stamps the elevation on a server-side session; add a SessionTransport to transports=[...].'') (\<lambda>_. ret config)"

definition build_email :: "wiring \<Rightarrow> bound_transport list \<Rightarrow> (build_log, (string \<times> store_config) list) prog" where
  "build_email W ts =
     bind (new_store W ts MEMORY_TOKEN_STORES ''used_token:'' USED_TOKEN_TTL_SECONDS) (\<lambda>store. ret [store])"

definition oauth_provider_of :: "environment \<Rightarrow> user_repo \<Rightarrow> string \<Rightarrow> oauth_credentials \<Rightarrow> string \<Rightarrow> (build_log, oauth_provider) prog" where
  "oauth_provider_of V R name cr uri =
     bind (require (has_col R (name @ ''_id''))
       (''OAuth provider '' @ str_repr name @ '' needs a '' @ [APOSTROPHE] @ name @ ''_id'' @ [APOSTROPHE]
        @ '' column on the user model to store and match its account id. Add it (e.g. '' @ [APOSTROPHE] @ name
        @ ''_id: Mapped[str | None] = mapped_column(unique=True, index=True, default=None)'' @ [APOSTROPHE] @ '') or map it via column_map=.'')) (\<lambda>_.
     case cr_issuer cr of
       Some iss \<Rightarrow>
         if iss \<noteq> [] then returned (oidc_provider (cr_client_id cr) (cr_client_secret cr) uri iss name (cr_scopes cr) ([], [], []))
         else returned (create_provider (en_registry V) name (cr_client_id cr) (cr_client_secret cr) uri (cr_scopes cr))
     | None \<Rightarrow> returned (create_provider (en_registry V) name (cr_client_id cr) (cr_client_secret cr) uri (cr_scopes cr)))"

text \<open>The checks \<open>build_oauth_router\<close> makes of what it is mounted with, and FastAPI's of the router it then builds.\<close>

definition check_oauth_router :: "environment \<Rightarrow> string \<Rightarrow> oauth_paths \<Rightarrow> (build_log, unit) prog" where
  "check_oauth_router V mode ps =
     bind (require (mode \<in> {''redirect'', ''json''}) (''response_mode must be 'redirect' or 'json'' @ [APOSTROPHE])) (\<lambda>_.
     bind (for_each [path_of ps ''authorize_path'', path_of ps ''callback_path''] (\<lambda>p.
       require (contains p PROVIDER_FIELD) (''OAuth path '' @ str_repr p @ '' must contain '' @ str_repr PROVIDER_FIELD))) (\<lambda>_.
     returned (en_oauth_routes V (path_of ps ''prefix'') (path_of ps ''authorize_path'') (path_of ps ''callback_path''))))"

definition build_oauth :: "environment \<Rightarrow> auth_settings \<Rightarrow> wiring \<Rightarrow> bound_transport list \<Rightarrow>
    (build_log, oauth_wiring \<times> (string \<times> store_config) list) prog" where
  "build_oauth V A W ts =
     bind (require_session_manager ts ''OAuth establishes a session on callback; add a SessionTransport to transports=[...].'') (\<lambda>_.
     let base = or_default (as_base_url A) []
     in bind (require (base \<noteq> []) ''redirect_base_url is required when oauth=... is configured'') (\<lambda>_.
        bind (case as_default_redirect A of
                None \<Rightarrow> ret ()
              | Some u \<Rightarrow> bind (returned (is_redirect_target u)) (\<lambda>ok. require ok
                  (''oauth_default_redirect '' @ str_repr u @ '' must be a same-origin path such as '/app/login' or an absolute http(s) URL''))) (\<lambda>_.
        bind (returned (resolve_oauth_paths (as_oauth_paths A))) (\<lambda>ps.
        bind (map_prog (\<lambda>(name, cr). bind (oauth_provider_of V (build_repo A) name cr (callback_url base ps name)) (\<lambda>p. ret (name, p)))
                (as_oauth A)) (\<lambda>providers.
        bind (new_store W ts MEMORY_TOKEN_STORES ''oauth_state:'' OAUTH_STATE_TTL_SECONDS) (\<lambda>store.
        bind (check_oauth_router V (as_response_mode A) ps) (\<lambda>_.
        ret (\<lparr>ow_providers = providers, ow_paths = ps, ow_default_redirect = given (as_default_redirect A) base\<rparr>, [store]))))))))"

section \<open>Warnings\<close>

definition warn_on_oauth_skipping_required_mfa :: "auth_settings \<Rightarrow> (build_log, unit) prog" where
  "warn_on_oauth_skipping_required_mfa A =
     (case as_mfa A of
        None \<Rightarrow> ret ()
      | Some (config, demanded) \<Rightarrow>
          if as_oauth A \<noteq> [] \<and> demanded \<and> \<not> mfa_oauth config
          then warning (''crudauth: MfaConfig.required is set but OAuth logins skip MFA (MfaConfig.oauth=False), so a required account ''
            @ ''with a linked provider can sign in without a code. Set MfaConfig(oauth=True) to challenge them.'')
          else ret ())"

definition memory_parts :: "wired \<Rightarrow> string list" where
  "memory_parts D =
     (if wd_limiter D = Memory_limiter then [''rate limiter (lockout/throttle counters)''] else [])
     @ (if list_ex (\<lambda>b. sb_backend b = BACKEND_MEMORY) (bound_sessions (wd_transports D)) then [''sessions/CSRF''] else [])
     @ filter (\<lambda>label. list_ex (\<lambda>(name, store). name = label \<and> sc_place store = In_memory) (wd_stores D))
         [MEMORY_TOKEN_STORES, MEMORY_MFA_STORE]"

definition memory_warning :: "string list \<Rightarrow> string" where
  "memory_warning parts = ''crudauth: using in-memory backend(s) - '' @ join_with '', '' parts @ ''. In-memory state is per-process, so ''
     @ ''under multiple workers it is NOT shared and those guarantees weaken silently. Pass redis_url= or redis_client= to CRUDAuth in production, or ''
     @ ''warn_on_memory_backend=False to silence.''"

definition warn_on_memory_backend :: "wired \<Rightarrow> (build_log, unit) prog" where
  "warn_on_memory_backend D = (if memory_parts D = [] then ret () else warning (memory_warning (memory_parts D)))"

section \<open>The constructor\<close>

definition default_session_config :: session_config where
  "default_session_config = \<lparr>sx_args = default_session_spec, sx_backend = None, sx_lockout = None\<rparr>"

definition specs_of :: "auth_settings \<Rightarrow> transport_spec list" where
  "specs_of A = (if as_transports A = [] then [Session_config default_session_config] else as_transports A)"

text \<open>The checks and warnings that need no backend; what is kept of \<open>new_user_defaults\<close> and the limits of every action.\<close>

definition check_settings :: "auth_settings \<Rightarrow> (build_log, body \<times> (string \<times> rate_limit) list) prog" where
  "check_settings A =
     bind (check_places A) (\<lambda>_.
     bind (validate_identity A) (\<lambda>_.
     bind (require (0 \<le> as_fresh_seconds A) ''fresh_sign_in_seconds must be 0 (closed) or a number of seconds'') (\<lambda>_.
     let (defaults, dropped) = filter_provisioning_data (build_repo A) [] (as_new_user_defaults A)
     in bind (if dropped = [] then ret () else warning (''crudauth: new_user_fields tried to set crudauth-owned field(s) '' @ sorted_names dropped
          @ ''; dropped (crudauth's value is authoritative). Return only app columns.'')) (\<lambda>_.
        bind (warn_on_register_extra_fields A) (\<lambda>_.
        bind (warn_on_privileged_register_fields A) (\<lambda>_.
        bind (returned (merge_rate_limits (as_limits A))) (\<lambda>limits.
        ret (defaults, limits))))))))"

text \<open>The shared client, the limiter and the lockout on it, then every transport bound in order.\<close>

definition build_runtime :: "environment \<Rightarrow> auth_settings \<Rightarrow>
    (build_log, redis_client option \<times> limiter_choice \<times> wiring \<times> bound_transport list) prog" where
  "build_runtime V A =
     bind (case as_redis_url A of None \<Rightarrow> ret None | Some url \<Rightarrow> bind (redis_client_from_url (en_redis_from_url V) (Some url)) (\<lambda>c. ret (Some c))) (\<lambda>own.
     let client = (case as_redis_client A of Some n \<Rightarrow> Some (Given_client n) | None \<Rightarrow> own)
     in bind (returned (build_lockout A (first_session (specs_of A)))) (\<lambda>lock.
        let W = build_wiring V A client lock
        in bind (map_prog (bind_transport W) (specs_of A)) (\<lambda>ts. ret (own, build_limiter A client, W, ts))))"

definition build_features :: "environment \<Rightarrow> auth_settings \<Rightarrow> wiring \<Rightarrow> bound_transport list \<Rightarrow>
    (build_log, (string \<times> store_config) list \<times> sudo_config option \<times> oauth_wiring option) prog" where
  "build_features V A W ts =
     bind (case as_mfa A of None \<Rightarrow> ret [] | Some (config, _) \<Rightarrow> build_mfa V A W ts config) (\<lambda>mfa_stores.
     bind (case as_sudo A of None \<Rightarrow> ret None | Some config \<Rightarrow> bind (build_sudo ts config) (\<lambda>c. ret (Some c))) (\<lambda>elevation.
     bind (if as_email A \<noteq> None \<or> as_channels A \<noteq> [] then build_email W ts else ret []) (\<lambda>email_stores.
     bind (if as_oauth A = [] then ret (None, []) else bind (build_oauth V A W ts) (\<lambda>(x, stores). ret (Some x, stores))) (\<lambda>(oauth, oauth_stores).
     ret (mfa_stores @ email_stores @ oauth_stores, elevation, oauth)))))"

definition app_record :: "auth_settings \<Rightarrow> body \<times> (string \<times> rate_limit) list \<Rightarrow>
    redis_client option \<times> limiter_choice \<times> wiring \<times> bound_transport list \<Rightarrow>
    (string \<times> store_config) list \<times> sudo_config option \<times> oauth_wiring option \<Rightarrow> wired" where
  "app_record A checked shared made =
     (let (defaults, limits) = checked; (own, lim, W, ts) = shared; (stores, elevation, oauth) = made
      in \<lparr>wd_repo = build_repo A, wd_wiring = W, wd_limiter = lim, wd_limits = limits, wd_defaults = defaults,
          wd_fresh_seconds = as_fresh_seconds A, wd_transports = ts, wd_owned_redis = own, wd_stores = stores,
          wd_mfa = map_option fst (as_mfa A), wd_sudo = elevation,
          wd_email = (if as_email A \<noteq> None \<or> as_channels A \<noteq> [] then Some (as_email A, as_channels A) else None), wd_oauth = oauth\<rparr>)"

definition crud_auth_of :: "environment \<Rightarrow> auth_settings \<Rightarrow> (build_log, wired) prog" where
  "crud_auth_of V A =
     bind (check_settings A) (\<lambda>checked.
     bind (build_runtime V A) (\<lambda>shared.
     bind (case shared of (_, _, W, ts) \<Rightarrow> build_features V A W ts) (\<lambda>made.
     bind (warn_on_oauth_skipping_required_mfa A) (\<lambda>_.
     bind (if as_warn_memory A then warn_on_memory_backend (app_record A checked shared made) else ret ()) (\<lambda>_.
     ret (app_record A checked shared made))))))"

text \<open>What the transport's own defaults construct, and what a mount of the OAuth routes checks.\<close>

lemma default_session_constructed: "mk_session_transport default_session_spec = Inr default_session_config"
  by (simp add: mk_session_transport_def default_session_spec_def default_session_config_def lockout_overrides_def own_redis_def
      SESSION_COOKIE_NAME_def CSRF_COOKIE_NAME_def SESSION_STORAGE_PREFIX_def CSRF_STORAGE_PREFIX_def)

lemma oauth_router_checked:
  "fst (check_oauth_router V (ob_mode B) ps s) = (case build_oauth_router B (path_of ps ''authorize_path'') (path_of ps ''callback_path'') of
       Inl e \<Rightarrow> Inl e
     | Inr _ \<Rightarrow> en_oauth_routes V (path_of ps ''prefix'') (path_of ps ''authorize_path'') (path_of ps ''callback_path''))"
  by (simp add: returned_def check_oauth_router_def build_oauth_router_def require_def run_simps split: sum.split)

end
