(* ===== verification/ConstructionLaws.thy ===== *)
theory ConstructionLaws
  imports Construction StoreSpec
begin

text \<open>
  What a construction of \<open>CRUDAuth\<close> amounts to. \<open>done_simps\<close> collects the equations that say
  when a step of a construction succeeds and with what; from them follow what is accepted, what an
  application that was accepted looks like, and where its state lives.
\<close>

section \<open>When a step succeeds\<close>

named_theorems done_simps

lemma done_bind [done_simps]: "fst (bind m f s) = Inr y \<longleftrightarrow> (\<exists>x. fst (m s) = Inr x \<and> fst (f x (snd (m s))) = Inr y)"
  by (auto simp: bind_run split: sum.split)

lemma done_simple [done_simps]:
  "fst (ret x s) = Inr y \<longleftrightarrow> y = x" "fst (raise e s) = Inr z \<longleftrightarrow> False" "fst (returned r s) = Inr w \<longleftrightarrow> r = Inr w"
  by (auto simp: run_simps returned_def split: sum.split)

lemma done_logged [done_simps]:
  "fst (require ok msg s) = Inr u \<longleftrightarrow> ok" "fst (warning msg s) = Inr u \<longleftrightarrow> True"
  "fst (redis_client_from_url from_url url s) = Inr c
     \<longleftrightarrow> from_url (given url DEFAULT_REDIS_URL) = Inr () \<and> c = Client_for (given url DEFAULT_REDIS_URL)"
  by (auto simp: run_simps require_def warning_def redis_client_from_url_def returned_def Let_def split: sum.split)

lemma done_for_each [done_simps]: "fst (for_each xs (\<lambda>x. require (P x) (msg x)) s) = Inr u \<longleftrightarrow> (\<forall>x \<in> set xs. P x)"
  by (induction xs arbitrary: s) (simp_all add: done_simps)

lemma done_map:
  assumes "fst (map_prog f xs s) = Inr ys"
  shows "list_all2 (\<lambda>x y. \<exists>s. fst (f x s) = Inr y) xs ys"
  using assms by (induction xs arbitrary: s ys) (auto simp: done_simps)

lemma done_map_iff:
  assumes "\<And>x s y. x \<in> set xs \<Longrightarrow> fst (f x s) = Inr y \<longleftrightarrow> R x y"
  shows "fst (map_prog f xs s) = Inr ys \<longleftrightarrow> list_all2 R xs ys"
  using assms by (induction xs arbitrary: s ys) (auto simp: done_simps list_all2_Cons1)

section \<open>The settings\<close>

definition one_place :: "auth_settings \<Rightarrow> bool" where
  "one_place A \<longleftrightarrow> as_secret A \<noteq> [] \<and> (as_database A = None \<or> as_redis_url A = None \<and> as_redis_client A = None)
     \<and> (as_redis_client A = None \<or> as_redis_url A = None) \<and> (as_limit_prefix A = None \<or> as_limiter A = None)"

definition identity_agrees :: "auth_settings \<Rightarrow> bool" where
  "identity_agrees A \<longleftrightarrow> (\<forall>f \<in> set (as_login A). is_unique_column (build_repo A) f)
     \<and> (case as_recovery A of None \<Rightarrow> as_email A = None \<and> as_channels A = [] | Some f \<Rightarrow> is_unique_column (build_repo A) f)
     \<and> (as_oauth A \<noteq> [] \<longrightarrow> ''email'' \<in> set (as_login A)) \<and> (as_email A \<noteq> None \<longrightarrow> has_col (build_repo A) ''email'')"

lemma done_places: "fst (check_places A s) = Inr u \<longleftrightarrow> one_place A"
  by (auto simp: check_places_def one_place_def done_simps)

lemma done_identity: "fst (validate_identity A s) = Inr u \<longleftrightarrow> identity_agrees A"
  by (cases "as_recovery A") (auto simp: validate_identity_def identity_agrees_def done_simps Let_def)

lemma done_register_warnings:
  "fst (warn_on_register_extra_fields A s) = Inr u" "fst (warn_on_privileged_register_fields A s) = Inr u"
  by (simp_all add: warn_on_register_extra_fields_def warn_on_privileged_register_fields_def Let_def done_simps split: option.split prod.split)

lemma done_settings:
  "fst (check_settings A s) = Inr (defaults, limits) \<longleftrightarrow> one_place A \<and> identity_agrees A \<and> 0 \<le> as_fresh_seconds A
     \<and> merge_rate_limits (as_limits A) = Inr limits \<and> defaults = fst (filter_provisioning_data (build_repo A) [] (as_new_user_defaults A))"
proof -
  have "fst ((if c then ret () else warning msg) s) = Inr u" for c msg u and s :: build_log
    by (simp add: done_simps)
  then show ?thesis
    by (auto simp: check_settings_def done_simps done_places done_identity done_register_warnings Let_def split: prod.splits)
qed

section \<open>Where a store is built\<close>

definition place_named :: "(string \<Rightarrow> exc + unit) \<Rightarrow> string \<Rightarrow> string option \<Rightarrow> redis_client option \<Rightarrow> database_config option \<Rightarrow> store_place option" where
  "place_named from_url backend url client database =
     (let b = lower (if backend = [] then BACKEND_MEMORY else backend)
      in if b = BACKEND_MEMORY then Some In_memory
         else if b = BACKEND_REDIS
         then (case client of Some c \<Rightarrow> Some (In_redis c False)
           | None \<Rightarrow> if from_url (given url DEFAULT_REDIS_URL) = Inr ()
               then Some (In_redis (Client_for (given url DEFAULT_REDIS_URL)) True) else None)
         else if b = BACKEND_DATABASE then map_option In_database database else None)"

lemma done_storage:
  "fst (get_session_storage from_url backend pfx ttl url client database s) = Inr store
     \<longleftrightarrow> (\<exists>pl. place_named from_url backend url client database = Some pl \<and> store = \<lparr>sc_place = pl, sc_prefix = pfx, sc_expiration = ttl\<rparr>)"
  by (auto simp: get_session_storage_def place_named_def Let_def done_simps split: option.splits)

lemma lower_backends [simp]:
  "lower BACKEND_MEMORY = BACKEND_MEMORY" "lower BACKEND_REDIS = BACKEND_REDIS" "lower BACKEND_DATABASE = BACKEND_DATABASE"
  "BACKEND_MEMORY \<noteq> []" "BACKEND_REDIS \<noteq> []" "BACKEND_DATABASE \<noteq> []" "BACKEND_MEMORY \<noteq> BACKEND_REDIS" "BACKEND_MEMORY \<noteq> BACKEND_DATABASE"
  "BACKEND_REDIS \<noteq> BACKEND_DATABASE" "BACKEND_REDIS \<noteq> BACKEND_MEMORY" "BACKEND_DATABASE \<noteq> BACKEND_MEMORY" "BACKEND_DATABASE \<noteq> BACKEND_REDIS"
  "BACKEND_CUSTOM \<noteq> BACKEND_MEMORY" "BACKEND_CUSTOM \<noteq> BACKEND_REDIS" "BACKEND_CUSTOM \<noteq> BACKEND_DATABASE"
  "BACKEND_MEMORY \<noteq> BACKEND_CUSTOM" "BACKEND_REDIS \<noteq> BACKEND_CUSTOM" "BACKEND_DATABASE \<noteq> BACKEND_CUSTOM"
  by (simp_all add: backend_defs lower_def lower_char_def)

section \<open>Where a session transport ends up\<close>

text \<open>The transports of an application are results of \<open>mk_session_transport\<close>.\<close>

definition constructed :: "session_config \<Rightarrow> bool" where
  "constructed c \<longleftrightarrow> mk_session_transport (sx_args c) = Inr c"

lemma constructedD:
  assumes "constructed c"
  shows "ss_cookie_name (sx_args c) \<noteq> ss_csrf_cookie_name (sx_args c)" "ss_storage_prefix (sx_args c) \<noteq> ss_csrf_storage_prefix (sx_args c)"
    "ss_storage (sx_args c) \<noteq> None \<Longrightarrow> ss_csrf (sx_args c) \<Longrightarrow> ss_csrf_storage (sx_args c) \<noteq> None"
    "sx_backend c \<in> {Some BACKEND_MEMORY, Some BACKEND_DATABASE} \<Longrightarrow> \<not> own_redis (sx_args c)"
    "sx_backend c = Some b \<Longrightarrow> b \<noteq> [] \<and> (\<exists>b'. b = lower b')" "lockout_overrides (sx_args c) = Inr (sx_lockout c)"
proof -
  obtain l where l: "lockout_overrides (sx_args c) = Inr l" "sx_lockout c = l"
      "sx_backend c = (case ss_backend (sx_args c) of None \<Rightarrow> None | Some b \<Rightarrow> if b = [] then None else Some (lower b))"
    using assms by (cases "lockout_overrides (sx_args c)"; cases c)
      (auto simp: constructed_def mk_session_transport_def Let_def split: if_splits)
  show "ss_cookie_name (sx_args c) \<noteq> ss_csrf_cookie_name (sx_args c)" "ss_storage_prefix (sx_args c) \<noteq> ss_csrf_storage_prefix (sx_args c)"
    "ss_storage (sx_args c) \<noteq> None \<Longrightarrow> ss_csrf (sx_args c) \<Longrightarrow> ss_csrf_storage (sx_args c) \<noteq> None"
    using assms by (auto simp: constructed_def mk_session_transport_def split: if_splits)
  show "sx_backend c \<in> {Some BACKEND_MEMORY, Some BACKEND_DATABASE} \<Longrightarrow> \<not> own_redis (sx_args c)"
    using assms by (auto simp: constructed_def mk_session_transport_def Let_def l(3) split: if_splits)
  show "sx_backend c = Some b \<Longrightarrow> b \<noteq> [] \<and> (\<exists>b'. b = lower b')"
    using l(3) by (auto simp: lower_def split: option.splits if_splits)
  show "lockout_overrides (sx_args c) = Inr (sx_lockout c)" using l by simp
qed

definition effective_client :: "wiring \<Rightarrow> session_config \<Rightarrow> redis_client option" where
  "effective_client W c =
     (case (ss_redis_client (sx_args c), ss_redis_url (sx_args c)) of
        (Some n, _) \<Rightarrow> Some (Given_client n)
      | (None, Some url) \<Rightarrow> Some (Client_for (given (Some url) DEFAULT_REDIS_URL))
      | (None, None) \<Rightarrow> if sx_backend c \<in> {Some BACKEND_MEMORY, Some BACKEND_DATABASE} then None else wr_redis W)"

text \<open>The shared backend of an application: its Redis client, else its database, else the process.\<close>

definition shared_place :: "wiring \<Rightarrow> store_place" where
  "shared_place W =
     (case wr_redis W of
        Some r \<Rightarrow> In_redis r False
      | None \<Rightarrow> (case wr_database W of Some d \<Rightarrow> In_database d | None \<Rightarrow> In_memory))"

definition session_place :: "wiring \<Rightarrow> session_config \<Rightarrow> store_place option" where
  "session_place W c =
     (case sx_backend c of
        None \<Rightarrow> (case effective_client W c of Some r \<Rightarrow> Some (In_redis r False) | None \<Rightarrow> Some (shared_place W))
      | Some b \<Rightarrow>
          if b = BACKEND_MEMORY then Some In_memory
          else if b = BACKEND_REDIS then Some (In_redis (or_default (effective_client W c) (Client_for DEFAULT_REDIS_URL)) False)
          else if b = BACKEND_DATABASE then map_option In_database (wr_database W) else None)"

fun backend_at :: "store_place \<Rightarrow> string" where
  "backend_at In_memory = BACKEND_MEMORY"
| "backend_at (In_redis r o') = BACKEND_REDIS"
| "backend_at (In_database d) = BACKEND_DATABASE"

fun client_at :: "store_place \<Rightarrow> redis_client option" where
  "client_at (In_redis r o') = Some r"
| "client_at _ = None"

definition built_at :: "store_place \<Rightarrow> string \<Rightarrow> session_config \<Rightarrow> store_ref" where
  "built_at pl pfx c = Built \<lparr>sc_place = pl, sc_prefix = pfx, sc_expiration = ss_timeout_minutes (sx_args c) * SECONDS_PER_MINUTE\<rparr>"

definition session_bound_at :: "wiring \<Rightarrow> session_config \<Rightarrow> store_place \<Rightarrow> redis_client option \<Rightarrow> bound_session" where
  "session_bound_at W c pl own = bound_to W c (backend_at pl) (client_at pl) own (built_at pl (ss_storage_prefix (sx_args c)) c)
     (if ss_csrf (sx_args c) then Some (built_at pl (ss_csrf_storage_prefix (sx_args c)) c) else None)"

text \<open>A client of its own for a session transport: for its URL, or for the default one if it wants Redis and has none.\<close>

definition url_taken :: "wiring \<Rightarrow> session_config \<Rightarrow> bool" where
  "url_taken W c \<longleftrightarrow> (\<forall>url. ss_redis_client (sx_args c) = None \<and> ss_redis_url (sx_args c) = Some url \<longrightarrow>
     wr_from_url W (given (Some url) DEFAULT_REDIS_URL) = Inr ())"

definition default_taken :: "wiring \<Rightarrow> session_config \<Rightarrow> bool" where
  "default_taken W c \<longleftrightarrow> (sx_backend c = Some BACKEND_REDIS \<and> effective_client W c = None \<longrightarrow> wr_from_url W DEFAULT_REDIS_URL = Inr ())"

lemma given_none [simp]: "given None u = u"
  by (simp add: given_def)

lemma done_client:
  "fst (session_client W c s) = Inr (client, built) \<longleftrightarrow> url_taken W c \<and> client = effective_client W c
     \<and> (built \<longleftrightarrow> ss_redis_client (sx_args c) = None \<and> ss_redis_url (sx_args c) \<noteq> None)"
  by (auto simp: session_client_def effective_client_def url_taken_def done_simps split: option.splits)

definition owned_client :: "wiring \<Rightarrow> session_config \<Rightarrow> redis_client option" where
  "owned_client W c =
     (if ss_redis_client (sx_args c) = None \<and> ss_redis_url (sx_args c) \<noteq> None then effective_client W c
      else if sx_backend c = Some BACKEND_REDIS \<and> effective_client W c = None then Some (Client_for DEFAULT_REDIS_URL) else None)"

lemma place_of_session:
  assumes "constructed c" and "backend = or_default (sx_backend c) (if effective_client W c \<noteq> None then BACKEND_REDIS
      else if wr_database W \<noteq> None then BACKEND_DATABASE else BACKEND_MEMORY)"
    and "client = (if backend = BACKEND_REDIS \<and> effective_client W c = None then Some (Client_for DEFAULT_REDIS_URL) else effective_client W c)"
  shows "place_named from_url backend None client (if effective_client W c = None then wr_database W else None) = session_place W c"
    and "session_place W c = Some pl \<Longrightarrow> backend = backend_at pl \<and> client = client_at pl"
proof -
  note c = constructedD(4,5) [OF assms(1)]
  have none: "effective_client W c = None" if "sx_backend c \<in> {Some BACKEND_MEMORY, Some BACKEND_DATABASE}"
    using c(1) [OF that] that by (auto simp: effective_client_def own_redis_def split: option.splits)
  show "place_named from_url backend None client (if effective_client W c = None then wr_database W else None) = session_place W c"
  proof (cases "sx_backend c")
    case (Some b)
    then have "b \<noteq> []" "lower b = b" using c(2) by auto
    with Some none show ?thesis
      by (auto simp: assms(2,3) place_named_def session_place_def or_default_def Let_def split: option.split)
  qed (auto simp: assms(2,3) place_named_def session_place_def or_default_def shared_place_def effective_client_def Let_def
      split: option.splits)
  show "backend = backend_at pl \<and> client = client_at pl"
    if "session_place W c = Some pl"
    using that none by (auto simp: assms(2,3) session_place_def or_default_def shared_place_def effective_client_def
        split: option.splits if_splits)
qed

lemma done_stores:
  "fst (session_stores W c backend client database s) = Inr x \<longleftrightarrow>
     (\<exists>pl. place_named (wr_from_url W) backend None client database = Some pl \<and> x = (built_at pl (ss_storage_prefix (sx_args c)) c,
        if ss_csrf (sx_args c) then Some (built_at pl (ss_csrf_storage_prefix (sx_args c)) c) else None))"
  by (auto simp: session_stores_def done_simps done_storage built_at_def Let_def)

lemma done_connect:
  assumes "constructed c" and "was \<longleftrightarrow> ss_redis_client (sx_args c) = None \<and> ss_redis_url (sx_args c) \<noteq> None"
  shows "fst (connect_session W c (effective_client W c) was s) = Inr b
     \<longleftrightarrow> default_taken W c \<and> (\<exists>pl. session_place W c = Some pl \<and> b = session_bound_at W c pl (owned_client W c))"
proof -
  define database where "database = (if effective_client W c = None then wr_database W else None)"
  define backend where "backend = or_default (sx_backend c) (if effective_client W c \<noteq> None then BACKEND_REDIS
      else if database \<noteq> None then BACKEND_DATABASE else BACKEND_MEMORY)"
  define client where "client = (if backend = BACKEND_REDIS \<and> effective_client W c = None then Some (Client_for DEFAULT_REDIS_URL) else effective_client W c)"
  define built where "built \<longleftrightarrow> backend = BACKEND_REDIS \<and> effective_client W c = None \<or> was"
  have "backend = or_default (sx_backend c) (if effective_client W c \<noteq> None then BACKEND_REDIS
      else if wr_database W \<noteq> None then BACKEND_DATABASE else BACKEND_MEMORY)" by (simp add: backend_def database_def)
  note place = place_of_session [OF assms(1) this client_def, folded database_def]
  have "was \<Longrightarrow> effective_client W c \<noteq> None" by (auto simp: effective_client_def assms(2))
  then have own: "(if built then client else None) = owned_client W c"
    by (auto simp: built_def client_def backend_def owned_client_def or_default_def assms(2) split: option.splits)
  have based: "sx_backend c = Some BACKEND_DATABASE \<Longrightarrow> session_place W c \<noteq> None \<Longrightarrow> database \<noteq> None"
    using constructedD(4) [OF assms(1)]
    by (auto simp: database_def session_place_def effective_client_def own_redis_def split: option.splits)
  have wants: "backend = BACKEND_REDIS \<and> effective_client W c = None \<longleftrightarrow> sx_backend c = Some BACKEND_REDIS \<and> effective_client W c = None"
    by (auto simp: backend_def or_default_def split: option.splits if_splits)
  have picked: "fst ((if backend = BACKEND_REDIS \<and> effective_client W c = None
        then bind (redis_client_from_url (wr_from_url W) None) (\<lambda>r. ret (Some r, True)) else ret (effective_client W c, was)) s) = Inr x
      \<longleftrightarrow> default_taken W c \<and> x = (client, built)" for s x
    using wants by (auto simp: client_def built_def default_taken_def done_simps)
  let ?then_stores = "\<lambda>(client, built). bind (session_stores W c backend client database) (\<lambda>(store, tokens).
      ret (bound_to W c backend client (if built then client else None) store tokens))"
  have known: "fst (bind (if backend = BACKEND_REDIS \<and> effective_client W c = None
        then bind (redis_client_from_url (wr_from_url W) None) (\<lambda>r. ret (Some r, True)) else ret (effective_client W c, was)) ?then_stores s') = Inr b
      \<longleftrightarrow> default_taken W c \<and> (\<exists>pl. session_place W c = Some pl \<and> b = bound_to W c backend client (if built then client else None)
        (built_at pl (ss_storage_prefix (sx_args c)) c) (if ss_csrf (sx_args c) then Some (built_at pl (ss_csrf_storage_prefix (sx_args c)) c) else None))" for s'
    by (subst done_bind) (auto simp only: picked, simp_all add: done_bind done_simple done_stores place(1) split: prod.splits, auto)
  have "fst (connect_session W c (effective_client W c) was s) = Inr b \<longleftrightarrow> (sx_backend c = Some BACKEND_DATABASE \<longrightarrow> database \<noteq> None)
      \<and> default_taken W c \<and> (\<exists>pl. session_place W c = Some pl \<and> b = bound_to W c backend client (if built then client else None)
        (built_at pl (ss_storage_prefix (sx_args c)) c) (if ss_csrf (sx_args c) then Some (built_at pl (ss_csrf_storage_prefix (sx_args c)) c) else None))"
    unfolding connect_session_def Let_def database_def [symmetric] backend_def [symmetric]
    by (subst done_bind) (simp only: known done_logged simp_thms)
  then show ?thesis using based place(2) own by (auto simp: session_bound_at_def)
qed

lemma done_session:
  assumes "constructed c"
  shows "fst (bind_session W c s) = Inr b \<longleftrightarrow> cookie_config.samesite (session_cookie_config W (sx_args c)) \<noteq> ''none''
     \<and> (case ss_storage (sx_args c) of
          Some n \<Rightarrow> b = bound_to W c BACKEND_CUSTOM None None (Passed n)
            (if ss_csrf (sx_args c) then map_option Passed (ss_csrf_storage (sx_args c)) else None)
        | None \<Rightarrow> url_taken W c \<and> default_taken W c \<and> (\<exists>pl. session_place W c = Some pl \<and> b = session_bound_at W c pl (owned_client W c)))"
  using done_connect [OF assms refl]
  by (cases "ss_storage (sx_args c)") (simp_all add: bind_session_def done_simps done_client)

section \<open>The runtime\<close>

definition session_binds :: "wiring \<Rightarrow> session_config \<Rightarrow> bound_session \<Rightarrow> bool" where
  "session_binds W c b \<longleftrightarrow> cookie_config.samesite (session_cookie_config W (sx_args c)) \<noteq> ''none''
     \<and> (case ss_storage (sx_args c) of
          Some n \<Rightarrow> b = bound_to W c BACKEND_CUSTOM None None (Passed n)
            (if ss_csrf (sx_args c) then map_option Passed (ss_csrf_storage (sx_args c)) else None)
        | None \<Rightarrow> url_taken W c \<and> default_taken W c \<and> (\<exists>pl. session_place W c = Some pl \<and> b = session_bound_at W c pl (owned_client W c)))"

fun binds :: "wiring \<Rightarrow> transport_spec \<Rightarrow> bound_transport \<Rightarrow> bool" where
  "binds W (Session_config c) t \<longleftrightarrow> (\<exists>b. t = Session_bound b \<and> session_binds W c b)"
| "binds W (Bearer_config y) t \<longleftrightarrow> t = Bearer_bound y"
| "binds W (App_transport name r) t \<longleftrightarrow> r = Inr () \<and> t = App_bound name"

definition all_constructed :: "auth_settings \<Rightarrow> bool" where
  "all_constructed A \<longleftrightarrow> (\<forall>c. Session_config c \<in> set (as_transports A) \<longrightarrow> constructed c)"

lemma constructed_specs: "all_constructed A \<Longrightarrow> Session_config c \<in> set (specs_of A) \<Longrightarrow> constructed c"
  using default_session_constructed
  by (auto simp: all_constructed_def specs_of_def constructed_def default_session_config_def split: if_splits)

lemma done_transport:
  assumes "\<And>c. t = Session_config c \<Longrightarrow> constructed c"
  shows "fst (bind_transport W t s) = Inr y \<longleftrightarrow> binds W t y"
  using assms by (cases t) (auto simp: bind_transport_def done_simps done_session session_binds_def)

definition app_client :: "auth_settings \<Rightarrow> redis_client option" where
  "app_client A = (case as_redis_client A of Some n \<Rightarrow> Some (Given_client n)
     | None \<Rightarrow> map_option (\<lambda>url. Client_for (given (Some url) DEFAULT_REDIS_URL)) (as_redis_url A))"

definition app_url_taken :: "environment \<Rightarrow> auth_settings \<Rightarrow> bool" where
  "app_url_taken V A \<longleftrightarrow> (\<forall>url. as_redis_url A = Some url \<longrightarrow> en_redis_from_url V (given (Some url) DEFAULT_REDIS_URL) = Inr ())"

lemma done_runtime:
  assumes "all_constructed A"
  shows "fst (build_runtime V A s) = Inr (own, lim, W, ts) \<longleftrightarrow> app_url_taken V A \<and> (\<exists>lock. build_lockout A (first_session (specs_of A)) = Inr lock
     \<and> own = map_option (\<lambda>url. Client_for (given (Some url) DEFAULT_REDIS_URL)) (as_redis_url A)
     \<and> lim = build_limiter A (app_client A) \<and> W = build_wiring V A (app_client A) lock \<and> list_all2 (binds W) (specs_of A) ts)"
proof -
  have bound: "fst (map_prog (bind_transport W) (specs_of A) s) = Inr ts \<longleftrightarrow> list_all2 (binds W) (specs_of A) ts" for W s ts
    using constructed_specs [OF assms] by (intro done_map_iff done_transport) auto
  have shared: "(case as_redis_client A of None \<Rightarrow> own' | Some n \<Rightarrow> Some (Given_client n)) = app_client A"
    if "own' = map_option (\<lambda>url. Client_for (given (Some url) DEFAULT_REDIS_URL)) (as_redis_url A)" for own'
    by (simp add: app_client_def that split: option.split)
  have owned: "fst ((case as_redis_url A of None \<Rightarrow> ret None | Some url \<Rightarrow> bind (redis_client_from_url (en_redis_from_url V) (Some url)) (\<lambda>c. ret (Some c))) s) = Inr x
      \<longleftrightarrow> app_url_taken V A \<and> x = map_option (\<lambda>url. Client_for (given (Some url) DEFAULT_REDIS_URL)) (as_redis_url A)" for x and s :: build_log
    by (cases "as_redis_url A") (auto simp: done_simps app_url_taken_def)
  show ?thesis
    by (auto simp: build_runtime_def done_simps owned shared [OF refl] bound Let_def)
qed

section \<open>The features\<close>

text \<open>Where the stores of the features are: the shared backend, else beside the first session transport's own.\<close>

definition feature_place :: "wiring \<Rightarrow> bound_transport list \<Rightarrow> store_place" where
  "feature_place W ts =
     (if wr_redis W \<noteq> None \<or> wr_database W \<noteq> None then shared_place W
      else (case first_bound ts of
              None \<Rightarrow> In_memory
            | Some b \<Rightarrow> (case sb_store b of Built store \<Rightarrow> sc_place store | Passed n \<Rightarrow> In_memory)))"

lemma bound_session_from:
  assumes "list_all2 (binds W) specs ts" and "b \<in> set (bound_sessions ts)"
  shows "\<exists>c. Session_config c \<in> set specs \<and> session_binds W c b"
  using assms
proof (induction rule: list_all2_induct)
  case (Cons t specs y ts)
  then show ?case by (cases t) (auto simp: bound_sessions_def)
qed (simp add: bound_sessions_def)

lemma first_bound_in: "first_bound ts = Some b \<Longrightarrow> b \<in> set (bound_sessions ts)"
  by (auto simp: first_bound_def split: list.splits)

lemma done_new_store:
  assumes "list_all2 (binds W) specs ts"
  shows "fst (new_store W ts label pfx ttl s) = Inr x
     \<longleftrightarrow> x = (label, \<lparr>sc_place = feature_place W ts, sc_prefix = pfx, sc_expiration = ttl\<rparr>)"
proof -
  have "case backend_config W ts of (backend, client) \<Rightarrow> place_named (wr_from_url W) backend None client (wr_database W) = Some (feature_place W ts)"
  proof (cases "wr_redis W \<noteq> None \<or> wr_database W \<noteq> None \<or> first_bound ts = None")
    case False
    then obtain b where b: "first_bound ts = Some b" by auto
    then obtain c where "session_binds W c b" using bound_session_from [OF assms first_bound_in] by blast
    then show ?thesis
      using False b
      by (auto simp: backend_config_def feature_place_def session_binds_def bound_to_def session_bound_at_def built_at_def place_named_def
          session_place_def shared_place_def split: option.splits if_splits)
  qed (auto simp: backend_config_def feature_place_def place_named_def shared_place_def Let_def split: option.splits)
  then show ?thesis by (auto simp: new_store_def done_simps done_storage split: prod.splits)
qed

definition feature_store :: "wiring \<Rightarrow> bound_transport list \<Rightarrow> string \<Rightarrow> string \<Rightarrow> int \<Rightarrow> string \<times> store_config" where
  "feature_store W ts label pfx ttl = (label, \<lparr>sc_place = feature_place W ts, sc_prefix = pfx, sc_expiration = ttl\<rparr>)"

definition uses_email :: "auth_settings \<Rightarrow> bool" where
  "uses_email A \<longleftrightarrow> as_email A \<noteq> None \<or> as_channels A \<noteq> []"

definition feature_stores :: "auth_settings \<Rightarrow> wiring \<Rightarrow> bound_transport list \<Rightarrow> (string \<times> store_config) list" where
  "feature_stores A W ts =
     (case as_mfa A of None \<Rightarrow> []
      | Some (config, _) \<Rightarrow> [feature_store W ts MEMORY_MFA_STORE CHALLENGE_STORAGE_PREFIX (challenge_ttl_seconds config)])
     @ (if uses_email A then [feature_store W ts MEMORY_TOKEN_STORES ''used_token:'' USED_TOKEN_TTL_SECONDS] else [])
     @ (if as_oauth A = [] then [] else [feature_store W ts MEMORY_TOKEN_STORES ''oauth_state:'' OAUTH_STATE_TTL_SECONDS])"

definition mfa_fits :: "environment \<Rightarrow> auth_settings \<Rightarrow> bool" where
  "mfa_fits V A \<longleftrightarrow> (case as_mfa A of None \<Rightarrow> True
     | Some (config, _) \<Rightarrow> (\<forall>f \<in> set MFA_FIELDS. has_col (build_repo A) f) \<and> as_secret A \<notin> set (encryption_keys config)
         \<and> list_all (en_fernet_key V) (encryption_keys config))"

definition provider_made :: "environment \<Rightarrow> string \<Rightarrow> oauth_credentials \<Rightarrow> string \<Rightarrow> exc + oauth_provider" where
  "provider_made V name cr uri =
     (if given (cr_issuer cr) [] \<noteq> []
      then oidc_provider (cr_client_id cr) (cr_client_secret cr) uri (given (cr_issuer cr) []) name (cr_scopes cr) ([], [], [])
      else create_provider (en_registry V) name (cr_client_id cr) (cr_client_secret cr) uri (cr_scopes cr))"

definition provider_fits :: "environment \<Rightarrow> auth_settings \<Rightarrow> oauth_paths \<Rightarrow> string \<times> oauth_credentials \<Rightarrow> string \<times> oauth_provider \<Rightarrow> bool" where
  "provider_fits V A ps entry made \<longleftrightarrow> fst made = fst entry \<and> has_col (build_repo A) (fst entry @ ''_id'')
     \<and> provider_made V (fst entry) (snd entry) (callback_url (given (as_base_url A) []) ps (fst entry)) = Inr (snd made)"

definition oauth_built :: "environment \<Rightarrow> auth_settings \<Rightarrow> oauth_wiring \<Rightarrow> bool" where
  "oauth_built V A x \<longleftrightarrow> given (as_base_url A) [] \<noteq> []
     \<and> (case as_default_redirect A of None \<Rightarrow> True | Some u \<Rightarrow> is_redirect_target u = Inr True)
     \<and> resolve_oauth_paths (as_oauth_paths A) = Inr (ow_paths x) \<and> as_response_mode A \<in> {''redirect'', ''json''}
     \<and> contains (path_of (ow_paths x) ''authorize_path'') PROVIDER_FIELD \<and> contains (path_of (ow_paths x) ''callback_path'') PROVIDER_FIELD
     \<and> en_oauth_routes V (path_of (ow_paths x) ''prefix'') (path_of (ow_paths x) ''authorize_path'') (path_of (ow_paths x) ''callback_path'') = Inr ()
     \<and> list_all2 (provider_fits V A (ow_paths x)) (as_oauth A) (ow_providers x)
     \<and> ow_default_redirect x = given (as_default_redirect A) (given (as_base_url A) [])"

lemma given_base [simp]: "or_default u [] = given u []"
  by (simp add: or_default_def given_def split: option.split)

lemma done_mfa:
  assumes "list_all2 (binds W) specs ts" and "as_mfa A = Some (config, demanded)" and "wr_secret W = as_secret A"
  shows "fst (build_mfa V A W ts config s) = Inr stores
     \<longleftrightarrow> mfa_fits V A \<and> stores = [feature_store W ts MEMORY_MFA_STORE CHALLENGE_STORAGE_PREFIX (challenge_ttl_seconds config)]"
  using assms by (auto simp: build_mfa_def done_simps done_new_store [OF assms(1)] mfa_fits_def feature_store_def filter_empty_conv)

lemma done_require_session: "fst (require_session_manager ts msg s) = Inr b \<longleftrightarrow> first_bound ts = Some b"
  by (auto simp: require_session_manager_def done_simps split: option.splits)

lemma done_provider:
  "fst (oauth_provider_of V R name cr uri s) = Inr p \<longleftrightarrow> has_col R (name @ ''_id'') \<and> provider_made V name cr uri = Inr p"
  by (auto simp: oauth_provider_of_def provider_made_def given_def done_simps split: option.split)

lemma done_oauth_router:
  "fst (check_oauth_router V mode ps s) = Inr u \<longleftrightarrow> mode \<in> {''redirect'', ''json''}
     \<and> contains (path_of ps ''authorize_path'') PROVIDER_FIELD \<and> contains (path_of ps ''callback_path'') PROVIDER_FIELD
     \<and> en_oauth_routes V (path_of ps ''prefix'') (path_of ps ''authorize_path'') (path_of ps ''callback_path'') = Inr ()"
  unfolding check_oauth_router_def by (simp only: done_bind done_logged done_for_each done_simple, simp)

lemma done_oauth:
  assumes "list_all2 (binds W) specs ts"
  shows "fst (build_oauth V A W ts s) = Inr (x, stores) \<longleftrightarrow> first_bound ts \<noteq> None \<and> oauth_built V A x
     \<and> stores = [feature_store W ts MEMORY_TOKEN_STORES ''oauth_state:'' OAUTH_STATE_TTL_SECONDS]"
proof -
  have providers: "fst (map_prog (\<lambda>(name, cr). bind (oauth_provider_of V (build_repo A) name cr (callback_url (given (as_base_url A) []) ps name))
      (\<lambda>p. ret (name, p))) (as_oauth A) s) = Inr made \<longleftrightarrow> list_all2 (provider_fits V A ps) (as_oauth A) made" for ps s made
    by (intro done_map_iff) (auto simp: done_simps done_provider provider_fits_def split: prod.splits)
  have redirect: "fst ((case as_default_redirect A of None \<Rightarrow> ret ()
      | Some u \<Rightarrow> bind (returned (is_redirect_target u)) (\<lambda>ok. require ok (msg u))) s) = Inr y
      \<longleftrightarrow> (case as_default_redirect A of None \<Rightarrow> True | Some u \<Rightarrow> is_redirect_target u = Inr True)" for msg y s
    by (auto simp: done_simps split: option.splits)
  show ?thesis
    unfolding build_oauth_def Let_def given_base
    by (cases x) (auto simp: done_bind done_simple done_logged done_require_session redirect providers done_new_store [OF assms] done_oauth_router
        oauth_built_def feature_store_def)
qed

lemma done_features:
  assumes "list_all2 (binds W) specs ts" and "wr_secret W = as_secret A"
  shows "fst (build_features V A W ts s) = Inr (stores, elevation, oauth) \<longleftrightarrow> mfa_fits V A
     \<and> (as_sudo A \<noteq> None \<or> as_oauth A \<noteq> [] \<longrightarrow> first_bound ts \<noteq> None)
     \<and> (if as_oauth A = [] then oauth = None else \<exists>x. oauth = Some x \<and> oauth_built V A x)
     \<and> stores = feature_stores A W ts \<and> elevation = as_sudo A"
proof -
  have mfa: "fst ((case as_mfa A of None \<Rightarrow> ret [] | Some (config, _) \<Rightarrow> build_mfa V A W ts config) s) = Inr x \<longleftrightarrow> mfa_fits V A
      \<and> x = (case as_mfa A of None \<Rightarrow> []
        | Some (config, _) \<Rightarrow> [feature_store W ts MEMORY_MFA_STORE CHALLENGE_STORAGE_PREFIX (challenge_ttl_seconds config)])" for x s
  proof (cases "as_mfa A")
    case (Some p)
    then show ?thesis using done_mfa [OF assms(1) _ assms(2)] by (cases p) simp
  qed (simp add: mfa_fits_def done_simps)
  have elevation: "fst ((case as_sudo A of None \<Rightarrow> ret None | Some config \<Rightarrow> bind (build_sudo ts config) (\<lambda>c. ret (Some c))) s) = Inr x
      \<longleftrightarrow> (as_sudo A \<noteq> None \<longrightarrow> first_bound ts \<noteq> None) \<and> x = as_sudo A" for x s
    by (cases "as_sudo A") (auto simp: build_sudo_def done_simps done_require_session)
  have mails: "fst ((if as_email A \<noteq> None \<or> as_channels A \<noteq> [] then build_email W ts else ret []) s) = Inr x
      \<longleftrightarrow> x = (if uses_email A then [feature_store W ts MEMORY_TOKEN_STORES ''used_token:'' USED_TOKEN_TTL_SECONDS] else [])" for x s
    by (auto simp: build_email_def uses_email_def feature_store_def done_simps done_new_store [OF assms(1)])
  have oauth: "fst ((if as_oauth A = [] then ret (None, []) else bind (build_oauth V A W ts) (\<lambda>(x, stores). ret (Some x, stores))) s) = Inr y
      \<longleftrightarrow> (if as_oauth A = [] then y = (None, []) else first_bound ts \<noteq> None \<and> (\<exists>x. oauth_built V A x
        \<and> y = (Some x, [feature_store W ts MEMORY_TOKEN_STORES ''oauth_state:'' OAUTH_STATE_TTL_SECONDS])))" for y s
    by (cases y) (auto simp: done_simps done_oauth [OF assms(1)])
  show ?thesis
    unfolding build_features_def
    by (subst done_bind, simp only: mfa, subst done_bind, simp only: elevation, subst done_bind, simp only: mails, subst done_bind, simp only: oauth)
      (auto simp: done_simple feature_stores_def)
qed

section \<open>What is accepted\<close>

definition app_wiring :: "environment \<Rightarrow> auth_settings \<Rightarrow> lockout_policy \<Rightarrow> wiring" where
  "app_wiring V A lock = build_wiring V A (app_client A) lock"

definition app_of :: "environment \<Rightarrow> auth_settings \<Rightarrow> lockout_policy \<Rightarrow> (string \<times> rate_limit) list \<Rightarrow> bound_transport list \<Rightarrow> oauth_wiring option \<Rightarrow> wired" where
  "app_of V A lock limits ts oauth =
     \<lparr>wd_repo = build_repo A, wd_wiring = app_wiring V A lock, wd_limiter = build_limiter A (app_client A), wd_limits = limits,
      wd_defaults = fst (filter_provisioning_data (build_repo A) [] (as_new_user_defaults A)), wd_fresh_seconds = as_fresh_seconds A,
      wd_transports = ts, wd_owned_redis = map_option (\<lambda>url. Client_for (given (Some url) DEFAULT_REDIS_URL)) (as_redis_url A),
      wd_stores = feature_stores A (app_wiring V A lock) ts, wd_mfa = map_option fst (as_mfa A), wd_sudo = as_sudo A,
      wd_email = (if uses_email A then Some (as_email A, as_channels A) else None), wd_oauth = oauth\<rparr>"

definition built_from :: "environment \<Rightarrow> auth_settings \<Rightarrow> lockout_policy \<Rightarrow> (string \<times> rate_limit) list \<Rightarrow> bound_transport list \<Rightarrow> oauth_wiring option \<Rightarrow> bool" where
  "built_from V A lock limits ts oauth \<longleftrightarrow> one_place A \<and> identity_agrees A \<and> 0 \<le> as_fresh_seconds A
     \<and> merge_rate_limits (as_limits A) = Inr limits \<and> app_url_taken V A \<and> build_lockout A (first_session (specs_of A)) = Inr lock
     \<and> list_all2 (binds (app_wiring V A lock)) (specs_of A) ts \<and> mfa_fits V A
     \<and> (as_sudo A \<noteq> None \<or> as_oauth A \<noteq> [] \<longrightarrow> first_bound ts \<noteq> None)
     \<and> (if as_oauth A = [] then oauth = None else \<exists>x. oauth = Some x \<and> oauth_built V A x)"

lemma done_app:
  assumes "all_constructed A"
  shows "fst (crud_auth_of V A s) = Inr D \<longleftrightarrow>
     (\<exists>lock limits ts oauth. built_from V A lock limits ts oauth \<and> D = app_of V A lock limits ts oauth)"
proof -
  have warned: "fst (warn_on_oauth_skipping_required_mfa A s) = Inr u" "fst ((if c then warn_on_memory_backend E else ret ()) s) = Inr u" for s u c E
    by (simp_all add: warn_on_oauth_skipping_required_mfa_def warn_on_memory_backend_def done_simps split: option.split prod.split)
  define own where "own = map_option (\<lambda>url. Client_for (given (Some url) DEFAULT_REDIS_URL)) (as_redis_url A)"
  define needs where "needs ts \<longleftrightarrow> (as_sudo A \<noteq> None \<or> as_oauth A \<noteq> [] \<longrightarrow> first_bound ts \<noteq> None)" for ts
  define provides where "provides oauth \<longleftrightarrow> (if as_oauth A = [] then oauth = None else \<exists>x. oauth = Some x \<and> oauth_built V A x)" for oauth
  let ?shared = "\<lambda>lock ts. (own, build_limiter A (app_client A), app_wiring V A lock, ts)"
  have settings: "fst (check_settings A s) = Inr x \<longleftrightarrow> one_place A \<and> identity_agrees A \<and> 0 \<le> as_fresh_seconds A
      \<and> (\<exists>limits. merge_rate_limits (as_limits A) = Inr limits
        \<and> x = (fst (filter_provisioning_data (build_repo A) [] (as_new_user_defaults A)), limits))" for x s
    by (cases x) (auto simp: done_settings)
  have shared: "fst (build_runtime V A s) = Inr x \<longleftrightarrow> app_url_taken V A \<and> (\<exists>lock ts. build_lockout A (first_session (specs_of A)) = Inr lock
      \<and> list_all2 (binds (app_wiring V A lock)) (specs_of A) ts \<and> x = ?shared lock ts)" for x s
    by (cases x) (auto simp: done_runtime [OF assms] own_def app_wiring_def)
  have "wr_secret (app_wiring V A lock) = as_secret A" for lock by (simp add: app_wiring_def build_wiring_def)
  then have made: "fst (build_features V A (app_wiring V A lock) ts s) = Inr x \<longleftrightarrow> mfa_fits V A \<and> needs ts \<and> (\<exists>oauth. provides oauth \<and> x = (feature_stores A (app_wiring V A lock) ts, as_sudo A, oauth))"
    if "list_all2 (binds (app_wiring V A lock)) (specs_of A) ts" for lock ts s x
    using done_features [OF that, of A V s] by (cases x) (auto simp: needs_def provides_def)
  have app: "app_record A (fst (filter_provisioning_data (build_repo A) [] (as_new_user_defaults A)), limits) (?shared lock ts)
      (feature_stores A (app_wiring V A lock) ts, as_sudo A, oauth) = app_of V A lock limits ts oauth" for lock limits ts oauth
    by (simp add: app_record_def app_of_def uses_email_def own_def)
  have run: "fst (crud_auth_of V A s) = Inr D \<longleftrightarrow> (\<exists>checked shared made. fst (check_settings A s) = Inr checked
      \<and> fst (build_runtime V A (snd (check_settings A s))) = Inr shared
      \<and> fst ((case shared of (_, _, W, ts) \<Rightarrow> build_features V A W ts) (snd (build_runtime V A (snd (check_settings A s))))) = Inr made
      \<and> D = app_record A checked shared made)"
    by (simp only: crud_auth_of_def done_bind done_simple warned) blast
  show ?thesis
    unfolding run built_from_def needs_def [symmetric] provides_def [symmetric]
  proof
    assume "\<exists>checked shared made. fst (check_settings A s) = Inr checked \<and> fst (build_runtime V A (snd (check_settings A s))) = Inr shared
      \<and> fst ((case shared of (_, _, W, ts) \<Rightarrow> build_features V A W ts) (snd (build_runtime V A (snd (check_settings A s))))) = Inr made
      \<and> D = app_record A checked shared made"
    then obtain checked lock ts made where c: "fst (check_settings A s) = Inr checked" "D = app_record A checked (?shared lock ts) made"
        "app_url_taken V A"
        "build_lockout A (first_session (specs_of A)) = Inr lock" "list_all2 (binds (app_wiring V A lock)) (specs_of A) ts"
        "fst (build_features V A (app_wiring V A lock) ts (snd (build_runtime V A (snd (check_settings A s))))) = Inr made"
      unfolding shared by auto
    then show "\<exists>lock limits ts oauth. (one_place A \<and> identity_agrees A \<and> 0 \<le> as_fresh_seconds A \<and> merge_rate_limits (as_limits A) = Inr limits
        \<and> app_url_taken V A \<and> build_lockout A (first_session (specs_of A)) = Inr lock \<and> list_all2 (binds (app_wiring V A lock)) (specs_of A) ts
        \<and> mfa_fits V A \<and> needs ts \<and> provides oauth) \<and> D = app_of V A lock limits ts oauth"
      using c(1) [unfolded settings] c(6) [unfolded made [OF c(5)]] c(2-5) app by (elim conjE exE) blast
  next
    assume "\<exists>lock limits ts oauth. (one_place A \<and> identity_agrees A \<and> 0 \<le> as_fresh_seconds A \<and> merge_rate_limits (as_limits A) = Inr limits
        \<and> app_url_taken V A \<and> build_lockout A (first_session (specs_of A)) = Inr lock \<and> list_all2 (binds (app_wiring V A lock)) (specs_of A) ts
        \<and> mfa_fits V A \<and> needs ts \<and> provides oauth) \<and> D = app_of V A lock limits ts oauth"
    then obtain lock limits ts oauth where d: "one_place A" "identity_agrees A" "0 \<le> as_fresh_seconds A" "merge_rate_limits (as_limits A) = Inr limits"
        "app_url_taken V A" "build_lockout A (first_session (specs_of A)) = Inr lock" "list_all2 (binds (app_wiring V A lock)) (specs_of A) ts" "mfa_fits V A" "needs ts"
        "provides oauth" "D = app_of V A lock limits ts oauth" by blast
    show "\<exists>checked shared made. fst (check_settings A s) = Inr checked \<and> fst (build_runtime V A (snd (check_settings A s))) = Inr shared
      \<and> fst ((case shared of (_, _, W, ts) \<Rightarrow> build_features V A W ts) (snd (build_runtime V A (snd (check_settings A s))))) = Inr made
      \<and> D = app_record A checked shared made"
      using d made [OF d(7)]
      by (intro exI [of _ "(fst (filter_provisioning_data (build_repo A) [] (as_new_user_defaults A)), limits)"] exI [of _ "?shared lock ts"]
          exI [of _ "(feature_stores A (app_wiring V A lock) ts, as_sudo A, oauth)"]) (simp add: settings shared app)
  qed
qed

end
