(* ===== verification/Applications.thy ===== *)
theory Applications
  imports ConstructionLaws
begin

text \<open>
  What \<open>CRUDAuth\<close> promises of an application it agrees to build: which settings it accepts, that
  what it builds is closed where it has to be, where the state of an application lives, and that its
  stores do not meet on one database.
\<close>

section \<open>What it accepts\<close>

text \<open>
  The URLs a Redis client is built for: the application's own; a session transport's, unless it has a store or
  a client of its own; and the default one, for a transport that asks for Redis where nothing names one.
\<close>

definition redis_urls :: "auth_settings \<Rightarrow> session_config \<Rightarrow> string list" where
  "redis_urls A c =
     (if ss_storage (sx_args c) \<noteq> None \<or> ss_redis_client (sx_args c) \<noteq> None then []
      else case ss_redis_url (sx_args c) of
             Some url \<Rightarrow> [if url = [] then DEFAULT_REDIS_URL else url]
           | None \<Rightarrow> if sx_backend c = Some BACKEND_REDIS \<and> as_redis_url A = None \<and> as_redis_client A = None then [DEFAULT_REDIS_URL] else [])"

definition session_accepted :: "environment \<Rightarrow> auth_settings \<Rightarrow> session_config \<Rightarrow> bool" where
  "session_accepted V A c \<longleftrightarrow> (\<forall>url \<in> set (redis_urls A c). en_redis_from_url V url = Inr ()) \<and>
     cookie_config.samesite (case ss_cookies (sx_args c) of Some k \<Rightarrow> k | None \<Rightarrow> or_default (as_cookies A) default_cookies) \<noteq> ''none''
     \<and> (ss_storage (sx_args c) \<noteq> None \<or> sx_backend c \<in> {None, Some BACKEND_MEMORY, Some BACKEND_REDIS}
        \<or> sx_backend c = Some BACKEND_DATABASE \<and> as_database A \<noteq> None)"

fun transport_accepted :: "environment \<Rightarrow> auth_settings \<Rightarrow> transport_spec \<Rightarrow> bool" where
  "transport_accepted V A (Session_config c) \<longleftrightarrow> session_accepted V A c"
| "transport_accepted V A (Bearer_config y) \<longleftrightarrow> True"
| "transport_accepted V A (App_transport name r) \<longleftrightarrow> r = Inr ()"

definition provider_accepted :: "environment \<Rightarrow> auth_settings \<Rightarrow> oauth_paths \<Rightarrow> string \<times> oauth_credentials \<Rightarrow> bool" where
  "provider_accepted V A ps entry \<longleftrightarrow> has_col (build_repo A) (fst entry @ ''_id'')
     \<and> (case provider_made V (fst entry) (snd entry) (callback_url (given (as_base_url A) []) ps (fst entry)) of Inl e \<Rightarrow> False | Inr p \<Rightarrow> True)"

definition oauth_accepted :: "environment \<Rightarrow> auth_settings \<Rightarrow> bool" where
  "oauth_accepted V A \<longleftrightarrow> given (as_base_url A) [] \<noteq> []
     \<and> (case as_default_redirect A of None \<Rightarrow> True | Some u \<Rightarrow> is_redirect_target u = Inr True) \<and> as_response_mode A \<in> {''redirect'', ''json''}
     \<and> (case resolve_oauth_paths (as_oauth_paths A) of Inl e \<Rightarrow> False
        | Inr ps \<Rightarrow> contains (path_of ps ''authorize_path'') PROVIDER_FIELD \<and> contains (path_of ps ''callback_path'') PROVIDER_FIELD
          \<and> en_oauth_routes V (path_of ps ''prefix'') (path_of ps ''authorize_path'') (path_of ps ''callback_path'') = Inr ()
          \<and> (\<forall>entry \<in> set (as_oauth A). provider_accepted V A ps entry))"

definition accepted :: "environment \<Rightarrow> auth_settings \<Rightarrow> bool" where
  "accepted V A \<longleftrightarrow> one_place A \<and> identity_agrees A \<and> 0 \<le> as_fresh_seconds A \<and> fst ` set (as_limits A) \<subseteq> fst ` set DEFAULT_RATE_LIMITS
     \<and> (as_lockout A = None \<or> (case first_session (specs_of A) of None \<Rightarrow> True | Some c \<Rightarrow> sx_lockout c = None))
     \<and> (\<forall>url. as_redis_url A = Some url \<longrightarrow> en_redis_from_url V (if url = [] then DEFAULT_REDIS_URL else url) = Inr ())
     \<and> (\<forall>t \<in> set (specs_of A). transport_accepted V A t) \<and> mfa_fits V A
     \<and> (as_sudo A \<noteq> None \<or> as_oauth A \<noteq> [] \<longrightarrow> first_session (specs_of A) \<noteq> None) \<and> (as_oauth A \<noteq> [] \<longrightarrow> oauth_accepted V A)"

lemma limits_merged: "(\<exists>limits. merge_rate_limits overrides = Inr limits) \<longleftrightarrow> fst ` set overrides \<subseteq> fst ` set DEFAULT_RATE_LIMITS"
  by (auto simp: merge_rate_limits_def)

lemma default_lockout_ok: "\<exists>l. default_lockout = Inr l \<and> \<not> fail_open l"
  by (simp add: default_lockout_def lockout_config_def default_defs)

lemma lockout_built:
  "(\<exists>lock. build_lockout A first = Inr lock) \<longleftrightarrow> as_lockout A = None \<or> (case first of None \<Rightarrow> True | Some c \<Rightarrow> sx_lockout c = None)"
  using default_lockout_ok by (auto simp: build_lockout_def Let_def split: option.splits)

lemma lockout_closed: "build_lockout A first = Inr lock \<Longrightarrow> \<not> fail_open lock"
  by (auto simp: build_lockout_def default_lockout_def lockout_config_def default_defs Let_def split: option.splits if_splits)

lemma session_bound:
  "(\<exists>b. session_binds (app_wiring V A lock) c b) \<longleftrightarrow> session_accepted V A c"
proof (cases "ss_storage (sx_args c)")
  case None
  let ?W = "app_wiring V A lock"
  let ?known = "sx_backend c \<in> {None, Some BACKEND_MEMORY, Some BACKEND_REDIS} \<or> sx_backend c = Some BACKEND_DATABASE \<and> as_database A \<noteq> None"
  let ?cookies = "case ss_cookies (sx_args c) of Some k \<Rightarrow> k | None \<Rightarrow> or_default (as_cookies A) default_cookies"
  have place: "(\<exists>pl. session_place ?W c = Some pl) \<longleftrightarrow> ?known"
    by (auto simp: session_place_def app_wiring_def build_wiring_def split: option.splits)
  have same: "session_cookie_config ?W (sx_args c) = ?cookies"
    by (simp add: session_cookie_config_def app_wiring_def build_wiring_def split: option.split)
  have urls: "url_taken ?W c \<and> default_taken ?W c \<longleftrightarrow> (\<forall>url \<in> set (redis_urls A c). en_redis_from_url V url = Inr ())"
    using None by (auto simp: redis_urls_def url_taken_def default_taken_def effective_client_def given_def app_wiring_def build_wiring_def
        app_client_def backend_defs split: option.splits)
  have "(\<exists>b. session_binds ?W c b) \<longleftrightarrow> cookie_config.samesite ?cookies \<noteq> ''none'' \<and> (url_taken ?W c \<and> default_taken ?W c) \<and> ?known"
    unfolding place [symmetric] same [symmetric] by (simp add: session_binds_def None)
  then show ?thesis unfolding urls session_accepted_def using None by blast
next
  case (Some n)
  then show ?thesis
    by (simp add: session_binds_def session_accepted_def redis_urls_def session_cookie_config_def app_wiring_def build_wiring_def split: option.split)
qed

lemma app_url_iff: "app_url_taken V A \<longleftrightarrow> (\<forall>url. as_redis_url A = Some url \<longrightarrow> en_redis_from_url V (if url = [] then DEFAULT_REDIS_URL else url) = Inr ())"
  by (simp add: app_url_taken_def given_def)

lemma list_all2_total: "(\<exists>ys. list_all2 R xs ys) \<longleftrightarrow> (\<forall>x \<in> set xs. \<exists>y. R x y)"
proof (induction xs)
  case (Cons x xs)
  then show ?case by (auto simp: list_all2_Cons1)
qed (auto intro!: exI [of _ "[]"])

lemma transports_bound: "(\<exists>ts. list_all2 (binds (app_wiring V A lock)) specs ts) \<longleftrightarrow> (\<forall>t \<in> set specs. transport_accepted V A t)"
proof -
  have "(\<exists>y. binds (app_wiring V A lock) t y) \<longleftrightarrow> transport_accepted V A t" for t
    using session_bound [of V A lock] by (cases t) auto
  then show ?thesis by (simp add: list_all2_total)
qed

lemma first_bound_iff: "list_all2 (binds W) specs ts \<Longrightarrow> first_bound ts = None \<longleftrightarrow> first_session specs = None"
proof (induction rule: list_all2_induct)
  case (Cons t specs y ts)
  then show ?case by (cases t) (auto simp: first_bound_def first_session_def bound_sessions_def split: list.splits)
qed (simp add: first_bound_def first_session_def bound_sessions_def)

lemma oauth_buildable: "(\<exists>x. oauth_built V A x) \<longleftrightarrow> oauth_accepted V A"
proof -
  have "(\<exists>p. provider_fits V A ps entry p) \<longleftrightarrow> provider_accepted V A ps entry" for ps entry
    by (auto simp: provider_fits_def provider_accepted_def split: sum.split)
  then have providers: "(\<exists>made. list_all2 (provider_fits V A ps) entries made) \<longleftrightarrow> (\<forall>entry \<in> set entries. provider_accepted V A ps entry)" for ps entries
    by (simp add: list_all2_total)
  show ?thesis
  proof
    assume "oauth_accepted V A"
    then obtain ps where ps: "resolve_oauth_paths (as_oauth_paths A) = Inr ps"
        "contains (path_of ps ''authorize_path'') PROVIDER_FIELD" "contains (path_of ps ''callback_path'') PROVIDER_FIELD"
        "en_oauth_routes V (path_of ps ''prefix'') (path_of ps ''authorize_path'') (path_of ps ''callback_path'') = Inr ()"
        "\<forall>entry \<in> set (as_oauth A). provider_accepted V A ps entry"
      by (auto simp: oauth_accepted_def split: sum.splits)
    then obtain made where "list_all2 (provider_fits V A ps) (as_oauth A) made" using providers by blast
    then have "oauth_built V A \<lparr>ow_providers = made, ow_paths = ps, ow_default_redirect = given (as_default_redirect A) (given (as_base_url A) [])\<rparr>"
      using ps \<open>oauth_accepted V A\<close> by (simp add: oauth_built_def oauth_accepted_def)
    then show "\<exists>x. oauth_built V A x" ..
  next
    assume "\<exists>x. oauth_built V A x"
    then obtain x where x: "oauth_built V A x" ..
    then have "\<exists>made. list_all2 (provider_fits V A (ow_paths x)) (as_oauth A) made" by (auto simp: oauth_built_def)
    then show "oauth_accepted V A" using x unfolding providers by (simp add: oauth_built_def oauth_accepted_def)
  qed
qed


lemma built_iff_accepted: "(\<exists>lock limits ts oauth. built_from V A lock limits ts oauth) \<longleftrightarrow> accepted V A"
proof
  assume "\<exists>lock limits ts oauth. built_from V A lock limits ts oauth"
  then obtain lock limits ts oauth where b: "built_from V A lock limits ts oauth" by blast
  note d = b [unfolded built_from_def app_url_iff]
  have "fst ` set (as_limits A) \<subseteq> fst ` set DEFAULT_RATE_LIMITS" using d limits_merged [THEN iffD1] by blast
  moreover have "as_lockout A = None \<or> (case first_session (specs_of A) of None \<Rightarrow> True | Some c \<Rightarrow> sx_lockout c = None)"
    using d lockout_built [THEN iffD1] by blast
  moreover have "\<forall>t \<in> set (specs_of A). transport_accepted V A t" using d transports_bound [THEN iffD1] by blast
  moreover have "as_oauth A \<noteq> [] \<longrightarrow> oauth_accepted V A" using d oauth_buildable [of V A] by auto
  moreover have "as_sudo A \<noteq> None \<or> as_oauth A \<noteq> [] \<longrightarrow> first_session (specs_of A) \<noteq> None"
  proof -
    have "list_all2 (binds (app_wiring V A lock)) (specs_of A) ts" using d by (elim conjE)
    from first_bound_iff [OF this] show ?thesis using d by simp
  qed
  ultimately show "accepted V A" unfolding accepted_def using d by (elim conjE) (intro conjI; assumption)
next
  assume a: "accepted V A"
  note d = a [unfolded accepted_def]
  have known: "fst ` set (as_limits A) \<subseteq> fst ` set DEFAULT_RATE_LIMITS" using d by (elim conjE)
  have once: "as_lockout A = None \<or> (case first_session (specs_of A) of None \<Rightarrow> True | Some c \<Rightarrow> sx_lockout c = None)" using d by (elim conjE)
  have fit: "\<forall>t \<in> set (specs_of A). transport_accepted V A t" using d by (elim conjE)
  obtain limits where l1: "merge_rate_limits (as_limits A) = Inr limits" using limits_merged [THEN iffD2, OF known] by blast
  obtain lock where l2: "build_lockout A (first_session (specs_of A)) = Inr lock" using lockout_built [THEN iffD2, OF once] by blast
  note l = l1 l2
  obtain ts where ts: "list_all2 (binds (app_wiring V A lock)) (specs_of A) ts" using transports_bound [THEN iffD2, OF fit] by blast
  obtain oauth where "if as_oauth A = [] then oauth = None else \<exists>x. oauth = Some x \<and> oauth_built V A x"
    using d oauth_buildable [of V A] by (cases "as_oauth A = []") auto
  then have "built_from V A lock limits ts oauth"
    unfolding built_from_def app_url_iff first_bound_iff [OF ts] using d l ts by (elim conjE) (intro conjI; assumption)
  then show "\<exists>lock limits ts oauth. built_from V A lock limits ts oauth" by blast
qed

text \<open>
  C14. Which settings \<open>CRUDAuth\<close> accepts. For settings whose session transports were constructed, the
  constructor returns exactly if the state has one place, login and recovery agree with the model's
  unique columns, every limit is of a known action, the lockout is configured once, \<open>Redis.from_url\<close>
  takes the application's Redis URL if it has one, every transport can be bound (no session cookie with SameSite
  none, a known backend that is there, a URL that \<open>Redis.from_url\<close> takes wherever the transport has a
  client built), the second factor has its columns and keys of its own, and sudo and OAuth have a session
  transport, OAuth also a base URL, a default redirect that is a target, paths with the provider in them whose
  router FastAPI takes, and a provider for every name. What \<open>Redis.from_url\<close>, FastAPI, the Fernet key
  check and a transport of the application's own answer are parameters, as are the providers registered so
  far; the optional packages are installed.
\<close>

theorem construction_accepts_exactly:
  assumes "all_constructed A"
  shows "(\<exists>D. fst (crud_auth_of V A s) = Inr D) \<longleftrightarrow> accepted V A"
  unfolding done_app [OF assms] built_iff_accepted [symmetric] by blast

section \<open>What it builds\<close>

lemma merged_limits: "merge_rate_limits overrides = Inr limits \<Longrightarrow> map_of limits = map_of DEFAULT_RATE_LIMITS ++ map_of (rev overrides)"
proof -
  have "map_of (foldl (\<lambda>acc (a, l). AList.update a l acc) acc xs) = map_of acc ++ map_of (rev xs)" for acc xs :: "(string \<times> rate_limit) list"
  proof (induction xs arbitrary: acc)
    case (Cons p xs)
    then show ?case by (cases p) (simp add: AList.update_conv' fun_eq_iff map_add_def split: option.split)
  qed simp
  then show "merge_rate_limits overrides = Inr limits \<Longrightarrow> map_of limits = map_of DEFAULT_RATE_LIMITS ++ map_of (rev overrides)"
    by (auto simp: merge_rate_limits_def split: if_splits)
qed

text \<open>What binding a constructed transport makes of it.\<close>

definition session_sound :: "auth_settings \<Rightarrow> lockout_policy \<Rightarrow> bound_session \<Rightarrow> bool" where
  "session_sound A lock b \<longleftrightarrow> cookie_samesite (sb_options b) \<noteq> ''none'' \<and> session_cookie_name (sb_options b) \<noteq> csrf_cookie_name (sb_options b)
     \<and> key_secret (sb_options b) = Some (as_secret A) \<and> trusted_proxy_hops (sb_options b) = as_hops A \<and> sb_lockout b = lock
     \<and> (sb_csrf_store b = None \<longleftrightarrow> \<not> ss_csrf (sx_args (sb_config b)))
     \<and> (\<forall>st. sb_store b = Built st \<longrightarrow> sb_csrf_store b \<noteq> Some (sb_store b))"

lemma app_wiring_sel [simp]:
  "wr_secret (app_wiring V A lock) = as_secret A" "wr_lockout (app_wiring V A lock) = lock" "wr_redis (app_wiring V A lock) = app_client A"
  "wr_database (app_wiring V A lock) = as_database A" "wr_hops (app_wiring V A lock) = as_hops A"
  by (simp_all add: app_wiring_def build_wiring_def)

lemma session_binds_sound:
  assumes "session_binds (app_wiring V A lock) c b" and "constructed c"
  shows "session_sound A lock b"
  using assms(1) constructedD(1-3) [OF assms(2)]
  by (auto simp: session_binds_def session_sound_def bound_to_def session_bound_at_def manager_options_def built_at_def Let_def
      split: option.splits if_splits)

lemma sessions_sound:
  assumes "all_constructed A" and "list_all2 (binds (app_wiring V A lock)) (specs_of A) ts" and "b \<in> set (bound_sessions ts)"
  shows "session_sound A lock b"
  using bound_session_from [OF assms(2,3)] session_binds_sound constructed_specs [OF assms(1)] by blast

lemma app_of_sel [simp]:
  "wd_repo (app_of V A lock limits ts oauth) = build_repo A" "wd_wiring (app_of V A lock limits ts oauth) = app_wiring V A lock"
  "wd_limiter (app_of V A lock limits ts oauth) = build_limiter A (app_client A)" "wd_limits (app_of V A lock limits ts oauth) = limits"
  "wd_defaults (app_of V A lock limits ts oauth) = fst (filter_provisioning_data (build_repo A) [] (as_new_user_defaults A))"
  "wd_transports (app_of V A lock limits ts oauth) = ts" "wd_stores (app_of V A lock limits ts oauth) = feature_stores A (app_wiring V A lock) ts"
  "wd_mfa (app_of V A lock limits ts oauth) = map_option fst (as_mfa A)" "wd_sudo (app_of V A lock limits ts oauth) = as_sudo A"
  "wd_email (app_of V A lock limits ts oauth) = (if uses_email A then Some (as_email A, as_channels A) else None)"
  "wd_oauth (app_of V A lock limits ts oauth) = oauth"
  by (simp_all add: app_of_def)

lemma build_repo_sel [simp]: "login_fields (build_repo A) = as_login A" "recovery (build_repo A) = as_recovery A"
  by (simp_all add: build_repo_def)

lemma defaults_are_own: "(k, v) \<in> set (fst (filter_provisioning_data R w kvs)) \<Longrightarrow> k \<notin> set (contract_names R)"
  by (auto simp: filter_provisioning_data_def)

text \<open>
  C17. An application that was built is closed where it must be: it has a secret, login and recovery are unique
  columns, no built-in action lacks its limit, what new users are given sets no field of the contract, the one
  lockout fails closed and every session transport shares it; no session cookie is sent with SameSite none, its
  tokens have a cookie and a store of their own, kept exactly while CSRF is on, and ids are stored under the
  secret; OAuth comes with an email login and a column for every provider, the second factor with its columns
  and keys that are not the secret, and delivery of recovery tokens with a recovery factor.
\<close>

theorem a_built_app_is_closed:
  assumes "all_constructed A" and "fst (crud_auth_of V A s) = Inr D"
  shows "as_secret A \<noteq> [] \<and> wr_secret (wd_wiring D) = as_secret A
     \<and> (\<forall>f \<in> set (login_fields (wd_repo D)). is_unique_column (wd_repo D) f)
     \<and> (\<forall>f. recovery (wd_repo D) = Some f \<longrightarrow> is_unique_column (wd_repo D) f)
     \<and> (\<forall>action \<in> fst ` set DEFAULT_RATE_LIMITS. map_of (wd_limits D) action \<noteq> None)
     \<and> (\<forall>(k, v) \<in> set (wd_defaults D). k \<notin> set (contract_names (wd_repo D)))
     \<and> \<not> fail_open (wr_lockout (wd_wiring D))
     \<and> (\<forall>b \<in> set (bound_sessions (wd_transports D)). session_sound A (wr_lockout (wd_wiring D)) b)
     \<and> (\<forall>x. wd_oauth D = Some x \<longrightarrow> ''email'' \<in> set (login_fields (wd_repo D)) \<and> first_bound (wd_transports D) \<noteq> None
          \<and> (\<forall>(name, p) \<in> set (ow_providers x). has_col (wd_repo D) (name @ ''_id'')))
     \<and> (wd_sudo D \<noteq> None \<longrightarrow> first_bound (wd_transports D) \<noteq> None)
     \<and> (\<forall>c. wd_mfa D = Some c \<longrightarrow> as_secret A \<notin> set (encryption_keys c) \<and> (\<forall>f \<in> set MFA_FIELDS. has_col (wd_repo D) f))
     \<and> (wd_email D \<noteq> None \<longrightarrow> recovery (wd_repo D) \<noteq> None)"
proof -
  obtain lock limits ts oauth where b: "built_from V A lock limits ts oauth" and D: "D = app_of V A lock limits ts oauth"
    using assms(2) unfolding done_app [OF assms(1)] by blast
  note d = b [unfolded built_from_def]
  have places: "one_place A" and identity: "identity_agrees A" and l: "merge_rate_limits (as_limits A) = Inr limits"
    "build_lockout A (first_session (specs_of A)) = Inr lock" and ts: "list_all2 (binds (app_wiring V A lock)) (specs_of A) ts"
    and mfa: "mfa_fits V A" and needs: "as_sudo A \<noteq> None \<or> as_oauth A \<noteq> [] \<longrightarrow> first_bound ts \<noteq> None"
    and ox: "if as_oauth A = [] then oauth = None else \<exists>x. oauth = Some x \<and> oauth_built V A x"
    using d by simp_all
  have limited: "\<forall>action \<in> fst ` set DEFAULT_RATE_LIMITS. map_of limits action \<noteq> None"
    unfolding merged_limits [OF l(1)] map_add_None map_of_eq_None_iff by blast
  have columns: "has_col (build_repo A) (name @ ''_id'')" if x: "oauth_built V A x" "(name, p) \<in> set (ow_providers x)" for x name p
  proof -
    have fits: "list_all2 (provider_fits V A (ow_paths x)) (as_oauth A) (ow_providers x)" using x(1) by (simp add: oauth_built_def)
    obtain i where i: "i < length (ow_providers x)" "ow_providers x ! i = (name, p)" using x(2) by (auto simp: in_set_conv_nth)
    show ?thesis using list_all2_nthD2 [OF fits i(1)] i(2) by (simp add: provider_fits_def)
  qed
  have "\<forall>x. oauth = Some x \<longrightarrow> ''email'' \<in> set (as_login A) \<and> first_bound ts \<noteq> None
      \<and> (\<forall>(name, p) \<in> set (ow_providers x). has_col (build_repo A) (name @ ''_id''))"
    using ox columns needs identity by (auto simp: identity_agrees_def split: if_splits)
  moreover have "\<forall>c. map_option fst (as_mfa A) = Some c \<longrightarrow> as_secret A \<notin> set (encryption_keys c) \<and> (\<forall>f \<in> set MFA_FIELDS. has_col (build_repo A) f)"
    using mfa by (auto simp: mfa_fits_def)
  moreover have "as_secret A \<noteq> []" using places by (simp add: one_place_def)
  moreover have "\<forall>f \<in> set (as_login A). is_unique_column (build_repo A) f" "\<forall>f. as_recovery A = Some f \<longrightarrow> is_unique_column (build_repo A) f"
    "uses_email A \<longrightarrow> as_recovery A \<noteq> None"
    using identity by (cases "as_recovery A"; simp add: identity_agrees_def uses_email_def)+
  moreover have "\<forall>b \<in> set (bound_sessions ts). session_sound A lock b" using sessions_sound [OF assms(1) ts] by blast
  moreover have "\<forall>(k, v) \<in> set (fst (filter_provisioning_data (build_repo A) [] (as_new_user_defaults A))). k \<notin> set (contract_names (build_repo A))"
    using defaults_are_own by blast
  ultimately show ?thesis using limited lockout_closed [OF l(2)] needs by (simp add: D)
qed


section \<open>A concrete application\<close>

definition demo_model :: user_repo where
  "demo_model = demo_repo\<lparr>columns := [''id'', ''email'', ''email_verified'', ''google_id''] @ MFA_FIELDS\<rparr>"

definition demo_log :: build_log where
  "demo_log = \<lparr>warned = [], opened = []\<rparr>"

definition demo_env :: environment where
  "demo_env = \<lparr>en_registry = [(''google'', google_provider)], en_fernet_key = (\<lambda>k. length k = 4), en_ua = None,
     en_redis_from_url = (\<lambda>url. if take 8 url = ''redis://'' then Inr () else Inl (ValueError ''Redis URL must specify a scheme'')),
     en_oauth_routes = (\<lambda>pfx a c. if take 1 pfx = [CHR 0x2F] then Inr () else Inl (AssertionError ''A path prefix must start with a slash''))\<rparr>"

definition demo_settings :: auth_settings where
  "demo_settings = \<lparr>as_secret = ''secret'', as_model = demo_model, as_transports = [], as_column_map = [], as_login = [''email''],
     as_recovery = Some ''email'', as_oauth = [(''google'', \<lparr>cr_client_id = ''id'', cr_client_secret = ''s'', cr_scopes = None, cr_issuer = None\<rparr>)],
     as_oauth_paths = None, as_response_mode = ''redirect'', as_default_redirect = None, as_email = None,
     as_channels = [OtherChannel True (\<lambda>_ _. Inr ())], as_base_url = Some ''https://app'', as_cookies = None, as_register_schema = None,
     as_register_extra = [], as_new_user_defaults = [(''plan'', VStr ''free''), (''is_superuser'', VBool True)], as_limiter = None,
     as_redis_url = None, as_redis_client = None, as_database = Some demo_database, as_limit_prefix = None,
     as_limits = [(''register'', \<lparr>times = 2, seconds = 60\<rparr>)], as_lockout = None, as_hops = 1,
     as_sudo = Some \<lparr>sudo_window_seconds = 300, sudo_max_attempts = 3, sudo_lockout_seconds = 900\<rparr>,
     as_mfa = Some (\<lparr>issuer = ''App'', encryption_keys = [''key1''], required_for = (\<lambda>_. False), mfa_oauth = False,
        challenge_ttl_seconds = 300, max_code_attempts = 5, recovery_code_count = 10\<rparr>, False),
     as_warn_memory = True, as_fresh_seconds = 600\<rparr>"

definition built_app :: "environment \<Rightarrow> auth_settings \<Rightarrow> wired" where
  "built_app V A = projr (fst (crud_auth_of V A demo_log))"

lemma demo_constructed: "all_constructed demo_settings"
  by (simp add: all_constructed_def demo_settings_def)

lemma demo_accepted: "accepted demo_env demo_settings"
proof -
  have specs: "specs_of demo_settings = [Session_config default_session_config]" by (simp add: specs_of_def demo_settings_def)
  have cols: "has_col (build_repo demo_settings) f \<longleftrightarrow> f \<in> {''id'', ''email'', ''email_verified'', ''google_id''} \<union> set MFA_FIELDS" for f
    by (simp add: has_col_def col_def build_repo_def demo_settings_def demo_model_def)
  have unique: "is_unique_column (build_repo demo_settings) ''email''"
    by (simp add: is_unique_column_def col_def build_repo_def demo_settings_def demo_model_def demo_repo_def)
  have "one_place demo_settings" "identity_agrees demo_settings" "mfa_fits demo_env demo_settings"
    using unique cols by (simp_all add: one_place_def identity_agrees_def mfa_fits_def demo_settings_def demo_env_def)
  moreover have "oauth_accepted demo_env demo_settings"
    using cols
    by (simp add: oauth_accepted_def provider_accepted_def provider_made_def demo_settings_def demo_env_def given_def create_provider_def
        google_provider_def mk_provider_def resolve_oauth_paths_def DEFAULT_OAUTH_PATHS_def path_of_def contains_def PROVIDER_FIELD_def)
  moreover have "session_accepted demo_env demo_settings default_session_config"
    by (simp add: session_accepted_def redis_urls_def default_session_config_def default_session_spec_def demo_settings_def default_cookies_def or_default_def)
  moreover have "first_session (specs_of demo_settings) = Some default_session_config" by (simp add: specs first_session_def)
  ultimately show ?thesis
    by (simp add: accepted_def specs) (simp add: demo_settings_def DEFAULT_RATE_LIMITS_def default_session_config_def)
qed

lemma demo_built: "fst (crud_auth_of demo_env demo_settings demo_log) = Inr (built_app demo_env demo_settings)"
proof -
  obtain D where "fst (crud_auth_of demo_env demo_settings demo_log) = Inr D"
    using done_app [OF demo_constructed] built_iff_accepted [of demo_env demo_settings] demo_accepted by blast
  then show ?thesis by (simp add: built_app_def)
qed

text \<open>
  The demo application is built. The same with a session cookie of SameSite none is not, nor is it on a
  Redis URL without a scheme, nor with OAuth under a prefix that does not begin with a slash.
\<close>

theorem construction_accepts_exactly_witness:
  "(\<exists>D. fst (crud_auth_of demo_env demo_settings demo_log) = Inr D)
   \<and> \<not> (\<exists>D. fst (crud_auth_of demo_env (demo_settings\<lparr>as_cookies := Some \<lparr>secure = True, samesite = ''none'', path = ''/''\<rparr>\<rparr>) demo_log) = Inr D)
   \<and> \<not> (\<exists>D. fst (crud_auth_of demo_env (demo_settings\<lparr>as_database := None, as_redis_url := Some ''foo''\<rparr>) demo_log) = Inr D)
   \<and> \<not> (\<exists>D. fst (crud_auth_of demo_env (demo_settings\<lparr>as_oauth_paths := Some [(''prefix'', ''auth'')]\<rparr>) demo_log) = Inr D)"
proof -
  let ?A = "demo_settings\<lparr>as_cookies := Some \<lparr>secure = True, samesite = ''none'', path = ''/''\<rparr>\<rparr>"
  let ?B = "demo_settings\<lparr>as_database := None, as_redis_url := Some ''foo''\<rparr>"
  let ?C = "demo_settings\<lparr>as_oauth_paths := Some [(''prefix'', ''auth'')]\<rparr>"
  have "all_constructed ?A" "all_constructed ?B" "all_constructed ?C" by (simp_all add: all_constructed_def demo_settings_def)
  moreover have "\<not> accepted demo_env ?A"
    by (simp add: accepted_def specs_of_def session_accepted_def default_session_config_def default_session_spec_def demo_settings_def or_default_def)
  moreover have "\<not> accepted demo_env ?B"
    by (simp add: accepted_def demo_settings_def demo_env_def)
  moreover have "\<not> accepted demo_env ?C"
    by (simp add: accepted_def oauth_accepted_def demo_settings_def demo_env_def resolve_oauth_paths_def DEFAULT_OAUTH_PATHS_def path_of_def)
  ultimately show ?thesis
    using demo_constructed demo_accepted construction_accepts_exactly [of demo_settings demo_env demo_log]
      construction_accepts_exactly [of ?A demo_env demo_log] construction_accepts_exactly [of ?B demo_env demo_log]
      construction_accepts_exactly [of ?C demo_env demo_log] by blast
qed

theorem a_built_app_is_closed_witness:
  "map_of (wd_limits (built_app demo_env demo_settings)) ''mfa_manage'' \<noteq> None
   \<and> (''is_superuser'', VBool True) \<notin> set (wd_defaults (built_app demo_env demo_settings))
   \<and> \<not> fail_open (wr_lockout (wd_wiring (built_app demo_env demo_settings)))"
proof -
  have "''mfa_manage'' \<in> fst ` set DEFAULT_RATE_LIMITS" by (simp add: DEFAULT_RATE_LIMITS_def)
  moreover have "''is_superuser'' \<in> set (contract_names R)" for R by (simp add: contract_names_def with_columns_def LOGICAL_FIELDS_def)
  ultimately show ?thesis using a_built_app_is_closed [OF demo_constructed demo_built] by blast
qed

end
