(* ===== verification/Places.thy ===== *)
theory Places
  imports Applications
begin

text \<open>
  Where the state of an application lives. With one Redis client or one database for the application, its
  stores, its counters and every session transport that does not choose otherwise are there, what is
  kept in the process is reported, and on one database none of the stores sees another's entries.
\<close>

section \<open>One backend\<close>

definition follows_app :: "session_config \<Rightarrow> bool" where
  "follows_app c \<longleftrightarrow> ss_storage (sx_args c) = None \<and> sx_backend c = None \<and> \<not> own_redis (sx_args c)"

fun limiter_place :: "limiter_choice \<Rightarrow> store_place option" where
  "limiter_place Memory_limiter = Some In_memory"
| "limiter_place (Redis_limiter r pfx) = Some (In_redis r False)"
| "limiter_place (Database_limiter d pfx) = Some (In_database d)"
| "limiter_place (App_limiter n) = None"

fun ref_place :: "store_ref \<Rightarrow> store_place option" where
  "ref_place (Built st) = Some (sc_place st)"
| "ref_place (Passed n) = None"

text \<open>
  What of an application's state is in its process, by kind: its limiter, a session transport's
  stores, a store of used tokens or OAuth states, the store of login challenges.
\<close>

definition kept_under :: "wired \<Rightarrow> string list \<Rightarrow> store_place \<Rightarrow> bool" where
  "kept_under D prefixes pl \<longleftrightarrow> (\<exists>(label, st) \<in> set (wd_stores D). sc_prefix st \<in> set prefixes \<and> sc_place st = pl)"

definition process_report :: "wired \<Rightarrow> string list" where
  "process_report D =
     (if limiter_place (wd_limiter D) = Some In_memory then [''rate limiter (lockout/throttle counters)''] else [])
     @ (if \<exists>b \<in> set (bound_sessions (wd_transports D)). ref_place (sb_store b) = Some In_memory then [''sessions/CSRF''] else [])
     @ (if kept_under D [''used_token:'', ''oauth_state:''] In_memory then [''one-time-token/OAuth-state stores''] else [])
     @ (if kept_under D [CHALLENGE_STORAGE_PREFIX] In_memory then [''MFA store''] else [])"

lemma binds_place:
  assumes "session_binds W c b"
  shows "sb_config b = c" and "follows_app c \<Longrightarrow> ref_place (sb_store b) = Some (shared_place W)"
    and "sb_csrf_store b = Some r \<Longrightarrow> ref_place r = ref_place (sb_store b)"
    and "sb_backend b = BACKEND_MEMORY \<longleftrightarrow> ref_place (sb_store b) = Some In_memory"
proof -
  consider (own) n where "ss_storage (sx_args c) = Some n" "b = bound_to W c BACKEND_CUSTOM None None (Passed n)
      (if ss_csrf (sx_args c) then map_option Passed (ss_csrf_storage (sx_args c)) else None)"
    | (built) pl where "session_place W c = Some pl" "b = session_bound_at W c pl (owned_client W c)"
    using assms by (auto simp: session_binds_def split: option.splits)
  note cases = this
  show "sb_config b = c" using cases by cases (simp_all add: bound_to_def session_bound_at_def)
  show "ref_place r = ref_place (sb_store b)" if "sb_csrf_store b = Some r"
    using cases that by cases (auto simp: bound_to_def session_bound_at_def built_at_def split: if_splits)
  have m: "backend_at pl = BACKEND_MEMORY \<longleftrightarrow> pl = In_memory" for pl by (cases pl) auto
  show "sb_backend b = BACKEND_MEMORY \<longleftrightarrow> ref_place (sb_store b) = Some In_memory"
    using cases by cases (simp_all add: m bound_to_def session_bound_at_def built_at_def)
  show "ref_place (sb_store b) = Some (shared_place W)" if "follows_app c"
  proof -
    have p: "session_place W c = Some (shared_place W)"
      using that by (simp add: follows_app_def session_place_def effective_client_def own_redis_def shared_place_def split: option.split)
    show ?thesis using cases that by cases (simp_all add: p session_bound_at_def bound_to_def built_at_def follows_app_def)
  qed
qed

lemma feature_stores_from:
  assumes "(label, st) \<in> set (feature_stores A W ts)"
  shows "sc_place st = feature_place W ts" "label \<in> {MEMORY_TOKEN_STORES, MEMORY_MFA_STORE}"
    "sc_prefix st \<in> {CHALLENGE_STORAGE_PREFIX, ''used_token:'', ''oauth_state:''}"
  using assms by (auto simp: feature_stores_def feature_store_def split: option.splits if_splits)

lemma feature_store_labels:
  assumes "(label, st) \<in> set (feature_stores A W ts)"
  shows "label = MEMORY_TOKEN_STORES \<longleftrightarrow> sc_prefix st \<in> {''used_token:'', ''oauth_state:''}"
    "label = MEMORY_MFA_STORE \<longleftrightarrow> sc_prefix st = CHALLENGE_STORAGE_PREFIX"
  using assms
  by (auto simp: feature_stores_def feature_store_def MEMORY_TOKEN_STORES_def MEMORY_MFA_STORE_def CHALLENGE_STORAGE_PREFIX_def
      split: option.splits if_splits)

lemma memory_parts_report:
  assumes "D = app_of V A lock limits ts oauth" and "list_all2 (binds (app_wiring V A lock)) (specs_of A) ts"
  shows "memory_parts D = process_report D"
proof -
  have "sb_backend b = BACKEND_MEMORY \<longleftrightarrow> ref_place (sb_store b) = Some In_memory" if "b \<in> set (bound_sessions ts)" for b
    using bound_session_from [OF assms(2) that] binds_place(4) by blast
  then have sessions: "list_ex (\<lambda>b. sb_backend b = BACKEND_MEMORY) (bound_sessions (wd_transports D))
      \<longleftrightarrow> (\<exists>b \<in> set (bound_sessions (wd_transports D)). ref_place (sb_store b) = Some In_memory)"
    by (auto simp: list_ex_iff assms(1))
  have limiter: "wd_limiter D = Memory_limiter \<longleftrightarrow> limiter_place (wd_limiter D) = Some In_memory"
    by (cases "wd_limiter D") simp_all
  have tokens: "list_ex (\<lambda>(name, store). name = MEMORY_TOKEN_STORES \<and> sc_place store = In_memory) (wd_stores D)
      \<longleftrightarrow> kept_under D [''used_token:'', ''oauth_state:''] In_memory"
    using feature_store_labels(1) by (fastforce simp: list_ex_iff kept_under_def assms(1))
  have challenges: "list_ex (\<lambda>(name, store). name = MEMORY_MFA_STORE \<and> sc_place store = In_memory) (wd_stores D)
      \<longleftrightarrow> kept_under D [CHALLENGE_STORAGE_PREFIX] In_memory"
    using feature_store_labels(2) by (fastforce simp: list_ex_iff kept_under_def assms(1))
  show ?thesis
    unfolding memory_parts_def process_report_def sessions limiter by (simp add: tokens challenges flip: MEMORY_TOKEN_STORES_def MEMORY_MFA_STORE_def)
qed

text \<open>The last thing a construction logs.\<close>

lemma memory_reported:
  assumes "crud_auth_of V A s = (Inr D, t)" and "as_warn_memory A" and "memory_parts D \<noteq> []"
  shows "last (warned t) = memory_warning (memory_parts D)"
proof -
  from assms(1) obtain u x where "(if as_warn_memory A then warn_on_memory_backend D else ret ()) u = (Inr x, t)"
    unfolding crud_auth_of_def by (elim bind_eq_InrE) (auto simp: ret_run)
  then show ?thesis using assms(2,3)
    by (auto simp: run_simps warn_on_memory_backend_def warning_def split: if_splits)
qed

text \<open>
  C28. One backend holds the state of an application. Once \<open>CRUDAuth\<close> is given Redis or a database, every
  store of its features is there, so is its limiter unless one was passed, and so are the sessions and
  CSRF tokens of every transport that names no backend, client or store of its own; without either, such a
  transport and the limiter are in the process. When something is in the process and the warning is not
  switched off, the last thing logged is a warning that names exactly what is there: the limiter, sessions
  and CSRF tokens, used tokens and OAuth states, login challenges. A store that the
  application passed in, or a limiter it passed (taken to be of a class of its own), is not counted.
\<close>

theorem state_lives_on_the_shared_backend:
  assumes "all_constructed A" and "crud_auth_of V A s = (Inr D, t)"
  shows "(shared_place (wd_wiring D) \<noteq> In_memory \<longleftrightarrow> as_redis_url A \<noteq> None \<or> as_redis_client A \<noteq> None \<or> as_database A \<noteq> None)
     \<and> (shared_place (wd_wiring D) \<noteq> In_memory \<longrightarrow> (\<forall>(label, st) \<in> set (wd_stores D). sc_place st = shared_place (wd_wiring D)))
     \<and> (as_limiter A = None \<longrightarrow> limiter_place (wd_limiter D) = Some (shared_place (wd_wiring D)))
     \<and> (\<forall>b \<in> set (bound_sessions (wd_transports D)). follows_app (sb_config b) \<longrightarrow>
          ref_place (sb_store b) = Some (shared_place (wd_wiring D)))
     \<and> (\<forall>b \<in> set (bound_sessions (wd_transports D)). \<forall>r. sb_csrf_store b = Some r \<longrightarrow> ref_place r = ref_place (sb_store b))
     \<and> (as_warn_memory A \<and> process_report D \<noteq> [] \<longrightarrow> last (warned t) = memory_warning (process_report D))"
proof -
  have "fst (crud_auth_of V A s) = Inr D" using assms(2) by simp
  then obtain lock limits ts oauth where b: "built_from V A lock limits ts oauth" and D: "D = app_of V A lock limits ts oauth"
    unfolding done_app [OF assms(1)] by blast
  have ts: "list_all2 (binds (app_wiring V A lock)) (specs_of A) ts" using b by (simp add: built_from_def)
  have shared: "shared_place (app_wiring V A lock) \<noteq> In_memory \<longleftrightarrow> as_redis_url A \<noteq> None \<or> as_redis_client A \<noteq> None \<or> as_database A \<noteq> None"
    by (auto simp: shared_place_def app_client_def split: option.splits)
  have stores: "\<forall>(label, st) \<in> set (wd_stores D). sc_place st = feature_place (app_wiring V A lock) ts"
    using feature_stores_from(1) by (fastforce simp: D)
  have moved: "feature_place (app_wiring V A lock) ts = shared_place (app_wiring V A lock)" if "shared_place (app_wiring V A lock) \<noteq> In_memory"
    using that by (auto simp: feature_place_def shared_place_def split: option.splits)
  have limited: "limiter_place (build_limiter A (app_client A)) = Some (shared_place (app_wiring V A lock))" if "as_limiter A = None"
    using that by (simp add: build_limiter_def shared_place_def split: option.split)
  have sessions: "(follows_app (sb_config x) \<longrightarrow> ref_place (sb_store x) = Some (shared_place (app_wiring V A lock)))
      \<and> (\<forall>r. sb_csrf_store x = Some r \<longrightarrow> ref_place r = ref_place (sb_store x))" if "x \<in> set (bound_sessions ts)" for x
    using bound_session_from [OF ts that] binds_place(1-3) by metis
  show ?thesis
    using shared stores moved limited sessions memory_reported [OF assms(2)] memory_parts_report [OF D ts]
    by (auto simp: D)
qed

section \<open>One database\<close>

definition built_refs :: "store_ref \<Rightarrow> store_config list" where
  "built_refs r = (case r of Built st \<Rightarrow> [st] | Passed n \<Rightarrow> [])"

definition session_stores_of :: "bound_session \<Rightarrow> store_config list" where
  "session_stores_of b = built_refs (sb_store b) @ (case sb_csrf_store b of None \<Rightarrow> [] | Some r \<Rightarrow> built_refs r)"

definition app_stores :: "wired \<Rightarrow> store_config list" where
  "app_stores D = map snd (wd_stores D) @ concat (map session_stores_of (bound_sessions (wd_transports D)))"

definition realizes :: "'a db_storage \<Rightarrow> store_config \<Rightarrow> bool" where
  "realizes S st \<longleftrightarrow> sc_place st = In_database (ds_database S) \<and> ds_prefix S = sc_prefix st \<and> ds_expiration S = sc_expiration st"

definition default_prefixes :: "bound_session \<Rightarrow> bool" where
  "default_prefixes b \<longleftrightarrow> ss_storage_prefix (sx_args (sb_config b)) = SESSION_STORAGE_PREFIX
     \<and> ss_csrf_storage_prefix (sx_args (sb_config b)) = CSRF_STORAGE_PREFIX"

definition APP_PREFIXES :: "string list" where
  "APP_PREFIXES = [SESSION_STORAGE_PREFIX, CSRF_STORAGE_PREFIX, CHALLENGE_STORAGE_PREFIX, ''used_token:'', ''oauth_state:'']"

lemma app_prefixes_unrelated: "distinct APP_PREFIXES"
  "list_all (\<lambda>p. list_all (\<lambda>q. p = q \<or> take (length p) q \<noteq> p) APP_PREFIXES) APP_PREFIXES"
  by (simp_all add: APP_PREFIXES_def SESSION_STORAGE_PREFIX_def CSRF_STORAGE_PREFIX_def CHALLENGE_STORAGE_PREFIX_def)

lemma prefixes_apart:
  assumes "ds_prefix S \<in> set APP_PREFIXES" and "ds_prefix S' \<in> set APP_PREFIXES" and "ds_prefix S \<noteq> ds_prefix S'"
  shows "apart S S'"
  using assms app_prefixes_unrelated(2) unfolding apart_def list_all_iff by metis

lemma app_store_prefix:
  assumes "D = app_of V A lock limits ts oauth" and "list_all2 (binds (app_wiring V A lock)) (specs_of A) ts"
    and "\<forall>b \<in> set (bound_sessions ts). default_prefixes b" and "st \<in> set (app_stores D)"
  shows "sc_prefix st \<in> set APP_PREFIXES"
proof -
  have "sc_prefix st \<in> {SESSION_STORAGE_PREFIX, CSRF_STORAGE_PREFIX}" if here: "b \<in> set (bound_sessions ts)" "st \<in> set (session_stores_of b)" for b
  proof -
    obtain c where "session_binds (app_wiring V A lock) c b" using bound_session_from [OF assms(2) here(1)] by blast
    then show ?thesis using assms(3) here
      by (cases "ss_csrf_storage (sx_args c)") (auto simp: session_binds_def bound_to_def session_bound_at_def built_at_def default_prefixes_def session_stores_of_def built_refs_def
          split: option.splits if_splits)
  qed
  moreover have "sc_prefix st \<in> {CHALLENGE_STORAGE_PREFIX, ''used_token:'', ''oauth_state:''}" if "st \<in> snd ` set (wd_stores D)"
    using that feature_stores_from(3) by (fastforce simp: assms(1))
  ultimately show ?thesis using assms(4) by (auto simp: app_stores_def assms(1) APP_PREFIXES_def)
qed

text \<open>
  C15. On one database the stores of an application do not meet. Take an application all of whose session
  transports have the default prefixes, and any two of its stores (sessions, CSRF tokens, login challenges, used
  tokens, OAuth states) that are kept in the database under different prefixes. Whatever the one is asked
  to do, at increasing times, the keyed operations with any ids, scans, and deletions by patterns that begin with its own
  prefix, every row stays where the other looks for it, and the other has the entries it had, values and
  deadlines, from then on. Prefixes of the application's own choice are excluded (one that begins with
  another's lets the stores meet), and so are deletions by other patterns, which the code does not
  keep to the store's prefix.
\<close>

theorem stores_of_an_app_keep_apart:
  assumes "all_constructed A" and "crud_auth_of V A s = (Inr D, t)" and "\<forall>b \<in> set (bound_sessions (wd_transports D)). default_prefixes b"
    and "{st, st'} \<subseteq> set (app_stores D)" and "sc_prefix st \<noteq> sc_prefix st'" and "realizes S st" and "realizes S' st'"
    and "db_ok S' d" and "sorted (map fst ops)" and "\<forall>(at, act) \<in> set ops. keeps_to_own S act"
  shows "let d' = snd (map_prog (\<lambda>(at, act). run_table (db_storage_of S) at act) ops d)
     in db_ok S' d' \<and> (\<forall>later. (\<forall>(at, act) \<in> set ops. at \<le> later) \<longrightarrow> db_view S' later d' = db_view S' later d)"
proof -
  have "fst (crud_auth_of V A s) = Inr D" using assms(2) by simp
  then obtain lock limits ts oauth where b: "built_from V A lock limits ts oauth" and D: "D = app_of V A lock limits ts oauth"
    unfolding done_app [OF assms(1)] by blast
  have ts: "list_all2 (binds (app_wiring V A lock)) (specs_of A) ts" using b by (simp add: built_from_def)
  have own: "sc_prefix st \<in> set APP_PREFIXES" "sc_prefix st' \<in> set APP_PREFIXES"
    using app_store_prefix [OF D ts] assms(3,4) by (auto simp: D)
  then have "apart S S'" using assms(5-7) by (intro prefixes_apart) (simp_all add: realizes_def)
  moreover have "prefix_ok S" using own(1) assms(6)
    by (auto simp: realizes_def prefix_ok_def APP_PREFIXES_def SESSION_STORAGE_PREFIX_def CSRF_STORAGE_PREFIX_def CHALLENGE_STORAGE_PREFIX_def)
  ultimately show ?thesis using tables_apart [OF assms(8) _ _ assms(9,10) refl] by (simp add: Let_def)
qed


section \<open>The demo application\<close>

lemma demo_run: "crud_auth_of demo_env demo_settings demo_log
    = (Inr (built_app demo_env demo_settings), snd (crud_auth_of demo_env demo_settings demo_log))"
  using demo_built by (metis prod.collapse)

lemma demo_parts:
  obtains lock ts where "wd_stores (built_app demo_env demo_settings) = feature_stores demo_settings (app_wiring demo_env demo_settings lock) ts"
    "\<forall>b \<in> set (bound_sessions (wd_transports (built_app demo_env demo_settings))). default_prefixes b"
proof -
  obtain lock limits ts oauth where b: "built_from demo_env demo_settings lock limits ts oauth"
      and D: "built_app demo_env demo_settings = app_of demo_env demo_settings lock limits ts oauth"
    using demo_built done_app [OF demo_constructed] by blast
  have ts: "list_all2 (binds (app_wiring demo_env demo_settings lock)) (specs_of demo_settings) ts" using b by (simp add: built_from_def)
  have "default_prefixes x" if "x \<in> set (bound_sessions ts)" for x
    using bound_session_from [OF ts that] binds_place(1)
    by (fastforce simp: specs_of_def demo_settings_def default_prefixes_def default_session_config_def default_session_spec_def)
  then show thesis using that [of lock ts] by (simp add: D)
qed

definition app_table :: "string \<Rightarrow> int \<Rightarrow> string db_storage" where
  "app_table p ttl = (demo_table p)\<lparr>ds_expiration := ttl\<rparr>"

theorem state_lives_on_the_shared_backend_witness:
  "shared_place (wd_wiring (built_app demo_env demo_settings)) \<noteq> In_memory
   \<and> limiter_place (wd_limiter (built_app demo_env demo_settings)) = Some (shared_place (wd_wiring (built_app demo_env demo_settings)))"
  using state_lives_on_the_shared_backend [OF demo_constructed demo_run] by (simp add: demo_settings_def)

theorem stores_of_an_app_keep_apart_witness:
  "db_view (app_table ''oauth_state:'' 1800) 9
     (snd (map_prog (\<lambda>(t, act). run_table (db_storage_of (app_table ''used_token:'' 86400)) t act)
        [(0, Keyed (OpCreate ''a'' ''k'' None)), (5, DeletePattern ''used_token:*'')] empty_database)) = (\<lambda>_. None)"
proof -
  obtain lock ts where stores: "wd_stores (built_app demo_env demo_settings) = feature_stores demo_settings (app_wiring demo_env demo_settings lock) ts"
      and own: "\<forall>b \<in> set (bound_sessions (wd_transports (built_app demo_env demo_settings))). default_prefixes b"
    using demo_parts by blast
  let ?st = "\<lambda>p ttl. \<lparr>sc_place = In_database demo_database, sc_prefix = p, sc_expiration = ttl\<rparr>"
  have facts: "as_oauth demo_settings \<noteq> []" "uses_email demo_settings" "as_database demo_settings = Some demo_database" "app_client demo_settings = None"
    by (simp_all add: demo_settings_def uses_email_def app_client_def)
  have "feature_place (app_wiring demo_env demo_settings lock) ts = In_database demo_database"
    using facts(3,4) by (simp add: feature_place_def shared_place_def)
  then have kept: "{?st ''used_token:'' 86400, ?st ''oauth_state:'' 1800} \<subseteq> set (app_stores (built_app demo_env demo_settings))"
    using facts(1,2) by (simp add: app_stores_def stores feature_stores_def feature_store_def default_defs)
  have sel: "ds_prefix (app_table p ttl) = p" "ds_expiration (app_table p ttl) = ttl" "ds_database (app_table p ttl) = demo_database" for p ttl
    by (simp_all add: app_table_def)
  have ok: "db_ok (app_table ''oauth_state:'' 1800) empty_database"
    by (intro empty_database_ok, simp add: prefix_ok_def sel)
  from stores_of_an_app_keep_apart [OF demo_constructed demo_run own kept, where S = "app_table ''used_token:'' 86400" and S' = "app_table ''oauth_state:'' 1800"
      and d = empty_database and ops = "[(0, Keyed (OpCreate ''a'' ''k'' None)), (5, DeletePattern ''used_token:*'')]"] ok
  show ?thesis by (simp add: realizes_def sel Let_def keeps_to_own_def del: map_prog.simps)
qed

end
