(* ===== verification/Lifecycle.thy ===== *)
theory Lifecycle
  imports Applications
begin

text \<open>
  A built application at work: opening and closing its parts (\<open>CRUDAuth.initialize\<close> and
  \<open>shutdown\<close> with the session transport's and manager's own), and the routers it assembles
  (\<open>router\<close> and its companions), each route a method and a path.

  What a store, limiter, client or provider does when it is opened or closed is code outside the application
  or I/O: it is a program of the environment over any state, free to raise.
\<close>

section \<open>Opening and closing\<close>

record 'x parts =
  open_store :: "store_ref \<Rightarrow> ('x, unit) prog"
  close_store :: "store_ref \<Rightarrow> ('x, unit) prog"
  open_limiter :: "limiter_choice \<Rightarrow> ('x, unit) prog"
  close_limiter :: "limiter_choice \<Rightarrow> ('x, unit) prog"
  close_client :: "redis_client \<Rightarrow> ('x, unit) prog"
  open_provider :: "oauth_provider \<Rightarrow> ('x, unit) prog"
  open_own :: "string \<Rightarrow> ('x, unit) prog"
  close_own :: "string \<Rightarrow> ('x, unit) prog"

definition manager_initialize :: "'x parts \<Rightarrow> bound_session \<Rightarrow> ('x, unit) prog" where
  "manager_initialize E b =
     bind (open_store E (sb_store b)) (\<lambda>_. case sb_csrf_store b of None \<Rightarrow> ret () | Some r \<Rightarrow> open_store E r)"

definition manager_shutdown :: "'x parts \<Rightarrow> bound_session \<Rightarrow> ('x, unit) prog" where
  "manager_shutdown E b =
     bind (close_store E (sb_store b)) (\<lambda>_. case sb_csrf_store b of None \<Rightarrow> ret () | Some r \<Rightarrow> close_store E r)"

definition session_shutdown :: "'x parts \<Rightarrow> bound_session \<Rightarrow> ('x, unit) prog" where
  "session_shutdown E b =
     bind (manager_shutdown E b) (\<lambda>_. case sb_owned b of None \<Rightarrow> ret () | Some c \<Rightarrow> close_client E c)"

text \<open>A bearer transport keeps the no-ops of \<open>Transport\<close>.\<close>

fun transport_initialize :: "'x parts \<Rightarrow> bound_transport \<Rightarrow> ('x, unit) prog" where
  "transport_initialize E (Session_bound b) = manager_initialize E b"
| "transport_initialize E (Bearer_bound y) = ret ()"
| "transport_initialize E (App_bound name) = open_own E name"

fun transport_shutdown :: "'x parts \<Rightarrow> bound_transport \<Rightarrow> ('x, unit) prog" where
  "transport_shutdown E (Session_bound b) = session_shutdown E b"
| "transport_shutdown E (Bearer_bound y) = ret ()"
| "transport_shutdown E (App_bound name) = close_own E name"

definition oauth_providers :: "wired \<Rightarrow> (string \<times> oauth_provider) list" where
  "oauth_providers D = (case wd_oauth D of None \<Rightarrow> [] | Some x \<Rightarrow> ow_providers x)"

definition app_initialize :: "'x parts \<Rightarrow> wired \<Rightarrow> ('x, unit) prog" where
  "app_initialize E D =
     bind (open_limiter E (wd_limiter D)) (\<lambda>_.
     bind (for_each (wd_transports D) (transport_initialize E)) (\<lambda>_.
     bind (for_each (oauth_providers D) (\<lambda>(name, p). open_provider E p)) (\<lambda>_.
     for_each (wd_stores D) (\<lambda>(label, st). open_store E (Built st)))))"

definition closers :: "'x parts \<Rightarrow> wired \<Rightarrow> ('x, unit) prog list" where
  "closers E D = map (transport_shutdown E) (wd_transports D) @ map (\<lambda>(label, st). close_store E (Built st)) (wd_stores D)
     @ [close_limiter E (wd_limiter D)] @ (case wd_owned_redis D of None \<Rightarrow> [] | Some c \<Rightarrow> [close_client E c])"

fun attempt_all :: "('x, unit) prog list \<Rightarrow> ('x, exc list) prog" where
  "attempt_all [] = ret []"
| "attempt_all (m # ms) =
     bind (catch (bind m (\<lambda>_. ret [])) (\<lambda>e. ret [e])) (\<lambda>errors. bind (attempt_all ms) (\<lambda>later. ret (errors @ later)))"

definition app_shutdown :: "'x parts \<Rightarrow> wired \<Rightarrow> ('x, unit) prog" where
  "app_shutdown E D = bind (attempt_all (closers E D)) (\<lambda>errors. case errors of [] \<Rightarrow> ret () | e # _ \<Rightarrow> raise e)"

section \<open>Routes\<close>

type_synonym route = "string \<times> string"

fun bound_name :: "bound_transport \<Rightarrow> string" where
  "bound_name (Session_bound b) = ''session''"
| "bound_name (Bearer_bound y) = ''bearer''"
| "bound_name (App_bound name) = name"

definition register_routes :: "route list" where
  "register_routes = [(''POST'', ''/register'')]"

definition account_routes :: "route list" where
  "account_routes = [(''GET'', ''/me''), (''POST'', ''/set-password''), (''POST'', ''/change-password'')]"

definition management_router :: "route list" where
  "management_router = [(''POST'', ''/logout-all''), (''GET'', ''/sessions''), (''DELETE'', ''/sessions/{session_handle}''), (''POST'', ''/csrf/refresh'')]"

definition session_routes :: "route list" where
  "session_routes = [(''POST'', ''/login''), (''POST'', ''/logout'')]"

definition bearer_routes :: "bound_transport list \<Rightarrow> bearer_transport \<Rightarrow> route list" where
  "bearer_routes ts y = [(''POST'', ''/token''), (''POST'', ''/refresh'')]
     @ (if refresh_location y = REFRESH_LOCATION_COOKIE \<and> \<not> list_ex (\<lambda>t. bound_name t = ''session'') ts then [(''POST'', ''/logout'')] else [])"

definition oauth_routes :: "oauth_wiring \<Rightarrow> route list" where
  "oauth_routes x = (let under = (\<lambda>k. (''GET'', path_of (ow_paths x) ''prefix'' @ path_of (ow_paths x) k)) in [under ''authorize_path'', under ''callback_path''])"

definition channel_list :: "email_config option \<times> channel list \<Rightarrow> channel list" where
  "channel_list cfg = (case fst cfg of None \<Rightarrow> [] | Some c \<Rightarrow> [EmailChannel c]) @ snd cfg"

definition email_changeable :: "user_repo \<Rightarrow> email_config option \<times> channel list \<Rightarrow> bool" where
  "email_changeable R cfg \<longleftrightarrow> has_col R ''email'' \<and> filter sends_email (channel_list cfg) \<noteq> []"

definition email_routes :: "user_repo \<Rightarrow> email_config option \<times> channel list \<Rightarrow> exc + route list" where
  "email_routes R cfg =
     (if recovery R = None then Inl (RuntimeError ''the recovery router requires a recovery factor (identity.recovery)'')
      else Inr ([(''POST'', ''/email/verify-request''), (''POST'', ''/email/verify-confirm''),
         (''POST'', ''/password/reset-request''), (''POST'', ''/password/reset-confirm'')]
        @ (if email_changeable R cfg then [(''POST'', ''/email/change-request''), (''POST'', ''/email/change-confirm'')] else [])))"

definition mfa_routes :: "route list" where
  "mfa_routes = [(''POST'', ''/mfa/verify''), (''POST'', ''/mfa/challenge''), (''GET'', ''/mfa''), (''POST'', ''/mfa/totp/setup''),
     (''POST'', ''/mfa/totp/confirm''), (''POST'', ''/mfa/totp/disable''), (''POST'', ''/mfa/recovery-codes/regenerate'')]"

text \<open>\<open>own\<close>: the routes a transport of the application's own contributes.\<close>

definition contributed :: "(string \<Rightarrow> route list) \<Rightarrow> bound_transport list \<Rightarrow> bound_transport \<Rightarrow> route list" where
  "contributed own ts t = (case t of Session_bound b \<Rightarrow> session_routes | Bearer_bound y \<Rightarrow> bearer_routes ts y | App_bound name \<Rightarrow> own name)"

definition app_router :: "(string \<Rightarrow> route list) \<Rightarrow> wired \<Rightarrow> exc + route list" where
  "app_router own D =
     (let managed = (case first_bound (wd_transports D) of None \<Rightarrow> [] | Some b \<Rightarrow>
            if ss_management_routes (sx_args (sb_config b)) then management_router else []);
          before = register_routes @ account_routes @ managed @ concat (map (contributed own (wd_transports D)) (wd_transports D))
            @ (case wd_oauth D of None \<Rightarrow> [] | Some x \<Rightarrow> oauth_routes x);
          after = (if wd_mfa D = None then [] else mfa_routes)
      in case wd_email D of
           None \<Rightarrow> Inr (before @ after)
         | Some cfg \<Rightarrow> map_sum id (\<lambda>mails. before @ mails @ after) (email_routes (wd_repo D) cfg))"

definition session_router :: "wired \<Rightarrow> exc + route list" where
  "session_router D = (case first_bound (wd_transports D) of None \<Rightarrow> Inl (RuntimeError ''No SessionTransport configured'') | Some b \<Rightarrow> Inr session_routes)"

definition bearer_router :: "wired \<Rightarrow> exc + route list" where
  "bearer_router D =
     (case concat (map (\<lambda>t. case t of Bearer_bound y \<Rightarrow> [y] | _ \<Rightarrow> []) (wd_transports D)) of
        [] \<Rightarrow> Inl (RuntimeError ''No BearerTransport configured'')
      | y # _ \<Rightarrow> Inr (bearer_routes (wd_transports D) y))"

definition only_oauth_router :: "wired \<Rightarrow> exc + route list" where
  "only_oauth_router D = (case wd_oauth D of None \<Rightarrow> Inl (RuntimeError ''OAuth is not configured'') | Some x \<Rightarrow> Inr (oauth_routes x))"

definition mfa_router :: "wired \<Rightarrow> exc + route list" where
  "mfa_router D = (if wd_mfa D = None then Inl (RuntimeError ''MFA is not configured'') else Inr mfa_routes)"

definition sessions_of_app :: "wired \<Rightarrow> exc + bound_session" where
  "sessions_of_app D = (case first_bound (wd_transports D) of
     None \<Rightarrow> Inl (RuntimeError ''Session management requires a SessionTransport in transports=[...].'') | Some b \<Rightarrow> Inr b)"

end
