(* ===== verification/LifecycleLaws.thy ===== *)
theory LifecycleLaws
  imports Lifecycle
begin

text \<open>
  Shutting down reaches every part of an application whatever fails on the way, and every route of
  an assembled router has one handler.
\<close>

section \<open>Shutting down\<close>

fun outcomes :: "('x, unit) prog list \<Rightarrow> 'x \<Rightarrow> (exc + unit) list" where
  "outcomes [] x = []"
| "outcomes (m # ms) x = fst (m x) # outcomes ms (snd (m x))"

definition all_run :: "('x, unit) prog list \<Rightarrow> 'x \<Rightarrow> 'x" where
  "all_run ms x = foldl (\<lambda>x m. snd (m x)) x ms"

lemma attempt_all_run: "attempt_all ms x = (Inr (map projl (filter isl (outcomes ms x))), all_run ms x)"
proof (induction ms arbitrary: x)
  case (Cons m ms)
  then show ?case by (cases "fst (m x)") (auto simp: run_simps all_run_def)
qed (simp add: run_simps all_run_def)

lemma shutdown_run:
  "app_shutdown E D x = (case filter isl (outcomes (closers E D) x) of [] \<Rightarrow> Inr () | r # _ \<Rightarrow> r, all_run (closers E D) x)"
proof (cases "filter isl (outcomes (closers E D) x)")
  case (Cons r rs)
  then have "r \<in> set (filter isl (outcomes (closers E D) x))" by simp
  then have "isl r" by simp
  then obtain e where "r = Inl e" by (cases r) simp_all
  then show ?thesis by (simp add: app_shutdown_def bind_Inr [OF attempt_all_run] run_simps Cons)
qed (simp add: app_shutdown_def bind_Inr [OF attempt_all_run] run_simps)

text \<open>An environment that records what it is asked to close, and fails for some.\<close>

datatype part = Store_part store_ref | Limiter_part limiter_choice | Client_part redis_client | Own_part string | Provider_part oauth_provider

definition close_part :: "(part \<Rightarrow> bool) \<Rightarrow> part \<Rightarrow> (part list, unit) prog" where
  "close_part fails p = (\<lambda>log. (if fails p then Inl (BackendError ''closing failed'') else Inr (), log @ [p]))"

definition recording :: "(part \<Rightarrow> bool) \<Rightarrow> part list parts" where
  "recording fails = \<lparr>open_store = (\<lambda>r. ret ()), close_store = (\<lambda>r. close_part fails (Store_part r)), open_limiter = (\<lambda>l. ret ()),
     close_limiter = (\<lambda>l. close_part fails (Limiter_part l)), close_client = (\<lambda>c. close_part fails (Client_part c)), open_provider = (\<lambda>p. ret ()),
     open_own = (\<lambda>n. ret ()), close_own = (\<lambda>n. close_part fails (Own_part n))\<rparr>"

text \<open>What closing a session transport attempts: each step only if the one before it succeeded.\<close>

definition session_attempts :: "(part \<Rightarrow> bool) \<Rightarrow> bound_session \<Rightarrow> part list" where
  "session_attempts fails b =
     (let store = Store_part (sb_store b); tokens = (case sb_csrf_store b of None \<Rightarrow> [] | Some r \<Rightarrow> [Store_part r]);
          client = (case sb_owned b of None \<Rightarrow> [] | Some c \<Rightarrow> [Client_part c])
      in if fails store then [store] else if list_ex fails tokens then store # tokens else store # tokens @ client)"

fun transport_attempts :: "(part \<Rightarrow> bool) \<Rightarrow> bound_transport \<Rightarrow> part list" where
  "transport_attempts fails (Session_bound b) = session_attempts fails b"
| "transport_attempts fails (Bearer_bound y) = []"
| "transport_attempts fails (App_bound name) = [Own_part name]"

definition shutdown_attempts :: "(part \<Rightarrow> bool) \<Rightarrow> wired \<Rightarrow> part list" where
  "shutdown_attempts fails D = concat (map (transport_attempts fails) (wd_transports D)) @ map (\<lambda>(label, st). Store_part (Built st)) (wd_stores D)
     @ [Limiter_part (wd_limiter D)] @ (case wd_owned_redis D of None \<Rightarrow> [] | Some c \<Rightarrow> [Client_part c])"

lemma transport_shutdown_logs: "snd (transport_shutdown (recording fails) t log) = log @ transport_attempts fails t"
  by (cases t) (auto simp: session_shutdown_def manager_shutdown_def recording_def close_part_def session_attempts_def run_simps Let_def
      split: option.split)

lemma closers_log: "all_run (closers (recording fails) D) log = log @ shutdown_attempts fails D"
proof -
  have append: "all_run (xs @ ys) l = all_run ys (all_run xs l)" for xs ys :: "(part list, unit) prog list" and l by (simp add: all_run_def)
  have transports: "all_run (map (transport_shutdown (recording fails)) ts) l = l @ concat (map (transport_attempts fails) ts)" for ts l
    by (induction ts arbitrary: l) (simp_all add: all_run_def transport_shutdown_logs)
  have stores: "all_run (map (\<lambda>(label, st). close_store (recording fails) (Built st)) ss) l
      = l @ map (\<lambda>(label, st). Store_part (Built st)) ss" for ss l
    by (induction ss arbitrary: l) (auto simp: all_run_def recording_def close_part_def)
  show ?thesis unfolding closers_def append transports stores shutdown_attempts_def
    by (simp add: all_run_def recording_def close_part_def split: option.split)
qed

text \<open>
  C30. Shutting down attempts every closer. Whatever any of them raises, each transport, each store of a feature, the
  limiter and the Redis client of the application's own is closed, in that order and in the state the ones before
  left; then the first error, if there was one, is raised again. Closing a session transport
  itself goes on only while it succeeds: its token store is not closed once its session store failed to close.
\<close>

theorem shutdown_attempts_every_closer:
  "snd (app_shutdown E D x) = all_run (closers E D) x
   \<and> fst (app_shutdown E D x) = (case filter isl (outcomes (closers E D) x) of [] \<Rightarrow> Inr () | r # _ \<Rightarrow> r)
   \<and> snd (app_shutdown (recording fails) D []) = shutdown_attempts fails D"
  by (simp add: shutdown_run closers_log)

text \<open>The token store is left open when the session store fails to close, whatever else is attempted.\<close>

lemma tokens_left_open:
  assumes "fails (Store_part (sb_store b))" and "sb_csrf_store b = Some r" and "r \<noteq> sb_store b"
  shows "Store_part r \<notin> set (transport_attempts fails (Session_bound b))"
  using assms by (simp add: session_attempts_def Let_def)

section \<open>Routes\<close>

lemma contains_append: "contains s sub \<Longrightarrow> contains (t @ s) sub"
  by (induction t) auto

definition fixed_groups :: "route list list" where
  "fixed_groups = [register_routes, account_routes, management_router, session_routes @ [(''POST'', ''/token''), (''POST'', ''/refresh'')],
     [(''POST'', ''/email/verify-request''), (''POST'', ''/email/verify-confirm''), (''POST'', ''/password/reset-request''),
      (''POST'', ''/password/reset-confirm''), (''POST'', ''/email/change-request''), (''POST'', ''/email/change-confirm'')], mfa_routes]"

lemmas route_defs = register_routes_def account_routes_def management_router_def session_routes_def mfa_routes_def

lemma fixed_distinct: "distinct (concat fixed_groups)"
  by (simp add: fixed_groups_def route_defs)

lemma fixed_no_provider: "\<forall>r \<in> set (concat fixed_groups). \<not> contains (snd r) PROVIDER_FIELD"
  by (simp add: fixed_groups_def route_defs PROVIDER_FIELD_def)

lemma part_distinct:
  assumes "distinct (concat groups)" and "list_all2 (\<lambda>xs g. distinct xs \<and> set xs \<subseteq> set g) xss groups"
  shows "distinct (concat xss) \<and> set (concat xss) \<subseteq> set (concat groups)"
  using assms(2,1) by (induction rule: list_all2_induct) auto

text \<open>At most one session and one bearer transport, none of the application's own.\<close>

definition single_transports :: "bound_transport list \<Rightarrow> bool" where
  "single_transports ts \<longleftrightarrow> distinct (map bound_name ts) \<and> (\<forall>t \<in> set ts. case t of App_bound name \<Rightarrow> False | _ \<Rightarrow> True)"

fun writes_cookies :: "bound_transport \<Rightarrow> bool" where
  "writes_cookies (Session_bound b) = True"
| "writes_cookies (Bearer_bound y) = (refresh_location y = REFRESH_LOCATION_COOKIE)"
| "writes_cookies (App_bound name) = False"

lemma single_cases:
  assumes "single_transports ts"
  obtains "ts = []" | b where "ts = [Session_bound b]" | y where "ts = [Bearer_bound y]"
    | b y where "ts = [Session_bound b, Bearer_bound y]" | b y where "ts = [Bearer_bound y, Session_bound b]"
proof -
  have kinds: "(\<exists>b. t = Session_bound b) \<or> (\<exists>y. t = Bearer_bound y)" if "t \<in> set ts" for t
    using assms that by (cases t) (auto simp: single_transports_def)
  then have "bound_name ` set ts \<subseteq> {''session'', ''bearer''}" by fastforce
  then have few: "card (bound_name ` set ts) \<le> card {''session'', ''bearer''}" by (rule card_mono [rotated]) simp
  have "card (set (map bound_name ts)) = length ts"
    using assms distinct_card [of "map bound_name ts"] by (simp add: single_transports_def)
  then have small: "length ts \<le> 2" using few by simp
  have names: "distinct (map bound_name ts)" using assms by (simp add: single_transports_def)
  consider "ts = []" | t where "ts = [t]" | t u where "ts = [t, u]"
    using small by (auto simp: numeral_2_eq_2 le_Suc_eq length_Suc_conv)
  then show ?thesis
  proof cases
    case 1
    then show ?thesis using that(1) by blast
  next
    case (2 t)
    then show ?thesis using kinds [of t] that(2,3) by auto
  next
    case (3 t u)
    then have "bound_name t \<noteq> bound_name u" using names by simp
    then show ?thesis using 3 kinds [of t] kinds [of u] that(4,5) by auto
  qed
qed

lemma contributed_distinct:
  assumes "single_transports ts"
  shows "distinct (concat (map (contributed own ts) ts))"
    and "set (concat (map (contributed own ts) ts)) \<subseteq> set (session_routes @ [(''POST'', ''/token''), (''POST'', ''/refresh'')])"
    and "(''POST'', ''/logout'') \<in> set (concat (map (contributed own ts) ts)) \<longleftrightarrow> (\<exists>t \<in> set ts. writes_cookies t)"
proof -
  let ?all = "concat (map (contributed own ts) ts)"
  note defs = contributed_def session_routes_def bearer_routes_def
  from assms have "distinct ?all \<and> set ?all \<subseteq> set (session_routes @ [(''POST'', ''/token''), (''POST'', ''/refresh'')])
      \<and> ((''POST'', ''/logout'') \<in> set ?all \<longleftrightarrow> (\<exists>t \<in> set ts. writes_cookies t))"
    by (cases rule: single_cases) (simp_all add: defs)
  then show "distinct ?all" "set ?all \<subseteq> set (session_routes @ [(''POST'', ''/token''), (''POST'', ''/refresh'')])"
    "(''POST'', ''/logout'') \<in> set ?all \<longleftrightarrow> (\<exists>t \<in> set ts. writes_cookies t)" by blast+
qed

definition managed_of :: "wired \<Rightarrow> route list" where
  "managed_of D = (case first_bound (wd_transports D) of None \<Rightarrow> [] | Some b \<Rightarrow> if ss_management_routes (sx_args (sb_config b)) then management_router else [])"

definition mails_of :: "wired \<Rightarrow> route list" where
  "mails_of D = (case wd_email D of None \<Rightarrow> [] | Some cfg \<Rightarrow> projr (email_routes (wd_repo D) cfg))"

definition mfa_of :: "wired \<Rightarrow> route list" where
  "mfa_of D = (if wd_mfa D = None then [] else mfa_routes)"

definition oauth_of :: "wired \<Rightarrow> route list" where
  "oauth_of D = (case wd_oauth D of None \<Rightarrow> [] | Some x \<Rightarrow> oauth_routes x)"

lemma router_assembled:
  assumes "wd_email D \<noteq> None \<longrightarrow> recovery (wd_repo D) \<noteq> None"
  shows "app_router own D = Inr (register_routes @ account_routes @ managed_of D @ concat (map (contributed own (wd_transports D)) (wd_transports D))
     @ oauth_of D @ mails_of D @ mfa_of D)"
  using assms by (auto simp: app_router_def managed_of_def mails_of_def mfa_of_def oauth_of_def email_routes_def split: option.split)

lemma mails_fixed:
  assumes "wd_email D \<noteq> None \<longrightarrow> recovery (wd_repo D) \<noteq> None"
  shows "distinct (mails_of D)" "set (mails_of D) \<subseteq> set (fixed_groups ! 4)"
    "(''POST'', ''/password/reset-confirm'') \<in> set (mails_of D) \<longleftrightarrow> wd_email D \<noteq> None"
proof -
  have "distinct (mails_of D) \<and> set (mails_of D) \<subseteq> set (fixed_groups ! 4)
      \<and> ((''POST'', ''/password/reset-confirm'') \<in> set (mails_of D) \<longleftrightarrow> wd_email D \<noteq> None)"
  proof (cases "wd_email D")
    case (Some cfg)
    then obtain f where "recovery (wd_repo D) = Some f" using assms by auto
    then show ?thesis using Some by (auto simp: mails_of_def email_routes_def fixed_groups_def)
  qed (simp add: mails_of_def)
  then show "distinct (mails_of D)" "set (mails_of D) \<subseteq> set (fixed_groups ! 4)"
    "(''POST'', ''/password/reset-confirm'') \<in> set (mails_of D) \<longleftrightarrow> wd_email D \<noteq> None" by blast+
qed

text \<open>
  What an application is meant to serve: the routes, written out, and the condition under which
  each is there.
\<close>

definition provided :: "bool \<Rightarrow> route set \<Rightarrow> route set" where
  "provided c rs = (if c then rs else {})"

definition served :: "(string \<Rightarrow> route list) \<Rightarrow> wired \<Rightarrow> route set" where
  "served own D =
     (let ts = wd_transports D; session = (\<exists>b. Session_bound b \<in> set ts)
      in {(''POST'', ''/register''), (''GET'', ''/me''), (''POST'', ''/set-password''), (''POST'', ''/change-password'')}
         \<union> provided (\<exists>b. first_bound ts = Some b \<and> ss_management_routes (sx_args (sb_config b)))
             {(''POST'', ''/logout-all''), (''GET'', ''/sessions''), (''DELETE'', ''/sessions/{session_handle}''), (''POST'', ''/csrf/refresh'')}
         \<union> provided session {(''POST'', ''/login'')}
         \<union> provided (session \<or> (\<exists>y. Bearer_bound y \<in> set ts \<and> refresh_location y = REFRESH_LOCATION_COOKIE) \<and> \<not> (\<exists>t \<in> set ts. bound_name t = ''session''))
             {(''POST'', ''/logout'')}
         \<union> provided (\<exists>y. Bearer_bound y \<in> set ts) {(''POST'', ''/token''), (''POST'', ''/refresh'')}
         \<union> provided (wd_email D \<noteq> None)
             {(''POST'', ''/email/verify-request''), (''POST'', ''/email/verify-confirm''),
              (''POST'', ''/password/reset-request''), (''POST'', ''/password/reset-confirm'')}
         \<union> provided (\<exists>c chs. wd_email D = Some (c, chs) \<and> has_col (wd_repo D) ''email'' \<and> (c \<noteq> None \<or> (\<exists>ch \<in> set chs. sends_email ch)))
             {(''POST'', ''/email/change-request''), (''POST'', ''/email/change-confirm'')}
         \<union> provided (wd_mfa D \<noteq> None)
             {(''POST'', ''/mfa/verify''), (''POST'', ''/mfa/challenge''), (''GET'', ''/mfa''), (''POST'', ''/mfa/totp/setup''),
              (''POST'', ''/mfa/totp/confirm''), (''POST'', ''/mfa/totp/disable''), (''POST'', ''/mfa/recovery-codes/regenerate'')}
         \<union> {(''GET'', path_of (ow_paths x) ''prefix'' @ path_of (ow_paths x) k) | x k.
              wd_oauth D = Some x \<and> k \<in> {''authorize_path'', ''callback_path''}}
         \<union> {r. \<exists>name. App_bound name \<in> set ts \<and> r \<in> set (own name)})"

lemma in_provided: "r \<in> provided c rs \<longleftrightarrow> c \<and> r \<in> rs"
  by (simp add: provided_def)

lemma route_sets:
  "{(''POST'', ''/register''), (''GET'', ''/me''), (''POST'', ''/set-password''), (''POST'', ''/change-password'')} = set (register_routes @ account_routes)"
  "{(''POST'', ''/logout-all''), (''GET'', ''/sessions''), (''DELETE'', ''/sessions/{session_handle}''), (''POST'', ''/csrf/refresh'')} = set management_router"
  "{(''POST'', ''/mfa/verify''), (''POST'', ''/mfa/challenge''), (''GET'', ''/mfa''), (''POST'', ''/mfa/totp/setup''),
     (''POST'', ''/mfa/totp/confirm''), (''POST'', ''/mfa/totp/disable''), (''POST'', ''/mfa/recovery-codes/regenerate'')} = set mfa_routes"
  unfolding route_defs by (simp_all only: set_append list.set Un_insert_left Un_empty_left)

lemma served_members:
  "r \<in> served own D \<longleftrightarrow> r \<in> set register_routes \<or> r \<in> set account_routes
     \<or> (\<exists>b. first_bound (wd_transports D) = Some b \<and> ss_management_routes (sx_args (sb_config b))) \<and> r \<in> set management_router
     \<or> (\<exists>b. Session_bound b \<in> set (wd_transports D)) \<and> r = (''POST'', ''/login'')
     \<or> ((\<exists>b. Session_bound b \<in> set (wd_transports D)) \<or> (\<exists>y. Bearer_bound y \<in> set (wd_transports D) \<and> refresh_location y = REFRESH_LOCATION_COOKIE)
          \<and> \<not> (\<exists>t \<in> set (wd_transports D). bound_name t = ''session'')) \<and> r = (''POST'', ''/logout'')
     \<or> (\<exists>y. Bearer_bound y \<in> set (wd_transports D)) \<and> r \<in> {(''POST'', ''/token''), (''POST'', ''/refresh'')}
     \<or> wd_email D \<noteq> None \<and> r \<in> {(''POST'', ''/email/verify-request''), (''POST'', ''/email/verify-confirm''),
         (''POST'', ''/password/reset-request''), (''POST'', ''/password/reset-confirm'')}
     \<or> (\<exists>c chs. wd_email D = Some (c, chs) \<and> has_col (wd_repo D) ''email'' \<and> (c \<noteq> None \<or> (\<exists>ch \<in> set chs. sends_email ch)))
         \<and> r \<in> {(''POST'', ''/email/change-request''), (''POST'', ''/email/change-confirm'')}
     \<or> wd_mfa D \<noteq> None \<and> r \<in> set mfa_routes
     \<or> r \<in> {(''GET'', path_of (ow_paths x) ''prefix'' @ path_of (ow_paths x) k) | x k. wd_oauth D = Some x \<and> k \<in> {''authorize_path'', ''callback_path''}}
     \<or> r \<in> {r. \<exists>name. App_bound name \<in> set (wd_transports D) \<and> r \<in> set (own name)}"
  unfolding served_def Let_def route_sets set_append Un_iff in_provided singleton_iff disj_assoc ..

lemma by_route:
  "(\<exists>b. S b \<and> r \<in> {l, out}) \<or> (\<exists>y. B y \<and> (r \<in> X \<or> r = out \<and> C y \<and> N)) \<or> W \<longleftrightarrow>
     (\<exists>b. S b) \<and> r = l \<or> ((\<exists>b. S b) \<or> (\<exists>y. B y \<and> C y) \<and> N) \<and> r = out \<or> (\<exists>y. B y) \<and> r \<in> X \<or> W"
  by blast

lemma by_condition:
  "a \<or> b \<or> c \<or> (login \<or> out \<or> token \<or> own) \<or> provider \<or> (mails \<or> change) \<or> factor \<longleftrightarrow>
   a \<or> b \<or> c \<or> login \<or> out \<or> token \<or> mails \<or> change \<or> factor \<or> provider \<or> own"
  by blast

lemma by_transport:
  "(\<exists>t \<in> set ts. case t of Session_bound b \<Rightarrow> P b | Bearer_bound y \<Rightarrow> Q y | App_bound name \<Rightarrow> R name)
   \<longleftrightarrow> (\<exists>b. Session_bound b \<in> set ts \<and> P b) \<or> (\<exists>y. Bearer_bound y \<in> set ts \<and> Q y) \<or> (\<exists>name. App_bound name \<in> set ts \<and> R name)"
  by (auto split: bound_transport.splits) (metis bound_transport.exhaust)+

lemma contributed_set:
  "r \<in> set (concat (map (contributed own ts) ts)) \<longleftrightarrow>
     (\<exists>b. Session_bound b \<in> set ts) \<and> r = (''POST'', ''/login'')
     \<or> ((\<exists>b. Session_bound b \<in> set ts) \<or> (\<exists>y. Bearer_bound y \<in> set ts \<and> refresh_location y = REFRESH_LOCATION_COOKIE)
          \<and> \<not> (\<exists>t \<in> set ts. bound_name t = ''session'')) \<and> r = (''POST'', ''/logout'')
     \<or> (\<exists>y. Bearer_bound y \<in> set ts) \<and> r \<in> {(''POST'', ''/token''), (''POST'', ''/refresh'')}
     \<or> r \<in> {r. \<exists>name. App_bound name \<in> set ts \<and> r \<in> set (own name)}"
proof -
  have "r \<in> set (contributed own ts t) \<longleftrightarrow>
      (case t of Session_bound b \<Rightarrow> r \<in> {(''POST'', ''/login''), (''POST'', ''/logout'')}
       | Bearer_bound y \<Rightarrow> r \<in> {(''POST'', ''/token''), (''POST'', ''/refresh'')} \<or> r = (''POST'', ''/logout'')
           \<and> refresh_location y = REFRESH_LOCATION_COOKIE \<and> \<not> (\<exists>t \<in> set ts. bound_name t = ''session'')
       | App_bound name \<Rightarrow> r \<in> set (own name))" for t
    by (cases t) (auto simp: contributed_def session_routes_def bearer_routes_def list_ex_iff)
  then have "r \<in> set (concat (map (contributed own ts) ts)) \<longleftrightarrow> (\<exists>t \<in> set ts.
      (case t of Session_bound b \<Rightarrow> r \<in> {(''POST'', ''/login''), (''POST'', ''/logout'')}
       | Bearer_bound y \<Rightarrow> r \<in> {(''POST'', ''/token''), (''POST'', ''/refresh'')} \<or> r = (''POST'', ''/logout'')
           \<and> refresh_location y = REFRESH_LOCATION_COOKIE \<and> \<not> (\<exists>t \<in> set ts. bound_name t = ''session'')
       | App_bound name \<Rightarrow> r \<in> set (own name)))" by simp
  also have "\<dots> \<longleftrightarrow> (\<exists>b. Session_bound b \<in> set ts \<and> r \<in> {(''POST'', ''/login''), (''POST'', ''/logout'')})
      \<or> (\<exists>y. Bearer_bound y \<in> set ts \<and> (r \<in> {(''POST'', ''/token''), (''POST'', ''/refresh'')} \<or> r = (''POST'', ''/logout'')
           \<and> refresh_location y = REFRESH_LOCATION_COOKIE \<and> \<not> (\<exists>t \<in> set ts. bound_name t = ''session'')))
      \<or> (\<exists>name. App_bound name \<in> set ts \<and> r \<in> set (own name))"
    by (rule by_transport)
  finally show ?thesis unfolding mem_Collect_eq by_route .
qed

lemma mails_set:
  assumes "wd_email D \<noteq> None \<longrightarrow> recovery (wd_repo D) \<noteq> None"
  shows "r \<in> set (mails_of D) \<longleftrightarrow>
     (wd_email D \<noteq> None \<and> r \<in> {(''POST'', ''/email/verify-request''), (''POST'', ''/email/verify-confirm''),
         (''POST'', ''/password/reset-request''), (''POST'', ''/password/reset-confirm'')})
     \<or> ((\<exists>c chs. wd_email D = Some (c, chs) \<and> has_col (wd_repo D) ''email'' \<and> (c \<noteq> None \<or> (\<exists>ch \<in> set chs. sends_email ch)))
         \<and> r \<in> {(''POST'', ''/email/change-request''), (''POST'', ''/email/change-confirm'')})"
proof (cases "wd_email D")
  case (Some cfg)
  obtain c chs where "cfg = (c, chs)" by (cases cfg)
  moreover obtain f where "recovery (wd_repo D) = Some f" using assms Some by auto
  moreover have "email_changeable (wd_repo D) (c, chs) \<longleftrightarrow> has_col (wd_repo D) ''email'' \<and> (c \<noteq> None \<or> (\<exists>ch \<in> set chs. sends_email ch))"
    by (cases c) (auto simp: email_changeable_def channel_list_def filter_empty_conv)
  ultimately show ?thesis using Some by (auto simp: mails_of_def email_routes_def)
qed (simp add: mails_of_def)

lemma assembled_served:
  assumes "wd_email D \<noteq> None \<longrightarrow> recovery (wd_repo D) \<noteq> None"
  shows "set (register_routes @ account_routes @ managed_of D @ concat (map (contributed own (wd_transports D)) (wd_transports D))
      @ oauth_of D @ mails_of D @ mfa_of D) = served own D"
proof -
  have managed: "r \<in> set (managed_of D) \<longleftrightarrow> (\<exists>b. first_bound (wd_transports D) = Some b \<and> ss_management_routes (sx_args (sb_config b)))
      \<and> r \<in> set management_router" for r
    by (cases "first_bound (wd_transports D)") (auto simp: managed_of_def)
  have oauth: "r \<in> set (oauth_of D) \<longleftrightarrow> r \<in> {(''GET'', path_of (ow_paths x) ''prefix'' @ path_of (ow_paths x) k) | x k.
      wd_oauth D = Some x \<and> k \<in> {''authorize_path'', ''callback_path''}}" for r
    by (cases "wd_oauth D") (auto simp: oauth_of_def oauth_routes_def Let_def)
  have mfa: "r \<in> set (mfa_of D) \<longleftrightarrow> wd_mfa D \<noteq> None \<and> r \<in> set mfa_routes" for r by (simp add: mfa_of_def)
  show ?thesis
    unfolding set_eq_iff set_append Un_iff contributed_set mails_set [OF assms] managed oauth mfa served_members by_condition by (intro allI) (rule refl)
qed

lemma assembled_once:
  assumes "wd_email D \<noteq> None \<longrightarrow> recovery (wd_repo D) \<noteq> None" and "\<forall>r \<in> set (oauth_of D). contains (snd r) PROVIDER_FIELD"
    and "single_transports (wd_transports D)"
    and "\<forall>x. wd_oauth D = Some x \<longrightarrow> path_of (ow_paths x) ''authorize_path'' \<noteq> path_of (ow_paths x) ''callback_path''"
    and "rs = register_routes @ account_routes @ managed_of D @ concat (map (contributed own (wd_transports D)) (wd_transports D))
      @ oauth_of D @ mails_of D @ mfa_of D"
  shows "distinct rs \<and> ((''POST'', ''/logout'') \<in> set rs \<longleftrightarrow> (\<exists>t \<in> set (wd_transports D). writes_cookies t))"
proof
  let ?contr = "concat (map (contributed own (wd_transports D)) (wd_transports D))"
  let ?fixed = "[register_routes, account_routes, managed_of D, ?contr, mails_of D, mfa_of D]"
  note contr = contributed_distinct [OF assms(3), of own] and mails = mails_fixed [OF assms(1)]
  have "list_all2 (\<lambda>xs g. distinct xs \<and> set xs \<subseteq> set g) ?fixed fixed_groups"
    using contr(1,2) mails(1,2) fixed_distinct
    by (auto simp: fixed_groups_def managed_of_def mfa_of_def split: option.split)
  from part_distinct [OF fixed_distinct this]
  have fixed: "distinct (concat ?fixed)" "set (concat ?fixed) \<subseteq> set (concat fixed_groups)" by blast+
  have "distinct (oauth_of D)" using assms(4) by (auto simp: oauth_of_def oauth_routes_def Let_def split: option.split)
  moreover have "set (oauth_of D) \<inter> set (concat ?fixed) = {}" using assms(2) fixed(2) fixed_no_provider by blast
  ultimately show "distinct rs" using fixed(1) by (auto simp: assms(5))
  have "(\<exists>b. Session_bound b \<in> set (wd_transports D)) \<or> (\<exists>y. Bearer_bound y \<in> set (wd_transports D) \<and> refresh_location y = REFRESH_LOCATION_COOKIE)
        \<and> \<not> (\<exists>t \<in> set (wd_transports D). bound_name t = ''session'') \<longleftrightarrow> (\<exists>t \<in> set (wd_transports D). writes_cookies t)"
    using assms(3) by (cases rule: single_cases) auto
  moreover have "(''POST'', ''/logout'') \<in> served own D \<longleftrightarrow> (\<exists>b. Session_bound b \<in> set (wd_transports D))
      \<or> (\<exists>y. Bearer_bound y \<in> set (wd_transports D) \<and> refresh_location y = REFRESH_LOCATION_COOKIE)
        \<and> \<not> (\<exists>t \<in> set (wd_transports D). bound_name t = ''session'')"
  proof -
    have "App_bound name \<notin> set (wd_transports D)" for name using assms(3) by (auto simp: single_transports_def)
    then show ?thesis unfolding served_members by (simp add: route_defs)
  qed
  ultimately show "(''POST'', ''/logout'') \<in> set rs \<longleftrightarrow> (\<exists>t \<in> set (wd_transports D). writes_cookies t)"
    by (simp only: assms(5) assembled_served [OF assms(1)])
qed

text \<open>
  C29. The routes of an application. The router of every built application is assembled and mounts
  exactly the routes of the table: \<open>/register\<close> and the account routes always; the four session
  management routes if its first session transport has them; login, logout, token and refresh by
  its transports; the four email routes if it mails, and the two of an address change if the model
  has an \<open>email\<close> column and some channel sends to it; the seven of the second factor and the two
  of OAuth if the feature is on; and whatever the application's own transports contribute. If it has at most one session
  and one bearer transport and none of its own, and its two OAuth paths differ, no method and
  path is mounted twice, and \<open>/logout\<close> is there exactly if a transport sets cookies.
\<close>

theorem every_route_has_one_handler:
  assumes "all_constructed A" and "fst (crud_auth_of V A s) = Inr D"
  shows "\<exists>rs. app_router own D = Inr rs \<and> set rs = served own D
     \<and> (single_transports (wd_transports D) \<longrightarrow>
        (\<forall>x. wd_oauth D = Some x \<longrightarrow> path_of (ow_paths x) ''authorize_path'' \<noteq> path_of (ow_paths x) ''callback_path'') \<longrightarrow>
        distinct rs \<and> ((''POST'', ''/logout'') \<in> set rs \<longleftrightarrow> (\<exists>t \<in> set (wd_transports D). writes_cookies t)))"
proof -
  obtain lock limits ts oauth where b: "built_from V A lock limits ts oauth" and D: "D = app_of V A lock limits ts oauth"
    using assms(2) unfolding done_app [OF assms(1)] by blast
  have "identity_agrees A" and oauth: "if as_oauth A = [] then oauth = None else \<exists>x. oauth = Some x \<and> oauth_built V A x"
    using b by (simp_all add: built_from_def)
  then have email: "wd_email D \<noteq> None \<longrightarrow> recovery (wd_repo D) \<noteq> None"
    by (cases "as_recovery A") (simp_all add: D identity_agrees_def uses_email_def)
  have provider: "\<forall>r \<in> set (oauth_of D). contains (snd r) PROVIDER_FIELD"
    using oauth by (auto simp: D oauth_of_def oauth_routes_def oauth_built_def Let_def contains_append split: option.split if_splits)
  show ?thesis
    using router_assembled [OF email, of own] assembled_served [OF email, of own] assembled_once [OF email provider _ _ refl, where own = own] by blast
qed

text \<open>The demo application mounts one logout.\<close>

theorem every_route_has_one_handler_witness:
  "\<exists>rs. app_router (\<lambda>_. []) (built_app demo_env demo_settings) = Inr rs \<and> distinct rs \<and> (''POST'', ''/logout'') \<in> set rs"
proof -
  obtain lock limits ts oauth where b: "built_from demo_env demo_settings lock limits ts oauth"
      and D: "built_app demo_env demo_settings = app_of demo_env demo_settings lock limits ts oauth"
    using demo_built done_app [OF demo_constructed] by blast
  have "list_all2 (binds (app_wiring demo_env demo_settings lock)) [Session_config default_session_config] ts"
    using b by (simp add: built_from_def specs_of_def demo_settings_def)
  then obtain y where ts: "ts = [Session_bound y]" by (auto simp: list_all2_Cons1)
  have one: "single_transports (wd_transports (built_app demo_env demo_settings))" by (simp add: D ts single_transports_def)
  have "ow_paths x = DEFAULT_OAUTH_PATHS" if "oauth = Some x" for x
    using b that by (auto simp: built_from_def oauth_built_def demo_settings_def resolve_oauth_paths_def)
  then have paths: "\<forall>x. wd_oauth (built_app demo_env demo_settings) = Some x \<longrightarrow>
      path_of (ow_paths x) ''authorize_path'' \<noteq> path_of (ow_paths x) ''callback_path''"
    by (simp add: D path_of_def DEFAULT_OAUTH_PATHS_def)
  have "\<exists>t \<in> set (wd_transports (built_app demo_env demo_settings)). writes_cookies t" by (simp add: D ts)
  then show ?thesis
    using one paths every_route_has_one_handler [OF demo_constructed demo_built, of "\<lambda>_. []"] by blast
qed

end
