(* ===== verification/Redis.thy ===== *)
theory Redis
  imports Database
begin

text \<open>
  The Redis backends: \<open>storage/backends/redis.py\<close> (sessions and one-time values with an index of
  every user's sessions) and \<open>ratelimit/backends/redis.py\<close> (counters). The client and the server behind it
  are a parameter: a record of what the source calls on them, over the state of a connection. A pipeline in
  transaction mode is the list of its commands, which the server runs as one. What the values are
  serialised to is pydantic's, as for the other backends.
\<close>

section \<open>The client\<close>

datatype lifetime = Ex_seconds int | KEEPTTL

datatype written_if = Anyway | If_absent | If_present

datatype armed_if = Always | If_none | If_longer

datatype 'a command =
    GET string
  | SET string 'a lifetime written_if
  | DEL string
  | EXISTS string
  | EXPIRE string int armed_if
  | TTL string
  | INCRBY string int
  | SADD string string
  | SREM string string
  | SMEMBERS string
  | PING

datatype 'a reply = Null | Bulk 'a | Digits int | Counted int | Status | Members "string set" | Failed string

text \<open>
  \<open>rc_run\<close> runs commands in one round trip, more than one as a transaction. \<open>rc_watch\<close> and \<open>rc_exec\<close>
  are the optimistic transaction: the commands are run unless the watched key was touched meanwhile, when
  the client raises \<open>WatchError\<close> (\<open>None\<close>). \<open>rc_response_error\<close> is the text of an error the
  server replied, \<open>None\<close> for any other exception; \<open>rc_listing\<close> the order Python iterates a set of names in.
\<close>

record ('r, 'a) redis_connection =
  rc_run :: "int \<Rightarrow> 'a command list \<Rightarrow> ('r, 'a reply list) prog"
  rc_watch :: "int \<Rightarrow> string \<Rightarrow> ('r, unit) prog"
  rc_exec :: "int \<Rightarrow> 'a command list \<Rightarrow> ('r, 'a reply list option) prog"
  rc_scan :: "int \<Rightarrow> string \<Rightarrow> ('r, string list) prog"
  rc_close :: "('r, unit) prog"
  rc_response_error :: "exc \<Rightarrow> string option"
  rc_listing :: "string set \<Rightarrow> string list"

definition run_one :: "('r, 'a) redis_connection \<Rightarrow> int \<Rightarrow> 'a command \<Rightarrow> ('r, 'a reply) prog" where
  "run_one C now cmd = bind (rc_run C now [cmd]) (\<lambda>rs. ret (hd rs))"

text \<open>How the client hands replies over: \<open>None\<close> for a nil reply, and numbers as truth values.\<close>

fun bulk :: "'a reply \<Rightarrow> 'a option" where
  "bulk (Bulk v) = Some v"
| "bulk _ = None"

fun number :: "'a reply \<Rightarrow> int" where
  "number (Counted n) = n"
| "number _ = 0"

section \<open>Sessions and one-time values\<close>

definition USER_INDEX_SUFFIX :: string where
  "USER_INDEX_SUFFIX = ''_users:''"

definition USER_INDEX_TTL_BUFFER_SECONDS :: int where
  "USER_INDEX_TTL_BUFFER_SECONDS = 60 * 60"

record ('r, 'a) redis_storage =
  rs_client :: "('r, 'a) redis_connection"
  rs_owns_client :: bool
  rs_prefix :: string
  rs_expiration :: int
  rs_uuid :: string
  rs_user_id :: "'a \<Rightarrow> pyval option"

definition user_sessions_prefix :: "('r, 'a) redis_storage \<Rightarrow> string" where
  "user_sessions_prefix S = rev (dropWhile (\<lambda>c. c = CHR '':'') (rev (rs_prefix S))) @ USER_INDEX_SUFFIX"

definition user_key :: "('r, 'a) redis_storage \<Rightarrow> pyval \<Rightarrow> string" where
  "user_key S user_id = user_sessions_prefix S @ py_str user_id"

abbreviation redis_key :: "('r, 'a) redis_storage \<Rightarrow> string \<Rightarrow> string" where
  "redis_key S sid \<equiv> get_key (rs_prefix S) sid"

definition raise_if_redis_too_old :: "('r, 'a) redis_connection \<Rightarrow> exc \<Rightarrow> ('r, unit) prog" where
  "raise_if_redis_too_old C e =
     (case rc_response_error C e of
        None \<Rightarrow> ret ()
      | Some text \<Rightarrow>
          if contains (lower text) ''wrong number of arguments'' \<or> contains (lower text) ''syntax error''
          then raise (RuntimeError (''crudauth's Redis session storage needs Redis 7.0 or newer (or Valkey 7.2+): it uses EXPIRE NX and GT, and this server rejected them (''
            @ text @ ''). Upgrade the Redis server.''))
          else ret ())"

definition checked_version :: "('r, 'a) redis_connection \<Rightarrow> ('r, 'x) prog \<Rightarrow> ('r, 'x) prog" where
  "checked_version C m = catch m (\<lambda>e. bind (raise_if_redis_too_old C e) (\<lambda>_. raise e))"

definition index_session :: "('r, 'a) redis_storage \<Rightarrow> int \<Rightarrow> pyval \<Rightarrow> string \<Rightarrow> int \<Rightarrow> ('r, unit) prog" where
  "index_session S now user_id session_id seconds =
     (let ukey = user_key S user_id; index_ttl = seconds + USER_INDEX_TTL_BUFFER_SECONDS
      in checked_version (rs_client S)
           (bind (rc_run (rs_client S) now [SADD ukey session_id, EXPIRE ukey index_ttl If_none, EXPIRE ukey index_ttl If_longer]) (\<lambda>_. ret ())))"

definition index_value :: "('r, 'a) redis_storage \<Rightarrow> int \<Rightarrow> 'a \<Rightarrow> string \<Rightarrow> int \<Rightarrow> ('r, unit) prog" where
  "index_value S now v session_id seconds =
     (case rs_user_id S v of None \<Rightarrow> ret () | Some u \<Rightarrow> if u = VNone then ret () else index_session S now u session_id seconds)"

definition redis_initialize :: "('r, 'a) redis_storage \<Rightarrow> int \<Rightarrow> ('r, unit) prog" where
  "redis_initialize S now =
     bind (run_one (rs_client S) now PING) (\<lambda>_.
     checked_version (rs_client S)
       (bind (run_one (rs_client S) now (EXPIRE (rs_prefix S @ ''redis-version-check'') 1 If_none)) (\<lambda>_. ret ())))"

definition redis_close :: "('r, 'a) redis_storage \<Rightarrow> ('r, unit) prog" where
  "redis_close S = (if rs_owns_client S then rc_close (rs_client S) else ret ())"

definition redis_create :: "('r, 'a) redis_storage \<Rightarrow> int \<Rightarrow> 'a \<Rightarrow> string \<Rightarrow> int option \<Rightarrow> ('r, string) prog" where
  "redis_create S now v session_id exp =
     (let sid = (if session_id = [] then rs_uuid S else session_id); seconds = ttl_or (rs_expiration S) exp
      in bind (index_value S now v sid seconds) (\<lambda>_.
         bind (run_one (rs_client S) now (SET (redis_key S sid) v (Ex_seconds seconds) Anyway)) (\<lambda>_.
         ret sid)))"

definition redis_get :: "('r, 'a) redis_storage \<Rightarrow> int \<Rightarrow> string \<Rightarrow> ('r, 'a option) prog" where
  "redis_get S now session_id = bind (run_one (rs_client S) now (GET (redis_key S session_id))) (\<lambda>raw. ret (bulk raw))"

definition redis_update :: "('r, 'a) redis_storage \<Rightarrow> int \<Rightarrow> string \<Rightarrow> 'a \<Rightarrow> bool \<Rightarrow> int option \<Rightarrow> ('r, bool) prog" where
  "redis_update S now session_id v reset_expiration exp =
     (let seconds = ttl_or (rs_expiration S) exp
      in bind (run_one (rs_client S) now
              (SET (redis_key S session_id) v (if reset_expiration then Ex_seconds seconds else KEEPTTL) If_present)) (\<lambda>written.
         if written = Null then ret False
         else bind (index_value S now v session_id seconds) (\<lambda>_. ret True)))"

text \<open>The compare-and-set loop. It may go on for as long as others touch the key: then it has no outcome.\<close>

partial_function (option) watch_loop ::
  "('r, 'a) redis_storage \<Rightarrow> int \<Rightarrow> string \<Rightarrow> ('a \<Rightarrow> 'a \<times> string) \<Rightarrow> lifetime \<Rightarrow> 'r \<Rightarrow> ((exc + ('a \<times> string) option) \<times> 'r) option"
where
  "watch_loop S now key change life s =
     (case bind (rc_watch (rs_client S) now key) (\<lambda>_. run_one (rs_client S) now (GET key)) s of
        (Inl e, s1) \<Rightarrow> Some (Inl e, s1)
      | (Inr raw, s1) \<Rightarrow>
          (case bulk raw of
             None \<Rightarrow> Some (Inr None, s1)
           | Some v \<Rightarrow>
               (case rc_exec (rs_client S) now [SET key (fst (change v)) life Anyway] s1 of
                  (Inl e, s2) \<Rightarrow> Some (Inl e, s2)
                | (Inr None, s2) \<Rightarrow> watch_loop S now key change life s2
                | (Inr (Some _), s2) \<Rightarrow> Some (Inr (Some (change v)), s2))))"

definition redis_modify :: "('r, 'a) redis_storage \<Rightarrow> int \<Rightarrow> string \<Rightarrow> ('a \<Rightarrow> 'a \<times> string) \<Rightarrow> bool \<Rightarrow> int option \<Rightarrow>
    'r \<Rightarrow> ((exc + ('a \<times> string) option) \<times> 'r) option" where
  "redis_modify S now session_id change reset_expiration exp s =
     (let seconds = ttl_or (rs_expiration S) exp
      in map_option (\<lambda>(result, s1).
           case result of
             Inr (Some changed) \<Rightarrow> bind (index_value S now (fst changed) session_id seconds) (\<lambda>_. ret (Some changed)) s1
           | _ \<Rightarrow> (result, s1))
         (watch_loop S now (redis_key S session_id) change (if reset_expiration then Ex_seconds seconds else KEEPTTL) s))"

text \<open>The owner of the stored value is read when the caller does not name it.\<close>

definition redis_delete :: "('r, 'a) redis_storage \<Rightarrow> int \<Rightarrow> string \<Rightarrow> pyval \<Rightarrow> ('r, bool) prog" where
  "redis_delete S now session_id user_id =
     (let key = redis_key S session_id
      in bind (if user_id = VNone
               then bind (run_one (rs_client S) now (GET key)) (\<lambda>raw.
                      ret (case bulk raw of None \<Rightarrow> VNone | Some v \<Rightarrow> case rs_user_id S v of None \<Rightarrow> VNone | Some u \<Rightarrow> u))
               else ret user_id) (\<lambda>owner.
         bind (run_one (rs_client S) now (DEL key)) (\<lambda>deleted.
         bind (if number deleted \<noteq> 0 \<and> owner \<noteq> VNone
               then bind (run_one (rs_client S) now (SREM (user_key S owner) session_id)) (\<lambda>_. ret ()) else ret ()) (\<lambda>_.
         ret (number deleted \<noteq> 0)))))"

definition redis_extend :: "('r, 'a) redis_storage \<Rightarrow> int \<Rightarrow> string \<Rightarrow> int option \<Rightarrow> ('r, bool) prog" where
  "redis_extend S now session_id exp =
     bind (run_one (rs_client S) now (EXPIRE (redis_key S session_id) (ttl_or (rs_expiration S) exp) Always)) (\<lambda>n. ret (number n \<noteq> 0))"

definition redis_exists :: "('r, 'a) redis_storage \<Rightarrow> int \<Rightarrow> string \<Rightarrow> ('r, bool) prog" where
  "redis_exists S now session_id = bind (run_one (rs_client S) now (EXISTS (redis_key S session_id))) (\<lambda>n. ret (number n \<noteq> 0))"

definition redis_set_if_absent :: "('r, 'a) redis_storage \<Rightarrow> int \<Rightarrow> string \<Rightarrow> 'a \<Rightarrow> int option \<Rightarrow> ('r, bool) prog" where
  "redis_set_if_absent S now session_id v exp =
     bind (run_one (rs_client S) now (SET (redis_key S session_id) v (Ex_seconds (ttl_or (rs_expiration S) exp)) If_absent)) (\<lambda>result.
     ret (result \<noteq> Null))"

definition redis_get_and_delete :: "('r, 'a) redis_storage \<Rightarrow> int \<Rightarrow> string \<Rightarrow> ('r, 'a option) prog" where
  "redis_get_and_delete S now session_id =
     (let key = redis_key S session_id in bind (rc_run (rs_client S) now [GET key, DEL key]) (\<lambda>rs. ret (bulk (hd rs))))"

definition redis_get_user_sessions :: "('r, 'a) redis_storage \<Rightarrow> int \<Rightarrow> pyval \<Rightarrow> ('r, string list) prog" where
  "redis_get_user_sessions S now user_id =
     bind (run_one (rs_client S) now (SMEMBERS (user_key S user_id))) (\<lambda>r.
     ret (case r of Members A \<Rightarrow> rc_listing (rs_client S) A | _ \<Rightarrow> []))"

definition redis_remove_from_user_index :: "('r, 'a) redis_storage \<Rightarrow> int \<Rightarrow> pyval \<Rightarrow> string \<Rightarrow> ('r, unit) prog" where
  "redis_remove_from_user_index S now user_id session_id =
     bind (run_one (rs_client S) now (SREM (user_key S user_id) session_id)) (\<lambda>_. ret ())"

definition redis_scan_keys :: "('r, 'a) redis_storage \<Rightarrow> int \<Rightarrow> string option \<Rightarrow> ('r, string list) prog" where
  "redis_scan_keys S now m =
     rc_scan (rs_client S) now (case m of None \<Rightarrow> rs_prefix S @ ''*'' | Some p \<Rightarrow> if p = [] then rs_prefix S @ ''*'' else p)"

definition redis_delete_pattern :: "('r, 'a) redis_storage \<Rightarrow> int \<Rightarrow> string \<Rightarrow> ('r, int) prog" where
  "redis_delete_pattern S now pattern =
     bind (rc_scan (rs_client S) now (pattern @ ''*'')) (\<lambda>ks.
     bind (map_prog (\<lambda>k. run_one (rs_client S) now (DEL k)) ks) (\<lambda>rs.
     ret (sum_list (map number rs))))"

text \<open>The port wants an outcome of every call; a modify without one counts as an error here.\<close>

definition redis_storage_of :: "('r, 'a) redis_storage \<Rightarrow> ('r, 'a) session_storage" where
  "redis_storage_of S = \<lparr>st_prefix = rs_prefix S, st_expiration = rs_expiration S, st_create = redis_create S, st_get = redis_get S,
     st_update = redis_update S, st_delete = redis_delete S, st_extend = redis_extend S, st_exists = redis_exists S,
     st_modify = (\<lambda>now sid change reset exp s. case redis_modify S now sid change reset exp s of
        None \<Rightarrow> (Inl (RuntimeError ''does not return''), s) | Some out \<Rightarrow> out),
     st_set_if_absent = redis_set_if_absent S, st_get_and_delete = redis_get_and_delete S,
     st_get_user_sessions = redis_get_user_sessions S, st_remove_from_user_index = redis_remove_from_user_index S,
     st_scan_keys = redis_scan_keys S, st_delete_pattern = redis_delete_pattern S\<rparr>"

section \<open>Counters\<close>

record ('r, 'a) redis_limiter =
  rl_client :: "('r, 'a) redis_connection"
  rl_owns_client :: bool
  rl_prefix :: string

definition redis_counter_key :: "('r, 'a) redis_limiter \<Rightarrow> string \<Rightarrow> string" where
  "redis_counter_key L key = rl_prefix L @ key"

definition redis_increment :: "('r, 'a) redis_limiter \<Rightarrow> int \<Rightarrow> string \<Rightarrow> int \<Rightarrow> int option \<Rightarrow> ('r, int) prog" where
  "redis_increment L now key amount exp =
     (let k = redis_counter_key L key
      in bind (rc_run (rl_client L) now (INCRBY k amount # (case exp of None \<Rightarrow> [] | Some e \<Rightarrow> [EXPIRE k e If_none]))) (\<lambda>rs.
         ret (number (hd rs))))"

definition redis_increment_and_refresh_ttl :: "('r, 'a) redis_limiter \<Rightarrow> int \<Rightarrow> string \<Rightarrow> int \<Rightarrow> int option \<Rightarrow> ('r, int) prog" where
  "redis_increment_and_refresh_ttl L now key amount exp =
     (let k = redis_counter_key L key
      in bind (rc_run (rl_client L) now (INCRBY k amount # (case exp of None \<Rightarrow> [] | Some e \<Rightarrow> [EXPIRE k e Always]))) (\<lambda>rs.
         ret (number (hd rs))))"

definition redis_get_count :: "('r, 'a) redis_limiter \<Rightarrow> int \<Rightarrow> string \<Rightarrow> ('r, int option) prog" where
  "redis_get_count L now key =
     bind (run_one (rl_client L) now (GET (redis_counter_key L key))) (\<lambda>raw.
     ret (case raw of Digits n \<Rightarrow> Some n | _ \<Rightarrow> None))"

definition redis_get_ttl :: "('r, 'a) redis_limiter \<Rightarrow> int \<Rightarrow> string \<Rightarrow> ('r, int) prog" where
  "redis_get_ttl L now key = bind (run_one (rl_client L) now (TTL (redis_counter_key L key))) (\<lambda>n. ret (max 0 (number n)))"

definition redis_delete_counter :: "('r, 'a) redis_limiter \<Rightarrow> int \<Rightarrow> string \<Rightarrow> ('r, bool) prog" where
  "redis_delete_counter L now key = bind (run_one (rl_client L) now (DEL (redis_counter_key L key))) (\<lambda>n. ret (number n \<noteq> 0))"

definition redis_reset :: "('r, 'a) redis_limiter \<Rightarrow> int \<Rightarrow> string \<Rightarrow> ('r, unit) prog" where
  "redis_reset L now key = bind (redis_delete_counter L now key) (\<lambda>_. ret ())"

definition redis_limiter_initialize :: "('r, 'a) redis_limiter \<Rightarrow> int \<Rightarrow> ('r, unit) prog" where
  "redis_limiter_initialize L now = bind (run_one (rl_client L) now PING) (\<lambda>_. ret ())"

definition redis_limiter_close :: "('r, 'a) redis_limiter \<Rightarrow> ('r, unit) prog" where
  "redis_limiter_close L = (if rl_owns_client L then rc_close (rl_client L) else ret ())"

definition redis_ping :: "('r, 'a) redis_limiter \<Rightarrow> int \<Rightarrow> ('r, bool) prog" where
  "redis_ping L now = bind (run_one (rl_client L) now PING) (\<lambda>r. ret (r = Status))"

text \<open>The window check of its own, which arms the key of a window at every request.\<close>

definition redis_increment_and_check ::
  "('r, 'a) redis_limiter \<Rightarrow> int \<Rightarrow> string \<Rightarrow> int \<Rightarrow> int \<Rightarrow> bool \<Rightarrow> ('r, int \<times> bool \<times> int) prog" where
  "redis_increment_and_check L clock key limit period fail_open =
     (let now = clock div usec;
          window_start = now - now mod period;
          wkey = redis_counter_key L (key @ '':'' @ str_of_int window_start)
      in bind (catch (bind (rc_run (rl_client L) clock [INCRBY wkey 1, EXPIRE wkey period Always]) (\<lambda>rs. ret (Some (number (hd rs)))))
             (\<lambda>_. ret None)) (\<lambda>counted.
         ret (case counted of
                None \<Rightarrow> if fail_open then (0, False, 0) else (limit + 1, True, period)
              | Some count \<Rightarrow> if count \<le> limit then (count, False, 0) else (count, True, period - (now - window_start)))))"

definition redis_backend :: "('r, 'a) redis_limiter \<Rightarrow> 'r rate_limiter_backend" where
  "redis_backend L = \<lparr>increment = redis_increment L, increment_and_refresh_ttl = redis_increment_and_refresh_ttl L,
     get_count = redis_get_count L, delete_key = redis_delete_counter L, get_ttl = redis_get_ttl L\<rparr>"

end
