(* ===== verification/RedisLaws.thy ===== *)
theory RedisLaws
  imports Redis CounterLaws
begin

text \<open>
  What the Redis backends rely on, as a contract of the server nobody else uses (\<open>redis_server\<close>): commands
  do to the keys what the Redis documentation says. Over every such server the storage keeps
  the specification of the port and the limiter the contract \<open>timed_counters\<close>. The last section runs the
  backends on a keyspace, which other clients may change between their commands.
\<close>

section \<open>What the commands do\<close>

datatype 'a content = Value 'a | Counter int | Names "string set"

type_synonym 'a keyspace = "string \<rightharpoonup> 'a content \<times> int option"

text \<open>Deadlines are milliseconds of the server's clock; a key is there until its deadline has passed.\<close>

definition server_ms :: "int \<Rightarrow> int" where
  "server_ms clock = clock div 1000"

definition alive :: "int \<Rightarrow> 'a keyspace \<Rightarrow> 'a keyspace" where
  "alive t m = (\<lambda>k. case m k of None \<Rightarrow> None | Some (c, d) \<Rightarrow> if expired_at t d then None else Some (c, d))"

fun arms :: "armed_if \<Rightarrow> int option \<Rightarrow> int \<Rightarrow> bool" where
  "arms Always d x \<longleftrightarrow> True"
| "arms If_none d x \<longleftrightarrow> d = None"
| "arms If_longer d x \<longleftrightarrow> (case d of None \<Rightarrow> False | Some y \<Rightarrow> y < x)"

fun writes :: "written_if \<Rightarrow> bool \<Rightarrow> bool" where
  "writes Anyway there \<longleftrightarrow> True"
| "writes If_absent there \<longleftrightarrow> \<not> there"
| "writes If_present there \<longleftrightarrow> there"

definition deadline_of :: "'a keyspace \<Rightarrow> string \<Rightarrow> int option" where
  "deadline_of m k = (case m k of None \<Rightarrow> None | Some (_, d) \<Rightarrow> d)"

definition wrong_type :: "'a reply" where
  "wrong_type = Failed ''WRONGTYPE Operation against a key holding the wrong kind of value''"

fun obey :: "(int \<Rightarrow> int) \<Rightarrow> int \<Rightarrow> 'a command \<Rightarrow> 'a keyspace \<Rightarrow> 'a reply \<times> 'a keyspace" where
  "obey rounded t (GET k) m =
     (case m k of None \<Rightarrow> Null | Some (Value v, _) \<Rightarrow> Bulk v | Some (Counter n, _) \<Rightarrow> Digits n | Some (Names _, _) \<Rightarrow> wrong_type, m)"
| "obey rounded t (SET k v life cond) m =
     (if \<exists>n. life = Ex_seconds n \<and> n \<le> 0 then (Failed ''ERR invalid expire time in 'set' command'', m)
      else if writes cond (m k \<noteq> None)
      then (Status, m(k \<mapsto> (Value v, case life of Ex_seconds n \<Rightarrow> Some (t + n * 1000) | KEEPTTL \<Rightarrow> deadline_of m k)))
      else (Null, m))"
| "obey rounded t (DEL k) m = (Counted (if m k = None then 0 else 1), m(k := None))"
| "obey rounded t (EXISTS k) m = (Counted (if m k = None then 0 else 1), m)"
| "obey rounded t (EXPIRE k n cond) m =
     (case m k of
        None \<Rightarrow> (Counted 0, m)
      | Some (c, d) \<Rightarrow>
          if arms cond d (t + n * 1000) then (Counted 1, if n \<le> 0 then m(k := None) else m(k \<mapsto> (c, Some (t + n * 1000))))
          else (Counted 0, m))"
| "obey rounded t (TTL k) m =
     (Counted (case m k of None \<Rightarrow> - 2 | Some (_, d) \<Rightarrow> (case d of None \<Rightarrow> - 1 | Some x \<Rightarrow> rounded (x - t))), m)"
| "obey rounded t (INCRBY k a) m =
     (case m k of
        None \<Rightarrow> (Counted a, m(k \<mapsto> (Counter a, None)))
      | Some (Counter n, d) \<Rightarrow> (Counted (n + a), m(k \<mapsto> (Counter (n + a), d)))
      | Some (Value _, _) \<Rightarrow> (Failed ''ERR value is not an integer or out of range'', m)
      | Some (Names _, _) \<Rightarrow> (wrong_type, m))"
| "obey rounded t (SADD k x) m =
     (case m k of
        None \<Rightarrow> (Counted 1, m(k \<mapsto> (Names {x}, None)))
      | Some (Names A, d) \<Rightarrow> (Counted (if x \<in> A then 0 else 1), m(k \<mapsto> (Names (insert x A), d)))
      | Some _ \<Rightarrow> (wrong_type, m))"
| "obey rounded t (SREM k x) m =
     (case m k of
        None \<Rightarrow> (Counted 0, m)
      | Some (Names A, d) \<Rightarrow> (Counted (if x \<in> A then 1 else 0), if A \<subseteq> {x} then m(k := None) else m(k \<mapsto> (Names (A - {x}), d)))
      | Some _ \<Rightarrow> (wrong_type, m))"
| "obey rounded t (SMEMBERS k) m =
     (case m k of None \<Rightarrow> Members {} | Some (Names A, _) \<Rightarrow> Members A | Some _ \<Rightarrow> wrong_type, m)"
| "obey rounded t PING m = (Status, m)"

fun obey_all :: "(int \<Rightarrow> int) \<Rightarrow> int \<Rightarrow> 'a command list \<Rightarrow> 'a keyspace \<Rightarrow> 'a reply list \<times> 'a keyspace" where
  "obey_all rounded t [] m = ([], m)"
| "obey_all rounded t (c # cs) m = (let (r, m1) = obey rounded t c m; (rs, m2) = obey_all rounded t cs m1 in (r # rs, m2))"

fun failed :: "'a reply \<Rightarrow> bool" where
  "failed (Failed _) \<longleftrightarrow> True"
| "failed _ \<longleftrightarrow> False"

lemma alive_later: "s \<le> t \<Longrightarrow> alive t (alive s m) = alive t m"
  by (auto simp: alive_def fun_eq_iff expired_at_def split: option.splits)

lemma alive_alive [simp]: "alive t (alive t m) = alive t m"
  by (rule alive_later) simp

lemma alive_Some: "alive t m k = Some (c, d) \<longleftrightarrow> m k = Some (c, d) \<and> \<not> expired_at t d"
  by (auto simp: alive_def split: option.splits)

text \<open>The keys stored once \<open>m\<close> of them are alive: what had expired before may still be stored.\<close>

definition becomes :: "int \<Rightarrow> 'a keyspace \<Rightarrow> 'a keyspace \<Rightarrow> 'a keyspace \<Rightarrow> bool" where
  "becomes t stored m stored' \<longleftrightarrow> alive t stored' = m \<and> (\<forall>k. stored' k = m k \<or> stored' k = stored k \<and> alive t stored k = None)"

lemma becomes_alive: "becomes t stored m stored' \<Longrightarrow> alive t stored' = m"
  by (simp add: becomes_def)

lemma becomes_refl: "becomes t stored (alive t stored) stored"
proof -
  have "stored k = alive t stored k \<or> alive t stored k = None" for k by (auto simp: alive_def split: option.split)
  then show ?thesis by (auto simp: becomes_def)
qed

lemma becomes_trans: "becomes t stored m stored1 \<Longrightarrow> becomes t stored1 m' stored2 \<Longrightarrow> becomes t stored m' stored2"
proof -
  assume a: "becomes t stored m stored1" and b: "becomes t stored1 m' stored2"
  have "stored2 k = m' k \<or> stored2 k = stored k \<and> alive t stored k = None" for k
  proof (cases "stored2 k = m' k")
    case False
    then have "stored2 k = stored1 k" "m k = None" using a b by (auto simp: becomes_def)
    moreover have "stored1 k \<noteq> None" using False b calculation(1) by (auto simp: becomes_def alive_def split: option.splits)
    moreover have "stored1 k = m k \<or> stored1 k = stored k \<and> alive t stored k = None" using a by (simp add: becomes_def)
    ultimately show ?thesis by auto
  qed simp
  then show ?thesis using b by (simp add: becomes_def)
qed

section \<open>A server of one's own\<close>

text \<open>
  \<open>keys\<close> are the keys the server stores, \<open>quiet\<close> says that nobody else writes, \<open>rounded\<close> is what \<open>TTL\<close>
  makes of a number of milliseconds.
\<close>

locale redis_server =
  fixes C :: "('r, 'a) redis_connection"
    and keys :: "'r \<Rightarrow> 'a keyspace"
    and quiet :: "'r \<Rightarrow> bool"
    and rounded :: "int \<Rightarrow> int"
  assumes runs: "quiet s \<Longrightarrow> obey_all rounded (server_ms now) cmds (alive (server_ms now) (keys s)) = (rs, m) \<Longrightarrow>
      \<not> list_ex failed rs \<Longrightarrow>
      \<exists>s'. rc_run C now cmds s = (Inr rs, s') \<and> quiet s' \<and> becomes (server_ms now) (keys s) m (keys s')"
    and watches: "quiet s \<Longrightarrow> \<exists>s'. rc_watch C now k s = (Inr (), s') \<and> quiet s' \<and> becomes (server_ms now) (keys s) (alive (server_ms now) (keys s)) (keys s')"
    and executes: "quiet s \<Longrightarrow> obey_all rounded (server_ms now) cmds (alive (server_ms now) (keys s)) = (rs, m) \<Longrightarrow>
      \<not> list_ex failed rs \<Longrightarrow>
      \<exists>s'. rc_exec C now cmds s = (Inr (Some rs), s') \<and> quiet s' \<and> becomes (server_ms now) (keys s) m (keys s')"
    and rounded: "x div 1000 \<le> rounded x \<and> rounded x \<le> - ((- x) div 1000)"
    and listed: "finite A \<Longrightarrow> set (rc_listing C A) = A \<and> distinct (rc_listing C A)"
begin

text \<open>A program that turns the keys alive at an instant from \<open>m\<close> to \<open>m'\<close> and returns \<open>x\<close>.\<close>

definition does :: "int \<Rightarrow> ('r, 'x) prog \<Rightarrow> 'a keyspace \<Rightarrow> 'x \<Rightarrow> 'a keyspace \<Rightarrow> bool" where
  "does now p m x m' \<longleftrightarrow> (\<forall>s. quiet s \<longrightarrow> alive (server_ms now) (keys s) = m \<longrightarrow>
     (\<exists>s'. p s = (Inr x, s') \<and> quiet s' \<and> becomes (server_ms now) (keys s) m' (keys s')))"

lemma does_ret: "does now (ret x) m x m"
  using becomes_refl by (auto simp: does_def ret_run)

lemma does_bind:
  assumes "does now p m x m1" and "does now (f x) m1 y m'"
  shows "does now (bind p f) m y m'"
  unfolding does_def
proof (intro allI impI)
  fix s assume s: "quiet s" "alive (server_ms now) (keys s) = m"
  obtain s1 where s1: "p s = (Inr x, s1)" "quiet s1" "becomes (server_ms now) (keys s) m1 (keys s1)"
    using assms(1) s by (auto simp: does_def)
  obtain s2 where "f x s1 = (Inr y, s2)" "quiet s2" "becomes (server_ms now) (keys s1) m' (keys s2)"
    using assms(2) s1(2) becomes_alive [OF s1(3)] by (auto simp: does_def)
  then show "\<exists>s'. bind p f s = (Inr y, s') \<and> quiet s' \<and> becomes (server_ms now) (keys s) m' (keys s')"
    using s1(1) becomes_trans [OF s1(3)] by (auto simp: bind_run)
qed

lemma does_map: "does now p m x m' \<Longrightarrow> f x = y \<Longrightarrow> does now (bind p (\<lambda>x. ret (f x))) m y m'"
  by (rule does_bind, assumption) (simp add: does_ret)

lemma does_catch: "does now p m x m' \<Longrightarrow> does now (catch p h) m x m'"
  unfolding does_def catch_run by (auto; metis fst_conv snd_conv sum.case(2))

lemma does_run: "obey_all rounded (server_ms now) cmds m = (rs, m') \<Longrightarrow> \<not> list_ex failed rs \<Longrightarrow> does now (rc_run C now cmds) m rs m'"
  unfolding does_def using runs by blast

lemma does_watch: "does now (rc_watch C now k) m () m"
  unfolding does_def using watches by blast

lemma does_one: "obey rounded (server_ms now) cmd m = (r, m') \<Longrightarrow> \<not> failed r \<Longrightarrow> does now (run_one C now cmd) m r m'"
proof -
  assume r: "obey rounded (server_ms now) cmd m = (r, m')" "\<not> failed r"
  have "does now (rc_run C now [cmd]) m [r] m'" by (rule does_run) (simp_all add: r)
  moreover have "does now (ret (hd [r])) m' r m'" unfolding list.sel by (rule does_ret)
  ultimately show ?thesis unfolding run_one_def by (rule does_bind)
qed

lemma does_answer: "obey rounded (server_ms now) cmd m = (r, m') \<Longrightarrow> \<not> failed r \<Longrightarrow> f r = y \<Longrightarrow>
    does now (bind (run_one C now cmd) (\<lambda>r. ret (f r))) m y m'"
  by (rule does_map [OF does_one])

lemma does_run_from: "does now p m x m' \<Longrightarrow> quiet s \<Longrightarrow> alive (server_ms now) (keys s) = m \<Longrightarrow>
    \<exists>s'. p s = (Inr x, s') \<and> quiet s' \<and> alive (server_ms now) (keys s') = m'"
  using becomes_alive by (fastforce simp: does_def)

end

section \<open>Sessions among the keys\<close>

definition owner :: "('r, 'a) redis_storage \<Rightarrow> 'a \<Rightarrow> pyval option" where
  "owner S v = (case rs_user_id S v of None \<Rightarrow> None | Some u \<Rightarrow> if u = VNone then None else Some u)"

definition colon_prefix :: "('r, 'a) redis_storage \<Rightarrow> bool" where
  "colon_prefix S \<longleftrightarrow> rs_prefix S \<noteq> [] \<and> last (rs_prefix S) = CHR '':''"

lemma user_key_apart:
  assumes "colon_prefix S"
  shows "user_key S u \<noteq> redis_key S sid"
proof -
  let ?P = "rev (rs_prefix S)" and ?c = "\<lambda>c. c = CHR '':''"
  have "rs_prefix S = rev (dropWhile ?c ?P) @ rev (takeWhile ?c ?P)"
    by (metis rev_append rev_rev_ident takeWhile_dropWhile_id)
  moreover obtain cs where "rev (takeWhile ?c ?P) = CHR '':'' # cs"
  proof -
    have "takeWhile ?c ?P \<noteq> []" using assms by (cases "rs_prefix S" rule: rev_cases) (simp_all add: colon_prefix_def)
    then obtain c cs where l: "rev (takeWhile ?c ?P) = c # cs" by (cases "rev (takeWhile ?c ?P)") auto
    then have "c \<in> set (takeWhile ?c ?P)" by (metis list.set_intros(1) set_rev)
    then have "c = CHR '':''" by (blast dest: set_takeWhileD)
    then show thesis using that l by metis
  qed
  ultimately have "redis_key S sid = rev (dropWhile ?c ?P) @ CHR '':'' # cs @ sid" by (simp add: get_key_def)
  then show ?thesis by (simp add: user_key_def user_sessions_prefix_def USER_INDEX_SUFFIX_def)
qed

text \<open>
  Every session has its user, \<open>whose sid\<close>. Values and indexes are what they should be, each with a deadline, and
  no value is missing from its user's index, which lasts at least as long and names sessions of that user only.
\<close>

definition covered :: "('r, 'a) redis_storage \<Rightarrow> 'a keyspace \<Rightarrow> string \<Rightarrow> int \<Rightarrow> pyval \<Rightarrow> bool" where
  "covered S m sid x u \<longleftrightarrow> (\<exists>A y. m (user_key S u) = Some (Names A, Some y) \<and> sid \<in> A \<and> x \<le> y)"

definition record_ok :: "('r, 'a) redis_storage \<Rightarrow> (string \<Rightarrow> pyval option) \<Rightarrow> 'a keyspace \<Rightarrow> string \<Rightarrow> bool" where
  "record_ok S whose m sid \<longleftrightarrow> m (redis_key S sid) = None
     \<or> (\<exists>v x. m (redis_key S sid) = Some (Value v, Some x) \<and> owner S v = whose sid \<and> (\<forall>u. whose sid = Some u \<longrightarrow> covered S m sid x u))"

definition index_ok :: "('r, 'a) redis_storage \<Rightarrow> (string \<Rightarrow> pyval option) \<Rightarrow> 'a keyspace \<Rightarrow> pyval \<Rightarrow> bool" where
  "index_ok S whose m u \<longleftrightarrow> m (user_key S u) = None
     \<or> (\<exists>A x. m (user_key S u) = Some (Names A, Some x) \<and> finite A \<and> (\<forall>sid \<in> A. map_option py_str (whose sid) = Some (py_str u)))"

definition keys_ok :: "('r, 'a) redis_storage \<Rightarrow> (string \<Rightarrow> pyval option) \<Rightarrow> 'a keyspace \<Rightarrow> bool" where
  "keys_ok S whose m \<longleftrightarrow> (\<forall>sid. record_ok S whose m sid) \<and> (\<forall>u. index_ok S whose m u)"

definition redis_view :: "('r, 'a) redis_storage \<Rightarrow> 'a keyspace \<Rightarrow> 'a entries" where
  "redis_view S m = (\<lambda>sid. case m (redis_key S sid) of Some (Value v, Some x) \<Rightarrow> Some (v, x * 1000 + 999) | _ \<Rightarrow> None)"

lemma keys_okD: "keys_ok S whose m \<Longrightarrow> record_ok S whose m sid" "keys_ok S whose m \<Longrightarrow> index_ok S whose m u"
  by (simp_all add: keys_ok_def)

lemma expired_ms: "expired_at (server_ms now) (Some x) \<longleftrightarrow> x * 1000 + 999 < now"
  using div_mult_mod_eq [of now 1000] pos_mod_bound [of 1000 now] pos_mod_sign [of 1000 now]
  unfolding expired_at_def server_ms_def option.case by (intro iffI) linarith+

lemma view_alive: "redis_view S (alive (server_ms now) m) = live_at now (redis_view S m)"
  by (auto simp: redis_view_def live_at_def fun_eq_iff alive_def expired_ms split: option.splits content.splits)

lemma covered_alive: "covered S m sid x u \<Longrightarrow> \<not> x < t \<Longrightarrow> covered S (alive t m) sid x u"
  by (fastforce simp: covered_def alive_Some expired_at_def)

lemma alive_ok:
  assumes "keys_ok S whose m"
  shows "keys_ok S whose (alive t m)"
  unfolding keys_ok_def
proof (intro conjI allI)
  show "record_ok S whose (alive t m) sid" for sid
  proof (cases "alive t m (redis_key S sid)")
    case (Some p)
    then obtain v x where "m (redis_key S sid) = Some (Value v, Some x)" "owner S v = whose sid" "\<not> x < t"
      "\<forall>u. whose sid = Some u \<longrightarrow> covered S m sid x u" "alive t m (redis_key S sid) = Some (Value v, Some x)"
      using keys_okD(1) [OF assms, of sid] by (cases p) (auto simp: record_ok_def alive_Some expired_at_def)
    then show ?thesis using covered_alive by (metis record_ok_def)
  qed (simp add: record_ok_def)
  show "index_ok S whose (alive t m) u" for u
    using keys_okD(2) [OF assms, of u] by (cases "alive t m (user_key S u)") (auto simp: index_ok_def alive_Some alive_def split: if_splits)
qed

definition indexed :: "('r, 'a) redis_storage \<Rightarrow> pyval option \<Rightarrow> string \<Rightarrow> int \<Rightarrow> 'a keyspace \<Rightarrow> 'a keyspace" where
  "indexed S user sid x m = (case user of None \<Rightarrow> m | Some u \<Rightarrow>
     m(user_key S u \<mapsto> (case m (user_key S u) of Some (Names A, Some y) \<Rightarrow> (Names (insert sid A), Some (max y x)) | _ \<Rightarrow> (Names {sid}, Some x))))"

lemma indexed_record: "colon_prefix S \<Longrightarrow> indexed S user sid x m (redis_key S j) = m (redis_key S j)"
  by (cases user) (simp_all add: indexed_def user_key_apart [THEN not_sym])

lemma indexed_view: "colon_prefix S \<Longrightarrow> redis_view S (indexed S user sid x m) = redis_view S m"
  by (simp add: redis_view_def indexed_record)

lemma user_key_eq: "user_key S u = user_key S w \<longleftrightarrow> py_str u = py_str w"
  by (simp add: user_key_def)

lemma indexed_covers: "index_ok S whose m u \<Longrightarrow> y \<le> x \<Longrightarrow> covered S (indexed S (Some u) sid x m) sid y u"
  by (auto simp: covered_def indexed_def index_ok_def)

lemma indexed_at:
  assumes "index_ok S whose m u"
  shows "indexed S user sid x m (user_key S u) = (if \<exists>w. user = Some w \<and> py_str w = py_str u
    then (case m (user_key S u) of Some (Names A, Some y) \<Rightarrow> Some (Names (insert sid A), Some (max y x)) | _ \<Rightarrow> Some (Names {sid}, Some x))
    else m (user_key S u))"
proof (cases "\<exists>w. user = Some w \<and> py_str w = py_str u")
  case True
  then obtain w where "user = Some w" "user_key S w = user_key S u" by (auto simp: user_key_eq)
  then show ?thesis using True assms by (auto simp: indexed_def index_ok_def)
next
  case False
  then show ?thesis by (auto simp: indexed_def user_key_eq split: option.split)
qed

lemma indexed_keeps_cover: "index_ok S whose m u \<Longrightarrow> covered S m j y u \<Longrightarrow> covered S (indexed S user sid x m) j y u"
  by (auto simp: covered_def indexed_at)

lemma indexed_ok:
  assumes "colon_prefix S" and "keys_ok S whose m" and "user = whose sid"
  shows "keys_ok S whose (indexed S user sid x m)"
  unfolding keys_ok_def
proof (intro conjI allI)
  show "record_ok S whose (indexed S user sid x m) j" for j
    using keys_okD(1) [OF assms(2), of j] indexed_keeps_cover [OF keys_okD(2) [OF assms(2)]]
    by (auto simp: record_ok_def indexed_record [OF assms(1)])
  show "index_ok S whose (indexed S user sid x m) u" for u
    using keys_okD(2) [OF assms(2), of u] assms(3) unfolding index_ok_def indexed_at [OF keys_okD(2) [OF assms(2)]] by auto
qed

lemma record_update:
  assumes "colon_prefix S"
  shows "covered S (m(redis_key S sid := e)) = covered S m" and "index_ok S whose (m(redis_key S sid := e)) = index_ok S whose m"
    and "j \<noteq> sid \<Longrightarrow> record_ok S whose (m(redis_key S sid := e)) j = record_ok S whose m j"
proof -
  have index: "(m(redis_key S sid := e)) (user_key S u) = m (user_key S u)" for u
    using user_key_apart [OF assms] by simp
  show c: "covered S (m(redis_key S sid := e)) = covered S m" unfolding covered_def index by (rule refl)
  show "index_ok S whose (m(redis_key S sid := e)) = index_ok S whose m" unfolding index_ok_def index by (rule refl)
  show "record_ok S whose (m(redis_key S sid := e)) j = record_ok S whose m j" if "j \<noteq> sid"
    unfolding record_ok_def c using that by simp
qed

lemma key_put_ok:
  assumes "colon_prefix S" and "keys_ok S whose m" and "owner S v = whose sid" and "\<forall>u. whose sid = Some u \<longrightarrow> covered S m sid x u"
  shows "keys_ok S whose (m(redis_key S sid \<mapsto> (Value v, Some x)))"
  unfolding keys_ok_def
proof (intro conjI allI)
  show "record_ok S whose (m(redis_key S sid \<mapsto> (Value v, Some x))) j" for j
    using keys_okD(1) [OF assms(2), of j] record_update(3) [OF assms(1)] assms(3,4)
    by (cases "j = sid") (simp_all add: record_ok_def record_update(1) [OF assms(1)])
qed (simp add: record_update(2) [OF assms(1)] keys_okD [OF assms(2)])

lemma key_put_view: "redis_view S (m(redis_key S sid \<mapsto> (Value v, Some x))) = (redis_view S m)(sid \<mapsto> (v, x * 1000 + 999))"
  by (simp add: redis_view_def fun_eq_iff)

lemma removed_ok:
  assumes "colon_prefix S" and "keys_ok S whose m"
  shows "keys_ok S whose (m(redis_key S sid := None))"
  unfolding keys_ok_def
proof (intro conjI allI)
  show "record_ok S whose (m(redis_key S sid := None)) j" for j
    using keys_okD(1) [OF assms(2), of j] record_update(3) [OF assms(1)]
    by (cases "j = sid") (simp_all add: record_ok_def)
qed (simp add: record_update(2) [OF assms(1)] keys_okD [OF assms(2)])

lemma removed_view: "redis_view S (m(redis_key S sid := None)) = (redis_view S m)(sid := None)"
  by (simp add: redis_view_def fun_eq_iff)

definition unindexed :: "('r, 'a) redis_storage \<Rightarrow> pyval \<Rightarrow> string \<Rightarrow> 'a keyspace \<Rightarrow> 'a keyspace" where
  "unindexed S u sid m = (case m (user_key S u) of
     Some (Names A, d) \<Rightarrow> if A \<subseteq> {sid} then m(user_key S u := None) else m(user_key S u \<mapsto> (Names (A - {sid}), d)) | _ \<Rightarrow> m)"

lemma unindexed_at:
  assumes "index_ok S whose m u"
  shows "unindexed S w sid m (user_key S u) = (if py_str w = py_str u
    then (case m (user_key S u) of Some (Names A, d) \<Rightarrow> if A \<subseteq> {sid} then None else Some (Names (A - {sid}), d) | x \<Rightarrow> x)
    else m (user_key S u))"
proof (cases "py_str w = py_str u")
  case True
  then have "user_key S w = user_key S u" by (simp add: user_key_eq)
  then show ?thesis using True assms by (auto simp: unindexed_def index_ok_def)
next
  case False
  then show ?thesis by (auto simp: unindexed_def user_key_eq split: option.split content.split)
qed

lemma unindexed_record: "colon_prefix S \<Longrightarrow> unindexed S u sid m (redis_key S j) = m (redis_key S j)"
  using user_key_apart [of S u j] by (auto simp: unindexed_def split: option.split content.split)

lemma unindexed_view: "colon_prefix S \<Longrightarrow> redis_view S (unindexed S u sid m) = redis_view S m"
  by (simp add: redis_view_def unindexed_record)

lemma unindexed_ok:
  assumes "colon_prefix S" and "keys_ok S whose m" and "m (redis_key S sid) = None"
  shows "keys_ok S whose (unindexed S u sid m)"
  unfolding keys_ok_def
proof (intro conjI allI)
  have cover: "covered S (unindexed S u sid m) j x w" if "covered S m j x w" "j \<noteq> sid" for j x w
    using that unfolding covered_def unindexed_at [OF keys_okD(2) [OF assms(2)]] by auto
  show "record_ok S whose (unindexed S u sid m) j" for j
    using keys_okD(1) [OF assms(2), of j] assms(3) cover
    by (cases "j = sid") (auto simp: record_ok_def unindexed_record [OF assms(1)])
  show "index_ok S whose (unindexed S u sid m) w" for w
  proof -
    note at = unindexed_at [OF keys_okD(2) [OF assms(2), of w], of u sid]
    consider (none) "m (user_key S w) = None"
      | (names) A x where "m (user_key S w) = Some (Names A, Some x)" "finite A" "\<forall>j \<in> A. map_option py_str (whose j) = Some (py_str w)"
      using keys_okD(2) [OF assms(2), of w] by (auto simp: index_ok_def)
    then show ?thesis
    proof cases
      case names
      then show ?thesis by (cases "A \<subseteq> {sid}") (simp_all add: index_ok_def at)
    qed (simp add: index_ok_def at)
  qed
qed

end
