(* ===== verification/RedisStore.thy ===== *)
theory RedisStore
  imports RedisLaws
begin

text \<open>
  The operations of the Redis storage on a server of one's own: each does to the live keys what the specification of
  the port says, and keeps every session in its user's index.
\<close>

section \<open>Writes\<close>

abbreviation index_end :: "int \<Rightarrow> int \<Rightarrow> int" where
  "index_end now n \<equiv> server_ms now + (n + USER_INDEX_TTL_BUFFER_SECONDS) * 1000"

abbreviation record_end :: "int \<Rightarrow> int \<Rightarrow> int" where
  "record_end now n \<equiv> server_ms now + n * 1000"

lemma indexed_put:
  assumes "colon_prefix S"
  shows "indexed S user sid x (m(redis_key S j \<mapsto> e)) = (indexed S user sid x m)(redis_key S j \<mapsto> e)"
  by (cases user) (simp_all add: indexed_def user_key_apart [OF assms] user_key_apart [OF assms, THEN not_sym] fun_upd_twist)

text \<open>A value overwritten in place: with a new deadline, or with its own.\<close>

definition overwritten :: "('r, 'a) redis_storage \<Rightarrow> int \<Rightarrow> string \<Rightarrow> 'a \<Rightarrow> bool \<Rightarrow> int \<Rightarrow> 'a keyspace \<Rightarrow> 'a keyspace" where
  "overwritten S now sid v reset n m = m(redis_key S sid \<mapsto> (Value v, if reset then Some (record_end now n) else deadline_of m (redis_key S sid)))"

lemma set_present:
  assumes "1 \<le> n" and "life = (if reset then Ex_seconds n else KEEPTTL)" and "cond \<in> {Anyway, If_present}" and "m (redis_key S sid) \<noteq> None"
  shows "obey rounded (server_ms now) (SET (redis_key S sid) v life cond) m = (Status, overwritten S now sid v reset n m)"
  using assms by (auto simp: overwritten_def)

lemma overwritten_indexed:
  assumes "colon_prefix S"
  shows "indexed S user sid x (overwritten S now sid v reset n m) = overwritten S now sid v reset n (indexed S user sid x m)"
  by (simp add: overwritten_def indexed_put [OF assms] deadline_of_def indexed_record [OF assms])

lemma overwritten_ok:
  assumes "colon_prefix S" and "keys_ok S whose m" and "owner S v = whose sid" and "m (redis_key S sid) \<noteq> None"
    and "\<forall>u. whose sid = Some u \<longrightarrow> covered S m sid (record_end now n) u"
  shows "keys_ok S whose (overwritten S now sid v reset n m)"
proof -
  obtain w x where r: "m (redis_key S sid) = Some (Value w, Some x)" "\<forall>u. whose sid = Some u \<longrightarrow> covered S m sid x u"
    using keys_okD(1) [OF assms(2), of sid] assms(4) by (auto simp: record_ok_def)
  have "\<forall>u. whose sid = Some u \<longrightarrow> covered S m sid (if reset then record_end now n else x) u" using r(2) assms(5) by simp
  from key_put_ok [OF assms(1-3) this] show ?thesis by (cases reset) (simp_all add: overwritten_def deadline_of_def r(1))
qed

lemma overwritten_view:
  assumes "keys_ok S whose m" and "m (redis_key S sid) \<noteq> None"
  shows "redis_view S (overwritten S now sid v reset n m)
    = rewrite_entry sid v (if reset then Some (record_end now n * 1000 + 999) else None) (redis_view S m)"
  using keys_okD(1) [OF assms(1), of sid] assms(2)
  by (auto simp: record_ok_def redis_view_def overwritten_def rewrite_entry_def deadline_of_def fun_eq_iff)

section \<open>Operations\<close>

context redis_server
begin

lemma index_session_does:
  assumes "rs_client S = C" and "index_ok S whose m u" and "1 \<le> n"
  shows "does now (index_session S now u sid n) m () (indexed S (Some u) sid (index_end now n) m)"
proof -
  let ?x = "index_end now n" and ?k = "user_key S u" and ?m = "indexed S (Some u) sid (index_end now n) m"
  let ?cmds = "[SADD ?k sid, EXPIRE ?k (n + USER_INDEX_TTL_BUFFER_SECONDS) If_none, EXPIRE ?k (n + USER_INDEX_TTL_BUFFER_SECONDS) If_longer]"
  have pos: "\<not> n + USER_INDEX_TTL_BUFFER_SECONDS \<le> 0" using assms(3) by (simp add: USER_INDEX_TTL_BUFFER_SECONDS_def)
  have "\<exists>rs. obey_all rounded (server_ms now) ?cmds m = (rs, ?m) \<and> \<not> list_ex failed rs"
    using assms(2) pos by (auto simp: index_ok_def indexed_def max_def split: option.split)
  then obtain rs where "obey_all rounded (server_ms now) ?cmds m = (rs, ?m)" "\<not> list_ex failed rs" by blast
  then have "does now (rc_run C now ?cmds) m rs ?m" by (rule does_run)
  then show ?thesis unfolding index_session_def checked_version_def Let_def assms(1) by (intro does_catch does_bind [OF _ does_ret])
qed

lemma index_value_does:
  assumes "rs_client S = C" and "\<And>u. index_ok S whose m u" and "1 \<le> n"
  shows "does now (index_value S now v sid n) m () (indexed S (owner S v) sid (index_end now n) m)"
  using index_session_does [OF assms] does_ret [of now "()" m]
  by (auto simp: index_value_def owner_def indexed_def split: option.split)

lemma create_does:
  assumes "rs_client S = C" and "keys_ok S whose m" and "1 \<le> ttl_or (rs_expiration S) e" and "sid \<noteq> []"
  shows "does now (redis_create S now v sid e) m sid ((indexed S (owner S v) sid (index_end now (ttl_or (rs_expiration S) e)) m)
    (redis_key S sid \<mapsto> (Value v, Some (record_end now (ttl_or (rs_expiration S) e)))))"
  unfolding redis_create_def Let_def if_not_P [OF assms(4)] assms(1)
  by (rule does_bind [OF index_value_does [OF assms(1) keys_okD(2) [OF assms(2)] assms(3)]],
      rule does_bind [OF does_one], use assms(3) in \<open>auto intro: does_ret\<close>)

lemma get_does:
  assumes "rs_client S = C" and "keys_ok S whose m"
  shows "does now (redis_get S now sid) m (val_of (redis_view S m) sid) m"
proof -
  have "\<exists>r. obey rounded (server_ms now) (GET (redis_key S sid)) m = (r, m) \<and> \<not> failed r \<and> bulk r = val_of (redis_view S m) sid"
    using keys_okD(1) [OF assms(2), of sid] by (auto simp: record_ok_def val_of_def redis_view_def)
  then obtain r where r: "obey rounded (server_ms now) (GET (redis_key S sid)) m = (r, m)" "\<not> failed r" "bulk r = val_of (redis_view S m) sid"
    by blast
  show ?thesis unfolding redis_get_def assms(1) by (rule does_answer [OF r(1,2)]) (rule r(3))
qed

lemma update_absent:
  assumes "rs_client S = C" and "m (redis_key S sid) = None" and "1 \<le> ttl_or (rs_expiration S) e"
  shows "does now (redis_update S now sid v reset e) m False m"
  unfolding redis_update_def Let_def assms(1)
  by (rule does_bind [OF does_one], use assms(2,3) in \<open>auto intro: does_ret\<close>)

lemma overwritten_index: "colon_prefix S \<Longrightarrow> keys_ok S whose m \<Longrightarrow> index_ok S whose (overwritten S now sid v reset n m) u"
  using keys_okD(2) record_update(2) by (metis overwritten_def)

lemma update_present:
  assumes "rs_client S = C" and "colon_prefix S" and "keys_ok S whose m" and "m (redis_key S sid) \<noteq> None" and "n = ttl_or (rs_expiration S) e" and "1 \<le> n"
  shows "does now (redis_update S now sid v reset e) m True (overwritten S now sid v reset n (indexed S (owner S v) sid (index_end now n) m))"
proof -
  let ?m = "overwritten S now sid v reset n m"
  have set: "obey rounded (server_ms now) (SET (redis_key S sid) v (if reset then Ex_seconds n else KEEPTTL) If_present) m = (Status, ?m)"
    by (rule set_present) (use assms(4,6) in auto)
  have index: "index_ok S whose ?m u" for u by (rule overwritten_index [OF assms(2,3)])
  have "does now (redis_update S now sid v reset e) m True (indexed S (owner S v) sid (index_end now n) ?m)"
    unfolding redis_update_def Let_def assms(1) assms(5) [symmetric]
    by (rule does_bind [OF does_one [OF set]], simp, subst if_not_P, simp, rule does_map [OF index_value_does [OF assms(1) index assms(6)] refl])
  then show ?thesis by (simp only: overwritten_indexed [OF assms(2)])
qed

lemma modify_absent:
  assumes "rs_client S = C" and "m (redis_key S sid) = None" and "quiet s" and "alive (server_ms now) (keys s) = m"
  shows "\<exists>s'. redis_modify S now sid ch reset e s = Some (Inr None, s') \<and> quiet s' \<and> alive (server_ms now) (keys s') = m"
proof -
  have "does now (bind (rc_watch C now (redis_key S sid)) (\<lambda>_. run_one C now (GET (redis_key S sid)))) m Null m"
    by (rule does_bind [OF does_watch does_one]) (simp_all add: assms(2))
  then obtain s' where "bind (rc_watch C now (redis_key S sid)) (\<lambda>_. run_one C now (GET (redis_key S sid))) s = (Inr Null, s')"
    "quiet s'" "alive (server_ms now) (keys s') = m"
    using does_run_from assms(3,4) by metis
  then show ?thesis unfolding redis_modify_def Let_def assms(1) [symmetric] by (subst watch_loop.simps) (simp add: assms(1))
qed

lemma modify_present:
  assumes "rs_client S = C" and "colon_prefix S" and "keys_ok S whose m" and "m (redis_key S sid) = Some (Value v, Some x)"
    and "n = ttl_or (rs_expiration S) e" and "1 \<le> n" and "quiet s" and "alive (server_ms now) (keys s) = m" and "w = fst (ch v)"
  shows "\<exists>s'. redis_modify S now sid ch reset e s = Some (Inr (Some (ch v)), s') \<and> quiet s'
    \<and> alive (server_ms now) (keys s') = overwritten S now sid w reset n (indexed S (owner S w) sid (index_end now n) m)"
proof -
  let ?k = "redis_key S sid" and ?life = "if reset then Ex_seconds n else KEEPTTL" and ?m = "overwritten S now sid w reset n m"
  have "does now (bind (rc_watch C now ?k) (\<lambda>_. run_one C now (GET ?k))) m (Bulk v) m"
    by (rule does_bind [OF does_watch does_one]) (simp_all add: assms(4))
  then obtain s1 where s1: "bind (rc_watch C now ?k) (\<lambda>_. run_one C now (GET ?k)) s = (Inr (Bulk v), s1)"
    "quiet s1" "alive (server_ms now) (keys s1) = m"
    using does_run_from assms(7,8) by metis
  have "obey_all rounded (server_ms now) [SET ?k w ?life Anyway] m = ([Status], ?m)"
    using set_present [where life = ?life and reset = reset and cond = Anyway and m = m and S = S and sid = sid and n = n] assms(4,6) by simp
  then obtain s2 where s2: "rc_exec C now [SET ?k w ?life Anyway] s1 = (Inr (Some [Status]), s2)" "quiet s2" "alive (server_ms now) (keys s2) = ?m"
    using executes [OF s1(2), of now "[SET ?k w ?life Anyway]" "[Status]" ?m] becomes_alive unfolding s1(3) by fastforce
  have loop: "watch_loop S now ?k ch ?life s = Some (Inr (Some (ch v)), s2)"
    by (subst watch_loop.simps) (simp add: assms(1,9) s1(1) s2(1) [unfolded assms(9)])
  have index: "index_ok S whose ?m u" for u by (rule overwritten_index [OF assms(2,3)])
  have "does now (bind (index_value S now w sid n) (\<lambda>_. ret (Some (ch v)))) ?m (Some (ch v)) (indexed S (owner S w) sid (index_end now n) ?m)"
    by (rule does_map [OF index_value_does [OF assms(1) index assms(6)] refl])
  then obtain s3 where "bind (index_value S now w sid n) (\<lambda>_. ret (Some (ch v))) s2 = (Inr (Some (ch v)), s3)" "quiet s3"
    "alive (server_ms now) (keys s3) = indexed S (owner S w) sid (index_end now n) ?m"
    using does_run_from s2(2,3) by metis
  then show ?thesis
    unfolding redis_modify_def Let_def assms(5) [symmetric] loop overwritten_indexed [OF assms(2)] by (simp add: assms(9))
qed

lemma owner_known: "keys_ok S whose m \<Longrightarrow> m (redis_key S sid) = Some (Value v, Some x) \<Longrightarrow> owner S v = whose sid"
  using keys_okD(1) [of S whose m sid] by (auto simp: record_ok_def)

lemma delete_absent:
  assumes "rs_client S = C" and "m (redis_key S sid) = None"
  shows "does now (redis_delete S now sid VNone) m False m"
proof -
  have read: "does now (bind (run_one C now (GET (redis_key S sid))) (\<lambda>raw.
      ret (case bulk raw of None \<Rightarrow> VNone | Some v \<Rightarrow> case rs_user_id S v of None \<Rightarrow> VNone | Some u \<Rightarrow> u))) m VNone m"
    by (rule does_answer, simp add: assms(2), simp, simp)
  have del: "does now (run_one C now (DEL (redis_key S sid))) m (Counted 0) m"
    by (rule does_one) (simp_all add: assms(2) fun_upd_idem_iff)
  show ?thesis unfolding redis_delete_def Let_def assms(1) if_P [OF refl]
    by (rule does_bind [OF read], rule does_bind [OF del], rule does_map [of _ "if _ then _ else ret ()"], simp, rule does_ret, simp)
qed

lemma delete_present:
  assumes "rs_client S = C" and "colon_prefix S" and "keys_ok S whose m" and "m (redis_key S sid) = Some (Value v, Some x)"
  shows "does now (redis_delete S now sid VNone) m True
    (case whose sid of None \<Rightarrow> m(redis_key S sid := None) | Some u \<Rightarrow> unindexed S u sid (m(redis_key S sid := None)))"
proof -
  let ?m = "m(redis_key S sid := None)" and ?o = "case rs_user_id S v of None \<Rightarrow> VNone | Some u \<Rightarrow> u"
  have own: "whose sid = (if ?o = VNone then None else Some ?o)"
    using owner_known [OF assms(3,4)] by (auto simp: owner_def split: option.split)
  have read: "does now (bind (run_one C now (GET (redis_key S sid))) (\<lambda>raw.
      ret (case bulk raw of None \<Rightarrow> VNone | Some v \<Rightarrow> case rs_user_id S v of None \<Rightarrow> VNone | Some u \<Rightarrow> u))) m ?o m"
    by (rule does_answer, simp add: assms(4), simp, simp)
  have del: "does now (run_one C now (DEL (redis_key S sid))) m (Counted 1) ?m"
    by (rule does_one) (simp_all add: assms(4))
  have drop: "does now (bind (run_one C now (SREM (user_key S u) sid)) (\<lambda>_. ret ())) ?m () (unindexed S u sid ?m)" for u
  proof -
    have "index_ok S whose ?m u" using keys_okD(2) [OF removed_ok [OF assms(2,3)]] .
    then have "\<exists>r. obey rounded (server_ms now) (SREM (user_key S u) sid) ?m = (r, unindexed S u sid ?m) \<and> \<not> failed r"
      by (auto simp: index_ok_def unindexed_def simp del: fun_upd_apply)
    then obtain r where "obey rounded (server_ms now) (SREM (user_key S u) sid) ?m = (r, unindexed S u sid ?m)" "\<not> failed r" by blast
    then show ?thesis by (rule does_answer) (rule refl)
  qed
  have "does now (if number (Counted 1 :: 'a reply) \<noteq> 0 \<and> ?o \<noteq> VNone then bind (run_one C now (SREM (user_key S ?o) sid)) (\<lambda>_. ret ()) else ret ()) ?m ()
      (case whose sid of None \<Rightarrow> ?m | Some u \<Rightarrow> unindexed S u sid ?m)"
    using drop [of ?o] does_ret [of now "()" ?m] by (simp add: own)
  from does_map [OF this, of "\<lambda>_. number (Counted 1 :: 'a reply) \<noteq> 0" True]
  show ?thesis unfolding redis_delete_def Let_def assms(1) if_P [OF refl]
    by (intro does_bind [OF read] does_bind [OF del]) simp
qed

lemma extend_does:
  assumes "rs_client S = C" and "keys_ok S whose m" and "1 \<le> ttl_or (rs_expiration S) e"
  shows "does now (redis_extend S now sid e) m (m (redis_key S sid) \<noteq> None)
    (case m (redis_key S sid) of None \<Rightarrow> m | Some (c, d) \<Rightarrow> m(redis_key S sid \<mapsto> (c, Some (record_end now (ttl_or (rs_expiration S) e)))))"
proof (cases "m (redis_key S sid)")
  case None
  then show ?thesis unfolding redis_extend_def assms(1) by (intro does_answer [where r = "Counted 0"]) simp_all
next
  case (Some p)
  then show ?thesis using assms(3) unfolding redis_extend_def assms(1) by (cases p) (intro does_answer [where r = "Counted 1"], simp_all)
qed

lemma exists_does:
  assumes "rs_client S = C"
  shows "does now (redis_exists S now sid) m (m (redis_key S sid) \<noteq> None) m"
  unfolding redis_exists_def assms(1) by (rule does_answer, simp, simp, simp)

lemma claim_does:
  assumes "rs_client S = C" and "1 \<le> ttl_or (rs_expiration S) e"
  shows "does now (redis_set_if_absent S now sid v e) m (m (redis_key S sid) = None)
    (if m (redis_key S sid) = None then m(redis_key S sid \<mapsto> (Value v, Some (record_end now (ttl_or (rs_expiration S) e)))) else m)"
proof (cases "m (redis_key S sid) = None")
  case True
  then show ?thesis using assms(2) unfolding redis_set_if_absent_def assms(1) by (intro does_answer [where r = Status]) simp_all
next
  case False
  then obtain p where "m (redis_key S sid) = Some p" by blast
  then show ?thesis using assms(2) unfolding redis_set_if_absent_def assms(1) by (intro does_answer [where r = Null]) simp_all
qed

lemma take_does:
  assumes "rs_client S = C" and "keys_ok S whose m"
  shows "does now (redis_get_and_delete S now sid) m (val_of (redis_view S m) sid) (m(redis_key S sid := None))"
proof -
  have "\<exists>rs. obey_all rounded (server_ms now) [GET (redis_key S sid), DEL (redis_key S sid)] m = (rs, m(redis_key S sid := None))
      \<and> \<not> list_ex failed rs \<and> bulk (hd rs) = val_of (redis_view S m) sid"
    using keys_okD(1) [OF assms(2), of sid] by (auto simp: record_ok_def val_of_def redis_view_def)
  then show ?thesis unfolding redis_get_and_delete_def Let_def assms(1) using does_map [OF does_run] by metis
qed

lemma owned_view:
  assumes "keys_ok S whose m"
  shows "sid \<in> owned (owner S) u (redis_view S m) \<longleftrightarrow> redis_view S m sid \<noteq> None \<and> map_option py_str (whose sid) = Some (py_str u)"
  using keys_okD(1) [OF assms, of sid] by (cases "whose sid") (auto simp: owned_def record_ok_def redis_view_def)

lemma owned_indexed:
  assumes "keys_ok S whose m" and "sid \<in> owned (owner S) u (redis_view S m)"
  shows "\<exists>A x. m (user_key S u) = Some (Names A, Some x) \<and> sid \<in> A"
proof -
  obtain w where w: "whose sid = Some w" "py_str w = py_str u" "redis_view S m sid \<noteq> None"
    using assms(2) owned_view [OF assms(1)] by auto
  then obtain x where "covered S m sid x w"
    using keys_okD(1) [OF assms(1), of sid] by (auto simp: record_ok_def redis_view_def)
  moreover have "user_key S w = user_key S u" using w(2) by (simp add: user_key_eq)
  ultimately show ?thesis by (auto simp: covered_def)
qed

lemma sessions_does:
  assumes "rs_client S = C" and "keys_ok S whose m"
  shows "\<exists>ids. does now (redis_get_user_sessions S now u) m ids m \<and> distinct ids
    \<and> owned (owner S) u (redis_view S m) = {sid \<in> set ids. redis_view S m sid \<noteq> None}"
proof (cases "m (user_key S u)")
  case None
  have "does now (redis_get_user_sessions S now u) m (rc_listing C {}) m"
    unfolding redis_get_user_sessions_def assms(1) by (rule does_answer, simp add: None, simp, simp)
  moreover have "owned (owner S) u (redis_view S m) = {}" using owned_indexed [OF assms(2)] None by fastforce
  ultimately show ?thesis using listed [of "{}"] by auto
next
  case (Some p)
  then obtain A x where A: "m (user_key S u) = Some (Names A, Some x)" "finite A" "\<forall>sid \<in> A. map_option py_str (whose sid) = Some (py_str u)"
    using keys_okD(2) [OF assms(2), of u] by (auto simp: index_ok_def)
  have "does now (redis_get_user_sessions S now u) m (rc_listing C A) m"
    unfolding redis_get_user_sessions_def assms(1) by (rule does_answer, simp add: A, simp, simp)
  moreover have "owned (owner S) u (redis_view S m) = {sid \<in> A. redis_view S m sid \<noteq> None}"
    using A(1,3) owned_view [OF assms(2)] owned_indexed [OF assms(2)] by fastforce
  ultimately show ?thesis using listed [OF A(2)] by auto
qed


end

section \<open>The specification of the port\<close>

definition redis_due :: "int \<Rightarrow> int \<Rightarrow> int" where
  "redis_due now n = record_end now n * 1000 + 999"

definition redis_ok :: "('r \<Rightarrow> bool) \<Rightarrow> ('r \<Rightarrow> 'a keyspace) \<Rightarrow> ('r, 'a) redis_storage \<Rightarrow> (string \<Rightarrow> pyval option) \<Rightarrow> int \<Rightarrow> 'r \<Rightarrow> bool" where
  "redis_ok quiet keys S whose now s \<longleftrightarrow> quiet s \<and> keys_ok S whose (alive (server_ms now) (keys s))"

text \<open>
  The operations that keep the index: every session is written under the user it has, and what has a user is not
  claimed or extended, since these two do not write the index.
\<close>

fun keeps_index :: "('r, 'a) redis_storage \<Rightarrow> (string \<Rightarrow> pyval option) \<Rightarrow> 'a store_op \<Rightarrow> bool" where
  "keeps_index S whose (OpCreate v sid e) \<longleftrightarrow> owner S v = whose sid"
| "keeps_index S whose (OpUpdate sid v r e) \<longleftrightarrow> owner S v = whose sid"
| "keeps_index S whose (OpExtend sid e) \<longleftrightarrow> whose sid = None"
| "keeps_index S whose (OpModify sid ch r e) \<longleftrightarrow> (\<forall>v. owner S v = whose sid \<longrightarrow> owner S (fst (ch v)) = whose sid)"
| "keeps_index S whose (OpClaim sid v e) \<longleftrightarrow> whose sid = None \<and> owner S v = None"
| "keeps_index S whose _ \<longleftrightarrow> True"

abbreviation redis_op_ok :: "('r, 'a) redis_storage \<Rightarrow> (string \<Rightarrow> pyval option) \<Rightarrow> 'a store_op \<Rightarrow> bool" where
  "redis_op_ok S whose op \<equiv> op_ok (\<lambda>sid. sid \<noteq> []) (\<lambda>e. 1 \<le> ttl_or (rs_expiration S) e) op \<and> keeps_index S whose op"

text \<open>An index may still name sessions that are gone; what is left of its answer among the live ones.\<close>

fun live_answer :: "'a entries \<Rightarrow> 'a answer \<Rightarrow> 'a answer" where
  "live_answer m (Ids A) = Ids {sid \<in> A. m sid \<noteq> None}"
| "live_answer m a = a"

fun spec_agrees :: "(int \<Rightarrow> int option \<Rightarrow> int) \<Rightarrow> ('a \<Rightarrow> pyval option) \<Rightarrow> (int \<times> 'a store_op) list \<Rightarrow> 'a entries \<Rightarrow> 'a answer list \<Rightarrow> bool" where
  "spec_agrees ends who [] m as \<longleftrightarrow> as = []"
| "spec_agrees ends who ((t, op) # ops) m as \<longleftrightarrow>
     (case as of [] \<Rightarrow> False | a # later \<Rightarrow>
        live_answer (live_at t m) a = fst (spec_op (ends t) who op (live_at t m))
        \<and> spec_agrees ends who ops (snd (spec_op (ends t) who op (live_at t m))) later)"

context redis_server
begin

abbreviation spec_at :: "('r, 'a) redis_storage \<Rightarrow> int \<Rightarrow> 'a store_op \<Rightarrow> 'a keyspace \<Rightarrow> 'a answer \<times> 'a entries" where
  "spec_at S now op m \<equiv> spec_op (\<lambda>e. redis_due now (ttl_or (rs_expiration S) e)) (owner S) op (redis_view S m)"

definition performs :: "('r, 'a) redis_storage \<Rightarrow> (string \<Rightarrow> pyval option) \<Rightarrow> int \<Rightarrow> 'a store_op \<Rightarrow> 'a keyspace \<Rightarrow> 'a answer \<Rightarrow> 'r \<Rightarrow> bool" where
  "performs S whose now op m a s' \<longleftrightarrow> redis_ok quiet keys S whose now s' \<and> live_answer (redis_view S m) a = fst (spec_at S now op m)
     \<and> redis_view S (alive (server_ms now) (keys s')) = snd (spec_at S now op m)"

lemma performed:
  fixes p :: "('r, 'x) prog"
  assumes "does now p m x m'" and "keys_ok S whose m'" and "live_answer (redis_view S m) (f x) = fst (spec_at S now op m)"
    and "redis_view S m' = snd (spec_at S now op m)" and "quiet s" and "alive (server_ms now) (keys s) = m"
  shows "\<exists>a s'. bind p (\<lambda>x. ret (f x)) s = (Inr a, s') \<and> performs S whose now op m a s'"
  using does_run_from [OF does_map [OF assms(1) refl, of f] assms(5,6)] assms(2-4) by (auto simp: performs_def redis_ok_def)

lemma view_there: "keys_ok S whose m \<Longrightarrow> redis_view S m sid = None \<longleftrightarrow> m (redis_key S sid) = None"
  using keys_okD(1) [of S whose m sid] by (auto simp: record_ok_def redis_view_def)

lemma written_ok:
  assumes "colon_prefix S" and "keys_ok S whose m" and "owner S v = whose sid" and "n \<le> n'"
  shows "keys_ok S whose ((indexed S (owner S v) sid (record_end now n') m)(redis_key S sid \<mapsto> (Value v, Some (record_end now n))))"
    and "m (redis_key S sid) \<noteq> None \<Longrightarrow> keys_ok S whose (overwritten S now sid v reset n (indexed S (owner S v) sid (record_end now n') m))"
proof -
  let ?m = "indexed S (owner S v) sid (record_end now n') m"
  have cover: "\<forall>u. whose sid = Some u \<longrightarrow> covered S ?m sid (record_end now n) u"
    using indexed_covers [OF keys_okD(2) [OF assms(2)]] assms(3,4) by auto
  have ok: "keys_ok S whose ?m" by (rule indexed_ok [OF assms(1-3)])
  show "keys_ok S whose (?m(redis_key S sid \<mapsto> (Value v, Some (record_end now n))))" by (rule key_put_ok [OF assms(1) ok assms(3) cover])
  show "keys_ok S whose (overwritten S now sid v reset n ?m)" if "m (redis_key S sid) \<noteq> None"
    by (rule overwritten_ok [OF assms(1) ok assms(3) _ cover]) (use that in \<open>simp add: indexed_record [OF assms(1)]\<close>)
qed

lemma overwritten_indexed_view:
  assumes "colon_prefix S" and "keys_ok S whose m" and "owner S v = whose sid" and "m (redis_key S sid) \<noteq> None"
  shows "redis_view S (overwritten S now sid v reset n (indexed S (owner S v) sid x m))
    = rewrite_entry sid v (if reset then Some (redis_due now n) else None) (redis_view S m)"
  using overwritten_view [OF indexed_ok [OF assms(1-3), where x = x], where sid = sid and v = v and now = now and reset = reset and n = n] assms(4)
  by (simp add: indexed_record [OF assms(1)] indexed_view [OF assms(1)] redis_due_def)

lemma storage_ops:
  "st_create (redis_storage_of S) = redis_create S" "st_get (redis_storage_of S) = redis_get S" "st_update (redis_storage_of S) = redis_update S"
  "st_delete (redis_storage_of S) = redis_delete S" "st_extend (redis_storage_of S) = redis_extend S" "st_exists (redis_storage_of S) = redis_exists S"
  "st_set_if_absent (redis_storage_of S) = redis_set_if_absent S" "st_get_and_delete (redis_storage_of S) = redis_get_and_delete S"
  "st_get_user_sessions (redis_storage_of S) = redis_get_user_sessions S"
  by (simp_all add: redis_storage_of_def)

definition serves :: "('r, 'a) redis_storage \<Rightarrow> (string \<Rightarrow> pyval option) \<Rightarrow> int \<Rightarrow> 'r \<Rightarrow> 'a keyspace \<Rightarrow> bool" where
  "serves S whose now s m \<longleftrightarrow> rs_client S = C \<and> colon_prefix S \<and> quiet s \<and> alive (server_ms now) (keys s) = m \<and> keys_ok S whose m"

lemma servesD:
  assumes "serves S whose now s m"
  shows "rs_client S = C" and "colon_prefix S" and "quiet s" and "alive (server_ms now) (keys s) = m" and "keys_ok S whose m"
  using assms by (simp_all add: serves_def)

abbreviation runs_to_spec :: "('r, 'a) redis_storage \<Rightarrow> (string \<Rightarrow> pyval option) \<Rightarrow> int \<Rightarrow> 'a store_op \<Rightarrow> 'r \<Rightarrow> 'a keyspace \<Rightarrow> bool" where
  "runs_to_spec S whose now op s m \<equiv> \<exists>a s'. run_op (redis_storage_of S) now op s = (Inr a, s') \<and> performs S whose now op m a s'"

lemmas op_run_defs = run_op_def store_op.case storage_ops

lemma create_runs:
  assumes "serves S whose now s m" and "redis_op_ok S whose (OpCreate v sid e)"
  shows "runs_to_spec S whose now (OpCreate v sid e) s m"
proof -
  note w = servesD [OF assms(1)]
  let ?n = "ttl_or (rs_expiration S) e"
  have n: "1 \<le> ?n" "?n \<le> ?n + USER_INDEX_TTL_BUFFER_SECONDS" "sid \<noteq> []" "owner S v = whose sid"
    using assms(2) by (simp_all add: USER_INDEX_TTL_BUFFER_SECONDS_def)
  show ?thesis unfolding op_run_defs
    by (rule performed [OF create_does [OF w(1,5) n(1,3)] written_ok(1) [OF w(2,5) n(4,2)] _ _ w(3,4)])
       (simp_all add: key_put_view indexed_view [OF w(2)] redis_due_def)
qed

lemma update_runs:
  assumes "serves S whose now s m" and "redis_op_ok S whose (OpUpdate sid v r e)"
  shows "runs_to_spec S whose now (OpUpdate sid v r e) s m"
proof -
  note w = servesD [OF assms(1)]
  let ?n = "ttl_or (rs_expiration S) e"
  have n: "1 \<le> ?n" "?n \<le> ?n + USER_INDEX_TTL_BUFFER_SECONDS" "owner S v = whose sid"
    using assms(2) by (simp_all add: USER_INDEX_TTL_BUFFER_SECONDS_def)
  show ?thesis
  proof (cases "m (redis_key S sid) = None")
    case True
    then have "redis_view S m sid = None" by (simp add: view_there [OF w(5)])
    then show ?thesis unfolding op_run_defs
      by (intro performed [OF update_absent [where m = m, OF w(1) True n(1)] w(5) _ _ w(3,4)]) (simp_all add: rewrite_entry_def)
  next
    case False
    then have "redis_view S m sid \<noteq> None" by (simp add: view_there [OF w(5)])
    then show ?thesis unfolding op_run_defs
      by (intro performed [OF update_present [OF w(1,2,5) False refl n(1)] written_ok(2) [OF w(2,5) n(3,2) False] _ _ w(3,4)])
         (simp_all add: overwritten_indexed_view [OF w(2,5) n(3) False])
  qed
qed

lemma modify_runs:
  assumes "serves S whose now s m" and "redis_op_ok S whose (OpModify sid ch r e)"
  shows "runs_to_spec S whose now (OpModify sid ch r e) s m"
proof -
  note w = servesD [OF assms(1)]
  let ?n = "ttl_or (rs_expiration S) e"
  have n: "1 \<le> ?n" "?n \<le> ?n + USER_INDEX_TTL_BUFFER_SECONDS" using assms(2) by (simp_all add: USER_INDEX_TTL_BUFFER_SECONDS_def)
  have form: "run_op (redis_storage_of S) now (OpModify sid ch r e) s = (case the (redis_modify S now sid ch r e s) of
      (x, s') \<Rightarrow> (map_sum id Changed x, s'))" if "redis_modify S now sid ch r e s \<noteq> None"
    using that by (auto simp: run_op_def redis_storage_of_def bind_run ret_run split: sum.split)
  show ?thesis
  proof (cases "m (redis_key S sid)")
    case None
    then have v: "redis_view S m sid = None" by (simp add: view_there [OF w(5)])
    obtain s' where run: "redis_modify S now sid ch r e s = Some (Inr None, s')" "quiet s'" "alive (server_ms now) (keys s') = m"
      using modify_absent [OF w(1) None w(3,4)] by blast
    then show ?thesis using w(5) v by (auto simp: form performs_def redis_ok_def)
  next
    case (Some p)
    then obtain v x where at: "m (redis_key S sid) = Some (Value v, Some x)" using keys_okD(1) [OF w(5), of sid] by (auto simp: record_ok_def)
    have o: "owner S (fst (ch v)) = whose sid" using assms(2) owner_known [OF w(5) at] by simp
    have live: "m (redis_key S sid) \<noteq> None" by (simp add: at)
    let ?w = "fst (ch v)"
    let ?m = "overwritten S now sid ?w r ?n (indexed S (owner S ?w) sid (index_end now ?n) m)"
    obtain s' where run: "redis_modify S now sid ch r e s = Some (Inr (Some (ch v)), s')" "quiet s'" "alive (server_ms now) (keys s') = ?m"
      using modify_present [OF w(1,2,5) at refl n(1) w(3,4) refl] by blast
    have entry: "redis_view S m sid = Some (v, x * 1000 + 999)" by (simp add: redis_view_def at)
    have after: "redis_view S ?m = snd (spec_at S now (OpModify sid ch r e) m)"
      unfolding overwritten_indexed_view [OF w(2,5) o live] by (simp add: entry rewrite_entry_def)
    show ?thesis
      using run(2,3) written_ok(2) [OF w(2,5) o n(2) live] after by (auto simp: form run(1) performs_def redis_ok_def entry)
  qed
qed

lemma delete_runs:
  assumes "serves S whose now s m"
  shows "runs_to_spec S whose now (OpDelete sid) s m"
proof -
  note w = servesD [OF assms(1)]
  show ?thesis
  proof (cases "m (redis_key S sid)")
    case None
    have "(redis_view S m)(sid := None) = redis_view S m" using None by (simp add: view_there [OF w(5)] fun_upd_idem_iff)
    then show ?thesis unfolding op_run_defs
      by (intro performed [OF delete_absent [where m = m, OF w(1) None] w(5) _ _ w(3,4)]) (simp_all add: view_there [OF w(5)] None)
  next
    case (Some p)
    then obtain v x where at: "m (redis_key S sid) = Some (Value v, Some x)" using keys_okD(1) [OF w(5), of sid] by (auto simp: record_ok_def)
    let ?m = "case whose sid of None \<Rightarrow> m(redis_key S sid := None) | Some u \<Rightarrow> unindexed S u sid (m(redis_key S sid := None))"
    have "keys_ok S whose ?m" using removed_ok [OF w(2,5)] unindexed_ok [OF w(2) removed_ok [OF w(2,5)]] by (simp split: option.split)
    moreover have "redis_view S ?m = (redis_view S m)(sid := None)" by (simp add: removed_view unindexed_view [OF w(2)] split: option.split)
    ultimately show ?thesis unfolding op_run_defs
      by (intro performed [OF delete_present [OF w(1,2,5) at] _ _ _ w(3,4)]) (simp_all add: redis_view_def at)
  qed
qed

lemma extend_runs:
  assumes "serves S whose now s m" and "redis_op_ok S whose (OpExtend sid e)"
  shows "runs_to_spec S whose now (OpExtend sid e) s m"
proof -
  note w = servesD [OF assms(1)]
  let ?n = "ttl_or (rs_expiration S) e"
  let ?m = "case m (redis_key S sid) of None \<Rightarrow> m | Some (c, d) \<Rightarrow> m(redis_key S sid \<mapsto> (c, Some (record_end now ?n)))"
  have n: "1 \<le> ?n" "whose sid = None" using assms(2) by simp_all
  have "keys_ok S whose ?m \<and> redis_view S ?m = snd (spec_at S now (OpExtend sid e) m)"
  proof (cases "m (redis_key S sid)")
    case None
    then have "redis_view S m sid = None" by (simp add: view_there [OF w(5)])
    then show ?thesis using w(5) None by simp
  next
    case (Some p)
    then obtain v x where at: "m (redis_key S sid) = Some (Value v, Some x)" "owner S v = whose sid"
      using keys_okD(1) [OF w(5), of sid] by (auto simp: record_ok_def)
    then show ?thesis using key_put_ok [OF w(2,5) at(2)] n(2) by (simp add: key_put_view redis_due_def) (simp add: redis_view_def)
  qed
  then show ?thesis unfolding op_run_defs
    by (intro performed [OF extend_does [OF w(1,5) n(1)] _ _ _ w(3,4)])
       (use view_there [OF w(5), of sid] in \<open>auto split: option.split\<close>)
qed

lemma claim_runs:
  assumes "serves S whose now s m" and "redis_op_ok S whose (OpClaim sid v e)"
  shows "runs_to_spec S whose now (OpClaim sid v e) s m"
proof -
  note w = servesD [OF assms(1)]
  let ?n = "ttl_or (rs_expiration S) e"
  have n: "1 \<le> ?n" "whose sid = None" "owner S v = whose sid" using assms(2) by simp_all
  show ?thesis unfolding op_run_defs
    by (intro performed [OF claim_does [OF w(1) n(1)] _ _ _ w(3,4)])
       (use w(5) key_put_ok [OF w(2,5) n(3)] n(2) in \<open>auto simp: view_there [OF w(5)] key_put_view redis_due_def\<close>)
qed

lemma read_runs:
  assumes "serves S whose now s m"
  shows "runs_to_spec S whose now (OpGet sid) s m" and "runs_to_spec S whose now (OpExists sid) s m"
    and "runs_to_spec S whose now (OpTake sid) s m"
proof -
  note w = servesD [OF assms(1)]
  show "runs_to_spec S whose now (OpGet sid) s m" unfolding op_run_defs
    by (rule performed [OF get_does [OF w(1,5)] w(5) _ _ w(3,4)]) simp_all
  show "runs_to_spec S whose now (OpExists sid) s m" unfolding op_run_defs
    by (rule performed [OF exists_does [OF w(1)] w(5) _ _ w(3,4)]) (simp_all add: view_there [OF w(5)] del: not_None_eq)
  show "runs_to_spec S whose now (OpTake sid) s m" unfolding op_run_defs
    by (rule performed [OF take_does [OF w(1,5)] removed_ok [OF w(2,5)] _ _ w(3,4)]) (simp_all add: removed_view)
qed

lemma sessions_runs:
  assumes "serves S whose now s m"
  shows "runs_to_spec S whose now (OpSessions u) s m"
proof -
  note w = servesD [OF assms(1)]
  obtain ids where ids: "does now (redis_get_user_sessions S now u) m ids m"
    "owned (owner S) u (redis_view S m) = {sid \<in> set ids. redis_view S m sid \<noteq> None}"
    using sessions_does [OF w(1,5)] by blast
  show ?thesis unfolding op_run_defs
    by (rule performed [OF ids(1) w(5) _ _ w(3,4)]) (simp_all add: ids(2))
qed

lemma op_runs:
  assumes "serves S whose now s m" and "redis_op_ok S whose op"
  shows "runs_to_spec S whose now op s m"
proof (cases op)
  case (OpCreate v sid e)
  show ?thesis using create_runs [OF assms(1)] assms(2) unfolding OpCreate by (rule meta_mp)
next
  case (OpGet sid)
  show ?thesis unfolding OpGet by (rule read_runs [OF assms(1)])
next
  case (OpUpdate sid v r e)
  show ?thesis using update_runs [OF assms(1)] assms(2) unfolding OpUpdate by (rule meta_mp)
next
  case (OpDelete sid)
  show ?thesis unfolding OpDelete by (rule delete_runs [OF assms(1)])
next
  case (OpExtend sid e)
  show ?thesis using extend_runs [OF assms(1)] assms(2) unfolding OpExtend by (rule meta_mp)
next
  case (OpExists sid)
  show ?thesis unfolding OpExists by (rule read_runs [OF assms(1)])
next
  case (OpModify sid ch r e)
  show ?thesis using modify_runs [OF assms(1)] assms(2) unfolding OpModify by (rule meta_mp)
next
  case (OpClaim sid v e)
  show ?thesis using claim_runs [OF assms(1)] assms(2) unfolding OpClaim by (rule meta_mp)
next
  case (OpTake sid)
  show ?thesis unfolding OpTake by (rule read_runs [OF assms(1)])
next
  case (OpSessions u)
  show ?thesis unfolding OpSessions by (rule sessions_runs [OF assms(1)])
qed

lemma redis_ok_later: "redis_ok quiet keys S whose now s \<Longrightarrow> now \<le> t \<Longrightarrow> redis_ok quiet keys S whose t s"
  using alive_ok [of S whose "alive (server_ms now) (keys s)" "server_ms t"] zdiv_mono1 [of now t 1000]
  by (simp add: redis_ok_def alive_later server_ms_def)

lemma view_after: "now \<le> t \<Longrightarrow> redis_view S (alive (server_ms t) (keys s)) = live_at t (redis_view S (alive (server_ms now) (keys s)))"
  using zdiv_mono1 [of now t 1000] by (simp add: view_alive [symmetric] alive_later server_ms_def)

lemma ops_run:
  assumes "rs_client S = C" and "colon_prefix S" and "redis_ok quiet keys S whose start s" and "sorted (start # map fst ops)"
    and "\<forall>(t, op) \<in> set ops. redis_op_ok S whose op"
  shows "\<exists>as s'. map_prog (\<lambda>(t, op). run_op (redis_storage_of S) t op) ops s = (Inr as, s')
    \<and> spec_agrees (\<lambda>t e. redis_due t (ttl_or (rs_expiration S) e)) (owner S) ops (redis_view S (alive (server_ms start) (keys s))) as
    \<and> redis_ok quiet keys S whose (last (start # map fst ops)) s'"
  using assms
proof (induction ops arbitrary: s start)
  case Nil
  then show ?case by (simp add: ret_run)
next
  case (Cons p ops)
  obtain t op where p: "p = (t, op)" by (cases p)
  have t: "start \<le> t" "sorted (t # map fst ops)" using Cons.prems(4) p by simp_all
  let ?m = "alive (server_ms t) (keys s)"
  have ok: "redis_ok quiet keys S whose t s" by (rule redis_ok_later [OF Cons.prems(3) t(1)])
  have op: "redis_op_ok S whose op" using Cons.prems(5) p by auto
  have "serves S whose t s ?m" using ok Cons.prems(1,2) by (simp add: serves_def redis_ok_def)
  from op_runs [OF this op] obtain a s1 where run: "run_op (redis_storage_of S) t op s = (Inr a, s1)" "performs S whose t op ?m a s1" by blast
  have s1: "redis_ok quiet keys S whose t s1" "redis_view S (alive (server_ms t) (keys s1)) = snd (spec_at S t op ?m)"
    "live_answer (redis_view S ?m) a = fst (spec_at S t op ?m)"
    using run(2) by (simp_all add: performs_def)
  obtain as s' where rest: "map_prog (\<lambda>(t, op). run_op (redis_storage_of S) t op) ops s1 = (Inr as, s')"
    "spec_agrees (\<lambda>t e. redis_due t (ttl_or (rs_expiration S) e)) (owner S) ops (redis_view S (alive (server_ms t) (keys s1))) as"
    "redis_ok quiet keys S whose (last (t # map fst ops)) s'"
    using Cons.IH [OF Cons.prems(1,2) s1(1) t(2)] Cons.prems(5) by auto
  have "map_prog (\<lambda>(t, op). run_op (redis_storage_of S) t op) (p # ops) s = (Inr (a # as), s')"
    using run(1) rest(1) by (simp add: p bind_run ret_run)
  moreover have "spec_agrees (\<lambda>t e. redis_due t (ttl_or (rs_expiration S) e)) (owner S) (p # ops) (redis_view S (alive (server_ms start) (keys s))) (a # as)"
    using s1(2,3) rest(2) by (simp add: p view_after [OF t(1)])
  moreover have "redis_ok quiet keys S whose (last (start # map fst (p # ops))) s'" using rest(3) by (simp add: p)
  ultimately show ?case by blast
qed

end

end
