(* ===== verification/RedisCounters.thy ===== *)
theory RedisCounters
  imports RedisStore RateLimits
begin

text \<open>
  The counters of the Redis limiter keep \<open>timed_counters\<close>, and its own window check answers what the base class
  answers.
\<close>

section \<open>Counters\<close>

definition redis_counters :: "('r \<Rightarrow> 'a keyspace) \<Rightarrow> ('r, 'a) redis_limiter \<Rightarrow> int \<Rightarrow> 'r \<Rightarrow> counters" where
  "redis_counters keys L now s = (\<lambda>k. case alive (server_ms now) (keys s) (redis_counter_key L k) of
     Some (Counter n, d) \<Rightarrow> Some (n, map_option (\<lambda>x. x * 1000 + 999) d) | _ \<Rightarrow> None)"

definition counters_only :: "('r, 'a) redis_limiter \<Rightarrow> 'a keyspace \<Rightarrow> bool" where
  "counters_only L m \<longleftrightarrow> (\<forall>k. m (redis_counter_key L k) = None \<or> (\<exists>n d. m (redis_counter_key L k) = Some (Counter n, d)))"

text \<open>Seconds left: what the server makes of the milliseconds.\<close>

definition redis_left :: "(int \<Rightarrow> int) \<Rightarrow> int \<Rightarrow> int \<Rightarrow> int" where
  "redis_left rounded d clock = max 0 (rounded (d div 1000 - server_ms clock))"

lemma counters_only_alive: "counters_only L m \<Longrightarrow> counters_only L (alive t m)"
  by (auto simp: counters_only_def alive_def split: option.split) (metis option.distinct(1) option.inject prod.inject)

lemma counters_only_becomes: "counters_only L m \<Longrightarrow> counters_only L stored \<Longrightarrow> becomes t stored m stored' \<Longrightarrow> counters_only L stored'"
  unfolding counters_only_def becomes_def by metis

locale redis_limiting = redis_server C keys quiet rounded
  for C :: "('r, 'a) redis_connection" and keys quiet rounded +
  fixes L :: "('r, 'a) redis_limiter"
  assumes client: "rl_client L = C"
begin

abbreviation counting_ok :: "'r \<Rightarrow> bool" where
  "counting_ok s \<equiv> quiet s \<and> counters_only L (keys s)"

lemma counter_done:
  fixes p :: "('r, 'x) prog"
  assumes "does now p m x m'" and "counting_ok s" and "alive (server_ms now) (keys s) = m" and "counters_only L m'"
    and "(\<lambda>k. case m' (redis_counter_key L k) of Some (Counter n, d) \<Rightarrow> Some (n, map_option (\<lambda>x. x * 1000 + 999) d) | _ \<Rightarrow> None) = c"
  shows "fst (p s) = Inr x \<and> redis_counters keys L now (snd (p s)) = c \<and> counting_ok (snd (p s))"
proof -
  obtain s' where "p s = (Inr x, s')" "quiet s'" "becomes (server_ms now) (keys s) m' (keys s')"
    using assms(1-3) by (auto simp: does_def)
  then show ?thesis using counters_only_becomes [OF assms(4)] assms(2,5) becomes_alive by (fastforce simp: redis_counters_def)
qed

text \<open>The commands of an increment, and of a question.\<close>

lemma increment_obeyed:
  assumes "counters_only L m" and "1 \<le> e" and "k = redis_counter_key L key"
    and "n = (case m k of Some (Counter n, _) \<Rightarrow> n | _ \<Rightarrow> 0)" and "d = deadline_of m k"
  shows "obey_all rounded t [INCRBY k a, EXPIRE k e If_none] m
      = ([Counted (n + a), Counted (if d = None then 1 else 0)],
         m(k \<mapsto> (Counter (n + a), Some (case d of None \<Rightarrow> t + e * 1000 | Some x \<Rightarrow> x))))"
    and "obey_all rounded t [INCRBY k a, EXPIRE k e Always] m
      = ([Counted (n + a), Counted 1], m(k \<mapsto> (Counter (n + a), Some (t + e * 1000))))"
proof -
  have typed: "m k = None \<or> (\<exists>n d. m k = Some (Counter n, d))" using assms(1) by (simp add: assms(3) counters_only_def)
  show "obey_all rounded t [INCRBY k a, EXPIRE k e If_none] m
      = ([Counted (n + a), Counted (if d = None then 1 else 0)],
         m(k \<mapsto> (Counter (n + a), Some (case d of None \<Rightarrow> t + e * 1000 | Some x \<Rightarrow> x))))"
    using typed assms(2) unfolding assms(4,5) deadline_of_def by (auto split: option.split)
  show "obey_all rounded t [INCRBY k a, EXPIRE k e Always] m = ([Counted (n + a), Counted 1], m(k \<mapsto> (Counter (n + a), Some (t + e * 1000))))"
    using typed assms(2) unfolding assms(4) by auto
qed

lemma counters_there:
  assumes "counters_only L (keys s)" and "m = alive (server_ms now) (keys s)" and "k = redis_counter_key L key"
  shows "cnt (redis_counters keys L now s) key = (case m k of Some (Counter n, _) \<Rightarrow> n | _ \<Rightarrow> 0)"
    and "armed (redis_counters keys L now s) key = map_option (\<lambda>x. x * 1000 + 999) (deadline_of m k)"
    and "redis_counters keys L now s key = None \<longleftrightarrow> m k = None"
proof -
  have typed: "m k = None \<or> (\<exists>n d. m k = Some (Counter n, d))"
    using counters_only_alive [OF assms(1)] by (simp add: assms(2,3) counters_only_def)
  show "cnt (redis_counters keys L now s) key = (case m k of Some (Counter n, _) \<Rightarrow> n | _ \<Rightarrow> 0)"
    using typed by (auto simp: cnt_def redis_counters_def assms(2,3))
  show "armed (redis_counters keys L now s) key = map_option (\<lambda>x. x * 1000 + 999) (deadline_of m k)"
    using typed by (auto simp: armed_def redis_counters_def deadline_of_def assms(2,3))
  show "redis_counters keys L now s key = None \<longleftrightarrow> m k = None"
    using typed by (auto simp: redis_counters_def assms(2,3))
qed

lemma counters_only_put: "counters_only L m \<Longrightarrow> counters_only L (m(k \<mapsto> (Counter n, d)))" "counters_only L m \<Longrightarrow> counters_only L (m(k := None))"
  by (auto simp: counters_only_def)

lemma redis_counter_key_inj [simp]: "redis_counter_key L j = redis_counter_key L k \<longleftrightarrow> j = k"
  by (simp add: redis_counter_key_def)

lemma limiter_later:
  assumes "counting_ok s" and "now \<le> t"
  shows "redis_counters keys L t s = expire t (redis_counters keys L now s)"
proof -
  from assms have later: "alive (server_ms t) (keys s) = alive (server_ms t) (alive (server_ms now) (keys s))"
    using zdiv_mono1 [of now t 1000] by (simp add: alive_later server_ms_def)
  show ?thesis
  proof
    fix key
    let ?k = "redis_counter_key L key" and ?m = "alive (server_ms now) (keys s)"
    have "?m ?k = None \<or> (\<exists>n d. ?m ?k = Some (Counter n, d))"
      using assms counters_only_alive by (auto simp: counters_only_def)
    moreover have ms: "x < server_ms t \<longleftrightarrow> x * 1000 + 999 < t" for x using expired_ms [of t x] by (simp add: expired_at_def)
    ultimately show "redis_counters keys L t s key = expire t (redis_counters keys L now s) key"
      unfolding redis_counters_def expire_def armed_def later
      by (auto simp: alive_def [of "server_ms t"] ms expired_at_def split: option.splits)
  qed
qed

lemma limiter_increments:
  assumes "counting_ok s" and "1 \<le> e"
  shows "fst (increment (redis_backend L) now k a (Some e) s) = Inr (cnt (redis_counters keys L now s) k + a)
    \<and> redis_counters keys L now (snd (increment (redis_backend L) now k a (Some e) s)) = bump k a (redis_due now e) (redis_counters keys L now s) \<and> counting_ok (snd (increment (redis_backend L) now k a (Some e) s))"
proof -
  let ?m = "alive (server_ms now) (keys s)" and ?k = "redis_counter_key L k"
  let ?n = "case ?m ?k of Some (Counter n, _) \<Rightarrow> n | _ \<Rightarrow> 0"
  let ?d = "case deadline_of ?m ?k of None \<Rightarrow> server_ms now + e * 1000 | Some x \<Rightarrow> x"
  have ok: "counters_only L ?m" using assms counters_only_alive by blast
  note there = counters_there [of s ?m now ?k k, OF _ refl refl]
  have does: "does now (redis_increment L now k a (Some e)) ?m (?n + a) (?m(?k \<mapsto> (Counter (?n + a), Some ?d)))"
    unfolding redis_increment_def Let_def client option.case
    by (rule does_map [OF does_run [OF increment_obeyed(1) [OF ok assms(2) refl refl refl]]]) simp_all
  have "(\<lambda>j. case (?m(?k \<mapsto> (Counter (?n + a), Some ?d))) (redis_counter_key L j) of
      Some (Counter n, d) \<Rightarrow> Some (n, map_option (\<lambda>x. x * 1000 + 999) d) | _ \<Rightarrow> None) = bump k a (redis_due now e) (redis_counters keys L now s)"
    using there assms(1) by (auto simp: bump_def fun_eq_iff redis_due_def redis_counters_def split: option.split)
  from counter_done [OF does assms(1) refl counters_only_put(1) [OF ok] this] show ?thesis
    using there(1) assms(1) by (simp add: redis_backend_def)
qed

lemma limiter_refreshes:
  assumes "counting_ok s" and "1 \<le> e"
  shows "fst (increment_and_refresh_ttl (redis_backend L) now k a (Some e) s) = Inr (cnt (redis_counters keys L now s) k + a)
    \<and> redis_counters keys L now (snd (increment_and_refresh_ttl (redis_backend L) now k a (Some e) s)) = bump_to k a (redis_due now e) (redis_counters keys L now s) \<and> counting_ok (snd (increment_and_refresh_ttl (redis_backend L) now k a (Some e) s))"
proof -
  let ?m = "alive (server_ms now) (keys s)" and ?k = "redis_counter_key L k"
  let ?n = "case ?m ?k of Some (Counter n, _) \<Rightarrow> n | _ \<Rightarrow> 0"
  have ok: "counters_only L ?m" using assms counters_only_alive by blast
  note there = counters_there [of s ?m now ?k k, OF _ refl refl]
  have does: "does now (redis_increment_and_refresh_ttl L now k a (Some e)) ?m (?n + a) (?m(?k \<mapsto> (Counter (?n + a), Some (record_end now e))))"
    unfolding redis_increment_and_refresh_ttl_def Let_def client option.case
    by (rule does_map [OF does_run [OF increment_obeyed(2) [OF ok assms(2) refl refl refl]]]) simp_all
  have "(\<lambda>j. case (?m(?k \<mapsto> (Counter (?n + a), Some (record_end now e)))) (redis_counter_key L j) of
      Some (Counter n, d) \<Rightarrow> Some (n, map_option (\<lambda>x. x * 1000 + 999) d) | _ \<Rightarrow> None) = bump_to k a (redis_due now e) (redis_counters keys L now s)"
    using there assms(1) by (auto simp: bump_to_def fun_eq_iff redis_due_def redis_counters_def split: option.split)
  from counter_done [OF does assms(1) refl counters_only_put(1) [OF ok] this] show ?thesis
    using there(1) assms(1) by (simp add: redis_backend_def)
qed

lemma limiter_counts:
  assumes "counting_ok s"
  shows "fst (get_count (redis_backend L) now k s) = Inr (map_option fst (redis_counters keys L now s k))
    \<and> redis_counters keys L now (snd (get_count (redis_backend L) now k s)) = redis_counters keys L now s \<and> counting_ok (snd (get_count (redis_backend L) now k s))"
proof -
  let ?m = "alive (server_ms now) (keys s)" and ?k = "redis_counter_key L k"
  have ok: "counters_only L ?m" using assms counters_only_alive by blast
  then have "?m ?k = None \<or> (\<exists>n d. ?m ?k = Some (Counter n, d))" by (simp add: counters_only_def)
  then have does: "does now (redis_get_count L now k) ?m (map_option fst (redis_counters keys L now s k)) ?m"
    unfolding redis_get_count_def client
  proof
    assume none: "?m ?k = None"
    show "does now (bind (run_one C now (GET ?k)) (\<lambda>raw. ret (case raw of Digits n \<Rightarrow> Some n | _ \<Rightarrow> None))) ?m (map_option fst (redis_counters keys L now s k)) ?m"
      by (rule does_answer [where r = Null]) (simp_all add: none redis_counters_def)
  next
    assume "\<exists>n d. ?m ?k = Some (Counter n, d)"
    then obtain n d where some: "?m ?k = Some (Counter n, d)" by blast
    show "does now (bind (run_one C now (GET ?k)) (\<lambda>raw. ret (case raw of Digits n \<Rightarrow> Some n | _ \<Rightarrow> None))) ?m (map_option fst (redis_counters keys L now s k)) ?m"
      by (rule does_answer [where r = "Digits n"]) (simp_all add: some redis_counters_def)
  qed
  show ?thesis using counter_done [OF does assms(1) refl ok] by (simp add: redis_backend_def redis_counters_def)
qed

lemma limiter_tells:
  assumes "counting_ok s"
  shows "fst (get_ttl (redis_backend L) now k s) = Inr (seconds_left (redis_left rounded) now (redis_counters keys L now s) k)
    \<and> redis_counters keys L now (snd (get_ttl (redis_backend L) now k s)) = redis_counters keys L now s \<and> counting_ok (snd (get_ttl (redis_backend L) now k s))"
proof -
  let ?m = "alive (server_ms now) (keys s)" and ?k = "redis_counter_key L k"
  have ok: "counters_only L ?m" using assms counters_only_alive by blast
  have "max 0 (case ?m ?k of None \<Rightarrow> - 2 | Some (_, d) \<Rightarrow> (case d of None \<Rightarrow> - 1 | Some x \<Rightarrow> rounded (x - server_ms now)))
      = seconds_left (redis_left rounded) now (redis_counters keys L now s) k"
    using counters_there(2) [of s ?m now ?k k, OF _ refl refl] assms(1)
    by (auto simp: seconds_left_def deadline_of_def redis_left_def split: option.split)
  then have does: "does now (redis_get_ttl L now k) ?m (seconds_left (redis_left rounded) now (redis_counters keys L now s) k) ?m"
    unfolding redis_get_ttl_def client by (intro does_answer [where f = "\<lambda>r. max 0 (number r)"], simp) simp_all
  show ?thesis using counter_done [OF does assms(1) refl ok] by (simp add: redis_backend_def redis_counters_def)
qed

lemma limiter_forgets:
  assumes "counting_ok s"
  shows "fst (delete_key (redis_backend L) now k s) = Inr (redis_counters keys L now s k \<noteq> None)
    \<and> (redis_counters keys L now s k \<noteq> None \<longrightarrow> redis_counters keys L now s k \<noteq> None)
    \<and> redis_counters keys L now (snd (delete_key (redis_backend L) now k s)) = (redis_counters keys L now s)(k := None) \<and> counting_ok (snd (delete_key (redis_backend L) now k s))"
proof -
  let ?m = "alive (server_ms now) (keys s)" and ?k = "redis_counter_key L k"
  have ok: "counters_only L ?m" using assms counters_only_alive by blast
  have does: "does now (redis_delete_counter L now k) ?m (?m ?k \<noteq> None) (?m(?k := None))"
    unfolding redis_delete_counter_def client by (rule does_answer [where r = "Counted (if ?m ?k = None then 0 else 1)"]) simp_all
  have "(\<lambda>j. case (?m(?k := None)) (redis_counter_key L j) of Some (Counter n, d) \<Rightarrow> Some (n, map_option (\<lambda>x. x * 1000 + 999) d) | _ \<Rightarrow> None)
      = (redis_counters keys L now s)(k := None)"
    by (auto simp: fun_eq_iff redis_counters_def)
  moreover have "?m ?k \<noteq> None \<longleftrightarrow> redis_counters keys L now s k \<noteq> None"
    using counters_there(3) [of s ?m now ?k k, OF _ refl refl] assms(1) by simp
  ultimately show ?thesis using counter_done [OF does assms(1) refl counters_only_put(2) [OF ok]] by (simp add: redis_backend_def fun_upd_def)
qed

end

sublocale redis_limiting \<subseteq> counting: timed_counters "redis_backend L" "redis_counters keys L" counting_ok redis_due "redis_left rounded" "\<lambda>_. True" "\<lambda>e. 1 \<le> e"
    "\<lambda>now s k. redis_counters keys L now s k \<noteq> None"
  by unfold_locales
     (rule limiter_later limiter_increments limiter_refreshes limiter_counts limiter_tells limiter_forgets; assumption)+

context redis_limiting
begin

lemma limiter_run:
  assumes "quiet s" and "counters_only L (keys s)" and "sorted (start # map fst ops)"
    and "\<forall>(t, op) \<in> set ops. counter_ok (\<lambda>_. True) (\<lambda>e. 1 \<le> e) op"
  shows "fst (map_prog (\<lambda>(t, op). run_counter (redis_backend L) t op) ops s)
    = Inr (spec_counters redis_due (redis_left rounded) ops (redis_counters keys L start s))"
  using counting.counters_run_exactly [OF _ _ assms(3,4)] assms(1,2) by blast

lemma redis_due_covers: "t' < t + p * usec \<Longrightarrow> t' \<le> redis_due t p"
proof -
  assume t: "t' < t + p * usec"
  have "t < t div 1000 * 1000 + 1000" using pos_mod_bound [of 1000 t] by (simp add: minus_mod_eq_div_mult [symmetric])
  then show ?thesis using t by (simp add: redis_due_def server_ms_def usec_def)
qed

text \<open>Checks of one window, if every one of them counts the key of the window and arms it until it is over.\<close>

definition checks_window :: "string \<Rightarrow> rate_limit \<Rightarrow> int \<Rightarrow> (int \<Rightarrow> ('r, int \<times> bool \<times> int) prog) \<Rightarrow> bool" where
  "checks_window key l w chk \<longleftrightarrow> (\<forall>t s. counting_ok s \<longrightarrow> window_of (seconds l) t = w \<longrightarrow>
     fst (chk t s) = Inr (window_result l t (cnt (redis_counters keys L t s) (wkey key w) + 1)) \<and> counting_ok (snd (chk t s))
     \<and> (redis_counters keys L t (snd (chk t s)) = bump (wkey key w) 1 (redis_due t (seconds l)) (redis_counters keys L t s)
       \<or> redis_counters keys L t (snd (chk t s)) = bump_to (wkey key w) 1 (redis_due t (seconds l)) (redis_counters keys L t s)))"

lemma checks_count:
  assumes "checks_window key l w chk" and "0 < seconds l" and "counting_ok s" and "sorted (t0 # ts)"
    and "\<forall>t \<in> set ts. window_of (seconds l) t = w" and "covers (redis_counters keys L t0 s) (wkey key w) ts"
    and "cnt (redis_counters keys L t0 s) (wkey key w) = n"
  shows "fst (map_prog chk ts s) = Inr (counted_from l n ts)"
  using assms(3-)
proof (induction ts arbitrary: s t0 n)
  case Nil
  then show ?case by (simp add: ret_run)
next
  case (Cons t ts)
  let ?k = "wkey key w" and ?v = "redis_counters keys L"
  have v: "?v t s = expire t (?v t0 s)" using counting.later [OF Cons.prems(1), of t0 t] Cons.prems(2) by simp
  with Cons.prems(4,5) have n: "cnt (?v t s) ?k = n" and cov: "covers (?v t s) ?k (t # ts)"
    by (auto simp: covers_def expire_def expired_at_def cnt_def armed_def split: option.splits)
  have run: "fst (chk t s) = Inr (window_result l t (n + 1))" "counting_ok (snd (chk t s))"
    "?v t (snd (chk t s)) = bump ?k 1 (redis_due t (seconds l)) (?v t s) \<or> ?v t (snd (chk t s)) = bump_to ?k 1 (redis_due t (seconds l)) (?v t s)"
    using assms(1) Cons.prems(1,3) n by (auto simp: checks_window_def)
  have "t' \<le> redis_due t (seconds l)" if "t' \<in> set ts" for t'
    using that assms(2) Cons.prems(3) window_gap [of "seconds l" t t'] redis_due_covers by simp
  then have "covers (?v t (snd (chk t s))) ?k ts" "cnt (?v t (snd (chk t s))) ?k = n + 1"
    using run(3) cov n by (auto simp: covers_def bump_def bump_to_def armed_def cnt_def split: option.splits)
  then have "fst (map_prog chk ts (snd (chk t s))) = Inr (counted_from l (n + 1) ts)"
    using Cons.IH [OF run(2), of t] Cons.prems(2,3) by simp
  then show ?case using run(1) by (simp add: bind_run ret_run case_prod_unfold)
qed

text \<open>Both window checks do: the one inherited from the port, and the one of the backend's own.\<close>

lemma inherited_checks: "1 \<le> seconds l \<Longrightarrow> checks_window key l w (\<lambda>t. increment_and_check (redis_backend L) t key (times l) (seconds l) open)"
  unfolding checks_window_def
  by (simp add: increment_and_check_def Let_def run_simps counting.increments window_result_def wkey_def window_of_def)

lemma own_check:
  "redis_increment_and_check L t key limit period open =
     bind (catch (bind (increment_and_refresh_ttl (redis_backend L) t (key @ '':'' @ str_of_int (t div usec - t div usec mod period)) 1 (Some period))
         (\<lambda>n. ret (Some n))) (\<lambda>_. ret None)) (\<lambda>counted.
     ret (case counted of
            None \<Rightarrow> if open then (0, False, 0) else (limit + 1, True, period)
          | Some count \<Rightarrow> if count \<le> limit then (count, False, 0) else (count, True, period - t div usec mod period)))"
  by (rule ext) (simp add: redis_increment_and_check_def redis_increment_and_refresh_ttl_def redis_backend_def Let_def bind_run ret_run catch_run redis_counter_key_def split: sum.split prod.split)

lemma own_checks: "1 \<le> seconds l \<Longrightarrow> checks_window key l w (\<lambda>t. redis_increment_and_check L t key (times l) (seconds l) open)"
  unfolding checks_window_def own_check
  by (simp add: run_simps counting.refreshes window_result_def wkey_def window_of_def)

end

end
