(* ===== verification/RedisServer.thy ===== *)
theory RedisServer
  imports RedisCounters "HOL-Library.List_Lexorder" "HOL-Library.Char_ord"
begin

text \<open>
  A keyspace that other clients write to between our commands. Left alone it is an instance of the server the backends
  are specified on; disturbed, the compare-and-set loop of \<open>modify\<close> still returns and loses no write.
\<close>

section \<open>A server with other clients\<close>

text \<open>
  Before each of our commands others may write: what they do, and the keys they touch by it, is the list
  \<open>others_next\<close> of the state. \<open>watched\<close> is the key we watch, \<open>touched\<close> whether someone touched it since.
\<close>

record 'a server_state =
  stored :: "'a keyspace"
  others_next :: "(string set \<times> ('a keyspace \<Rightarrow> 'a keyspace)) list"
  watched :: "string option"
  touched :: bool

definition others_write :: "int \<Rightarrow> 'a server_state \<Rightarrow> 'a server_state" where
  "others_write t s = (case others_next s of
     [] \<Rightarrow> s
   | (A, f) # later \<Rightarrow> s\<lparr>stored := alive t (f (alive t (stored s))), others_next := later,
        touched := touched s \<or> (case watched s of None \<Rightarrow> False | Some k \<Rightarrow> k \<in> A)\<rparr>)"

definition rounded_ms :: "int \<Rightarrow> int" where
  "rounded_ms x = (x + 500) div 1000"

definition server_run :: "int \<Rightarrow> 'a command list \<Rightarrow> ('a server_state, 'a reply list) prog" where
  "server_run now cmds s =
     (let s1 = others_write (server_ms now) s; (rs, m) = obey_all rounded_ms (server_ms now) cmds (alive (server_ms now) (stored s1))
      in (if list_ex failed rs then Inl (BackendError ''ResponseError'') else Inr rs, s1\<lparr>stored := m\<rparr>))"

definition server_watch :: "int \<Rightarrow> string \<Rightarrow> ('a server_state, unit) prog" where
  "server_watch now k s = (Inr (), (others_write (server_ms now) s)\<lparr>watched := Some k, touched := False\<rparr>)"

definition server_exec :: "int \<Rightarrow> 'a command list \<Rightarrow> ('a server_state, 'a reply list option) prog" where
  "server_exec now cmds s =
     (let s1 = others_write (server_ms now) s; s2 = s1\<lparr>watched := None, touched := False\<rparr>;
          (rs, m) = obey_all rounded_ms (server_ms now) cmds (alive (server_ms now) (stored s1))
      in if touched s1 then (Inr None, s2)
         else (if list_ex failed rs then Inl (BackendError ''ResponseError'') else Inr (Some rs), s2\<lparr>stored := m\<rparr>))"

definition server_connection :: "('a server_state, 'a) redis_connection" where
  "server_connection = \<lparr>rc_run = server_run, rc_watch = server_watch, rc_exec = server_exec, rc_scan = (\<lambda>now p. ret []),
     rc_close = ret (), rc_response_error = (\<lambda>e. if e = BackendError ''ResponseError'' then Some ''WRONGTYPE'' else None),
     rc_listing = sorted_list_of_set\<rparr>"

definition quiet_server :: "'a server_state \<Rightarrow> bool" where
  "quiet_server s \<longleftrightarrow> others_next s = [] \<and> \<not> touched s"

lemma others_quiet: "quiet_server s \<Longrightarrow> others_write t s = s"
  by (simp add: quiet_server_def others_write_def)

lemma alive_update: "\<not> expired_at t d \<Longrightarrow> alive t (m(k \<mapsto> (c, d))) = (alive t m)(k \<mapsto> (c, d))" "alive t (m(k := None)) = (alive t m)(k := None)"
  by (auto simp: alive_def fun_eq_iff)

lemma alive_deadline: "alive t m = m \<Longrightarrow> m k = Some (c, d) \<Longrightarrow> \<not> expired_at t d"
  using alive_Some [of t m k c d] by simp

lemma obey_alive:
  assumes "alive t m = m"
  shows "alive t (snd (obey rounded t c m)) = snd (obey rounded t c m)"
proof (cases c)
  case (SET k v life cond)
  have "\<not> expired_at t (deadline_of m k)"
    using alive_deadline [OF assms, of k] by (auto simp: deadline_of_def expired_at_def split: option.splits)
  then show ?thesis using assms by (cases life) (auto simp: SET alive_update expired_at_def)
qed (use assms alive_deadline [OF assms] in \<open>auto simp: alive_update expired_at_def split: option.split content.split if_split\<close>)

lemma obey_all_alive: "alive t m = m \<Longrightarrow> alive t (snd (obey_all rounded t cs m)) = snd (obey_all rounded t cs m)"
proof (induction cs arbitrary: m)
  case (Cons c cs)
  then show ?case using obey_alive [OF Cons.prems, of rounded c] by (simp add: case_prod_unfold Let_def)
qed simp

lemma obeyed_becomes: "obey_all rounded t cs (alive t m0) = (rs, m) \<Longrightarrow> becomes t m0 m m"
  using obey_all_alive [of t "alive t m0" rounded cs] by (simp add: becomes_def)

interpretation server: redis_server server_connection stored quiet_server rounded_ms
proof (unfold_locales, goal_cases)
  case (1 s now cmds rs m)
  then show ?case using obeyed_becomes [OF 1(2)] by (simp add: server_connection_def server_run_def others_quiet quiet_server_def)
next
  case (2 s now k)
  then show ?case using becomes_refl by (simp add: server_connection_def server_watch_def others_quiet quiet_server_def)
next
  case (3 s now cmds rs m)
  then show ?case using obeyed_becomes [OF 3(2)] by (simp add: server_connection_def server_exec_def others_quiet quiet_server_def)
next
  case (4 x)
  show ?case unfolding rounded_ms_def by linarith
next
  case (5 A)
  then show ?case by (simp add: server_connection_def)
qed

definition own_limiter :: "bool \<Rightarrow> string \<Rightarrow> ('a server_state, 'a) redis_limiter" where
  "own_limiter mine p = \<lparr>rl_client = server_connection, rl_owns_client = mine, rl_prefix = p\<rparr>"

interpretation limits: redis_limiting server_connection stored quiet_server rounded_ms "own_limiter mine p" for mine p
  by unfold_locales (simp add: own_limiter_def)

section \<open>A modify among others\<close>

text \<open>The keys alive once the given writes of others are done, and a state in which the next \<open>n\<close> of them are.\<close>

fun others_run :: "int \<Rightarrow> (string set \<times> ('a keyspace \<Rightarrow> 'a keyspace)) list \<Rightarrow> 'a keyspace \<Rightarrow> 'a keyspace" where
  "others_run t [] m = m"
| "others_run t ((A, f) # later) m = others_run t later (alive t (f m))"

definition others_done :: "int \<Rightarrow> 'a server_state \<Rightarrow> nat \<Rightarrow> 'a server_state \<Rightarrow> bool" where
  "others_done t s n s' \<longleftrightarrow> others_next s' = drop n (others_next s)
     \<and> alive t (stored s') = others_run t (take n (others_next s)) (alive t (stored s))"

lemma others_run_append: "others_run t (xs @ ys) m = others_run t ys (others_run t xs m)"
  by (induction xs arbitrary: m) auto

lemma others_done_refl: "others_done t s 0 s"
  by (simp add: others_done_def)

lemma others_done_trans: "others_done t s a s1 \<Longrightarrow> others_done t s1 b s2 \<Longrightarrow> others_done t s (a + b) s2"
  by (simp add: others_done_def take_add others_run_append add.commute)

lemma others_done_write: "others_done t s 1 (others_write t s)"
  by (cases "others_next s") (auto simp: others_done_def others_write_def)

text \<open>Others write what they say, and leave sessions and indexes where these belong.\<close>

definition well_typed :: "('r, 'a) redis_storage \<Rightarrow> 'a keyspace \<Rightarrow> bool" where
  "well_typed S m \<longleftrightarrow> (\<forall>sid. m (redis_key S sid) = None \<or> (\<exists>v d. m (redis_key S sid) = Some (Value v, d)))
     \<and> (\<forall>u. m (user_key S u) = None \<or> (\<exists>A d. m (user_key S u) = Some (Names A, d)))"

definition others_behave :: "('r, 'a) redis_storage \<Rightarrow> (string set \<times> ('a keyspace \<Rightarrow> 'a keyspace)) list \<Rightarrow> bool" where
  "others_behave S later \<longleftrightarrow> (\<forall>(A, f) \<in> set later. \<forall>m. (\<forall>k. k \<notin> A \<longrightarrow> f m k = m k) \<and> (well_typed S m \<longrightarrow> well_typed S (f m)))"

lemma well_typed_alive: "well_typed S m \<Longrightarrow> well_typed S (alive t m)"
proof -
  assume m: "well_typed S m"
  have "alive t m k = None \<or> alive t m k = m k" for k by (auto simp: alive_def split: option.splits)
  then show ?thesis using m unfolding well_typed_def by metis
qed

lemma others_write_typed:
  assumes "others_behave S (others_next s)" and "well_typed S (alive t (stored s))"
  shows "others_behave S (others_next (others_write t s))" and "well_typed S (alive t (stored (others_write t s)))"
  using assms by (auto simp: others_behave_def others_write_def intro: well_typed_alive split: list.split)

text \<open>A watched key that nobody touched is what it was.\<close>

lemma others_write_untouched:
  assumes "others_behave S (others_next s)" and "watched s = Some k" and "\<not> touched (others_write t s)"
  shows "alive t (stored (others_write t s)) k = alive t (stored s) k" and "watched (others_write t s) = Some k" and "\<not> touched s"
proof -
  have same: "alive t (f (alive t m)) k = alive t m k" if "f (alive t m) k = alive t m k" for f m
    using that alive_alive [of t m] by (metis (no_types, lifting) alive_def)
  show "alive t (stored (others_write t s)) k = alive t (stored s) k"
    using assms by (auto simp: others_behave_def others_write_def same split: list.splits)
  show "watched (others_write t s) = Some k" "\<not> touched s"
    using assms by (auto simp: others_write_def split: list.splits)
qed

lemma others_write_later:
  "length (others_next (others_write t s)) \<le> length (others_next s)"
  "touched (others_write t s) \<Longrightarrow> \<not> touched s \<Longrightarrow> length (others_next (others_write t s)) < length (others_next s)"
  by (auto simp: others_write_def split: list.splits)

text \<open>What a compare-and-set writes, and the three ways a round of the loop goes.\<close>

definition written :: "int \<Rightarrow> lifetime \<Rightarrow> string \<Rightarrow> 'a \<Rightarrow> 'a keyspace \<Rightarrow> 'a keyspace" where
  "written t life k v m = m(k \<mapsto> (Value v, case life of Ex_seconds n \<Rightarrow> Some (t + n * 1000) | KEEPTTL \<Rightarrow> deadline_of m k))"

definition lasting :: "lifetime \<Rightarrow> bool" where
  "lasting life \<longleftrightarrow> (case life of Ex_seconds n \<Rightarrow> 1 \<le> n | KEEPTTL \<Rightarrow> True)"

lemma set_obeyed: "lasting life \<Longrightarrow> obey rounded t (SET k v life Anyway) m = (Status, written t life k v m)"
  by (auto simp: lasting_def written_def split: lifetime.splits)

lemma read_watched:
  assumes "others_behave S (others_next s)" and "well_typed S (alive (server_ms now) (stored s))"
  obtains s1 raw where
    "bind (rc_watch server_connection now (redis_key S sid)) (\<lambda>_. run_one server_connection now (GET (redis_key S sid))) s = (Inr raw, s1)"
    and "others_done (server_ms now) s 2 s1" and "watched s1 = Some (redis_key S sid)"
    and "others_behave S (others_next s1)" and "well_typed S (alive (server_ms now) (stored s1))"
    and "touched s1 \<Longrightarrow> length (others_next s1) < length (others_next s)" and "length (others_next s1) \<le> length (others_next s)"
    and "case bulk raw of None \<Rightarrow> alive (server_ms now) (stored s1) (redis_key S sid) = None
       | Some v \<Rightarrow> \<exists>d. alive (server_ms now) (stored s1) (redis_key S sid) = Some (Value v, d)"
proof -
  let ?t = "server_ms now" and ?key = "redis_key S sid"
  define a where "a = (others_write ?t s)\<lparr>watched := Some ?key, touched := False\<rparr>"
  define b where "b = others_write ?t a"
  define s1 where "s1 = b\<lparr>stored := alive ?t (stored b)\<rparr>"
  define raw where "raw = fst (obey rounded_ms ?t (GET ?key) (alive ?t (stored b)))"
  have a: "others_behave S (others_next a)" "well_typed S (alive ?t (stored a))" "others_done ?t s 1 a" "watched a = Some ?key" "\<not> touched a"
    using others_write_typed [OF assms] others_done_write [of ?t s] by (simp_all add: a_def others_done_def)
  have same: "alive ?t (stored s1) = alive ?t (stored b)" "others_next s1 = others_next b" by (simp_all add: s1_def)
  have b: "others_behave S (others_next s1)" "well_typed S (alive ?t (stored s1))" "others_done ?t a 1 s1"
    unfolding same others_done_def
    using others_write_typed [OF a(1,2)] others_done_write [of ?t a] unfolding b_def [symmetric] others_done_def by blast+
  have w: "watched s1 = Some ?key" using a(4) by (auto simp: s1_def b_def others_write_def split: list.split)
  have l: "length (others_next s1) \<le> length (others_next s)" "touched s1 \<Longrightarrow> length (others_next s1) < length (others_next s)"
    using others_write_later(1) [of ?t s] others_write_later [of ?t a] a(5) by (simp_all add: s1_def b_def a_def)
  have typed: "alive ?t (stored s1) ?key = None \<or> (\<exists>v d. alive ?t (stored s1) ?key = Some (Value v, d))" using b(2) by (simp add: well_typed_def)
  then have raw: "case bulk raw of None \<Rightarrow> alive ?t (stored s1) ?key = None | Some v \<Rightarrow> \<exists>d. alive ?t (stored s1) ?key = Some (Value v, d)" "\<not> failed raw"
    by (auto simp: raw_def s1_def)
  have "bind (rc_watch server_connection now ?key) (\<lambda>_. run_one server_connection now (GET ?key)) s = (Inr raw, s1)"
    using raw(2) by (simp add: server_connection_def server_watch_def server_run_def run_one_def bind_run ret_run Let_def a_def [symmetric] b_def [symmetric] raw_def s1_def)
  from that [OF this _ w b(1,2) l(2,1) raw(1)] show thesis using others_done_trans [OF a(3) b(3)] by (simp add: numeral_2_eq_2)
qed

lemma watch_round:
  fixes S :: "('a server_state, 'a) redis_storage" and sid :: string and change :: "'a \<Rightarrow> 'a \<times> string"
  assumes "others_behave S (others_next s)" and "well_typed S (alive (server_ms now) (stored s))" and "lasting life" and "rs_client S = server_connection"
  defines "t \<equiv> server_ms now" and "key \<equiv> redis_key S sid" and "loop \<equiv> watch_loop S now (redis_key S sid) change life"
  shows "(\<exists>s1. others_done t s 2 s1 \<and> alive t (stored s1) key = None \<and> loop s = Some (Inr None, s1))
    \<or> (\<exists>s1 v d. others_done t s 3 s1 \<and> others_behave S (others_next s1) \<and> well_typed S (alive t (stored s1))
         \<and> alive t (stored s1) key = Some (Value v, d)
         \<and> loop s = Some (Inr (Some (change v)), s1\<lparr>stored := written t life key (fst (change v)) (alive t (stored s1))\<rparr>))
    \<or> (\<exists>s1. others_done t s 3 s1 \<and> others_behave S (others_next s1) \<and> well_typed S (alive t (stored s1))
         \<and> length (others_next s1) < length (others_next s) \<and> loop s = loop s1)"
proof -
  obtain a raw where read: "bind (rc_watch server_connection now key) (\<lambda>_. run_one server_connection now (GET key)) s = (Inr raw, a)"
    "others_done t s 2 a" "watched a = Some key" "others_behave S (others_next a)" "well_typed S (alive t (stored a))"
    "touched a \<Longrightarrow> length (others_next a) < length (others_next s)" "length (others_next a) \<le> length (others_next s)"
    "case bulk raw of None \<Rightarrow> alive t (stored a) key = None | Some v \<Rightarrow> \<exists>d. alive t (stored a) key = Some (Value v, d)"
    by (rule read_watched [OF assms(1,2), of sid, folded t_def key_def]) (rule that)
  note loop = watch_loop.simps [of S now key change life s, unfolded assms(4) read(1)]
  show ?thesis
  proof (cases "bulk raw")
    case None
    then have "loop s = Some (Inr None, a)" using loop by (simp add: loop_def key_def)
    moreover have "alive t (stored a) key = None" using read(8) None by simp
    ultimately show ?thesis using read(2) by blast
  next
    case (Some v)
    define b where "b = others_write t a"
    define s1 where "s1 = b\<lparr>watched := None, touched := False\<rparr>"
    have b: "others_behave S (others_next s1)" "well_typed S (alive t (stored s1))" "others_done t s 3 s1"
      using others_write_typed [OF read(4,5)] others_done_trans [OF read(2) others_done_write] by (simp_all add: b_def s1_def others_done_def)
    show ?thesis
    proof (cases "touched b")
      case True
      then have "length (others_next s1) < length (others_next s)"
        using read(6,7) others_write_later [of t a] by (cases "touched a") (simp_all add: b_def s1_def)
      moreover have "loop s = loop s1"
        using True Some loop by (simp add: loop_def key_def server_connection_def server_exec_def Let_def b_def s1_def t_def case_prod_unfold)
      ultimately show ?thesis using b by blast
    next
      case False
      then have "alive t (stored s1) key = alive t (stored a) key"
        using others_write_untouched(1) [OF read(4,3)] by (simp add: b_def s1_def)
      then obtain d where "alive t (stored s1) key = Some (Value v, d)" using read(8) Some by auto
      moreover have "loop s = Some (Inr (Some (change v)), s1\<lparr>stored := written t life key (fst (change v)) (alive t (stored s1))\<rparr>)"
        using False Some loop
        by (simp add: set_obeyed [OF assms(3)] loop_def key_def server_connection_def server_exec_def Let_def b_def s1_def t_def case_prod_unfold del: obey.simps)
      ultimately show ?thesis using b by blast
    qed
  qed
qed

text \<open>So the loop ends, and its write lands on the very keys its value was read from.\<close>

lemma watch_loop_ends:
  fixes S :: "('a server_state, 'a) redis_storage" and sid :: string and change :: "'a \<Rightarrow> 'a \<times> string"
  assumes "others_behave S (others_next s)" and "well_typed S (alive (server_ms now) (stored s))" and "lasting life" and "rs_client S = server_connection"
  shows "(\<exists>n s1. others_done (server_ms now) s n s1 \<and> alive (server_ms now) (stored s1) (redis_key S sid) = None
        \<and> watch_loop S now (redis_key S sid) change life s = Some (Inr None, s1))
    \<or> (\<exists>n s1 v d. others_done (server_ms now) s n s1 \<and> others_behave S (others_next s1) \<and> well_typed S (alive (server_ms now) (stored s1))
        \<and> alive (server_ms now) (stored s1) (redis_key S sid) = Some (Value v, d)
        \<and> watch_loop S now (redis_key S sid) change life s
          = Some (Inr (Some (change v)), s1\<lparr>stored := written (server_ms now) life (redis_key S sid) (fst (change v)) (alive (server_ms now) (stored s1))\<rparr>))"
  using assms(1,2)
proof (induction "length (others_next s)" arbitrary: s rule: less_induct)
  case less
  consider (gone) "\<exists>s1. others_done (server_ms now) s 2 s1 \<and> alive (server_ms now) (stored s1) (redis_key S sid) = None
        \<and> watch_loop S now (redis_key S sid) change life s = Some (Inr None, s1)"
    | (written) "\<exists>s1 v d. others_done (server_ms now) s 3 s1 \<and> others_behave S (others_next s1) \<and> well_typed S (alive (server_ms now) (stored s1))
        \<and> alive (server_ms now) (stored s1) (redis_key S sid) = Some (Value v, d)
        \<and> watch_loop S now (redis_key S sid) change life s
          = Some (Inr (Some (change v)), s1\<lparr>stored := written (server_ms now) life (redis_key S sid) (fst (change v)) (alive (server_ms now) (stored s1))\<rparr>)"
    | (again) s1 where "others_done (server_ms now) s 3 s1" "others_behave S (others_next s1)" "well_typed S (alive (server_ms now) (stored s1))"
        "length (others_next s1) < length (others_next s)"
        "watch_loop S now (redis_key S sid) change life s = watch_loop S now (redis_key S sid) change life s1"
    using watch_round [OF less.prems assms(3,4), of sid change] by blast
  then show ?case
  proof cases
    case again
    then show ?thesis using less.hyps [OF again(4,2,3)] others_done_trans [OF again(1)] unfolding again(5) by blast
  qed blast+
qed

text \<open>The index is written on its own, after one more turn of the others.\<close>

definition index_turns :: "('r, 'a) redis_storage \<Rightarrow> 'a \<Rightarrow> nat" where
  "index_turns S v = (if owner S v = None then 0 else 1)"

lemma index_obeyed:
  assumes "well_typed S m"
  obtains rs m' where "obey_all rounded t [SADD (user_key S u) sid, EXPIRE (user_key S u) e If_none, EXPIRE (user_key S u) e If_longer] m = (rs, m')"
    and "\<not> list_ex failed rs" and "\<And>k. k \<noteq> user_key S u \<Longrightarrow> m' k = m k"
proof -
  let ?out = "obey_all rounded t [SADD (user_key S u) sid, EXPIRE (user_key S u) e If_none, EXPIRE (user_key S u) e If_longer] m"
  have "m (user_key S u) = None \<or> (\<exists>A d. m (user_key S u) = Some (Names A, d))" using assms by (simp add: well_typed_def)
  then have "\<not> list_ex failed (fst ?out) \<and> (\<forall>k. k \<noteq> user_key S u \<longrightarrow> snd ?out k = m k)"
  proof (elim disjE exE)
    fix A d assume "m (user_key S u) = Some (Names A, d)"
    then show ?thesis by (cases d) simp_all
  qed simp
  then show thesis using that [of "fst ?out" "snd ?out"] by simp
qed

lemma index_among_others:
  fixes S :: "('a server_state, 'a) redis_storage"
  assumes "rs_client S = server_connection" and "others_behave S (others_next a)" and "well_typed S (alive (server_ms now) (stored a))"
  obtains s' where "index_value S now v sid secs a = (Inr (), s')" and "others_next s' = drop (index_turns S v) (others_next a)"
    and "\<And>k. k \<notin> range (user_key S) \<Longrightarrow>
      alive (server_ms now) (stored s') k = others_run (server_ms now) (take (index_turns S v) (others_next a)) (alive (server_ms now) (stored a)) k"
proof (cases "owner S v")
  case None
  then have "index_value S now v sid secs a = (Inr (), a)" by (auto simp: index_value_def owner_def ret_run split: option.splits if_splits)
  then show ?thesis using that [of a] None by (simp add: index_turns_def)
next
  case (Some u)
  let ?t = "server_ms now" and ?e = "secs + USER_INDEX_TTL_BUFFER_SECONDS"
  define b where "b = others_write ?t a"
  have typed: "well_typed S (alive ?t (stored b))" using others_write_typed(2) [OF assms(2,3)] by (simp add: b_def)
  obtain rs m' where m': "obey_all rounded_ms ?t [SADD (user_key S u) sid, EXPIRE (user_key S u) ?e If_none, EXPIRE (user_key S u) ?e If_longer] (alive ?t (stored b)) = (rs, m')"
    "\<not> list_ex failed rs" "\<And>k. k \<noteq> user_key S u \<Longrightarrow> m' k = alive ?t (stored b) k"
    by (rule index_obeyed [OF typed]) (rule that)
  have run: "rc_run server_connection now [SADD (user_key S u) sid, EXPIRE (user_key S u) ?e If_none, EXPIRE (user_key S u) ?e If_longer] a = (Inr rs, b\<lparr>stored := m'\<rparr>)"
    using m'(2) by (simp add: server_connection_def server_run_def b_def [symmetric] m'(1) del: obey_all.simps)
  have "index_value S now v sid secs a = index_session S now u sid secs a"
    using Some by (auto simp: index_value_def owner_def split: option.splits if_splits)
  then have indexed: "index_value S now v sid secs a = (Inr (), b\<lparr>stored := m'\<rparr>)"
    by (simp add: index_session_def Let_def checked_version_def assms(1) catch_run bind_run ret_run run)
  have "alive ?t m' k = alive ?t (stored b) k" if "k \<notin> range (user_key S)" for k
  proof -
    have "m' k = alive ?t (stored b) k" using m'(3) that by blast
    then have "alive ?t m' k = alive ?t (alive ?t (stored b)) k" by (simp only: alive_def)
    then show ?thesis by simp
  qed
  then show ?thesis using that [OF indexed] others_done_write [of ?t a] Some
    by (simp add: index_turns_def others_done_def b_def)
qed

lemma written_typed:
  assumes "colon_prefix S" and "well_typed S m"
  shows "well_typed S (written t life (redis_key S sid) v m)"
proof -
  have "user_key S u \<noteq> redis_key S sid" for u using user_key_apart [OF assms(1)] .
  then show ?thesis using assms(2) by (auto simp: well_typed_def written_def)
qed

lemma written_alive: "lasting life \<Longrightarrow> alive t (written t life k v (alive t m)) = written t life k v (alive t m)"
proof -
  assume "lasting life"
  then have "\<not> expired_at t (case life of Ex_seconds n \<Rightarrow> Some (t + n * 1000) | KEEPTTL \<Rightarrow> deadline_of (alive t m) k)"
    by (auto simp: lasting_def expired_at_def deadline_of_def alive_def split: lifetime.split option.split)
  then show ?thesis by (simp add: written_def alive_update)
qed

text \<open>What a modify among others has to come out as.\<close>

definition modified_once ::
  "('r, 'a) redis_storage \<Rightarrow> int \<Rightarrow> string \<Rightarrow> ('a \<Rightarrow> 'a \<times> string) \<Rightarrow> lifetime \<Rightarrow> 'a server_state \<Rightarrow> nat \<Rightarrow>
    ('a \<times> string) option \<Rightarrow> 'a server_state \<Rightarrow> bool" where
  "modified_once S now sid change life s n out s' \<longleftrightarrow>
     (let t = server_ms now; m = others_run t (take n (others_next s)) (alive t (stored s))
      in case m (redis_key S sid) of
           None \<Rightarrow> out = None \<and> alive t (stored s') = m
         | Some (c, _) \<Rightarrow> (\<exists>v. c = Value v \<and> out = Some (change v)
             \<and> (\<forall>k. k \<notin> range (user_key S) \<longrightarrow> alive t (stored s') k
                 = others_run t (take (index_turns S (fst (change v))) (drop n (others_next s)))
                     (written t life (redis_key S sid) (fst (change v)) m) k)))"

lemma modify_among_others:
  fixes S :: "('a server_state, 'a) redis_storage" and r :: bool
  assumes "rs_client S = server_connection" and "colon_prefix S" and "others_behave S (others_next s)"
    and "well_typed S (alive (server_ms now) (stored s))" and "1 \<le> ttl_or (rs_expiration S) e"
  defines "life \<equiv> if r then Ex_seconds (ttl_or (rs_expiration S) e) else KEEPTTL"
  shows "\<exists>n out s'. redis_modify S now sid change r e s = Some (Inr out, s') \<and> modified_once S now sid change life s n out s'"
proof -
  let ?t = "server_ms now" and ?key = "redis_key S sid"
  have life: "lasting life" using assms(5) by (simp add: life_def lasting_def)
  note loop = watch_loop_ends [OF assms(3,4) life assms(1), of sid change]
  then show ?thesis
  proof (elim disjE exE conjE, goal_cases)
    case (1 n s1)
    then have "redis_modify S now sid change r e s = Some (Inr None, s1)" by (simp add: redis_modify_def Let_def life_def [symmetric])
    moreover have "modified_once S now sid change life s n None s1" using 1(1,2) by (simp add: modified_once_def others_done_def Let_def)
    ultimately show ?case by blast
  next
    case (2 n s1 v d)
    let ?w = "written ?t life ?key (fst (change v)) (alive ?t (stored s1))"
    define a where "a = s1\<lparr>stored := ?w\<rparr>"
    have a: "others_behave S (others_next a)" "alive ?t (stored a) = ?w" "others_next a = drop n (others_next s)"
      using 2(1,2) by (simp_all add: a_def written_alive [OF life]) (simp add: others_done_def)
    have "well_typed S (alive ?t (stored a))" unfolding a(2) using written_typed [OF assms(2) 2(3)] .
    then obtain s' where s': "index_value S now (fst (change v)) sid (ttl_or (rs_expiration S) e) a = (Inr (), s')"
      "\<And>k. k \<notin> range (user_key S) \<Longrightarrow>
        alive ?t (stored s') k = others_run ?t (take (index_turns S (fst (change v))) (others_next a)) (alive ?t (stored a)) k"
      using index_among_others [OF assms(1) a(1)] by metis
    have "redis_modify S now sid change r e s = Some (Inr (Some (change v)), s')"
      using 2(5) s'(1) by (simp add: redis_modify_def Let_def life_def [symmetric] a_def [symmetric] bind_run ret_run)
    moreover have "modified_once S now sid change life s n (Some (change v)) s'"
      using 2(1,4) s'(2) by (simp add: modified_once_def others_done_def Let_def a)
    ultimately show ?case by blast
  qed
qed

section \<open>Properties\<close>

definition own_storage :: "string \<Rightarrow> int \<Rightarrow> ('a \<Rightarrow> pyval option) \<Rightarrow> ('a server_state, 'a) redis_storage" where
  "own_storage p secs who = \<lparr>rs_client = server_connection, rs_owns_client = False, rs_prefix = p, rs_expiration = secs,
     rs_uuid = ''u'', rs_user_id = who\<rparr>"

definition idle_server :: "'a keyspace \<Rightarrow> 'a server_state" where
  "idle_server m = \<lparr>stored = m, others_next = [], watched = None, touched = False\<rparr>"

text \<open>
  C12. The storage on Redis keeps the specification of the port. Take any server that does what Redis documents and that
  nobody else writes to, a prefix that ends in a colon, and any sequence of the ten operations at increasing times with
  given ids and lifetimes of at least a second, in which every id keeps its user: what is written under it
  names that user, or nobody. Extensions and claims are only of ids that nobody owns, since \<open>extend\<close> and
  \<open>set_if_absent\<close> do not write the user index: after an extension past its end a live session of a user would be missing
  from it. Then the storage answers what the specification answers from the same live entries, the deletion's
  answer included, up to ids of sessions that are gone in the listing of a user's sessions; and every live session
  of a user stays in that user's index, which outlives it.
\<close>

theorem redis_store_keeps_specification:
  assumes "redis_server C keys quiet rounded" and "rs_client S = C" and "colon_prefix S" and "redis_ok quiet keys S whose start s"
    and "sorted (start # map fst ops)" and "\<forall>(t, op) \<in> set ops. redis_op_ok S whose op"
  shows "\<exists>as s'. map_prog (\<lambda>(t, op). run_op (redis_storage_of S) t op) ops s = (Inr as, s')
    \<and> spec_agrees (\<lambda>t e. redis_due t (ttl_or (rs_expiration S) e)) (owner S) ops (redis_view S (alive (server_ms start) (keys s))) as
    \<and> redis_ok quiet keys S whose (last (start # map fst ops)) s'"
  by (rule redis_server.ops_run [OF assms])

text \<open>Sessions \<open>a\<close> of user 7 and a pending OAuth state, which nobody owns.\<close>

definition sample_storage :: "(int server_state, int) redis_storage" where
  "sample_storage = own_storage ''session:'' 60 (\<lambda>v. if v = 0 then None else Some (VInt 7))"

definition sample_owner :: "string \<Rightarrow> pyval option" where
  "sample_owner sid = (if sid = ''state'' then None else Some (VInt 7))"

definition sample_ops :: "(int \<times> int store_op) list" where
  "sample_ops = [(0, OpCreate 5 ''a'' None), (1000000, OpClaim ''state'' 0 (Some 30)), (2000000, OpUpdate ''a'' 6 True None),
     (3000000, OpSessions (VInt 7)), (4000000, OpTake ''state''), (5000000, OpDelete ''state''), (62000000, OpGet ''a'')]"

theorem redis_store_keeps_specification_witness:
  "\<exists>as s'. map_prog (\<lambda>(t, op). run_op (redis_storage_of sample_storage) t op) sample_ops (idle_server Map.empty) = (Inr as, s')
    \<and> spec_agrees (\<lambda>t e. redis_due t (ttl_or (rs_expiration sample_storage) e)) (owner sample_storage) sample_ops
        (redis_view sample_storage (alive (server_ms 0) (stored (idle_server Map.empty)))) as
    \<and> redis_ok quiet_server stored sample_storage sample_owner 62000000 s'"
proof -
  have start: "redis_ok quiet_server stored sample_storage sample_owner 0 (idle_server Map.empty)"
    by (simp add: redis_ok_def quiet_server_def idle_server_def keys_ok_def record_ok_def index_ok_def alive_def)
  have "\<forall>(t, op) \<in> set sample_ops. redis_op_ok sample_storage sample_owner op" "sorted (0 # map fst sample_ops)"
    "last (0 # map fst sample_ops) = 62000000"
    by (simp_all add: sample_ops_def sample_storage_def own_storage_def sample_owner_def owner_def ttl_or_def)
  then show ?thesis
    using redis_store_keeps_specification [OF server.redis_server_axioms _ _ start, of sample_ops]
    by (simp add: sample_storage_def own_storage_def colon_prefix_def)
qed

text \<open>
  C22. The limiter on Redis keeps the specification of the counters. On every server that does what Redis documents, over any
  sequence of counter operations at increasing times, it answers exactly what the specification over timed counters
  answers, whether a forgotten key was there included, up to the clock and the rounding of the server.
\<close>

theorem redis_limiter_keeps_specification:
  assumes "redis_server C keys quiet rounded" and "rl_client L = C" and "quiet s" and "counters_only L (keys s)"
    and "sorted (start # map fst ops)" and "\<forall>(t, op) \<in> set ops. counter_ok (\<lambda>_. True) (\<lambda>e. 1 \<le> e) op"
  shows "fst (map_prog (\<lambda>(t, op). run_counter (redis_backend L) t op) ops s)
    = Inr (spec_counters redis_due (redis_left rounded) ops (redis_counters keys L start s))"
proof -
  have "redis_limiting C keys quiet rounded L" using assms(1,2) by (simp add: redis_limiting_def redis_limiting_axioms_def)
  from redis_limiting.limiter_run [OF this assms(3-6)] show ?thesis .
qed

theorem redis_limiter_keeps_specification_witness:
  "fst (map_prog (\<lambda>(t, op). run_counter (redis_backend (own_limiter True ''rl:'')) t op)
      [(0, CountUp ''k'' 2 60), (5000000, CountUp ''k'' 1 60), (59000000, LeftOf ''k''), (61000000, Forget ''k'')] (idle_server (Map.empty :: int keyspace)))
    = Inr [Number 2, Number 3, Number 1, WasThere False]"
  using redis_limiter_keeps_specification [OF server.redis_server_axioms, of "own_limiter True ''rl:''" "idle_server Map.empty" 0
      "[(0, CountUp ''k'' 2 60), (5000000, CountUp ''k'' 1 60), (59000000, LeftOf ''k''), (61000000, Forget ''k'')]"]
  by (simp add: own_limiter_def idle_server_def quiet_server_def counters_only_def redis_counters_def alive_def bump_def cnt_def
      armed_def expire_def expired_at_def redis_due_def server_ms_def seconds_left_def redis_left_def rounded_ms_def)

text \<open>
  C23. The window check the Redis limiter has of its own is the one it would inherit. In a window not counted yet, on
  every server that does what Redis documents, both count the requests of a key from one, limit exactly those
  beyond the allowance and tell them the same wait, though one arms the key once and the other at every request.
\<close>

theorem redis_window_check_as_inherited:
  assumes "redis_server C keys quiet rounded" and "rl_client L = C" and "quiet s" and "counters_only L (keys s)" and "0 < seconds l"
    and "sorted (t0 # ts)" and "\<forall>t \<in> set ts. window_of (seconds l) t = w" and "redis_counters keys L t0 s (wkey key w) = None"
  shows "fst (map_prog (\<lambda>t. redis_increment_and_check L t key (times l) (seconds l) open) ts s) = Inr (counted_from l 0 ts)
    \<and> fst (map_prog (\<lambda>t. increment_and_check (redis_backend L) t key (times l) (seconds l) open) ts s) = Inr (counted_from l 0 ts)"
proof -
  have limiting: "redis_limiting C keys quiet rounded L" using assms(1,2) by (simp add: redis_limiting_def redis_limiting_axioms_def)
  have fresh: "covers (redis_counters keys L t0 s) (wkey key w) ts" "cnt (redis_counters keys L t0 s) (wkey key w) = 0"
    using assms(8) by (simp_all add: covers_def armed_def cnt_def)
  have ok: "quiet s \<and> counters_only L (keys s)" and one: "1 \<le> seconds l" using assms(3-5) by simp_all
  note counts = redis_limiting.checks_count [OF limiting _ assms(5) ok assms(6,7) fresh]
  show ?thesis using counts [OF redis_limiting.own_checks [OF limiting one]] counts [OF redis_limiting.inherited_checks [OF limiting one]] by blast
qed

theorem redis_window_check_as_inherited_witness:
  "fst (map_prog (\<lambda>t. redis_increment_and_check (own_limiter True ''rl:'') t ''k'' 1 60 True) [0, 59000000] (idle_server (Map.empty :: int keyspace)))
    = Inr [(1, False, 0), (2, True, 1)]"
  using redis_window_check_as_inherited [OF server.redis_server_axioms, of "own_limiter True ''rl:''" "idle_server (Map.empty :: int keyspace)"
      "\<lparr>times = 1, seconds = 60\<rparr>" 0 "[0, 59000000]" 0 "''k''" True]
  by (simp add: own_limiter_def idle_server_def quiet_server_def counters_only_def redis_counters_def alive_def window_of_def usec_def
      window_result_def)

text \<open>
  C10. No modify on Redis loses a write of its own or of others. Whatever other clients write between its commands,
  as long as these are finitely many, it returns; if the session is there when it writes, it has written its change of
  exactly the value then stored, on the keys as the others left them, and answers that; later writes of the others come on
  top. If the session is gone, it answers so and changes nothing.
\<close>

theorem redis_modify_loses_no_write:
  fixes S :: "('a server_state, 'a) redis_storage"
  assumes "rs_client S = server_connection" and "colon_prefix S" and "others_behave S (others_next s)"
    and "well_typed S (alive (server_ms now) (stored s))" and "1 \<le> ttl_or (rs_expiration S) e"
  shows "\<exists>n out s'. redis_modify S now sid change r e s = Some (Inr out, s')
    \<and> modified_once S now sid change (if r then Ex_seconds (ttl_or (rs_expiration S) e) else KEEPTTL) s n out s'"
  by (rule modify_among_others [OF assms])

text \<open>Another client adds 10 to the session while it is being doubled: the doubling is of the sum.\<close>

definition adds_ten :: "string set \<times> (int keyspace \<Rightarrow> int keyspace)" where
  "adds_ten = ({''session:a''}, \<lambda>m. case m ''session:a'' of Some (Value v, d) \<Rightarrow> m(''session:a'' \<mapsto> (Value (v + 10), d)) | _ \<Rightarrow> m)"

definition overtaken_server :: "int server_state" where
  "overtaken_server = (idle_server (Map.empty(''session:a'' \<mapsto> (Value 1, Some 60000))))\<lparr>others_next := [({}, id), ({}, id), adds_ten]\<rparr>"

theorem redis_modify_loses_no_write_witness:
  "\<exists>n out s'. redis_modify sample_storage 0 ''a'' (\<lambda>v. (2 * v, ''ok'')) True None overtaken_server = Some (Inr out, s')
    \<and> modified_once sample_storage 0 ''a'' (\<lambda>v. (2 * v, ''ok'')) (Ex_seconds 60) overtaken_server n out s'"
proof -
  note defs = sample_storage_def own_storage_def user_key_def user_sessions_prefix_def USER_INDEX_SUFFIX_def get_key_def
  have "others_behave sample_storage (others_next overtaken_server)"
    by (auto simp: others_behave_def overtaken_server_def adds_ten_def well_typed_def defs split: option.splits content.splits)
  moreover have "well_typed sample_storage (alive (server_ms 0) (stored overtaken_server))"
    by (auto simp: overtaken_server_def idle_server_def well_typed_def alive_def defs)
  ultimately show ?thesis
    using redis_modify_loses_no_write [of sample_storage overtaken_server 0 None "''a''" "\<lambda>v. (2 * v, ''ok'')" True]
    by (simp add: sample_storage_def own_storage_def colon_prefix_def ttl_or_def)
qed

end
