(* ===== verification/Spec2Isabelle.thy ===== *)
theory Spec2Isabelle
  imports Challenges SudoLaws RegistrationLaws Usernames OAuthProviderLaws CounterLaws Places LifecycleLaws RedisServer
begin

text \<open>
  crudauth, an authentication library for FastAPI (\<open>src/crudauth\<close>): password logins with a
  lockout, server-side sessions and bearer tokens, CSRF checks, a second factor, sudo mode,
  registration, recovery by email, sign-in with OAuth providers, and the gates an application puts
  before its routes. The development models these parts as programs over explicit state and proves
  what makes them correct. A theory with the name of a part holds its definitions; where the laws
  are long, a theory \<open>...Laws\<close> holds them.

  How the code is read. A method that mutates state or may raise is a program of \<open>Prelude\<close>:
  a function from the state to a result, \<open>Inl\<close> an exception of \<open>exceptions.py\<close> (or a
  built-in one) and \<open>Inr\<close> a value, with the new state, kept also when it raises. An object's
  methods over its own state are embedded by \<open>zoom\<close> (\<open>in_db\<close>, \<open>in_sessions\<close>,
  \<open>in_limiter\<close>, \<open>in_app\<close>, ...). The state of a request is the record \<open>world\<close> of
  \<open>Runtime\<close>: the user table, the limiter's counters, the session, CSRF and challenge stores,
  the hooks' log, the response's cookies and headers, and the per-request caches. The recovery flows
  add the store of used links and the sent messages, the OAuth flows the pending states, as a pair
  with the world. Time is a whole number of microseconds; everything drawn at random is an argument,
  collected in the records \<open>fresh\<close> and \<open>oauth_fresh\<close>. Each \<open>await\<close> runs to its end:
  races are modelled where the code defends against them, as sequences of operations that hold
  values read earlier (row objects of any age in \<open>totp_steps_accepted_once\<close>,
  \<open>recovery_codes_accepted_once\<close> and \<open>compare_and_set_one_winner\<close>; repeated store operations
  in \<open>set_if_absent_one_winner\<close> and \<open>get_and_delete_hands_out_once\<close>).

  The parts, bottom up.
  \<^item> \<open>Prelude\<close>, \<open>Utils\<close>, \<open>Urls\<close>: exceptions with status and headers, programs,
    Python values and dictionaries; client addresses, redirect targets and canonical identifiers
    (\<open>utils/\<close>, with the parts of \<open>ipaddress\<close>, \<open>urllib.parse\<close> and \<open>str\<close> they
    call); \<open>oauth/paths.py\<close>. \<open>Hashlib\<close>, \<open>Json\<close>: SHA-1, SHA-256, HMAC on 32-bit words,
    base 32 and 64; \<open>json\<close>.
  \<^item> \<open>Limiter\<close>: the port and in-process backend of \<open>ratelimit/\<close>; the locale
    \<open>rate_limiter\<close> states the port's contract over the counters live at an instant, and the
    backend interprets it. \<open>Lockout\<close> relates \<open>policy.py\<close> to a specification over timed
    counters (\<open>lockout_refines_spec\<close>) and derives when it trips, holds, fails closed and that
    pressure is never laundered; \<open>RateLimits\<close> has the window limits, their keys and headers.
  \<^item> \<open>Storage\<close>: the store port and in-process backend of \<open>storage/\<close>; the locale
    \<open>session_store\<close> is its contract over live entries, interpreted by the backend. Locales of
    its clients extend it and are interpreted likewise: \<open>session_managing\<close> (sessions),
    \<open>challenge_service\<close> (login challenges), \<open>token_keeper\<close> (links used up),
    \<open>state_keeper\<close> (pending OAuth states). A property over the in-memory stores is the
    interpreted fact.
  \<^item> \<open>Sessions\<close>, \<open>SessionLaws\<close>: \<open>transports/session/manager.py\<close>; sessions validate
    within their windows, the cap is an invariant of every sequence of operations, revocation ends
    what it should and nothing else.
  \<^item> \<open>Repository\<close>: \<open>repository.py\<close> over a table of rows; lookups, what a signup may set,
    the conditional updates. \<open>Passwords\<close>: \<open>utils/hashing.py\<close> and \<open>password.py\<close>.
    \<open>Tokens\<close>: \<open>transports/bearer/tokens.py\<close>.
  \<^item> \<open>Runtime\<close>, \<open>LoginLaws\<close>: \<open>core.py\<close>, \<open>hooks.py\<close>, \<open>principal.py\<close>; the
    password check refuses alike whatever the reason. \<open>Transports\<close>, \<open>TransportLaws\<close>: the
    bearer and session transports; what a token is worth.
  \<^item> \<open>Totp\<close>, \<open>Mfa\<close>, \<open>MfaLaws\<close>, \<open>Enrollment\<close>, \<open>Challenges\<close>: \<open>mfa/\<close>. \<open>Sudo\<close>,
    \<open>SudoLaws\<close>: \<open>sudo.py\<close>.
  \<^item> \<open>Resolution\<close>, \<open>ResolutionLaws\<close>: \<open>resolution.py\<close> and the dependencies of
    \<open>crud_auth.py\<close>; the states one request can reach are the inductive \<open>request_reach\<close>, and
    over them no gate is skipped. \<open>Routes\<close>: login, logout, session management, second factor and
    account routes.
  \<^item> \<open>Email\<close>, \<open>EmailLaws\<close>, \<open>EmailRequests\<close>: \<open>email/\<close>. \<open>Registration\<close>,
    \<open>RegistrationLaws\<close>: \<open>register/route.py\<close>, \<open>provisioning.py\<close>.
  \<^item> \<open>OAuthAccounts\<close>, \<open>OAuthLaws\<close>, \<open>Usernames\<close>: \<open>oauth/service.py\<close>.
    \<open>OAuthProviders\<close>, \<open>OAuthProviderLaws\<close>: \<open>oauth/provider.py\<close>, \<open>providers/\<close>,
    \<open>factory.py\<close>. \<open>OAuthRoutes\<close>, \<open>OAuthRouteLaws\<close>: \<open>oauth/router.py\<close>.
  \<^item> \<open>Database\<close>: \<open>storage/backends/database.py\<close> and
    \<open>ratelimit/backends/database.py\<close>. A table is a list of rows under their keys, a statement a
    program over it; the state carries a list \<open>upcoming\<close> of what other workers do before each
    attempt of a transaction and of the error it may meet. \<open>DatabaseLaws\<close>: on a database nobody
    else uses, the storage keeps \<open>timed_store\<close>, the contract of the port up to a clock
    of milliseconds (\<open>session_store\<close> is its instance for the in-process clock).
    \<open>StoreSpec\<close>: the ten operations every backend has (\<open>run_op\<close>) answer what one specification
    answers, the database exactly, the in-process store but for its answer to the deletion of an ended entry
    (\<open>ended_entry_deleted\<close>). \<open>run_table\<close> adds scans and deletions by pattern: under operations of a
    storage that keep to its own prefix (\<open>keeps_to_own\<close>), a storage of an unrelated prefix on the table
    is not touched. \<open>DatabaseRaces\<close>: among other workers, a modify writes its change of the
    value it read over a row of the version it read, a transaction
    rolled back is run again and takes effect once, purges end, and the statements chosen for an engine
    agree. \<open>recreation_is_overwritten\<close> shows the one writer the version column does not see: one
    that deletes a row and creates it again.
    \<open>CounterLaws\<close>: the limiters in process and in the database both keep \<open>timed_counters\<close>,
    so one specification answers for both, but for the answer in process to the deletion of an ended counter
    (\<open>ended_counter_forgotten\<close>), and a lock set in the database holds to its last millisecond.
  \<^item> \<open>Redis\<close>: \<open>storage/backends/redis.py\<close> and \<open>ratelimit/backends/redis.py\<close>
    as the commands they send, over a connection that is a parameter. \<open>RedisLaws\<close> states what
    is assumed of the server, the locale \<open>redis_server\<close>: commands do to keys with deadlines what the
    Redis documentation says, and a transaction is one step. Over every such server
    \<open>RedisStore\<close> proves that the storage keeps the specification of the port, with each live session in
    an index that outlives it, while extensions and claims (which write no index) are of ids nobody owns, and \<open>RedisCounters\<close> (locale \<open>redis_limiting\<close>) that the limiter keeps
    \<open>timed_counters\<close> and that its own window check is the inherited one. \<open>RedisServer\<close> interprets
    both on a keyspace that other clients may write to between commands, and shows that \<open>modify\<close>, a
    \<open>partial_function\<close> because the code may loop, returns after finitely many writes of others and loses none.
  \<^item> \<open>Construction\<close>: how an application is put together, from
    \<open>SessionTransport.__init__\<close> and \<open>bind\<close>, \<open>get_session_storage\<close> and the
    constructor of \<open>CRUDAuth\<close> with its helpers; the state of a construction is what it logs and the
    Redis clients it opens; the verdicts of \<open>Redis.from_url\<close> on a URL and of FastAPI on the prefix and
    paths of the OAuth router are fields of the parameter \<open>environment\<close>, and so refusals of the construction. \<open>ConstructionLaws\<close> gives every step its outcome (\<open>done_app\<close>),
    \<open>Applications\<close> says which settings are accepted and what an application that was built can rely on,
    \<open>Places\<close> where its state lives and that its stores on one database do not meet.
    \<open>Lifecycle\<close>, \<open>LifecycleLaws\<close>: \<open>initialize\<close>, \<open>shutdown\<close> and the routers, as lists
    of methods and paths.
  \<^item> This theory: the eviction after a password change, across tokens, challenges and sessions.

  Where an error passes through more than one part it is followed to the answer: what a refusal
  looks like and that it leaves the same state is part of \<open>password_check_outcomes\<close>,
  \<open>requests_reveal_nothing\<close>, \<open>registration_reveals_nothing\<close>, \<open>oauth_callback_outcomes\<close>.

  Parameters and what is asked of them. Code that is not part of the package is a field of a record
  or an argument, with its documented behaviour as a named hypothesis, and each such hypothesis has
  a concrete instance in the witnesses: bcrypt and Unicode normalization (\<open>crypto\<close>;
  \<open>bcrypt_verifies\<close>, \<open>bcrypt_shape\<close>), PyJWT (\<open>jwt\<close>; \<open>jwt_decodes\<close>), Fernet
  (\<open>fernet\<close>; \<open>service_decrypts\<close>), the database's insertion and unique constraints
  (\<open>insert_row\<close>, \<open>es_unique\<close>), the reading of a subject claim as a primary key
  (\<open>subject_finds\<close>), HTTP (\<open>http_client\<close>), what a Redis URL, a router path and a Fernet key are
  (\<open>environment\<close>), the application's hooks, senders, channels,
  validators and custom providers. Hooks, senders and channels are observers: they answer or raise,
  and what they are handed is logged.

  Bounds and fuel. The only functions on fuel are the JSON reader, which is given twice the length
  of the text (every two calls consume a character), and the loop that claims a recovery code,
  which the source bounds itself. The search for a free username is bounded by the source's
  \<open>USERNAME_MAX_SUFFIX_ATTEMPTS\<close>. All other functions are total by structural recursion or a
  measure. Text is code points below 256.

  Not modelled: the Redis server and its client library (parameters with their documented behaviour), the model mixin, the
  protocols and \<open>identity.py\<close>, which only declare, and what FastAPI does with a route once it has accepted its path.
\<close>

section \<open>Eviction after a password change\<close>

lemma kept_session_run:
  fixes w :: "('b, session_data mem_store, csrf_token mem_store, 'm) world"
  assumes "world_ok g cfg (sess w)" and "0 \<le> session_timeout cfg" and "L = live_sessions g cfg t (sess w)"
  shows "\<exists>b s. (case keep of None \<Rightarrow> ret False | Some sid \<Rightarrow> if sid = [] then ret False
        else in_sessions (set_token_version (mem_manager g cfg) t sid v)) w = (Inr b, w\<lparr>sess := s\<rparr>)
    \<and> world_ok g cfg s
    \<and> live_sessions g cfg t s = (\<lambda>k. if (\<exists>sid. keep = Some sid \<and> sid \<noteq> [] \<and> k = session_key cfg sid)
        then map_option (\<lambda>(d, x). (d\<lparr>token_version := Some v\<rparr>, x)) (L k) else L k)"
proof (cases "\<exists>sid. keep = Some sid \<and> sid \<noteq> []")
  case True
  then obtain sid where sid: "keep = Some sid" "sid \<noteq> []" by blast
  let ?ch = "\<lambda>c. c\<lparr>token_version := Some v\<rparr>"
  obtain s where s: "in_sessions (modify_session (mem_manager g cfg) t sid ?ch) w
      = (Inr (map_option ?ch (val_of L (session_key cfg sid))), w\<lparr>sess := s\<rparr>)" "world_ok g cfg s"
    "live_sessions g cfg t s = (case L (session_key cfg sid) of None \<Rightarrow> L | Some (d, x) \<Rightarrow> L(session_key cfg sid \<mapsto> (?ch d, x)))"
    using rewrite_run [OF assms(1,2) refl assms(3), of sid ?ch] by blast
  then show ?thesis using sid
    by (auto simp: set_token_version_def in_sessions_run bind_run ret_run fun_eq_iff split: option.splits)
next
  case False
  then show ?thesis using assms by (intro exI [of _ False] exI [of _ "sess w"]) (auto simp: ret_run split: option.split)
qed

lemma evict_run:
  fixes w :: "('b, session_data mem_store, csrf_token mem_store, 'm) world"
  assumes "the_session_manager A = Some (mem_manager g cfg)" and "R = repo (runtime A)"
    and "user_row R uid (db w) = Some u" and "p_user_id p = uid" and "has_col R ''token_version''"
    and "col R ''token_version'' \<noteq> col R ''id''" and "u (col R ''token_version'') = Some (VInt n)"
    and "world_ok g cfg (sess w)" and "0 \<le> session_timeout cfg" and "L = live_sessions g cfg (now f) (sess w)"
    and "out = evict_others A f p u w" and "u' = u(col R ''token_version'' \<mapsto> VInt (n + 1))"
    and "kept = (\<lambda>k. \<exists>sid. p_session_id p = Some sid \<and> sid \<noteq> [] \<and> k = session_key cfg sid)"
  shows "fst out = Inr u'" and "user_row R uid (db (snd out)) = Some u'"
    and "live_sessions g cfg (now f) (sess (snd out)) = (\<lambda>k. if kept k then map_option (\<lambda>(d, x). (d\<lparr>token_version := Some (n + 1)\<rparr>, x)) (L k)
           else if k \<in> owned sess_user uid L then None else L k)"
proof -
  note inc = increment_run [OF assms(3) pk_user_row [OF assms(3)] assms(5-7)]
  have v: "row_token_version R u' = n + 1" by (simp add: assms(12) row_token_version_def get_field_def int_value_def)
  let ?w = "w\<lparr>db := snd (increment_token_version R u (db w))\<rparr>"
  obtain b s where s: "(case p_session_id p of None \<Rightarrow> ret False | Some sid \<Rightarrow> if sid = [] then ret False
        else in_sessions (set_token_version (mem_manager g cfg) (now f) sid (n + 1))) ?w = (Inr b, ?w\<lparr>sess := s\<rparr>)" "world_ok g cfg s"
    "live_sessions g cfg (now f) s = (\<lambda>k. if kept k then map_option (\<lambda>(d, x). (d\<lparr>token_version := Some (n + 1)\<rparr>, x)) (L k) else L k)"
    using kept_session_run [where g = g and cfg = cfg and w = ?w and L = L and t = "now f" and keep = "p_session_id p" and v = "n + 1"] assms(8-10) unfolding assms(13) by auto
  let ?w2 = "?w\<lparr>sess := s\<rparr>"
  let ?L = "live_sessions g cfg (now f) s"
  define gone where "gone = {k \<in> owned sess_user uid ?L. \<forall>x. p_session_id p = Some x \<longrightarrow> x \<noteq> [] \<longrightarrow> k \<noteq> session_key cfg x}"
  have rv: "fst (revoke_all (mem_manager g cfg) (now f) uid (p_session_id p) s) = Inr (int (card gone))"
    "live_sessions g cfg (now f) (snd (revoke_all (mem_manager g cfg) (now f) uid (p_session_id p) s)) = drop_keys gone ?L"
    using sm.revoke_all_run [of g cfg s gone uid "now f" "p_session_id p"] s(2) by (auto simp: gone_def world_defs)
  have i: "in_db (increment_token_version R u) w = (Inr u', ?w)" using inc(1) by (simp add: in_db_run assms(12))
  have out: "out = (Inr u', ?w2\<lparr>sess := snd (revoke_all (mem_manager g cfg) (now f) uid (p_session_id p) s)\<rparr>)"
  proof -
    have "out = bind (case p_session_id p of None \<Rightarrow> ret False | Some sid \<Rightarrow> if sid = [] then ret False
        else in_sessions (set_token_version (mem_manager g cfg) (now f) sid (n + 1))) (\<lambda>_.
          bind (in_sessions (revoke_all (mem_manager g cfg) (now f) uid (p_session_id p))) (\<lambda>_. ret u')) ?w"
      unfolding assms(11) evict_others_def assms(1) assms(2) [symmetric] assms(4) bind_run [of "in_db _"] i
        fst_conv snd_conv sum.case option.case v ..
    also have "\<dots> = bind (in_sessions (revoke_all (mem_manager g cfg) (now f) uid (p_session_id p))) (\<lambda>_. ret u') ?w2"
      unfolding bind_run [of "case p_session_id p of None \<Rightarrow> ret False | Some sid \<Rightarrow> _ sid"] s(1) fst_conv snd_conv sum.case ..
    also have "\<dots> = (Inr u', ?w2\<lparr>sess := snd (revoke_all (mem_manager g cfg) (now f) uid (p_session_id p) s)\<rparr>)"
      using rv(1) by (simp add: bind_run in_sessions_run ret_run)
    finally show ?thesis .
  qed
  have "k \<in> gone \<longleftrightarrow> \<not> kept k \<and> k \<in> owned sess_user uid L" for k
    by (auto simp: gone_def s(3) owned_def assms(13) split: if_splits)
  then show "live_sessions g cfg (now f) (sess (snd out)) = (\<lambda>k. if kept k then map_option (\<lambda>(d, x). (d\<lparr>token_version := Some (n + 1)\<rparr>, x)) (L k)
           else if k \<in> owned sess_user uid L then None else L k)"
    using rv(2) by (auto simp: out fun_eq_iff drop_keys_apply s(3))
  show "fst out = Inr u'" "user_row R uid (db (snd out)) = Some u'" using inc(2) by (simp_all add: out assms(12))
qed

text \<open>
  C1. A password change evicts. After the eviction behind \<open>/change-password\<close> the account's
  version is one higher. Every access token and every refresh token issued under an earlier
  version is worth nothing, at any later time; no login challenge raised under an earlier version
  can be answered; the account has no live session but the one the change was made through, which
  is carried over to the new version; and no session of another account is touched.
\<close>

theorem password_change_evicts:
  fixes w :: "('b, session_data mem_store, csrf_token mem_store, 'm) world"
  assumes "the_session_manager A = Some (mem_manager g cfg)" and "T = runtime A" and "R = repo T"
    and "user_row R uid (db w) = Some u" and "p_user_id p = uid" and "has_col R ''token_version''"
    and "col R ''token_version'' \<noteq> col R ''id''" and "u (col R ''token_version'') = Some (VInt n)"
    and "world_ok g cfg (sess w)" and "0 \<le> session_timeout cfg" and "L = live_sessions g cfg (now f) (sess w)"
    and "out = evict_others A f p u w" and "L' = live_sessions g cfg (now f) (sess (snd out))"
    and "jwt_decodes (jwt_lib T)" and "subject_finds R uid" and "access_ttl B \<noteq> 0" and "refresh_ttl_days B \<noteq> 0"
    and "pk R u0 = uid" and "row_token_version R u0 \<le> n" and "db w' = db (snd out)" and "user_cache w' = []"
  shows "(\<exists>u'. fst out = Inr u' \<and> user_row R uid (db (snd out)) = Some u' \<and> row_token_version R u' = n + 1)
    \<and> (\<forall>f' r t ss. bearer_header r (access_token T B t u0 ss) \<longrightarrow> fst (authenticate_bearer T f' r w') = Inr None)
    \<and> (\<forall>f' r b t ss. read_refresh B r b = VStr (refresh_token_of T B t u0 ss) \<longrightarrow> refresh_token_of T B t u0 ss \<noteq> [] \<longrightarrow>
         refresh_route T B f' r b w' = (Inl BAD_REFRESH, w'))
    \<and> (\<forall>V f' r code ch. account_id ch = uid \<longrightarrow> coerce_id R uid = Some uid \<longrightarrow> ch_version ch \<le> n \<longrightarrow> \<not> answered T V f' r code ch w')
    \<and> (\<forall>k d x. L' k = Some (d, x) \<longrightarrow> py_str (user_id d) = py_str uid \<longrightarrow>
         (\<exists>sid. p_session_id p = Some sid \<and> k = session_key cfg sid \<and> token_version d = Some (n + 1)))
    \<and> (\<forall>sid d x. p_session_id p = Some sid \<longrightarrow> sid \<noteq> [] \<longrightarrow> L (session_key cfg sid) = Some (d, x) \<longrightarrow>
         L' (session_key cfg sid) = Some (d\<lparr>token_version := Some (n + 1)\<rparr>, x))
    \<and> (\<forall>k. k \<notin> owned sess_user uid L \<longrightarrow> (\<forall>sid. p_session_id p = Some sid \<longrightarrow> k \<noteq> session_key cfg sid) \<longrightarrow> L' k = L k)"
proof -
  define u' where "u' = u(col R ''token_version'' \<mapsto> VInt (n + 1))"
  have R: "R = repo (runtime A)" by (simp add: assms(2,3))
  note ev = evict_run [OF assms(1) R assms(4-12) u'_def refl]
  have v: "row_token_version R u' = n + 1" by (simp add: u'_def row_token_version_def get_field_def int_value_def)
  have row: "user_row (repo T) (pk (repo T) u0) (db w') = Some u'" using ev(2) assms(18,20) by (simp add: assms(3))
  have sub: "subject_finds (repo T) (pk (repo T) u0)" using assms(15,18) by (simp add: assms(3))
  have dead: "\<not> accepted_version (repo T) (row_token_version (repo T) u0) u'"
    using v assms(19) by (simp add: accepted_version_def assms(3))
  have access: "fst (authenticate_bearer T f' r w') = Inr None" if "bearer_header r (access_token T B t u0 ss)" for f' r t ss
    using authenticate_bearer_run [OF assms(14,16) sub that row assms(21)] dead by simp
  have refresh: "refresh_route T B f' r b w' = (Inl BAD_REFRESH, w')"
    if "read_refresh B r b = VStr (refresh_token_of T B t u0 ss)" and "refresh_token_of T B t u0 ss \<noteq> []" for f' r b t ss
    using refresh_route_run [OF assms(14,17) sub that row] dead by simp
  have challenge: "\<not> answered T V f' r code ch w'"
    if "account_id ch = uid" and "coerce_id R uid = Some uid" and "ch_version ch \<le> n" for V f' r code ch
  proof -
    have "has_col R ''id''" using assms(15) by (simp add: subject_finds_def)
    then have "get_by_id (repo T) (account_id ch) (db w') = (Inr (Some u'), db w')"
      using get_by_id_run [of R uid uid "db w'" u'] that ev(2) assms(20) by (simp add: assms(3))
    then show ?thesis using v that(3) by (auto simp: answered_def assms(3))
  qed
  have own: "\<exists>sid. p_session_id p = Some sid \<and> k = session_key cfg sid \<and> token_version d = Some (n + 1)"
    if "L' k = Some (d, x)" and "py_str (user_id d) = py_str uid" for k d x
    using that unfolding assms(13) ev(3) by (auto simp: owned_def split: if_splits)
  have others: "L' k = L k" if "k \<notin> owned sess_user uid L" "\<forall>sid. p_session_id p = Some sid \<longrightarrow> k \<noteq> session_key cfg sid" for k
    using that unfolding assms(13) ev(3) by auto
  have kept: "L' (session_key cfg sid) = Some (d\<lparr>token_version := Some (n + 1)\<rparr>, x)"
    if "p_session_id p = Some sid" and "sid \<noteq> []" and "L (session_key cfg sid) = Some (d, x)" for sid d x
    using that unfolding assms(13) ev(3) by auto
  show ?thesis using ev(1,2) v access refresh challenge own kept others by blast
qed

theorem password_change_evicts_witness:
  "(\<exists>u'. fst (evict_others demo_auth demo_fresh (demo_principal\<lparr>p_user_id := VStr ''7'', p_session_id := None\<rparr>) (text_id_row 1)
     (demo_app [text_id_row 1])) = Inr u' \<and> row_token_version demo_repo u' = 2)
   \<and> fst (authenticate_bearer demo_runtime demo_fresh (bearer_request (access_token demo_runtime demo_bearer 0 (text_id_row 1) []))
     ((snd (evict_others demo_auth demo_fresh (demo_principal\<lparr>p_user_id := VStr ''7'', p_session_id := None\<rparr>) (text_id_row 1)
        (demo_app [text_id_row 1])))\<lparr>user_cache := []\<rparr>)) = Inr None"
proof -
  let ?p = "demo_principal\<lparr>p_user_id := VStr ''7'', p_session_id := None\<rparr>"
  let ?out = "evict_others demo_auth demo_fresh ?p (text_id_row 1) (demo_app [text_id_row 1])"
  have A: "the_session_manager demo_auth = Some (mem_manager ''g'' default_options)" "runtime demo_auth = demo_runtime"
    by (simp_all add: demo_auth_def the_session_manager_def demo_runtime_def)
  have c: "has_col demo_repo ''token_version''" "col demo_repo ''token_version'' \<noteq> col demo_repo ''id''"
    "text_id_row 1 (col demo_repo ''token_version'') = Some (VInt 1)"
    by (simp_all add: demo_repo_def has_col_def col_def text_id_row_def demo_row_def)
  have B: "access_ttl demo_bearer \<noteq> 0" "refresh_ttl_days demo_bearer \<noteq> 0" by (simp_all add: demo_bearer_def)
  have h: "bearer_header (bearer_request (access_token demo_runtime demo_bearer 0 (text_id_row 1) []))
      (access_token demo_runtime demo_bearer 0 (text_id_row 1) [])"
    by (simp add: bearer_header_def bearer_request_def header_def header_list_def demo_token_nonempty)
  note th = password_change_evicts [OF A(1) A(2) [symmetric] refl, of "VStr ''7''" "demo_app [text_id_row 1]" "text_id_row 1" ?p 1
      _ demo_fresh ?out _ demo_bearer "text_id_row 1" "(snd ?out)\<lparr>user_cache := []\<rparr>", OF _ _ _ _ _ _ _ refl refl refl]
  show ?thesis using th c B h by (auto simp: text_id_row_facts demo_jwt_decodes default_options_def)
qed

end
